(* ===== verification/Workbench_Prelude.thy ===== *)
theory Workbench_Prelude
  imports Main "HOL-Library.List_Lexorder" "HOL-Library.Char_ord" "HOL-Library.Multiset"
begin

text \<open>
  Shared vocabulary of the development.

  \<^item> Go strings are byte strings: \<open>string\<close> (a list of \<open>char\<close>, one byte each). The
    lexicographic order of \<open>HOL-Library.List_Lexorder\<close> over the byte order of
    \<open>Char_ord\<close> is Go's order on strings, so \<open>sort\<close> is \<open>slices.Sort\<close>.
  \<^item> A Go function that returns a value or an error returns \<open>'e + 'a\<close>: \<open>Inl\<close>
    carries the error, \<open>Inr\<close> the value.
  \<^item> The pieces of package \<open>strings\<close>, \<open>bytes\<close> and \<open>slices\<close> that the source uses are
    defined here, with the lemmas the components share.
  \<^item> The locale \<open>kept_invariant\<close> is the contract of every event-sourced component: a
    step function, an invariant and a guard under which a step keeps it. Its lemma
    lifts one-step preservation to whole logs.
\<close>

named_theorems go_simps \<open>evaluation rules for the string and slice helpers\<close>

section \<open>Results\<close>

fun result_bind :: "'e + 'a \<Rightarrow> ('a \<Rightarrow> 'e + 'b) \<Rightarrow> 'e + 'b" where
  "result_bind (Inl e) f = Inl e"
| "result_bind (Inr x) f = f x"

text \<open>A loop that stops at the first error and collects the values otherwise.\<close>

fun result_list :: "('a \<Rightarrow> 'e + 'b) \<Rightarrow> 'a list \<Rightarrow> 'e + 'b list" where
  "result_list f [] = Inr []"
| "result_list f (x # xs) =
     (case f x of Inl e \<Rightarrow> Inl e
      | Inr y \<Rightarrow> (case result_list f xs of Inl e \<Rightarrow> Inl e | Inr ys \<Rightarrow> Inr (y # ys)))"

text \<open>A loop that only checks: the first error, or success.\<close>

fun first_error :: "('a \<Rightarrow> 'e + unit) \<Rightarrow> 'a list \<Rightarrow> 'e + unit" where
  "first_error f [] = Inr ()"
| "first_error f (x # xs) = (case f x of Inl e \<Rightarrow> Inl e | Inr _ \<Rightarrow> first_error f xs)"

lemma result_bind_Inr [simp]:
  "result_bind m f = Inr y \<longleftrightarrow> (\<exists>x. m = Inr x \<and> f x = Inr y)"
  by (cases m) auto

lemma first_error_Inr [simp]: "first_error f xs = Inr u \<longleftrightarrow> (\<forall>x \<in> set xs. f x = Inr ())"
  by (induction xs) (auto split: sum.splits)

lemma result_list_Inr:
  "result_list f xs = Inr ys \<longleftrightarrow> list_all2 (\<lambda>x y. f x = Inr y) xs ys"
proof (induction xs arbitrary: ys)
  case Nil
  then show ?case by (auto simp: eq_commute)
next
  case (Cons x xs)
  show ?case
    by (cases "f x"; cases "result_list f xs"; cases ys) (auto simp: Cons [symmetric])
qed

section \<open>Strings\<close>

definition has_prefix :: "'a list \<Rightarrow> 'a list \<Rightarrow> bool" where
  "has_prefix s p \<longleftrightarrow> take (length p) s = p"

definition has_suffix :: "'a list \<Rightarrow> 'a list \<Rightarrow> bool" where
  "has_suffix s p \<longleftrightarrow> length p \<le> length s \<and> drop (length s - length p) s = p"

definition trim_prefix :: "'a list \<Rightarrow> 'a list \<Rightarrow> 'a list" where
  "trim_prefix s p = (if has_prefix s p then drop (length p) s else s)"

definition trim_suffix :: "'a list \<Rightarrow> 'a list \<Rightarrow> 'a list" where
  "trim_suffix s p = (if has_suffix s p then take (length s - length p) s else s)"

text \<open>\<open>strings.TrimRight\<close> with a cutset of one character.\<close>

definition trim_right :: "'a \<Rightarrow> 'a list \<Rightarrow> 'a list" where
  "trim_right c s = rev (dropWhile (\<lambda>x. x = c) (rev s))"

text \<open>\<open>strings.Cut\<close> with a separator of one character: before, after, found.\<close>

fun cut :: "char \<Rightarrow> string \<Rightarrow> string \<times> string \<times> bool" where
  "cut c [] = ([], [], False)"
| "cut c (x # xs) =
     (if x = c then ([], xs, True)
      else case cut c xs of (b, a, ok) \<Rightarrow> (x # b, a, ok))"

text \<open>\<open>strings.Join\<close>.\<close>

fun join :: "'a list \<Rightarrow> 'a list list \<Rightarrow> 'a list" where
  "join sep [] = []"
| "join sep [x] = x"
| "join sep (x # y # xs) = x @ sep @ join sep (y # xs)"

text \<open>\<open>bytes.Split\<close> with a separator of one character; never empty.\<close>

fun split_on :: "char \<Rightarrow> string \<Rightarrow> string list" where
  "split_on c [] = [[]]"
| "split_on c (x # xs) =
     (if x = c then [] # split_on c xs
      else case split_on c xs of [] \<Rightarrow> [[x]] | l # ls \<Rightarrow> (x # l) # ls)"

text \<open>
  \<open>strings.TrimSpace\<close> strips the runes of \<open>unicode.IsSpace\<close> from both ends. Over bytes
  these are the UTF-8 encodings listed here, from the six ASCII spaces to U+3000.
\<close>

definition space_encodings :: "string list" where
  "space_encodings =
     [[CHR 0x20], [CHR 0x09], [CHR 0x0A], [CHR 0x0B], [CHR 0x0C], [CHR 0x0D],
      [CHR 0xC2, CHR 0x85], [CHR 0xC2, CHR 0xA0], [CHR 0xE1, CHR 0x9A, CHR 0x80],
      [CHR 0xE2, CHR 0x80, CHR 0x80], [CHR 0xE2, CHR 0x80, CHR 0x81],
      [CHR 0xE2, CHR 0x80, CHR 0x82], [CHR 0xE2, CHR 0x80, CHR 0x83],
      [CHR 0xE2, CHR 0x80, CHR 0x84], [CHR 0xE2, CHR 0x80, CHR 0x85],
      [CHR 0xE2, CHR 0x80, CHR 0x86], [CHR 0xE2, CHR 0x80, CHR 0x87],
      [CHR 0xE2, CHR 0x80, CHR 0x88], [CHR 0xE2, CHR 0x80, CHR 0x89],
      [CHR 0xE2, CHR 0x80, CHR 0x8A], [CHR 0xE2, CHR 0x80, CHR 0xA8],
      [CHR 0xE2, CHR 0x80, CHR 0xA9], [CHR 0xE2, CHR 0x80, CHR 0xAF],
      [CHR 0xE2, CHR 0x81, CHR 0x9F], [CHR 0xE3, CHR 0x80, CHR 0x80]]"

text \<open>The length of the first encoding of the list that starts the string, or 0.\<close>

fun lead_match :: "string list \<Rightarrow> string \<Rightarrow> nat" where
  "lead_match [] s = 0"
| "lead_match (p # ps) s = (if has_prefix s p then length p else lead_match ps s)"

function strip_lead :: "string list \<Rightarrow> string \<Rightarrow> string" where
  "strip_lead ps s =
     (if s = [] \<or> lead_match ps s = 0 then s else strip_lead ps (drop (lead_match ps s) s))"
  by pat_completeness auto
termination by (relation "measure (\<lambda>(ps, s). length s)") auto

declare strip_lead.simps [simp del]

definition trim_space :: "string \<Rightarrow> string" where
  "trim_space s =
     rev (strip_lead (map rev space_encodings) (rev (strip_lead space_encodings s)))"

definition blank :: "string \<Rightarrow> bool" where
  "blank s \<longleftrightarrow> trim_space s = []"

text \<open>\<open>strings.Fields\<close>: the maximal words between spaces.\<close>

fun take_word :: "string \<Rightarrow> string \<times> string" where
  "take_word [] = ([], [])"
| "take_word (c # cs) =
     (if lead_match space_encodings (c # cs) \<noteq> 0 then ([], c # cs)
      else case take_word cs of (w, r) \<Rightarrow> (c # w, r))"

lemma length_strip_lead: "length (strip_lead ps s) \<le> length s"
  by (induction ps s rule: strip_lead.induct)
    (subst strip_lead.simps, auto simp: Let_def intro: order.trans)

lemma strip_lead_stops: "strip_lead ps s = [] \<or> lead_match ps (strip_lead ps s) = 0"
  by (induction ps s rule: strip_lead.induct)
    (subst (1 2) strip_lead.simps, auto)

lemma length_take_word: "length (snd (take_word s)) \<le> length s"
  by (induction s) (auto split: prod.splits)

function words_of :: "string \<Rightarrow> string list" where
  "words_of s =
     (let t = strip_lead space_encodings s in
      if t = [] then [] else fst (take_word t) # words_of (snd (take_word t)))"
  by pat_completeness auto
termination
proof (relation "measure length", goal_cases)
  case (2 s t)
  then obtain c cs where t: "t = c # cs" by (meson neq_Nil_conv)
  have "lead_match space_encodings t = 0" using strip_lead_stops [of space_encodings s] 2 t by auto
  then have "length (snd (take_word t)) \<le> length cs"
    using length_take_word [of cs] t by (auto split: prod.splits)
  also have "\<dots> < length s"
    using length_strip_lead [of space_encodings s] 2(1) t by (metis Suc_le_lessD length_Cons)
  finally show ?case by simp
qed simp

declare words_of.simps [simp del]

definition is_upper :: "char \<Rightarrow> bool" where
  "is_upper c \<longleftrightarrow> CHR ''A'' \<le> c \<and> c \<le> CHR ''Z''"

definition is_lower :: "char \<Rightarrow> bool" where
  "is_lower c \<longleftrightarrow> CHR ''a'' \<le> c \<and> c \<le> CHR ''z''"

definition is_digit :: "char \<Rightarrow> bool" where
  "is_digit c \<longleftrightarrow> CHR ''0'' \<le> c \<and> c \<le> CHR ''9''"

section \<open>Slices\<close>

text \<open>The loop that keeps the first occurrence of every value.\<close>

definition keep_new :: "'a list \<Rightarrow> 'a \<Rightarrow> 'a list" where
  "keep_new out v = (if v \<in> set out then out else out @ [v])"

definition unique :: "'a list \<Rightarrow> 'a list" where
  "unique values = foldl keep_new [] values"

lemma set_keep_new [simp]: "set (keep_new out v) = insert v (set out)"
  by (auto simp: keep_new_def)

lemma distinct_keep_new [simp]: "distinct (keep_new out v) \<longleftrightarrow> distinct out"
  by (auto simp: keep_new_def)

lemma set_foldl_keep_new: "set (foldl keep_new out xs) = set out \<union> set xs"
  by (induction xs arbitrary: out) auto

lemma distinct_foldl_keep_new: "distinct (foldl keep_new out xs) \<longleftrightarrow> distinct out"
  by (induction xs arbitrary: out) auto

lemma set_unique [simp]: "set (unique xs) = set xs"
  by (simp add: unique_def set_foldl_keep_new)

lemma distinct_unique [simp]: "distinct (unique xs)"
  by (simp add: unique_def distinct_foldl_keep_new)

lemma length_unique: "length (unique xs) = length xs \<longleftrightarrow> distinct xs"
proof -
  have "length (unique xs) = card (set xs)"
    using distinct_card [of "unique xs"] by simp
  then show ?thesis by (metis card_distinct distinct_card)
qed

section \<open>Lemmas on the string helpers\<close>

lemma has_prefix_iff: "has_prefix s p \<longleftrightarrow> (\<exists>t. s = p @ t)"
  by (metis append_eq_conv_conj append_take_drop_id has_prefix_def)

lemma has_suffix_iff: "has_suffix s p \<longleftrightarrow> (\<exists>t. s = t @ p)"
proof
  assume "has_suffix s p"
  then show "\<exists>t. s = t @ p" unfolding has_suffix_def by (metis append_take_drop_id)
next
  assume "\<exists>t. s = t @ p"
  then show "has_suffix s p" by (auto simp: has_suffix_def)
qed

lemma has_prefix_append [simp]: "has_prefix (p @ t) p"
  by (auto simp: has_prefix_iff)

lemma has_suffix_append [simp]: "has_suffix (t @ p) p"
  by (auto simp: has_suffix_iff)

lemma trim_prefix_append [simp]: "trim_prefix (p @ t) p = t"
  by (simp add: trim_prefix_def)

lemma trim_suffix_append [simp]: "trim_suffix (t @ p) p = t"
  by (simp add: trim_suffix_def)

lemma cut_append: "c \<notin> set b \<Longrightarrow> cut c (b @ c # a) = (b, a, True)"
  by (induction b) auto

lemma cut_foundD: "cut c s = (b, a, True) \<Longrightarrow> s = b @ c # a \<and> c \<notin> set b"
proof (induction s arbitrary: b)
  case (Cons x xs)
  then show ?case by (cases "x = c"; cases "cut c xs") auto
qed simp

lemma cut_missing: "c \<notin> set s \<Longrightarrow> cut c s = (s, [], False)"
  by (induction s) auto

lemma join_snoc: "xs \<noteq> [] \<Longrightarrow> join sep (xs @ [y]) = join sep xs @ sep @ y"
  by (induction sep xs rule: join.induct) auto

lemma split_on_nonempty [simp]: "split_on c s \<noteq> []"
  by (induction s) (auto split: list.splits)

lemma join_split_on: "join [c] (split_on c s) = s"
proof (induction s)
  case (Cons x xs)
  then show ?case by (cases "split_on c xs"; cases "tl (split_on c xs)") auto
qed simp

lemma split_on_no_sep: "l \<in> set (split_on c s) \<Longrightarrow> c \<notin> set l"
  by (induction s arbitrary: l) (auto split: if_splits list.splits)

section \<open>Event-sourced components\<close>

text \<open>
  A component that applies a log of events to a state: \<open>ok\<close> is what a step demands of
  its event, \<open>inv\<close> what every step keeps. The client lemmas lift the one-step law to a
  whole log and to any prefix of it.
\<close>

locale kept_invariant =
  fixes step :: "'s \<Rightarrow> 'e \<Rightarrow> 's"
    and ok :: "'e \<Rightarrow> bool"
    and inv :: "'s \<Rightarrow> bool"
  assumes step_keeps: "inv s \<Longrightarrow> ok e \<Longrightarrow> inv (step s e)"
begin

lemma log_keeps: "inv s \<Longrightarrow> \<forall>e \<in> set es. ok e \<Longrightarrow> inv (foldl step s es)"
  by (induction es arbitrary: s) (auto intro: step_keeps)

lemma log_prefix_keeps:
  "inv s \<Longrightarrow> \<forall>e \<in> set (es @ fs). ok e \<Longrightarrow> inv (foldl step s es)"
  by (auto intro: log_keeps)

end

text \<open>
  A component that replays a durable log and refuses a log it could not have written:
  the step also learns whether its event is the last one. A closed state accepts no
  further event.
\<close>

fun replay_log :: "('s \<Rightarrow> bool \<Rightarrow> 'e \<Rightarrow> 'x + 's) \<Rightarrow> 's \<Rightarrow> 'e list \<Rightarrow> 'x + 's" where
  "replay_log step s [] = Inr s"
| "replay_log step s (e # es) =
     (case step s (es = []) e of Inl err \<Rightarrow> Inl err | Inr s' \<Rightarrow> replay_log step s' es)"

locale checked_log =
  fixes step :: "'s \<Rightarrow> bool \<Rightarrow> 'e \<Rightarrow> 'x + 's"
    and inv :: "'s \<Rightarrow> bool"
    and closed :: "'s \<Rightarrow> bool"
  assumes step_keeps: "inv s \<Longrightarrow> step s final e = Inr t \<Longrightarrow> inv t"
    and closed_keeps: "closed s \<Longrightarrow> step s final e = Inr t \<Longrightarrow> closed t"
    and open_final: "step s True e = Inr t \<Longrightarrow> \<not> closed t \<Longrightarrow> step s False e = Inr t"
begin

lemma replay_keeps: "inv s \<Longrightarrow> replay_log step s es = Inr t \<Longrightarrow> inv t"
  by (induction es arbitrary: s) (auto split: sum.splits intro: step_keeps)

lemma replay_closed: "closed s \<Longrightarrow> replay_log step s es = Inr t \<Longrightarrow> closed t"
  by (induction es arbitrary: s) (auto split: sum.splits intro: closed_keeps)

lemma replay_snoc:
  "replay_log step s es = Inr t \<Longrightarrow> \<not> closed t \<Longrightarrow> replay_log step s (es @ [e]) = step t True e"
proof (induction es arbitrary: s)
  case Nil
  then show ?case by (cases "step s True e") auto
next
  case (Cons x xs)
  from Cons.prems(1) obtain u where u: "step s (xs = []) x = Inr u" "replay_log step u xs = Inr t"
    by (auto split: sum.splits)
  then have "step s False x = Inr u"
    using open_final [of s x u] replay_closed Cons.prems(2) by (cases "xs = []") auto
  with Cons.IH [OF u(2) Cons.prems(2)] show ?case by simp
qed

lemma replay_events_passed:
  "replay_log step s es = Inr t \<Longrightarrow> (\<And>s f e u. step s f e = Inr u \<Longrightarrow> e \<in> set es \<Longrightarrow> P u \<Longrightarrow> P s \<or> Q e) \<Longrightarrow>
     P t \<Longrightarrow> P s \<or> (\<exists>e \<in> set es. Q e)"
proof (induction es arbitrary: s)
  case (Cons x xs)
  from Cons.prems(1) obtain u where u: "step s (xs = []) x = Inr u" "replay_log step u xs = Inr t"
    by (auto split: sum.splits)
  have "P u \<or> (\<exists>e \<in> set xs. Q e)"
    using u(2) Cons.prems(2,3) by (intro Cons.IH) auto
  with u(1) Cons.prems(2) [of s "xs = []" x u] show ?case by auto
qed simp

end

end
