(* ===== verification/Go_Numbers.thy ===== *)
theory Go_Numbers
  imports Workbench_Prelude
begin

text \<open>
  Numbers and their texts: \<^verbatim>\<open>strconv.FormatInt\<close> and \<^verbatim>\<open>strconv.ParseInt\<close> in base ten,
  \<^verbatim>\<open>encoding/hex\<close>, and Go's \<^verbatim>\<open>int64\<close> with its wrap-around written out on \<open>int\<close>.
\<close>

section \<open>Machine integers\<close>

definition max_i64 :: int where
  "max_i64 = 2 ^ 63 - 1"

definition i64 :: "int \<Rightarrow> int" where
  "i64 x = (x + 2 ^ 63) mod 2 ^ 64 - 2 ^ 63"

definition in_i64 :: "int \<Rightarrow> bool" where
  "in_i64 x \<longleftrightarrow> - (2 ^ 63) \<le> x \<and> x < 2 ^ 63"

lemma i64_id: "in_i64 x \<Longrightarrow> i64 x = x"
  by (simp add: i64_def in_i64_def)

lemma in_i64_i64: "in_i64 (i64 x)"
  using pos_mod_bound [of "2 ^ 64" "x + 2 ^ 63"] by (simp add: i64_def in_i64_def)

lemma i64_sub: "0 \<le> a \<Longrightarrow> in_i64 a \<Longrightarrow> 0 \<le> b \<Longrightarrow> in_i64 b \<Longrightarrow> i64 (a - b) = a - b"
  by (rule i64_id) (simp add: in_i64_def)

section \<open>Decimal texts\<close>

text \<open>The digits of a number, read with an accumulator; \<open>None\<close> at anything else.\<close>

fun decimal :: "nat \<Rightarrow> string \<Rightarrow> nat option" where
  "decimal n [] = Some n"
| "decimal n (c # cs) =
     (if is_digit c then decimal (10 * n + (of_char c - 48)) cs else None)"

fun nat_string :: "nat \<Rightarrow> string" where
  "nat_string n =
     (if n < 10 then [char_of (48 + n)] else nat_string (n div 10) @ [char_of (48 + n mod 10)])"

declare nat_string.simps [simp del]

definition int_string :: "int \<Rightarrow> string" where
  "int_string i = (if i < 0 then CHR ''-'' # nat_string (nat (- i)) else nat_string (nat i))"

text \<open>\<^verbatim>\<open>strconv.ParseInt(s, 10, 64)\<close>: an optional sign, digits, and the range of \<^verbatim>\<open>int64\<close>.\<close>

definition parse_i64 :: "string \<Rightarrow> int option" where
  "parse_i64 s =
     (let neg = has_prefix s ''-'';
          digits = (if neg \<or> has_prefix s ''+'' then tl s else s)
      in if digits = [] then None
         else case decimal 0 digits of
                None \<Rightarrow> None
              | Some n \<Rightarrow>
                  if neg then (if int n \<le> 2 ^ 63 then Some (- int n) else None)
                  else (if int n < 2 ^ 63 then Some (int n) else None))"

lemma decimal_append:
  "decimal n (s @ t) = (case decimal n s of None \<Rightarrow> None | Some m \<Rightarrow> decimal m t)"
  by (induction n s rule: decimal.induct) auto

lemma is_digit_iff: "is_digit c \<longleftrightarrow> 48 \<le> (of_char c :: nat) \<and> (of_char c :: nat) \<le> 57"
  by (simp add: is_digit_def less_eq_char_def)

lemma decimal_digit:
  assumes "n < 10"
  shows "decimal m [char_of (48 + n)] = Some (10 * m + n)"
  using assms by (simp add: is_digit_iff)

lemma decimal_nat_string: "decimal 0 (nat_string n) = Some n"
proof (induction n rule: nat_string.induct)
  case (1 n)
  show ?case
  proof (cases "n < 10")
    case True
    then show ?thesis using decimal_digit [of n 0] by (simp add: nat_string.simps [of n])
  next
    case False
    have "decimal 0 (nat_string n) =
        decimal (n div 10) [char_of (48 + n mod 10)]"
      using 1 False by (simp add: nat_string.simps [of n] decimal_append)
    also have "\<dots> = Some n" by (subst decimal_digit) simp_all
    finally show ?thesis .
  qed
qed

lemma nat_string_digits: "c \<in> set (nat_string n) \<Longrightarrow> 48 \<le> (of_char c :: nat)"
proof (induction n rule: nat_string.induct)
  case (1 n)
  then show ?case by (cases "n < 10") (auto simp: nat_string.simps [of n])
qed

lemma nat_string_nonempty [simp]: "nat_string n \<noteq> []"
  by (simp add: nat_string.simps [of n])

lemma nat_string_unsigned: "CHR ''-'' \<notin> set (nat_string n)" "CHR ''+'' \<notin> set (nat_string n)"
  using nat_string_digits by fastforce+

lemma unsigned_text:
  "c \<notin> set s \<Longrightarrow> \<not> has_prefix s [c]"
  by (auto simp: has_prefix_iff)

lemma parse_nat_string: "int n < 2 ^ 63 \<Longrightarrow> parse_i64 (nat_string n) = Some (int n)"
  using unsigned_text [OF nat_string_unsigned(1)] unsigned_text [OF nat_string_unsigned(2)]
  by (simp add: parse_i64_def decimal_nat_string)

section \<open>Hexadecimal texts\<close>

definition from_hex :: "char \<Rightarrow> nat option" where
  "from_hex c =
     (let b = of_char c :: nat
      in if 48 \<le> b \<and> b \<le> 57 then Some (b - 48)
         else if 97 \<le> b \<and> b \<le> 102 then Some (b - 87)
         else if 65 \<le> b \<and> b \<le> 70 then Some (b - 55)
         else None)"

text \<open>\<^verbatim>\<open>hex.DecodeString\<close>: \<open>None\<close> for an odd length or a byte that is no digit.\<close>

fun hex_decode :: "string \<Rightarrow> string option" where
  "hex_decode [] = Some []"
| "hex_decode [c] = None"
| "hex_decode (c # d # s) =
     (case (from_hex c, from_hex d) of
        (Some x, Some y) \<Rightarrow> map_option ((#) (char_of (16 * x + y))) (hex_decode s)
      | _ \<Rightarrow> None)"

lemma hex_decode_length: "hex_decode s = Some t \<Longrightarrow> length s = 2 * length t"
  by (induction s arbitrary: t rule: hex_decode.induct) (auto split: option.splits)

lemma hex_decode_total:
  "(\<exists>t. hex_decode s = Some t) \<longleftrightarrow> even (length s) \<and> (\<forall>c \<in> set s. from_hex c \<noteq> None)"
  by (induction s rule: hex_decode.induct) (auto split: option.splits)

text \<open>
  \<^verbatim>\<open>strings.ToLower\<close> on ASCII texts. A byte outside ASCII is left alone here; the callers
  reject such a text whatever its lower case is.
\<close>

definition lower_char :: "char \<Rightarrow> char" where
  "lower_char c = (if is_upper c then char_of (of_char c + 32 :: nat) else c)"

definition to_lower :: "string \<Rightarrow> string" where
  "to_lower s = map lower_char s"

end
