(* ===== verification/Plan_Actors.thy ===== *)
theory Plan_Actors
  imports Workbench_Prelude Go_Numbers
begin

text \<open>
  Actor identities of task plans (\<^verbatim>\<open>internal/plan/actors.go\<close>): identities, configured
  kinds with their patterns and aliases, resolution and inference.

  The regular expressions a plan author writes are compiled and matched by package
  \<^verbatim>\<open>regexp\<close>; the record \<open>golib\<close> holds that engine as a parameter: compilation, full
  match, the number and names of captures, and the expansion of a replacement over the
  leftmost match (\<^verbatim>\<open>FindStringSubmatchIndex\<close> and \<^verbatim>\<open>ExpandString\<close> together). No law
  about it is assumed here. The two fixed patterns of the file, a kind name and a
  node id, are written out as byte predicates.

  Lemmas: \<open>Resolve\<close> yields an identity of a configured kind whose id matches that
  kind's canonical pattern, and resolving the printed form of a resolved actor gives
  that actor again.
\<close>

section \<open>Services of the Go library\<close>

record 're golib =
  rx_compile :: "string \<Rightarrow> 're option"
  rx_match :: "'re \<Rightarrow> string \<Rightarrow> bool"
  rx_num_subexp :: "'re \<Rightarrow> nat"
  rx_has_subexp :: "'re \<Rightarrow> string \<Rightarrow> bool"
  rx_expand :: "'re \<Rightarrow> string \<Rightarrow> string \<Rightarrow> string option"
  rx_replacement_token :: "string \<Rightarrow> string"
  sha256_hex :: "string \<Rightarrow> string"
  parses_rfc3339 :: "string \<Rightarrow> bool"

section \<open>Actors\<close>

record actor =
  actor_kind :: string
  actor_id :: string

definition actor_string :: "actor \<Rightarrow> string" where
  "actor_string a =
     (if actor_kind a = [] then actor_id a else actor_kind a @ '':'' @ actor_id a)"

datatype actor_error =
    UnresolvedActor
  | InvalidActorKind string
  | EmptyActorPattern
  | InvalidPattern string
  | InvalidKindName string
  | InKindPattern string actor_error
  | InAlias string nat actor_error
  | InvalidReplacement string
  | UnknownCapture string
  | InvalidCanonicalIdentity string
  | NoMatchingKind
  | AmbiguousActor "string list"
  | InferKind string string actor_error
  | NotAValidActor string string
  | CannotInfer actor_error

text \<open>The pattern of \<^verbatim>\<open>actorKindName\<close>: a letter, then letters, digits, \<open>_\<close> and \<open>-\<close>.\<close>

definition is_kind_name :: "string \<Rightarrow> bool" where
  "is_kind_name s =
     (case s of [] \<Rightarrow> False
      | c # cs \<Rightarrow> (is_upper c \<or> is_lower c) \<and>
          list_all (\<lambda>x. is_upper x \<or> is_lower x \<or> is_digit x \<or> x = CHR ''_'' \<or> x = CHR ''-'') cs)"

definition validate_actor :: "actor \<Rightarrow> actor_error + unit" where
  "validate_actor a =
     (if blank (actor_id a) \<or> actor_id a = ''@me'' then Inl UnresolvedActor
      else if actor_kind a \<noteq> [] \<and> \<not> is_kind_name (actor_kind a)
      then Inl (InvalidActorKind (actor_kind a))
      else Inr ())"

record actor_alias =
  alias_pattern :: string
  alias_replacement :: string

text \<open>\<open>ak_infer\<close> is the \<^verbatim>\<open>Env\<close> of the optional \<^verbatim>\<open>ActorInference\<close>.\<close>

record actor_kind_decl =
  ak_pattern :: string
  ak_infer :: "string option"
  ak_aliases :: "actor_alias list"

text \<open>
  \<^verbatim>\<open>Actors.Kinds\<close> is a Go map. It is kept as an association list, read by \<open>map_of\<close>;
  \<open>actor_names\<close> enumerates its keys in sorted order, as \<^verbatim>\<open>Actors.names\<close> does.
\<close>

type_synonym actors = "(string \<times> actor_kind_decl) list"

definition full_pattern :: "'re golib \<Rightarrow> string \<Rightarrow> actor_error + 're" where
  "full_pattern L pattern =
     (if pattern = [] then Inl EmptyActorPattern
      else case rx_compile L (CHR 0x5C # ''A(?:'' @ pattern @ '')'' @ CHR 0x5C # ''z'') of
             None \<Rightarrow> Inl (InvalidPattern pattern)
           | Some re \<Rightarrow> Inr re)"

definition actor_names :: "actors \<Rightarrow> string list" where
  "actor_names ks = sort (remdups (map fst ks))"

text \<open>\<^verbatim>\<open>strconv.Atoi\<close> on the digits of a capture reference: \<open>None\<close> outside int64.\<close>

definition atoi :: "string \<Rightarrow> nat option" where
  "atoi s =
     (if s = [] then None
      else case decimal 0 s of None \<Rightarrow> None
           | Some n \<Rightarrow> if n < 2 ^ 63 then Some n else None)"

text \<open>
  \<^verbatim>\<open>validateReplacement\<close> reads the replacement from one \<open>$\<close> to the next. A token is at
  least one byte long when it is not rejected, so the loop shortens the string.
\<close>

function validate_replacement :: "'re golib \<Rightarrow> 're \<Rightarrow> string \<Rightarrow> actor_error + unit" where
  "validate_replacement L re replacement =
     (let rest = dropWhile (\<lambda>c. c \<noteq> CHR ''$'') replacement in
      if rest = [] then Inr ()
      else let token = rx_replacement_token L rest in
        if token = [] \<or> \<not> has_prefix rest token then Inl (InvalidReplacement rest)
        else let name = trim_suffix (trim_prefix (drop 1 token) ''{'') ''}'';
                 next = validate_replacement L re (drop (length token) rest)
          in if name = ''$'' then next
             else let numeric = (case atoi name of None \<Rightarrow> False
                    | Some n \<Rightarrow> n \<le> 999999999 \<and> (length name = 1 \<or> hd name \<noteq> CHR ''0''))
               in if numeric
                  then (if the (atoi name) > rx_num_subexp L re then Inl (UnknownCapture name)
                        else next)
                  else (if \<not> rx_has_subexp L re name then Inl (UnknownCapture name) else next))"
  by pat_completeness auto
termination
proof (relation "measure (\<lambda>(L, re, s). length s)", goal_cases)
  case 1
  then show ?case by simp
next
  case (2 L re s rest token name)
  then have "0 < length token" and "0 < length rest"
    by auto
  moreover have "length rest \<le> length s"
    using 2 by (simp add: length_dropWhile_le)
  ultimately have "length rest - length token < length s" by linarith
  then show ?case by simp
qed

declare validate_replacement.simps [simp del]

definition validate_alias ::
    "'re golib \<Rightarrow> string \<Rightarrow> nat \<times> actor_alias \<Rightarrow> actor_error + unit" where
  "validate_alias L name ia =
     (case full_pattern L (alias_pattern (snd ia)) of
        Inl e \<Rightarrow> Inl (InAlias name (fst ia) e)
      | Inr re \<Rightarrow>
          (case validate_replacement L re (alias_replacement (snd ia)) of
             Inl e \<Rightarrow> Inl (InAlias name (fst ia) e)
           | Inr u \<Rightarrow> Inr u))"

definition validate_kind :: "'re golib \<Rightarrow> actors \<Rightarrow> string \<Rightarrow> actor_error + unit" where
  "validate_kind L ks name =
     (case map_of ks name of None \<Rightarrow> Inr ()
      | Some k \<Rightarrow>
          if \<not> is_kind_name name then Inl (InvalidKindName name)
          else case full_pattern L (ak_pattern k) of
                 Inl e \<Rightarrow> Inl (InKindPattern name e)
               | Inr re \<Rightarrow> first_error (validate_alias L name) (enumerate 0 (ak_aliases k)))"

definition validate_actors :: "'re golib \<Rightarrow> actors \<Rightarrow> actor_error + unit" where
  "validate_actors L ks = first_error (validate_kind L ks) (actor_names ks)"

section \<open>Resolution\<close>

text \<open>The closure \<^verbatim>\<open>add\<close> of \<^verbatim>\<open>candidates\<close>.\<close>

definition add_candidate ::
    "'re golib \<Rightarrow> 're \<Rightarrow> string \<Rightarrow> actor list \<Rightarrow> string \<Rightarrow> actor_error + actor list" where
  "add_candidate L canonical name cands ident =
     (let a = \<lparr>actor_kind = name, actor_id = ident\<rparr> in
      if validate_actor a \<noteq> Inr () \<or> \<not> rx_match L canonical ident
      then Inl (InvalidCanonicalIdentity name)
      else Inr (if a \<in> set cands then cands else cands @ [a]))"

fun alias_candidates ::
    "'re golib \<Rightarrow> 're \<Rightarrow> string \<Rightarrow> string \<Rightarrow> actor list \<Rightarrow> actor_alias list
       \<Rightarrow> actor_error + actor list" where
  "alias_candidates L canonical name v cands [] = Inr cands"
| "alias_candidates L canonical name v cands (al # als) =
     (case full_pattern L (alias_pattern al) of
        Inl e \<Rightarrow> Inl e
      | Inr re \<Rightarrow>
          (case rx_expand L re (alias_replacement al) v of
             None \<Rightarrow> alias_candidates L canonical name v cands als
           | Some ident \<Rightarrow>
               (case add_candidate L canonical name cands ident of
                  Inl e \<Rightarrow> Inl e
                | Inr cands' \<Rightarrow> alias_candidates L canonical name v cands' als)))"

definition no_kind :: actor_kind_decl where
  "no_kind = \<lparr>ak_pattern = [], ak_infer = None, ak_aliases = []\<rparr>"

definition kind_of :: "actors \<Rightarrow> string \<Rightarrow> actor_kind_decl" where
  "kind_of ks name = (case map_of ks name of None \<Rightarrow> no_kind | Some k \<Rightarrow> k)"

definition candidates ::
    "'re golib \<Rightarrow> actors \<Rightarrow> string \<Rightarrow> string \<Rightarrow> actor_error + actor list" where
  "candidates L ks name v =
     (case full_pattern L (ak_pattern (kind_of ks name)) of
        Inl e \<Rightarrow> Inl e
      | Inr canonical \<Rightarrow>
          (case (if rx_match L canonical v then add_candidate L canonical name [] v
                 else Inr []) of
             Inl e \<Rightarrow> Inl e
           | Inr cands \<Rightarrow>
               alias_candidates L canonical name v cands (ak_aliases (kind_of ks name))))"

definition unique_actor :: "actor list \<Rightarrow> actor_error + actor" where
  "unique_actor cands =
     (case cands of [] \<Rightarrow> Inl NoMatchingKind
      | [a] \<Rightarrow> Inr a
      | _ \<Rightarrow> Inl (AmbiguousActor (map actor_string cands)))"

fun collect_candidates ::
    "'re golib \<Rightarrow> actors \<Rightarrow> string \<Rightarrow> string list \<Rightarrow> actor_error + actor list" where
  "collect_candidates L ks v [] = Inr []"
| "collect_candidates L ks v (name # names) =
     (case candidates L ks name v of Inl e \<Rightarrow> Inl e
      | Inr found \<Rightarrow>
          (case collect_candidates L ks v names of Inl e \<Rightarrow> Inl e
           | Inr others \<Rightarrow> Inr (found @ others)))"

definition checked_actor :: "actor \<Rightarrow> actor_error + actor" where
  "checked_actor a = (case validate_actor a of Inl e \<Rightarrow> Inl e | Inr _ \<Rightarrow> Inr a)"

definition resolve_actor :: "'re golib \<Rightarrow> actors \<Rightarrow> string \<Rightarrow> actor_error + actor" where
  "resolve_actor L ks v =
     (if ks = [] then checked_actor \<lparr>actor_kind = [], actor_id = v\<rparr>
      else case cut CHR '':'' v of (prefix, rest, ok) \<Rightarrow>
        if ok \<and> map_of ks prefix \<noteq> None
        then (case full_pattern L (ak_pattern (kind_of ks prefix)) of
                Inl e \<Rightarrow> Inl e
              | Inr re \<Rightarrow>
                  if rx_match L re rest
                  then checked_actor \<lparr>actor_kind = prefix, actor_id = rest\<rparr>
                  else result_bind (collect_candidates L ks rest [prefix]) unique_actor)
        else result_bind (collect_candidates L ks v (actor_names ks)) unique_actor)"

text \<open>\<^verbatim>\<open>Infer\<close>: only kinds with a configured, set and nonempty variable take part.\<close>

fun infer_candidates ::
    "'re golib \<Rightarrow> actors \<Rightarrow> (string \<Rightarrow> string option) \<Rightarrow> string list
       \<Rightarrow> actor_error + actor list" where
  "infer_candidates L ks env [] = Inr []"
| "infer_candidates L ks env (name # names) =
     (case ak_infer (kind_of ks name) of
        None \<Rightarrow> infer_candidates L ks env names
      | Some var \<Rightarrow>
          if var = [] then infer_candidates L ks env names
          else (case env var of
             None \<Rightarrow> infer_candidates L ks env names
           | Some v \<Rightarrow>
               if v = [] then infer_candidates L ks env names
               else (case candidates L ks name v of
                  Inl e \<Rightarrow> Inl (InferKind name var e)
                | Inr found \<Rightarrow>
                    if found = [] then Inl (NotAValidActor var name)
                    else (case infer_candidates L ks env names of
                            Inl e \<Rightarrow> Inl e
                          | Inr others \<Rightarrow> Inr (found @ others)))))"

definition infer_actor ::
    "'re golib \<Rightarrow> actors \<Rightarrow> (string \<Rightarrow> string option) \<Rightarrow> actor_error + actor" where
  "infer_actor L ks env =
     (case infer_candidates L ks env (actor_names ks) of
        Inl e \<Rightarrow> Inl e
      | Inr cands \<Rightarrow>
          (case unique_actor cands of Inl e \<Rightarrow> Inl (CannotInfer e) | Inr a \<Rightarrow> Inr a))"

section \<open>Properties of resolution\<close>

lemma validate_actor_Inr:
  "validate_actor a = Inr u \<longleftrightarrow>
     \<not> blank (actor_id a) \<and> actor_id a \<noteq> ''@me'' \<and>
     (actor_kind a = [] \<or> is_kind_name (actor_kind a))"
  by (auto simp: validate_actor_def)

text \<open>What an actor of a configured kind promises: its id is canonical for the kind.\<close>

definition canonical_actor :: "'re golib \<Rightarrow> actors \<Rightarrow> actor \<Rightarrow> bool" where
  "canonical_actor L ks a \<longleftrightarrow>
     validate_actor a = Inr () \<and>
     (\<exists>re. full_pattern L (ak_pattern (kind_of ks (actor_kind a))) = Inr re \<and>
        rx_match L re (actor_id a))"

lemma add_candidate_canonical:
  assumes "add_candidate L re name cands ident = Inr out"
    and "full_pattern L (ak_pattern (kind_of ks name)) = Inr re"
    and "\<forall>a \<in> set cands. canonical_actor L ks a \<and> actor_kind a = name"
  shows "\<forall>a \<in> set out. canonical_actor L ks a \<and> actor_kind a = name"
  using assms by (auto simp: add_candidate_def canonical_actor_def Let_def split: if_splits)

lemma alias_candidates_canonical:
  assumes "alias_candidates L re name v cands als = Inr out"
    and "full_pattern L (ak_pattern (kind_of ks name)) = Inr re"
    and "\<forall>a \<in> set cands. canonical_actor L ks a \<and> actor_kind a = name"
  shows "\<forall>a \<in> set out. canonical_actor L ks a \<and> actor_kind a = name"
  using assms
proof (induction als arbitrary: cands)
  case (Cons al als)
  from Cons.prems(1) obtain re' where re': "full_pattern L (alias_pattern al) = Inr re'"
    by (cases "full_pattern L (alias_pattern al)") simp_all
  show ?case
  proof (cases "rx_expand L re' (alias_replacement al) v")
    case None
    with Cons.prems(1) re' have "alias_candidates L re name v cands als = Inr out" by simp
    from Cons.IH [OF this Cons.prems(2,3)] show ?thesis .
  next
    case (Some ident)
    with Cons.prems(1) re' obtain cands' where
      add: "add_candidate L re name cands ident = Inr cands'" and
      rest: "alias_candidates L re name v cands' als = Inr out"
      by (cases "add_candidate L re name cands ident") simp_all
    from Cons.IH [OF rest Cons.prems(2) add_candidate_canonical [OF add Cons.prems(2,3)]]
    show ?thesis .
  qed
qed simp

lemma candidates_canonical:
  assumes "candidates L ks name v = Inr out" and "a \<in> set out"
  shows "canonical_actor L ks a \<and> actor_kind a = name"
proof -
  from assms(1) obtain re cands where
    re: "full_pattern L (ak_pattern (kind_of ks name)) = Inr re" and
    first: "(if rx_match L re v then add_candidate L re name [] v else Inr []) = Inr cands" and
    rest: "alias_candidates L re name v cands (ak_aliases (kind_of ks name)) = Inr out"
    by (auto simp: candidates_def split: sum.splits if_splits)
  from first have "\<forall>a \<in> set cands. canonical_actor L ks a \<and> actor_kind a = name"
    using add_candidate_canonical [OF _ re, of "[]" v cands] by (cases "rx_match L re v") auto
  from alias_candidates_canonical [OF rest re this] assms(2) show ?thesis by blast
qed

lemma collect_candidates_canonical:
  "collect_candidates L ks v names = Inr out \<Longrightarrow> a \<in> set out \<Longrightarrow>
   canonical_actor L ks a \<and> actor_kind a \<in> set names"
  by (induction names arbitrary: out) (auto split: sum.splits dest: candidates_canonical)

lemma infer_candidates_canonical:
  "infer_candidates L ks env names = Inr out \<Longrightarrow> a \<in> set out \<Longrightarrow>
   canonical_actor L ks a \<and> actor_kind a \<in> set names"
  by (induction names arbitrary: out)
    (auto split: sum.splits option.splits if_splits dest: candidates_canonical)

lemma unique_actor_Inr: "unique_actor cands = Inr a \<longleftrightarrow> cands = [a]"
  by (auto simp: unique_actor_def split: list.splits)

lemma set_actor_names [simp]: "set (actor_names ks) = fst ` set ks"
  by (simp add: actor_names_def)

lemma map_of_key: "map_of ks k \<noteq> None \<longleftrightarrow> k \<in> fst ` set ks"
  by (simp add: map_of_eq_None_iff)

lemma checked_actor_Inr: "checked_actor a = Inr b \<longleftrightarrow> b = a \<and> validate_actor a = Inr ()"
  by (auto simp: checked_actor_def split: sum.splits)

lemma resolve_canonical:
  assumes "ks \<noteq> []" and "resolve_actor L ks v = Inr a"
  shows "canonical_actor L ks a \<and> actor_kind a \<in> fst ` set ks"
proof (cases "cut CHR '':'' v")
  case (fields prefix rest ok)
  note split = assms(2) [unfolded resolve_actor_def fields, simplified assms(1), simplified]
  show ?thesis
  proof (cases "ok \<and> map_of ks prefix \<noteq> None")
    case True
    with split show ?thesis
      by (auto simp: checked_actor_Inr unique_actor_Inr canonical_actor_def map_of_key [symmetric]
          split: sum.splits if_splits dest!: candidates_canonical)
  next
    case False
    with split obtain cands where "collect_candidates L ks v (actor_names ks) = Inr cands"
      and "cands = [a]" by (auto simp: unique_actor_Inr)
    then show ?thesis using collect_candidates_canonical by fastforce
  qed
qed

lemma kind_name_no_colon: "is_kind_name k \<Longrightarrow> CHR '':'' \<notin> set k"
  by (auto simp: is_kind_name_def list_all_iff is_upper_def is_lower_def is_digit_def
      split: list.splits)

lemma kind_name_nonempty [simp]: "\<not> is_kind_name []"
  by (simp add: is_kind_name_def)

text \<open>A canonical actor of a named kind resolves from its own printed form.\<close>

lemma resolve_printed:
  assumes "canonical_actor L ks a" and "actor_kind a \<in> fst ` set ks" and "actor_kind a \<noteq> []"
  shows "resolve_actor L ks (actor_string a) = Inr a"
proof -
  from assms have "is_kind_name (actor_kind a)"
    by (auto simp: canonical_actor_def validate_actor_Inr)
  then have cut: "cut CHR '':'' (actor_string a) = (actor_kind a, actor_id a, True)"
    using assms(3) by (simp add: actor_string_def cut_append kind_name_no_colon)
  from assms(2) have "ks \<noteq> []" by auto
  moreover from assms(2) have "map_of ks (actor_kind a) \<noteq> None" by (simp only: map_of_key)
  moreover have "checked_actor \<lparr>actor_kind = actor_kind a, actor_id = actor_id a\<rparr> = Inr a"
    using assms(1) by (cases a) (simp add: checked_actor_Inr canonical_actor_def)
  ultimately show ?thesis using cut assms(1)
    by (auto simp: resolve_actor_def canonical_actor_def)
qed

end
