(* ===== verification/Go_Json.thy ===== *)
theory Go_Json
  imports Workbench_Prelude
begin

text \<open>
  How \<^verbatim>\<open>encoding/json\<close> writes a list of strings with \<^verbatim>\<open>SetEscapeHTML(false)\<close>: the
  bytes that a plan fingerprint hashes. Strings are bytes, so the encoder's view of
  UTF-8 is written out: an ill-formed byte becomes the six bytes of the escape of U+FFFD,
  U+2028 and U+2029 are escaped, other well-formed sequences are copied.

  The lemmas show that on well-formed UTF-8 the encoding can be read back, hence is
  injective; \<open>json_read\<close> is the reader used to show it.
\<close>

section \<open>UTF-8\<close>

definition byte_between :: "nat \<Rightarrow> nat \<Rightarrow> char \<Rightarrow> bool" where
  "byte_between lo hi c \<longleftrightarrow> lo \<le> of_char c \<and> of_char c \<le> hi"

text \<open>The admitted second byte and the length of the sequence a lead byte starts.\<close>

definition utf8_lead :: "char \<Rightarrow> (nat \<times> nat \<times> nat) option" where
  "utf8_lead c =
     (let b = of_char c :: nat in
      if b < 0xC2 then None
      else if b \<le> 0xDF then Some (2, 0x80, 0xBF)
      else if b = 0xE0 then Some (3, 0xA0, 0xBF)
      else if b = 0xED then Some (3, 0x80, 0x9F)
      else if b \<le> 0xEF then Some (3, 0x80, 0xBF)
      else if b = 0xF0 then Some (4, 0x90, 0xBF)
      else if b \<le> 0xF3 then Some (4, 0x80, 0xBF)
      else if b = 0xF4 then Some (4, 0x80, 0x8F)
      else None)"

text \<open>
  The length of the well-formed multi-byte sequence that starts the string, or 0:
  \<^verbatim>\<open>utf8.DecodeRuneInString\<close> for a lead byte of at least 0x80.
\<close>

definition utf8_len :: "string \<Rightarrow> nat" where
  "utf8_len s =
     (case s of [] \<Rightarrow> 0
      | c # cs \<Rightarrow>
          (case utf8_lead c of None \<Rightarrow> 0
           | Some (n, lo, hi) \<Rightarrow>
               if n - 1 \<le> length cs \<and> byte_between lo hi (hd cs) \<and>
                  list_all (byte_between 0x80 0xBF) (take (n - 1) cs)
               then n else 0))"

function valid_utf8 :: "string \<Rightarrow> bool" where
  "valid_utf8 [] = True"
| "valid_utf8 (c # cs) =
     (if (of_char c :: nat) < 0x80 then valid_utf8 cs
      else utf8_len (c # cs) \<noteq> 0 \<and> valid_utf8 (drop (utf8_len (c # cs) - 1) cs))"
  by pat_completeness auto
termination by (relation "measure length") auto

section \<open>Encoding\<close>

definition hex_digit :: "nat \<Rightarrow> char" where
  "hex_digit n = ''0123456789abcdef'' ! (n mod 16)"

definition json_ascii :: "char \<Rightarrow> string" where
  "json_ascii c =
     (let b = of_char c :: nat in
      if c = CHR 0x22 \<or> c = CHR 0x5C then [CHR 0x5C, c]
      else if b \<ge> 0x20 then [c]
      else if b = 0x08 then [CHR 0x5C, CHR ''b'']
      else if b = 0x0C then [CHR 0x5C, CHR ''f'']
      else if b = 0x0A then [CHR 0x5C, CHR ''n'']
      else if b = 0x0D then [CHR 0x5C, CHR ''r'']
      else if b = 0x09 then [CHR 0x5C, CHR ''t'']
      else CHR 0x5C # ''u00'' @ [hex_digit (b div 16), hex_digit b])"

definition json_multi :: "string \<Rightarrow> string" where
  "json_multi u =
     (if u = [CHR 0xE2, CHR 0x80, CHR 0xA8] then CHR 0x5C # ''u2028''
      else if u = [CHR 0xE2, CHR 0x80, CHR 0xA9] then CHR 0x5C # ''u2029''
      else u)"

function json_body :: "string \<Rightarrow> string" where
  "json_body [] = []"
| "json_body (c # cs) =
     (if (of_char c :: nat) < 0x80 then json_ascii c @ json_body cs
      else if utf8_len (c # cs) = 0 then CHR 0x5C # ''ufffd'' @ json_body cs
      else json_multi (take (utf8_len (c # cs)) (c # cs)) @
             json_body (drop (utf8_len (c # cs) - 1) cs))"
  by pat_completeness auto
termination by (relation "measure length") auto

definition json_string :: "string \<Rightarrow> string" where
  "json_string s = CHR 0x22 # json_body s @ [CHR 0x22]"

definition json_strings :: "string list \<Rightarrow> string" where
  "json_strings xs = ''['' @ join '','' (map json_string xs) @ '']''"

section \<open>Reading back\<close>

definition unhex :: "char \<Rightarrow> nat" where
  "unhex c = (if is_digit c then of_char c - 48 else of_char c - 87)"

text \<open>What follows a backslash: the bytes it stands for and how many it takes.\<close>

definition json_escape :: "string \<Rightarrow> string \<times> nat" where
  "json_escape s =
     (if take 5 s = ''u2028'' then ([CHR 0xE2, CHR 0x80, CHR 0xA8], 5)
      else if take 5 s = ''u2029'' then ([CHR 0xE2, CHR 0x80, CHR 0xA9], 5)
      else if take 3 s = ''u00'' then ([char_of (16 * unhex (s ! 3) + unhex (s ! 4))], 5)
      else if take 1 s = ''b'' then ([CHR 0x08], 1)
      else if take 1 s = ''f'' then ([CHR 0x0C], 1)
      else if take 1 s = ''n'' then ([CHR 0x0A], 1)
      else if take 1 s = ''r'' then ([CHR 0x0D], 1)
      else if take 1 s = ''t'' then ([CHR 0x09], 1)
      else (take 1 s, 1))"

function json_read :: "string \<Rightarrow> string \<times> string" where
  "json_read [] = ([], [])"
| "json_read (c # cs) =
     (if c = CHR 0x22 then ([], cs)
      else if c = CHR 0x5C
      then (case json_read (drop (snd (json_escape cs)) cs) of
              (s, r) \<Rightarrow> (fst (json_escape cs) @ s, r))
      else (case json_read cs of (s, r) \<Rightarrow> (c # s, r)))"
  by pat_completeness auto
termination by (relation "measure length") auto

lemma small_char:
  "(of_char c :: nat) < 32 \<Longrightarrow> \<exists>b0 b1 b2 b3 b4. c = Char b0 b1 b2 b3 b4 False False False"
  by (cases c) (auto split: if_splits)

lemma json_escape_control:
  "(of_char c :: nat) < 32 \<Longrightarrow>
   json_escape (tl (json_ascii c) @ r) = ([c], length (tl (json_ascii c)))"
  apply (drule small_char, elim exE)
  subgoal for b0 b1 b2 b3 b4
    by (cases b0; cases b1; cases b2; cases b3; cases b4;
        simp add: json_ascii_def json_escape_def hex_digit_def unhex_def is_digit_def
          char_of_eq_iff take_bit_eq_mod)
  done

lemma json_read_ascii:
  assumes "(of_char c :: nat) < 0x80"
  shows "json_read (json_ascii c @ r) = (c # fst (json_read r), snd (json_read r))"
proof -
  consider "(of_char c :: nat) < 32" | "c = CHR 0x22" | "c = CHR 0x5C"
    | "32 \<le> (of_char c :: nat)" "c \<noteq> CHR 0x22" "c \<noteq> CHR 0x5C"
    by linarith
  then show ?thesis
  proof cases
    case 1
    then have "json_ascii c = CHR 0x5C # tl (json_ascii c)"
      by (auto simp: json_ascii_def Let_def)
    then have "json_ascii c @ r = CHR 0x5C # tl (json_ascii c) @ r" by (metis append_Cons)
    moreover have "json_read (CHR 0x5C # tl (json_ascii c) @ r) =
        (c # fst (json_read r), snd (json_read r))"
      using 1 by (simp add: json_escape_control split: prod.splits)
    ultimately show ?thesis by (simp only:)
  qed (simp_all add: json_ascii_def json_escape_def split: prod.splits)
qed

lemma json_read_high:
  "list_all (\<lambda>c. 0x80 \<le> (of_char c :: nat)) u \<Longrightarrow>
   json_read (u @ r) = (u @ fst (json_read r), snd (json_read r))"
  by (induction u) (auto split: prod.splits)

lemma utf8_len_high:
  assumes "utf8_len (c # cs) \<noteq> 0"
  shows "list_all (\<lambda>c. 0x80 \<le> (of_char c :: nat)) (take (utf8_len (c # cs)) (c # cs))"
    and "utf8_len (c # cs) \<le> Suc (length cs)" and "0 < utf8_len (c # cs)"
proof -
  from assms obtain n lo hi where lead: "utf8_lead c = Some (n, lo, hi)"
    and n: "utf8_len (c # cs) = n" and len: "n - 1 \<le> length cs"
    and all: "list_all (byte_between 0x80 0xBF) (take (n - 1) cs)"
    by (auto simp: utf8_len_def split: option.splits if_splits)
  from lead have "2 \<le> n" and "0x80 \<le> (of_char c :: nat)"
    by (auto simp: utf8_lead_def Let_def split: if_splits)
  with all n show "list_all (\<lambda>c. 0x80 \<le> (of_char c :: nat)) (take (utf8_len (c # cs)) (c # cs))"
    by (cases n) (auto simp: byte_between_def list_all_iff)
  from len n show "utf8_len (c # cs) \<le> Suc (length cs)" by simp
  from \<open>2 \<le> n\<close> n show "0 < utf8_len (c # cs)" by simp
qed

lemma json_read_multi:
  assumes "list_all (\<lambda>c. 0x80 \<le> (of_char c :: nat)) u"
  shows "json_read (json_multi u @ r) = (u @ fst (json_read r), snd (json_read r))"
proof (cases "u = [CHR 0xE2, CHR 0x80, CHR 0xA8] \<or> u = [CHR 0xE2, CHR 0x80, CHR 0xA9]")
  case True
  then show ?thesis
    by (auto simp: json_multi_def json_escape_def split: prod.splits)
next
  case False
  then show ?thesis using json_read_high [OF assms] by (auto simp: json_multi_def)
qed

lemma json_read_body:
  "valid_utf8 s \<Longrightarrow> json_read (json_body s @ CHR 0x22 # r) = (s, r)"
proof (induction s rule: json_body.induct)
  case 1
  then show ?case by simp
next
  case (2 c cs)
  let ?n = "utf8_len (c # cs)"
  show ?case
  proof (cases "(of_char c :: nat) < 0x80")
    case True
    with "2.prems" have "valid_utf8 cs" by simp
    with True have "json_read (json_body cs @ CHR 0x22 # r) = (cs, r)" by (rule "2.IH"(1))
    with True show ?thesis by (simp add: json_read_ascii)
  next
    case False
    with "2.prems" have n: "?n \<noteq> 0" and rest: "valid_utf8 (drop (?n - 1) cs)" by auto
    then have "take ?n (c # cs) @ drop (?n - 1) cs = c # cs"
      using utf8_len_high(3) [OF n] by (cases ?n) auto
    moreover from "2.IH"(3) [OF False n rest]
    have "json_read (json_body (drop (?n - 1) cs) @ CHR 0x22 # r) = (drop (?n - 1) cs, r)" .
    moreover have "json_body (c # cs) =
        json_multi (take ?n (c # cs)) @ json_body (drop (?n - 1) cs)"
      using False n by simp
    ultimately show ?thesis
      by (simp only: append_assoc json_read_multi [OF utf8_len_high(1) [OF n]] fst_conv snd_conv)
  qed
qed

lemma json_string_read:
  assumes "valid_utf8 s" and "json_string s @ r = json_string t @ r'" and "valid_utf8 t"
  shows "s = t \<and> r = r'"
proof -
  from assms(2) have "json_body s @ CHR 0x22 # r = json_body t @ CHR 0x22 # r'"
    by (simp add: json_string_def)
  then have "json_read (json_body s @ CHR 0x22 # r) = json_read (json_body t @ CHR 0x22 # r')"
    by (rule arg_cong)
  then have "(s, r) = (t, r')"
    by (simp only: json_read_body [OF assms(1)] json_read_body [OF assms(3)])
  then show ?thesis by simp
qed

lemma json_join_inj:
  assumes "\<forall>x \<in> set (xs @ ys). valid_utf8 x"
    and "join '','' (map json_string xs) @ '']'' = join '','' (map json_string ys) @ '']''"
  shows "xs = ys"
  using assms
proof (induction xs arbitrary: ys)
  case Nil
  then show ?case by (cases ys; cases "tl ys") (auto simp: json_string_def)
next
  case (Cons x xs)
  show ?case
  proof (cases ys)
    case Nil
    with Cons.prems show ?thesis by (cases xs) (auto simp: json_string_def)
  next
    case (Cons y zs)
    let ?tail = "\<lambda>xs. if xs = [] then '']'' else CHR '','' # join '','' (map json_string xs) @ '']''"
    have split: "join '','' (map json_string (x # xs)) @ '']'' = json_string x @ ?tail xs" for x xs
      by (cases xs) auto
    from Cons Cons.prems have "x = y \<and> ?tail xs = ?tail zs"
      by (intro json_string_read) (simp_all only: split [symmetric], auto)
    moreover from this have "xs = [] \<longleftrightarrow> zs = []" by (auto split: if_splits)
    ultimately show ?thesis using Cons Cons.prems(1) Cons.IH [of zs] by (auto split: if_splits)
  qed
qed

lemma json_strings_inj:
  "\<forall>x \<in> set (xs @ ys). valid_utf8 x \<Longrightarrow> json_strings xs = json_strings ys \<longleftrightarrow> xs = ys"
  using json_join_inj [of xs ys] by (auto simp: json_strings_def)

end
