(* ===== verification/Plan_Definition.thy ===== *)
theory Plan_Definition
  imports Plan_Actors Go_Json
begin

text \<open>
  The authored task graph (\<^verbatim>\<open>internal/plan/definition.go\<close>): needs, oracles, nodes, the
  definition itself, its lookups, the validation that \<^verbatim>\<open>Decode\<close> applies after JSON
  decoding, and the fingerprints that bind evidence to the meaning of a node. The
  expressions of needs (\<^verbatim>\<open>ParseNeed\<close> and \<^verbatim>\<open>ValidateNeed\<close> of \<^verbatim>\<open>work.go\<close>) are here too.

  Kinds stay strings, as in the Go structs: a decoded file can carry any string, and
  every \<^verbatim>\<open>switch\<close> and comparison of the source has its default branch.

  Lemmas: needs survive printing and parsing, and two fingerprints agree exactly when
  the meaning they hash agrees, on well-formed text and absent a hash collision.
\<close>

section \<open>Data\<close>

record meta =
  meta_title :: string
  meta_goal :: string

record oracle_decl =
  oracle_kind :: string
  oracle_run :: string
  oracle_once :: bool
  oracle_rubric :: string
  oracle_owner :: string

record need =
  need_kind :: string
  need_node :: string

datatype node = Node
  (node_kind: string)
  (node_id: string)
  (node_owner: string)
  (node_assignable: "bool option")
  (node_outcome: string)
  (node_needs: "need list")
  (node_grant: "string list")
  (node_observes: "string list")
  (node_oracle: "oracle_decl option")
  (node_question: string)
  (node_options: "string list")
  (node_probe: "node option")

record plan_def =
  plan_legacy :: "need \<Rightarrow> string option"
  plan_meta :: meta
  plan_actors :: actors
  plan_nodes :: "node list"

section \<open>Needs\<close>

definition need_verb :: "string \<Rightarrow> string" where
  "need_verb kind =
     (if kind = ''Artifact'' then ''produced''
      else if kind = ''Evidence'' then ''verified''
      else if kind = ''Fork'' then ''ruled''
      else if kind = ''Grant'' then ''granted''
      else [])"

definition need_string :: "need \<Rightarrow> string" where
  "need_string n = need_verb (need_kind n) @ ''('' @ need_node n @ '')''"

text \<open>The pattern of \<^verbatim>\<open>nodeID\<close>.\<close>

definition is_node_id :: "string \<Rightarrow> bool" where
  "is_node_id s =
     (case s of [] \<Rightarrow> False
      | c # cs \<Rightarrow> (is_upper c \<or> is_lower c \<or> is_digit c) \<and>
          list_all (\<lambda>x. is_upper x \<or> is_lower x \<or> is_digit x \<or> x \<in> set ''_./-'') cs)"

definition verb_kind :: "string \<Rightarrow> string" where
  "verb_kind verb =
     (if verb = ''produced'' then ''Artifact''
      else if verb = ''verified'' then ''Evidence''
      else if verb = ''ruled'' then ''Fork''
      else if verb = ''granted'' then ''Grant''
      else [])"

datatype need_error =
    InvalidNeed string
  | AbsentNeedNode string
  | WrongNeedProducer need string

definition parse_need :: "string \<Rightarrow> need_error + need" where
  "parse_need v =
     (case cut CHR ''('' v of (verb, node, ok) \<Rightarrow>
        let kind = verb_kind verb in
        if \<not> ok \<or> kind = [] \<or> \<not> has_suffix node '')'' \<or> \<not> is_node_id (trim_suffix node '')'')
        then Inl (InvalidNeed v)
        else Inr \<lparr>need_kind = kind, need_node = trim_suffix node '')''\<rparr>)"

section \<open>Lookups\<close>

definition find_node :: "plan_def \<Rightarrow> string \<Rightarrow> node option" where
  "find_node d i = List.find (\<lambda>n. node_id n = i) (plan_nodes d)"

definition dependencies :: "node \<Rightarrow> need list" where
  "dependencies n =
     node_needs n @
     (case node_probe n of None \<Rightarrow> []
      | Some p \<Rightarrow> [\<lparr>need_kind = ''Evidence'', need_node = node_id p\<rparr>])"

definition self_need :: "node \<Rightarrow> need" where
  "self_need n =
     (if node_kind n = ''Selector'' then \<lparr>need_kind = ''Fork'', need_node = node_id n\<rparr>
      else \<lparr>need_kind = ''Evidence'', need_node = node_id n\<rparr>)"

definition is_assignable :: "node \<Rightarrow> bool" where
  "is_assignable n = (case node_assignable n of None \<Rightarrow> True | Some b \<Rightarrow> b)"

definition validate_need :: "plan_def \<Rightarrow> need \<Rightarrow> need_error + unit" where
  "validate_need d need =
     (case find_node d (need_node need) of
        None \<Rightarrow> Inl (AbsentNeedNode (need_node need))
      | Some n \<Rightarrow>
          if need_kind need = ''Evidence'' \<and> node_kind n \<noteq> ''Selector'' \<or>
             need_kind need = ''Fork'' \<and> node_kind n = ''Selector'' \<or>
             (need_kind need = ''Artifact'' \<or> need_kind need = ''Grant'') \<and> node_kind n = ''Action''
          then Inr () else Inl (WrongNeedProducer need (node_kind n)))"

section \<open>Validation of a decoded definition\<close>

datatype decode_error =
    MissingMeta
  | NodesNotAListing
  | BadActors actor_error
  | BadNodeHeader string
  | SelectorOwnsOracle string
  | SelectorFields string string
  | WrongFootprint string string
  | OracleRequired string string
  | MechanicalRunOnly string
  | AdjudicatedOnly string
  | UnknownOracle string string
  | UnknownNodeKind string string

definition validate_oracle :: "string \<Rightarrow> oracle_decl \<Rightarrow> decode_error + unit" where
  "validate_oracle i orc =
     (if oracle_kind orc = ''Mechanical''
      then (if blank (oracle_run orc) \<or> oracle_rubric orc \<noteq> [] \<or> oracle_owner orc \<noteq> []
            then Inl (MechanicalRunOnly i) else Inr ())
      else if oracle_kind orc = ''Adjudicated''
      then (if blank (oracle_rubric orc) \<or> blank (oracle_owner orc) \<or> oracle_run orc \<noteq> [] \<or>
               oracle_once orc
            then Inl (AdjudicatedOnly i) else Inr ())
      else Inl (UnknownOracle i (oracle_kind orc)))"

definition validate_node :: "node \<Rightarrow> decode_error + unit" where
  "validate_node n =
     (if \<not> is_node_id (node_id n) \<or> blank (node_owner n) then Inl (BadNodeHeader (node_id n))
      else if node_kind n = ''Selector''
      then (if node_oracle n \<noteq> None \<or> node_grant n \<noteq> [] \<or> node_observes n \<noteq> []
            then Inl (SelectorOwnsOracle (node_id n)) else Inr ())
      else if node_kind n = ''Action'' \<or> node_kind n = ''Guard''
      then (if node_probe n \<noteq> None \<or> node_options n \<noteq> [] \<or> node_question n \<noteq> []
            then Inl (SelectorFields (node_kind n) (node_id n))
            else if node_kind n = ''Action'' \<and> node_observes n \<noteq> [] \<or>
                    node_kind n = ''Guard'' \<and> node_grant n \<noteq> []
            then Inl (WrongFootprint (node_kind n) (node_id n))
            else case node_oracle n of None \<Rightarrow> Inl (OracleRequired (node_kind n) (node_id n))
                 | Some orc \<Rightarrow> validate_oracle (node_id n) orc)
      else Inl (UnknownNodeKind (node_id n) (node_kind n)))"

text \<open>
  The checks of \<^verbatim>\<open>Decode\<close> on the value the JSON decoder produced; \<open>nodes_nil\<close> says that
  the decoded \<^verbatim>\<open>nodes\<close> slice is nil (absent or null in the file).
\<close>

definition validate_definition :: "'re golib \<Rightarrow> bool \<Rightarrow> plan_def \<Rightarrow> decode_error + plan_def" where
  "validate_definition L nodes_nil d =
     (if blank (meta_title (plan_meta d)) \<or> blank (meta_goal (plan_meta d)) then Inl MissingMeta
      else if nodes_nil then Inl NodesNotAListing
      else case validate_actors L (plan_actors d) of
             Inl e \<Rightarrow> Inl (BadActors e)
           | Inr _ \<Rightarrow>
               (case first_error validate_node (plan_nodes d) of
                  Inl e \<Rightarrow> Inl e
                | Inr _ \<Rightarrow> Inr d))"

section \<open>Fingerprints\<close>

text \<open>\<open>None\<close> is the \<^verbatim>\<open>return nil\<close> of \<^verbatim>\<open>FingerprintParts\<close>.\<close>

definition fingerprint_parts :: "'re golib \<Rightarrow> plan_def \<Rightarrow> need \<Rightarrow> string list option" where
  "fingerprint_parts L d need =
     (case find_node d (need_node need) of
        None \<Rightarrow> None
      | Some n \<Rightarrow>
          if need_kind need = ''Artifact''
          then Some (sort (if node_kind n = ''Guard'' then node_observes n else node_grant n))
          else if need_kind need = ''Fork''
          then (if plan_actors d \<noteq> []
                then (case resolve_actor L (plan_actors d) (node_owner n) of
                        Inl _ \<Rightarrow> None
                      | Inr owner \<Rightarrow>
                          Some ([''Selector'', actor_string owner] @ sort (node_options n)))
                else Some (sort (node_options n)))
          else if need_kind need = ''Evidence''
          then (case node_oracle n of
                  None \<Rightarrow> None
                | Some orc \<Rightarrow>
                    if oracle_kind orc = ''Mechanical''
                    then Some [''Mechanical'', oracle_run orc]
                    else if plan_actors d \<noteq> []
                    then (case resolve_actor L (plan_actors d) (oracle_owner orc) of
                            Inl _ \<Rightarrow> None
                          | Inr a \<Rightarrow>
                              Some [''Adjudicated'', oracle_rubric orc, actor_string a])
                    else Some [''Adjudicated'', oracle_rubric orc, oracle_owner orc])
          else None)"

definition fingerprint :: "'re golib \<Rightarrow> plan_def \<Rightarrow> need \<Rightarrow> string" where
  "fingerprint L d need =
     (case fingerprint_parts L d need of
        None \<Rightarrow> []
      | Some parts \<Rightarrow> ''sha256:'' @ sha256_hex L (json_strings parts))"

definition with_legacy_fingerprints :: "plan_def \<Rightarrow> (need \<Rightarrow> string option) \<Rightarrow> plan_def" where
  "with_legacy_fingerprints d values = d\<lparr>plan_legacy := values\<rparr>"

section \<open>Lemmas\<close>

lemma node_id_no_paren: "is_node_id s \<Longrightarrow> CHR '')'' \<notin> set s \<and> CHR ''('' \<notin> set s"
  by (auto simp: is_node_id_def list_all_iff is_upper_def is_lower_def is_digit_def
      split: list.splits)

lemma verb_kind_verb:
  "kind \<in> {''Artifact'', ''Evidence'', ''Fork'', ''Grant''} \<Longrightarrow> verb_kind (need_verb kind) = kind"
  by (auto simp: verb_kind_def need_verb_def)

lemma need_verb_no_paren: "CHR ''('' \<notin> set (need_verb kind)"
  by (simp add: need_verb_def)

lemma parse_need_string:
  assumes "need_kind n \<in> {''Artifact'', ''Evidence'', ''Fork'', ''Grant''}"
    and "is_node_id (need_node n)"
  shows "parse_need (need_string n) = Inr n"
proof -
  have "cut CHR ''('' (need_string n) = (need_verb (need_kind n), need_node n @ '')'', True)"
    using need_verb_no_paren by (simp add: need_string_def cut_append)
  moreover have "need_kind n \<noteq> []" using assms(1) by auto
  ultimately show ?thesis
    using assms by (cases n) (simp add: parse_need_def Let_def verb_kind_verb)
qed

lemma parse_need_sound:
  assumes "parse_need v = Inr n"
  shows "need_string n = v \<and> is_node_id (need_node n) \<and>
    need_kind n \<in> {''Artifact'', ''Evidence'', ''Fork'', ''Grant''}"
proof -
  obtain verb rest ok where cut: "cut CHR ''('' v = (verb, rest, ok)"
    by (cases "cut CHR ''('' v") auto
  with assms have n: "n = \<lparr>need_kind = verb_kind verb, need_node = trim_suffix rest '')''\<rparr>"
    and ok: "ok" "verb_kind verb \<noteq> []" "has_suffix rest '')''" "is_node_id (trim_suffix rest '')'')"
    by (auto simp: parse_need_def Let_def split: if_splits)
  from cut ok(1) have v: "v = verb @ CHR ''('' # rest"
    using cut_foundD [of "CHR ''(''" v verb rest] by simp
  from ok(3) obtain t where rest: "rest = t @ '')''" unfolding has_suffix_iff by blast
  from ok(2) have "need_verb (verb_kind verb) = verb"
    and "verb_kind verb \<in> {''Artifact'', ''Evidence'', ''Fork'', ''Grant''}"
    by (auto simp: verb_kind_def need_verb_def split: if_splits)
  with n v rest ok(4) show ?thesis by (simp add: need_string_def)
qed

lemma find_node_Some:
  "find_node d i = Some n \<Longrightarrow> n \<in> set (plan_nodes d) \<and> node_id n = i"
  by (auto simp: find_node_def find_Some_iff)

lemma find_node_None: "find_node d i = None \<longleftrightarrow> i \<notin> node_id ` set (plan_nodes d)"
  by (auto simp: find_node_def find_None_iff)

lemma find_node_id: "find_node d i \<noteq> None \<longleftrightarrow> i \<in> node_id ` set (plan_nodes d)"
  by (simp add: find_node_None)

lemma fingerprint_eq_iff:
  assumes "fingerprint_parts L d n = Some ps" and "fingerprint_parts L d' n' = Some qs"
    and "\<forall>x \<in> set (ps @ qs). valid_utf8 x"
    and "sha256_hex L (json_strings ps) = sha256_hex L (json_strings qs) \<Longrightarrow>
         json_strings ps = json_strings qs"
  shows "fingerprint L d n = fingerprint L d' n' \<longleftrightarrow> ps = qs"
  using assms json_strings_inj [OF assms(3)] by (auto simp: fingerprint_def)

end
