(* ===== verification/Plan_Graph.thy ===== *)
theory Plan_Graph
  imports Plan_Definition
begin

text \<open>
  The graph algorithms of \<^verbatim>\<open>internal/plan/check.go\<close>: \<^verbatim>\<open>reaches\<close>, \<^verbatim>\<open>order\<close>,
  \<^verbatim>\<open>components\<close> and \<^verbatim>\<open>CriticalPath\<close>, each as the loop or recursion the code runs. The
  depth-first search of \<^verbatim>\<open>order\<close> threads its colours, order and cycle through mutual
  recursion; its termination, like that of the two worklist loops, rests on the finite
  set of registered node ids.

  The locale \<open>finite_digraph\<close> is the interface the searches rely on: a successor
  function with finite support. It is interpreted on the dependency graph of a
  definition and on the undirected adjacency that \<^verbatim>\<open>components\<close> builds.
\<close>

section \<open>Finite directed graphs\<close>

definition edges_of :: "('a \<Rightarrow> 'a list) \<Rightarrow> ('a \<times> 'a) set" where
  "edges_of succs = {(u, v). v \<in> set (succs u)}"

lemma edges_of_iff [simp]: "(u, v) \<in> edges_of succs \<longleftrightarrow> v \<in> set (succs u)"
  by (simp add: edges_of_def)

locale finite_digraph =
  fixes succs :: "'a \<Rightarrow> 'a list" and verts :: "'a set"
  assumes finite_verts: "finite verts"
    and support: "succs u \<noteq> [] \<Longrightarrow> u \<in> verts"
begin

lemma unseen_less: "u \<in> verts \<Longrightarrow> u \<notin> seen \<Longrightarrow> card (verts - insert u seen) < card (verts - seen)"
  using finite_verts by (intro psubset_card_mono) auto

lemma unseen_le: "card (verts - insert u seen) \<le> card (verts - seen)"
  using finite_verts by (intro card_mono) auto

text \<open>
  A worklist search has visited \<open>seen\<close> and still holds \<open>todo\<close>. If the target is no
  direct successor of a visited vertex but can be reached from one, it can be reached
  from an unvisited vertex of the worklist.
\<close>

lemma escape:
  assumes "(u, t) \<in> (edges_of succs)\<^sup>+" and "u \<in> seen"
    and "\<forall>x \<in> seen. set (succs x) \<subseteq> seen \<union> todo" and "\<forall>x \<in> seen. t \<notin> set (succs x)"
  shows "\<exists>q \<in> todo - seen. (q, t) \<in> (edges_of succs)\<^sup>+"
  using assms(1,2)
proof (induction rule: converse_trancl_induct)
  case (base y)
  with assms(4) show ?case by auto
next
  case (step y z)
  show ?case
  proof (cases "z \<in> seen")
    case True
    then show ?thesis by (rule step.IH)
  next
    case False
    with step assms(3) have "z \<in> todo - seen" by auto
    with step.hyps(2) show ?thesis by blast
  qed
qed

lemma closed_reach:
  assumes "\<forall>x \<in> X. set (succs x) \<subseteq> X"
  shows "(edges_of succs)\<^sup>* `` X = X"
proof -
  have "y \<in> X" if "(x, y) \<in> (edges_of succs)\<^sup>*" "x \<in> X" for x y
    using that by induction (use assms in auto)
  then show ?thesis by auto
qed

end

section \<open>The dependency graph\<close>

definition node_ids :: "plan_def \<Rightarrow> string set" where
  "node_ids d = node_id ` set (plan_nodes d)"

definition dep_targets :: "node \<Rightarrow> string list" where
  "dep_targets n = map need_node (dependencies n)"

definition dep_succs :: "plan_def \<Rightarrow> string \<Rightarrow> string list" where
  "dep_succs d i = (case find_node d i of None \<Rightarrow> [] | Some n \<Rightarrow> dep_targets n)"

lemma finite_node_ids [simp]: "finite (node_ids d)"
  by (simp add: node_ids_def)

lemma find_node_ids: "find_node d i \<noteq> None \<longleftrightarrow> i \<in> node_ids d"
  by (simp add: find_node_None node_ids_def)

lemma find_node_in_ids: "find_node d i = Some n \<Longrightarrow> i \<in> node_ids d"
  using find_node_ids by fastforce

lemma find_node_none_ids: "find_node d i = None \<longleftrightarrow> i \<notin> node_ids d"
  by (simp add: find_node_None node_ids_def)

lemma dep_succs_support: "dep_succs d u \<noteq> [] \<Longrightarrow> u \<in> node_ids d"
  by (auto simp: dep_succs_def find_node_in_ids split: option.splits)

interpretation deps: finite_digraph "dep_succs d" "node_ids d" for d
  by unfold_locales (auto dest: dep_succs_support)

section \<open>reaches\<close>

function reaches_loop :: "plan_def \<Rightarrow> string \<Rightarrow> string set \<Rightarrow> string list \<Rightarrow> bool" where
  "reaches_loop d goal seen queue =
     (if queue = [] then False
      else let i = last queue; rest = butlast queue in
        if i \<in> seen then reaches_loop d goal seen rest
        else case find_node d i of
               None \<Rightarrow> reaches_loop d goal (insert i seen) rest
             | Some n \<Rightarrow>
                 if goal \<in> set (dep_targets n) then True
                 else reaches_loop d goal (insert i seen) (rest @ dep_targets n))"
  by pat_completeness auto
termination
proof (relation "measures [\<lambda>(d, g, seen, q). card (node_ids d - seen), \<lambda>(d, g, seen, q). length q]",
    goal_cases)
  case 1
  show ?case by simp
next
  case (2 d goal seen queue i rest)
  then show ?case by (cases queue rule: rev_cases) auto
next
  case (3 d goal seen queue i rest)
  moreover have "card (node_ids d - insert i seen) \<le> card (node_ids d - seen)"
    by (rule deps.unseen_le)
  ultimately show ?case by (cases queue rule: rev_cases) auto
next
  case (4 d goal seen queue i rest n)
  then have "card (node_ids d - insert i seen) < card (node_ids d - seen)"
    by (intro deps.unseen_less) (auto dest: find_node_in_ids)
  then show ?case by simp
qed

declare reaches_loop.simps [simp del]

lemma reaches_loop_Nil [simp]: "\<not> reaches_loop d goal seen []"
  by (simp add: reaches_loop.simps)

lemma reaches_loop_snoc:
  "reaches_loop d goal seen (rest @ [i]) =
     (if i \<in> seen then reaches_loop d goal seen rest
      else case find_node d i of
             None \<Rightarrow> reaches_loop d goal (insert i seen) rest
           | Some n \<Rightarrow>
               if goal \<in> set (dep_targets n) then True
               else reaches_loop d goal (insert i seen) (rest @ dep_targets n))"
  by (subst reaches_loop.simps) simp

definition reaches :: "plan_def \<Rightarrow> string \<Rightarrow> string \<Rightarrow> bool" where
  "reaches d from_id goal = reaches_loop d goal {} [from_id]"

lemma reaches_loop_sound:
  "reaches_loop d goal seen queue \<Longrightarrow> \<exists>q \<in> set queue. (q, goal) \<in> (edges_of (dep_succs d))\<^sup>+"
proof (induction d goal seen queue rule: reaches_loop.induct)
  case (1 d goal seen queue)
  show ?case
  proof (cases queue rule: rev_cases)
    case Nil
    with "1.prems" show ?thesis by simp
  next
    case (snoc rest i)
    consider (seen) "i \<in> seen" | (none) "i \<notin> seen" "find_node d i = None"
      | (some) n where "i \<notin> seen" "find_node d i = Some n" by (cases "find_node d i") auto
    then show ?thesis
    proof cases
      case seen
      with "1.prems" snoc have "reaches_loop d goal seen rest"
        by (simp add: reaches_loop_snoc)
      with "1.IH"(1) seen snoc show ?thesis by auto
    next
      case none
      with "1.prems" snoc have "reaches_loop d goal (insert i seen) rest"
        by (simp add: reaches_loop_snoc)
      with "1.IH"(2) none snoc show ?thesis by auto
    next
      case some
      then have succs: "dep_succs d i = dep_targets n" by (simp add: dep_succs_def)
      show ?thesis
      proof (cases "goal \<in> set (dep_targets n)")
        case True
        with succs snoc show ?thesis by auto
      next
        case False
        with "1.prems" snoc some have "reaches_loop d goal (insert i seen) (rest @ dep_targets n)"
          by (simp add: reaches_loop_snoc)
        with "1.IH"(3) some snoc False
        have "\<exists>q \<in> set (rest @ dep_targets n). (q, goal) \<in> (edges_of (dep_succs d))\<^sup>+" by auto
        then obtain q where
          q: "q \<in> set (rest @ dep_targets n)" "(q, goal) \<in> (edges_of (dep_succs d))\<^sup>+" by blast
        with succs snoc show ?thesis by (auto intro: trancl_into_trancl2 [of i q])
      qed
    qed
  qed
qed

lemma reaches_loop_complete:
  assumes "\<exists>q \<in> set queue - seen. (q, goal) \<in> (edges_of (dep_succs d))\<^sup>+"
    and "\<forall>x \<in> seen. set (dep_succs d x) \<subseteq> seen \<union> set queue"
    and "\<forall>x \<in> seen. goal \<notin> set (dep_succs d x)"
  shows "reaches_loop d goal seen queue"
  using assms
proof (induction d goal seen queue rule: reaches_loop.induct)
  case (1 d goal seen queue)
  let ?E = "(edges_of (dep_succs d))\<^sup>+"
  from "1.prems"(1) obtain rest i where q: "queue = rest @ [i]"
    by (cases queue rule: rev_cases) auto
  consider (seen) "i \<in> seen" | (none) "i \<notin> seen" "find_node d i = None"
    | (some) n where "i \<notin> seen" "find_node d i = Some n" by (cases "find_node d i") auto
  then show ?case
  proof cases
    case seen
    with "1.IH"(1) "1.prems" q have "reaches_loop d goal seen rest" by auto
    with seen q show ?thesis by (simp add: reaches_loop_snoc)
  next
    case none
    then have no: "dep_succs d i = []" by (simp add: dep_succs_def)
    then have "(i, goal) \<notin> ?E" by (auto dest: tranclD)
    with "1.prems"(1) q have "\<exists>q \<in> set rest - insert i seen. (q, goal) \<in> ?E" by auto
    with "1.IH"(2) "1.prems"(2,3) none no q have "reaches_loop d goal (insert i seen) rest"
      by auto
    with none q show ?thesis by (simp add: reaches_loop_snoc)
  next
    case some
    then have succs: "dep_succs d i = dep_targets n" by (simp add: dep_succs_def)
    show ?thesis
    proof (cases "goal \<in> set (dep_targets n)")
      case True
      with some q show ?thesis by (simp add: reaches_loop_snoc)
    next
      case False
      let ?seen = "insert i seen" and ?q = "rest @ dep_targets n"
      have closed: "\<forall>x \<in> ?seen. set (dep_succs d x) \<subseteq> ?seen \<union> set ?q"
        and away: "\<forall>x \<in> ?seen. goal \<notin> set (dep_succs d x)"
        using "1.prems"(2,3) q succs False by auto
      have "\<exists>x \<in> set ?q - ?seen. (x, goal) \<in> ?E"
      proof -
        from "1.prems"(1) q obtain x where x: "x \<in> set (rest @ [i])" "x \<notin> seen" "(x, goal) \<in> ?E"
          by auto
        then show ?thesis using deps.escape [OF _ _ closed away, of i] by (cases "x = i") auto
      qed
      with "1.IH"(3) some q False closed away have "reaches_loop d goal ?seen ?q" by auto
      with some q False show ?thesis by (simp add: reaches_loop_snoc)
    qed
  qed
qed

lemma reaches_iff: "reaches d u v \<longleftrightarrow> (u, v) \<in> (edges_of (dep_succs d))\<^sup>+"
  using reaches_loop_sound [of d v "{}" "[u]"] reaches_loop_complete [of "[u]" "{}" v d]
  by (auto simp: reaches_def)

section \<open>order\<close>

record order_state =
  os_order :: "string list"
  os_colors :: "string \<Rightarrow> nat"
  os_cycle :: "string list option"

definition uncolored :: "plan_def \<Rightarrow> order_state \<Rightarrow> string set" where
  "uncolored d s = {i \<in> node_ids d. os_colors s i \<noteq> 1 \<and> os_colors s i \<noteq> 2}"

function visit :: "plan_def \<Rightarrow> string \<Rightarrow> string list \<Rightarrow> order_state \<Rightarrow> order_state"
  and visit_all :: "plan_def \<Rightarrow> string list \<Rightarrow> string list \<Rightarrow> order_state \<Rightarrow> order_state" where
  "visit d i path s =
     (if os_colors s i = 2 \<or> os_cycle s \<noteq> None then s
      else if os_colors s i = 1 then s\<lparr>os_cycle := Some (path @ [i])\<rparr>
      else case find_node d i of
             None \<Rightarrow> s
           | Some n \<Rightarrow>
               let s1 = visit_all d (dep_targets n) (path @ [i])
                          (s\<lparr>os_colors := (os_colors s)(i := 1)\<rparr>)
               in s1\<lparr>os_colors := (os_colors s1)(i := 2), os_order := os_order s1 @ [i]\<rparr>)"
| "visit_all d [] path s = s"
| "visit_all d (v # vs) path s = visit_all d vs path (visit d v path s)"
  by pat_completeness auto

lemma visit_colors:
  "visit_visit_all_dom (Inl (d, i, path, s)) \<Longrightarrow> uncolored d (visit d i path s) \<subseteq> uncolored d s"
  "visit_visit_all_dom (Inr (d, vs, path, s)) \<Longrightarrow> uncolored d (visit_all d vs path s) \<subseteq> uncolored d s"
proof (induction d i path s and d vs path s rule: visit_visit_all.pinduct)
  case (1 d i path s)
  show ?case
  proof (cases "os_colors s i = 2 \<or> os_cycle s \<noteq> None \<or> os_colors s i = 1 \<or> find_node d i = None")
    case True
    with 1(1) show ?thesis by (auto simp: visit.psimps uncolored_def)
  next
    case False
    then obtain n where n: "find_node d i = Some n" by auto
    have "visit d i path s =
      (let s1 = visit_all d (dep_targets n) (path @ [i]) (s\<lparr>os_colors := (os_colors s)(i := 1)\<rparr>)
       in s1\<lparr>os_colors := (os_colors s1)(i := 2), os_order := os_order s1 @ [i]\<rparr>)"
      using 1(1) False n by (simp add: visit.psimps)
    with 1(2) False n show ?thesis by (auto simp: uncolored_def Let_def split: if_splits)
  qed
qed (auto simp: visit_all.psimps)

termination visit
proof (relation "inv_image (less_than <*lex*> less_than)
    (\<lambda>x. case x of Inl (d, i, path, s) \<Rightarrow> (card (uncolored d s), 0)
               | Inr (d, vs, path, s) \<Rightarrow> (card (uncolored d s), length vs))", goal_cases)
  case 1
  show ?case by auto
next
  case (2 d i path s n)
  then have "i \<in> uncolored d s" by (auto simp: uncolored_def find_node_in_ids)
  then have "uncolored d (s\<lparr>os_colors := (os_colors s)(i := 1)\<rparr>) \<subset> uncolored d s"
    by (auto simp: uncolored_def)
  then have "card (uncolored d (s\<lparr>os_colors := (os_colors s)(i := 1)\<rparr>)) < card (uncolored d s)"
    by (intro psubset_card_mono) (auto simp: uncolored_def)
  then show ?case by simp
next
  case (3 d v vs path s)
  show ?case by simp
next
  case (4 d v vs path s)
  then have "card (uncolored d (visit d v path s)) \<le> card (uncolored d s)"
    by (intro card_mono visit_colors) (auto simp: uncolored_def)
  then show ?case by auto
qed

declare visit.simps [simp del]

definition order_of :: "plan_def \<Rightarrow> string list \<times> string list" where
  "order_of d =
     (let s = visit_all d (map node_id (plan_nodes d)) []
                \<lparr>os_order = [], os_colors = (\<lambda>_. 0), os_cycle = None\<rparr>
      in (os_order s, case os_cycle s of None \<Rightarrow> [] | Some c \<Rightarrow> c))"

text \<open>A walk along dependencies, a walk that ends where it passed, a dependency order.\<close>

definition dep_walk :: "plan_def \<Rightarrow> string list \<Rightarrow> bool" where
  "dep_walk d p \<longleftrightarrow> successively (\<lambda>u v. v \<in> set (dep_succs d u)) p"

definition closed_walk :: "plan_def \<Rightarrow> string list \<Rightarrow> bool" where
  "closed_walk d c \<longleftrightarrow> (\<exists>p i. c = p @ [i] \<and> i \<in> set p \<and> dep_walk d c)"

definition dep_ordered :: "plan_def \<Rightarrow> string list \<Rightarrow> bool" where
  "dep_ordered d xs \<longleftrightarrow>
     (\<forall>ys u zs. xs = ys @ u # zs \<longrightarrow> set (dep_succs d u) \<inter> node_ids d \<subseteq> set ys)"

definition visit_inv :: "plan_def \<Rightarrow> string list \<Rightarrow> order_state \<Rightarrow> bool" where
  "visit_inv d path s \<longleftrightarrow>
     os_colors s = (\<lambda>i. if i \<in> set path then 1 else if i \<in> set (os_order s) then 2 else 0) \<and>
     set path \<inter> set (os_order s) = {} \<and> distinct (os_order s) \<and>
     set path \<union> set (os_order s) \<subseteq> node_ids d \<and>
     (\<forall>c. os_cycle s = Some c \<longrightarrow> closed_walk d c) \<and>
     (os_cycle s = None \<longrightarrow> dep_ordered d (os_order s)) \<and>
     dep_walk d path"

definition extends_walk :: "plan_def \<Rightarrow> string list \<Rightarrow> string \<Rightarrow> bool" where
  "extends_walk d path i \<longleftrightarrow> path = [] \<or> i \<in> set (dep_succs d (last path))"

lemma dep_walk_snoc: "dep_walk d (p @ [i]) \<longleftrightarrow> dep_walk d p \<and> extends_walk d p i"
  by (cases p rule: rev_cases)
    (auto simp: dep_walk_def extends_walk_def successively_append_iff)

lemma dep_ordered_Nil [simp]: "dep_ordered d []"
  by (simp add: dep_ordered_def)

lemma dep_ordered_snoc:
  "dep_ordered d (xs @ [u]) \<longleftrightarrow>
     dep_ordered d xs \<and> set (dep_succs d u) \<inter> node_ids d \<subseteq> set xs"
proof
  assume asm: "dep_ordered d (xs @ [u])"
  then have "set (dep_succs d u) \<inter> node_ids d \<subseteq> set xs"
    unfolding dep_ordered_def by (elim allE [of _ xs]) auto
  moreover have "dep_ordered d xs"
    unfolding dep_ordered_def
  proof (intro allI impI)
    fix ys w zs assume "xs = ys @ w # zs"
    then have "xs @ [u] = ys @ w # (zs @ [u])" by simp
    with asm show "set (dep_succs d w) \<inter> node_ids d \<subseteq> set ys" unfolding dep_ordered_def by blast
  qed
  ultimately show "dep_ordered d xs \<and> set (dep_succs d u) \<inter> node_ids d \<subseteq> set xs" by blast
next
  assume asm: "dep_ordered d xs \<and> set (dep_succs d u) \<inter> node_ids d \<subseteq> set xs"
  show "dep_ordered d (xs @ [u])"
    unfolding dep_ordered_def
  proof (intro allI impI)
    fix ys w zs assume eq: "xs @ [u] = ys @ w # zs"
    show "set (dep_succs d w) \<inter> node_ids d \<subseteq> set ys"
    proof (cases zs rule: rev_cases)
      case Nil
      with eq asm show ?thesis by simp
    next
      case (snoc zs' z)
      with eq have "xs = ys @ w # zs'" by simp
      with asm show ?thesis unfolding dep_ordered_def by blast
    qed
  qed
qed


text \<open>What one call of \<open>visit\<close> guarantees, given the invariant of the search.\<close>

definition visit_post :: "plan_def \<Rightarrow> string set \<Rightarrow> string list \<Rightarrow> order_state \<Rightarrow> order_state \<Rightarrow> bool" where
  "visit_post d X path s s' \<longleftrightarrow>
     visit_inv d path s' \<and> (\<exists>zs. os_order s' = os_order s @ zs) \<and>
     (os_cycle s' = None \<longrightarrow> os_cycle s = None \<and> X \<inter> node_ids d \<subseteq> set (os_order s'))"

lemma visit_post_trans:
  "visit_post d X path s s' \<Longrightarrow> visit_post d Y path s' s'' \<Longrightarrow> visit_post d (X \<union> Y) path s s''"
  unfolding visit_post_def by fastforce

lemma visit_inv_enter:
  assumes "visit_inv d path s" and "extends_walk d path i" and "i \<in> node_ids d"
    and "os_colors s i \<noteq> 1" and "os_colors s i \<noteq> 2"
  shows "visit_inv d (path @ [i]) (s\<lparr>os_colors := (os_colors s)(i := 1)\<rparr>)"
proof -
  from assms have "i \<notin> set path" "i \<notin> set (os_order s)"
    by (auto simp: visit_inv_def split: if_splits)
  with assms show ?thesis by (auto simp: visit_inv_def dep_walk_snoc)
qed

lemma visit_inv_leave:
  assumes "visit_inv d (path @ [i]) s" and "i \<notin> set path"
    and "os_cycle s = None \<Longrightarrow> set (dep_succs d i) \<inter> node_ids d \<subseteq> set (os_order s)"
  shows "visit_inv d path (s\<lparr>os_colors := (os_colors s)(i := 2), os_order := os_order s @ [i]\<rparr>)"
  using assms by (auto simp: visit_inv_def dep_walk_snoc dep_ordered_snoc)

lemma visit_inv_cycle:
  assumes "visit_inv d path s" and "extends_walk d path i" and "os_colors s i = 1"
  shows "visit_inv d path (s\<lparr>os_cycle := Some (path @ [i])\<rparr>)"
proof -
  from assms have "i \<in> set path" by (auto simp: visit_inv_def split: if_splits)
  with assms have "closed_walk d (path @ [i])"
    by (auto simp: closed_walk_def dep_walk_snoc visit_inv_def)
  with assms(1) show ?thesis by (auto simp: visit_inv_def)
qed

lemma visit_correct:
  "visit_inv d path s \<Longrightarrow> extends_walk d path i \<Longrightarrow> visit_post d {i} path s (visit d i path s)"
  "visit_inv d path s \<Longrightarrow> (\<forall>v \<in> set vs. extends_walk d path v) \<Longrightarrow>
     visit_post d (set vs) path s (visit_all d vs path s)"
proof (induction d i path s and d vs path s rule: visit_visit_all.induct)
  case (1 d i path s)
  consider (black) "os_colors s i = 2 \<or> os_cycle s \<noteq> None"
    | (grey) "os_colors s i = 1" "os_cycle s = None"
    | (foreign) "os_colors s i \<noteq> 2" "os_colors s i \<noteq> 1" "os_cycle s = None" "find_node d i = None"
    | (enter) n where "os_colors s i \<noteq> 2" "os_colors s i \<noteq> 1" "os_cycle s = None"
        "find_node d i = Some n"
    by (cases "find_node d i") auto
  then show ?case
  proof cases
    case black
    then have "visit d i path s = s" by (auto simp: visit.simps)
    with "1.prems" black show ?thesis
      by (auto simp: visit_post_def visit_inv_def split: if_splits)
  next
    case grey
    then have "visit d i path s = s\<lparr>os_cycle := Some (path @ [i])\<rparr>" by (simp add: visit.simps)
    with visit_inv_cycle [OF "1.prems" grey(1)] show ?thesis by (simp add: visit_post_def)
  next
    case foreign
    then have "visit d i path s = s" by (simp add: visit.simps)
    with "1.prems" foreign show ?thesis by (auto simp: visit_post_def find_node_none_ids)
  next
    case enter
    let ?s0 = "s\<lparr>os_colors := (os_colors s)(i := 1)\<rparr>"
    let ?s1 = "visit_all d (dep_targets n) (path @ [i]) ?s0"
    have i: "i \<in> node_ids d" and succs: "dep_succs d i = dep_targets n"
      using enter(4) by (simp_all add: find_node_in_ids dep_succs_def)
    have fresh: "i \<notin> set path" using "1.prems"(1) enter(1,2)
      by (auto simp: visit_inv_def split: if_splits)
    have inv0: "visit_inv d (path @ [i]) ?s0"
      using "1.prems" i enter(1,2) by (intro visit_inv_enter)
    have "\<forall>v \<in> set (dep_targets n). extends_walk d (path @ [i]) v"
      by (simp add: extends_walk_def succs)
    with "1.IH" enter inv0 have post: "visit_post d (set (dep_targets n)) (path @ [i]) ?s0 ?s1"
      by auto
    have unfold: "visit d i path s =
        ?s1\<lparr>os_colors := (os_colors ?s1)(i := 2), os_order := os_order ?s1 @ [i]\<rparr>"
      using enter by (subst visit.simps) (simp add: Let_def)
    have "visit_inv d path (visit d i path s)"
      unfolding unfold by (rule visit_inv_leave) (use post succs fresh in \<open>auto simp: visit_post_def\<close>)
    with post enter(3) show ?thesis unfolding unfold by (auto simp: visit_post_def)
  qed
next
  case (2 d path s)
  then show ?case by (simp add: visit_post_def)
next
  case (3 d v vs path s)
  then have "visit_post d {v} path s (visit d v path s)" by simp
  moreover from this have "visit_inv d path (visit d v path s)" by (simp add: visit_post_def)
  with 3 have "visit_post d (set vs) path (visit d v path s) (visit_all d (v # vs) path s)"
    by simp
  ultimately show ?case using visit_post_trans [of d "{v}"] by (metis insert_is_Un list.simps(15))
qed

lemma order_of_inv:
  obtains s where "visit_inv d [] s"
    and "order_of d = (os_order s, case os_cycle s of None \<Rightarrow> [] | Some c \<Rightarrow> c)"
    and "os_cycle s = None \<longrightarrow> node_ids d \<subseteq> set (os_order s)"
proof -
  let ?init = "\<lparr>os_order = [], os_colors = (\<lambda>_. 0), os_cycle = None\<rparr> :: order_state"
  let ?s = "visit_all d (map node_id (plan_nodes d)) [] ?init"
  have "visit_inv d [] ?init" by (auto simp: visit_inv_def dep_walk_def)
  then have "visit_post d (set (map node_id (plan_nodes d))) [] ?init ?s"
    by (rule visit_correct(2)) (simp add: extends_walk_def)
  then have post: "visit_inv d [] ?s" "os_cycle ?s = None \<longrightarrow> node_ids d \<subseteq> set (os_order ?s)"
    by (auto simp: visit_post_def node_ids_def)
  show ?thesis
    by (rule that [of ?s]) (use post in \<open>simp_all add: order_of_def Let_def\<close>)
qed

lemma closed_walk_not_Nil: "\<not> closed_walk d []"
  by (simp add: closed_walk_def)

lemma order_of_acyclic:
  assumes "snd (order_of d) = []"
  shows "distinct (fst (order_of d)) \<and> set (fst (order_of d)) = node_ids d \<and>
    dep_ordered d (fst (order_of d))"
proof -
  obtain s where s: "visit_inv d [] s"
    "order_of d = (os_order s, case os_cycle s of None \<Rightarrow> [] | Some c \<Rightarrow> c)"
    "os_cycle s = None \<longrightarrow> node_ids d \<subseteq> set (os_order s)" by (rule order_of_inv)
  have "os_cycle s = None"
  proof (cases "os_cycle s")
    case (Some c)
    with s(1) have "closed_walk d c" by (simp add: visit_inv_def)
    moreover from Some s(2) assms have "c = []" by simp
    ultimately show ?thesis by (simp add: closed_walk_not_Nil)
  qed
  with s show ?thesis by (auto simp: visit_inv_def)
qed

lemma order_of_cycle:
  assumes "snd (order_of d) \<noteq> []"
  shows "closed_walk d (snd (order_of d))"
proof -
  obtain s where s: "visit_inv d [] s"
    "order_of d = (os_order s, case os_cycle s of None \<Rightarrow> [] | Some c \<Rightarrow> c)"
    by (rule order_of_inv)
  with assms obtain c where "os_cycle s = Some c" by (auto split: option.splits)
  with s show ?thesis by (simp add: visit_inv_def)
qed

subsection \<open>What the order decides\<close>

lemma dep_walk_reach: "dep_walk d (p @ [v]) \<Longrightarrow> u \<in> set p \<Longrightarrow> (u, v) \<in> (edges_of (dep_succs d))\<^sup>+"
proof (induction p arbitrary: v rule: rev_induct)
  case Nil
  then show ?case by simp
next
  case (snoc w p)
  from snoc.prems(1) have step: "v \<in> set (dep_succs d w)" and walk: "dep_walk d (p @ [w])"
    using dep_walk_snoc [of d "p @ [w]" v] by (simp_all add: extends_walk_def)
  show ?case
  proof (cases "u = w")
    case True
    with step show ?thesis by auto
  next
    case False
    with snoc.prems(2) walk have "(u, w) \<in> (edges_of (dep_succs d))\<^sup>+"
      by (intro snoc.IH) simp_all
    moreover from step have "(w, v) \<in> edges_of (dep_succs d)" by simp
    ultimately show ?thesis by (rule trancl_into_trancl)
  qed
qed

lemma closed_walk_cyclic: "closed_walk d c \<Longrightarrow> \<not> acyclic (edges_of (dep_succs d))"
  by (auto simp: closed_walk_def acyclic_def dest: dep_walk_reach)

lemma dep_ordered_before:
  assumes "dep_ordered d xs" and "u \<in> set xs" and "v \<in> set (dep_succs d u)" and "v \<in> node_ids d"
  shows "length (takeWhile (\<lambda>x. x \<noteq> v) xs) < length (takeWhile (\<lambda>x. x \<noteq> u) xs)"
proof -
  from assms(2) obtain ys zs where xs: "xs = ys @ u # zs" "u \<notin> set ys"
    by (meson split_list_first)
  with assms have v: "v \<in> set ys" unfolding dep_ordered_def by blast
  then have "takeWhile (\<lambda>x. x \<noteq> v) xs = takeWhile (\<lambda>x. x \<noteq> v) ys"
    unfolding xs by (simp add: takeWhile_append1 [where x = v])
  moreover have "length (takeWhile (\<lambda>x. x \<noteq> v) ys) < length ys"
    using v by (induction ys) auto
  moreover have "takeWhile (\<lambda>x. x \<noteq> u) xs = ys"
    using xs(2) unfolding xs by (subst takeWhile_append2) auto
  ultimately show ?thesis by simp
qed

lemma reach_source: "(u, v) \<in> (edges_of (dep_succs d))\<^sup>+ \<Longrightarrow> u \<in> node_ids d"
  by (induction rule: converse_trancl_induct) (auto intro: dep_succs_support)

lemma order_of_sound:
  assumes "snd (order_of d) = []"
  shows "acyclic (edges_of (dep_succs d))"
proof -
  let ?f = "\<lambda>u. length (takeWhile (\<lambda>x. x \<noteq> u) (fst (order_of d)))"
  have edge: "?f v < ?f u" if v: "v \<in> set (dep_succs d u)" "v \<in> node_ids d" for u v
  proof (rule dep_ordered_before [OF _ _ v])
    from order_of_acyclic [OF assms] show "dep_ordered d (fst (order_of d))" by simp
    from v(1) have "u \<in> node_ids d" by (intro dep_succs_support) auto
    with order_of_acyclic [OF assms] show "u \<in> set (fst (order_of d))" by simp
  qed
  have path: "?f v < ?f u" if "(u, v) \<in> (edges_of (dep_succs d))\<^sup>+" "v \<in> node_ids d" for u v
    using that
  proof (induction rule: converse_trancl_induct)
    case (base y)
    then show ?case by (intro edge) simp_all
  next
    case (step y z)
    from step.hyps(2) have "z \<in> node_ids d" by (rule reach_source)
    with step.hyps(1) have "?f z < ?f y" by (intro edge) simp_all
    with step.IH [OF step.prems] show ?case by (rule less_trans)
  qed
  show ?thesis
    unfolding acyclic_def
  proof (intro allI notI)
    fix x assume loop: "(x, x) \<in> (edges_of (dep_succs d))\<^sup>+"
    from path [OF this reach_source [OF this]] show False by simp
  qed
qed

lemma order_of_decides: "snd (order_of d) = [] \<longleftrightarrow> acyclic (edges_of (dep_succs d))"
  using order_of_sound order_of_cycle closed_walk_cyclic by blast

section \<open>CriticalPath\<close>

definition longest_prefix :: "(string \<Rightarrow> string list) \<Rightarrow> string list \<Rightarrow> string list" where
  "longest_prefix paths targets =
     fold (\<lambda>t pre. if length pre < length (paths t) then paths t else pre) targets []"

definition path_step ::
  "plan_def \<Rightarrow> string \<Rightarrow> (string \<Rightarrow> string list) \<times> string list \<Rightarrow>
     (string \<Rightarrow> string list) \<times> string list" where
  "path_step d i = (\<lambda>(paths, best).
     let p = longest_prefix paths (dep_succs d i) @ [i]
     in (paths(i := p), if length best < length p then p else best))"

definition critical_path :: "plan_def \<Rightarrow> string list" where
  "critical_path d =
     (if snd (order_of d) \<noteq> [] then []
      else snd (fold (path_step d) (fst (order_of d)) (\<lambda>_. [], [])))"

lemma longest_prefix_in:
  "longest_prefix paths ts = [] \<or> (\<exists>t \<in> set ts. longest_prefix paths ts = paths t)"
  unfolding longest_prefix_def by (induction ts rule: rev_induct) auto

lemma longest_prefix_le: "t \<in> set ts \<Longrightarrow> length (paths t) \<le> length (longest_prefix paths ts)"
  unfolding longest_prefix_def by (induction ts rule: rev_induct) auto

text \<open>A chain leads from a dependency to its dependants; \<open>paths i\<close> is a longest one ending in \<open>i\<close>.\<close>

definition longest_chain :: "plan_def \<Rightarrow> string \<Rightarrow> string list \<Rightarrow> bool" where
  "longest_chain d i p \<longleftrightarrow>
     p \<noteq> [] \<and> last p = i \<and> dep_walk d (rev p) \<and> set p \<subseteq> node_ids d \<and>
     (\<forall>q. dep_walk d (i # q) \<and> set q \<subseteq> node_ids d \<longrightarrow> Suc (length q) \<le> length p)"

definition paths_inv :: "plan_def \<Rightarrow> string list \<Rightarrow> (string \<Rightarrow> string list) \<times> string list \<Rightarrow> bool" where
  "paths_inv d xs = (\<lambda>(paths, best).
     (\<forall>i. if i \<in> set xs then longest_chain d i (paths i) else paths i = []) \<and>
     (best = [] \<or> (\<exists>i \<in> set xs. best = paths i)) \<and>
     (\<forall>i \<in> set xs. length (paths i) \<le> length best))"

lemma dep_walk_Cons:
  "dep_walk d (u # q) \<longleftrightarrow> dep_walk d q \<and> (q = [] \<or> hd q \<in> set (dep_succs d u))"
  by (cases q) (auto simp: dep_walk_def)

lemma longest_chain_step:
  assumes known: "\<forall>t. if t \<in> set xs then longest_chain d t (paths t) else paths t = []"
    and closed: "set (dep_succs d i) \<inter> node_ids d \<subseteq> set xs" and i: "i \<in> node_ids d"
  shows "longest_chain d i (longest_prefix paths (dep_succs d i) @ [i])"
proof -
  let ?pre = "longest_prefix paths (dep_succs d i)"
  have pre: "?pre = [] \<or> (\<exists>t \<in> set (dep_succs d i). longest_chain d t ?pre)"
  proof (cases "?pre = []")
    case False
    with longest_prefix_in [of paths "dep_succs d i"] obtain t
      where t: "t \<in> set (dep_succs d i)" "?pre = paths t" by auto
    with known False have "longest_chain d t (paths t)" by (metis (full_types))
    with t show ?thesis by auto
  qed simp
  then have "dep_walk d (rev (?pre @ [i]))" "set (?pre @ [i]) \<subseteq> node_ids d"
    using i by (auto simp: longest_chain_def dep_walk_Cons hd_rev) (simp add: dep_walk_def)
  moreover have "Suc (length q) \<le> length (?pre @ [i])"
    if q: "dep_walk d (i # q)" "set q \<subseteq> node_ids d" for q
  proof (cases q)
    case (Cons t r)
    with q have t: "t \<in> set (dep_succs d i)" "t \<in> node_ids d" "dep_walk d (t # r)"
        "set r \<subseteq> node_ids d"
      by (auto simp: dep_walk_Cons [of d i])
    with closed known have "longest_chain d t (paths t)" by (metis Int_iff subsetD)
    with t have "Suc (length r) \<le> length (paths t)" by (simp add: longest_chain_def)
    also have "\<dots> \<le> length ?pre" using t(1) by (rule longest_prefix_le)
    finally show ?thesis using Cons by simp
  qed simp
  ultimately show ?thesis unfolding longest_chain_def by simp
qed

lemma paths_invI:
  assumes "\<And>i. i \<in> set xs \<Longrightarrow> longest_chain d i (paths i) \<and> length (paths i) \<le> length best"
    and "\<And>i. i \<notin> set xs \<Longrightarrow> paths i = []" and "best = [] \<or> (\<exists>i \<in> set xs. best = paths i)"
  shows "paths_inv d xs (paths, best)"
  using assms by (simp add: paths_inv_def)

lemma path_step_inv:
  assumes inv: "paths_inv d xs pb"
    and closed: "set (dep_succs d i) \<inter> node_ids d \<subseteq> set xs" and i: "i \<in> node_ids d" "i \<notin> set xs"
  shows "paths_inv d (xs @ [i]) (path_step d i pb)"
proof -
  obtain paths best where pb: "pb = (paths, best)" by (cases pb)
  let ?p = "longest_prefix paths (dep_succs d i) @ [i]"
  have known: "\<forall>t. if t \<in> set xs then longest_chain d t (paths t) else paths t = []"
    and best: "best = [] \<or> (\<exists>j \<in> set xs. best = paths j)"
    and bound: "\<forall>j \<in> set xs. length (paths j) \<le> length best"
    using inv by (simp_all add: paths_inv_def pb)
  have chain: "longest_chain d i ?p" using known closed i(1) by (rule longest_chain_step)
  show ?thesis
    unfolding pb path_step_def Let_def prod.case
  proof (rule paths_invI)
    fix j assume j: "j \<in> set (xs @ [i])"
    show "longest_chain d j ((paths(i := ?p)) j) \<and>
      length ((paths(i := ?p)) j) \<le> length (if length best < length ?p then ?p else best)"
    proof (cases "j = i")
      case False
      with j have "j \<in> set xs" by simp
      with known bound False show ?thesis by (auto intro: order.trans)
    qed (use chain in auto)
  next
    fix j assume "j \<notin> set (xs @ [i])"
    with known show "(paths(i := ?p)) j = []" by auto
  next
    show "(if length best < length ?p then ?p else best) = [] \<or>
      (\<exists>j \<in> set (xs @ [i]). (if length best < length ?p then ?p else best) = (paths(i := ?p)) j)"
      using best i(2) by (auto simp: fun_upd_apply)
  qed
qed

lemma paths_inv_fold:
  "dep_ordered d xs \<Longrightarrow> distinct xs \<Longrightarrow> set xs \<subseteq> node_ids d \<Longrightarrow>
     paths_inv d xs (fold (path_step d) xs (\<lambda>_. [], []))"
proof (induction xs rule: rev_induct)
  case Nil
  show ?case by (simp add: paths_inv_def)
next
  case (snoc i xs)
  then show ?case by (auto simp: dep_ordered_snoc intro!: path_step_inv)
qed

lemma critical_path_longest:
  assumes "snd (order_of d) = []"
  shows "dep_walk d (rev (critical_path d))"
    and "set (critical_path d) \<subseteq> node_ids d"
    and "dep_walk d q \<Longrightarrow> set q \<subseteq> node_ids d \<Longrightarrow> length q \<le> length (critical_path d)"
proof -
  note ord = order_of_acyclic [OF assms]
  obtain paths best where pb: "fold (path_step d) (fst (order_of d)) (\<lambda>_. [], []) = (paths, best)"
    by (cases "fold (path_step d) (fst (order_of d)) (\<lambda>_. [], [])")
  have inv: "paths_inv d (fst (order_of d)) (paths, best)"
    unfolding pb [symmetric] using ord by (intro paths_inv_fold) auto
  have cp: "critical_path d = best" using assms pb by (simp add: critical_path_def)
  have best: "best = [] \<or> (\<exists>i. longest_chain d i best)"
  proof (cases "best = []")
    case False
    with inv obtain i where i: "i \<in> set (fst (order_of d))" "best = paths i"
      by (auto simp: paths_inv_def)
    from inv have "if i \<in> set (fst (order_of d)) then longest_chain d i (paths i) else paths i = []"
      by (simp add: paths_inv_def)
    with i show ?thesis by auto
  qed simp
  then show "dep_walk d (rev (critical_path d))" "set (critical_path d) \<subseteq> node_ids d"
    unfolding cp by (auto simp: longest_chain_def dep_walk_def)
  assume q: "dep_walk d q" "set q \<subseteq> node_ids d"
  show "length q \<le> length (critical_path d)"
  proof (cases q)
    case (Cons i r)
    with q ord have i: "i \<in> set (fst (order_of d))" by auto
    with inv have "longest_chain d i (paths i)" "length (paths i) \<le> length best"
      by (auto simp: paths_inv_def)
    with q Cons show ?thesis unfolding cp longest_chain_def by fastforce
  qed simp
qed

section \<open>components\<close>

definition adj_pairs :: "plan_def \<Rightarrow> (string \<times> string) list" where
  "adj_pairs d =
     concat (map (\<lambda>n. map (\<lambda>t. (node_id n, t))
                        (filter (\<lambda>t. find_node d t \<noteq> None) (dep_targets n))) (plan_nodes d))"

definition adj_step :: "string \<times> string \<Rightarrow> (string \<Rightarrow> string list) \<Rightarrow> string \<Rightarrow> string list" where
  "adj_step = (\<lambda>(u, v) adj. let adj' = adj(u := adj u @ [v]) in adj'(v := adj' v @ [u]))"

definition adjacency :: "plan_def \<Rightarrow> string \<Rightarrow> string list" where
  "adjacency d = fold adj_step (adj_pairs d) (\<lambda>_. [])"

definition linked :: "plan_def \<Rightarrow> (string \<times> string) set" where
  "linked d = {(u, v). \<exists>n \<in> set (plan_nodes d).
     node_id n = u \<and> v \<in> set (dep_targets n) \<and> v \<in> node_ids d}"

lemma set_adj_pairs: "set (adj_pairs d) = linked d"
  by (auto simp: adj_pairs_def linked_def find_node_none_ids)

lemma adj_fold:
  "v \<in> set (fold adj_step ps adj u) \<longleftrightarrow> v \<in> set (adj u) \<or> (u, v) \<in> set ps \<or> (v, u) \<in> set ps"
proof (induction ps arbitrary: adj)
  case (Cons p ps)
  have "v \<in> set (adj_step p adj u) \<longleftrightarrow> v \<in> set (adj u) \<or> (u, v) = p \<or> (v, u) = p"
    by (cases p) (auto simp: adj_step_def Let_def)
  then show ?case by (simp add: Cons.IH) blast
qed simp

lemma adjacency_edges: "edges_of (adjacency d) = linked d \<union> (linked d)\<inverse>"
proof (rule set_eqI)
  fix e show "e \<in> edges_of (adjacency d) \<longleftrightarrow> e \<in> linked d \<union> (linked d)\<inverse>"
    by (cases e) (simp add: adjacency_def adj_fold set_adj_pairs)
qed

lemma linked_ids: "(u, v) \<in> linked d \<Longrightarrow> u \<in> node_ids d \<and> v \<in> node_ids d"
  by (auto simp: linked_def node_ids_def)

lemma adjacency_ids: "v \<in> set (adjacency d u) \<Longrightarrow> u \<in> node_ids d \<and> v \<in> node_ids d"
proof -
  assume "v \<in> set (adjacency d u)"
  then have "(u, v) \<in> edges_of (adjacency d)" by simp
  then show ?thesis unfolding adjacency_edges by (auto dest: linked_ids)
qed

lemma adjacency_sym: "v \<in> set (adjacency d u) \<Longrightarrow> u \<in> set (adjacency d v)"
  by (auto simp: adjacency_def adj_fold)

interpretation links: finite_digraph "adjacency d" "node_ids d" for d
proof unfold_locales
  fix u assume "adjacency d u \<noteq> []"
  then show "u \<in> node_ids d" using adjacency_ids [of "hd (adjacency d u)" d u] by simp
qed simp

function comp_loop ::
  "plan_def \<Rightarrow> string set \<Rightarrow> string list \<Rightarrow> string list \<Rightarrow> string set \<times> string list" where
  "comp_loop d seen queue component =
     (if queue = [] then (seen, component)
      else let i = last queue; rest = butlast queue in
        if i \<in> seen then comp_loop d seen rest component
        else comp_loop d (insert i seen) (rest @ adjacency d i) (component @ [i]))"
  by pat_completeness auto
termination
proof (relation "measures [\<lambda>(d, seen, q, c). card (node_ids d - seen), \<lambda>(d, seen, q, c). length q]",
    goal_cases)
  case 1
  show ?case by simp
next
  case (2 d seen queue component i rest)
  then show ?case by (cases queue rule: rev_cases) auto
next
  case (3 d seen queue component i rest)
  show ?case
  proof (cases "i \<in> node_ids d")
    case True
    with 3 have "card (node_ids d - insert i seen) < card (node_ids d - seen)"
      by (intro links.unseen_less)
    then show ?thesis by simp
  next
    case False
    then have "adjacency d i = []" using links.support by blast
    moreover have "card (node_ids d - insert i seen) \<le> card (node_ids d - seen)"
      by (rule links.unseen_le)
    ultimately show ?thesis using 3 by (cases queue rule: rev_cases) auto
  qed
qed

declare comp_loop.simps [simp del]

lemma comp_loop_Nil [simp]: "comp_loop d seen [] c = (seen, c)"
  by (simp add: comp_loop.simps)

lemma comp_loop_snoc:
  "comp_loop d seen (rest @ [i]) c =
     (if i \<in> seen then comp_loop d seen rest c
      else comp_loop d (insert i seen) (rest @ adjacency d i) (c @ [i]))"
  by (subst comp_loop.simps) simp

definition component_step :: "plan_def \<Rightarrow> node \<Rightarrow> string set \<times> string list list \<Rightarrow>
    string set \<times> string list list" where
  "component_step d n = (\<lambda>(seen, result).
     if node_id n \<in> seen then (seen, result)
     else case comp_loop d seen [node_id n] [] of (seen', c) \<Rightarrow> (seen', result @ [sort c]))"

definition components :: "plan_def \<Rightarrow> string list list" where
  "components d =
     snd (fold (component_step d) (plan_nodes d) ({}, []))"

text \<open>
  The search collects one component \<open>K\<close>: a set closed under the adjacency. The lists
  \<open>c\<close> and \<open>queue\<close> are the part already collected and the frontier.
\<close>

definition comp_inv ::
  "plan_def \<Rightarrow> string set \<Rightarrow> string set \<Rightarrow> string list \<Rightarrow> string list \<Rightarrow> bool" where
  "comp_inv d K seen queue c \<longleftrightarrow>
     seen \<inter> K = set c \<and> set queue \<subseteq> K \<and> distinct c \<and>
     (\<forall>x \<in> set c. set (adjacency d x) \<subseteq> set c \<union> set queue)"

lemma comp_inv_skip: "comp_inv d K seen (rest @ [i]) c \<Longrightarrow> i \<in> seen \<Longrightarrow> comp_inv d K seen rest c"
  unfolding comp_inv_def by (auto simp: subset_iff)

lemma comp_inv_take:
  "comp_inv d K seen (rest @ [i]) c \<Longrightarrow> i \<notin> seen \<Longrightarrow> \<forall>x \<in> K. set (adjacency d x) \<subseteq> K \<Longrightarrow>
     comp_inv d K (insert i seen) (rest @ adjacency d i) (c @ [i])"
  unfolding comp_inv_def by (auto simp: subset_iff)

lemma comp_loop_spec:
  assumes "comp_loop d seen queue c = (seen', c')"
    and "comp_inv d K seen queue c" and "\<forall>x \<in> K. set (adjacency d x) \<subseteq> K"
  shows "comp_inv d K seen' [] c' \<and> seen' = seen \<union> set c' \<and> set c \<union> set queue \<subseteq> set c'"
  using assms
proof (induction d seen queue c rule: comp_loop.induct)
  case (1 d seen queue c)
  show ?case
  proof (cases queue rule: rev_cases)
    case Nil
    with "1.prems" show ?thesis by (auto simp: comp_inv_def)
  next
    case (snoc rest i)
    show ?thesis
    proof (cases "i \<in> seen")
      case True
      with "1.prems" snoc have c: "i \<in> set c" by (auto simp: comp_inv_def)
      have "comp_inv d K seen' [] c' \<and> seen' = seen \<union> set c' \<and> set c \<union> set rest \<subseteq> set c'"
        by (rule "1.IH"(1) [of i rest])
          (use "1.prems" snoc True in \<open>auto simp: comp_loop_snoc intro: comp_inv_skip\<close>)
      with c snoc show ?thesis by auto
    next
      case False
      have "comp_inv d K seen' [] c' \<and> seen' = insert i seen \<union> set c' \<and>
          set (c @ [i]) \<union> set (rest @ adjacency d i) \<subseteq> set c'"
        by (rule "1.IH"(2) [of i rest])
          (use "1.prems" snoc False in \<open>simp_all add: comp_loop_snoc comp_inv_take\<close>)
      with snoc show ?thesis by auto
    qed
  qed
qed

definition component_of :: "plan_def \<Rightarrow> string \<Rightarrow> string set" where
  "component_of d u = (linked d \<union> (linked d)\<inverse>)\<^sup>* `` {u}"

lemma component_of_refl [simp]: "u \<in> component_of d u"
  by (simp add: component_of_def)

lemma component_of_closed: "x \<in> component_of d u \<Longrightarrow> set (adjacency d x) \<subseteq> component_of d u"
proof
  fix v assume "x \<in> component_of d u" "v \<in> set (adjacency d x)"
  then have "(u, x) \<in> (linked d \<union> (linked d)\<inverse>)\<^sup>*" "(x, v) \<in> linked d \<union> (linked d)\<inverse>"
    using adjacency_edges [of d] by (auto simp: component_of_def edges_of_def)
  then show "v \<in> component_of d u" unfolding component_of_def by (auto intro: rtrancl_into_rtrancl)
qed

lemma closed_component: "\<forall>x \<in> X. set (adjacency d x) \<subseteq> X \<Longrightarrow> u \<in> X \<Longrightarrow> component_of d u \<subseteq> X"
  using links.closed_reach [of X d] unfolding component_of_def adjacency_edges [symmetric] by blast

lemma component_of_sym: "v \<in> component_of d u \<Longrightarrow> u \<in> component_of d v"
proof -
  have "sym ((linked d \<union> (linked d)\<inverse>)\<^sup>*)" by (intro sym_rtrancl sym_Un_converse)
  then show "v \<in> component_of d u \<Longrightarrow> u \<in> component_of d v"
    by (auto simp: component_of_def dest: symD)
qed

lemma component_of_eq: "v \<in> component_of d u \<Longrightarrow> component_of d v = component_of d u"
  using component_of_sym [of v d u] by (auto simp: component_of_def intro: rtrancl_trans)

lemma component_ids: "v \<in> component_of d u \<Longrightarrow> u \<in> node_ids d \<Longrightarrow> v \<in> node_ids d"
proof -
  have "\<forall>x \<in> node_ids d. set (adjacency d x) \<subseteq> node_ids d" by (auto dest: adjacency_ids)
  then show "v \<in> component_of d u \<Longrightarrow> u \<in> node_ids d \<Longrightarrow> v \<in> node_ids d"
    using closed_component by blast
qed

lemma comp_loop_component:
  assumes "comp_loop d seen [u] [] = (seen', c)" and "seen \<inter> component_of d u = {}"
  shows "set c = component_of d u \<and> distinct c \<and> seen' = seen \<union> set c"
proof -
  have "comp_inv d (component_of d u) seen [u] []" using assms(2) by (simp add: comp_inv_def)
  from comp_loop_spec [OF assms(1) this] component_of_closed
  have post: "comp_inv d (component_of d u) seen' [] c" "seen' = seen \<union> set c" "u \<in> set c"
    by auto
  then have "component_of d u \<subseteq> set c" by (intro closed_component) (auto simp: comp_inv_def)
  with post show ?thesis by (auto simp: comp_inv_def)
qed

definition components_inv :: "plan_def \<Rightarrow> string set \<times> string list list \<Rightarrow> bool" where
  "components_inv d = (\<lambda>(seen, result).
     set (concat result) = seen \<and> distinct (concat result) \<and> seen \<subseteq> node_ids d \<and>
     (\<forall>c \<in> set result. sorted c \<and> (\<exists>u. set c = component_of d u)))"

lemma component_step_inv:
  assumes "components_inv d sr" and "n \<in> set (plan_nodes d)"
  shows "components_inv d (component_step d n sr) \<and>
    insert (node_id n) (fst sr) \<subseteq> fst (component_step d n sr)"
proof -
  obtain seen result where sr: "sr = (seen, result)" by (cases sr)
  show ?thesis
  proof (cases "node_id n \<in> seen")
    case True
    with assms sr show ?thesis by (auto simp: component_step_def)
  next
    case False
    obtain seen' c where run: "comp_loop d seen [node_id n] [] = (seen', c)"
      by (cases "comp_loop d seen [node_id n] []")
    have "x \<notin> component_of d (node_id n)" if x: "x \<in> seen" for x
    proof
      assume asm: "x \<in> component_of d (node_id n)"
      from x assms(1) obtain e u where "x \<in> set e" "e \<in> set result" "set e = component_of d u"
        by (auto simp: components_inv_def sr)
      with component_of_eq asm have "node_id n \<in> set e" by (metis component_of_refl)
      with \<open>e \<in> set result\<close> assms(1) False show False by (auto simp: components_inv_def sr)
    qed
    then have post: "set c = component_of d (node_id n)" "distinct c" "seen' = seen \<union> set c"
        "seen \<inter> set c = {}"
      using comp_loop_component [OF run] by auto
    have "set c \<subseteq> node_ids d"
      using post(1) assms(2) by (auto dest: component_ids simp: node_ids_def)
    with assms(1) post run False show ?thesis
      by (auto simp: component_step_def components_inv_def sr)
  qed
qed


lemma components_fold:
  assumes "components_inv d sr" and "set ns \<subseteq> set (plan_nodes d)"
  shows "components_inv d (fold (component_step d) ns sr) \<and>
    fst sr \<union> node_id ` set ns \<subseteq> fst (fold (component_step d) ns sr)"
  using assms
proof (induction ns arbitrary: sr)
  case (Cons n ns)
  note step = component_step_inv [OF Cons.prems(1), of n]
  with Cons.prems have inv: "components_inv d (component_step d n sr)" by simp
  have "set ns \<subseteq> set (plan_nodes d)" using Cons.prems by simp
  from Cons.IH [OF inv this] step Cons.prems show ?case by auto
qed simp

lemma components_correct:
  "distinct (concat (components d))" (is ?distinct)
  "set (concat (components d)) = node_ids d" (is ?covers)
  "c \<in> set (components d) \<Longrightarrow> sorted c \<and> c \<noteq> [] \<and> (\<forall>u \<in> set c. set c = component_of d u)"
proof -
  let ?sr = "fold (component_step d) (plan_nodes d) ({}, [])"
  obtain seen result where sr: "?sr = (seen, result)" by (cases ?sr)
  have "components_inv d ({}, [])" by (simp add: components_inv_def)
  from components_fold [OF this order.refl] sr
  have inv: "components_inv d (seen, result)" and all: "node_ids d \<subseteq> seen"
    by (simp_all add: node_ids_def)
  have comp: "components d = result" by (simp add: components_def sr)
  from inv all comp show ?distinct ?covers by (auto simp: components_inv_def)
  assume "c \<in> set (components d)"
  with inv comp obtain u where u: "sorted c" "set c = component_of d u"
    by (auto simp: components_inv_def)
  then have "u \<in> set c" by simp
  then have "c \<noteq> []" by auto
  with u show "sorted c \<and> c \<noteq> [] \<and> (\<forall>u \<in> set c. set c = component_of d u)"
    using component_of_eq by auto
qed

end
