(* ===== verification/Plan_Ledger.thy ===== *)
theory Plan_Ledger
  imports Plan_Definition "HOL-Library.Word"
begin

text \<open>
  The evidence ledger of task plans (\<^verbatim>\<open>internal/plan/ledger.go\<close> and
  \<^verbatim>\<open>internal/plan/work.go\<close>): events and their validation, reading a ledger file, the
  fold of a log into the acceptance state and the reported work, and the questions the
  planner asks of that state.

  The reader of one JSON line into an \<^verbatim>\<open>Event\<close> is the parameter \<open>unm\<close> of
  \<open>decode_ledger\<close> (reflection-driven \<^verbatim>\<open>json.Unmarshal\<close>). The state's Go maps are HOL
  maps; a revision is a 64-bit word, as in the source.

  Lemmas: what each map of the folded state holds in terms of the log (the last relevant
  event), that reported work never touches acceptance, and the invariant of reported
  work, lifted to whole logs through the locale \<open>kept_invariant\<close>.
\<close>

section \<open>Data\<close>

record stall =
  stall_reason :: string
  stall_resume_when :: string
  stall_waiting_actor :: "actor option"
  stall_waiting_need :: "need option"

record event =
  ev_kind :: string
  ev_node :: string
  ev_result :: string
  ev_by :: string
  ev_digest :: string
  ev_choice :: string
  ev_paths :: "string list"
  ev_reason :: string
  ev_text :: string
  ev_at :: string
  ev_actor :: "actor option"
  ev_assignee :: "actor option"
  ev_unassign :: bool
  ev_status :: string
  ev_stall :: "stall option"

record work_state =
  work_revision :: "64 word"
  work_assignee :: "actor option"
  work_status :: string
  work_status_since :: string
  work_text :: string
  work_stall :: "stall option"
  work_stall_raised_at :: string
  work_stall_raised_by :: "actor option"
  work_waiting_error :: "need_error option"
  work_waiting_satisfied :: "bool option"
  work_updated_at :: string
  work_updated_by :: "actor option"

text \<open>Go's zero values.\<close>

definition zero_event :: event where
  "zero_event = \<lparr>ev_kind = [], ev_node = [], ev_result = [], ev_by = [], ev_digest = [],
     ev_choice = [], ev_paths = [], ev_reason = [], ev_text = [], ev_at = [],
     ev_actor = None, ev_assignee = None, ev_unassign = False, ev_status = [],
     ev_stall = None\<rparr>"

definition zero_work :: work_state where
  "zero_work = \<lparr>work_revision = 0, work_assignee = None, work_status = [],
     work_status_since = [], work_text = [], work_stall = None, work_stall_raised_at = [],
     work_stall_raised_by = None, work_waiting_error = None, work_waiting_satisfied = None,
     work_updated_at = [], work_updated_by = None\<rparr>"

section \<open>Validation\<close>

datatype event_error =
    NodeRequired string
  | EventActor actor_error
  | ByMismatch
  | BadTimestamp
  | AttributionRequired
  | NothingUpdated
  | AssignAndUnassign
  | InvalidWorkStatus string
  | PausedNeedsText
  | StallRequired
  | StallIncomplete
  | StallNeed need_error
  | StallWithoutStatus
  | EvidenceResult
  | ChoiceRequired
  | PathsRequired string
  | NoteIncomplete
  | UnknownEvent string

definition lift_actor :: "actor_error + unit \<Rightarrow> event_error + unit" where
  "lift_actor r = (case r of Inl e \<Rightarrow> Inl (EventActor e) | Inr u \<Rightarrow> Inr u)"

definition valid_work_status :: "string \<Rightarrow> bool" where
  "valid_work_status status \<longleftrightarrow>
     status = ''unstarted'' \<or> status = ''in-progress'' \<or> status = ''paused'' \<or> status = ''stalled''"

definition validate_stall :: "stall \<Rightarrow> event_error + unit" where
  "validate_stall s =
     (if blank (stall_reason s) \<or> blank (stall_resume_when s) then Inl StallIncomplete
      else case (case stall_waiting_actor s of None \<Rightarrow> Inr ()
                 | Some a \<Rightarrow> lift_actor (validate_actor a)) of
             Inl e \<Rightarrow> Inl e
           | Inr _ \<Rightarrow>
               (case stall_waiting_need s of None \<Rightarrow> Inr ()
                | Some n \<Rightarrow>
                    (case parse_need (need_string n) of
                       Inl e \<Rightarrow> Inl (StallNeed e) | Inr _ \<Rightarrow> Inr ())))"

text \<open>The case \<^verbatim>\<open>NodeUpdated\<close> of \<^verbatim>\<open>Event.Validate\<close>.\<close>

definition validate_update :: "'re golib \<Rightarrow> event \<Rightarrow> event_error + unit" where
  "validate_update L e =
     (if \<not> parses_rfc3339 L (ev_at e) then Inl BadTimestamp
      else if ev_actor e = None \<or> ev_by e = [] then Inl AttributionRequired
      else if ev_assignee e = None \<and> \<not> ev_unassign e \<and> ev_status e = [] then Inl NothingUpdated
      else case (case ev_assignee e of None \<Rightarrow> Inr ()
                 | Some a \<Rightarrow> if ev_unassign e then Inl AssignAndUnassign
                             else lift_actor (validate_actor a)) of
             Inl err \<Rightarrow> Inl err
           | Inr _ \<Rightarrow>
               if ev_status e \<noteq> [] \<and> \<not> valid_work_status (ev_status e)
               then Inl (InvalidWorkStatus (ev_status e))
               else if ev_status e = ''paused'' \<and> blank (ev_text e) then Inl PausedNeedsText
               else if ev_status e = ''stalled''
               then (case ev_stall e of None \<Rightarrow> Inl StallRequired | Some s \<Rightarrow> validate_stall s)
               else if ev_stall e \<noteq> None then Inl StallWithoutStatus
               else Inr ())"

definition validate_event :: "'re golib \<Rightarrow> event \<Rightarrow> event_error + unit" where
  "validate_event L e =
     (if ev_kind e \<noteq> ''Note'' \<and> ev_node e = [] then Inl (NodeRequired (ev_kind e))
      else case (case ev_actor e of None \<Rightarrow> Inr ()
                 | Some a \<Rightarrow>
                     (case lift_actor (validate_actor a) of Inl err \<Rightarrow> Inl err
                      | Inr _ \<Rightarrow> if ev_by e \<noteq> actor_string a then Inl ByMismatch else Inr ())) of
             Inl err \<Rightarrow> Inl err
           | Inr _ \<Rightarrow>
               if ev_kind e = ''NodeUpdated'' then validate_update L e
               else if ev_kind e = ''Artifact'' then Inr ()
               else if ev_kind e = ''Evidence''
               then (if ev_result e \<noteq> ''pass'' \<and> ev_result e \<noteq> ''fail'' \<or> ev_by e = []
                     then Inl EvidenceResult else Inr ())
               else if ev_kind e = ''ForkRuled''
               then (if ev_choice e = [] then Inl ChoiceRequired else Inr ())
               else if ev_kind e = ''Granted'' \<or> ev_kind e = ''Revoked''
               then (if ev_paths e = [] \<or> ev_reason e = [] then Inl (PathsRequired (ev_kind e))
                     else Inr ())
               else if ev_kind e = ''Note''
               then (if ev_text e = [] \<or> ev_by e = [] then Inl NoteIncomplete else Inr ())
               else Inl (UnknownEvent (ev_kind e)))"

text \<open>\<open>k\<close> is the number of the line in the file, from 1.\<close>

datatype ledger_error = LedgerDecode nat | LedgerInvalid nat event_error

fun decode_lines ::
    "'re golib \<Rightarrow> (string \<Rightarrow> event option) \<Rightarrow> nat \<Rightarrow> string list \<Rightarrow> ledger_error + event list" where
  "decode_lines L unm k [] = Inr []"
| "decode_lines L unm k (line # lines) =
     (let raw = trim_space line in
      if raw = [] \<or> hd raw = CHR ''#'' then decode_lines L unm (Suc k) lines
      else case unm raw of
             None \<Rightarrow> Inl (LedgerDecode k)
           | Some e \<Rightarrow>
               (case validate_event L e of
                  Inl err \<Rightarrow> Inl (LedgerInvalid k err)
                | Inr _ \<Rightarrow>
                    (case decode_lines L unm (Suc k) lines of
                       Inl err \<Rightarrow> Inl err | Inr es \<Rightarrow> Inr (e # es))))"

definition decode_ledger ::
    "'re golib \<Rightarrow> (string \<Rightarrow> event option) \<Rightarrow> string \<Rightarrow> ledger_error + event list" where
  "decode_ledger L unm data = decode_lines L unm 1 (split_on (CHR 0x0A) data)"

section \<open>The folded state\<close>

record plan_state =
  st_artifacts :: "string \<Rightarrow> event option"
  st_evidence :: "string \<Rightarrow> event option"
  st_forks :: "string \<Rightarrow> event option"
  st_grants :: "string \<Rightarrow> string list option"
  st_work :: "string \<Rightarrow> work_state option"

definition empty_state :: plan_state where
  "empty_state = \<lparr>st_artifacts = Map.empty, st_evidence = Map.empty, st_forks = Map.empty,
     st_grants = Map.empty, st_work = Map.empty\<rparr>"

definition work_of :: "plan_state \<Rightarrow> string \<Rightarrow> work_state" where
  "work_of s node =
     (case st_work s node of None \<Rightarrow> zero_work\<lparr>work_status := ''unstarted''\<rparr> | Some w \<Rightarrow> w)"

definition set_status :: "work_state \<Rightarrow> event \<Rightarrow> work_state" where
  "set_status w e =
     (if ev_status e = [] then w
      else let w1 = (if work_status w \<noteq> ev_status e then w\<lparr>work_status_since := ev_at e\<rparr> else w);
               w2 = w1\<lparr>work_status := ev_status e, work_text := ev_text e\<rparr>
        in if ev_status e = ''stalled''
           then (if work_stall w2 = None
                 then w2\<lparr>work_stall_raised_at := ev_at e, work_stall_raised_by := ev_actor e,
                         work_stall := ev_stall e\<rparr>
                 else w2\<lparr>work_stall := ev_stall e\<rparr>)
           else w2\<lparr>work_stall := None, work_stall_raised_at := [], work_stall_raised_by := None\<rparr>)"

definition apply_work_update :: "work_state \<Rightarrow> event \<Rightarrow> work_state" where
  "apply_work_update w e =
     (let w1 = w\<lparr>work_revision := work_revision w + 1\<rparr>;
          w2 = (if ev_assignee e \<noteq> None then w1\<lparr>work_assignee := ev_assignee e\<rparr> else w1);
          w3 = (if ev_unassign e then w2\<lparr>work_assignee := None\<rparr> else w2)
      in (set_status w3 e)\<lparr>work_updated_at := ev_at e, work_updated_by := ev_actor e\<rparr>)"

definition grants_of :: "plan_state \<Rightarrow> string \<Rightarrow> string list" where
  "grants_of s node = (case st_grants s node of None \<Rightarrow> [] | Some ps \<Rightarrow> ps)"

text \<open>One iteration of the loop of \<^verbatim>\<open>Fold\<close>.\<close>

definition fold_event :: "plan_state \<Rightarrow> event \<Rightarrow> plan_state" where
  "fold_event s e =
     (if ev_kind e = ''NodeUpdated''
      then s\<lparr>st_work := (st_work s)(ev_node e \<mapsto> apply_work_update (work_of s (ev_node e)) e)\<rparr>
      else if ev_kind e = ''Artifact''
      then s\<lparr>st_artifacts := (st_artifacts s)(ev_node e \<mapsto> e)\<rparr>
      else if ev_kind e = ''Evidence''
      then (if ev_result e = ''pass''
            then s\<lparr>st_evidence := (st_evidence s)(ev_node e \<mapsto> e)\<rparr>
            else s\<lparr>st_evidence := (st_evidence s)(ev_node e := None)\<rparr>)
      else if ev_kind e = ''ForkRuled''
      then s\<lparr>st_forks := (st_forks s)(ev_node e \<mapsto> e)\<rparr>
      else if ev_kind e = ''Granted''
      then s\<lparr>st_grants := (st_grants s)(ev_node e \<mapsto> grants_of s (ev_node e) @ ev_paths e)\<rparr>
      else if ev_kind e = ''Revoked''
      then (let remaining = filter (\<lambda>p. p \<notin> set (ev_paths e)) (grants_of s (ev_node e))
            in if remaining = [] then s\<lparr>st_grants := (st_grants s)(ev_node e := None)\<rparr>
               else s\<lparr>st_grants := (st_grants s)(ev_node e \<mapsto> remaining)\<rparr>)
      else s)"

definition fold_events :: "event list \<Rightarrow> plan_state" where
  "fold_events es = foldl fold_event empty_state es"

section \<open>Questions\<close>

definition observed :: "plan_state \<Rightarrow> need \<Rightarrow> event option" where
  "observed s need =
     (if need_kind need = ''Artifact'' then st_artifacts s (need_node need)
      else if need_kind need = ''Evidence'' then st_evidence s (need_node need)
      else if need_kind need = ''Fork'' then st_forks s (need_node need)
      else if need_kind need = ''Grant''
      then (case st_grants s (need_node need) of None \<Rightarrow> None | Some _ \<Rightarrow> Some zero_event)
      else None)"

definition legacy_fingerprint :: "plan_def \<Rightarrow> need \<Rightarrow> string" where
  "legacy_fingerprint d need = (case plan_legacy d need of None \<Rightarrow> [] | Some v \<Rightarrow> v)"

definition satisfies :: "'re golib \<Rightarrow> plan_state \<Rightarrow> plan_def \<Rightarrow> need \<Rightarrow> bool" where
  "satisfies L s d need =
     (case observed s need of
        None \<Rightarrow> False
      | Some e \<Rightarrow>
          (case find_node d (need_node need) of
             None \<Rightarrow> False
           | Some n \<Rightarrow>
               if need_kind need = ''Evidence'' \<and>
                  (case node_oracle n of None \<Rightarrow> False | Some orc \<Rightarrow> oracle_once orc)
               then True
               else ev_digest e = [] \<or> ev_digest e = fingerprint L d need \<or>
                    ev_digest e = legacy_fingerprint d need))"

definition stale :: "'re golib \<Rightarrow> plan_state \<Rightarrow> plan_def \<Rightarrow> need \<Rightarrow> bool" where
  "stale L s d need \<longleftrightarrow> observed s need \<noteq> None \<and> \<not> satisfies L s d need"

definition missing_needs :: "'re golib \<Rightarrow> plan_state \<Rightarrow> plan_def \<Rightarrow> node \<Rightarrow> need list" where
  "missing_needs L s d n =
     (if stale L s d (self_need n) then [self_need n] else []) @
     filter (\<lambda>need. \<not> satisfies L s d need) (dependencies n)"

definition effective_grant :: "plan_state \<Rightarrow> node \<Rightarrow> string list" where
  "effective_grant s n = node_grant n @ grants_of s (node_id n)"

definition legacy_step :: "string list \<Rightarrow> event \<Rightarrow> string list" where
  "legacy_step ids e =
     (if ev_digest e \<noteq> [] \<and> \<not> has_prefix (ev_digest e) ''sha256:'' \<and> ev_node e \<notin> set ids
      then ids @ [ev_node e] else ids)"

definition legacy_digests :: "event list \<Rightarrow> string list" where
  "legacy_digests es = foldl legacy_step [] es"

section \<open>What the folded state holds\<close>

lemma fold_events_Nil [simp]: "fold_events [] = empty_state"
  by (simp add: fold_events_def)

lemma fold_events_snoc [simp]: "fold_events (es @ [e]) = fold_event (fold_events es) e"
  by (simp add: fold_events_def)

lemma last_filter_snoc [simp]:
  "filter P (xs @ [x]) = (if P x then filter P xs @ [x] else filter P xs)"
  by simp

lemma fold_event_evidence:
  "st_evidence (fold_event s e) =
     (if ev_kind e = ''Evidence''
      then (st_evidence s)(ev_node e := (if ev_result e = ''pass'' then Some e else None))
      else st_evidence s)"
  by (simp add: fold_event_def Let_def)

lemma fold_event_artifacts:
  "st_artifacts (fold_event s e) =
     (if ev_kind e = ''Artifact'' then (st_artifacts s)(ev_node e \<mapsto> e) else st_artifacts s)"
  by (simp add: fold_event_def Let_def)

lemma fold_event_forks:
  "st_forks (fold_event s e) =
     (if ev_kind e = ''ForkRuled'' then (st_forks s)(ev_node e \<mapsto> e) else st_forks s)"
  by (simp add: fold_event_def Let_def)

lemma fold_event_work:
  "st_work (fold_event s e) =
     (if ev_kind e = ''NodeUpdated''
      then (st_work s)(ev_node e \<mapsto> apply_work_update (work_of s (ev_node e)) e)
      else st_work s)"
  by (simp add: fold_event_def Let_def)

lemma grants_of_fold_event:
  "grants_of (fold_event s e) node =
     (if ev_node e \<noteq> node then grants_of s node
      else if ev_kind e = ''Granted'' then grants_of s node @ ev_paths e
      else if ev_kind e = ''Revoked'' then filter (\<lambda>p. p \<notin> set (ev_paths e)) (grants_of s node)
      else grants_of s node)"
  by (auto simp: fold_event_def grants_of_def Let_def split: option.splits)

lemmas fold_event_fields =
  fold_event_evidence fold_event_artifacts fold_event_forks fold_event_work

definition last_of :: "'a list \<Rightarrow> 'a option" where
  "last_of xs = (if xs = [] then None else Some (last xs))"

lemma last_of_snoc [simp]: "last_of (xs @ [x]) = Some x"
  by (simp add: last_of_def)

text \<open>Every observation is the last event of its kind for the node; a failure retracts.\<close>

lemma evidence_is_last:
  "st_evidence (fold_events es) i =
     (case last_of (filter (\<lambda>e. ev_kind e = ''Evidence'' \<and> ev_node e = i) es) of
        None \<Rightarrow> None | Some e \<Rightarrow> if ev_result e = ''pass'' then Some e else None)"
  by (induction es rule: rev_induct)
    (auto simp: fold_event_evidence empty_state_def last_of_def)

lemma artifact_is_last:
  "st_artifacts (fold_events es) i =
     last_of (filter (\<lambda>e. ev_kind e = ''Artifact'' \<and> ev_node e = i) es)"
  by (induction es rule: rev_induct)
    (auto simp: fold_event_artifacts empty_state_def last_of_def)

lemma fork_is_last:
  "st_forks (fold_events es) i =
     last_of (filter (\<lambda>e. ev_kind e = ''ForkRuled'' \<and> ev_node e = i) es)"
  by (induction es rule: rev_induct)
    (auto simp: fold_event_forks empty_state_def last_of_def)

text \<open>Work updates and notes never touch what acceptance reads.\<close>

definition coordination :: "event \<Rightarrow> bool" where
  "coordination e \<longleftrightarrow> ev_kind e = ''NodeUpdated'' \<or> ev_kind e = ''Note''"

definition same_acceptance :: "plan_state \<Rightarrow> plan_state \<Rightarrow> bool" where
  "same_acceptance s t \<longleftrightarrow>
     st_artifacts s = st_artifacts t \<and> st_evidence s = st_evidence t \<and>
     st_forks s = st_forks t \<and> st_grants s = st_grants t"

lemma same_acceptance_step:
  "same_acceptance s t \<Longrightarrow> same_acceptance (fold_event s e) (fold_event t e)"
  by (auto simp: same_acceptance_def fold_event_def grants_of_def Let_def)

lemma coordination_step:
  "coordination e \<Longrightarrow> same_acceptance s t \<Longrightarrow> same_acceptance (fold_event s e) t"
  by (auto simp: same_acceptance_def coordination_def fold_event_def)

lemma coordination_projection:
  "same_acceptance (fold_events es) (fold_events (filter (\<lambda>e. \<not> coordination e) es))"
proof (induction es rule: rev_induct)
  case Nil
  then show ?case by (simp add: same_acceptance_def)
next
  case (snoc e es)
  then show ?case by (auto intro: same_acceptance_step coordination_step)
qed

lemma same_acceptance_observed: "same_acceptance s t \<Longrightarrow> observed s n = observed t n"
  by (simp add: same_acceptance_def observed_def)

lemma same_acceptance_satisfies:
  "same_acceptance s t \<Longrightarrow> satisfies L s d n = satisfies L t d n"
  by (simp add: satisfies_def same_acceptance_observed)

lemma same_acceptance_stale: "same_acceptance s t \<Longrightarrow> stale L s d n = stale L t d n"
  by (simp add: stale_def same_acceptance_observed same_acceptance_satisfies)

lemma same_acceptance_missing:
  "same_acceptance s t \<Longrightarrow> missing_needs L s d n = missing_needs L t d n"
  by (simp add: missing_needs_def same_acceptance_stale same_acceptance_satisfies)

lemma same_acceptance_grant:
  "same_acceptance s t \<Longrightarrow> effective_grant s n = effective_grant t n"
  by (simp add: effective_grant_def grants_of_def same_acceptance_def)

section \<open>Reported work\<close>

text \<open>
  The invariant of one node's reported work: its status is one of the four, exactly a
  stalled node carries a stall, and the interval of a stall is recorded with it.
\<close>

definition work_ok :: "work_state \<Rightarrow> bool" where
  "work_ok w \<longleftrightarrow>
     valid_work_status (work_status w) \<and>
     (work_stall w \<noteq> None \<longleftrightarrow> work_status w = ''stalled'') \<and>
     (work_stall w = None \<longrightarrow> work_stall_raised_at w = [] \<and> work_stall_raised_by w = None) \<and>
     (work_stall w \<noteq> None \<longrightarrow> work_stall_raised_by w \<noteq> None) \<and>
     (\<forall>st. work_stall w = Some st \<longrightarrow> validate_stall st = Inr ())"

definition works_ok :: "plan_state \<Rightarrow> bool" where
  "works_ok s \<longleftrightarrow> (\<forall>i. work_ok (work_of s i))"

lemma lift_actor_Inr [simp]: "lift_actor r = Inr u \<longleftrightarrow> r = Inr u"
  by (cases r) (auto simp: lift_actor_def)

lemma validate_event_update:
  assumes "validate_event L e = Inr ()" and "ev_kind e = ''NodeUpdated''"
  shows "ev_actor e \<noteq> None" and "ev_status e = [] \<or> valid_work_status (ev_status e)"
    and "ev_status e = ''stalled'' \<Longrightarrow> \<exists>st. ev_stall e = Some st \<and> validate_stall st = Inr ()"
    and "ev_status e \<noteq> ''stalled'' \<Longrightarrow> ev_stall e = None"
proof -
  have "validate_update L e = Inr ()"
    using assms by (auto simp: validate_event_def split: if_splits sum.splits)
  then show "ev_actor e \<noteq> None" and "ev_status e = [] \<or> valid_work_status (ev_status e)"
    and "ev_status e = ''stalled'' \<Longrightarrow> \<exists>st. ev_stall e = Some st \<and> validate_stall st = Inr ()"
    and "ev_status e \<noteq> ''stalled'' \<Longrightarrow> ev_stall e = None"
    by (auto simp: validate_update_def split: if_splits sum.splits option.splits)
qed

lemma set_status_ok:
  assumes "work_ok w" and "ev_actor e \<noteq> None"
    and "ev_status e = [] \<or> valid_work_status (ev_status e)"
    and "ev_status e = ''stalled'' \<Longrightarrow> \<exists>st. ev_stall e = Some st \<and> validate_stall st = Inr ()"
  shows "work_ok (set_status w e)"
proof (cases "ev_status e = ''stalled''")
  case True
  with assms(4) obtain st where "ev_stall e = Some st" "validate_stall st = Inr ()" by blast
  with True assms(1,2) show ?thesis
    by (auto simp: set_status_def work_ok_def Let_def valid_work_status_def)
next
  case False
  with assms(1,3) show ?thesis
    by (auto simp: set_status_def work_ok_def Let_def)
qed

lemma apply_work_update_ok:
  assumes "work_ok w" and "validate_event L e = Inr ()" and "ev_kind e = ''NodeUpdated''"
  shows "work_ok (apply_work_update w e)"
proof -
  let ?w = "\<lambda>r a. w\<lparr>work_revision := r, work_assignee := a\<rparr>"
  have "work_ok (set_status (?w r a) e)" for r a
    using assms(1) validate_event_update [OF assms(2,3)]
    by (intro set_status_ok) (auto simp: work_ok_def)
  moreover have "work_ok (set_status (w\<lparr>work_revision := r\<rparr>) e)" for r
    using assms(1) validate_event_update [OF assms(2,3)]
    by (intro set_status_ok) (auto simp: work_ok_def)
  moreover have "work_ok (v\<lparr>work_updated_at := t, work_updated_by := b\<rparr>) = work_ok v" for v t b
    by (simp add: work_ok_def)
  ultimately show ?thesis by (simp add: apply_work_update_def Let_def)
qed

lemma work_of_fold_event:
  "work_of (fold_event s e) i =
     (if ev_kind e = ''NodeUpdated'' \<and> ev_node e = i
      then apply_work_update (work_of s i) e else work_of s i)"
  by (auto simp: work_of_def fold_event_work)

interpretation work_log: kept_invariant fold_event "\<lambda>e. validate_event L e = Inr ()" works_ok
  for L
  by unfold_locales (auto simp: works_ok_def work_of_fold_event intro: apply_work_update_ok)

lemma works_ok_empty: "works_ok empty_state"
  by (simp add: works_ok_def work_of_def empty_state_def work_ok_def zero_work_def
      valid_work_status_def)

lemma work_log_ok:
  "\<forall>e \<in> set es. validate_event L e = Inr () \<Longrightarrow> work_ok (work_of (fold_events es) i)"
  using work_log.log_keeps [OF works_ok_empty, of es L] by (simp add: fold_events_def works_ok_def)

lemma work_revision_set_status [simp]: "work_revision (set_status w e) = work_revision w"
  by (simp add: set_status_def Let_def)

lemma work_revision_counts:
  "work_revision (work_of (fold_events es) i) =
     of_nat (length (filter (\<lambda>e. ev_kind e = ''NodeUpdated'' \<and> ev_node e = i) es))"
proof (induction es rule: rev_induct)
  case Nil
  then show ?case by (simp add: work_of_def empty_state_def zero_work_def)
next
  case (snoc e es)
  then show ?case by (simp add: work_of_fold_event apply_work_update_def Let_def)
qed

lemma decode_lines_valid:
  "decode_lines L unm k lines = Inr es \<Longrightarrow> \<forall>e \<in> set es. validate_event L e = Inr ()"
proof (induction lines arbitrary: k es)
  case (Cons line lines)
  from Cons.prems show ?case
    by (auto simp: Let_def split: if_splits option.splits sum.splits dest!: Cons.IH)
qed simp

lemma decode_ledger_valid:
  "decode_ledger L unm data = Inr es \<Longrightarrow> \<forall>e \<in> set es. validate_event L e = Inr ()"
  unfolding decode_ledger_def by (rule decode_lines_valid)

end
