(* ===== verification/Plan_Check.thy ===== *)
theory Plan_Check
  imports Plan_Graph Plan_Ledger "HOL-Library.Product_Lexorder"
begin

text \<open>
  Diagnosis of a task plan (\<^verbatim>\<open>Check\<close> and \<^verbatim>\<open>overlaps\<close> of \<^verbatim>\<open>internal/plan/check.go\<close>): every
  diagnostic the code can emit, in the order it emits them, over the graph algorithms
  of \<^verbatim>\<open>Plan_Graph\<close> and the folded ledger of \<^verbatim>\<open>Plan_Ledger\<close>.

  A message that quotes an error with \<^verbatim>\<open>%q\<close> and \<^verbatim>\<open>%v\<close> stays a value, \<open>Owner_Error\<close>;
  every other message is the text.

  Lemmas: two path grants overlap exactly when the segments of one are a prefix of the
  segments of the other, and \<open>Check\<close> is silent exactly on the plans \<open>plan_sound\<close>
  describes.
\<close>

section \<open>Diagnostics\<close>

datatype diag_message = Text string | Owner_Error string actor_error

record diagnostic =
  diag_code :: string
  diag_node :: string
  diag_related :: string
  diag_message :: diag_message

definition diag :: "string \<Rightarrow> string \<Rightarrow> string \<Rightarrow> diag_message \<Rightarrow> diagnostic" where
  "diag c n r m = \<lparr>diag_code = c, diag_node = n, diag_related = r, diag_message = m\<rparr>"

definition checked_owner :: "node \<Rightarrow> string" where
  "checked_owner n =
     (if node_kind n = ''Selector'' then node_owner n
      else case node_oracle n of
             None \<Rightarrow> []
           | Some orc \<Rightarrow> if oracle_kind orc = ''Adjudicated'' then oracle_owner orc else [])"

definition owner_diags :: "'re golib \<Rightarrow> plan_def \<Rightarrow> node \<Rightarrow> diagnostic list" where
  "owner_diags L d n =
     (if plan_actors d \<noteq> [] \<and> checked_owner n \<noteq> []
      then case resolve_actor L (plan_actors d) (checked_owner n) of
             Inl e \<Rightarrow> [diag ''InvalidActorOwner'' (node_id n) []
                         (Owner_Error (checked_owner n) e)]
           | Inr _ \<Rightarrow> []
      else [])"

definition selector_diags :: "node \<Rightarrow> diagnostic list" where
  "selector_diags n =
     (if node_kind n = ''Selector'' \<and>
         (length (node_options n) < 2 \<or> length (unique (node_options n)) \<noteq> length (node_options n))
      then [diag ''DegenerateSelector'' (node_id n) []
              (Text ''Provide at least two distinct options.'')]
      else [])"

definition producer_fits :: "need \<Rightarrow> node \<Rightarrow> bool" where
  "producer_fits need producer \<longleftrightarrow>
     need_kind need = ''Artifact'' \<and> node_kind producer = ''Action'' \<or>
     need_kind need = ''Evidence'' \<and> node_kind producer \<noteq> ''Selector'' \<or>
     need_kind need = ''Fork'' \<and> node_kind producer = ''Selector'' \<or>
     need_kind need = ''Grant'' \<and> node_kind producer = ''Action''"

definition need_diags :: "plan_def \<Rightarrow> node \<Rightarrow> need \<Rightarrow> diagnostic list" where
  "need_diags d n need =
     (case find_node d (need_node need) of
        None \<Rightarrow> [diag ''UnregisteredNeed'' (node_id n) (need_node need)
                   (Text (need_string need @ '' has no producer in nodes.''))]
      | Some producer \<Rightarrow>
          if \<not> producer_fits need producer
          then [diag ''WrongProducerKind'' (node_id n) (need_node need)
                  (Text (need_string need @ '' cannot reference '' @ node_kind producer))]
          else [])"

definition probe_diags :: "plan_def \<Rightarrow> node \<Rightarrow> diagnostic list" where
  "probe_diags d n =
     (case node_probe n of None \<Rightarrow> []
      | Some p \<Rightarrow>
          (let bad = [diag ''InvalidProbe'' (node_id n) (node_id p)
                        (Text ''probe must reference a registered Guard.'')]
           in case find_node d (node_id p) of
                None \<Rightarrow> bad
              | Some producer \<Rightarrow> if node_kind producer \<noteq> ''Guard'' then bad else []))"

definition node_diags ::
    "'re golib \<Rightarrow> plan_def \<Rightarrow> string set \<Rightarrow> node \<Rightarrow> diagnostic list" where
  "node_diags L d seen n =
     (if node_id n \<in> seen
      then [diag ''DuplicateNodeId'' (node_id n) [] (Text ''Use one unique id per node.'')]
      else []) @
     owner_diags L d n @ selector_diags n @
     concat (map (need_diags d n) (dependencies n)) @ probe_diags d n"

fun nodes_diags :: "'re golib \<Rightarrow> plan_def \<Rightarrow> string set \<Rightarrow> node list \<Rightarrow> diagnostic list" where
  "nodes_diags L d seen [] = []"
| "nodes_diags L d seen (n # ns) =
     node_diags L d seen n @ nodes_diags L d (insert (node_id n) seen) ns"

section \<open>Grants\<close>

definition normalize_path :: "string \<Rightarrow> string" where
  "normalize_path path =
     (let without_stars = trim_right CHR ''*'' path;
          p = (if has_suffix without_stars ''/'' then without_stars else path)
      in trim_right CHR ''/'' p)"

definition overlaps :: "string \<Rightarrow> string \<Rightarrow> bool" where
  "overlaps a b =
     (let a' = normalize_path a; b' = normalize_path b in
      a' = b' \<or> has_prefix a' (b' @ ''/'') \<or> has_prefix b' (a' @ ''/''))"

text \<open>The two nested loops with their \<^verbatim>\<open>break\<close>s; the empty string is "none found".\<close>

fun first_overlap :: "string list \<Rightarrow> string list \<Rightarrow> string" where
  "first_overlap [] bs = []"
| "first_overlap (a # as) bs =
     (let found = (if list_ex (overlaps a) bs then a else [])
      in if found \<noteq> [] then found else first_overlap as bs)"

definition pair_diags :: "plan_def \<Rightarrow> plan_state \<Rightarrow> node \<Rightarrow> node \<Rightarrow> diagnostic list" where
  "pair_diags d s l r =
     (if node_kind r \<noteq> ''Action'' \<or> reaches d (node_id l) (node_id r) \<or>
         reaches d (node_id r) (node_id l)
      then []
      else let shared = first_overlap (effective_grant s l) (effective_grant s r)
        in if shared \<noteq> []
           then [diag ''FootprintCollision'' (node_id l) (node_id r)
                   (Text (''Unordered Actions share '' @ shared @
                          ''; narrow grants or declare the real dependency.''))]
           else [])"

fun collision_diags :: "plan_def \<Rightarrow> plan_state \<Rightarrow> node list \<Rightarrow> diagnostic list" where
  "collision_diags d s [] = []"
| "collision_diags d s (l # rest) =
     (if node_kind l \<noteq> ''Action'' then [] else concat (map (pair_diags d s l) rest)) @
     collision_diags d s rest"

section \<open>Check\<close>

definition cycle_diags :: "plan_def \<Rightarrow> diagnostic list" where
  "cycle_diags d =
     (let cyclic = snd (order_of d) in
      if cyclic \<noteq> []
      then [diag ''Cycle'' (hd cyclic) []
              (Text (''Dependency cycle: '' @ join '' -> '' cyclic))]
      else [])"

text \<open>The larger component first, ties by the least id; \<open>sort_key\<close> is stable.\<close>

definition component_key :: "string list \<Rightarrow> int \<times> string" where
  "component_key c = (- int (length c), hd c)"

definition component_diags :: "plan_def \<Rightarrow> diagnostic list" where
  "component_diags d =
     (let cs = components d in
      if 1 < length cs
      then map (\<lambda>c. diag ''DisconnectedComponent'' (hd c) []
                  (Text (''Disconnected nodes: '' @ join '', '' c @
                         ''; connect their outcome or use a separate plan.'')))
             (tl (sort_key component_key cs))
      else [])"

definition check_plan :: "'re golib \<Rightarrow> plan_def \<Rightarrow> plan_state \<Rightarrow> diagnostic list" where
  "check_plan L d s =
     nodes_diags L d {} (plan_nodes d) @ cycle_diags d @
     collision_diags d s (plan_nodes d) @ component_diags d"

section \<open>Overlap is a prefix of path segments\<close>

lemma overlaps_sym: "overlaps a b = overlaps b a"
  by (auto simp: overlaps_def Let_def)

lemma split_on_append:
  "split_on c (a @ c # b) = split_on c a @ split_on c b"
proof (induction a)
  case (Cons x xs)
  then show ?case by (cases "split_on c xs") (auto simp: Cons)
qed simp

lemma segments_prefix:
  "a = b \<or> has_prefix a (b @ [c]) \<longleftrightarrow> has_prefix (split_on c a) (split_on c b)"
proof
  assume "a = b \<or> has_prefix a (b @ [c])"
  then show "has_prefix (split_on c a) (split_on c b)"
  proof
    assume "has_prefix a (b @ [c])"
    then obtain t where "a = b @ c # t" by (auto simp: has_prefix_iff)
    then show ?thesis by (simp add: split_on_append)
  qed (simp add: has_prefix_def)
next
  assume "has_prefix (split_on c a) (split_on c b)"
  then obtain ls where ls: "split_on c a = split_on c b @ ls" by (auto simp: has_prefix_iff)
  have a: "a = join [c] (split_on c b @ ls)" using ls join_split_on [of c a] by simp
  show "a = b \<or> has_prefix a (b @ [c])"
  proof (cases ls)
    case Nil
    with a show ?thesis by (simp add: join_split_on)
  next
    case (Cons l ls')
    have "join [c] (xs @ l # ls') = join [c] xs @ c # join [c] (l # ls')" if "xs \<noteq> []" for xs
      using that by (induction "[c]" xs rule: join.induct) auto
    from this [of "split_on c b"] a Cons have "a = (b @ [c]) @ join [c] (l # ls')"
      by (simp add: join_split_on)
    then show ?thesis by (metis has_prefix_append)
  qed
qed

definition path_segments :: "string \<Rightarrow> string list" where
  "path_segments p = split_on CHR ''/'' (normalize_path p)"

lemma overlaps_segments:
  "overlaps a b \<longleftrightarrow>
     has_prefix (path_segments a) (path_segments b) \<or> has_prefix (path_segments b) (path_segments a)"
  unfolding path_segments_def segments_prefix [symmetric]
  by (auto simp: overlaps_def Let_def)

lemma first_overlap_Nil:
  "first_overlap as bs = [] \<longleftrightarrow> (\<forall>a \<in> set as. a \<noteq> [] \<longrightarrow> (\<forall>b \<in> set bs. \<not> overlaps a b))"
  by (induction as) (auto simp: Let_def list_ex_iff)

section \<open>A silent check\<close>

definition owner_sound :: "'re golib \<Rightarrow> plan_def \<Rightarrow> node \<Rightarrow> bool" where
  "owner_sound L d n \<longleftrightarrow>
     plan_actors d = [] \<or> checked_owner n = [] \<or>
     (\<exists>a. resolve_actor L (plan_actors d) (checked_owner n) = Inr a)"

definition node_sound :: "'re golib \<Rightarrow> plan_def \<Rightarrow> node \<Rightarrow> bool" where
  "node_sound L d n \<longleftrightarrow>
     owner_sound L d n \<and>
     (node_kind n = ''Selector'' \<longrightarrow> 2 \<le> length (node_options n) \<and> distinct (node_options n)) \<and>
     (\<forall>need \<in> set (dependencies n).
        \<exists>p. find_node d (need_node need) = Some p \<and> producer_fits need p) \<and>
     (\<forall>p. node_probe n = Some p \<longrightarrow> (\<exists>q. find_node d (node_id p) = Some q \<and> node_kind q = ''Guard''))"

text \<open>Two Actions that no dependency orders share no granted path.\<close>

definition separate :: "plan_def \<Rightarrow> plan_state \<Rightarrow> node \<Rightarrow> node \<Rightarrow> bool" where
  "separate d s l r \<longleftrightarrow>
     node_kind l = ''Action'' \<and> node_kind r = ''Action'' \<and>
     (node_id l, node_id r) \<notin> (edges_of (dep_succs d))\<^sup>+ \<and>
     (node_id r, node_id l) \<notin> (edges_of (dep_succs d))\<^sup>+ \<longrightarrow>
     (\<forall>a \<in> set (effective_grant s l). a \<noteq> [] \<longrightarrow>
        (\<forall>b \<in> set (effective_grant s r). \<not> overlaps a b))"

definition plan_sound :: "'re golib \<Rightarrow> plan_def \<Rightarrow> plan_state \<Rightarrow> bool" where
  "plan_sound L d s \<longleftrightarrow>
     distinct (map node_id (plan_nodes d)) \<and>
     (\<forall>n \<in> set (plan_nodes d). node_sound L d n) \<and>
     acyclic (edges_of (dep_succs d)) \<and>
     sorted_wrt (separate d s) (plan_nodes d) \<and>
     (\<forall>u \<in> node_ids d. node_ids d \<subseteq> component_of d u)"

lemma owner_diags_Nil: "owner_diags L d n = [] \<longleftrightarrow> owner_sound L d n"
  by (cases "resolve_actor L (plan_actors d) (checked_owner n)")
    (auto simp: owner_diags_def owner_sound_def)

lemma need_diags_Nil:
  "need_diags d n need = [] \<longleftrightarrow> (\<exists>p. find_node d (need_node need) = Some p \<and> producer_fits need p)"
  by (auto simp: need_diags_def split: option.splits)

lemma probe_diags_Nil:
  "probe_diags d n = [] \<longleftrightarrow>
     (\<forall>p. node_probe n = Some p \<longrightarrow> (\<exists>q. find_node d (node_id p) = Some q \<and> node_kind q = ''Guard''))"
  by (auto simp: probe_diags_def Let_def split: option.splits)

lemma node_diags_Nil:
  "node_diags L d seen n = [] \<longleftrightarrow> node_id n \<notin> seen \<and> node_sound L d n"
  unfolding node_diags_def node_sound_def
  by (auto simp: owner_diags_Nil need_diags_Nil probe_diags_Nil selector_diags_def length_unique
      not_less)

lemma nodes_diags_Nil:
  "nodes_diags L d seen ns = [] \<longleftrightarrow>
     distinct (map node_id ns) \<and> seen \<inter> node_id ` set ns = {} \<and> (\<forall>n \<in> set ns. node_sound L d n)"
  by (induction ns arbitrary: seen) (auto simp: node_diags_Nil)

lemma collision_diags_Nil: "collision_diags d s ns = [] \<longleftrightarrow> sorted_wrt (separate d s) ns"
proof (induction ns)
  case (Cons l rest)
  have "pair_diags d s l r = [] \<longleftrightarrow> separate d s l r" if "node_kind l = ''Action''" for r
    using that by (auto simp: pair_diags_def separate_def Let_def reaches_iff first_overlap_Nil)
  moreover have "separate d s l r" if "node_kind l \<noteq> ''Action''" for r
    using that by (simp add: separate_def)
  ultimately show ?case using Cons by auto
qed simp

lemma cycle_diags_Nil: "cycle_diags d = [] \<longleftrightarrow> acyclic (edges_of (dep_succs d))"
  by (auto simp: cycle_diags_def Let_def order_of_decides [symmetric])

lemma component_diags_Nil:
  "component_diags d = [] \<longleftrightarrow> (\<forall>u \<in> node_ids d. node_ids d \<subseteq> component_of d u)"
proof -
  note cc = components_correct [where d = d]
  have "component_diags d = [] \<longleftrightarrow> length (components d) \<le> 1"
    by (cases "sort_key component_key (components d)"; cases "tl (sort_key component_key (components d))")
      (auto simp: component_diags_def Let_def dest: arg_cong [where f = length])
  also have "\<dots> \<longleftrightarrow> (\<forall>u \<in> node_ids d. node_ids d \<subseteq> component_of d u)"
  proof
    assume le: "length (components d) \<le> 1"
    show "\<forall>u \<in> node_ids d. node_ids d \<subseteq> component_of d u"
    proof
      fix u assume u: "u \<in> node_ids d"
      with cc(2) le obtain c where c: "components d = [c]"
        by (cases "components d") auto
      with cc(2) u have "u \<in> set c" "set c = node_ids d" by auto
      with cc(3) [of c] c show "node_ids d \<subseteq> component_of d u" by auto
    qed
  next
    assume all: "\<forall>u \<in> node_ids d. node_ids d \<subseteq> component_of d u"
    show "length (components d) \<le> 1"
    proof (rule ccontr)
      assume "\<not> length (components d) \<le> 1"
      then obtain a b cs where abc: "components d = a # b # cs"
        by (cases "components d"; cases "tl (components d)") auto
      with cc(3) [of a] cc(3) [of b] have ne: "a \<noteq> []" "b \<noteq> []"
        and a: "\<forall>u \<in> set a. set a = component_of d u" by auto
      from cc(2) abc have ids: "set a \<subseteq> node_ids d" "set b \<subseteq> node_ids d" by auto
      have "hd a \<in> set a" "hd b \<in> set b" using ne by auto
      with ids all a have "hd b \<in> set a" by blast
      with \<open>hd b \<in> set b\<close> cc(1) abc show False by auto
    qed
  qed
  finally show ?thesis .
qed

lemma check_plan_Nil: "check_plan L d s = [] \<longleftrightarrow> plan_sound L d s"
  by (simp add: check_plan_def plan_sound_def nodes_diags_Nil cycle_diags_Nil collision_diags_Nil
      component_diags_Nil)

end
