(* ===== verification/Plan_Report.thy ===== *)
theory Plan_Report
  imports Plan_Check
begin

text \<open>
  The report of a task plan (\<^verbatim>\<open>internal/plan/report.go\<close>): \<^verbatim>\<open>Tick\<close>, which classifies every
  node as complete, ready or blocked, and \<^verbatim>\<open>WriteJSON\<close>, which breaks compact JSON into
  lines. \<^verbatim>\<open>Report.Plan\<close> and \<^verbatim>\<open>Report.Ledger\<close> are filled in by the caller and start empty.

  \<^verbatim>\<open>WriteJSON\<close> runs over the bytes that \<^verbatim>\<open>json.Encoder\<close> wrote; popping its empty stack is
  a Go panic, the value \<open>None\<close>. The type \<open>jvalue\<close> and \<open>render\<close> describe the compact text
  of the encoder, and \<open>layout\<close> the text the comment above \<^verbatim>\<open>WriteJSON\<close> promises.

  Lemmas: the classification of nodes in closed form, its independence of reported work,
  that an acyclic sound plan never deadlocks, and that \<^verbatim>\<open>WriteJSON\<close> computes \<open>layout\<close>.
\<close>

section \<open>Tick\<close>

record node_view =
  nv_kind :: string
  nv_id :: string
  nv_owner :: string
  nv_assignable :: bool
  nv_work :: work_state
  nv_outcome :: string
  nv_needs :: "string list"
  nv_grant :: "string list"
  nv_effective_grant :: "string list"
  nv_observes :: "string list"
  nv_oracle :: "oracle_decl option"
  nv_question :: string
  nv_options :: "string list"
  nv_probe :: string
  nv_missing :: "string list"
  nv_stale :: "string list"

record plan_counts =
  count_complete :: nat
  count_ready :: nat
  count_blocked :: nat
  count_stale :: nat

record plan_report =
  rep_valid :: bool
  rep_meta :: meta
  rep_actors :: actors
  rep_work :: "(string \<times> work_state) list"
  rep_counts :: plan_counts
  rep_ready :: "node_view list"
  rep_blocked :: "node_view list"
  rep_critical_path :: "string list"
  rep_complete :: "node_view list"
  rep_events :: "event list"
  rep_diagnostics :: "diagnostic list"
  rep_legacy :: "string list"

text \<open>The work of a node with the answer about the need its stall waits on.\<close>

definition reported_work :: "'re golib \<Rightarrow> plan_def \<Rightarrow> plan_state \<Rightarrow> string \<Rightarrow> work_state" where
  "reported_work L d s i =
     (let w = work_of s i in
      case work_stall w of None \<Rightarrow> w
      | Some st \<Rightarrow>
          (case stall_waiting_need st of None \<Rightarrow> w
           | Some need \<Rightarrow>
               (case validate_need d need of
                  Inl e \<Rightarrow> w\<lparr>work_waiting_error := Some e\<rparr>
                | Inr _ \<Rightarrow> w\<lparr>work_waiting_satisfied := Some (satisfies L s d need)\<rparr>)))"

definition node_view_of :: "'re golib \<Rightarrow> plan_def \<Rightarrow> plan_state \<Rightarrow> node \<Rightarrow> node_view" where
  "node_view_of L d s n =
     \<lparr>nv_kind = node_kind n, nv_id = node_id n, nv_owner = node_owner n,
      nv_assignable = is_assignable n, nv_work = reported_work L d s (node_id n),
      nv_outcome = node_outcome n, nv_needs = map need_string (dependencies n),
      nv_grant = node_grant n,
      nv_effective_grant =
        (if node_kind n = ''Action'' \<and> effective_grant s n \<noteq> node_grant n
         then effective_grant s n else []),
      nv_observes = node_observes n, nv_oracle = node_oracle n, nv_question = node_question n,
      nv_options = node_options n,
      nv_probe = (case node_probe n of None \<Rightarrow> [] | Some p \<Rightarrow> node_id p),
      nv_missing = [], nv_stale = []\<rparr>"

definition blocked_view ::
    "'re golib \<Rightarrow> plan_def \<Rightarrow> plan_state \<Rightarrow> node \<Rightarrow> node_view" where
  "blocked_view L d s n =
     (let missing = missing_needs L s d n in
      (node_view_of L d s n)\<lparr>nv_missing := map need_string missing,
        nv_stale := map need_string (filter (stale L s d) missing)\<rparr>)"

text \<open>One iteration of the loop over the nodes.\<close>

definition tick_node ::
    "'re golib \<Rightarrow> plan_def \<Rightarrow> plan_state \<Rightarrow> bool \<Rightarrow> plan_report \<Rightarrow> node \<Rightarrow> plan_report" where
  "tick_node L d s full r n =
     (let v = node_view_of L d s n;
          r1 = (if work_updated_at (nv_work v) \<noteq> []
                then r\<lparr>rep_work := rep_work r @ [(node_id n, nv_work v)]\<rparr> else r)
      in if satisfies L s d (self_need n)
         then (let c = rep_counts r1;
                   r2 = r1\<lparr>rep_counts := c\<lparr>count_complete := count_complete c + 1\<rparr>\<rparr>
               in if full then r2\<lparr>rep_complete := rep_complete r2 @ [v]\<rparr> else r2)
         else let b = blocked_view L d s n;
                  c = rep_counts r1;
                  r2 = (if nv_stale b \<noteq> []
                        then r1\<lparr>rep_counts := c\<lparr>count_stale := count_stale c + 1\<rparr>\<rparr> else r1)
              in if nv_missing b \<noteq> [] then r2\<lparr>rep_blocked := rep_blocked r2 @ [b]\<rparr>
                 else r2\<lparr>rep_ready := rep_ready r2 @ [b]\<rparr>)"

definition tick :: "'re golib \<Rightarrow> plan_def \<Rightarrow> event list \<Rightarrow> bool \<Rightarrow> plan_report" where
  "tick L d events full =
     (let s = fold_events events;
          r0 = \<lparr>rep_valid = False, rep_meta = plan_meta d, rep_actors = plan_actors d,
                rep_work = [],
                rep_counts = \<lparr>count_complete = 0, count_ready = 0, count_blocked = 0,
                              count_stale = 0\<rparr>,
                rep_ready = [], rep_blocked = [], rep_critical_path = critical_path d,
                rep_complete = [], rep_events = [], rep_diagnostics = check_plan L d s,
                rep_legacy = legacy_digests events\<rparr>;
          r = foldl (tick_node L d s full) r0 (plan_nodes d);
          c = rep_counts r;
          r' = r\<lparr>rep_valid := (rep_diagnostics r = []),
                 rep_counts := c\<lparr>count_ready := length (rep_ready r),
                                 count_blocked := length (rep_blocked r)\<rparr>\<rparr>
      in if full then r'\<lparr>rep_events := events\<rparr> else r')"

subsection \<open>The classification in closed form\<close>

definition is_complete :: "'re golib \<Rightarrow> plan_def \<Rightarrow> plan_state \<Rightarrow> node \<Rightarrow> bool" where
  "is_complete L d s n \<longleftrightarrow> satisfies L s d (self_need n)"

definition is_ready :: "'re golib \<Rightarrow> plan_def \<Rightarrow> plan_state \<Rightarrow> node \<Rightarrow> bool" where
  "is_ready L d s n \<longleftrightarrow> \<not> is_complete L d s n \<and> missing_needs L s d n = []"

definition is_blocked :: "'re golib \<Rightarrow> plan_def \<Rightarrow> plan_state \<Rightarrow> node \<Rightarrow> bool" where
  "is_blocked L d s n \<longleftrightarrow> \<not> is_complete L d s n \<and> missing_needs L s d n \<noteq> []"

lemma blocked_view_missing [simp]: "nv_missing (blocked_view L d s n) = [] \<longleftrightarrow> missing_needs L s d n = []"
  by (simp add: blocked_view_def Let_def)

lemma tick_fold:
  fixes L :: "'re golib" and d s full
  defines "run r ns \<equiv> foldl (tick_node L d s full) r ns"
  shows "rep_ready (run r ns) = rep_ready r @ map (blocked_view L d s) (filter (is_ready L d s) ns)"
    and "rep_blocked (run r ns) = rep_blocked r @ map (blocked_view L d s) (filter (is_blocked L d s) ns)"
    and "count_complete (rep_counts (run r ns)) =
      count_complete (rep_counts r) + length (filter (is_complete L d s) ns)"
    and "rep_diagnostics (run r ns) = rep_diagnostics r"
    and "rep_critical_path (run r ns) = rep_critical_path r"
  unfolding run_def
  by (induction ns arbitrary: r)
    (simp_all add: tick_node_def is_ready_def is_blocked_def is_complete_def Let_def)

lemma tick_fields:
  fixes L :: "'re golib" and d es full
  defines "s \<equiv> fold_events es"
  shows "rep_ready (tick L d es full) = map (blocked_view L d s) (filter (is_ready L d s) (plan_nodes d))"
    and "rep_blocked (tick L d es full) = map (blocked_view L d s) (filter (is_blocked L d s) (plan_nodes d))"
    and "count_complete (rep_counts (tick L d es full)) = length (filter (is_complete L d s) (plan_nodes d))"
    and "count_ready (rep_counts (tick L d es full)) = length (filter (is_ready L d s) (plan_nodes d))"
    and "count_blocked (rep_counts (tick L d es full)) = length (filter (is_blocked L d s) (plan_nodes d))"
    and "rep_diagnostics (tick L d es full) = check_plan L d s"
    and "rep_valid (tick L d es full) \<longleftrightarrow> check_plan L d s = []"
  unfolding s_def by (simp_all add: tick_def Let_def tick_fold)

lemma nv_id_blocked_view [simp]: "nv_id (blocked_view L d s n) = node_id n"
  by (simp add: blocked_view_def node_view_of_def Let_def)

lemma classes_partition:
  "length (filter (is_complete L d s) ns) + length (filter (is_ready L d s) ns) +
     length (filter (is_blocked L d s) ns) = length ns"
  by (induction ns) (auto simp: is_ready_def is_blocked_def)

lemma same_acceptance_classes:
  assumes "same_acceptance s t"
  shows "is_complete L d s n = is_complete L d t n" "is_ready L d s n = is_ready L d t n"
    "is_blocked L d s n = is_blocked L d t n"
  using assms
  by (simp_all add: is_complete_def is_ready_def is_blocked_def same_acceptance_satisfies
      same_acceptance_missing)

lemma same_acceptance_check: "same_acceptance s t \<Longrightarrow> check_plan L d s = check_plan L d t"
proof -
  assume "same_acceptance s t"
  then have "pair_diags d s = pair_diags d t"
    by (intro ext) (simp add: pair_diags_def same_acceptance_grant)
  then have "collision_diags d s ns = collision_diags d t ns" for ns
    by (induction ns) simp_all
  then show ?thesis by (simp add: check_plan_def)
qed

subsection \<open>No deadlock\<close>

text \<open>A need that completing its producer satisfies.\<close>

definition acceptance_need :: "need \<Rightarrow> bool" where
  "acceptance_need need \<longleftrightarrow> need_kind need = ''Evidence'' \<or> need_kind need = ''Fork''"

lemma fitting_self:
  assumes "producer_fits need p" and "acceptance_need need" and "node_id p = need_node need"
  shows "self_need p = need"
  using assms by (cases need) (auto simp: producer_fits_def acceptance_need_def self_need_def)

text \<open>Some incomplete node of an acyclic graph depends on complete nodes only.\<close>

lemma deepest_incomplete:
  assumes "acyclic (edges_of (dep_succs d))" and "u \<in> node_ids d" and "\<not> P u"
  shows "\<exists>v \<in> node_ids d. \<not> P v \<and> (\<forall>w \<in> set (dep_succs d v). w \<in> node_ids d \<longrightarrow> P w)"
proof -
  let ?E = "edges_of (dep_succs d) \<inter> (node_ids d \<times> node_ids d)"
  have "finite ?E" by simp
  moreover have "acyclic ?E" by (rule acyclic_subset [OF assms(1)]) simp
  ultimately have "wf (?E\<inverse>)" by (rule finite_acyclic_wf_converse)
  moreover have "u \<in> {x \<in> node_ids d. \<not> P x}" using assms by simp
  ultimately obtain v where v: "v \<in> {x \<in> node_ids d. \<not> P x}"
    and min: "\<And>w. (w, v) \<in> ?E\<inverse> \<Longrightarrow> w \<notin> {x \<in> node_ids d. \<not> P x}"
    by (rule wfE_min) blast
  show ?thesis using v min by (intro bexI [of _ v]) auto
qed

lemma plan_progress:
  assumes sound: "plan_sound L d s" and n: "n \<in> set (plan_nodes d)" "\<not> is_complete L d s n"
  shows "\<exists>m \<in> set (plan_nodes d). \<not> is_complete L d s m \<and>
    (\<forall>need \<in> set (dependencies m). acceptance_need need \<longrightarrow> satisfies L s d need)"
proof -
  let ?done = "\<lambda>i. \<forall>m \<in> set (plan_nodes d). node_id m = i \<longrightarrow> is_complete L d s m"
  have "node_id n \<in> node_ids d" "\<not> ?done (node_id n)" using n by (auto simp: node_ids_def)
  with sound deepest_incomplete [where P = ?done] obtain v where
    v: "v \<in> node_ids d" "\<not> ?done v" "\<forall>w \<in> set (dep_succs d v). w \<in> node_ids d \<longrightarrow> ?done w"
    unfolding plan_sound_def by blast
  from v(2) obtain m where m: "m \<in> set (plan_nodes d)" "node_id m = v" "\<not> is_complete L d s m"
    by blast
  from sound have "distinct (map node_id (plan_nodes d))" by (simp add: plan_sound_def)
  with m have "find_node d v = Some m"
    using find_node_Some [of d v] find_node_None [of d v]
    by (cases "find_node d v") (auto simp: distinct_map inj_on_def)
  then have succs: "dep_succs d v = dep_targets m" by (simp add: dep_succs_def)
  have "satisfies L s d need" if need: "need \<in> set (dependencies m)" "acceptance_need need" for need
  proof -
    from sound m(1) need(1) obtain p where p: "find_node d (need_node need) = Some p"
      "producer_fits need p" unfolding plan_sound_def node_sound_def by blast
    then have "p \<in> set (plan_nodes d)" "node_id p = need_node need"
      using find_node_Some by blast+
    moreover have "need_node need \<in> set (dep_succs d v)"
      using need(1) succs by (auto simp: dep_targets_def)
    ultimately have "is_complete L d s p" using v(3) find_node_in_ids [OF p(1)] by blast
    with fitting_self [OF p(2) need(2) \<open>node_id p = need_node need\<close>] show ?thesis
      by (simp add: is_complete_def)
  qed
  with m show ?thesis by blast
qed

section \<open>WriteJSON\<close>

abbreviation newline :: char where "newline \<equiv> CHR 0x0A"

fun wj_loop :: "string \<Rightarrow> string \<Rightarrow> bool \<Rightarrow> bool \<Rightarrow> bool \<Rightarrow> string \<Rightarrow> string option" where
  "wj_loop [] stack quoted escaped records out = Some (out @ [newline])"
| "wj_loop (b # rest) stack quoted escaped records out =
     (let out1 = (if \<not> quoted \<and> b = CHR '']'' \<and> length stack = 2 \<and> records
                  then out @ [newline] else out) @ [b]
      in if quoted
         then (if escaped then wj_loop rest stack True False records out1
               else if b = CHR 0x5C then wj_loop rest stack True True records out1
               else if b = CHR 0x22 then wj_loop rest stack False escaped records out1
               else wj_loop rest stack True escaped records out1)
         else if b = CHR 0x22 then wj_loop rest stack True escaped records out1
         else if b = CHR ''{'' \<or> b = CHR ''[''
         then (let stack1 = stack @ [b] in
               if b = CHR ''['' \<and> length stack1 = 2
               then (let records1 = (rest \<noteq> [] \<and> hd rest = CHR ''{'')
                     in wj_loop rest stack1 False escaped records1
                          (if records1 then out1 @ [newline] else out1))
               else wj_loop rest stack1 False escaped records out1)
         else if b = CHR ''}'' \<or> b = CHR '']''
         then (if stack = [] then None
               else wj_loop rest (butlast stack) False escaped records out1)
         else if b = CHR '',''
         then wj_loop rest stack False escaped records
                (if length stack = 1 \<or> length stack = 2 \<and> stack ! 1 = CHR ''['' \<and> records
                 then out1 @ [newline] else out1)
         else wj_loop rest stack False escaped records out1)"

definition write_json :: "string \<Rightarrow> string option" where
  "write_json encoded = wj_loop (trim_space encoded) [] False False False []"

subsection \<open>The text the encoder writes\<close>

datatype jvalue = JLit string | JStr string | JArr "jvalue list" | JObj "(string \<times> jvalue) list"

fun render :: "jvalue \<Rightarrow> string" where
  "render (JLit t) = t"
| "render (JStr s) = json_string s"
| "render (JArr vs) = ''['' @ join '','' (map render vs) @ '']''"
| "render (JObj fs) = ''{'' @ join '','' (map (\<lambda>(k, v). json_string k @ '':'' @ render v) fs) @ ''}''"

text \<open>Literals are numbers, booleans and null: they hold no structural byte.\<close>

definition plain_byte :: "char \<Rightarrow> bool" where
  "plain_byte c \<longleftrightarrow> c \<notin> {CHR 0x22, CHR ''{'', CHR ''}'', CHR ''['', CHR '']'', CHR '',''}"

fun json_wf :: "jvalue \<Rightarrow> bool" where
  "json_wf (JLit t) = (t \<noteq> [] \<and> list_all plain_byte t)"
| "json_wf (JStr s) = True"
| "json_wf (JArr vs) = list_all json_wf vs"
| "json_wf (JObj fs) = list_all (\<lambda>(k, v). json_wf v) fs"

text \<open>The promised layout: a top-level field per line, a record of a top-level array per line.\<close>

fun is_obj :: "jvalue \<Rightarrow> bool" where
  "is_obj (JObj fs) = True"
| "is_obj v = False"

fun layout_value :: "jvalue \<Rightarrow> string" where
  "layout_value (JArr vs) =
     (if vs \<noteq> [] \<and> is_obj (hd vs)
      then ''['' @ [newline] @ join ('','' @ [newline]) (map render vs) @ [newline] @ '']''
      else render (JArr vs))"
| "layout_value v = render v"

definition layout :: "(string \<times> jvalue) list \<Rightarrow> string" where
  "layout fs =
     ''{'' @ join ('','' @ [newline]) (map (\<lambda>(k, v). json_string k @ '':'' @ layout_value v) fs) @
     ''}'' @ [newline]"

text \<open>\<open>verbatim t st\<close>: between values, at stack \<open>st\<close>, the loop copies \<open>t\<close> unchanged.\<close>

definition verbatim :: "string \<Rightarrow> string \<Rightarrow> bool" where
  "verbatim t st \<longleftrightarrow> (\<forall>rest rec out.
     wj_loop (t @ rest) st False False rec out = wj_loop rest st False False rec (out @ t))"

lemma verbatim_append: "verbatim a st \<Longrightarrow> verbatim b st \<Longrightarrow> verbatim (a @ b) st"
  by (simp add: verbatim_def)

lemma verbatim_plain: "list_all plain_byte t \<Longrightarrow> verbatim t st"
proof (induction t)
  case (Cons c t)
  then have "verbatim [c] st" by (simp add: verbatim_def plain_byte_def)
  moreover have "verbatim t st" using Cons by simp
  ultimately show ?case using verbatim_append by fastforce
qed (simp add: verbatim_def)

definition quoted_copy :: "string \<Rightarrow> bool" where
  "quoted_copy t \<longleftrightarrow> (\<forall>rest st rec out.
     wj_loop (t @ rest) st True False rec out = wj_loop rest st True False rec (out @ t))"

lemma quoted_copy_append: "quoted_copy a \<Longrightarrow> quoted_copy b \<Longrightarrow> quoted_copy (a @ b)"
  by (simp add: quoted_copy_def)

lemma quoted_copy_plain:
  "list_all (\<lambda>c. c \<noteq> CHR 0x22 \<and> c \<noteq> CHR 0x5C) t \<Longrightarrow> quoted_copy t"
proof (induction t)
  case (Cons c t)
  then have "quoted_copy [c]" by (simp add: quoted_copy_def)
  moreover have "quoted_copy t" using Cons by simp
  ultimately show ?case using quoted_copy_append by fastforce
qed (simp add: quoted_copy_def)

lemma quoted_copy_escape: "quoted_copy [CHR 0x5C, c]"
  by (simp add: quoted_copy_def)

lemma quoted_copy_escape_plain:
  "list_all (\<lambda>c. c \<noteq> CHR 0x22 \<and> c \<noteq> CHR 0x5C) t \<Longrightarrow> quoted_copy (CHR 0x5C # c # t)"
  using quoted_copy_append [OF quoted_copy_escape quoted_copy_plain] by simp

lemma hex_digit_plain: "hex_digit k \<noteq> CHR 0x22 \<and> hex_digit k \<noteq> CHR 0x5C"
proof -
  have "hex_digit k \<in> set ''0123456789abcdef''"
    unfolding hex_digit_def by (rule nth_mem) simp
  then show ?thesis by auto
qed

lemma quoted_copy_ascii: "quoted_copy (json_ascii c)"
  by (simp add: json_ascii_def Let_def quoted_copy_escape quoted_copy_escape_plain
      hex_digit_plain quoted_copy_plain)

lemma quoted_copy_multi:
  assumes "list_all (\<lambda>c. 0x80 \<le> (of_char c :: nat)) u"
  shows "quoted_copy (json_multi u)"
proof -
  have "list_all (\<lambda>c. c \<noteq> CHR 0x22 \<and> c \<noteq> CHR 0x5C) u"
    using assms by (auto simp: list_all_iff)
  then show ?thesis
    by (simp add: json_multi_def quoted_copy_escape_plain quoted_copy_plain)
qed

lemma quoted_copy_body: "quoted_copy (json_body s)"
proof (induction s rule: json_body.induct)
  case (2 c cs)
  let ?n = "utf8_len (c # cs)"
  show ?case
  proof (cases "(of_char c :: nat) < 0x80")
    case True
    with 2 show ?thesis by (simp add: quoted_copy_append quoted_copy_ascii)
  next
    case False
    show ?thesis
    proof (cases "?n = 0")
      case True
      have "quoted_copy (CHR 0x5C # ''ufffd'')" by (simp add: quoted_copy_escape_plain)
      with False True 2 have "quoted_copy ((CHR 0x5C # ''ufffd'') @ json_body cs)"
        by (intro quoted_copy_append) simp_all
      with False True show ?thesis by simp
    next
      case n: False
      from utf8_len_high(1) [OF n] have "quoted_copy (json_multi (take ?n (c # cs)))"
        by (rule quoted_copy_multi)
      with False n 2 have
        "quoted_copy (json_multi (take ?n (c # cs)) @ json_body (drop (?n - 1) cs))"
        by (intro quoted_copy_append) simp_all
      with False n show ?thesis by simp
    qed
  qed
qed (simp add: quoted_copy_def)

lemma verbatim_string: "verbatim (json_string s) st"
  using quoted_copy_body [of s] by (simp add: verbatim_def json_string_def quoted_copy_def)


lemma join_Cons: "xs \<noteq> [] \<Longrightarrow> join sep (x # xs) = x @ sep @ join sep xs"
  by (cases xs) auto

lemma verbatim_join:
  assumes "\<forall>x \<in> set xs. verbatim x st" and "verbatim '','' st"
  shows "verbatim (join '','' xs) st"
  using assms(1)
proof (induction xs)
  case (Cons x xs)
  show ?case
  proof (cases "xs = []")
    case False
    with Cons assms(2) have "verbatim (x @ '','' @ join '','' xs) st"
      by (intro verbatim_append) simp_all
    with False show ?thesis by (simp add: join_Cons)
  qed (use Cons in simp)
qed (simp add: verbatim_def)

text \<open>Below the second level, and inside objects of the second level, nothing is broken.\<close>

definition unbroken :: "string \<Rightarrow> bool" where
  "unbroken st \<longleftrightarrow> 3 \<le> length st \<or> length st = 2 \<and> st ! 1 = CHR ''{''"

lemma verbatim_comma: "unbroken st \<Longrightarrow> verbatim '','' st"
  by (auto simp: verbatim_def unbroken_def)

lemma verbatim_braces:
  "verbatim t (st @ ''{'') \<Longrightarrow> verbatim (''{'' @ t @ ''}'') st"
  by (simp add: verbatim_def)

lemma verbatim_brackets:
  "2 \<le> length st \<Longrightarrow> verbatim t (st @ ''['') \<Longrightarrow> verbatim (''['' @ t @ '']'') st"
  by (simp add: verbatim_def)

lemma verbatim_field:
  "verbatim (render v) st \<Longrightarrow> verbatim (json_string k @ CHR '':'' # render v) st"
  using verbatim_append [OF verbatim_string verbatim_append [OF verbatim_plain [of "'':''"]]]
  by (simp add: plain_byte_def)

lemma verbatim_deep: "json_wf v \<Longrightarrow> 2 \<le> length st \<Longrightarrow> verbatim (render v) st"
proof (induction v arbitrary: st rule: render.induct)
  case (1 t)
  then show ?case by (simp add: verbatim_plain)
next
  case (2 s)
  then show ?case by (simp add: verbatim_string)
next
  case (3 vs)
  have "unbroken (st @ ''['')" using 3 by (simp add: unbroken_def)
  then have "verbatim (join '','' (map render vs)) (st @ ''['')"
    by (intro verbatim_join verbatim_comma) (use 3 in \<open>auto simp: list_all_iff\<close>)
  with 3 show ?case unfolding render.simps by (intro verbatim_brackets) simp_all
next
  case (4 fs)
  have "unbroken (st @ ''{'')" using 4 by (simp add: unbroken_def)
  then have "verbatim (join '','' (map (\<lambda>(k, v). json_string k @ '':'' @ render v) fs)) (st @ ''{'')"
    by (intro verbatim_join verbatim_comma)
      (use 4 in \<open>auto simp: list_all_iff intro!: verbatim_field\<close>)
  then show ?case unfolding render.simps by (rule verbatim_braces)
qed

text \<open>A field of the top-level object: the stack is \<open>''{''\<close>.\<close>

definition laid_out :: "string \<Rightarrow> string \<Rightarrow> bool" where
  "laid_out t t' \<longleftrightarrow> (\<forall>rest rec out. \<exists>rec'.
     wj_loop (t @ rest) ''{'' False False rec out =
     wj_loop rest ''{'' False False rec' (out @ t'))"

lemma laid_outI:
  "(\<And>rest rec out. wj_loop (t @ rest) ''{'' False False rec out =
     wj_loop rest ''{'' False False (f rec) (out @ t')) \<Longrightarrow> laid_out t t'"
  unfolding laid_out_def by blast

lemma laid_out_append: "laid_out a a' \<Longrightarrow> laid_out b b' \<Longrightarrow> laid_out (a @ b) (a' @ b')"
  unfolding laid_out_def by (metis append.assoc)

lemma verbatim_laid_out: "verbatim t ''{'' \<Longrightarrow> laid_out t t"
  unfolding verbatim_def laid_out_def by blast

lemma laid_out_comma: "laid_out '','' ('','' @ [newline])"
  by (rule laid_outI [where f = "\<lambda>r. r"]) simp

lemma laid_out_join:
  assumes "list_all2 laid_out xs ys"
  shows "laid_out (join '','' xs) (join ('','' @ [newline]) ys)"
  using assms
proof (induction xs ys rule: list_all2_induct)
  case (Cons x xs y ys)
  show ?case
  proof (cases "xs = []")
    case False
    with Cons have "ys \<noteq> []" by auto
    then show ?thesis unfolding join_Cons [OF False] join_Cons [OF \<open>ys \<noteq> []\<close>]
      by (intro laid_out_append laid_out_comma Cons)
  qed (use Cons in auto)
next
  case Nil
  show ?case by (rule laid_outI [where f = "\<lambda>r. r"]) simp
qed

text \<open>The elements of a top-level array, at the stack \<open>''{[''\<close>.\<close>

lemma records_join:
  assumes "list_all json_wf vs" and "vs \<noteq> []"
  shows "wj_loop (join '','' (map render vs) @ rest) ''{['' False False rec out =
    wj_loop rest ''{['' False False rec
      (out @ join (if rec then '','' @ [newline] else '','') (map render vs))"
  using assms
proof (induction vs arbitrary: out)
  case (Cons v vs)
  have v: "wj_loop (render v @ r) ''{['' False False c o' =
      wj_loop r ''{['' False False c (o' @ render v)" for r c o'
    using verbatim_deep [of v "''{[''"] Cons.prems by (simp add: verbatim_def)
  show ?case
  proof (cases "vs = []")
    case True
    with v show ?thesis by simp
  next
    case False
    with Cons.prems have "list_all json_wf vs" by simp
    from Cons.IH [OF this False] False show ?thesis
      by (simp add: join_Cons v del: render.simps)
  qed
qed simp

lemma render_head: "json_wf v \<Longrightarrow> render v \<noteq> [] \<and> (hd (render v) = CHR ''{'' \<longleftrightarrow> is_obj v)"
  by (cases v) (auto simp: json_string_def list_all_iff plain_byte_def)

lemma laid_out_value: "json_wf v \<Longrightarrow> laid_out (render v) (layout_value v)"
proof (cases v)
  case (JLit t)
  assume "json_wf v"
  with JLit show ?thesis by (auto intro: verbatim_laid_out verbatim_plain)
next
  case (JStr s)
  then show ?thesis by (auto intro: verbatim_laid_out verbatim_string)
next
  case (JObj fs)
  assume wf: "json_wf v"
  have "verbatim (join '','' (map (\<lambda>(k, v). json_string k @ '':'' @ render v) fs)) (''{'' @ ''{'')"
    by (intro verbatim_join verbatim_comma)
      (use wf JObj in \<open>auto simp: list_all_iff unbroken_def intro!: verbatim_field verbatim_deep\<close>)
  then have "verbatim (render v) ''{''" unfolding JObj render.simps by (rule verbatim_braces)
  with JObj show ?thesis by (auto intro: verbatim_laid_out)
next
  case (JArr vs)
  assume wf: "json_wf v"
  show ?thesis
  proof (cases vs)
    case Nil
    show ?thesis by (rule laid_outI [where f = "\<lambda>_. False"]) (simp add: JArr Nil)
  next
    case (Cons w ws)
    let ?rec = "is_obj w"
    let ?body = "join '','' (map render vs)"
    have wfs: "list_all json_wf vs" "json_wf w" using wf JArr Cons by auto
    have head: "?body \<noteq> []" "hd ?body = CHR ''{'' \<longleftrightarrow> ?rec"
      using render_head [OF wfs(2)] Cons by (cases ws; simp)+
    show ?thesis
      unfolding laid_out_def
    proof (intro allI exI [of _ ?rec])
      fix rest rec out
      have "wj_loop (render v @ rest) ''{'' False False rec out =
          wj_loop (?body @ '']'' @ rest) ''{['' False False ?rec
            (out @ ''['' @ (if ?rec then [newline] else []))"
        using JArr head by simp
      also have "\<dots> = wj_loop ('']'' @ rest) ''{['' False False ?rec
            (out @ ''['' @ (if ?rec then [newline] else []) @
             join (if ?rec then '','' @ [newline] else '','') (map render vs))"
        using records_join [OF wfs(1)] Cons by simp
      also have "\<dots> = wj_loop rest ''{'' False False ?rec (out @ layout_value v)"
        using JArr Cons by simp
      finally show "wj_loop (render v @ rest) ''{'' False False rec out =
          wj_loop rest ''{'' False False ?rec (out @ layout_value v)" .
    qed
  qed
qed

lemma laid_out_field:
  "json_wf v \<Longrightarrow>
     laid_out (json_string k @ CHR '':'' # render v) (json_string k @ CHR '':'' # layout_value v)"
  using laid_out_append [OF verbatim_laid_out [OF verbatim_string]
      laid_out_append [OF verbatim_laid_out [OF verbatim_plain [of "'':''"]] laid_out_value]]
  by (simp add: plain_byte_def)

lemma wj_loop_object:
  assumes "json_wf (JObj fs)"
  shows "wj_loop (render (JObj fs)) [] False False False [] = Some (layout fs)"
proof -
  let ?xs = "map (\<lambda>(k, v). json_string k @ '':'' @ render v) fs"
  let ?ys = "map (\<lambda>(k, v). json_string k @ '':'' @ layout_value v) fs"
  have "list_all2 laid_out ?xs ?ys"
    using assms by (auto simp: list_all2_conv_all_nth list_all_length split_beta intro!: laid_out_field)
  then have "laid_out (join '','' ?xs) (join ('','' @ [newline]) ?ys)" by (rule laid_out_join)
  then obtain rec' where "wj_loop (join '','' ?xs @ ''}'') ''{'' False False False ''{'' =
      wj_loop ''}'' ''{'' False False rec' (''{'' @ join ('','' @ [newline]) ?ys)"
    unfolding laid_out_def by (metis append_Nil2)
  then show ?thesis by (simp add: layout_def)
qed

lemma trim_space_object: "trim_space (''{'' @ t @ ''}'' @ [newline]) = ''{'' @ t @ ''}''"
proof -
  let ?ends = "map rev space_encodings"
  have "lead_match space_encodings (CHR ''{'' # u) = 0" for u
    by (simp add: space_encodings_def has_prefix_def)
  then have lead: "strip_lead space_encodings (CHR ''{'' # u) = CHR ''{'' # u" for u
    by (subst strip_lead.simps) simp
  have "lead_match ?ends (CHR ''}'' # u) = 0" for u
    by (simp add: space_encodings_def has_prefix_def)
  then have stop: "strip_lead ?ends (CHR ''}'' # u) = CHR ''}'' # u" for u
    by (subst strip_lead.simps) simp
  have "lead_match ?ends (newline # u) = 1" for u
    by (simp add: space_encodings_def has_prefix_def)
  then have "strip_lead ?ends (newline # CHR ''}'' # u) = CHR ''}'' # u" for u
    by (subst strip_lead.simps) (simp add: stop)
  with lead show ?thesis by (simp add: trim_space_def)
qed

lemma write_json_object:
  "json_wf (JObj fs) \<Longrightarrow> write_json (render (JObj fs) @ [newline]) = Some (layout fs)"
  using wj_loop_object [of fs] trim_space_object by (simp add: write_json_def)

end
