(* ===== verification/Plan_Properties.thy ===== *)
theory Plan_Properties
  imports Plan_Report
begin

text \<open>
  The properties of task plans, each with a concrete plan on which its hypotheses hold.
  \<open>demo_lib\<close> instantiates the library services: a regular expression is the text it was
  compiled from and matches nothing else, the hash is the identity and a time stamp
  is any non-empty text.
\<close>

section \<open>A concrete plan\<close>

definition demo_lib :: "string golib" where
  "demo_lib = \<lparr>rx_compile = Some, rx_match = (\<lambda>re s. re = CHR 0x5C # ''A(?:'' @ s @ '')'' @ CHR 0x5C # ''z''),
     rx_num_subexp = (\<lambda>_. 0), rx_has_subexp = (\<lambda>_ _. False), rx_expand = (\<lambda>_ _ _. None),
     rx_replacement_token = (\<lambda>s. take 2 s), sha256_hex = (\<lambda>s. s),
     parses_rfc3339 = (\<lambda>s. s \<noteq> [])\<rparr>"

definition demo_action :: "string \<Rightarrow> need list \<Rightarrow> string list \<Rightarrow> node" where
  "demo_action i needs grant =
     Node ''Action'' i ''me'' None [] needs grant []
       (Some \<lparr>oracle_kind = ''Mechanical'', oracle_run = ''make '' @ i, oracle_once = False,
              oracle_rubric = [], oracle_owner = []\<rparr>) [] [] None"

definition demo_plan :: plan_def where
  "demo_plan = \<lparr>plan_legacy = (\<lambda>_. None), plan_meta = \<lparr>meta_title = ''t'', meta_goal = ''g''\<rparr>,
     plan_actors = [],
     plan_nodes = [demo_action ''b'' [\<lparr>need_kind = ''Evidence'', need_node = ''a''\<rparr>] [''src/b''],
                   demo_action ''a'' [] [''src/a'']]\<rparr>"

section \<open>Diagnosis\<close>

text \<open>
  C1: \<^verbatim>\<open>Check\<close> reports nothing exactly on sound plans: ids are unique, owners resolve,
  selectors have two distinct options, every need names a registered producer of the
  right kind, probes name guards, the dependency relation is acyclic, Actions that no
  dependency orders share no granted path, and the plan is connected.
\<close>

theorem check_silent_iff_sound: "check_plan L d s = [] \<longleftrightarrow> plan_sound L d s"
  by (rule check_plan_Nil)

text \<open>
  C2: \<^verbatim>\<open>order\<close> decides acyclicity. On an acyclic plan it returns every node once, each
  after all the registered nodes it depends on; otherwise it returns a walk along
  dependencies whose last node occurs before.
\<close>

theorem order_sorts_or_finds_cycle:
  "if acyclic (edges_of (dep_succs d))
   then snd (order_of d) = [] \<and> distinct (fst (order_of d)) \<and>
        set (fst (order_of d)) = node_ids d \<and> dep_ordered d (fst (order_of d))
   else closed_walk d (snd (order_of d))"
  using order_of_decides [of d] order_of_acyclic [of d] order_of_cycle [of d] by auto

text \<open>
  C3: \<^verbatim>\<open>CriticalPath\<close> of an acyclic plan is a chain of registered nodes, each needed by
  the next, and no such chain is longer.
\<close>

theorem critical_path_is_longest_chain:
  assumes "acyclic (edges_of (dep_succs d))"
  shows "dep_walk d (rev (critical_path d)) \<and> set (critical_path d) \<subseteq> node_ids d \<and>
    (\<forall>q. dep_walk d q \<and> set q \<subseteq> node_ids d \<longrightarrow> length q \<le> length (critical_path d))"
  using assms critical_path_longest [of d] by (simp add: order_of_decides)

theorem critical_path_is_longest_chain_witness:
  "critical_path demo_plan = [''a'', ''b''] \<and> dep_walk demo_plan (rev (critical_path demo_plan))"
proof
  show "critical_path demo_plan = [''a'', ''b'']" by code_simp
  have "snd (order_of demo_plan) = []" by code_simp
  then have "acyclic (edges_of (dep_succs demo_plan))" by (simp add: order_of_decides)
  from critical_path_is_longest_chain [OF this]
  show "dep_walk demo_plan (rev (critical_path demo_plan))" by simp
qed

text \<open>
  \<^verbatim>\<open>components\<close> splits the node ids: every id occurs exactly once, and every
  component is sorted and holds exactly the ids linked, in either direction, to any
  one of its members.
\<close>

theorem components_partition:
  "distinct (concat (components d)) \<and> set (concat (components d)) = node_ids d \<and>
   (\<forall>c \<in> set (components d). sorted c \<and> c \<noteq> [] \<and> (\<forall>u \<in> set c. set c = component_of d u))"
  using components_correct [where d = d] by auto

theorem components_partition_witness:
  "components demo_plan = [[''a'', ''b'']] \<and> set (concat (components demo_plan)) = node_ids demo_plan"
proof
  show "components demo_plan = [[''a'', ''b'']]" by code_simp
  show "set (concat (components demo_plan)) = node_ids demo_plan"
    using components_partition [of demo_plan] by simp
qed

text \<open>
  \<^verbatim>\<open>reaches\<close> is the transitive closure of the declared dependencies.
\<close>

theorem reaches_is_transitive_closure: "reaches d u v \<longleftrightarrow> (u, v) \<in> (edges_of (dep_succs d))\<^sup>+"
  by (rule reaches_iff)

text \<open>
  Two granted paths overlap exactly when, after normalisation of a trailing glob, the
  segments of one are a prefix of the segments of the other; so overlap is symmetric and
  never matches half a file name.
\<close>

theorem overlap_is_segment_prefix:
  "overlaps a b \<longleftrightarrow>
     has_prefix (path_segments a) (path_segments b) \<or> has_prefix (path_segments b) (path_segments a)"
  by (rule overlaps_segments)

section \<open>Reports\<close>

text \<open>
  \<^verbatim>\<open>Tick\<close> classifies every node exactly once. Its ready list holds, in plan order, the
  incomplete nodes with no missing need and its blocked list those with one; the counts
  are the sizes of the classes and add up to the number of nodes.
\<close>

theorem tick_classifies_every_node:
  "map nv_id (rep_ready (tick L d es full)) =
     map node_id (filter (is_ready L d (fold_events es)) (plan_nodes d)) \<and>
   map nv_id (rep_blocked (tick L d es full)) =
     map node_id (filter (is_blocked L d (fold_events es)) (plan_nodes d)) \<and>
   count_complete (rep_counts (tick L d es full)) =
     length (filter (is_complete L d (fold_events es)) (plan_nodes d)) \<and>
   count_complete (rep_counts (tick L d es full)) + count_ready (rep_counts (tick L d es full)) +
     count_blocked (rep_counts (tick L d es full)) = length (plan_nodes d)"
  by (simp add: tick_fields classes_partition comp_def)



text \<open>
  Reported work and notes never change acceptance: removing every \<^verbatim>\<open>NodeUpdated\<close> and
  \<^verbatim>\<open>Note\<close> event from the log leaves the diagnostics, the critical path, the three
  classes of nodes and their counts as they were.
\<close>

theorem coordination_is_invisible:
  fixes es d
  defines "es' \<equiv> filter (\<lambda>e. \<not> coordination e) es"
  shows "rep_diagnostics (tick L d es full) = rep_diagnostics (tick L d es' full) \<and>
    rep_valid (tick L d es full) = rep_valid (tick L d es' full) \<and>
    map nv_id (rep_ready (tick L d es full)) = map nv_id (rep_ready (tick L d es' full)) \<and>
    map nv_id (rep_blocked (tick L d es full)) = map nv_id (rep_blocked (tick L d es' full)) \<and>
    count_complete (rep_counts (tick L d es full)) = count_complete (rep_counts (tick L d es' full))"
proof -
  have same: "same_acceptance (fold_events es) (fold_events es')"
    unfolding es'_def by (rule coordination_projection)
  note classes = same_acceptance_classes [OF same] same_acceptance_check [OF same]
  show ?thesis by (simp add: tick_fields classes comp_def cong: filter_cong)
qed

text \<open>
  \<^verbatim>\<open>WriteJSON\<close> never pops an empty stack on an encoded object and writes the layout its
  comment promises: one line per top-level field, one line per record of a top-level
  array of objects, everything else as encoded.
\<close>

theorem write_json_lays_out:
  assumes "json_wf (JObj fs)"
  shows "write_json (render (JObj fs) @ [newline]) = Some (layout fs)"
  using assms by (rule write_json_object)

theorem write_json_lays_out_witness:
  "write_json (render (JObj [(''a'', JArr [JObj [], JObj []]), (''b'', JLit ''1'')]) @ [newline]) =
     Some (layout [(''a'', JArr [JObj [], JObj []]), (''b'', JLit ''1'')])"
  by (rule write_json_lays_out) (simp add: plain_byte_def)

section \<open>The ledger\<close>

text \<open>
  In the state folded from a log, the evidence for a node is its last Evidence event
  when that one passed and absent otherwise; the artifact and the ruling are the last
  event of their kind.
\<close>

theorem fold_keeps_last_observation:
  "st_evidence (fold_events es) i =
     (case last_of (filter (\<lambda>e. ev_kind e = ''Evidence'' \<and> ev_node e = i) es) of
        None \<Rightarrow> None | Some e \<Rightarrow> if ev_result e = ''pass'' then Some e else None) \<and>
   st_artifacts (fold_events es) i =
     last_of (filter (\<lambda>e. ev_kind e = ''Artifact'' \<and> ev_node e = i) es) \<and>
   st_forks (fold_events es) i =
     last_of (filter (\<lambda>e. ev_kind e = ''ForkRuled'' \<and> ev_node e = i) es)"
  by (simp add: evidence_is_last artifact_is_last fork_is_last)

definition demo_update :: event where
  "demo_update = zero_event\<lparr>ev_kind := ''NodeUpdated'', ev_node := ''a'', ev_at := ''now'',
     ev_by := ''me'', ev_actor := Some \<lparr>actor_kind = [], actor_id = ''me''\<rparr>,
     ev_status := ''stalled'',
     ev_stall := Some \<lparr>stall_reason = ''r'', stall_resume_when = ''w'',
                       stall_waiting_actor = None, stall_waiting_need = None\<rparr>\<rparr>"

text \<open>
  C5: after folding any valid log, the reported work of every node is consistent: its status
  is one of the four, it carries a stall exactly while stalled, a stall records who
  raised it and is itself valid, and the revision counts the updates modulo 2^64.
\<close>

theorem folded_work_is_consistent:
  assumes "\<forall>e \<in> set es. validate_event L e = Inr ()"
  shows "work_ok (work_of (fold_events es) i) \<and>
    work_revision (work_of (fold_events es) i) =
      of_nat (length (filter (\<lambda>e. ev_kind e = ''NodeUpdated'' \<and> ev_node e = i) es))"
  using assms work_log_ok [of es L i] by (simp add: work_revision_counts)

theorem folded_work_is_consistent_witness:
  "work_ok (work_of (fold_events [demo_update]) ''a'') \<and>
   work_revision (work_of (fold_events [demo_update]) ''a'') = 1"
proof -
  have "\<forall>e \<in> set [demo_update]. validate_event demo_lib e = Inr ()" by code_simp
  from folded_work_is_consistent [OF this, of "''a''"]
  show ?thesis by (simp add: demo_update_def)
qed

section \<open>Needs, actors and fingerprints\<close>

text \<open>
  Parsing a need and printing it are inverse: \<^verbatim>\<open>ParseNeed\<close> accepts exactly the printed
  forms of needs of the four kinds over well-formed node ids.
\<close>

theorem parse_need_inverts_print:
  "parse_need v = Inr n \<longleftrightarrow>
     v = need_string n \<and> need_kind n \<in> {''Artifact'', ''Evidence'', ''Fork'', ''Grant''} \<and>
     is_node_id (need_node n)"
  using parse_need_sound [of v n] parse_need_string [of n] by auto

text \<open>
  The fingerprints of two needs agree exactly when the declarations they hash agree,
  when the texts are UTF-8 and the hash does not collide on them.
\<close>

theorem fingerprint_identifies_meaning:
  assumes "fingerprint_parts L d n = Some ps" and "fingerprint_parts L d' n' = Some qs"
    and "\<forall>x \<in> set (ps @ qs). valid_utf8 x"
    and "sha256_hex L (json_strings ps) = sha256_hex L (json_strings qs) \<Longrightarrow>
         json_strings ps = json_strings qs"
  shows "fingerprint L d n = fingerprint L d' n' \<longleftrightarrow> ps = qs"
  using assms by (rule fingerprint_eq_iff)

theorem fingerprint_identifies_meaning_witness:
  "fingerprint demo_lib demo_plan \<lparr>need_kind = ''Evidence'', need_node = ''a''\<rparr> \<noteq>
   fingerprint demo_lib demo_plan \<lparr>need_kind = ''Evidence'', need_node = ''b''\<rparr>"
proof -
  have "fingerprint demo_lib demo_plan \<lparr>need_kind = ''Evidence'', need_node = ''a''\<rparr> =
      fingerprint demo_lib demo_plan \<lparr>need_kind = ''Evidence'', need_node = ''b''\<rparr> \<longleftrightarrow>
      [''Mechanical'', ''make a''] = [''Mechanical'', ''make b'']"
  proof (rule fingerprint_identifies_meaning)
    show "fingerprint_parts demo_lib demo_plan \<lparr>need_kind = ''Evidence'', need_node = ''a''\<rparr> =
        Some [''Mechanical'', ''make a'']" by code_simp
    show "fingerprint_parts demo_lib demo_plan \<lparr>need_kind = ''Evidence'', need_node = ''b''\<rparr> =
        Some [''Mechanical'', ''make b'']" by code_simp
    show "\<forall>x \<in> set ([''Mechanical'', ''make a''] @ [''Mechanical'', ''make b'']). valid_utf8 x"
      by code_simp
  qed (simp add: demo_lib_def)
  then show ?thesis by simp
qed

text \<open>
  What \<^verbatim>\<open>Resolve\<close> returns is canonical and stable: the actor passes \<^verbatim>\<open>ValidateActor\<close>,
  its id matches the canonical pattern of its configured kind, and resolving its
  printed form gives the same actor.
\<close>

theorem resolve_is_canonical_and_stable:
  assumes "ks \<noteq> []" and "\<forall>k \<in> fst ` set ks. k \<noteq> []" and "resolve_actor L ks v = Inr a"
  shows "canonical_actor L ks a \<and> actor_kind a \<in> fst ` set ks \<and>
    resolve_actor L ks (actor_string a) = Inr a"
  using resolve_canonical [OF assms(1,3)] resolve_printed [of L ks a] assms(2) by blast

definition demo_actors :: actors where
  "demo_actors = [(''human'', \<lparr>ak_pattern = ''ada'', ak_infer = None, ak_aliases = []\<rparr>)]"

theorem resolve_is_canonical_and_stable_witness:
  "resolve_actor demo_lib demo_actors ''ada'' = Inr \<lparr>actor_kind = ''human'', actor_id = ''ada''\<rparr> \<and>
   resolve_actor demo_lib demo_actors (actor_string \<lparr>actor_kind = ''human'', actor_id = ''ada''\<rparr>) =
     Inr \<lparr>actor_kind = ''human'', actor_id = ''ada''\<rparr>"
proof -
  have run: "resolve_actor demo_lib demo_actors ''ada'' = Inr \<lparr>actor_kind = ''human'', actor_id = ''ada''\<rparr>"
    by code_simp
  have "demo_actors \<noteq> []" "\<forall>k \<in> fst ` set demo_actors. k \<noteq> []" by (simp_all add: demo_actors_def)
  from resolve_is_canonical_and_stable [OF this run] run show ?thesis by blast
qed

end
