(* ===== verification/Go_Effects.thy ===== *)
theory Go_Effects
  imports Workbench_Prelude
begin

text \<open>
  Effectful Go functions: a computation takes the state of the system and returns an
  error or a value together with the state it leaves, on both paths. An early return
  with an error keeps every effect made before it, as in Go.

  \<open>triple P m Q E\<close> says: from a state satisfying \<open>P\<close>, a value \<open>x\<close> leaves a state
  satisfying \<open>Q x\<close> and an error leaves one satisfying \<open>E\<close>. Its rules drive the proofs of
  the effectful components.
\<close>

type_synonym ('s, 'e, 'a) comp = "'s \<Rightarrow> ('e + 'a) \<times> 's"

definition returnM :: "'a \<Rightarrow> ('s, 'e, 'a) comp" where
  "returnM x = (\<lambda>s. (Inr x, s))"

definition failM :: "'e \<Rightarrow> ('s, 'e, 'a) comp" where
  "failM e = (\<lambda>s. (Inl e, s))"

definition getM :: "('s \<Rightarrow> 'a) \<Rightarrow> ('s, 'e, 'a) comp" where
  "getM f = (\<lambda>s. (Inr (f s), s))"

definition modifyM :: "('s \<Rightarrow> 's) \<Rightarrow> ('s, 'e, unit) comp" where
  "modifyM f = (\<lambda>s. (Inr (), f s))"

definition bindM :: "('s, 'e, 'a) comp \<Rightarrow> ('a \<Rightarrow> ('s, 'e, 'b) comp) \<Rightarrow> ('s, 'e, 'b) comp" where
  "bindM m f = (\<lambda>s. case m s of (Inl e, s') \<Rightarrow> (Inl e, s') | (Inr x, s') \<Rightarrow> f x s')"

text \<open>\<open>if bad { return err }\<close>\<close>

definition guardM :: "bool \<Rightarrow> 'e \<Rightarrow> ('s, 'e, unit) comp" where
  "guardM ok e = (if ok then returnM () else failM e)"

definition whenM :: "bool \<Rightarrow> ('s, 'e, unit) comp \<Rightarrow> ('s, 'e, unit) comp" where
  "whenM b m = (if b then m else returnM ())"

text \<open>A pure result inside an effectful function.\<close>

definition liftM :: "'e + 'a \<Rightarrow> ('s, 'e, 'a) comp" where
  "liftM r = (\<lambda>s. (r, s))"

text \<open>\<open>if err != nil { return f(err) }\<close>\<close>

definition mapErrM :: "('e \<Rightarrow> 'f) \<Rightarrow> ('s, 'e, 'a) comp \<Rightarrow> ('s, 'f, 'a) comp" where
  "mapErrM f m = (\<lambda>s. case m s of (Inl e, s') \<Rightarrow> (Inl (f e), s') | (Inr x, s') \<Rightarrow> (Inr x, s'))"

text \<open>A call whose error the caller keeps as a value: \<open>err := f()\<close>.\<close>

definition attempt :: "('s, 'e, 'a) comp \<Rightarrow> ('s, 'e, 'e option) comp" where
  "attempt m = (\<lambda>s. case m s of (Inl e, s') \<Rightarrow> (Inr (Some e), s') | (Inr x, s') \<Rightarrow> (Inr None, s'))"

text \<open>A loop that returns at the first error.\<close>

fun eachM :: "('x \<Rightarrow> ('s, 'e, unit) comp) \<Rightarrow> 'x list \<Rightarrow> ('s, 'e, unit) comp" where
  "eachM f [] = returnM ()"
| "eachM f (x # xs) = bindM (f x) (\<lambda>_. eachM f xs)"

section \<open>Reasoning\<close>

definition triple ::
    "('s \<Rightarrow> bool) \<Rightarrow> ('s, 'e, 'a) comp \<Rightarrow> ('a \<Rightarrow> 's \<Rightarrow> bool) \<Rightarrow> ('s \<Rightarrow> bool) \<Rightarrow> bool" where
  "triple P m Q E \<longleftrightarrow>
     (\<forall>s. P s \<longrightarrow> (case m s of (Inl e, s') \<Rightarrow> E s' | (Inr x, s') \<Rightarrow> Q x s'))"

named_theorems triples \<open>rules for the triples of effectful functions\<close>

lemma tripleI:
  "(\<And>s. P s \<Longrightarrow> (case m s of (Inl e, s') \<Rightarrow> E s' | (Inr x, s') \<Rightarrow> Q x s')) \<Longrightarrow> triple P m Q E"
  by (simp add: triple_def)

lemma triple_weaken:
  assumes "triple P m Q E"
    and "\<And>s. P' s \<Longrightarrow> P s" and "\<And>x s. Q x s \<Longrightarrow> Q' x s" and "\<And>s. E s \<Longrightarrow> E' s"
  shows "triple P' m Q' E'"
  using assms unfolding triple_def by (fastforce split: sum.splits prod.splits)

lemma triple_result: "triple P m Q E \<Longrightarrow> P s \<Longrightarrow> m s = (Inr x, s') \<Longrightarrow> Q x s'"
  unfolding triple_def by fastforce

lemma triple_error: "triple P m Q E \<Longrightarrow> P s \<Longrightarrow> m s = (Inl e, s') \<Longrightarrow> E s'"
  unfolding triple_def by fastforce

lemma triple_final:
  assumes "triple P m Q E" and "P s" and "\<And>x t. Q x t \<Longrightarrow> R t" and "\<And>t. E t \<Longrightarrow> R t"
  shows "R (snd (m s))"
proof (cases "m s")
  case (Pair r t)
  show ?thesis
  proof (cases r)
    case (Inl e)
    with triple_error [OF assms(1,2)] Pair assms(4) show ?thesis by simp
  next
    case (Inr x)
    with triple_result [OF assms(1,2)] Pair assms(3) show ?thesis by simp
  qed
qed

lemma triple_pre_False [triples]: "triple (\<lambda>_. False) m Q E"
  by (simp add: triple_def)

lemma triple_assume: "(A \<Longrightarrow> triple P m Q E) \<Longrightarrow> triple (\<lambda>s. P s \<and> A) m Q E"
  by (auto simp: triple_def)

text \<open>A fact about the start states may be used in the proof.\<close>

lemma triple_fact: "(\<And>s. P s \<Longrightarrow> A) \<Longrightarrow> (A \<Longrightarrow> triple P m Q E) \<Longrightarrow> triple P m Q E"
  by (auto simp: triple_def)

lemma triple_return: "(\<And>s. P s \<Longrightarrow> Q x s) \<Longrightarrow> triple P (returnM x) Q E"
  by (simp add: triple_def returnM_def)

lemma triple_fail: "(\<And>s. P s \<Longrightarrow> E s) \<Longrightarrow> triple P (failM e) Q E"
  by (simp add: triple_def failM_def)

lemma triple_get: "triple P (getM f) (\<lambda>x s. P s \<and> x = f s) E"
  by (simp add: triple_def getM_def)

lemma triple_modify: "(\<And>s. P s \<Longrightarrow> Q () (f s)) \<Longrightarrow> triple P (modifyM f) Q E"
  by (simp add: triple_def modifyM_def)

lemma triple_bind:
  assumes "triple P m Q E" and "\<And>x. triple (Q x) (f x) R E"
  shows "triple P (bindM m f) R E"
  unfolding triple_def bindM_def
proof (intro allI impI)
  fix s assume P: "P s"
  show "case (case m s of (Inl e, s') \<Rightarrow> (Inl e, s') | (Inr x, s') \<Rightarrow> f x s')
    of (Inl e, s') \<Rightarrow> E s' | (Inr x, s') \<Rightarrow> R x s'"
  proof (cases "m s")
    case (Pair r s')
    show ?thesis
    proof (cases r)
      case (Inl e)
      with triple_error [OF assms(1) P] Pair show ?thesis by simp
    next
      case (Inr x)
      with triple_result [OF assms(1) P] Pair have "Q x s'" by simp
      with assms(2) [of x] Pair Inr show ?thesis by (simp add: triple_def)
    qed
  qed
qed

lemma triple_guard:
  "(\<And>s. P s \<Longrightarrow> ok \<Longrightarrow> Q () s) \<Longrightarrow> (\<And>s. P s \<Longrightarrow> E s) \<Longrightarrow> triple P (guardM ok e) Q E"
  by (simp add: triple_def guardM_def returnM_def failM_def)

lemma triple_when:
  "(b \<Longrightarrow> triple P m Q E) \<Longrightarrow> (\<And>s. P s \<Longrightarrow> \<not> b \<Longrightarrow> Q () s) \<Longrightarrow> triple P (whenM b m) Q E"
  by (simp add: whenM_def triple_return)

lemma triple_if:
  "(b \<Longrightarrow> triple P m Q E) \<Longrightarrow> (\<not> b \<Longrightarrow> triple P n Q E) \<Longrightarrow> triple P (if b then m else n) Q E"
  by simp

lemma triple_lift:
  "(\<And>s x. P s \<Longrightarrow> r = Inr x \<Longrightarrow> Q x s) \<Longrightarrow> (\<And>s. P s \<Longrightarrow> E s) \<Longrightarrow> triple P (liftM r) Q E"
  by (cases r) (auto simp: triple_def liftM_def)

lemma triple_mapErr: "triple P m Q E \<Longrightarrow> triple P (mapErrM f m) Q E"
  by (fastforce simp: triple_def mapErrM_def split: sum.splits prod.splits)

text \<open>A loop: \<open>I done\<close> holds when the elements \<open>done\<close> have been handled.\<close>

lemma triple_each_from:
  assumes "\<And>pre x suf. xs = pre @ x # suf \<Longrightarrow>
      triple (I (us @ pre)) (f x) (\<lambda>_. I (us @ pre @ [x])) E"
  shows "triple (I us) (eachM f xs) (\<lambda>_. I (us @ xs)) E"
  using assms
proof (induction xs arbitrary: us)
  case Nil
  show ?case by (simp add: triple_return)
next
  case (Cons x xs)
  have "triple (I us) (f x) (\<lambda>_. I (us @ [x])) E" using Cons.prems [of "[]" x xs] by simp
  moreover have "triple (I (us @ [x])) (eachM f xs) (\<lambda>_. I (us @ x # xs)) E"
    using Cons.IH [of "us @ [x]"] Cons.prems [of "x # _"] by simp
  ultimately show ?case by (auto intro: triple_bind)
qed

lemma triple_each:
  assumes "\<And>pre x suf. xs = pre @ x # suf \<Longrightarrow> triple (I pre) (f x) (\<lambda>_. I (pre @ [x])) E"
  shows "triple (I []) (eachM f xs) (\<lambda>_. I xs) E"
  using triple_each_from [of xs I "[]" f E] assms by simp

lemma triple_each_keeps:
  assumes "\<And>x. x \<in> set xs \<Longrightarrow> triple I (f x) (\<lambda>_. I) E"
  shows "triple I (eachM f xs) (\<lambda>_. I) E"
  using triple_each [of xs "\<lambda>_. I" f E] assms by simp

text \<open>A loop whose effect on an abstract state is a fold.\<close>

lemma triple_each_fold:
  assumes "\<And>x g. x \<in> set xs \<Longrightarrow> R g \<Longrightarrow> triple (I g) (f x) (\<lambda>_. I (h x g)) E \<and> R (h x g)" and "R g"
  shows "triple (I g) (eachM f xs) (\<lambda>_. I (fold h xs g)) E"
  using assms
proof (induction xs arbitrary: g)
  case Nil
  then show ?case by (simp add: triple_return)
next
  case (Cons x xs)
  then have "triple (I g) (f x) (\<lambda>_. I (h x g)) E" "R (h x g)" by simp_all
  moreover have "triple (I (h x g)) (eachM f xs) (\<lambda>_. I (fold h xs (h x g))) E"
    using Cons.prems \<open>R (h x g)\<close> by (intro Cons.IH) simp_all
  ultimately show ?case by (auto intro: triple_bind)
qed

lemma triple_each_guard:
  "(\<And>s. I s \<Longrightarrow> E s) \<Longrightarrow>
     triple I (eachM (\<lambda>x. guardM (P x) (e x)) xs) (\<lambda>_ s. I s \<and> (\<forall>x \<in> set xs. P x)) E"
proof (induction xs)
  case Nil
  then show ?case by (simp add: triple_return)
next
  case (Cons x xs)
  have "triple I (guardM (P x) (e x)) (\<lambda>_ s. I s \<and> P x) E"
    using Cons.prems by (intro triple_guard) simp_all
  moreover have "triple (\<lambda>s. I s \<and> P x) (eachM (\<lambda>x. guardM (P x) (e x)) xs)
      (\<lambda>_ s. I s \<and> (\<forall>y \<in> set (x # xs). P y)) E"
    using Cons by (intro triple_assume triple_weaken [OF Cons.IH]) auto
  ultimately show ?case by (auto intro: triple_bind)
qed

lemma bindM_returnM [simp]: "bindM (returnM x) f = f x"
  by (simp add: bindM_def returnM_def)

lemma bindM_result:
  "bindM m f s = (Inr y, s'') \<longleftrightarrow> (\<exists>x s'. m s = (Inr x, s') \<and> f x s' = (Inr y, s''))"
  by (auto simp: bindM_def split: prod.splits sum.splits)

lemma result_simps [simp]:
  "returnM x s = (Inr y, s') \<longleftrightarrow> x = y \<and> s' = s"
  "failM e s \<noteq> (Inr y, s')"
  "getM f s = (Inr y, s') \<longleftrightarrow> y = f s \<and> s' = s"
  "guardM ok e s = (Inr u, s') \<longleftrightarrow> ok \<and> s' = s"
  "liftM r s = (Inr y, s') \<longleftrightarrow> r = Inr y \<and> s' = s"
  by (auto simp: returnM_def failM_def getM_def guardM_def liftM_def)


lemma bindM_step: "m s = (Inr x, s') \<Longrightarrow> bindM m f s = f x s'"
  "m s = (Inl e, s') \<Longrightarrow> bindM m f s = (Inl e, s')"
  by (simp_all add: bindM_def)

lemma attempt_total: "\<exists>v. attempt m s = (Inr v, snd (m s))"
  by (cases "m s"; cases "fst (m s)") (auto simp: attempt_def)

lemma attempt_cases: obtains v s' where "attempt m s = (Inr v, s')"
  using attempt_total [of m s] by blast

section \<open>Parts of the state a function leaves alone\<close>

text \<open>\<open>keeps f m\<close>: on success and on error, \<open>m\<close> does not change what \<open>f\<close> sees of the state.\<close>

definition keeps :: "('s \<Rightarrow> 'v) \<Rightarrow> ('s, 'e, 'a) comp \<Rightarrow> bool" where
  "keeps f m \<longleftrightarrow> (\<forall>s. f (snd (m s)) = f s)"

named_theorems keeping \<open>rules for \<open>keeps\<close>\<close>

lemma keepsD: "keeps f m \<Longrightarrow> f (snd (m s)) = f s"
  by (simp add: keeps_def)

lemma keeps_result: "keeps f m \<Longrightarrow> m s = (r, s') \<Longrightarrow> f s' = f s"
  by (metis keepsD snd_conv)

lemma keeps_basic [keeping]:
  "keeps f (returnM x)" "keeps f (failM e)" "keeps f (getM g)" "keeps f (guardM ok e)" "keeps f (liftM r)"
  by (simp_all add: keeps_def returnM_def failM_def getM_def guardM_def liftM_def)

lemma keeps_modify: "(\<And>s. f (g s) = f s) \<Longrightarrow> keeps f (modifyM g)"
  by (simp add: keeps_def modifyM_def)

lemma keeps_bind [keeping]: "keeps f m \<Longrightarrow> (\<And>x. keeps f (g x)) \<Longrightarrow> keeps f (bindM m g)"
  by (auto simp: keeps_def bindM_def split: prod.splits sum.splits) (metis snd_conv)+

lemma keeps_bind_result:
  assumes "keeps f m" and "\<And>s x s'. m s = (Inr x, s') \<Longrightarrow> keeps f (g x)"
  shows "keeps f (bindM m g)"
  unfolding keeps_def
proof
  fix s
  show "f (snd (bindM m g s)) = f s"
  proof (cases "m s")
    case (Pair r s')
    then have s': "f s' = f s" using keeps_result [OF assms(1)] by blast
    show ?thesis
    proof (cases r)
      case (Inl e)
      then show ?thesis using Pair s' by (simp add: bindM_def)
    next
      case (Inr x)
      then have "f (snd (g x s')) = f s'" using assms(2) Pair by (blast intro: keepsD)
      then show ?thesis using Pair s' Inr by (simp add: bindM_def)
    qed
  qed
qed

lemma keeps_attempt [keeping]: "keeps f m \<Longrightarrow> keeps f (attempt m)"
  by (auto simp: keeps_def attempt_def split: prod.splits sum.splits) (metis snd_conv)+

lemma keeps_mapErr [keeping]: "keeps f m \<Longrightarrow> keeps f (mapErrM h m)"
  by (auto simp: keeps_def mapErrM_def split: prod.splits sum.splits) (metis snd_conv)+

lemma keeps_if [keeping]: "(b \<Longrightarrow> keeps f m) \<Longrightarrow> (\<not> b \<Longrightarrow> keeps f n) \<Longrightarrow> keeps f (if b then m else n)"
  by simp

lemma keeps_each [keeping]: "(\<And>x. keeps f (g x)) \<Longrightarrow> keeps f (eachM g xs)"
  by (induction xs) (auto intro: keeping)

text \<open>What is a function of a kept part is kept.\<close>

lemma keeps_part: "keeps f m \<Longrightarrow> (\<And>s. g s = h (f s)) \<Longrightarrow> keeps g m"
  by (simp add: keeps_def)

section \<open>Errors a function does not return\<close>

definition avoids :: "('e \<Rightarrow> bool) \<Rightarrow> ('s, 'e, 'a) comp \<Rightarrow> bool" where
  "avoids P m \<longleftrightarrow> (\<forall>s e s'. m s = (Inl e, s') \<longrightarrow> \<not> P e)"

named_theorems avoiding \<open>rules for \<open>avoids\<close>\<close>

lemma avoidsD: "avoids P m \<Longrightarrow> m s = (Inl e, s') \<Longrightarrow> \<not> P e"
  unfolding avoids_def by blast

lemma avoids_basic [avoiding]:
  "avoids P (returnM x)" "avoids P (getM g)" "avoids P (modifyM h)" "avoids P (attempt m)"
  by (auto simp: avoids_def returnM_def getM_def modifyM_def attempt_def split: prod.splits sum.splits)

lemma avoids_fail [avoiding]: "\<not> P e \<Longrightarrow> avoids P (failM e)" "\<not> P e \<Longrightarrow> avoids P (guardM ok e)"
  by (auto simp: avoids_def failM_def guardM_def returnM_def)

lemma avoids_bind [avoiding]: "avoids P m \<Longrightarrow> (\<And>x. avoids P (g x)) \<Longrightarrow> avoids P (bindM m g)"
  by (auto simp: avoids_def bindM_def split: prod.splits sum.splits)

lemma avoids_if [avoiding]: "(b \<Longrightarrow> avoids P m) \<Longrightarrow> (\<not> b \<Longrightarrow> avoids P n) \<Longrightarrow> avoids P (if b then m else n)"
  by simp

lemma avoids_each [avoiding]: "(\<And>x. avoids P (g x)) \<Longrightarrow> avoids P (eachM g xs)"
  by (induction xs) (auto intro: avoiding)

lemma attempt_some: "attempt m s = (Inr (Some e), s') \<longleftrightarrow> m s = (Inl e, s')"
  by (auto simp: attempt_def split: prod.splits sum.splits)

lemma attempt_none: "attempt m s = (Inr None, s') \<longleftrightarrow> (\<exists>x. m s = (Inr x, s'))"
  by (auto simp: attempt_def split: prod.splits sum.splits)


section \<open>Running a function on a concrete state\<close>

text \<open>
  Evaluation by rewriting: only the state is simplified before a step is made, so a
  continuation is looked at once its argument is known.
\<close>

lemma run_cong: "s = t \<Longrightarrow> bindM m f s = bindM m f t"
  by simp

lemma running:
  "bindM m f s = (case m s of (Inl e, t) \<Rightarrow> (Inl e, t) | (Inr x, t) \<Rightarrow> f x t)"
  "returnM x s = (Inr x, s)"
  "failM e s = (Inl e, s)"
  "getM g s = (Inr (g s), s)"
  "modifyM h s = (Inr (), h s)"
  "guardM ok e s = (if ok then (Inr (), s) else (Inl e, s))"
  "attempt n s = (case n s of (Inl e, t) \<Rightarrow> (Inr (Some e), t) | (Inr x, t) \<Rightarrow> (Inr None, t))"
  "mapErrM k n s = (case n s of (Inl e, t) \<Rightarrow> (Inl (k e), t) | (Inr x, t) \<Rightarrow> (Inr x, t))"
  by (simp_all add: bindM_def returnM_def failM_def getM_def modifyM_def guardM_def attempt_def mapErrM_def)

end
