(* ===== verification/Change_Saga.thy ===== *)
theory Change_Saga
  imports Go_Effects
begin

text \<open>
  The recoverable change saga (\<^verbatim>\<open>internal/change/saga.go\<close>, with the Git observations of
  \<^verbatim>\<open>candidate.go\<close> it uses): prepared commits in several repositories are advanced
  locally, then pushed, and every step is recorded in an append-only journal.

  Git, the file system, URL parsing and hashing are the services of the record
  \<open>services\<close>: functions of an opaque world, about which nothing is assumed. The journal
  file is modelled: its decoded lines and whether it ends in a partial line. An append
  may succeed, fail after the line is in the file, leave part of a line, or write
  nothing. \<open>run_trace\<close> is a ghost: it records every Git command with the journal as it
  stood, and every journal write.

  \<open>begin_saga\<close>, \<open>recover\<close> and \<open>recover_exact\<close> leave the saga they return in \<open>run_saga\<close>.
\<close>

section \<open>Data\<close>

record candidate =
  cand_resource :: string
  cand_repository :: string
  cand_branch :: string
  cand_remote :: string
  cand_remote_url :: string
  cand_change :: string
  cand_request_digest :: string
  cand_status_digest :: string
  cand_start_head :: string
  cand_start_tree :: string
  cand_start_remote :: string
  cand_tree :: string
  cand_commit :: string
  cand_message :: string

record change_request =
  rq_resource :: string
  rq_repository :: string
  rq_branch :: string
  rq_remote :: string
  rq_change :: string
  rq_title :: string
  rq_description :: string
  rq_paths :: "string list"
  rq_hunks :: "string list"
  rq_deleted :: "string list"
  rq_policy :: string
  rq_reject :: "(string \<Rightarrow> bool) option"

record journal_event =
  je_kind :: string
  je_change :: string
  je_candidates :: "candidate list"
  je_resource :: string
  je_commit :: string

datatype jline = Line journal_event | Malformed

datatype append_outcome = Appended | Unconfirmed | Torn | Refused

datatype effect =
    GitCall string "string list" "jline list"
  | JournalWrite journal_event append_outcome

record saga =
  sg_candidates :: "candidate list"
  sg_local_intent :: "string set"
  sg_local :: "string set"
  sg_push_intent :: "string set"
  sg_pushed :: "string set"
  sg_complete :: bool

record 'w run =
  run_world :: 'w
  run_exists :: bool
  run_lines :: "jline list"
  run_torn :: bool
  run_trace :: "effect list"
  run_saga :: saga

text \<open>
  Errors keep what failed and the name the message quotes; a failed push wraps its cause,
  as \<^verbatim>\<open>PartialPushError\<close> does.
\<close>

datatype saga_error =
    GitFailed "string list"
  | FileStep string
  | AppendFailed
  | ObserveError string string
  | JournalError string
  | CandidateError string string
  | AdvanceError string string
  | PushError string
  | PartialPush string saga_error
  | DurableError string string
  | RequestError string string
  | CountError nat nat

text \<open>The anonymous struct that \<^verbatim>\<open>requestDigest\<close> encodes.\<close>

record request_identity =
  ri_resource :: string
  ri_repository :: string
  ri_branch :: string
  ri_remote :: string
  ri_change :: string
  ri_title :: string
  ri_description :: string
  ri_policy :: string
  ri_paths :: "string list"
  ri_hunks :: "string list"
  ri_deleted :: "string list"

record 'w services =
  sv_git :: "string list \<Rightarrow> string \<Rightarrow> string list \<Rightarrow> string \<Rightarrow> 'w \<Rightarrow> string option \<times> 'w"
  sv_append :: "journal_event \<Rightarrow> 'w \<Rightarrow> append_outcome \<times> 'w"
  sv_file :: "string \<Rightarrow> 'w \<Rightarrow> bool \<times> 'w"
  sv_abs :: "string \<Rightarrow> 'w \<Rightarrow> string option"
  sv_resolve :: "string \<Rightarrow> 'w \<Rightarrow> string option"
  sv_url_has_user :: "string \<Rightarrow> bool option"
  sv_sha256 :: "string \<Rightarrow> string"
  sv_digest :: "request_identity \<Rightarrow> string"

type_synonym ('w, 'a) saga_comp = "('w run, saga_error, 'a) comp"

section \<open>Git observations\<close>

definition git_run ::
    "'w services \<Rightarrow> string list \<Rightarrow> string \<Rightarrow> string list \<Rightarrow> string \<Rightarrow> ('w, string) saga_comp" where
  "git_run SV env root args input = (\<lambda>s.
     case sv_git SV env root args input (run_world s) of (r, w) \<Rightarrow>
       (case r of None \<Rightarrow> Inl (GitFailed args) | Some out \<Rightarrow> Inr out,
        s\<lparr>run_world := w, run_trace := run_trace s @ [GitCall root args (run_lines s)]\<rparr>))"

definition git_out :: "'w services \<Rightarrow> string \<Rightarrow> string list \<Rightarrow> ('w, string) saga_comp" where
  "git_out SV root args = git_run SV [] root args []"

definition git_text :: "'w services \<Rightarrow> string \<Rightarrow> string list \<Rightarrow> ('w, string) saga_comp" where
  "git_text SV root args = bindM (git_out SV root args) (\<lambda>out. returnM (trim_space out))"

definition resolve_path :: "'w services \<Rightarrow> string \<Rightarrow> ('w, string) saga_comp" where
  "resolve_path SV p = (\<lambda>s.
     (case sv_resolve SV p (run_world s) of None \<Rightarrow> Inl (ObserveError ''path not resolved'' p) | Some q \<Rightarrow> Inr q, s))"

definition repository_root :: "'w services \<Rightarrow> string \<Rightarrow> ('w, string) saga_comp" where
  "repository_root SV designation =
     bindM (\<lambda>s. (case sv_abs SV designation (run_world s) of
                   None \<Rightarrow> Inl (ObserveError ''path not resolved'' designation) | Some a \<Rightarrow> Inr a, s)) (\<lambda>abs.
     bindM (git_text SV abs [''rev-parse'', ''--show-toplevel'']) (\<lambda>root.
     bindM (resolve_path SV root) (\<lambda>resolved_root.
     bindM (resolve_path SV abs) (\<lambda>resolved_input.
     bindM (guardM (resolved_root = resolved_input) (ObserveError ''not the canonical root'' designation)) (\<lambda>_.
     returnM resolved_root)))))"

definition remote_head ::
    "'w services \<Rightarrow> string \<Rightarrow> string \<Rightarrow> string \<Rightarrow> ('w, string) saga_comp" where
  "remote_head SV root remote branch =
     bindM (git_out SV root [''ls-remote'', ''--heads'', remote, ''refs/heads/'' @ branch]) (\<lambda>out.
       case words_of out of
         [] \<Rightarrow> returnM []
       | [commit, ref] \<Rightarrow> returnM commit
       | _ \<Rightarrow> failM (ObserveError ''unexpected ls-remote response'' branch))"

definition observe_remote_url :: "'w services \<Rightarrow> string \<Rightarrow> string \<Rightarrow> ('w, string) saga_comp" where
  "observe_remote_url SV root remote =
     bindM (git_out SV root [''remote'', ''get-url'', ''--push'', ''--all'', remote]) (\<lambda>out.
       case words_of out of
         [url] \<Rightarrow>
           (case sv_url_has_user SV url of
              None \<Rightarrow> failM (ObserveError ''unparsable push URL'' remote)
            | Some user \<Rightarrow> if user then failM (ObserveError ''push URL with credentials'' remote) else returnM url)
       | _ \<Rightarrow> failM (ObserveError ''not exactly one push URL'' remote))"

section \<open>Messages and requests\<close>

fun replace_crlf :: "string \<Rightarrow> string" where
  "replace_crlf (c # d # cs) =
     (if c = CHR 0x0D \<and> d = CHR 0x0A then CHR 0x0A # replace_crlf cs
      else c # replace_crlf (d # cs))"
| "replace_crlf cs = cs"

fun count_trailers :: "string \<Rightarrow> string list \<Rightarrow> nat option" where
  "count_trailers expected [] = Some 0"
| "count_trailers expected (line # lines) =
     (if has_prefix line ''Workbench-Change-Id:''
      then (if line \<noteq> expected then None
            else map_option Suc (count_trailers expected lines))
      else count_trailers expected lines)"

definition has_exact_change_trailer :: "string \<Rightarrow> string \<Rightarrow> bool" where
  "has_exact_change_trailer message expected =
     (count_trailers expected (split_on CHR 0x0A (replace_crlf message)) = Some 1)"

definition render_message :: "change_request \<Rightarrow> string" where
  "render_message r =
     (let parts = [rq_title r] @
            (if trim_space (rq_description r) \<noteq> [] then [trim_space (rq_description r)] else []) @
            [''Workbench-Change-Id: '' @ rq_change r]
      in join [CHR 0x0A, CHR 0x0A] parts @ [CHR 0x0A])"

text \<open>The loop ranges over a Go map: the order of the labels, so the error, may differ.\<close>

definition check_label :: "string \<times> string \<Rightarrow> saga_error + unit" where
  "check_label = (\<lambda>(label, v).
     if blank v then Inl (RequestError label ''is required'')
     else if list_ex (\<lambda>c. c \<in> {CHR 0x00, CHR 0x0D, CHR 0x0A}) v
     then Inl (RequestError label ''contains a forbidden line break'')
     else Inr ())"

definition validate_request :: "change_request \<Rightarrow> saga_error + unit" where
  "validate_request r =
     (case first_error check_label
        [(''resource identity'', rq_resource r), (''repository'', rq_repository r),
         (''branch'', rq_branch r), (''remote'', rq_remote r),
         (''change identifier'', rq_change r), (''title'', rq_title r)] of
        Inl e \<Rightarrow> Inl e
      | Inr _ \<Rightarrow>
          if has_prefix (rq_remote r) ''-''
          then Inl (RequestError ''remote'' ''must not begin with an option prefix'')
          else if (rq_reject r = None) \<noteq> (rq_policy r = [])
          then Inl (RequestError ''policy'' ''must be supplied together'')
          else Inr ())"

definition request_identity_of :: "change_request \<Rightarrow> string \<Rightarrow> request_identity" where
  "request_identity_of r root =
     \<lparr>ri_resource = rq_resource r, ri_repository = root, ri_branch = rq_branch r,
      ri_remote = rq_remote r, ri_change = rq_change r, ri_title = rq_title r,
      ri_description = rq_description r, ri_policy = rq_policy r, ri_paths = sort (rq_paths r),
      ri_hunks = sort (rq_hunks r), ri_deleted = sort (rq_deleted r)\<rparr>"

definition request_digest :: "'w services \<Rightarrow> change_request \<Rightarrow> string \<Rightarrow> string" where
  "request_digest SV r root = sv_digest SV (request_identity_of r root)"

section \<open>Candidates\<close>

definition candidate_incomplete :: "candidate \<Rightarrow> bool" where
  "candidate_incomplete c \<longleftrightarrow>
     cand_resource c = [] \<or> cand_repository c = [] \<or> cand_branch c = [] \<or> cand_remote c = [] \<or>
     cand_remote_url c = [] \<or> cand_commit c = [] \<or> cand_request_digest c = [] \<or>
     cand_status_digest c = []"

definition check_candidate ::
    "'w services \<Rightarrow> string \<Rightarrow> string set \<Rightarrow> candidate \<Rightarrow> ('w, unit) saga_comp" where
  "check_candidate SV change seen c =
     bindM (guardM (\<not> candidate_incomplete c) (CandidateError ''incomplete'' [])) (\<lambda>_.
     bindM (guardM (cand_change c = change) (CandidateError ''mixed change identifiers'' [])) (\<lambda>_.
     bindM (guardM (cand_resource c \<notin> seen) (CandidateError ''appears more than once'' (cand_resource c))) (\<lambda>_.
     bindM (repository_root SV (cand_repository c)) (\<lambda>root.
     bindM (guardM (root = cand_repository c) (CandidateError ''not canonical'' (cand_repository c))) (\<lambda>_.
     bindM (git_text SV root [''show'', ''-s'', ''--format=%P'', cand_commit c]) (\<lambda>parent.
     bindM (guardM (parent = cand_start_head c) (CandidateError ''wrong parent'' (cand_resource c))) (\<lambda>_.
     bindM (git_text SV root [''show'', ''-s'', ''--format=%T'', cand_commit c]) (\<lambda>tree.
     bindM (guardM (tree = cand_tree c) (CandidateError ''wrong tree'' (cand_resource c))) (\<lambda>_.
     bindM (git_out SV root [''show'', ''-s'', ''--format=%B'', cand_commit c]) (\<lambda>message.
     bindM (guardM (trim_right CHR 0x0A message = trim_right CHR 0x0A (cand_message c))
              (CandidateError ''wrong message'' (cand_resource c))) (\<lambda>_.
     guardM (has_exact_change_trailer (cand_message c) (''Workbench-Change-Id: '' @ cand_change c))
       (CandidateError ''wrong trailer'' (cand_resource c)))))))))))))"

fun check_candidates ::
    "'w services \<Rightarrow> string \<Rightarrow> string set \<Rightarrow> candidate list \<Rightarrow> ('w, unit) saga_comp" where
  "check_candidates SV change seen [] = returnM ()"
| "check_candidates SV change seen (c # cs) =
     bindM (check_candidate SV change seen c) (\<lambda>_.
       check_candidates SV change (insert (cand_resource c) seen) cs)"

definition validate_candidates :: "'w services \<Rightarrow> candidate list \<Rightarrow> ('w, unit) saga_comp" where
  "validate_candidates SV cs =
     (if cs = [] then failM (CandidateError ''no repositories'' [])
      else check_candidates SV (cand_change (hd cs)) {} cs)"

section \<open>The journal\<close>

definition write_line :: "journal_event \<Rightarrow> 'w run \<Rightarrow> 'w run" where
  "write_line e s =
     s\<lparr>run_lines := run_lines s @ [if run_torn s then Malformed else Line e], run_torn := False\<rparr>"

definition append_event :: "'w services \<Rightarrow> journal_event \<Rightarrow> ('w, unit) saga_comp" where
  "append_event SV e = (\<lambda>s.
     case sv_append SV e (run_world s) of (outcome, w) \<Rightarrow>
       let s1 = s\<lparr>run_world := w, run_trace := run_trace s @ [JournalWrite e outcome]\<rparr> in
       (case outcome of
          Appended \<Rightarrow> (Inr (), write_line e s1)
        | Unconfirmed \<Rightarrow> (Inl AppendFailed, write_line e s1)
        | Torn \<Rightarrow> (Inl AppendFailed, s1\<lparr>run_torn := True\<rparr>)
        | Refused \<Rightarrow> (Inl AppendFailed, s1)))"

definition file_step :: "'w services \<Rightarrow> string \<Rightarrow> ('w, unit) saga_comp" where
  "file_step SV what = (\<lambda>s.
     case sv_file SV what (run_world s) of (ok, w) \<Rightarrow>
       (if ok then Inr () else Inl (FileStep what), s\<lparr>run_world := w\<rparr>))"

definition new_saga :: "candidate list \<Rightarrow> saga" where
  "new_saga cs = \<lparr>sg_candidates = cs, sg_local_intent = {}, sg_local = {},
     sg_push_intent = {}, sg_pushed = {}, sg_complete = False\<rparr>"

text \<open>The map \<^verbatim>\<open>known\<close>: a later candidate of the same resource overwrites.\<close>

definition known_commits :: "candidate list \<Rightarrow> string \<rightharpoonup> string" where
  "known_commits cs = map_of (rev (map (\<lambda>c. (cand_resource c, cand_commit c)) cs))"

definition mark_local_intent :: "string \<Rightarrow> saga \<Rightarrow> saga" where
  "mark_local_intent r g = g\<lparr>sg_local_intent := insert r (sg_local_intent g)\<rparr>"

definition mark_local :: "string \<Rightarrow> saga \<Rightarrow> saga" where
  "mark_local r g = g\<lparr>sg_local := insert r (sg_local g)\<rparr>"

definition mark_push_intent :: "string \<Rightarrow> saga \<Rightarrow> saga" where
  "mark_push_intent r g = g\<lparr>sg_push_intent := insert r (sg_push_intent g)\<rparr>"

definition mark_pushed :: "string \<Rightarrow> saga \<Rightarrow> saga" where
  "mark_pushed r g = g\<lparr>sg_pushed := insert r (sg_pushed g)\<rparr>"

text \<open>One iteration of the replay loop; \<open>final\<close> says that the event is the last one.\<close>

definition replay_event :: "saga \<Rightarrow> bool \<Rightarrow> journal_event \<Rightarrow> saga_error + saga" where
  "replay_event g final e =
     (if je_change e \<noteq> [] \<or> je_candidates e \<noteq> [] then Inl (JournalError ''event carries foreign fields'')
      else let r = je_resource e;
               names = (known_commits (sg_candidates g) r = Some (je_commit e))
        in if je_kind e = ''local-intent''
           then (if \<not> names then Inl (JournalError ''local intent names no prepared commit'')
                 else if r \<in> sg_local_intent g \<or> r \<in> sg_local g \<or> r \<in> sg_push_intent g \<or>
                         r \<in> sg_pushed g
                 then Inl (JournalError ''local intent out of order'')
                 else Inr (mark_local_intent r g))
           else if je_kind e = ''local-advanced''
           then (if \<not> names \<or> r \<notin> sg_local_intent g \<or> r \<in> sg_local g then Inl (JournalError ''local advancement names no prepared commit'')
                 else Inr (mark_local r g))
           else if je_kind e = ''push-intent''
           then (if \<not> names \<or> r \<notin> sg_local g \<or> r \<in> sg_push_intent g \<or> r \<in> sg_pushed g
                 then Inl (JournalError ''push intent out of order'')
                 else Inr (mark_push_intent r g))
           else if je_kind e = ''push-observed''
           then (if \<not> names \<or> r \<notin> sg_push_intent g \<or> r \<in> sg_pushed g
                 then Inl (JournalError ''push observation names no prepared commit'')
                 else Inr (mark_pushed r g))
           else if je_kind e = ''completed''
           then (if r \<noteq> [] \<or> je_commit e \<noteq> [] \<or> sg_complete g \<or> \<not> final then Inl (JournalError ''completion out of order'')
                 else if \<exists>c \<in> set (sg_candidates g).
                           cand_resource c \<notin> sg_local g \<or> cand_resource c \<notin> sg_pushed g
                 then Inl (JournalError ''completion misses progress'')
                 else Inr (g\<lparr>sg_complete := True\<rparr>))
           else Inl (JournalError ''unknown event kind''))"

definition replay_events :: "saga \<Rightarrow> journal_event list \<Rightarrow> saga_error + saga" where
  "replay_events g es = replay_log replay_event g es"

fun decode_journal :: "jline list \<Rightarrow> bool \<Rightarrow> saga_error + journal_event list" where
  "decode_journal [] torn = (if torn then Inl (JournalError ''partial event'') else Inr [])"
| "decode_journal (Malformed # ls) torn = Inl (JournalError ''undecodable event'')"
| "decode_journal (Line e # ls) torn =
     (case decode_journal ls torn of Inl err \<Rightarrow> Inl err | Inr es \<Rightarrow> Inr (e # es))"

section \<open>Observing what is durable\<close>

definition verify_local :: "'w services \<Rightarrow> candidate \<Rightarrow> ('w, unit) saga_comp" where
  "verify_local SV c =
     bindM (getM run_saga) (\<lambda>g.
     if cand_resource c \<notin> sg_local g then returnM ()
     else bindM (git_text SV (cand_repository c) [''branch'', ''--show-current'']) (\<lambda>branch.
          bindM (git_text SV (cand_repository c) [''rev-parse'', ''HEAD'']) (\<lambda>head.
          bindM (git_text SV (cand_repository c) [''write-tree'']) (\<lambda>index.
          guardM (branch = cand_branch c \<and> head = cand_commit c \<and> index = cand_tree c)
            (DurableError ''local advancement not present'' (cand_resource c))))))"

definition verify_durable_locals :: "'w services \<Rightarrow> ('w, unit) saga_comp" where
  "verify_durable_locals SV =
     bindM (getM run_saga) (\<lambda>g. eachM (verify_local SV) (sg_candidates g))"

definition verify_push :: "'w services \<Rightarrow> candidate \<Rightarrow> ('w, unit) saga_comp" where
  "verify_push SV c =
     bindM (getM run_saga) (\<lambda>g.
     if cand_resource c \<notin> sg_pushed g then returnM ()
     else bindM (observe_remote_url SV (cand_repository c) (cand_remote c)) (\<lambda>url.
          bindM (guardM (url = cand_remote_url c) (DurableError ''push remote changed'' (cand_resource c))) (\<lambda>_.
          bindM (remote_head SV (cand_repository c) (cand_remote c) (cand_branch c)) (\<lambda>remote.
          guardM (remote = cand_commit c) (DurableError ''push no longer present'' (cand_resource c))))))"

definition verify_durable_pushes :: "'w services \<Rightarrow> ('w, unit) saga_comp" where
  "verify_durable_pushes SV =
     bindM (getM run_saga) (\<lambda>g. eachM (verify_push SV) (sg_candidates g))"

definition progress :: "'w services \<Rightarrow> ('w, (string \<times> bool \<times> bool) list \<times> bool) saga_comp" where
  "progress SV =
     bindM (verify_durable_locals SV) (\<lambda>_.
     bindM (verify_durable_pushes SV) (\<lambda>_.
     getM (\<lambda>s. let g = run_saga s in
       (map (\<lambda>c. (cand_resource c, cand_resource c \<in> sg_local g, cand_resource c \<in> sg_pushed g))
          (sg_candidates g), sg_complete g))))"

section \<open>Recover and Begin\<close>

definition put_saga :: "saga \<Rightarrow> ('w, unit) saga_comp" where
  "put_saga g = modifyM (\<lambda>s. s\<lparr>run_saga := g\<rparr>)"

definition creation_exact :: "journal_event \<Rightarrow> bool" where
  "creation_exact e \<longleftrightarrow>
     je_change e = cand_change (hd (je_candidates e)) \<and> je_resource e = [] \<and> je_commit e = []"

definition recover :: "'w services \<Rightarrow> ('w, unit) saga_comp" where
  "recover SV =
     bindM (getM run_exists) (\<lambda>exists.
     bindM (guardM exists (FileStep ''open'')) (\<lambda>_.
     bindM (file_step SV ''open'') (\<lambda>_.
     bindM (file_step SV ''read'') (\<lambda>_.
     bindM (getM (\<lambda>s. decode_journal (run_lines s) (run_torn s))) (\<lambda>decoded.
     bindM (liftM decoded) (\<lambda>events.
     case events of
       [] \<Rightarrow> failM (JournalError ''no durable creation event'')
     | e # es \<Rightarrow>
         bindM (guardM (je_kind e = ''created'') (JournalError ''no durable creation event'')) (\<lambda>_.
         bindM (validate_candidates SV (je_candidates e)) (\<lambda>_.
         bindM (guardM (creation_exact e) (JournalError ''creation event mismatch'')) (\<lambda>_.
         bindM (liftM (replay_events (new_saga (je_candidates e)) es)) (\<lambda>g.
         bindM (put_saga g) (\<lambda>_.
         bindM (verify_durable_locals SV) (\<lambda>_.
         verify_durable_pushes SV))))))))))))"

definition creation_event :: "candidate list \<Rightarrow> journal_event" where
  "creation_event cs = \<lparr>je_kind = ''created'', je_change = cand_change (hd cs),
     je_candidates = cs, je_resource = [], je_commit = []\<rparr>"

definition begin_saga :: "'w services \<Rightarrow> candidate list \<Rightarrow> ('w, unit) saga_comp" where
  "begin_saga SV cs =
     bindM (validate_candidates SV cs) (\<lambda>_.
     bindM (file_step SV ''stat'') (\<lambda>_.
     bindM (getM (\<lambda>s. (run_exists s, run_lines s = [] \<and> \<not> run_torn s))) (\<lambda>(exists, empty).
     if exists
     then bindM (guardM (\<not> empty) (JournalError ''no durable creation event in existing journal'')) (\<lambda>_.
          bindM (recover SV) (\<lambda>_.
          bindM (getM run_saga) (\<lambda>g.
          guardM (sg_candidates g = cs) (JournalError ''different prepared change set''))))
     else bindM (file_step SV ''mkdir'') (\<lambda>_.
          bindM (file_step SV ''create'') (\<lambda>_.
          bindM (modifyM (\<lambda>s. s\<lparr>run_exists := True, run_lines := [], run_torn := False\<rparr>)) (\<lambda>_.
          bindM (append_event SV (creation_event cs)) (\<lambda>_.
          bindM (file_step SV ''sync directory'') (\<lambda>_.
          put_saga (new_saga cs)))))))))"

definition candidate_for :: "candidate list \<Rightarrow> string \<Rightarrow> candidate option" where
  "candidate_for cs = map_of (rev (map (\<lambda>c. (cand_resource c, c)) cs))"

definition match_request ::
    "'w services \<Rightarrow> candidate list \<Rightarrow> string set \<Rightarrow> change_request \<Rightarrow> ('w, unit) saga_comp" where
  "match_request SV cs seen r =
     bindM (liftM (validate_request r)) (\<lambda>_.
     bindM (guardM (rq_resource r \<notin> seen) (RequestError ''repeated resource'' (rq_resource r))) (\<lambda>_.
     case candidate_for cs (rq_resource r) of
       None \<Rightarrow> failM (RequestError ''unexpected resource'' (rq_resource r))
     | Some c \<Rightarrow>
         bindM (repository_root SV (rq_repository r)) (\<lambda>root.
         bindM (guardM (request_digest SV r root = cand_request_digest c)
                  (RequestError ''differs from its candidate'' (rq_resource r))) (\<lambda>_.
         bindM (observe_remote_url SV root (rq_remote r)) (\<lambda>url.
         guardM (root = cand_repository c \<and> rq_branch r = cand_branch c \<and>
                 rq_remote r = cand_remote c \<and> rq_change r = cand_change c \<and>
                 url = cand_remote_url c)
           (RequestError ''repository authority differs'' (rq_resource r)))))))"

fun match_requests ::
    "'w services \<Rightarrow> candidate list \<Rightarrow> string set \<Rightarrow> change_request list
       \<Rightarrow> ('w, string set) saga_comp" where
  "match_requests SV cs seen [] = returnM seen"
| "match_requests SV cs seen (r # rs) =
     bindM (match_request SV cs seen r) (\<lambda>_.
       match_requests SV cs (insert (rq_resource r) seen) rs)"

definition recover_exact :: "'w services \<Rightarrow> change_request list \<Rightarrow> ('w, unit) saga_comp" where
  "recover_exact SV rs =
     bindM (recover SV) (\<lambda>_.
     bindM (getM run_saga) (\<lambda>g.
     bindM (guardM (length rs = length (sg_candidates g))
              (CountError (length rs) (length (sg_candidates g)))) (\<lambda>_.
     bindM (match_requests SV (sg_candidates g) {} rs) (\<lambda>seen.
     eachM (\<lambda>c. guardM (cand_resource c \<in> seen) (RequestError ''omitted resource'' (cand_resource c)))
       (sg_candidates g)))))"

section \<open>AdvanceLocal and Push\<close>

definition step_event :: "string \<Rightarrow> candidate \<Rightarrow> journal_event" where
  "step_event kind c = \<lparr>je_kind = kind, je_change = [], je_candidates = [],
     je_resource = cand_resource c, je_commit = cand_commit c\<rparr>"

text \<open>Append an event, then set the bit it stands for.\<close>

definition record_step ::
    "'w services \<Rightarrow> journal_event \<Rightarrow> (saga \<Rightarrow> saga) \<Rightarrow> ('w, unit) saga_comp" where
  "record_step SV e mark =
     bindM (append_event SV e) (\<lambda>_. modifyM (\<lambda>s. s\<lparr>run_saga := mark (run_saga s)\<rparr>))"

text \<open>The \<^verbatim>\<open>switch\<close> on the observed HEAD.\<close>

definition advance_ref ::
    "'w services \<Rightarrow> candidate \<Rightarrow> string \<Rightarrow> string \<Rightarrow> ('w, unit) saga_comp" where
  "advance_ref SV c head index_tree =
     (if head = cand_start_head c
      then bindM (guardM (index_tree = cand_start_tree c) (AdvanceError ''index changed'' (cand_resource c))) (\<lambda>_.
           bindM (git_out SV (cand_repository c)
                    [''status'', ''--porcelain=v2'', ''-z'', ''--untracked-files=all'']) (\<lambda>status.
           bindM (guardM (sv_sha256 SV status = cand_status_digest c)
                    (AdvanceError ''worktree changed'' (cand_resource c))) (\<lambda>_.
           bindM (git_out SV (cand_repository c)
                    [''update-ref'', ''refs/heads/'' @ cand_branch c, cand_commit c, cand_start_head c])
             (\<lambda>_. returnM ()))))
      else if head = cand_commit c
      then guardM (index_tree = cand_start_tree c \<or> index_tree = cand_tree c)
             (AdvanceError ''index cannot be recovered'' (cand_resource c))
      else failM (AdvanceError ''HEAD changed'' (cand_resource c)))"

definition advance_one :: "'w services \<Rightarrow> candidate \<Rightarrow> ('w, unit) saga_comp" where
  "advance_one SV c =
     bindM (getM run_saga) (\<lambda>g.
     if cand_resource c \<in> sg_local g then returnM ()
     else
     bindM (whenM (cand_resource c \<notin> sg_local_intent g)
              (record_step SV (step_event ''local-intent'' c) (mark_local_intent (cand_resource c)))) (\<lambda>_.
     bindM (git_text SV (cand_repository c) [''rev-parse'', ''HEAD'']) (\<lambda>head.
     bindM (git_text SV (cand_repository c) [''branch'', ''--show-current'']) (\<lambda>branch.
     bindM (guardM (branch = cand_branch c) (AdvanceError ''wrong branch'' (cand_resource c))) (\<lambda>_.
     bindM (git_text SV (cand_repository c) [''write-tree'']) (\<lambda>index_tree.
     bindM (advance_ref SV c head index_tree) (\<lambda>_.
     bindM (whenM (index_tree \<noteq> cand_tree c)
              (bindM (git_out SV (cand_repository c) [''read-tree'', cand_commit c])
                 (\<lambda>_. returnM ()))) (\<lambda>_.
     record_step SV (step_event ''local-advanced'' c) (mark_local (cand_resource c))))))))))"

definition advance_local :: "'w services \<Rightarrow> ('w, unit) saga_comp" where
  "advance_local SV = bindM (getM run_saga) (\<lambda>g. eachM (advance_one SV) (sg_candidates g))"

text \<open>The part between the push intent and the observation.\<close>

definition push_ref :: "'w services \<Rightarrow> candidate \<Rightarrow> ('w, unit) saga_comp" where
  "push_ref SV c =
     mapErrM (PartialPush (cand_resource c))
       (bindM (remote_head SV (cand_repository c) (cand_remote c) (cand_branch c)) (\<lambda>remote.
        whenM (remote \<noteq> cand_commit c)
          (bindM (guardM (remote = cand_start_remote c)
                    (PushError ''remote branch changed'')) (\<lambda>_.
           bindM (git_out SV (cand_repository c)
                    [''push'', cand_remote c, cand_commit c @ '':refs/heads/'' @ cand_branch c]) (\<lambda>_.
           bindM (remote_head SV (cand_repository c) (cand_remote c) (cand_branch c)) (\<lambda>observed.
           guardM (observed = cand_commit c) (PushError ''pushed commit not exposed'')))))))"

definition push_one :: "'w services \<Rightarrow> candidate \<Rightarrow> ('w, unit) saga_comp" where
  "push_one SV c =
     bindM (getM run_saga) (\<lambda>g.
     if cand_resource c \<in> sg_pushed g then returnM ()
     else
     bindM (mapErrM (PartialPush (cand_resource c))
              (bindM (observe_remote_url SV (cand_repository c) (cand_remote c)) (\<lambda>url.
               guardM (url = cand_remote_url c) (PushError ''remote push URL changed'')))) (\<lambda>_.
     bindM (whenM (cand_resource c \<notin> sg_push_intent g)
              (record_step SV (step_event ''push-intent'' c) (mark_push_intent (cand_resource c)))) (\<lambda>_.
     bindM (push_ref SV c) (\<lambda>_.
     record_step SV (step_event ''push-observed'' c) (mark_pushed (cand_resource c))))))"

definition completed_event :: journal_event where
  "completed_event = \<lparr>je_kind = ''completed'', je_change = [], je_candidates = [],
     je_resource = [], je_commit = []\<rparr>"

definition push_saga :: "'w services \<Rightarrow> ('w, unit) saga_comp" where
  "push_saga SV =
     bindM (getM run_saga) (\<lambda>g.
     bindM (eachM (\<lambda>c. guardM (cand_resource c \<in> sg_local g) (AdvanceError ''no durable local commit'' (cand_resource c)))
              (sg_candidates g)) (\<lambda>_.
     bindM (eachM (push_one SV) (sg_candidates g)) (\<lambda>_.
     whenM (\<not> sg_complete g)
       (record_step SV completed_event (\<lambda>g. g\<lparr>sg_complete := True\<rparr>)))))"

end
