(* ===== verification/Change_Recovery.thy ===== *)
theory Change_Recovery
  imports Change_Saga
begin

text \<open>
  What the change saga guarantees. \<open>in_step\<close> ties the saga in memory to the journal: its
  replay is exactly the saga. \<open>write_ahead\<close> is about the ghost trace: every Git command
  that changes a repository was issued with its intent already in the journal, and a
  push with every local advancement there too. Both survive every step; after an error
  the journal is torn or its replay is the saga, at most one event ahead.

  Replay rests on the locale \<open>checked_log\<close>, interpreted as \<open>saga_log\<close>.
\<close>

section \<open>Replay\<close>

definition resources :: "saga \<Rightarrow> string set" where
  "resources g = cand_resource ` set (sg_candidates g)"

text \<open>The order of progress, per resource: intent, local, push intent, pushed, complete.\<close>

definition saga_ok :: "saga \<Rightarrow> bool" where
  "saga_ok g \<longleftrightarrow>
     sg_pushed g \<subseteq> sg_push_intent g \<and> sg_push_intent g \<subseteq> sg_local g \<and>
     sg_local g \<subseteq> sg_local_intent g \<and> sg_local_intent g \<subseteq> resources g \<and>
     (sg_complete g \<longrightarrow> resources g \<subseteq> sg_pushed g)"

lemmas mark_defs = mark_local_intent_def mark_local_def mark_push_intent_def mark_pushed_def

lemma known_commits_resource: "known_commits (sg_candidates g) r = Some k \<Longrightarrow> r \<in> resources g"
  by (auto simp: known_commits_def resources_def dest!: map_of_SomeD)

text \<open>The cases of a replayed event.\<close>

lemma replay_event_cases [consumes 1, case_names intent advanced push_intent pushed completed]:
  assumes "replay_event g final e = Inr t"
  obtains
    (intent) "je_kind e = ''local-intent''" "je_change e = []" "je_candidates e = []"
      "known_commits (sg_candidates g) (je_resource e) = Some (je_commit e)"
      "je_resource e \<notin> sg_local_intent g" "t = mark_local_intent (je_resource e) g"
  | (advanced) "je_kind e = ''local-advanced''" "je_change e = []" "je_candidates e = []"
      "known_commits (sg_candidates g) (je_resource e) = Some (je_commit e)"
      "je_resource e \<in> sg_local_intent g" "je_resource e \<notin> sg_local g"
      "t = mark_local (je_resource e) g"
  | (push_intent) "je_kind e = ''push-intent''" "je_change e = []" "je_candidates e = []"
      "known_commits (sg_candidates g) (je_resource e) = Some (je_commit e)"
      "je_resource e \<in> sg_local g" "t = mark_push_intent (je_resource e) g"
  | (pushed) "je_kind e = ''push-observed''" "je_change e = []" "je_candidates e = []"
      "known_commits (sg_candidates g) (je_resource e) = Some (je_commit e)"
      "je_resource e \<in> sg_push_intent g" "t = mark_pushed (je_resource e) g"
  | (completed) "final" "je_kind e = ''completed''" "\<not> sg_complete g"
      "resources g \<subseteq> sg_pushed g" "t = g\<lparr>sg_complete := True\<rparr>"
  using assms
  by (auto simp: replay_event_def Let_def resources_def split: if_splits)

lemma replay_event_keeps:
  assumes "saga_ok g" and "replay_event g final e = Inr t"
  shows "saga_ok t"
  using assms(2,1)
  by (cases rule: replay_event_cases)
    (auto simp: saga_ok_def mark_defs resources_def dest!: known_commits_resource)

lemma replay_event_candidates: "replay_event g final e = Inr t \<Longrightarrow> sg_candidates t = sg_candidates g"
  by (erule replay_event_cases) (simp_all add: mark_defs)

interpretation saga_log: checked_log replay_event
    "\<lambda>g. saga_ok g \<and> sg_candidates g = cs" sg_complete for cs
proof unfold_locales
  fix s t :: saga and final e
  assume step: "replay_event s final e = Inr t"
  show "saga_ok s \<and> sg_candidates s = cs \<Longrightarrow> saga_ok t \<and> sg_candidates t = cs"
    using step replay_event_keeps replay_event_candidates by blast
  show "sg_complete s \<Longrightarrow> sg_complete t" using step
    by (cases rule: replay_event_cases) (simp_all add: mark_defs)
next
  fix s t :: saga and e
  assume "replay_event s True e = Inr t" "\<not> sg_complete t"
  then show "replay_event s False e = Inr t"
    by (auto simp: replay_event_def Let_def split: if_splits)
qed

lemma saga_ok_new: "saga_ok (new_saga cs)"
  by (simp add: saga_ok_def new_saga_def)

lemma new_saga_candidates [simp]: "sg_candidates (new_saga cs) = cs"
  by (simp add: new_saga_def)

lemma replay_ok: "replay_events (new_saga cs) es = Inr g \<Longrightarrow> saga_ok g \<and> sg_candidates g = cs"
  unfolding replay_events_def
  by (rule saga_log.replay_keeps [of "new_saga cs"]) (simp_all add: saga_ok_new)

lemma known_commits_of:
  "distinct (map cand_resource cs) \<Longrightarrow> c \<in> set cs \<Longrightarrow>
     known_commits cs (cand_resource c) = Some (cand_commit c)"
proof -
  assume dist: "distinct (map cand_resource cs)" and c: "c \<in> set cs"
  have "map fst (map (\<lambda>c. (cand_resource c, cand_commit c)) cs) = map cand_resource cs" by simp
  with dist c show ?thesis
    unfolding known_commits_def by (intro map_of_is_SomeI) (auto simp: rev_map [symmetric] image_iff comp_def)
qed

text \<open>A bit that replay set stands for an event of the log.\<close>

definition names_event :: "string \<Rightarrow> string \<Rightarrow> saga \<Rightarrow> journal_event \<Rightarrow> bool" where
  "names_event kind r g e \<longleftrightarrow>
     je_kind e = kind \<and> je_resource e = r \<and> je_change e = [] \<and> je_candidates e = [] \<and>
     known_commits (sg_candidates g) r = Some (je_commit e)"

lemma names_event_step:
  "names_event kind (cand_resource c) g e \<Longrightarrow> sg_candidates g = cs \<Longrightarrow> c \<in> set cs \<Longrightarrow>
     distinct (map cand_resource cs) \<Longrightarrow> e = step_event kind c"
  using known_commits_of [of cs c] by (cases e) (simp add: names_event_def step_event_def)

lemma bits_stepped:
  assumes "replay_event g f e = Inr t"
  shows "r \<in> sg_local_intent t \<Longrightarrow> r \<in> sg_local_intent g \<or> names_event ''local-intent'' r g e"
    and "r \<in> sg_local t \<Longrightarrow> r \<in> sg_local g \<or> names_event ''local-advanced'' r g e"
    and "r \<in> sg_push_intent t \<Longrightarrow> r \<in> sg_push_intent g \<or> names_event ''push-intent'' r g e"
  using assms by (cases rule: replay_event_cases; simp add: mark_defs names_event_def; blast)+

lemma replayed_bit:
  assumes "replay_events (new_saga cs) es = Inr g" and "c \<in> set cs"
    and "distinct (map cand_resource cs)" and "cand_resource c \<in> bits g"
    and "bits (new_saga cs) = {}"
    and "\<And>g f e t. replay_event g f e = Inr t \<Longrightarrow> cand_resource c \<in> bits t \<Longrightarrow>
      cand_resource c \<in> bits g \<or> names_event kind (cand_resource c) g e"
  shows "step_event kind c \<in> set es"
proof -
  let ?P = "\<lambda>g. sg_candidates g = cs \<longrightarrow> cand_resource c \<in> bits g"
  have "?P (new_saga cs) \<or> (\<exists>e \<in> set es. e = step_event kind c)"
  proof (rule saga_log.replay_events_passed [OF assms(1) [unfolded replay_events_def]])
    fix s f e u
    assume step: "replay_event s f e = Inr u" and "?P u"
    show "?P s \<or> e = step_event kind c"
    proof (cases "sg_candidates s = cs")
      case True
      with step \<open>?P u\<close> have "cand_resource c \<in> bits u" by (simp add: replay_event_candidates)
      with assms(6) [OF step] names_event_step [OF _ True assms(2,3)] show ?thesis by blast
    qed simp
  qed (use assms(4) in simp)
  with assms(5) show ?thesis by simp
qed

lemma replayed_intent:
  assumes "replay_events (new_saga cs) es = Inr g" and "c \<in> set cs"
    and "distinct (map cand_resource cs)"
  shows "cand_resource c \<in> sg_local_intent g \<Longrightarrow> step_event ''local-intent'' c \<in> set es"
    and "cand_resource c \<in> sg_local g \<Longrightarrow> step_event ''local-advanced'' c \<in> set es"
    and "cand_resource c \<in> sg_push_intent g \<Longrightarrow> step_event ''push-intent'' c \<in> set es"
  by (rule replayed_bit [OF assms], assumption, simp add: new_saga_def, rule bits_stepped; assumption)+


section \<open>The journal and the saga in memory\<close>

text \<open>The journal starts with the creation event of \<open>cs\<close> and replays to \<open>g\<close>.\<close>

definition journal_holds :: "candidate list \<Rightarrow> saga \<Rightarrow> 'w run \<Rightarrow> bool" where
  "journal_holds cs g s \<longleftrightarrow>
     run_exists s \<and> \<not> run_torn s \<and> cs \<noteq> [] \<and> distinct (map cand_resource cs) \<and>
     (\<exists>es. run_lines s = map Line (creation_event cs # es) \<and>
           replay_events (new_saga cs) es = Inr g)"

definition mutating :: "string list \<Rightarrow> bool" where
  "mutating args \<longleftrightarrow> args \<noteq> [] \<and> hd args \<in> {''update-ref'', ''read-tree'', ''push''}"

text \<open>
  A command that changes the repository of a candidate was announced in the journal
  lines \<open>ls\<close>; a push also needs every candidate's local advancement there.
\<close>

definition announced :: "candidate list \<Rightarrow> string \<Rightarrow> string list \<Rightarrow> jline list \<Rightarrow> bool" where
  "announced cs root args ls \<longleftrightarrow>
     (\<exists>c \<in> set cs. root = cand_repository c \<and>
        (if hd args = ''push''
         then Line (step_event ''push-intent'' c) \<in> set ls \<and>
              (\<forall>k \<in> set cs. Line (step_event ''local-advanced'' k) \<in> set ls)
         else Line (step_event ''local-intent'' c) \<in> set ls))"

definition write_ahead :: "candidate list \<Rightarrow> 'w run \<Rightarrow> bool" where
  "write_ahead cs s \<longleftrightarrow>
     (\<forall>root args ls. GitCall root args ls \<in> set (run_trace s) \<longrightarrow> mutating args \<longrightarrow>
        announced cs root args ls)"

definition in_step :: "candidate list \<Rightarrow> saga \<Rightarrow> 'w run \<Rightarrow> bool" where
  "in_step cs g s \<longleftrightarrow> run_saga s = g \<and> journal_holds cs g s \<and> write_ahead cs s"

text \<open>
  What holds when an operation stops with an error: the journal ends in a partial line, or
  it replays to the saga in memory or to that saga one event ahead.
\<close>

definition recoverable :: "candidate list \<Rightarrow> 'w run \<Rightarrow> bool" where
  "recoverable cs s \<longleftrightarrow>
     write_ahead cs s \<and>
     (run_torn s \<or>
      (\<exists>g. journal_holds cs g s \<and>
           (g = run_saga s \<or> (\<exists>e. replay_event (run_saga s) True e = Inr g))))"

lemma in_step_recoverable: "in_step cs g s \<Longrightarrow> recoverable cs s"
  by (auto simp: in_step_def recoverable_def)

lemma in_step_ok:
  assumes "in_step cs g s"
  shows "saga_ok g" "sg_candidates g = cs" "distinct (map cand_resource cs)" "run_saga s = g"
  using assms replay_ok by (auto simp: in_step_def journal_holds_def)

lemma in_step_lines:
  assumes "in_step cs g s" and "c \<in> set cs"
  shows "cand_resource c \<in> sg_local_intent g \<Longrightarrow> Line (step_event ''local-intent'' c) \<in> set (run_lines s)"
    and "cand_resource c \<in> sg_local g \<Longrightarrow> Line (step_event ''local-advanced'' c) \<in> set (run_lines s)"
    and "cand_resource c \<in> sg_push_intent g \<Longrightarrow> Line (step_event ''push-intent'' c) \<in> set (run_lines s)"
  using assms replayed_intent [of cs _ g c] by (auto simp: in_step_def journal_holds_def)

subsection \<open>Observations\<close>

text \<open>\<open>stable I\<close>: reading repositories keeps \<open>I\<close>.\<close>

definition stable :: "('w run \<Rightarrow> bool) \<Rightarrow> bool" where
  "stable I \<longleftrightarrow>
     (\<forall>s w root args. I s \<longrightarrow> \<not> mutating args \<longrightarrow>
        I (s\<lparr>run_world := w, run_trace := run_trace s @ [GitCall root args (run_lines s)]\<rparr>)) \<and>
     (\<forall>s w. I s \<longrightarrow> I (s\<lparr>run_world := w\<rparr>))"

definition observes :: "('w, 'a) saga_comp \<Rightarrow> bool" where
  "observes m \<longleftrightarrow> (\<forall>I. stable I \<longrightarrow> triple I m (\<lambda>_. I) I)"

named_theorems observing \<open>operations that only read repositories\<close>

lemma observes_bind [observing]: "observes m \<Longrightarrow> (\<And>x. observes (f x)) \<Longrightarrow> observes (bindM m f)"
  unfolding observes_def by (blast intro: triple_bind)

lemma observes_return [observing]: "observes (returnM x)"
  by (simp add: observes_def triple_return)

lemma observes_fail [observing]: "observes (failM e)"
  by (simp add: observes_def triple_fail)

lemma observes_guard [observing]: "observes (guardM ok e)"
  by (simp add: guardM_def observing)

lemma observes_when [observing]: "observes m \<Longrightarrow> observes (whenM b m)"
  by (simp add: whenM_def observing)

lemma observes_get [observing]: "observes (getM f)"
  by (simp add: observes_def triple_def getM_def)

lemma observes_lift [observing]: "observes (liftM r)"
  by (simp add: observes_def triple_lift)

lemma observes_mapErr [observing]: "observes m \<Longrightarrow> observes (mapErrM f m)"
  by (simp add: observes_def triple_mapErr)

lemma observes_if [observing]: "observes m \<Longrightarrow> observes n \<Longrightarrow> observes (if b then m else n)"
  by simp

lemma observes_each [observing]: "(\<And>x. observes (f x)) \<Longrightarrow> observes (eachM f xs)"
  by (induction xs) (simp_all add: observing)

lemma observes_git_out: "\<not> mutating args \<Longrightarrow> observes (git_out SV root args)"
  by (auto simp: observes_def triple_def git_out_def git_run_def stable_def
      split: prod.splits option.splits)

lemma observes_git_text: "\<not> mutating args \<Longrightarrow> observes (git_text SV root args)"
  unfolding git_text_def by (intro observing observes_git_out)

lemma observes_file_step [observing]: "observes (file_step SV what)"
  by (auto simp: observes_def triple_def file_step_def stable_def split: prod.splits)

lemma observes_resolve [observing]: "observes (resolve_path SV p)"
  by (auto simp: observes_def triple_def resolve_path_def split: option.splits)

lemma observes_repository_root [observing]: "observes (repository_root SV designation)"
proof -
  have "observes (\<lambda>s. (case sv_abs SV designation (run_world s) of
      None \<Rightarrow> Inl (ObserveError ''path not resolved'' designation) | Some a \<Rightarrow> Inr a, s))"
    by (auto simp: observes_def triple_def split: option.splits)
  then show ?thesis
    unfolding repository_root_def
    by (intro observing observes_git_text) (simp_all add: mutating_def)
qed

lemma observes_remote_head [observing]: "observes (remote_head SV root remote branch)"
  unfolding remote_head_def
  by (intro observing observes_git_out)
    (auto simp: mutating_def observing split: list.splits)

lemma observes_remote_url [observing]: "observes (observe_remote_url SV root remote)"
  unfolding observe_remote_url_def
  by (intro observing observes_git_out)
    (auto simp: mutating_def observing split: list.splits option.splits)

lemma observes_verify_local [observing]: "observes (verify_local SV c)"
  unfolding verify_local_def
  by (intro observing observes_git_text) (simp_all add: mutating_def)

lemma observes_verify_push [observing]: "observes (verify_push SV c)"
  unfolding verify_push_def by (intro observing)

lemma observes_verify_durable [observing]:
  "observes (verify_durable_locals SV)" "observes (verify_durable_pushes SV)"
  unfolding verify_durable_locals_def verify_durable_pushes_def by (intro observing)+

lemma observes_check_candidates [observing]: "observes (check_candidates SV change seen cs)"
  unfolding check_candidate_def
  by (induction cs arbitrary: seen; simp add: check_candidate_def)
    (intro observing observes_git_text observes_git_out; simp add: mutating_def)+

lemma observes_validate_candidates [observing]: "observes (validate_candidates SV cs)"
  unfolding validate_candidates_def by (intro observing)

lemma observes_triple: "observes m \<Longrightarrow> stable I \<Longrightarrow> triple I m (\<lambda>_. I) I"
  by (simp add: observes_def)

lemma stable_in_step: "stable (in_step cs g)"
  by (auto simp: stable_def in_step_def journal_holds_def write_ahead_def)

subsection \<open>Writing\<close>

lemma journal_holds_append:
  assumes "journal_holds cs g s" and "replay_event g True e = Inr t" and "\<not> sg_complete g"
    and "run_lines s' = run_lines s @ [Line e]" and "run_torn s' = run_torn s"
    and "run_exists s' = run_exists s"
  shows "journal_holds cs t s'"
proof -
  from assms(1) obtain es where es: "run_lines s = map Line (creation_event cs # es)"
    "replay_events (new_saga cs) es = Inr g" by (auto simp: journal_holds_def)
  with assms(2,3) have "replay_events (new_saga cs) (es @ [e]) = Inr t"
    unfolding replay_events_def by (simp add: saga_log.replay_snoc)
  moreover have "run_lines s' = map Line (creation_event cs # es @ [e])" using es(1) assms(4) by simp
  ultimately show ?thesis using assms unfolding journal_holds_def by blast
qed

lemma triple_record_step:
  assumes "replay_event g True e = Inr (mark g)" and "\<not> sg_complete g"
  shows "triple (in_step cs g) (record_step SV e mark) (\<lambda>_. in_step cs (mark g)) (recoverable cs)"
proof (rule tripleI)
  fix s :: "'a run" assume pre: "in_step cs g s"
  then have g: "run_saga s = g" and j: "journal_holds cs g s" and torn: "\<not> run_torn s"
    by (auto simp: in_step_def journal_holds_def)
  obtain outcome w where out: "sv_append SV e (run_world s) = (outcome, w)"
    by (cases "sv_append SV e (run_world s)")
  let ?s1 = "s\<lparr>run_world := w, run_trace := run_trace s @ [JournalWrite e outcome]\<rparr>"
  have ahead: "journal_holds cs (mark g) (write_line e ?s1)"
    using j assms torn by (intro journal_holds_append [OF j]) (simp_all add: write_line_def)
  have wa: "write_ahead cs ?s1" using pre by (auto simp: in_step_def write_ahead_def)
  then have wa': "write_ahead cs (write_line e ?s1)" by (simp add: write_ahead_def write_line_def)
  have same: "journal_holds cs g ?s1" using j by (simp add: journal_holds_def)
  show "case record_step SV e mark s of (Inl err, s') \<Rightarrow> recoverable cs s'
      | (Inr u, s') \<Rightarrow> in_step cs (mark g) s'"
  proof (cases outcome)
    case Appended
    have "in_step cs (mark g) (write_line e ?s1\<lparr>run_saga := mark g\<rparr>)"
      using ahead wa' by (simp add: in_step_def journal_holds_def write_ahead_def)
    then show ?thesis using out Appended g
      by (simp add: record_step_def bindM_def append_event_def modifyM_def Let_def write_line_def)
  next
    case Unconfirmed
    have "run_saga (write_line e ?s1) = g" using g by (simp add: write_line_def)
    with ahead wa' assms(1) have "recoverable cs (write_line e ?s1)"
      unfolding recoverable_def by blast
    then show ?thesis using out Unconfirmed
      by (simp add: record_step_def bindM_def append_event_def Let_def)
  next
    case Torn
    have "recoverable cs (?s1\<lparr>run_torn := True\<rparr>)"
      using wa by (simp add: recoverable_def write_ahead_def)
    then show ?thesis using out Torn
      by (simp add: record_step_def bindM_def append_event_def Let_def)
  next
    case Refused
    have "recoverable cs ?s1" using wa same g by (auto simp: recoverable_def)
    then show ?thesis using out Refused
      by (simp add: record_step_def bindM_def append_event_def Let_def)
  qed
qed

text \<open>A mutating command, announced.\<close>

lemma triple_git_mutating:
  fixes SV :: "'w services"
  assumes "\<And>s :: 'w run. in_step cs g s \<Longrightarrow> announced cs root args (run_lines s)"
  shows "triple (in_step cs g) (git_out SV root args) (\<lambda>_. in_step cs g) (in_step cs g)"
proof (rule tripleI)
  fix s :: "'w run" assume pre: "in_step cs g s"
  have "in_step cs g (s\<lparr>run_world := w, run_trace := run_trace s @ [GitCall root args (run_lines s)]\<rparr>)"
    for w
    using pre assms [OF pre] by (auto simp: in_step_def journal_holds_def write_ahead_def)
  then show "case git_out SV root args s of (Inl err, s') \<Rightarrow> in_step cs g s'
      | (Inr u, s') \<Rightarrow> in_step cs g s'"
    by (auto simp: git_out_def git_run_def split: prod.splits option.splits)
qed

subsection \<open>AdvanceLocal\<close>

lemma observes_in_step:
  "observes m \<Longrightarrow> triple (in_step cs g) m (\<lambda>_. in_step cs g) (recoverable cs)"
  by (rule triple_weaken [OF observes_triple [OF _ stable_in_step]])
    (auto intro: in_step_recoverable)

lemma triple_get_saga:
  "triple (in_step cs g) (f g) Q E \<Longrightarrow> triple (in_step cs g) (bindM (getM run_saga) f) Q E"
  by (auto simp: triple_def bindM_def getM_def in_step_def)

text \<open>The saga that recording \<open>step_event kind c\<close> produces is the marked one.\<close>

lemma replay_step:
  assumes "saga_ok g" and "sg_candidates g = cs" and "c \<in> set cs" and "distinct (map cand_resource cs)"
  defines "r \<equiv> cand_resource c"
  shows "r \<notin> sg_local_intent g \<Longrightarrow>
      replay_event g True (step_event ''local-intent'' c) = Inr (mark_local_intent r g)"
    and "r \<in> sg_local_intent g \<Longrightarrow> r \<notin> sg_local g \<Longrightarrow>
      replay_event g True (step_event ''local-advanced'' c) = Inr (mark_local r g)"
    and "r \<in> sg_local g \<Longrightarrow> r \<notin> sg_push_intent g \<Longrightarrow>
      replay_event g True (step_event ''push-intent'' c) = Inr (mark_push_intent r g)"
    and "r \<in> sg_push_intent g \<Longrightarrow> r \<notin> sg_pushed g \<Longrightarrow>
      replay_event g True (step_event ''push-observed'' c) = Inr (mark_pushed r g)"
  using assms(1,2) known_commits_of [OF assms(4,3)]
  by (auto simp: r_def replay_event_def step_event_def saga_ok_def Let_def)

lemma incomplete_unless_pushed:
  "saga_ok g \<Longrightarrow> r \<in> resources g \<Longrightarrow> r \<notin> sg_pushed g \<Longrightarrow> \<not> sg_complete g"
  by (auto simp: saga_ok_def)

lemma incomplete_unless_local:
  "saga_ok g \<Longrightarrow> r \<in> resources g \<Longrightarrow> r \<notin> sg_local g \<Longrightarrow> \<not> sg_complete g"
  by (auto simp: saga_ok_def)

lemma mark_again [simp]:
  "r \<in> sg_local_intent g \<Longrightarrow> mark_local_intent r g = g"
  "r \<in> sg_push_intent g \<Longrightarrow> mark_push_intent r g = g"
  by (simp_all add: mark_defs insert_absorb)

definition advanced :: "candidate \<Rightarrow> saga \<Rightarrow> saga" where
  "advanced c g =
     (if cand_resource c \<in> sg_local g then g
      else mark_local (cand_resource c) (mark_local_intent (cand_resource c) g))"

lemma triple_advance_ref:
  assumes "c \<in> set cs" and "cand_resource c \<in> sg_local_intent g"
  shows "triple (in_step cs g) (advance_ref SV c head index_tree) (\<lambda>_. in_step cs g) (recoverable cs)"
proof -
  have update: "triple (in_step cs g)
      (git_out SV (cand_repository c)
         [''update-ref'', ''refs/heads/'' @ cand_branch c, cand_commit c, cand_start_head c])
      (\<lambda>_. in_step cs g) (recoverable cs)"
    using assms in_step_lines(1) [of cs g]
    by (intro triple_weaken [OF triple_git_mutating]) (auto simp: announced_def intro: in_step_recoverable)
  have status: "observes (git_out SV (cand_repository c)
      [''status'', ''--porcelain=v2'', ''-z'', ''--untracked-files=all''])"
    by (rule observes_git_out) (simp add: mutating_def)
  show ?thesis
    unfolding advance_ref_def
    by (intro triple_if triple_bind [where Q = "\<lambda>_. in_step cs g"] update
        observes_in_step observing status)
qed

lemma triple_advance_one:
  fixes SV :: "'w services"
  assumes c: "c \<in> set cs"
  shows "triple (in_step cs g) (advance_one SV c) (\<lambda>_. in_step cs (advanced c g)) (recoverable cs)"
proof (rule triple_fact)
  fix s :: "'w run" assume "in_step cs g s"
  then show "saga_ok g \<and> sg_candidates g = cs \<and> distinct (map cand_resource cs)"
    by (simp add: in_step_ok)
next
  assume facts: "saga_ok g \<and> sg_candidates g = cs \<and> distinct (map cand_resource cs)"
  let ?r = "cand_resource c"
  let ?g1 = "mark_local_intent ?r g"
  show ?thesis
  proof (cases "?r \<in> sg_local g")
    case True
    then show ?thesis unfolding advance_one_def
      by (intro triple_get_saga) (simp add: triple_return advanced_def)
  next
    case new: False
    have res: "?r \<in> resources g" using facts c by (auto simp: resources_def)
    with facts new have open_saga: "\<not> sg_complete g" by (auto dest: incomplete_unless_local)
    have ok1: "saga_ok ?g1" using facts res by (auto simp: saga_ok_def mark_defs resources_def)
    have intent: "triple (in_step cs g) (whenM (?r \<notin> sg_local_intent g)
        (record_step SV (step_event ''local-intent'' c) (mark_local_intent ?r)))
        (\<lambda>_. in_step cs ?g1) (recoverable cs)"
      using facts c open_saga
      by (intro triple_when triple_record_step) (simp_all add: replay_step)
    have obs: "triple (in_step cs ?g1) (git_text SV (cand_repository c) args)
        (\<lambda>_. in_step cs ?g1) (recoverable cs)" if "\<not> mutating args" for args
      using that by (intro observes_in_step observes_git_text)
    have "?r \<in> sg_local_intent ?g1" by (simp add: mark_defs)
    note ref = triple_advance_ref [OF c this]
    have restore: "triple (in_step cs ?g1)
        (git_out SV (cand_repository c) [''read-tree'', cand_commit c])
        (\<lambda>_. in_step cs ?g1) (recoverable cs)"
      using c in_step_lines(1) [of cs ?g1]
      by (intro triple_weaken [OF triple_git_mutating])
        (auto simp: announced_def mark_defs intro: in_step_recoverable)
    have final: "triple (in_step cs ?g1)
        (record_step SV (step_event ''local-advanced'' c) (mark_local ?r))
        (\<lambda>_. in_step cs (advanced c g)) (recoverable cs)"
    proof -
      have "replay_event ?g1 True (step_event ''local-advanced'' c) = Inr (mark_local ?r ?g1)"
        using facts ok1 new c by (intro replay_step(2) [of _ cs]) (simp_all add: mark_defs)
      moreover have "\<not> sg_complete ?g1" using open_saga by (simp add: mark_defs)
      ultimately show ?thesis using new unfolding advanced_def by (simp add: triple_record_step)
    qed
    show ?thesis
      unfolding advance_one_def
      by (rule triple_get_saga, rule triple_if, use new in simp)
        (intro triple_bind [OF intent] triple_bind [OF obs] triple_bind [OF ref]
          triple_bind [where Q = "\<lambda>_. in_step cs ?g1"] final
          triple_when triple_bind [OF restore] triple_return observes_in_step observing;
          simp add: mutating_def)
  qed
qed

lemma triple_advance_local:
  fixes SV :: "'w services"
  shows "triple (in_step cs g) (advance_local SV) (\<lambda>_. in_step cs (fold advanced cs g)) (recoverable cs)"
proof (rule triple_fact)
  fix s :: "'w run" assume "in_step cs g s"
  then show "sg_candidates g = cs" by (rule in_step_ok)
next
  assume cs: "sg_candidates g = cs"
  have "triple (in_step cs g) (eachM (advance_one SV) cs)
      (\<lambda>_. in_step cs (fold advanced cs g)) (recoverable cs)"
    by (rule triple_each_fold [where R = "\<lambda>_. True"]) (simp_all add: triple_advance_one)
  then show ?thesis unfolding advance_local_def by (intro triple_get_saga) (simp add: cs)
qed

lemma advanced_local: "cand_resource ` set cs \<union> sg_local g \<subseteq> sg_local (fold advanced cs g)"
proof (induction cs arbitrary: g)
  case (Cons c cs)
  have "insert (cand_resource c) (sg_local g) \<subseteq> sg_local (advanced c g)"
    by (auto simp: advanced_def mark_defs)
  with Cons.IH [of "advanced c g"] show ?case by auto
qed simp

subsection \<open>Push\<close>

definition pushed_on :: "candidate \<Rightarrow> saga \<Rightarrow> saga" where
  "pushed_on c g =
     (if cand_resource c \<in> sg_pushed g then g
      else mark_pushed (cand_resource c) (mark_push_intent (cand_resource c) g))"

lemma observes_in_step_mapErr:
  "triple (in_step cs g) m Q (recoverable cs) \<Longrightarrow> triple (in_step cs g) (mapErrM f m) Q (recoverable cs)"
  by (rule triple_mapErr)

lemma triple_push_ref:
  fixes SV :: "'w services"
  assumes "c \<in> set cs" and "cand_resource c \<in> sg_push_intent g" and "resources g \<subseteq> sg_local g"
    and "sg_candidates g = cs"
  shows "triple (in_step cs g) (push_ref SV c) (\<lambda>_. in_step cs g) (recoverable cs)"
proof -
  have push: "triple (in_step cs g)
      (git_out SV (cand_repository c)
         [''push'', cand_remote c, cand_commit c @ '':refs/heads/'' @ cand_branch c])
      (\<lambda>_. in_step cs g) (recoverable cs)"
  proof (rule triple_weaken [OF triple_git_mutating])
    fix s :: "'w run" assume pre: "in_step cs g s"
    have "cand_resource k \<in> sg_local g" if "k \<in> set cs" for k
      using that assms(3,4) by (auto simp: resources_def)
    with pre in_step_lines [OF pre] assms(1,2)
    show "announced cs (cand_repository c)
        [''push'', cand_remote c, cand_commit c @ '':refs/heads/'' @ cand_branch c] (run_lines s)"
      unfolding announced_def by (intro bexI [of _ c]) auto
  qed (auto intro: in_step_recoverable)
  show ?thesis
    unfolding push_ref_def
    by (intro triple_mapErr triple_bind [where Q = "\<lambda>_. in_step cs g"] triple_when push
        observes_in_step observing) simp_all
qed

lemma triple_push_one:
  fixes SV :: "'w services"
  assumes c: "c \<in> set cs" and local: "resources g \<subseteq> sg_local g"
  shows "triple (in_step cs g) (push_one SV c) (\<lambda>_. in_step cs (pushed_on c g)) (recoverable cs)"
proof (rule triple_fact)
  fix s :: "'w run" assume "in_step cs g s"
  then show "saga_ok g \<and> sg_candidates g = cs \<and> distinct (map cand_resource cs)"
    by (simp add: in_step_ok)
next
  assume facts: "saga_ok g \<and> sg_candidates g = cs \<and> distinct (map cand_resource cs)"
  let ?r = "cand_resource c"
  let ?g1 = "mark_push_intent ?r g"
  show ?thesis
  proof (cases "?r \<in> sg_pushed g")
    case True
    then show ?thesis unfolding push_one_def
      by (intro triple_get_saga) (simp add: triple_return pushed_on_def)
  next
    case new: False
    have res: "?r \<in> resources g" using facts c by (auto simp: resources_def)
    with facts new have open_saga: "\<not> sg_complete g" by (auto dest: incomplete_unless_pushed)
    have is_local: "?r \<in> sg_local g" using res local by blast
    then have ok1: "saga_ok ?g1" using facts by (auto simp: saga_ok_def mark_defs resources_def)
    have intent: "triple (in_step cs g) (whenM (?r \<notin> sg_push_intent g)
        (record_step SV (step_event ''push-intent'' c) (mark_push_intent ?r)))
        (\<lambda>_. in_step cs ?g1) (recoverable cs)"
      using facts c open_saga is_local
      by (intro triple_when triple_record_step) (simp_all add: replay_step)
    have ref: "triple (in_step cs ?g1) (push_ref SV c) (\<lambda>_. in_step cs ?g1) (recoverable cs)"
      using c local facts by (intro triple_push_ref) (auto simp: mark_defs resources_def)
    have final: "triple (in_step cs ?g1)
        (record_step SV (step_event ''push-observed'' c) (mark_pushed ?r))
        (\<lambda>_. in_step cs (pushed_on c g)) (recoverable cs)"
    proof -
      have "replay_event ?g1 True (step_event ''push-observed'' c) = Inr (mark_pushed ?r ?g1)"
        using facts ok1 new c by (intro replay_step(4) [of _ cs]) (simp_all add: mark_defs)
      moreover have "\<not> sg_complete ?g1" using open_saga by (simp add: mark_defs)
      ultimately show ?thesis using new unfolding pushed_on_def by (simp add: triple_record_step)
    qed
    have url: "triple (in_step cs g)
        (mapErrM (PartialPush ?r) (bindM (observe_remote_url SV (cand_repository c) (cand_remote c))
           (\<lambda>url. guardM (url = cand_remote_url c) (PushError ''remote push URL changed''))))
        (\<lambda>_. in_step cs g) (recoverable cs)"
      by (intro observes_in_step observing)
    show ?thesis
      unfolding push_one_def
      by (rule triple_get_saga, rule triple_if, use new in simp)
        (intro triple_bind [OF url] triple_bind [OF intent] triple_bind [OF ref] final)
  qed
qed

lemma pushed_on_simps [simp]:
  "sg_local (pushed_on c g) = sg_local g" "sg_candidates (pushed_on c g) = sg_candidates g"
  "resources (pushed_on c g) = resources g" "sg_complete (pushed_on c g) = sg_complete g"
  by (simp_all add: pushed_on_def mark_defs resources_def)

lemma pushed_on_fold [simp]:
  "sg_local (fold pushed_on cs g) = sg_local g" "resources (fold pushed_on cs g) = resources g"
  "sg_candidates (fold pushed_on cs g) = sg_candidates g"
  "sg_complete (fold pushed_on cs g) = sg_complete g"
  by (induction cs arbitrary: g) simp_all

lemma pushed_on_pushed: "cand_resource ` set cs \<union> sg_pushed g \<subseteq> sg_pushed (fold pushed_on cs g)"
proof (induction cs arbitrary: g)
  case (Cons c cs)
  have "insert (cand_resource c) (sg_pushed g) \<subseteq> sg_pushed (pushed_on c g)"
    by (auto simp: pushed_on_def mark_defs)
  with Cons.IH [of "pushed_on c g"] show ?case by auto
qed simp

definition finished :: "candidate list \<Rightarrow> saga \<Rightarrow> saga" where
  "finished cs g = (fold pushed_on cs g)\<lparr>sg_complete := True\<rparr>"

lemma triple_push_saga:
  fixes SV :: "'w services"
  shows "triple (in_step cs g) (push_saga SV)
    (\<lambda>_ s. in_step cs (finished cs g) s \<and> resources g \<subseteq> sg_local g) (recoverable cs)"
proof (rule triple_fact)
  fix s :: "'w run" assume "in_step cs g s"
  then show "saga_ok g \<and> sg_candidates g = cs" by (simp add: in_step_ok)
next
  assume facts: "saga_ok g \<and> sg_candidates g = cs"
  let ?g1 = "fold pushed_on cs g"
  let ?check = "eachM (\<lambda>c. guardM (cand_resource c \<in> sg_local g)
      (AdvanceError ''no durable local commit'' (cand_resource c))) cs :: ('w, unit) saga_comp"
  have cands: "sg_candidates g = cs" using facts by simp
  have "triple (in_step cs g) ?check
      (\<lambda>_ s. in_step cs g s \<and> (\<forall>c \<in> set cs. cand_resource c \<in> sg_local g)) (recoverable cs)"
    by (rule triple_each_guard) (rule in_step_recoverable)
  moreover have "resources g \<subseteq> sg_local g \<longleftrightarrow> (\<forall>c \<in> set cs. cand_resource c \<in> sg_local g)"
    using cands by (auto simp: resources_def)
  ultimately have check: "triple (in_step cs g) ?check
      (\<lambda>_ s. in_step cs g s \<and> resources g \<subseteq> sg_local g) (recoverable cs)" by simp
  have loop: "triple (in_step cs g) (eachM (push_one SV) cs) (\<lambda>_. in_step cs ?g1) (recoverable cs)"
    if local: "resources g \<subseteq> sg_local g"
    using local by (intro triple_each_fold [where R = "\<lambda>g. resources g \<subseteq> sg_local g"])
      (simp_all add: triple_push_one)
  have all: "resources ?g1 \<subseteq> sg_pushed ?g1"
    using pushed_on_pushed [of cs g] facts by (simp add: resources_def)
  have complete: "triple (in_step cs ?g1) (whenM (\<not> sg_complete g)
      (record_step SV completed_event (\<lambda>g. g\<lparr>sg_complete := True\<rparr>)))
      (\<lambda>_. in_step cs (finished cs g)) (recoverable cs)"
    if local: "resources g \<subseteq> sg_local g"
  proof (rule triple_when)
    assume "\<not> sg_complete g"
    then have "replay_event ?g1 True completed_event = Inr (?g1\<lparr>sg_complete := True\<rparr>)"
      using all local facts by (auto simp: replay_event_def completed_event_def resources_def Let_def)
    then show "triple (in_step cs ?g1) (record_step SV completed_event (\<lambda>g. g\<lparr>sg_complete := True\<rparr>))
        (\<lambda>_. in_step cs (finished cs g)) (recoverable cs)"
      unfolding finished_def using \<open>\<not> sg_complete g\<close> by (intro triple_record_step) simp_all
  next
    fix s :: "'w run" assume "in_step cs ?g1 s" "\<not> \<not> sg_complete g"
    then have "?g1 = finished cs g" by (simp add: finished_def)
    with \<open>in_step cs ?g1 s\<close> show "in_step cs (finished cs g) s" by simp
  qed
  show ?thesis
    unfolding push_saga_def
    by (rule triple_get_saga, unfold cands, rule triple_bind [OF check], rule triple_assume)
      (intro triple_bind [OF loop]; auto intro: triple_weaken [OF complete])
qed

section \<open>Recover\<close>

lemma decode_journal_Lines: "decode_journal (map Line es) torn = (if torn then Inl (JournalError ''partial event'') else Inr es)"
  by (induction es) simp_all

lemma decode_journal_Inr: "decode_journal ls torn = Inr es \<longleftrightarrow> ls = map Line es \<and> \<not> torn"
proof (induction ls torn arbitrary: es rule: decode_journal.induct)
  case (3 e ls torn)
  then show ?case by (cases es) (auto split: sum.splits simp: inj_map_eq_map inj_def)
qed auto

text \<open>Whatever the world answers, a successful recovery leaves the replay of the journal.\<close>

definition journal_is :: "bool \<Rightarrow> jline list \<Rightarrow> bool \<Rightarrow> 'w run \<Rightarrow> bool" where
  "journal_is ex ls torn s \<longleftrightarrow> run_exists s = ex \<and> run_lines s = ls \<and> run_torn s = torn"

definition replays_to :: "jline list \<Rightarrow> saga \<Rightarrow> bool" where
  "replays_to ls g \<longleftrightarrow> (\<exists>cs es. ls = map Line (creation_event cs # es) \<and> cs \<noteq> [] \<and>
     replay_events (new_saga cs) es = Inr g)"

lemma stable_journal: "stable (journal_is ex ls torn)" "stable (\<lambda>s. journal_is ex ls torn s \<and> run_saga s = g)"
  by (simp_all add: stable_def journal_is_def)

lemma creation_exact_event:
  "je_kind e = ''created'' \<Longrightarrow> creation_exact e \<Longrightarrow> e = creation_event (je_candidates e)"
  by (cases e) (simp add: creation_exact_def creation_event_def)

lemma observes_result:
  assumes "observes m" and "m s = (r, s')"
  shows "run_lines s' = run_lines s \<and> run_torn s' = run_torn s \<and> run_exists s' = run_exists s \<and>
    run_saga s' = run_saga s"
proof -
  let ?I = "\<lambda>t. journal_is (run_exists s) (run_lines s) (run_torn s) t \<and> run_saga t = run_saga s"
  have "triple ?I m (\<lambda>_. ?I) ?I" using assms(1) stable_journal(2) by (rule observes_triple)
  then have "case m s of (Inl e, t) \<Rightarrow> ?I t | (Inr x, t) \<Rightarrow> ?I t"
    unfolding triple_def by (simp add: journal_is_def)
  with assms(2) show ?thesis by (cases r) (simp_all add: journal_is_def)
qed

text \<open>The part of \<open>recover\<close> after the journal has been decoded.\<close>

lemma recover_decoded:
  assumes "recover SV s = (Inr u, s')"
  obtains e es s1 where "decode_journal (run_lines s) (run_torn s) = Inr (e # es)" "run_exists s"
    "je_kind e = ''created''"
    "bindM (validate_candidates SV (je_candidates e)) (\<lambda>_.
       bindM (guardM (creation_exact e) (JournalError ''creation event mismatch'')) (\<lambda>_.
       bindM (liftM (replay_events (new_saga (je_candidates e)) es)) (\<lambda>g.
       bindM (put_saga g) (\<lambda>_.
       bindM (verify_durable_locals SV) (\<lambda>_. verify_durable_pushes SV))))) s1 = (Inr u, s')"
    "run_lines s1 = run_lines s"
proof -
  from assms obtain s1 s2 events where steps: "file_step SV ''open'' s = (Inr (), s1)"
    "file_step SV ''read'' s1 = (Inr (), s2)" "run_exists s"
    and events: "decode_journal (run_lines s2) (run_torn s2) = Inr events"
    and rest: "(case events of [] \<Rightarrow> failM (JournalError ''no durable creation event'')
     | e # es \<Rightarrow>
         bindM (guardM (je_kind e = ''created'') (JournalError ''no durable creation event'')) (\<lambda>_.
         bindM (validate_candidates SV (je_candidates e)) (\<lambda>_.
         bindM (guardM (creation_exact e) (JournalError ''creation event mismatch'')) (\<lambda>_.
         bindM (liftM (replay_events (new_saga (je_candidates e)) es)) (\<lambda>g.
         bindM (put_saga g) (\<lambda>_.
         bindM (verify_durable_locals SV) (\<lambda>_.
         verify_durable_pushes SV))))))) s2 = (Inr u, s')"
    by (auto simp: recover_def bindM_result)
  have same: "run_lines s2 = run_lines s" "run_torn s2 = run_torn s"
    using observes_result [OF observes_file_step steps(1)] observes_result [OF observes_file_step steps(2)]
    by simp_all
  from rest obtain e es where e: "events = e # es" by (cases events) auto
  show ?thesis
    using rest unfolding e list.case bindM_result [of "guardM _ _"]
    by (elim exE conjE, intro that [of e es s2])
      (use events same steps(3) e in auto)
qed

lemma recover_result:
  assumes "recover SV s = (Inr u, s')"
  shows "run_exists s \<and> \<not> run_torn s \<and> run_lines s' = run_lines s \<and>
    replays_to (run_lines s) (run_saga s')"
proof -
  from assms obtain e es s1 where
    dec: "decode_journal (run_lines s) (run_torn s) = Inr (e # es)" "run_exists s" "je_kind e = ''created''"
    and rest: "bindM (validate_candidates SV (je_candidates e)) (\<lambda>_.
       bindM (guardM (creation_exact e) (JournalError ''creation event mismatch'')) (\<lambda>_.
       bindM (liftM (replay_events (new_saga (je_candidates e)) es)) (\<lambda>g.
       bindM (put_saga g) (\<lambda>_.
       bindM (verify_durable_locals SV) (\<lambda>_. verify_durable_pushes SV))))) s1 = (Inr u, s')"
    and lines: "run_lines s1 = run_lines s" by (rule recover_decoded)
  from rest obtain s2 g s3 s4 where valid: "validate_candidates SV (je_candidates e) s1 = (Inr (), s2)"
    and exact: "creation_exact e" and g: "replay_events (new_saga (je_candidates e)) es = Inr g"
    and put: "put_saga g s2 = (Inr (), s3)" and ver: "verify_durable_locals SV s3 = (Inr (), s4)"
      "verify_durable_pushes SV s4 = (Inr u, s')"
    by (auto simp: bindM_result)
  have "je_candidates e \<noteq> []" using valid by (auto simp: validate_candidates_def)
  moreover have "run_saga s' = g"
    using put observes_result [OF observes_verify_durable(1) ver(1)]
      observes_result [OF observes_verify_durable(2) ver(2)]
    by (auto simp: put_saga_def modifyM_def)
  moreover have "run_lines s' = run_lines s"
    using put lines observes_result [OF observes_validate_candidates valid]
      observes_result [OF observes_verify_durable(1) ver(1)]
      observes_result [OF observes_verify_durable(2) ver(2)]
    by (auto simp: put_saga_def modifyM_def)
  moreover have "e = creation_event (je_candidates e)" using dec(3) exact by (rule creation_exact_event)
  ultimately show ?thesis
    using dec g unfolding replays_to_def decode_journal_Inr by metis
qed

lemma replays_to_unique: "replays_to ls g \<Longrightarrow> replays_to ls h \<Longrightarrow> g = h"
  by (auto simp: replays_to_def creation_event_def inj_map_eq_map inj_def)

lemma journal_holds_replays: "journal_holds cs g s \<Longrightarrow> replays_to (run_lines s) g"
  by (auto simp: journal_holds_def replays_to_def)

lemma recover_resumes:
  assumes "journal_holds cs g s" and "recover SV (s\<lparr>run_saga := h\<rparr>) = (Inr u, s')"
  shows "run_saga s' = g"
  using journal_holds_replays [OF assms(1)] recover_result [OF assms(2)] replays_to_unique by auto

lemma replays_to_ok: "replays_to ls g \<Longrightarrow> saga_ok g"
  using replay_ok by (auto simp: replays_to_def)


section \<open>RecoverExact\<close>

definition request_matches :: "'w services \<Rightarrow> change_request \<Rightarrow> candidate \<Rightarrow> bool" where
  "request_matches SV r c \<longleftrightarrow>
     rq_resource r = cand_resource c \<and> rq_branch r = cand_branch c \<and> rq_remote r = cand_remote c \<and>
     rq_change r = cand_change c \<and>
     request_digest SV r (cand_repository c) = cand_request_digest c"

lemma candidate_for_Some: "candidate_for cs r = Some c \<Longrightarrow> c \<in> set cs \<and> cand_resource c = r"
  by (auto simp: candidate_for_def dest!: map_of_SomeD)

lemma observes_match_request: "observes (match_request SV cs seen r)"
  unfolding match_request_def by (auto intro!: observing split: option.splits)

lemma match_request_result:
  assumes "match_request SV cs seen r s = (Inr u, s')"
  shows "validate_request r = Inr () \<and> rq_resource r \<notin> seen \<and> (\<exists>c \<in> set cs. request_matches SV r c)"
proof -
  from assms obtain c where "validate_request r = Inr ()" "rq_resource r \<notin> seen"
    "candidate_for cs (rq_resource r) = Some c"
    by (cases "candidate_for cs (rq_resource r)") (auto simp: match_request_def bindM_result)
  moreover from this assms have "request_matches SV r c"
    using candidate_for_Some [of cs "rq_resource r" c]
    by (auto simp: match_request_def bindM_result request_matches_def)
  ultimately show ?thesis using candidate_for_Some by blast
qed

lemma match_requests_result:
  "match_requests SV cs seen rs s = (Inr all, s') \<Longrightarrow>
     all = seen \<union> rq_resource ` set rs \<and> seen \<inter> rq_resource ` set rs = {} \<and>
     distinct (map rq_resource rs) \<and> run_saga s' = run_saga s \<and>
     (\<forall>r \<in> set rs. validate_request r = Inr () \<and> (\<exists>c \<in> set cs. request_matches SV r c))"
proof (induction rs arbitrary: seen s)
  case (Cons r rs)
  then obtain s1 where one: "match_request SV cs seen r s = (Inr (), s1)"
    and rest: "match_requests SV cs (insert (rq_resource r) seen) rs s1 = (Inr all, s')"
    by (auto simp: bindM_result)
  from match_request_result [OF one] Cons.IH [OF rest] observes_result [OF observes_match_request one]
  show ?case by auto
qed simp

lemma each_guard_result:
  "eachM (\<lambda>x. guardM (P x) (e x)) xs s = (Inr u, s') \<Longrightarrow> (\<forall>x \<in> set xs. P x) \<and> s' = s"
  by (induction xs) (auto simp: bindM_result)

lemma recover_exact_result:
  assumes "recover_exact SV rs s = (Inr u, s')"
  defines "g \<equiv> run_saga s'"
  shows "replays_to (run_lines s) g \<and> length rs = length (sg_candidates g) \<and>
    distinct (map rq_resource rs) \<and> rq_resource ` set rs = resources g \<and>
    (\<forall>r \<in> set rs. \<exists>c \<in> set (sg_candidates g). request_matches SV r c)"
proof -
  from assms(1) obtain s1 all s2 where run: "recover SV s = (Inr (), s1)"
    "length rs = length (sg_candidates (run_saga s1))"
    "match_requests SV (sg_candidates (run_saga s1)) {} rs s1 = (Inr all, s2)"
    "eachM (\<lambda>c. guardM (cand_resource c \<in> all) (RequestError ''omitted resource'' (cand_resource c)))
       (sg_candidates (run_saga s1)) s2 = (Inr u, s')"
    by (auto simp: recover_exact_def bindM_result)
  have same: "run_saga s' = run_saga s1"
    using match_requests_result [OF run(3)] each_guard_result [OF run(4)] by simp
  have "rq_resource ` set rs \<subseteq> resources g"
    using match_requests_result [OF run(3)] unfolding g_def same
    by (fastforce simp: resources_def request_matches_def)
  moreover have "resources g \<subseteq> rq_resource ` set rs"
    using match_requests_result [OF run(3)] each_guard_result [OF run(4)] unfolding g_def same
    by (auto simp: resources_def)
  ultimately show ?thesis
    using match_requests_result [OF run(3)] recover_result [OF run(1)] run(2) same
    unfolding g_def by auto
qed

lemma request_identity_perm:
  assumes "mset (rq_paths r) = mset (rq_paths q)" and "mset (rq_hunks r) = mset (rq_hunks q)"
    and "mset (rq_deleted r) = mset (rq_deleted q)"
  shows "request_identity_of (r\<lparr>rq_paths := rq_paths q, rq_hunks := rq_hunks q,
      rq_deleted := rq_deleted q\<rparr>) root = request_identity_of r root"
proof -
  have sort_mset: "sort xs = sort ys" if "mset ys = mset xs" for xs ys :: "string list"
    by (rule properties_for_sort) (simp_all add: that)
  show ?thesis
    by (simp add: request_identity_of_def sort_mset [OF assms(1)] sort_mset [OF assms(2)]
        sort_mset [OF assms(3)])
qed

lemma recoverable_write_ahead: "recoverable cs s \<Longrightarrow> write_ahead cs s"
  by (simp add: recoverable_def)

end
