(* ===== verification/Change_Properties.thy ===== *)
theory Change_Properties
  imports Change_Recovery
begin

text \<open>
  The properties of change sagas, with a one-repository saga and a scripted Git on which
  their hypotheses hold.
\<close>

section \<open>A concrete saga\<close>

definition demo_git :: "string list \<Rightarrow> string" where
  "demo_git args =
     (if args = [''rev-parse'', ''--show-toplevel''] then ''/''
      else if args = [''rev-parse'', ''HEAD''] then ''h''
      else if args = [''branch'', ''--show-current''] then ''m''
      else if args = [''write-tree''] then ''i''
      else if hd args = ''status'' then ''s''
      else if hd args = ''remote'' then ''u''
      else if hd args = ''ls-remote'' then ''c r''
      else if args = [''show'', ''-s'', ''--format=%P'', ''c''] then ''h''
      else if args = [''show'', ''-s'', ''--format=%T'', ''c''] then ''t''
      else if args = [''show'', ''-s'', ''--format=%B'', ''c'']
      then ''Workbench-Change-Id: x''
      else [])"

definition demo_services :: "unit services" where
  "demo_services = \<lparr>sv_git = (\<lambda>env root args input w. (Some (demo_git args), w)),
     sv_append = (\<lambda>e w. (Appended, w)), sv_file = (\<lambda>_ w. (True, w)),
     sv_abs = (\<lambda>p _. Some p), sv_resolve = (\<lambda>p _. Some p),
     sv_url_has_user = (\<lambda>_. Some False), sv_sha256 = (\<lambda>s. s),
     sv_digest = (\<lambda>r. ri_title r @ concat (ri_paths r))\<rparr>"

definition demo_candidate :: candidate where
  "demo_candidate = \<lparr>cand_resource = ''r'', cand_repository = ''/'', cand_branch = ''m'',
     cand_remote = ''origin'', cand_remote_url = ''u'', cand_change = ''x'',
     cand_request_digest = ''ta'', cand_status_digest = ''s'', cand_start_head = ''h'',
     cand_start_tree = ''i'', cand_start_remote = ''h'', cand_tree = ''t'',
     cand_commit = ''c'', cand_message = ''Workbench-Change-Id: x''\<rparr>"

definition demo_run :: "unit run" where
  "demo_run = \<lparr>run_world = (), run_exists = True,
     run_lines = map Line [creation_event [demo_candidate], step_event ''local-intent'' demo_candidate],
     run_torn = False, run_trace = [],
     run_saga = mark_local_intent ''r'' (new_saga [demo_candidate])\<rparr>"

lemma demo_in_step: "in_step [demo_candidate] (run_saga demo_run) demo_run"
proof -
  have "replay_events (new_saga [demo_candidate]) [step_event ''local-intent'' demo_candidate] =
      Inr (run_saga demo_run)"
    by (simp add: replay_events_def replay_event_def step_event_def known_commits_def Let_def
        new_saga_def demo_run_def demo_candidate_def)
  then show ?thesis
    unfolding in_step_def journal_holds_def write_ahead_def
    by (auto simp: demo_run_def
        intro!: exI [of _ "[step_event ''local-intent'' demo_candidate]"])
qed

text \<open>The scripted Git, run by rewriting.\<close>

lemma demo_trim:
  "trim_space ''h'' = ''h''" "trim_space ''m'' = ''m''" "trim_space ''i'' = ''i''"
  by code_simp+

lemma demo_words: "words_of ''u'' = [''u'']" "words_of ''c r'' = [''c'', ''r'']"
  by code_simp+

lemma demo_git_out:
  "git_out demo_services root args s =
     (Inr (demo_git args), s\<lparr>run_trace := run_trace s @ [GitCall root args (run_lines s)]\<rparr>)"
  by (simp add: git_out_def git_run_def demo_services_def)

lemma demo_append:
  "append_event demo_services e s =
     (Inr (), write_line e (s\<lparr>run_trace := run_trace s @ [JournalWrite e Appended]\<rparr>))"
  by (cases s) (simp add: append_event_def demo_services_def write_line_def)

lemma demo_services_simps:
  "sv_url_has_user demo_services u = Some False" "sv_sha256 demo_services t = t"
  by (simp_all add: demo_services_def)

lemmas demo_eval = demo_trim demo_words demo_git_out demo_append demo_services_simps demo_git_def
  bindM_def returnM_def guardM_def getM_def modifyM_def whenM_def failM_def mapErrM_def
  git_text_def record_step_def write_line_def

lemma demo_advance: "fst (advance_local demo_services demo_run) = Inr ()"
  by (simp add: advance_local_def advance_one_def advance_ref_def demo_eval demo_run_def
      demo_candidate_def new_saga_def mark_defs)

section \<open>Recovery\<close>



text \<open>
  C7: \<^verbatim>\<open>Recover\<close> accepts only journals whose replay is ordered: every resource it reports
  pushed was locally advanced, announced and prepared before, and a completed saga has
  pushed every repository. The journal itself is left alone.
\<close>

theorem recover_accepts_ordered_journals:
  assumes "recover SV s = (Inr u, s')"
  shows "saga_ok (run_saga s') \<and> replays_to (run_lines s) (run_saga s') \<and> \<not> run_torn s \<and>
    run_lines s' = run_lines s"
  using recover_result [OF assms] replays_to_ok by blast

theorem recover_accepts_ordered_journals_witness:
  "saga_ok (run_saga (snd (recover demo_services demo_run)))"
proof -
  have "fst (recover demo_services demo_run) = Inr ()" by code_simp
  then have "recover demo_services demo_run = (Inr (), snd (recover demo_services demo_run))"
    by (metis prod.collapse)
  from recover_accepts_ordered_journals [OF this] show ?thesis by simp
qed

text \<open>
  \<^verbatim>\<open>AdvanceLocal\<close> keeps memory and journal in step. When it returns, every prepared
  repository is locally advanced; when it fails, at any point, the journal ends in a
  partial line or replays to the saga in memory, at most one event ahead of it.
\<close>

theorem advance_local_keeps_journal:
  "triple (in_step cs g) (advance_local SV)
     (\<lambda>_ s. in_step cs (fold advanced cs g) s \<and> cand_resource ` set cs \<subseteq> sg_local (run_saga s))
     (recoverable cs)"
  using advanced_local [of cs g]
  by (intro triple_weaken [OF triple_advance_local]) (auto simp: in_step_def)

theorem advance_local_keeps_journal_witness:
  "sg_local (run_saga (snd (advance_local demo_services demo_run))) = {''r''}"
proof -
  have run: "advance_local demo_services demo_run =
      (Inr (), snd (advance_local demo_services demo_run))"
  proof -
    from demo_advance show ?thesis by (metis prod.collapse)
  qed
  from triple_result [OF advance_local_keeps_journal demo_in_step run]
  have "in_step [demo_candidate] (fold advanced [demo_candidate] (run_saga demo_run))
      (snd (advance_local demo_services demo_run))" by simp
  then have "run_saga (snd (advance_local demo_services demo_run)) =
      fold advanced [demo_candidate] (run_saga demo_run)" by (simp add: in_step_def)
  moreover have "sg_local (fold advanced [demo_candidate] (run_saga demo_run)) = {''r''}"
    by (simp add: advanced_def demo_run_def new_saga_def mark_defs demo_candidate_def)
  ultimately show ?thesis by simp
qed

text \<open>
  C8: \<^verbatim>\<open>Push\<close> succeeds only on a saga whose every repository is locally advanced, and
  then the saga is complete with every repository pushed, in step with the journal; a
  failure leaves a recoverable journal.
\<close>

theorem push_completes:
  "triple (in_step cs g) (push_saga SV)
     (\<lambda>_ s. in_step cs (finished cs g) s \<and> resources g \<subseteq> sg_local g \<and>
            sg_complete (run_saga s) \<and> cand_resource ` set cs \<subseteq> sg_pushed (run_saga s))
     (recoverable cs)"
  using pushed_on_pushed [of cs g]
  by (intro triple_weaken [OF triple_push_saga]) (auto simp: in_step_def finished_def)

theorem push_completes_witness:
  "sg_complete (run_saga (snd (push_saga demo_services (snd (advance_local demo_services demo_run)))))"
proof -
  let ?s = "snd (advance_local demo_services demo_run)"
  from demo_advance have "advance_local demo_services demo_run = (Inr (), ?s)" by (metis prod.collapse)
  with triple_result [OF triple_advance_local demo_in_step]
  have pre: "in_step [demo_candidate] (fold advanced [demo_candidate] (run_saga demo_run)) ?s" by blast
  have "fst (push_saga demo_services ?s) = Inr ()"
    by (simp add: advance_local_def advance_one_def advance_ref_def push_saga_def push_one_def
        push_ref_def observe_remote_url_def remote_head_def demo_eval demo_run_def
        demo_candidate_def new_saga_def mark_defs)
  then have "push_saga demo_services ?s = (Inr (), snd (push_saga demo_services ?s))"
    by (metis prod.collapse)
  from triple_result [OF push_completes pre this] show ?thesis by simp
qed

text \<open>
  C9: write-ahead: whatever Git and the disk do, \<^verbatim>\<open>AdvanceLocal\<close> and \<^verbatim>\<open>Push\<close> issue a Git
  command that changes a repository (\<^verbatim>\<open>update-ref\<close>, \<^verbatim>\<open>read-tree\<close>, \<^verbatim>\<open>push\<close>) only with the
  intent of that repository already in the journal, and a push only when the journal
  holds the local advancement of every repository of the change set.
\<close>

theorem effects_are_announced:
  assumes "in_step cs g s"
  shows "write_ahead cs (snd (advance_local SV s)) \<and> write_ahead cs (snd (push_saga SV s))"
proof
  show "write_ahead cs (snd (advance_local SV s))"
    by (rule triple_final [OF triple_advance_local assms])
      (auto simp: in_step_def dest: recoverable_write_ahead)
  show "write_ahead cs (snd (push_saga SV s))"
    by (rule triple_final [OF triple_push_saga assms])
      (auto simp: in_step_def dest: recoverable_write_ahead)
qed

theorem effects_are_announced_witness:
  "write_ahead [demo_candidate] (snd (advance_local demo_services demo_run)) \<and>
   (\<exists>ls. GitCall ''/'' [''update-ref'', ''refs/heads/m'', ''c'', ''h''] ls \<in>
      set (run_trace (snd (advance_local demo_services demo_run))))"
proof
  show "write_ahead [demo_candidate] (snd (advance_local demo_services demo_run))"
    using effects_are_announced [OF demo_in_step] by simp
  have "list_ex (\<lambda>e. case e of GitCall r a ls \<Rightarrow> r = ''/'' \<and>
        a = [''update-ref'', ''refs/heads/m'', ''c'', ''h''] | _ \<Rightarrow> False)
      (run_trace (snd (advance_local demo_services demo_run)))"
    by (simp add: advance_local_def advance_one_def advance_ref_def demo_eval demo_run_def
      demo_candidate_def new_saga_def mark_defs)
  then obtain e where e: "e \<in> set (run_trace (snd (advance_local demo_services demo_run)))"
    "case e of GitCall r a ls \<Rightarrow> r = ''/'' \<and>
        a = [''update-ref'', ''refs/heads/m'', ''c'', ''h''] | _ \<Rightarrow> False"
    unfolding list_ex_iff by blast
  then show "\<exists>ls. GitCall ''/'' [''update-ref'', ''refs/heads/m'', ''c'', ''h''] ls \<in>
      set (run_trace (snd (advance_local demo_services demo_run)))"
    by (cases e rule: effect.exhaust; simp) blast
qed

text \<open>
  \<^verbatim>\<open>RecoverExact\<close> resumes only for the plan that prepared the journal: there is one
  request per stored candidate, for the same resources, and each has the digest, branch,
  remote and change identifier of its candidate.
\<close>

theorem recover_exact_matches_plan:
  assumes "recover_exact SV rs s = (Inr u, s')"
  shows "replays_to (run_lines s) (run_saga s') \<and>
    length rs = length (sg_candidates (run_saga s')) \<and> distinct (map rq_resource rs) \<and>
    rq_resource ` set rs = resources (run_saga s') \<and>
    (\<forall>r \<in> set rs. \<exists>c \<in> set (sg_candidates (run_saga s')). request_matches SV r c)"
  using recover_exact_result [OF assms] by simp

definition demo_request :: change_request where
  "demo_request = \<lparr>rq_resource = ''r'', rq_repository = ''/'', rq_branch = ''m'',
     rq_remote = ''origin'', rq_change = ''x'', rq_title = ''t'', rq_description = [],
     rq_paths = [''a''], rq_hunks = [], rq_deleted = [], rq_policy = [], rq_reject = None\<rparr>"

theorem recover_exact_matches_plan_witness:
  "resources (run_saga (snd (recover_exact demo_services [demo_request] demo_run))) = {''r''}"
proof -
  have "fst (recover_exact demo_services [demo_request] demo_run) = Inr ()" by code_simp
  then have "recover_exact demo_services [demo_request] demo_run =
      (Inr (), snd (recover_exact demo_services [demo_request] demo_run))" by (metis prod.collapse)
  from recover_exact_matches_plan [OF this] show ?thesis by (simp add: demo_request_def)
qed

end
