(* ===== verification/Go_Maps.thy ===== *)
theory Go_Maps
  imports Workbench_Prelude
begin

text \<open>
  Go maps that the source also ranges over or counts, as association lists without
  repeated keys, and Go's unsigned arithmetic written out. A range over a map visits the
  list in order; where the source depends on nothing but the set of entries, so do the
  lemmas.

  The locale \<open>keyed_store\<close> is the interface the engine uses of such a map; it is
  interpreted on the association lists as \<open>assoc\<close>.
\<close>

definition u32 :: "nat \<Rightarrow> nat" where
  "u32 n = n mod 2 ^ 32"

definition u64 :: "nat \<Rightarrow> nat" where
  "u64 n = n mod 2 ^ 64"

definition max_u64 :: nat where
  "max_u64 = 2 ^ 64 - 1"

lemma u32_small: "n < 2 ^ 32 \<Longrightarrow> u32 n = n"
  by (simp add: u32_def)

lemma u64_small: "n < 2 ^ 64 \<Longrightarrow> u64 n = n"
  by (simp add: u64_def)

lemma u32_le: "u32 n \<le> n"
  by (simp add: u32_def)

definition map_put :: "'k \<Rightarrow> 'v \<Rightarrow> ('k \<times> 'v) list \<Rightarrow> ('k \<times> 'v) list" where
  "map_put k v m = filter (\<lambda>p. fst p \<noteq> k) m @ [(k, v)]"

definition map_del :: "'k \<Rightarrow> ('k \<times> 'v) list \<Rightarrow> ('k \<times> 'v) list" where
  "map_del k m = filter (\<lambda>p. fst p \<noteq> k) m"

definition map_ok :: "('k \<times> 'v) list \<Rightarrow> bool" where
  "map_ok m \<longleftrightarrow> distinct (map fst m)"

locale keyed_store =
  fixes look :: "'m \<Rightarrow> 'k \<Rightarrow> 'v option"
    and put :: "'k \<Rightarrow> 'v \<Rightarrow> 'm \<Rightarrow> 'm"
    and del :: "'k \<Rightarrow> 'm \<Rightarrow> 'm"
    and count :: "'m \<Rightarrow> nat"
    and ok :: "'m \<Rightarrow> bool"
  assumes look_put: "look (put k v m) j = (if j = k then Some v else look m j)"
    and look_del: "ok m \<Longrightarrow> look (del k m) j = (if j = k then None else look m j)"
    and put_ok: "ok m \<Longrightarrow> ok (put k v m)"
    and del_ok: "ok m \<Longrightarrow> ok (del k m)"
    and count_put: "ok m \<Longrightarrow> count (put k v m) = (if look m k = None then Suc (count m) else count m)"
    and count_del: "ok m \<Longrightarrow> count (del k m) = (if look m k = None then count m else count m - 1)"
begin

lemma put_then_del: "ok m \<Longrightarrow> look (del k (put k v m)) k = None"
  by (simp add: look_del put_ok)

lemma bounded_put: "ok m \<Longrightarrow> count m < n \<Longrightarrow> count (put k v m) \<le> n"
  by (simp add: count_put)

lemma bounded_del: "ok m \<Longrightarrow> count m \<le> n \<Longrightarrow> count (del k m) \<le> n"
  by (auto simp: count_del)

lemma put_all_ok: "ok m \<Longrightarrow> ok (fold (\<lambda>(k, v). put k v) kvs m)"
  by (induction kvs arbitrary: m) (auto simp: put_ok)

lemma look_put_all:
  "look (fold (\<lambda>(k, v). put k v) kvs m) j =
     (case map_of (rev kvs) j of None \<Rightarrow> look m j | Some v \<Rightarrow> Some v)"
  by (induction kvs arbitrary: m) (auto simp: look_put map_add_def split: option.splits)

lemma count_put_all: "ok m \<Longrightarrow> count (fold (\<lambda>(k, v). put k v) kvs m) \<le> count m + length kvs"
proof (induction kvs arbitrary: m)
  case (Cons kv kvs)
  obtain k v where kv: "kv = (k, v)" by (cases kv)
  have "count (fold (\<lambda>(k, v). put k v) kvs (put k v m)) \<le> count (put k v m) + length kvs"
    using Cons by (simp add: put_ok)
  also have "count (put k v m) \<le> Suc (count m)" using Cons.prems by (simp add: count_put)
  finally show ?case by (simp add: kv)
qed simp

end

lemma map_of_filter_key: "map_of (filter (\<lambda>p. fst p \<noteq> k) m) j = (if j = k then None else map_of m j)"
  by (induction m) auto

lemma map_del_absent: "k \<notin> fst ` set m \<Longrightarrow> map_del k m = m"
  by (auto simp: map_del_def filter_id_conv)

lemma length_map_del:
  "distinct (map fst m) \<Longrightarrow>
     length (map_del k m) = (if map_of m k = None then length m else length m - 1)"
proof (induction m)
  case (Cons p m)
  obtain j v where p: "p = (j, v)" by (cases p)
  show ?case
  proof (cases "j = k")
    case True
    then have "map_del k m = m" using Cons.prems p by (intro map_del_absent) auto
    with True p show ?thesis by (simp add: map_del_def)
  next
    case False
    with Cons p show ?thesis by (cases m) (auto simp: map_del_def)
  qed
qed (simp add: map_del_def)

lemma map_del_ok: "map_ok m \<Longrightarrow> map_ok (map_del k m)"
  by (simp add: map_ok_def map_del_def distinct_map_filter)

interpretation assoc: keyed_store map_of map_put map_del length map_ok
proof unfold_locales
  fix k :: 'k and v :: 'v and m :: "('k \<times> 'v) list" and j
  show "map_of (map_put k v m) j = (if j = k then Some v else map_of m j)"
    by (cases "map_of m j") (simp_all add: map_put_def map_add_def map_of_filter_key)
  show "map_of (map_del k m) j = (if j = k then None else map_of m j)" if "map_ok m"
    by (simp add: map_del_def map_of_filter_key)
  show "map_ok (map_put k v m)" if "map_ok m"
    using that by (auto simp: map_ok_def map_put_def distinct_map_filter)
  show "map_ok (map_del k m)" if "map_ok m" using that by (rule map_del_ok)
  show "length (map_del k m) = (if map_of m k = None then length m else length m - 1)" if "map_ok m"
    using that by (simp add: map_ok_def length_map_del)
  then show "length (map_put k v m) = (if map_of m k = None then Suc (length m) else length m)"
    if "map_ok m" using that by (cases m) (auto simp: map_put_def map_del_def)
qed

text \<open>Keeping the entries that satisfy a test, as the deleting loops over a map do.\<close>

lemma map_ok_filter: "map_ok m \<Longrightarrow> map_ok (filter P m)"
  by (simp add: map_ok_def distinct_map_filter)

lemma map_of_in: "map_ok m \<Longrightarrow> map_of m k = Some v \<longleftrightarrow> (k, v) \<in> set m"
  by (simp add: map_ok_def)

end
