(* ===== verification/Engine_Types.thy ===== *)
theory Engine_Types
  imports Go_Maps Go_Json Go_Numbers
begin

text \<open>
  The values the context engine exchanges and keeps (\<^verbatim>\<open>internal/contextapi\<close>, as far as
  \<^verbatim>\<open>internal/contextengine/engine.go\<close> uses them) and its state.

  String types of the source stay strings, so that every comparison with a constant has
  its other branch. Unsigned integers are naturals; every narrowing conversion and every
  addition that can wrap is written with \<open>u32\<close> and \<open>u64\<close> (a length is a non-negative
  \<^verbatim>\<open>int\<close> in Go, so its conversion to \<^verbatim>\<open>uint64\<close> is exact). An instant is an integer number of
  nanoseconds after Go's zero time, \<open>0\<close> being \<^verbatim>\<open>time.Time{}\<close>. Values are immutable here,
  so the source's \<^verbatim>\<open>clone\<close> functions are the identity and have no counterpart.
\<close>

type_synonym instant = int

record reason_value =
  rv_kind :: string
  rv_text :: string
  rv_number :: int
  rv_boolean :: bool
  rv_bytes :: nat
  rv_duration :: int

record reason =
  rs_code :: string
  rs_origin :: string
  rs_provider :: string
  rs_rule :: string
  rs_summary :: string
  rs_params :: "(string \<times> reason_value) list"
  rs_evidence :: "string list"
  rs_at :: instant

record source_identity =
  si_provider :: string
  si_id :: string

record source_ref =
  sr_identity :: source_identity
  sr_kind :: string
  sr_path :: string
  sr_label :: string

record source_revision =
  sv_source :: source_identity
  sv_revision :: string

record recruitment =
  rc_kind :: string
  rc_resource :: string

record content_id =
  ci_id :: string
  ci_bytes :: nat

record slot =
  sl_provider :: string
  sl_key :: string

record contribution =
  cb_slot :: slot
  cb_source :: source_ref
  cb_revision :: source_revision
  cb_content :: content_id
  cb_body :: string
  cb_recruitment :: recruitment
  cb_contributor :: string
  cb_config :: string
  cb_profile :: string
  cb_priority :: int
  cb_reasons :: "reason list"

record item_identity =
  ii_slot :: slot
  ii_source :: source_identity
  ii_revision :: source_revision
  ii_content :: content_id
  ii_mode :: string

record offer_item =
  oi_identity :: item_identity
  oi_source :: source_ref
  oi_recruitment :: recruitment
  oi_body :: string

record audience =
  au_id :: string
  au_epoch :: nat
  au_continuity :: string

record offer_identity =
  of_generation :: nat
  of_id :: nat
  of_audience :: audience
  of_opportunity :: string
  of_surface :: string
  of_items :: "item_identity list"
  of_body :: content_id

record offer =
  offer_identity :: offer_identity
  offer_items :: "offer_item list"
  offer_body :: string

record receipt =
  rp_generation :: nat
  rp_audience :: audience
  rp_item :: item_identity
  rp_at :: instant

record scope_identity =
  sc_id :: string
  sc_authority :: string
  sc_root :: string
  sc_config :: string

record partition_id =
  pt_scope :: scope_identity
  pt_audience :: audience
  pt_generation :: nat
  pt_config :: string

record engine_limits =
  lm_item_bytes :: nat
  lm_pending_bytes :: nat
  lm_pending_items :: nat
  lm_age_ms :: nat
  lm_live :: nat
  lm_receipts :: nat
  lm_offer_age_ms :: nat
  lm_retained :: nat

record opportunity =
  op_id :: string
  op_surface :: string
  op_available :: bool
  op_max_bytes :: nat
  op_max_items :: nat

record admission =
  ad_items :: nat
  ad_memory :: nat
  ad_offers :: nat
  ad_receipts :: nat

record fact_value =
  fv_kind :: string
  fv_text :: string
  fv_number :: int
  fv_boolean :: bool

record task_ref =
  tk_id :: string
  tk_kind :: string

record profile_scope =
  fs_directory :: string
  fs_audience :: audience
  fs_task :: task_ref

record validity =
  vd_policy :: string
  vd_not_before :: instant
  vd_expires :: instant
  vd_refresh :: instant
  vd_rule :: string
  vd_inputs :: "(string \<times> reason_value) list"

record provenance =
  pr_origin :: string
  pr_provider :: string
  pr_rule :: string
  pr_revision :: source_revision

record profile_fact =
  ft_key :: string
  ft_value :: fact_value
  ft_scope :: profile_scope
  ft_validity :: validity
  ft_provenance :: provenance

record profile =
  pf_revision :: string
  pf_audience :: audience
  pf_facts :: "profile_fact list"
  pf_generated :: instant
  pf_valid_until :: instant

record plan_input =
  pi_now :: instant
  pi_active :: bool
  pi_scope :: scope_identity
  pi_config :: string
  pi_audience :: audience
  pi_generation :: nat
  pi_transition :: string
  pi_profile :: profile
  pi_contributions :: "contribution list"
  pi_opportunity :: opportunity

record decision =
  dc_state :: string
  dc_offer :: "offer option"
  dc_reasons :: "reason list"

record withdrawal =
  wd_now :: instant
  wd_scope :: scope_identity
  wd_audience :: audience
  wd_generation :: nat
  wd_config :: string
  wd_item :: item_identity

record withdrawal_result =
  wr_removed :: nat
  wr_revoked :: nat
  wr_reasons :: "reason list"

record confirmation =
  cf_identity :: offer_identity
  cf_handoff :: string
  cf_emitted :: content_id
  cf_at :: instant
  cf_active :: bool
  cf_scope :: scope_identity
  cf_audience :: audience
  cf_config :: string
  cf_profile :: string
  cf_valid_until :: instant

record confirmation_result =
  cr_state :: string
  cr_receipts :: "receipt list"
  cr_reasons :: "reason list"

section \<open>The state of an engine\<close>

record pending_item =
  pn_contribution :: contribution
  pn_admitted :: instant

record pending_group =
  pg_items :: "pending_item list"
  pg_first_seen :: instant
  pg_semantic :: string

record live_offer =
  lo_offer :: offer
  lo_profile :: string
  lo_valid_until :: instant
  lo_config :: string
  lo_offered_at :: instant

record completed_offer =
  co_identity :: offer_identity
  co_profile :: string
  co_valid_until :: instant
  co_receipts :: "receipt list"

record receipt_key =
  rk_slot :: slot
  rk_source :: source_identity
  rk_revision :: string
  rk_content :: string
  rk_bytes :: nat

record source_slot =
  ss_slot :: slot
  ss_source :: source_identity

record engine =
  en_partition :: partition_id
  en_limits :: engine_limits
  en_pending :: "pending_group list"
  en_pending_bytes :: nat
  en_live :: "(nat \<times> live_offer) list"
  en_receipts :: "(receipt_key \<times> instant) list"
  en_completed :: "(nat \<times> completed_offer) list"
  en_next_id :: nat

section \<open>Identities and instants\<close>

definition full_body :: string where
  "full_body = ''full-body''"

definition reason_at :: "string \<Rightarrow> string \<Rightarrow> instant \<Rightarrow> string \<Rightarrow> reason" where
  "reason_at c origin at summary = \<lparr>rs_code = c, rs_origin = origin, rs_provider = [],
     rs_rule = [], rs_summary = summary, rs_params = [], rs_evidence = [], rs_at = at\<rparr>"

text \<open>\<^verbatim>\<open>sha256.Sum256\<close> and hex encoding are the parameter \<open>sha\<close>.\<close>

definition content_identity :: "(string \<Rightarrow> string) \<Rightarrow> string \<Rightarrow> content_id" where
  "content_identity sha body = \<lparr>ci_id = ''sha256:'' @ sha body, ci_bytes = length body\<rparr>"

definition item_of :: "contribution \<Rightarrow> item_identity" where
  "item_of c = \<lparr>ii_slot = cb_slot c, ii_source = sr_identity (cb_source c),
     ii_revision = cb_revision c, ii_content = cb_content c, ii_mode = full_body\<rparr>"

definition receipt_key_of :: "item_identity \<Rightarrow> receipt_key" where
  "receipt_key_of i = \<lparr>rk_slot = ii_slot i, rk_source = ii_source i,
     rk_revision = sv_revision (ii_revision i), rk_content = ci_id (ii_content i),
     rk_bytes = ci_bytes (ii_content i)\<rparr>"

definition source_slot_of :: "contribution \<Rightarrow> source_slot" where
  "source_slot_of c = \<lparr>ss_slot = cb_slot c, ss_source = sr_identity (cb_source c)\<rparr>"

definition slot_of_item :: "item_identity \<Rightarrow> source_slot" where
  "slot_of_item i = \<lparr>ss_slot = ii_slot i, ss_source = ii_source i\<rparr>"

definition same_offer_item :: "item_identity \<Rightarrow> item_identity \<Rightarrow> bool" where
  "same_offer_item a b \<longleftrightarrow>
     ii_slot a = ii_slot b \<and> ii_source a = ii_source b \<and> ii_revision a = ii_revision b \<and>
     ii_content a = ii_content b \<and> ii_mode a = ii_mode b"

definition same_scope_root :: "scope_identity \<Rightarrow> scope_identity \<Rightarrow> bool" where
  "same_scope_root a b \<longleftrightarrow>
     sc_id a = sc_id b \<and> sc_authority a = sc_authority b \<and> sc_root a = sc_root b"

definition same_audience :: "audience \<Rightarrow> audience \<Rightarrow> bool" where
  "same_audience a b \<longleftrightarrow> au_id a = au_id b \<and> au_epoch a = au_epoch b"

definition same_content :: "content_id \<Rightarrow> content_id \<Rightarrow> bool" where
  "same_content a b \<longleftrightarrow> ci_id a = ci_id b \<and> ci_bytes a = ci_bytes b"

definition same_offer_identity :: "offer_identity \<Rightarrow> offer_identity \<Rightarrow> bool" where
  "same_offer_identity a b \<longleftrightarrow>
     of_generation a = of_generation b \<and> of_id a = of_id b \<and>
     same_audience (of_audience a) (of_audience b) \<and> of_opportunity a = of_opportunity b \<and>
     of_surface a = of_surface b \<and> same_content (of_body a) (of_body b) \<and>
     list_all2 same_offer_item (of_items a) (of_items b)"

definition offer_item_identities :: "offer_item list \<Rightarrow> item_identity list" where
  "offer_item_identities items = map oi_identity items"

text \<open>\<^verbatim>\<open>time.Time.Sub\<close> saturates; a \<^verbatim>\<open>time.Duration\<close> product wraps in 64 bits.\<close>

definition time_sub :: "instant \<Rightarrow> instant \<Rightarrow> int" where
  "time_sub now start = max (- (2 ^ 63)) (min (2 ^ 63 - 1) (now - start))"

definition age_exceeded :: "instant \<Rightarrow> instant \<Rightarrow> nat \<Rightarrow> bool" where
  "age_exceeded start now max_ms =
     (if start = 0 \<or> now = 0 \<or> now < start then False
      else time_sub now start \<ge> i64 (i64 (int max_ms) * 1000000))"

definition offer_expired :: "instant \<Rightarrow> instant \<Rightarrow> nat \<Rightarrow> bool" where
  "offer_expired at now max_ms \<longleftrightarrow> at \<noteq> 0 \<and> now \<noteq> 0 \<and> age_exceeded at now max_ms"

definition deadline_passed :: "instant \<Rightarrow> instant \<Rightarrow> bool" where
  "deadline_passed deadline now \<longleftrightarrow> deadline \<noteq> 0 \<and> now \<noteq> 0 \<and> \<not> now < deadline"

definition profile_expired :: "profile \<Rightarrow> instant \<Rightarrow> bool" where
  "profile_expired p now \<longleftrightarrow> pf_valid_until p \<noteq> 0 \<and> now \<noteq> 0 \<and> \<not> now < pf_valid_until p"

definition profile_audience_matches :: "profile \<Rightarrow> audience \<Rightarrow> bool" where
  "profile_audience_matches p a \<longleftrightarrow>
     au_id (pf_audience p) = [] \<and> au_epoch (pf_audience p) = 0 \<or> same_audience (pf_audience p) a"

definition earlier :: "instant \<Rightarrow> instant \<Rightarrow> instant" where
  "earlier a b = (if a = 0 \<or> b \<noteq> 0 \<and> b < a then b else a)"

lemma same_offer_item_eq: "same_offer_item a b \<longleftrightarrow> a = b"
  by (cases a; cases b) (simp add: same_offer_item_def)

lemma slot_of_item_of [simp]: "slot_of_item (item_of c) = source_slot_of c"
  by (simp add: slot_of_item_def item_of_def source_slot_of_def)

text \<open>Within the bounds \<^verbatim>\<open>NewEngine\<close> demands, the age test compares milliseconds.\<close>

lemma age_exceeded_bounded:
  assumes "max_ms \<le> (2 ^ 63 - 1) div 1000000" and "start \<noteq> 0" and "now \<noteq> 0" and "start \<le> now"
  shows "age_exceeded start now max_ms \<longleftrightarrow> 1000000 * int max_ms \<le> now - start"
proof -
  from assms(1) have ms: "int max_ms * 1000000 \<le> 2 ^ 63 - 1" by simp
  then have "i64 (int max_ms) = int max_ms" by (simp add: i64_def)
  moreover have "i64 (int max_ms * 1000000) = int max_ms * 1000000"
    using ms by (simp add: i64_def)
  ultimately show ?thesis
    using assms ms by (auto simp: age_exceeded_def time_sub_def max_def min_def)
qed

end
