(* ===== verification/Engine_Queue.thy ===== *)
theory Engine_Queue
  imports Engine_Types
begin

text \<open>
  The pending queue of the context engine: the functions of
  \<^verbatim>\<open>internal/contextengine/engine.go\<close> on \<^verbatim>\<open>[]pendingGroup\<close>, in the order the planning
  code calls them, with the lemmas that say what each keeps and removes.

  The set \<^verbatim>\<open>newItems\<close> of item identities is a list here, read through \<open>set\<close>.
\<close>

section \<open>Reading the queue\<close>

definition item_identity_of :: "pending_item \<Rightarrow> item_identity" where
  "item_identity_of it = item_of (pn_contribution it)"

definition pending_items :: "pending_group list \<Rightarrow> pending_item list" where
  "pending_items gs = concat (map pg_items gs)"

definition pending_item_count :: "pending_group list \<Rightarrow> nat" where
  "pending_item_count gs = foldl (\<lambda>tot g. tot + length (pg_items g)) 0 gs"

definition add_label :: "string list \<Rightarrow> pending_item \<Rightarrow> string list" where
  "add_label labels it =
     (let label = sr_label (cb_source (pn_contribution it))
      in if label = [] \<or> label \<in> set labels then labels else labels @ [label])"

definition render_group :: "pending_group \<Rightarrow> string" where
  "render_group g =
     (case pg_items g of
        [] \<Rightarrow> []
      | it # _ \<Rightarrow>
          (let body = cb_body (pn_contribution it);
               labels = foldl add_label [] (pg_items g)
           in if labels = [] then body
              else ''Sources: '' @ join '', '' (sort labels) @ [CHR 0x0A] @ body))"

definition group_priority :: "pending_group \<Rightarrow> int" where
  "group_priority g =
     (case pg_items g of
        [] \<Rightarrow> 0
      | it # its \<Rightarrow>
          foldl (\<lambda>p it. if cb_priority (pn_contribution it) > p
                         then cb_priority (pn_contribution it) else p)
                (cb_priority (pn_contribution it)) its)"

definition contains_pending :: "pending_group list \<Rightarrow> contribution \<Rightarrow> bool" where
  "contains_pending gs c \<longleftrightarrow>
     list_ex (\<lambda>g. list_ex (\<lambda>it. same_offer_item (item_identity_of it) (item_of c)) (pg_items g)) gs"

text \<open>The byte total, and whether it is refused: \<^verbatim>\<open>(0, true)\<close> in the source.\<close>

fun pending_bytes_from :: "nat \<Rightarrow> pending_group list \<Rightarrow> nat \<Rightarrow> nat \<times> bool" where
  "pending_bytes_from tot [] max_item = (tot, False)"
| "pending_bytes_from tot (g # gs) max_item =
     (let n = length (render_group g)
      in if n > max_item then (0, True)
         else if n > max_u64 - tot then (0, True)
         else pending_bytes_from (tot + n) gs max_item)"

definition pending_bytes :: "pending_group list \<Rightarrow> nat \<Rightarrow> nat \<times> bool" where
  "pending_bytes gs max_item = pending_bytes_from 0 gs max_item"

section \<open>Removing from the queue\<close>

definition remove_empty_groups :: "pending_group list \<Rightarrow> pending_group list" where
  "remove_empty_groups gs = filter (\<lambda>g. length (pg_items g) \<noteq> 0) gs"

definition remove_source :: "pending_group list \<Rightarrow> source_slot \<Rightarrow> pending_group list" where
  "remove_source gs key = remove_empty_groups
     (map (\<lambda>g. g\<lparr>pg_items := filter (\<lambda>it. source_slot_of (pn_contribution it) \<noteq> key) (pg_items g)\<rparr>) gs)"

definition remove_exact_items ::
    "pending_group list \<Rightarrow> item_identity list \<Rightarrow> pending_group list" where
  "remove_exact_items gs want = remove_empty_groups
     (map (\<lambda>g. g\<lparr>pg_items :=
         filter (\<lambda>it. \<not> list_ex (same_offer_item (item_identity_of it)) want) (pg_items g)\<rparr>) gs)"

definition remove_pending_item ::
    "pending_group list \<Rightarrow> item_identity \<Rightarrow> pending_group list \<times> nat" where
  "remove_pending_item gs want =
     (remove_empty_groups
        (map (\<lambda>g. g\<lparr>pg_items :=
            filter (\<lambda>it. \<not> same_offer_item (item_identity_of it) want) (pg_items g)\<rparr>) gs),
      foldl (\<lambda>removed it. if same_offer_item (item_identity_of it) want
                           then u32 (removed + 1) else removed)
            0 (pending_items gs))"

section \<open>Fitting the queue to its bounds\<close>

definition dropped :: "instant \<Rightarrow> string \<Rightarrow> pending_item \<Rightarrow> reason" where
  "dropped at summary it =
     (reason_at ''delivery.queue-full'' ''provider'' at summary)
       \<lparr>rs_provider := cb_contributor (pn_contribution it)\<rparr>"

function shrink_group ::
    "nat \<Rightarrow> instant \<Rightarrow> pending_group \<Rightarrow> reason list \<Rightarrow> pending_group \<times> reason list" where
  "shrink_group max_item at g reasons =
     (if length (pg_items g) > 0 \<and> length (render_group g) > max_item
      then shrink_group max_item at (g\<lparr>pg_items := butlast (pg_items g)\<rparr>)
             (reasons @ [dropped at
                ''contribution render exceeded the item bound; contribution was dropped''
                (last (pg_items g))])
      else (g, reasons))"
  by pat_completeness auto

termination shrink_group
  by (relation "measure (\<lambda>(_, _, g, _). length (pg_items g))") auto

declare shrink_group.simps [simp del]

fun isolate_oversized_items ::
    "pending_group list \<Rightarrow> nat \<Rightarrow> instant \<Rightarrow> pending_group list \<times> reason list" where
  "isolate_oversized_items [] max_item at = ([], [])"
| "isolate_oversized_items (g # gs) max_item at =
     (let (g', r) = shrink_group max_item at g [];
          (gs', rs) = isolate_oversized_items gs max_item at
      in (if length (pg_items g') > 0 then g' # gs' else gs', r @ rs))"

text \<open>
  The search of both trimming loops: groups and items from the last to the first, for an
  item of the call being planned whose removal removes something.
\<close>

definition trim_victim :: "pending_group list \<Rightarrow> item_identity list \<Rightarrow> pending_item option" where
  "trim_victim gs new_items =
     List.find (\<lambda>it. item_identity_of it \<in> set new_items \<and>
                     snd (remove_pending_item gs (item_identity_of it)) \<noteq> 0)
       (rev (pending_items gs))"

lemma trim_victim_new:
  "trim_victim gs new_items = Some it \<Longrightarrow> item_identity_of it \<in> set new_items \<and> it \<in> set (pending_items gs)"
  by (auto simp: trim_victim_def find_Some_iff set_conv_nth rev_nth)

lemma removeAll_shorter: "x \<in> set xs \<Longrightarrow> length (removeAll x xs) < length xs"
  by (induction xs) (auto simp: le_imp_less_Suc length_removeAll_less_eq)

function trim_new_items ::
    "pending_group list \<Rightarrow> item_identity list \<Rightarrow> nat \<Rightarrow> instant \<Rightarrow> reason list
      \<Rightarrow> pending_group list \<times> item_identity list \<times> reason list" where
  "trim_new_items gs new_items max_items at reasons =
     (if u32 (pending_item_count gs) > max_items then
        (case trim_victim gs new_items of
           None \<Rightarrow> (gs, new_items, reasons)
         | Some it \<Rightarrow>
             trim_new_items (fst (remove_pending_item gs (item_identity_of it)))
               (removeAll (item_identity_of it) new_items) max_items at
               (reasons @ [dropped at
                  ''new contribution exceeded the pending-item bound; contribution was dropped'' it]))
      else (gs, new_items, reasons))"
  by pat_completeness auto

termination trim_new_items
  by (relation "measure (\<lambda>(_, new_items, _, _, _). length new_items)")
    (auto dest!: trim_victim_new simp: removeAll_shorter)

declare trim_new_items.simps [simp del]

function trim_new_items_by_bytes ::
    "pending_group list \<Rightarrow> item_identity list \<Rightarrow> nat \<Rightarrow> instant \<Rightarrow> reason list
      \<Rightarrow> pending_group list \<times> item_identity list \<times> reason list" where
  "trim_new_items_by_bytes gs new_items max_bytes at reasons =
     (let (tot, overflow) = pending_bytes gs max_u64
      in if \<not> overflow \<and> tot \<le> max_bytes then (gs, new_items, reasons)
         else (case trim_victim gs new_items of
            None \<Rightarrow> (gs, new_items, reasons)
          | Some it \<Rightarrow>
              trim_new_items_by_bytes (fst (remove_pending_item gs (item_identity_of it)))
                (removeAll (item_identity_of it) new_items) max_bytes at
                (reasons @ [dropped at
                   ''new contribution exceeded the pending-byte bound; contribution was dropped'' it])))"
  by pat_completeness auto

termination trim_new_items_by_bytes
  by (relation "measure (\<lambda>(_, new_items, _, _, _). length new_items)")
    (auto dest!: trim_victim_new simp: removeAll_shorter)

declare trim_new_items_by_bytes.simps [simp del]

section \<open>Adding to the queue\<close>

fun find_group :: "pending_group list \<Rightarrow> string \<Rightarrow> nat option" where
  "find_group [] semantic = None"
| "find_group (g # gs) semantic =
     (if pg_semantic g = semantic then Some 0 else map_option Suc (find_group gs semantic))"

text \<open>The tail of one round of the admission loop: the contribution joins its group or opens one.\<close>

definition add_pending :: "pending_group list \<Rightarrow> contribution \<Rightarrow> instant \<Rightarrow> pending_group list" where
  "add_pending gs c at =
     (case find_group gs (cb_body c) of
        None \<Rightarrow> gs @ [\<lparr>pg_items = [\<lparr>pn_contribution = c, pn_admitted = at\<rparr>],
                       pg_first_seen = at, pg_semantic = cb_body c\<rparr>]
      | Some i \<Rightarrow> gs[i := (gs ! i)\<lparr>
            pg_items := pg_items (gs ! i) @ [\<lparr>pn_contribution = c, pn_admitted = at\<rparr>],
            pg_first_seen := earlier (pg_first_seen (gs ! i)) at\<rparr>])"

definition append_unique_source :: "source_slot list \<Rightarrow> source_slot \<Rightarrow> source_slot list" where
  "append_unique_source keys key = (if key \<in> set keys then keys else keys @ [key])"

end
