(* ===== verification/Engine_Budget.thy ===== *)
theory Engine_Budget
  imports Engine_Queue
begin

text \<open>
  The retained-byte accounting of the context engine (\<^verbatim>\<open>internal/contextengine/engine.go\<close>)
  and the global admission test built on it. Every amount is a \<^verbatim>\<open>uint64\<close>; the total
  saturates, the amounts themselves may wrap.
\<close>

section \<open>Saturating totals\<close>

definition add_retained :: "nat \<Rightarrow> nat \<Rightarrow> nat" where
  "add_retained tot amount = (if amount > max_u64 - tot then max_u64 else tot + amount)"

definition source_identity_bytes :: "source_identity \<Rightarrow> nat" where
  "source_identity_bytes s = length (si_provider s) + length (si_id s)"

definition item_identity_bytes :: "item_identity \<Rightarrow> nat" where
  "item_identity_bytes i =
     u64 (length (sl_provider (ii_slot i)) + length (sl_key (ii_slot i)) +
          source_identity_bytes (ii_source i) + source_identity_bytes (sv_source (ii_revision i)) +
          (length (sv_revision (ii_revision i)) + length (ci_id (ii_content i))))"

definition receipt_key_bytes :: "receipt_key \<Rightarrow> nat" where
  "receipt_key_bytes k =
     u64 (length (sl_provider (rk_slot k)) + length (sl_key (rk_slot k)) +
          source_identity_bytes (rk_source k) +
          (length (rk_revision k) + length (rk_content k)))"

definition reason_bytes :: "nat \<Rightarrow> reason \<Rightarrow> nat" where
  "reason_bytes tot r =
     foldl (\<lambda>tot (k, v). add_retained tot (u64 (length k + length (rv_text v) + 24)))
       (add_retained tot
         (u64 (length (rs_provider r) + length (rs_rule r) + length (rs_summary r) + 32)))
       (rs_params r)"

definition contribution_bytes :: "contribution \<Rightarrow> nat" where
  "contribution_bytes c =
     (let tot = add_retained 0 (length (cb_body c));
          tot = add_retained tot (length (sl_provider (cb_slot c)) + length (sl_key (cb_slot c)));
          tot = add_retained tot (source_identity_bytes (sr_identity (cb_source c)));
          tot = add_retained tot (length (sr_path (cb_source c)) + length (sr_label (cb_source c)));
          tot = add_retained tot
            (length (sv_revision (cb_revision c)) + length (rc_resource (cb_recruitment c)));
          tot = add_retained tot
            (length (ci_id (cb_content c)) + length (cb_contributor c) +
             length (cb_config c) + length (cb_profile c))
      in foldl reason_bytes tot (cb_reasons c))"

definition offer_identity_bytes :: "offer_identity \<Rightarrow> nat" where
  "offer_identity_bytes i =
     foldl (\<lambda>tot it. add_retained tot (item_identity_bytes it))
       (add_retained 0 (length (au_id (of_audience i)) + length (of_opportunity i) +
                        length (of_surface i) + length (ci_id (of_body i))))
       (of_items i)"

definition offer_bytes :: "offer \<Rightarrow> nat" where
  "offer_bytes o1 =
     foldl (\<lambda>tot it. add_retained tot
               (u64 (length (oi_body it) + length (sr_path (oi_source it)) +
                     length (sr_label (oi_source it)) + length (rc_resource (oi_recruitment it)) +
                     item_identity_bytes (oi_identity it))))
       (add_retained 0 (u64 (length (offer_body o1) + offer_identity_bytes (offer_identity o1))))
       (offer_items o1)"

definition pending_retained :: "nat \<Rightarrow> pending_group list \<Rightarrow> nat" where
  "pending_retained tot gs =
     foldl (\<lambda>tot g. foldl (\<lambda>tot it. add_retained tot
                            (u64 (contribution_bytes (pn_contribution it) + 32)))
              (add_retained tot (u64 (length (pg_semantic g) + 32))) (pg_items g)) tot gs"

definition completed_retained :: "nat \<Rightarrow> completed_offer \<Rightarrow> nat" where
  "completed_retained tot c =
     foldl (\<lambda>tot r. add_retained tot (u64 (item_identity_bytes (rp_item r) + 32)))
       (add_retained tot (u64 (offer_identity_bytes (co_identity c) + 64))) (co_receipts c)"

definition retained_bytes ::
    "pending_group list \<Rightarrow> (nat \<times> live_offer) list \<Rightarrow> (receipt_key \<times> instant) list
      \<Rightarrow> (nat \<times> completed_offer) list \<Rightarrow> nat" where
  "retained_bytes pending live receipts completed =
     foldl (\<lambda>tot (_, c). completed_retained tot c)
       (foldl (\<lambda>tot (k, _). add_retained tot (u64 (receipt_key_bytes k + 32)))
         (foldl (\<lambda>tot (_, l). add_retained tot (u64 (offer_bytes (lo_offer l) + 64)))
           (pending_retained 0 pending) live)
         receipts)
       completed"

section \<open>The global admission test\<close>

definition number_value :: "nat \<Rightarrow> reason_value" where
  "number_value n = \<lparr>rv_kind = ''number'', rv_text = [], rv_number = int n, rv_boolean = False,
     rv_bytes = 0, rv_duration = 0\<rparr>"

definition bytes_value :: "nat \<Rightarrow> reason_value" where
  "bytes_value n = \<lparr>rv_kind = ''bytes'', rv_text = [], rv_number = 0, rv_boolean = False,
     rv_bytes = n, rv_duration = 0\<rparr>"

definition global_admission_failure ::
    "pending_group list \<Rightarrow> (nat \<times> live_offer) list \<Rightarrow> (receipt_key \<times> instant) list
      \<Rightarrow> (nat \<times> completed_offer) list \<Rightarrow> nat \<Rightarrow> instant \<Rightarrow> admission \<Rightarrow> reason option" where
  "global_admission_failure pending live receipts completed delta at adm =
     (let items = u32 (pending_item_count pending);
          bytes = retained_bytes pending live receipts completed;
          offers = u32 (length live);
          count = u32 (length receipts);
          params = [(''pendingItems'', number_value items), (''retainedBytes'', bytes_value bytes),
                    (''outstandingOffers'', number_value offers), (''receipts'', number_value count),
                    (''receiptDelta'', number_value delta)];
          failure = (\<lambda>code summary.
            Some ((reason_at code ''runtime'' at summary)\<lparr>rs_params := params\<rparr>))
      in if items > ad_items adm then
           failure ''delivery.queue-full''
             ''global pending-item grant would be exceeded by the target engine total''
         else if bytes > ad_memory adm then
           failure ''delivery.queue-full''
             ''global retained-memory grant would be exceeded by the target engine total''
         else if offers > ad_offers adm then
           failure ''delivery.no-room''
             ''global outstanding-offer grant would be exceeded by the target engine total''
         else if count > ad_receipts adm then
           failure ''delivery.receipt-limit''
             ''global receipt grant would be exceeded by the target engine total''
         else None)"

section \<open>The total as a capped sum\<close>

text \<open>
  The accounting is the sum of a list of amounts, capped at the largest \<^verbatim>\<open>uint64\<close>; so it
  does not depend on the order of a map range, and dropping entries never raises it.
\<close>

definition saturating :: "nat \<Rightarrow> nat list \<Rightarrow> nat" where
  "saturating tot amounts = foldl add_retained tot amounts"

lemma saturating_sum:
  "tot \<le> max_u64 \<Longrightarrow> saturating tot amounts = min max_u64 (tot + sum_list amounts)"
proof (induction amounts arbitrary: tot)
  case (Cons a amounts)
  have "add_retained tot a \<le> max_u64" using Cons.prems by (auto simp: add_retained_def)
  then show ?case using Cons by (auto simp: saturating_def add_retained_def)
qed (simp add: saturating_def)

definition group_amounts :: "pending_group \<Rightarrow> nat list" where
  "group_amounts g =
     u64 (length (pg_semantic g) + 32) #
     map (\<lambda>it. u64 (contribution_bytes (pn_contribution it) + 32)) (pg_items g)"

definition completed_amounts :: "completed_offer \<Rightarrow> nat list" where
  "completed_amounts c =
     u64 (offer_identity_bytes (co_identity c) + 64) #
     map (\<lambda>r. u64 (item_identity_bytes (rp_item r) + 32)) (co_receipts c)"

definition retained_sum ::
    "pending_group list \<Rightarrow> (nat \<times> live_offer) list \<Rightarrow> (receipt_key \<times> instant) list
      \<Rightarrow> (nat \<times> completed_offer) list \<Rightarrow> nat" where
  "retained_sum pending live receipts completed =
     (\<Sum>g\<leftarrow>pending. sum_list (group_amounts g)) +
     (\<Sum>p\<leftarrow>live. u64 (offer_bytes (lo_offer (snd p)) + 64)) +
     (\<Sum>p\<leftarrow>receipts. u64 (receipt_key_bytes (fst p) + 32)) +
     (\<Sum>p\<leftarrow>completed. sum_list (completed_amounts (snd p)))"

lemma saturating_map: "foldl (\<lambda>tot x. add_retained tot (f x)) tot xs = saturating tot (map f xs)"
  by (simp add: saturating_def foldl_map)

lemma saturating_concat:
  "foldl (\<lambda>tot x. saturating tot (f x)) tot xs = saturating tot (concat (map f xs))"
  by (induction xs arbitrary: tot) (simp_all add: saturating_def)

lemma saturating_cons: "saturating (add_retained tot a) xs = saturating tot (a # xs)"
  by (simp add: saturating_def)

lemma saturating_append: "saturating (saturating tot xs) ys = saturating tot (xs @ ys)"
  by (simp add: saturating_def)

lemma pending_retained_saturating:
  "pending_retained tot gs = saturating tot (concat (map group_amounts gs))"
  by (simp add: pending_retained_def saturating_map saturating_cons group_amounts_def
      flip: saturating_concat)

lemma completed_retained_saturating: "completed_retained tot c = saturating tot (completed_amounts c)"
  by (simp add: completed_retained_def saturating_map saturating_cons completed_amounts_def)

lemma sum_list_concat: "sum_list (concat (map f xs)) = (\<Sum>x\<leftarrow>xs. sum_list (f x))"
  by (induction xs) auto

lemma retained_bytes_sum:
  "retained_bytes pending live receipts completed =
     min max_u64 (retained_sum pending live receipts completed)"
proof -
  have "retained_bytes pending live receipts completed =
    saturating 0 (concat (map group_amounts pending) @
      map (\<lambda>p. u64 (offer_bytes (lo_offer (snd p)) + 64)) live @
      map (\<lambda>p. u64 (receipt_key_bytes (fst p) + 32)) receipts @
      concat (map (\<lambda>p. completed_amounts (snd p)) completed))"
    by (simp add: retained_bytes_def pending_retained_saturating completed_retained_saturating
        case_prod_unfold saturating_map saturating_concat saturating_append)
  then show ?thesis by (simp add: saturating_sum retained_sum_def sum_list_concat)
qed

lemma global_admission_delta:
  "global_admission_failure pending live receipts completed d at adm = None \<longleftrightarrow>
     u32 (pending_item_count pending) \<le> ad_items adm \<and>
     retained_bytes pending live receipts completed \<le> ad_memory adm \<and>
     u32 (length live) \<le> ad_offers adm \<and> u32 (length receipts) \<le> ad_receipts adm"
  by (auto simp: global_admission_failure_def Let_def)

end
