(* ===== verification/Engine_Core.thy ===== *)
theory Engine_Core
  imports Engine_Budget "HOL-Library.Product_Lexorder"
begin

text \<open>
  The operations of the context engine (\<^verbatim>\<open>internal/contextengine/engine.go\<close>): \<^verbatim>\<open>NewEngine\<close>,
  \<^verbatim>\<open>Stats\<close>, \<^verbatim>\<open>PendingSources\<close>, \<^verbatim>\<open>Withdraw\<close>, \<^verbatim>\<open>Plan\<close> and \<^verbatim>\<open>Confirm\<close>, each a function from the
  engine's state to a result and the next state. The mutex makes each call one step.

  \<^verbatim>\<open>Plan\<close> is composed of the stages its body has: the guards, the expiry, the admission loop,
  the fitting of the queue to its bounds, and the construction of an offer. \<open>sha\<close> stands for
  the hexadecimal SHA-256 digest.
\<close>

section \<open>Construction and inspection\<close>

datatype engine_error = Invalid_limits | Invalid_partition

definition max_duration_ms :: nat where
  "max_duration_ms = (2 ^ 63 - 1) div 1000000"

definition new_engine :: "partition_id \<Rightarrow> engine_limits \<Rightarrow> engine_error + engine" where
  "new_engine p l =
     (if sc_id (pt_scope p) = [] \<or> sc_authority (pt_scope p) = [] \<or> sc_root (pt_scope p) = [] \<or>
         sc_config (pt_scope p) = [] \<or> pt_config p = [] \<or>
         au_id (pt_audience p) = [] \<or> au_epoch (pt_audience p) = 0 \<or> pt_generation p = 0
      then Inl Invalid_partition
      else if lm_item_bytes l = 0 \<or> lm_pending_bytes l = 0 \<or> lm_pending_items l = 0 \<or>
         lm_age_ms l = 0 \<or> lm_live l = 0 \<or> lm_receipts l = 0 \<or> lm_offer_age_ms l = 0 \<or>
         lm_retained l = 0 \<or> lm_age_ms l > max_duration_ms \<or> lm_offer_age_ms l > max_duration_ms
      then Inl Invalid_limits
      else Inr \<lparr>en_partition = p, en_limits = l, en_pending = [], en_pending_bytes = 0,
                en_live = [], en_receipts = [], en_completed = [], en_next_id = 0\<rparr>)"

record engine_stats =
  st_pending_bytes :: nat
  st_pending_items :: nat
  st_live :: nat
  st_receipts :: nat
  st_retained :: nat

definition engine_retained :: "engine \<Rightarrow> nat" where
  "engine_retained e =
     retained_bytes (en_pending e) (en_live e) (en_receipts e) (en_completed e)"

definition engine_stats_of :: "engine \<Rightarrow> engine_stats" where
  "engine_stats_of e = \<lparr>st_pending_bytes = en_pending_bytes e,
     st_pending_items = u32 (pending_item_count (en_pending e)), st_live = u32 (length (en_live e)),
     st_receipts = u32 (length (en_receipts e)), st_retained = engine_retained e\<rparr>"

record pending_source =
  ps_identity :: item_identity
  ps_source :: source_ref
  ps_recruitment :: recruitment

definition pending_sources :: "engine \<Rightarrow> pending_source list" where
  "pending_sources e =
     map (\<lambda>it. \<lparr>ps_identity = item_identity_of it, ps_source = cb_source (pn_contribution it),
                ps_recruitment = cb_recruitment (pn_contribution it)\<rparr>)
       (pending_items (en_pending e))"

section \<open>Withdrawal\<close>

definition live_items :: "live_offer \<Rightarrow> item_identity list" where
  "live_items l = of_items (offer_identity (lo_offer l))"

definition offer_contains_item :: "item_identity list \<Rightarrow> item_identity \<Rightarrow> bool" where
  "offer_contains_item items want = list_ex (\<lambda>i. same_offer_item i want) items"

definition valid_withdrawal_identity :: "item_identity \<Rightarrow> bool" where
  "valid_withdrawal_identity i \<longleftrightarrow>
     ii_mode i = full_body \<and>
     sl_provider (ii_slot i) \<noteq> [] \<and> sl_key (ii_slot i) \<noteq> [] \<and>
     si_provider (ii_source i) \<noteq> [] \<and> si_id (ii_source i) \<noteq> [] \<and>
     sv_source (ii_revision i) = ii_source i \<and> sv_revision (ii_revision i) \<noteq> [] \<and>
     ci_id (ii_content i) \<noteq> [] \<and> ci_bytes (ii_content i) \<noteq> 0"

definition withdrawal_rejected :: "string \<Rightarrow> instant \<Rightarrow> string \<Rightarrow> withdrawal_result" where
  "withdrawal_rejected c at summary =
     \<lparr>wr_removed = 0, wr_revoked = 0, wr_reasons = [reason_at c ''runtime'' at summary]\<rparr>"

definition withdraw :: "engine \<Rightarrow> withdrawal \<Rightarrow> withdrawal_result \<times> engine" where
  "withdraw e w =
     (if wd_generation w \<noteq> pt_generation (en_partition e) then
        (withdrawal_rejected ''delivery.generation-mismatch'' (wd_now w)
           ''withdrawal generation does not match engine partition'', e)
      else if \<not> same_scope_root (wd_scope w) (pt_scope (en_partition e)) then
        (withdrawal_rejected ''delivery.scope-mismatch'' (wd_now w)
           ''withdrawal scope does not match engine partition'', e)
      else if \<not> same_audience (wd_audience w) (pt_audience (en_partition e)) then
        (withdrawal_rejected ''delivery.audience-mismatch'' (wd_now w)
           ''withdrawal audience or epoch does not match engine partition'', e)
      else if wd_config w \<noteq> pt_config (en_partition e) \<or>
              sc_config (wd_scope w) \<noteq> sc_config (pt_scope (en_partition e)) then
        (withdrawal_rejected ''activation.withdrawn'' (wd_now w)
           ''withdrawal configuration digest is stale'', e)
      else if \<not> valid_withdrawal_identity (wd_item w) then
        (withdrawal_rejected ''delivery.invalid-input'' (wd_now w)
           ''withdrawal item identity is incomplete'', e)
      else
        (let (working, removed) = remove_pending_item (en_pending e) (wd_item w);
             hit = (\<lambda>p. offer_contains_item (live_items (snd p)) (wd_item w));
             revoked = foldl (\<lambda>n _. u32 (n + 1)) 0 (filter hit (en_live e));
             summary = (if removed = 0 \<and> revoked = 0
               then ''provider revalidation found no matching current item; newer replacement and unrelated state were preserved''
               else ''provider revalidation withdrew only the exact stale source identity'')
         in (\<lparr>wr_removed = removed, wr_revoked = revoked,
               wr_reasons = [reason_at ''source.changed'' ''provider'' (wd_now w) summary]\<rparr>,
             e\<lparr>en_pending := working,
               en_pending_bytes := fst (pending_bytes working (lm_item_bytes (en_limits e))),
               en_live := filter (\<lambda>p. \<not> hit p) (en_live e)\<rparr>)))"

section \<open>Clearing and expiry\<close>

definition clear_engine :: "engine \<Rightarrow> engine" where
  "clear_engine e = e\<lparr>en_pending := [], en_pending_bytes := 0, en_live := [],
     en_receipts := [], en_completed := []\<rparr>"

definition clear_pending_and_offers :: "engine \<Rightarrow> engine" where
  "clear_pending_and_offers e = e\<lparr>en_pending := [], en_pending_bytes := 0, en_live := []\<rparr>"

definition expire_pending :: "engine \<Rightarrow> instant \<Rightarrow> engine \<times> reason list" where
  "expire_pending e now =
     (if now \<noteq> 0 then
        (let aged = map (\<lambda>g. g\<lparr>pg_items := filter
                 (\<lambda>it. \<not> age_exceeded (pn_admitted it) now (lm_age_ms (en_limits e))) (pg_items g)\<rparr>)
               (en_pending e);
             kept = remove_empty_groups (filter (\<lambda>g. length (pg_items g) \<noteq> 0) aged)
         in (e\<lparr>en_pending := kept,
               en_pending_bytes := fst (pending_bytes kept (lm_item_bytes (en_limits e)))\<rparr>,
             map (\<lambda>_. reason_at ''delivery.queue-expired'' ''runtime'' now
                    ''pending contribution exceeded queue age'')
               (filter (\<lambda>g. length (pg_items g) = 0) aged)))
      else (e, []))"

definition expire :: "engine \<Rightarrow> instant \<Rightarrow> engine \<times> reason list" where
  "expire e now =
     (let (e1, reasons) = expire_pending e now;
          old = (\<lambda>p. age_exceeded (lo_offered_at (snd p)) now (lm_offer_age_ms (en_limits e1)))
      in (e1\<lparr>en_live := filter (\<lambda>p. \<not> old p) (en_live e1)\<rparr>,
          reasons @ map (\<lambda>_. reason_at ''delivery.offer-expired'' ''runtime'' now
                           ''live offer exceeded offer age'') (filter old (en_live e1))))"

definition profile_changed :: "engine \<Rightarrow> string \<Rightarrow> bool" where
  "profile_changed e revision \<longleftrightarrow>
     list_ex (\<lambda>p. lo_profile (snd p) \<noteq> revision) (en_live e) \<or>
     list_ex (\<lambda>it. cb_profile (pn_contribution it) \<noteq> revision) (pending_items (en_pending e))"

section \<open>Contributions\<close>

definition bad_contribution :: "string \<Rightarrow> string \<Rightarrow> plan_input \<Rightarrow> string \<Rightarrow> reason + contribution" where
  "bad_contribution c origin p summary = Inl (reason_at c origin (pi_now p) summary)"

definition normalize_contribution ::
    "(string \<Rightarrow> string) \<Rightarrow> contribution \<Rightarrow> plan_input \<Rightarrow> nat \<Rightarrow> reason + contribution" where
  "normalize_contribution sha c p max_bytes =
     (if \<not> valid_utf8 (cb_body c) then
        bad_contribution ''contribution.malformed'' ''provider'' p
          ''contribution body is not valid UTF-8''
      else if cb_body c = [] then
        bad_contribution ''contribution.malformed'' ''provider'' p ''empty contribution body''
      else if length (cb_body c) > max_bytes then
        bad_contribution ''delivery.queue-full'' ''runtime'' p
          ''contribution body exceeds item bound''
      else if sl_provider (cb_slot c) = [] \<or> sl_key (cb_slot c) = [] \<or>
              si_provider (sr_identity (cb_source c)) = [] \<or> si_id (sr_identity (cb_source c)) = [] \<or>
              sv_revision (cb_revision c) = [] \<or> cb_contributor c = [] then
        bad_contribution ''contribution.malformed'' ''provider'' p
          ''contribution identity is incomplete''
      else if sv_source (cb_revision c) \<noteq> sr_identity (cb_source c) then
        bad_contribution ''contribution.malformed'' ''provider'' p
          ''source revision names another source''
      else if cb_config c \<noteq> pi_config p then
        bad_contribution ''source.changed'' ''runtime'' p ''contribution config digest is stale''
      else if cb_profile c \<noteq> pf_revision (pi_profile p) then
        bad_contribution ''profile.changed'' ''runtime'' p
          ''contribution profile revision is stale''
      else
        (let expected = content_identity sha (cb_body c);
             given = cb_content c
         in if ci_id given \<noteq> [] \<and> ci_id given \<noteq> ci_id expected then
              bad_contribution ''contribution.malformed'' ''provider'' p
                ''content identity does not match complete body''
            else
              (let named = (if ci_id given = [] then given\<lparr>ci_id := ci_id expected\<rparr> else given);
                   sized = (if ci_bytes named = 0
                     then named\<lparr>ci_bytes := length (cb_body c)\<rparr> else named)
               in if ci_bytes sized \<noteq> length (cb_body c) then
                    bad_contribution ''contribution.malformed'' ''provider'' p
                      ''content byte length does not match complete body''
                  else Inr (c\<lparr>cb_content := sized\<rparr>))))"

definition has_receipt :: "engine \<Rightarrow> contribution \<Rightarrow> bool" where
  "has_receipt e c \<longleftrightarrow> map_of (en_receipts e) (receipt_key_of (item_of c)) \<noteq> None"

definition revoke_source_offers ::
    "(nat \<times> live_offer) list \<Rightarrow> source_slot \<Rightarrow> (nat \<times> live_offer) list" where
  "revoke_source_offers live key =
     filter (\<lambda>p. \<not> list_ex (\<lambda>i. slot_of_item i = key) (live_items (snd p))) live"

section \<open>An offer already live\<close>

definition wanted_count :: "(item_identity \<times> nat) list \<Rightarrow> item_identity \<Rightarrow> nat" where
  "wanted_count wanted i = (case map_of wanted i of None \<Rightarrow> 0 | Some n \<Rightarrow> n)"

fun wanted_items ::
    "(string \<Rightarrow> string) \<Rightarrow> plan_input \<Rightarrow> nat \<Rightarrow> contribution list \<Rightarrow> (item_identity \<times> nat) list
      \<Rightarrow> (item_identity \<times> nat) list option" where
  "wanted_items sha p max_bytes [] wanted = Some wanted"
| "wanted_items sha p max_bytes (c # cs) wanted =
     (case normalize_contribution sha c p max_bytes of
        Inl _ \<Rightarrow> None
      | Inr n \<Rightarrow> wanted_items sha p max_bytes cs
                  (map_put (item_of n) (u32 (wanted_count wanted (item_of n) + 1)) wanted))"

fun takes_wanted :: "(item_identity \<times> nat) list \<Rightarrow> item_identity list \<Rightarrow> bool" where
  "takes_wanted wanted [] = True"
| "takes_wanted wanted (i # is) =
     (if wanted_count wanted i = 0 then False
      else takes_wanted (map_put i (wanted_count wanted i - 1) wanted) is)"

definition offer_applies :: "plan_input \<Rightarrow> live_offer \<Rightarrow> bool" where
  "offer_applies p l \<longleftrightarrow>
     \<not> (lo_config l \<noteq> pi_config p \<or> lo_profile l \<noteq> pf_revision (pi_profile p) \<or>
        of_opportunity (offer_identity (lo_offer l)) \<noteq> op_id (pi_opportunity p) \<or>
        of_surface (offer_identity (lo_offer l)) \<noteq> op_surface (pi_opportunity p)) \<and>
     \<not> (\<not> op_available (pi_opportunity p) \<or> op_max_bytes (pi_opportunity p) = 0 \<or>
        op_max_items (pi_opportunity p) = 0 \<or>
        length (offer_body (lo_offer l)) > op_max_bytes (pi_opportunity p) \<or>
        u32 (length (offer_items (lo_offer l))) > op_max_items (pi_opportunity p))"

fun first_existing ::
    "(string \<Rightarrow> string) \<Rightarrow> plan_input \<Rightarrow> nat \<Rightarrow> (nat \<times> live_offer) list \<Rightarrow> live_offer option" where
  "first_existing sha p max_bytes [] = None"
| "first_existing sha p max_bytes ((_, l) # live) =
     (if \<not> offer_applies p l then first_existing sha p max_bytes live
      else if pi_contributions p = [] then Some l
      else (case wanted_items sha p max_bytes (pi_contributions p) [] of
              None \<Rightarrow> None
            | Some wanted \<Rightarrow>
                if length wanted \<noteq> length (live_items l) then first_existing sha p max_bytes live
                else if takes_wanted wanted (live_items l) then Some l
                else first_existing sha p max_bytes live))"

definition existing_offer :: "(string \<Rightarrow> string) \<Rightarrow> engine \<Rightarrow> plan_input \<Rightarrow> live_offer option" where
  "existing_offer sha e p =
     first_existing sha p (lm_item_bytes (en_limits e)) (sort_key fst (en_live e))"

section \<open>The admission loop\<close>

record admitting =
  am_working :: "pending_group list"
  am_changed :: "source_slot list"
  am_accepted :: "item_identity list"
  am_suppressed :: bool
  am_reasons :: "reason list"

definition admit_one ::
    "(string \<Rightarrow> string) \<Rightarrow> engine \<Rightarrow> plan_input \<Rightarrow> admitting \<Rightarrow> contribution \<Rightarrow> admitting" where
  "admit_one sha e p a original =
     (case normalize_contribution sha original p (lm_item_bytes (en_limits e)) of
        Inl why \<Rightarrow>
          a\<lparr>am_reasons := am_reasons a @ [why\<lparr>rs_provider := cb_contributor original\<rparr>]\<rparr>
      | Inr c \<Rightarrow>
          (let key = source_slot_of c
           in if has_receipt e c then
                a\<lparr>am_suppressed := True, am_working := remove_source (am_working a) key,
                  am_changed := append_unique_source (am_changed a) key\<rparr>
              else if contains_pending (am_working a) c then a
              else a\<lparr>am_working := add_pending (remove_source (am_working a) key) c (pi_now p),
                     am_changed := append_unique_source (am_changed a) key,
                     am_accepted := List.insert (item_of c) (am_accepted a)\<rparr>))"

definition admit_all :: "(string \<Rightarrow> string) \<Rightarrow> engine \<Rightarrow> plan_input \<Rightarrow> admitting" where
  "admit_all sha e p =
     foldl (admit_one sha e p)
       \<lparr>am_working = en_pending e, am_changed = [], am_accepted = [], am_suppressed = False,
        am_reasons = []\<rparr> (pi_contributions p)"

text \<open>The three fitting passes, in the order of the source.\<close>

definition fit_queue ::
    "engine_limits \<Rightarrow> pending_group list \<Rightarrow> item_identity list \<Rightarrow> instant
      \<Rightarrow> pending_group list \<times> reason list" where
  "fit_queue l working accepted now =
     (let working = remove_empty_groups working;
          (working, render_reasons) = isolate_oversized_items working (lm_item_bytes l) now;
          (working, accepted, overflow_reasons) =
            trim_new_items working accepted (lm_pending_items l) now [];
          (working, accepted, byte_reasons) =
            trim_new_items_by_bytes working accepted (lm_pending_bytes l) now []
      in (working, render_reasons @ overflow_reasons @ byte_reasons))"

section \<open>Building an offer\<close>

definition group_already_offered :: "pending_group \<Rightarrow> (nat \<times> live_offer) list \<Rightarrow> bool" where
  "group_already_offered g live \<longleftrightarrow>
     list_ex (\<lambda>it. list_ex (\<lambda>p. list_ex (same_offer_item (item_identity_of it)) (live_items (snd p))) live)
       (pg_items g)"

definition delivery_order :: "pending_group list \<Rightarrow> pending_group list" where
  "delivery_order gs = sort_key (\<lambda>g. (- group_priority g, pg_semantic g)) gs"

definition select_group ::
    "engine \<Rightarrow> opportunity \<Rightarrow> pending_group list \<times> nat \<times> nat \<Rightarrow> pending_group
      \<Rightarrow> pending_group list \<times> nat \<times> nat" where
  "select_group e op st g =
     (case st of (selected, item_count, body_bytes) \<Rightarrow>
        if group_already_offered g (en_live e) then st
        else (let n = length (render_group g)
              in if n > op_max_bytes op \<or> n > lm_item_bytes (en_limits e) then st
                 else if u32 (item_count + u32 (length (pg_items g))) > op_max_items op then st
                 else (let separator = (if length selected > 0 then 2 else 0)
                       in if u64 (u64 (body_bytes + separator) + n) > op_max_bytes op then st
                          else (selected @ [g], u32 (item_count + u32 (length (pg_items g))),
                                u64 (body_bytes + u64 (separator + n))))))"

definition selected_groups :: "engine \<Rightarrow> opportunity \<Rightarrow> pending_group list" where
  "selected_groups e op =
     fst (foldl (select_group e op) ([], 0, 0) (delivery_order (en_pending e)))"

definition offer_item_of :: "string \<Rightarrow> pending_item \<Rightarrow> offer_item" where
  "offer_item_of block it =
     \<lparr>oi_identity = item_identity_of it, oi_source = cb_source (pn_contribution it),
      oi_recruitment = cb_recruitment (pn_contribution it), oi_body = block\<rparr>"

definition build_offer :: "engine \<Rightarrow> opportunity \<Rightarrow> offer_item list \<times> string" where
  "build_offer e op =
     (let groups = selected_groups e op
      in (concat (map (\<lambda>g. map (offer_item_of (render_group g)) (pg_items g)) groups),
          join [CHR 0x0A, CHR 0x0A] (map render_group groups)))"

end
