(* ===== verification/Engine_Plan.thy ===== *)
theory Engine_Plan
  imports Engine_Core
begin

text \<open>
  \<^verbatim>\<open>Engine.Plan\<close> and \<^verbatim>\<open>Engine.Confirm\<close> (\<^verbatim>\<open>internal/contextengine/engine.go\<close>), composed of the
  operations of \<open>Engine_Core\<close>, and the sequence of calls one engine serves.
\<close>

section \<open>Plan\<close>

definition decided :: "string \<Rightarrow> reason list \<Rightarrow> decision" where
  "decided state reasons = \<lparr>dc_state = state, dc_offer = None, dc_reasons = reasons\<rparr>"

definition offered :: "offer \<Rightarrow> reason list \<Rightarrow> decision" where
  "offered o1 reasons = \<lparr>dc_state = ''offered'', dc_offer = Some o1, dc_reasons = reasons\<rparr>"

text \<open>The guards at the head of \<^verbatim>\<open>Plan\<close>; \<open>None\<close> goes on.\<close>

definition plan_guard :: "engine \<Rightarrow> plan_input \<Rightarrow> (decision \<times> engine) option" where
  "plan_guard e p =
     (let part = en_partition e;
          reject = (\<lambda>c summary. Some (decided ''rejected''
            [reason_at c ''runtime'' (pi_now p) summary], e));
          withdrawn = (\<lambda>summary. Some (decided ''withdrawn''
            [reason_at ''activation.withdrawn'' ''runtime'' (pi_now p) summary], clear_engine e))
      in if pi_generation p \<noteq> pt_generation part then
           reject ''delivery.generation-mismatch''
             ''runtime generation does not match engine partition''
         else if \<not> same_scope_root (pi_scope p) (pt_scope part) then
           reject ''delivery.scope-mismatch'' ''scope does not match engine partition''
         else if \<not> same_audience (pi_audience p) (pt_audience part) then
           reject ''delivery.audience-mismatch''
             ''audience or epoch does not match engine partition''
         else if pi_config p \<noteq> pt_config part \<or> sc_config (pi_scope p) \<noteq> sc_config (pt_scope part) then
           withdrawn ''configuration digest changed''
         else if pi_transition p \<noteq> [] then withdrawn ''explicit audience transition''
         else if \<not> pi_active p then withdrawn ''scope is inactive''
         else if \<not> profile_audience_matches (pi_profile p) (pi_audience p) then
           reject ''delivery.audience-mismatch''
             ''profile audience does not match delivery audience''
         else if profile_expired (pi_profile p) (pi_now p) then
           Some (decided ''deferred'' [reason_at ''profile.expired'' ''runtime'' (pi_now p)
                   ''profile snapshot is expired''], clear_pending_and_offers e)
         else None)"

text \<open>The expiry and the profile check that follow.\<close>

definition plan_refresh :: "engine \<Rightarrow> plan_input \<Rightarrow> engine \<times> reason list" where
  "plan_refresh e p =
     (let (e1, reasons) = expire e (pi_now p)
      in if profile_changed e1 (pf_revision (pi_profile p))
         then (clear_pending_and_offers e1,
               reasons @ [reason_at ''profile.changed'' ''runtime'' (pi_now p)
                            ''pending delivery used another profile revision''])
         else (e1, reasons))"

text \<open>
  The queue that would be committed, with the offers it would revoke: \<open>Inl\<close> is an early
  return, which leaves the engine as it was.
\<close>

definition plan_queue ::
    "(string \<Rightarrow> string) \<Rightarrow> engine \<Rightarrow> plan_input \<Rightarrow> admission \<Rightarrow> reason list
      \<Rightarrow> decision + (engine \<times> bool \<times> reason list)" where
  "plan_queue sha e p adm reasons =
     (let l = en_limits e;
          a = admit_all sha e p;
          (working, fitting) = fit_queue l (am_working a) (am_accepted a) (pi_now p);
          reasons = reasons @ am_reasons a @ fitting;
          full = (\<lambda>summary. Inl (decided ''rejected''
            (reasons @ [reason_at ''delivery.queue-full'' ''runtime'' (pi_now p) summary])));
          (working_bytes, oversized) = pending_bytes working (lm_item_bytes l)
      in if oversized then full ''coalesced complete body exceeds item bound''
         else if u32 (pending_item_count working) > lm_pending_items l \<or>
                 working_bytes > lm_pending_bytes l
         then full ''pending queue bound would be exceeded''
         else (let live = foldl revoke_source_offers (en_live e) (am_changed a)
               in if retained_bytes working live (en_receipts e) (en_completed e) > lm_retained l
                  then full ''retained metadata and body budget would be exceeded''
                  else (case global_admission_failure working live (en_receipts e) (en_completed e)
                               0 (pi_now p) adm of
                          Some failure \<Rightarrow> Inl (decided ''deferred'' (reasons @ [failure]))
                        | None \<Rightarrow>
                            Inr (e\<lparr>en_pending := working, en_pending_bytes := working_bytes,
                                   en_live := live\<rparr>, am_suppressed a, reasons))))"

definition make_offer ::
    "(string \<Rightarrow> string) \<Rightarrow> engine \<Rightarrow> plan_input \<Rightarrow> offer_item list \<times> string \<Rightarrow> offer" where
  "make_offer sha e p built =
     (case built of (items, body) \<Rightarrow>
        \<lparr>offer_identity = \<lparr>of_generation = pt_generation (en_partition e),
            of_id = en_next_id e + 1, of_audience = pt_audience (en_partition e),
            of_opportunity = op_id (pi_opportunity p), of_surface = op_surface (pi_opportunity p),
            of_items = offer_item_identities items, of_body = content_identity sha body\<rparr>,
         offer_items = items, offer_body = body\<rparr>)"

definition plan_offer ::
    "(string \<Rightarrow> string) \<Rightarrow> engine \<Rightarrow> plan_input \<Rightarrow> admission \<Rightarrow> bool \<Rightarrow> reason list
      \<Rightarrow> decision \<times> engine" where
  "plan_offer sha e p adm suppressed reasons =
     (let l = en_limits e; op = pi_opportunity p;
          stop = (\<lambda>state c summary.
            (decided state (reasons @ [reason_at c ''runtime'' (pi_now p) summary]), e))
      in if length (en_pending e) = 0 then
           (if suppressed
            then stop ''suppressed'' ''delivery.already-delivered''
                   ''all matching source content has a confirmed receipt''
            else (decided ''idle'' reasons, e))
         else if \<not> op_available op then
           stop ''deferred'' ''delivery.unavailable'' ''delivery opportunity is unavailable''
         else if op_max_bytes op = 0 \<or> op_max_items op = 0 then
           stop ''deferred'' ''delivery.no-room'' ''delivery opportunity has no room''
         else if u32 (length (en_live e)) \<ge> lm_live l then
           stop ''deferred'' ''delivery.no-room'' ''live offer bound is full''
         else (let built = build_offer e op
               in if length (fst built) = 0 then
                    stop ''deferred'' ''delivery.no-room''
                      ''no complete pending item fits the opportunity''
                  else if en_next_id e = max_u64 then
                    stop ''rejected'' ''delivery.invalid-input'' ''offer ID space is exhausted''
                  else
                    (let o1 = make_offer sha e p built;
                         live = map_put (en_next_id e + 1)
                           \<lparr>lo_offer = o1, lo_profile = pf_revision (pi_profile p),
                            lo_valid_until = pf_valid_until (pi_profile p),
                            lo_config = pi_config p, lo_offered_at = pi_now p\<rparr> (en_live e)
                     in if retained_bytes (en_pending e) live (en_receipts e) (en_completed e)
                             > lm_retained l then
                          stop ''deferred'' ''delivery.queue-full''
                            ''retained offer budget would be exceeded''
                        else (case global_admission_failure (en_pending e) live (en_receipts e)
                                     (en_completed e) 0 (pi_now p) adm of
                                Some failure \<Rightarrow> (decided ''deferred'' (reasons @ [failure]), e)
                              | None \<Rightarrow>
                                  (offered o1 reasons,
                                   e\<lparr>en_next_id := en_next_id e + 1, en_live := live\<rparr>)))))"

definition plan ::
    "(string \<Rightarrow> string) \<Rightarrow> engine \<Rightarrow> plan_input \<Rightarrow> admission \<Rightarrow> decision \<times> engine" where
  "plan sha e p adm =
     (case plan_guard e p of
        Some out \<Rightarrow> out
      | None \<Rightarrow>
          (let (e1, reasons) = plan_refresh e p
           in case existing_offer sha e1 p of
                Some l \<Rightarrow>
                  (case global_admission_failure (en_pending e1) (en_live e1) (en_receipts e1)
                          (en_completed e1) 0 (pi_now p) adm of
                     Some failure \<Rightarrow> (decided ''deferred'' (reasons @ [failure]), e1)
                   | None \<Rightarrow> (offered (lo_offer l) reasons, e1))
              | None \<Rightarrow>
                  (case plan_queue sha e1 p adm reasons of
                     Inl d \<Rightarrow> (d, e1)
                   | Inr (e2, suppressed, reasons) \<Rightarrow>
                       plan_offer sha e2 p adm suppressed reasons)))"

section \<open>Confirm\<close>

definition confirmed :: "string \<Rightarrow> receipt list \<Rightarrow> reason list \<Rightarrow> confirmation_result" where
  "confirmed state receipts reasons =
     \<lparr>cr_state = state, cr_receipts = receipts, cr_reasons = reasons\<rparr>"

definition oldest_offer :: "(nat \<times> completed_offer) list \<Rightarrow> nat" where
  "oldest_offer m = foldl (\<lambda>oldest k. if oldest = 0 \<or> k < oldest then k else oldest) 0 (map fst m)"

lemma oldest_offer_key: "m \<noteq> [] \<Longrightarrow> oldest_offer m \<in> fst ` set m"
proof -
  have "foldl (\<lambda>oldest k. if oldest = 0 \<or> k < oldest then k else oldest) a ks \<in> insert a (set ks)"
    for a :: nat and ks by (induction ks arbitrary: a) (auto split: if_splits)
  then show "m \<noteq> [] \<Longrightarrow> oldest_offer m \<in> fst ` set m"
    by (cases m) (fastforce simp: oldest_offer_def)+
qed

function trim_completed :: "(nat \<times> completed_offer) list \<Rightarrow> nat \<Rightarrow> (nat \<times> completed_offer) list" where
  "trim_completed m max_receipts =
     (if u32 (length m) > max_receipts then trim_completed (map_del (oldest_offer m) m) max_receipts
      else m)"
  by pat_completeness auto

lemma map_del_shorter: "k \<in> fst ` set m \<Longrightarrow> length (map_del k m) < length m"
  by (auto simp: map_del_def intro: length_filter_less)

termination trim_completed
proof (relation "measure (\<lambda>(m, _). length m)", goal_cases)
  case (2 m max_receipts)
  then have "m \<noteq> []" by (auto simp: u32_def)
  then show ?case by (simp add: map_del_shorter oldest_offer_key)
qed simp

declare trim_completed.simps [simp del]

definition new_receipts :: "engine \<Rightarrow> confirmation \<Rightarrow> item_identity list \<Rightarrow> receipt list" where
  "new_receipts e c items =
     map (\<lambda>i. \<lparr>rp_generation = pt_generation (en_partition e),
                rp_audience = pt_audience (en_partition e), rp_item = i, rp_at = cf_at c\<rparr>)
       (filter (\<lambda>i. ii_mode i = full_body \<and> map_of (en_receipts e) (receipt_key_of i) = None) items)"

definition receipt_items :: "item_identity list \<Rightarrow> item_identity list" where
  "receipt_items items = filter (\<lambda>i. ii_mode i = full_body) items"

text \<open>The last part of \<^verbatim>\<open>Confirm\<close>: the handoff is the exact offer and its receipts are recorded.\<close>

definition accept_handoff ::
    "engine \<Rightarrow> confirmation \<Rightarrow> admission \<Rightarrow> live_offer \<Rightarrow> confirmation_result \<times> engine" where
  "accept_handoff e c adm l =
     (let items = live_items l; lim = en_limits e;
          fresh = new_receipts e c items;
          reject = (\<lambda>r. (confirmed ''rejected'' [] [r], e))
      in if u32 (length (en_receipts e) + length fresh) > lm_receipts lim then
           reject (reason_at ''delivery.receipt-limit'' ''runtime'' (cf_at c)
                     ''receipt bound would be exceeded'')
         else
           (let pending = remove_exact_items (en_pending e) (receipt_items items);
                bytes = fst (pending_bytes pending (lm_item_bytes lim));
                receipts = foldl (\<lambda>m r. map_put (receipt_key_of (rp_item r)) (rp_at r) m)
                             (en_receipts e) fresh;
                live = map_del (of_id (cf_identity c)) (en_live e);
                completed = trim_completed
                  (map_put (of_id (cf_identity c))
                     \<lparr>co_identity = offer_identity (lo_offer l), co_profile = lo_profile l,
                      co_valid_until = lo_valid_until l, co_receipts = fresh\<rparr> (en_completed e))
                  (lm_receipts lim)
            in if retained_bytes pending live receipts completed > lm_retained lim then
                 reject (reason_at ''delivery.queue-full'' ''runtime'' (cf_at c)
                           ''retained confirmation metadata budget would be exceeded'')
               else (case global_admission_failure pending live receipts completed
                            (u32 (length fresh)) (cf_at c) adm of
                       Some failure \<Rightarrow> reject failure
                     | None \<Rightarrow>
                         (confirmed ''confirmed'' fresh [],
                          e\<lparr>en_receipts := receipts, en_pending := pending,
                            en_pending_bytes := bytes, en_live := live,
                            en_completed := completed\<rparr>))))"

definition confirm_live ::
    "engine \<Rightarrow> confirmation \<Rightarrow> admission \<Rightarrow> live_offer \<Rightarrow> confirmation_result \<times> engine" where
  "confirm_live e c adm l =
     (let at = cf_at c;
          reject = (\<lambda>origin summary. (confirmed ''rejected'' []
            [reason_at ''delivery.offer-mismatch'' origin at summary], e));
          drop_offer = (\<lambda>state c' origin summary. (confirmed state []
            [reason_at c' origin at summary],
            e\<lparr>en_live := map_del (of_id (cf_identity c)) (en_live e)\<rparr>))
      in if \<not> same_offer_identity (offer_identity (lo_offer l)) (cf_identity c) then
           reject ''runtime'' ''confirmation identity differs from live offer''
         else if cf_profile c \<noteq> lo_profile l then
           drop_offer ''withdrawn'' ''profile.changed'' ''runtime''
             ''profile revision changed before confirmation''
         else if cf_valid_until c \<noteq> lo_valid_until l \<or> deadline_passed (lo_valid_until l) at then
           drop_offer ''withdrawn'' ''profile.expired'' ''runtime''
             ''profile expired before confirmation''
         else if offer_expired (lo_offered_at l) at (lm_offer_age_ms (en_limits e)) then
           drop_offer ''failed'' ''delivery.offer-expired'' ''runtime'' ''offer exceeded its age bound''
         else if cf_handoff c = ''failed'' then
           drop_offer ''failed'' ''delivery.output-failed'' ''adapter'' ''adapter reported failed handoff''
         else if cf_handoff c = ''unknown'' then
           drop_offer ''failed'' ''delivery.output-unknown'' ''adapter''
             ''adapter could not establish handoff''
         else if cf_handoff c \<noteq> ''confirmed'' \<or>
                 \<not> same_content (of_body (offer_identity (lo_offer l))) (cf_emitted c) then
           reject ''adapter'' ''emitted content does not equal offered content''
         else accept_handoff e c adm l)"

definition confirm :: "engine \<Rightarrow> confirmation \<Rightarrow> admission \<Rightarrow> confirmation_result \<times> engine" where
  "confirm e c adm =
     (let part = en_partition e; at = cf_at c; offer_id = of_id (cf_identity c);
          reject = (\<lambda>c' summary. (confirmed ''rejected'' [] [reason_at c' ''runtime'' at summary], e));
          live = map_of (en_live e) offer_id;
          withdrawn = (confirmed ''withdrawn'' [] [reason_at ''activation.withdrawn'' ''runtime'' at
                         ''configuration changed before confirmation''])
      in if of_generation (cf_identity c) \<noteq> pt_generation part then
           reject ''delivery.generation-mismatch''
             ''confirmation generation does not match engine partition''
         else if \<not> cf_active c then
           (confirmed ''withdrawn'' [] [reason_at ''activation.withdrawn'' ''runtime'' at
              ''scope is inactive at confirmation''], e)
         else if \<not> same_scope_root (cf_scope c) (pt_scope part) then
           reject ''delivery.scope-mismatch'' ''confirmation scope does not match engine partition''
         else if \<not> same_audience (cf_audience c) (pt_audience part) \<or>
                 \<not> same_audience (of_audience (cf_identity c)) (pt_audience part) then
           reject ''delivery.audience-mismatch''
             ''confirmation audience or epoch does not match engine partition''
         else if cf_config c \<noteq> pt_config part \<or> sc_config (cf_scope c) \<noteq> sc_config (pt_scope part) then
           (case live of
              Some l \<Rightarrow>
                if \<not> same_offer_identity (offer_identity (lo_offer l)) (cf_identity c) then
                  reject ''delivery.offer-mismatch''
                    ''stale configuration confirmation identity differs from live offer''
                else (withdrawn, e\<lparr>en_live := map_del offer_id (en_live e)\<rparr>)
            | None \<Rightarrow> (withdrawn, e))
         else (case map_of (en_completed e) offer_id of
              Some d \<Rightarrow>
                if same_offer_identity (co_identity d) (cf_identity c) \<and>
                   cf_profile c = co_profile d \<and> cf_valid_until c = co_valid_until d \<and>
                   \<not> deadline_passed (co_valid_until d) at \<and> cf_handoff c = ''confirmed'' \<and>
                   same_content (of_body (co_identity d)) (cf_emitted c)
                then (case global_admission_failure (en_pending e) (en_live e) (en_receipts e)
                             (en_completed e) 0 at adm of
                        Some failure \<Rightarrow> (confirmed ''rejected'' [] [failure], e)
                      | None \<Rightarrow> (confirmed ''confirmed'' (co_receipts d) [], e))
                else reject ''delivery.offer-mismatch''
                       ''replayed confirmation does not match accepted offer''
            | None \<Rightarrow>
                (case live of
                   None \<Rightarrow> reject ''delivery.offer-mismatch'' ''offer is not live''
                 | Some l \<Rightarrow> confirm_live e c adm l)))"

section \<open>The calls one engine serves\<close>

datatype engine_call =
    Plan_call plan_input admission
  | Confirm_call confirmation admission
  | Withdraw_call withdrawal

fun engine_step :: "(string \<Rightarrow> string) \<Rightarrow> engine \<Rightarrow> engine_call \<Rightarrow> engine" where
  "engine_step sha e (Plan_call p adm) = snd (plan sha e p adm)"
| "engine_step sha e (Confirm_call c adm) = snd (confirm e c adm)"
| "engine_step sha e (Withdraw_call w) = snd (withdraw e w)"

end
