(* ===== verification/Engine_Thinning.thy ===== *)
theory Engine_Thinning
  imports Engine_Plan
begin

text \<open>
  What the removals from the pending queue share: each keeps the items that pass a test
  (\<open>thin\<close>), in order, and drops the groups left empty. Thinning keeps the shape of the
  queue, and no group renders longer for it, so a queue within its bounds stays within
  them.
\<close>

section \<open>Thinning\<close>

definition thin :: "(pending_item \<Rightarrow> bool) \<Rightarrow> pending_group list \<Rightarrow> pending_group list" where
  "thin P gs = remove_empty_groups (map (\<lambda>g. g\<lparr>pg_items := filter P (pg_items g)\<rparr>) gs)"

definition pending_slot :: "pending_item \<Rightarrow> source_slot" where
  "pending_slot it = source_slot_of (pn_contribution it)"

lemma slot_of_pending [simp]: "slot_of_item (item_identity_of it) = pending_slot it"
  by (simp add: item_identity_of_def pending_slot_def)

lemma remove_source_thin: "remove_source gs key = thin (\<lambda>it. pending_slot it \<noteq> key) gs"
  by (simp add: remove_source_def thin_def pending_slot_def)

lemma remove_exact_thin:
  "remove_exact_items gs want = thin (\<lambda>it. item_identity_of it \<notin> set want) gs"
  by (simp add: remove_exact_items_def thin_def same_offer_item_eq list_ex_iff)

lemma remove_pending_thin:
  "fst (remove_pending_item gs want) = thin (\<lambda>it. item_identity_of it \<noteq> want) gs"
  by (simp add: remove_pending_item_def thin_def same_offer_item_eq)

lemma in_thin:
  "g' \<in> set (thin P gs) \<longleftrightarrow>
     (\<exists>g \<in> set gs. g' = g\<lparr>pg_items := filter P (pg_items g)\<rparr> \<and> pg_items g' \<noteq> [])"
  by (auto simp: thin_def remove_empty_groups_def)

lemma thin_Nil [simp]: "thin P [] = []"
  by (simp add: thin_def remove_empty_groups_def)

lemma thin_Cons:
  "thin P (g # gs) =
     (let g' = g\<lparr>pg_items := filter P (pg_items g)\<rparr>
      in if pg_items g' = [] then thin P gs else g' # thin P gs)"
  by (simp add: thin_def remove_empty_groups_def)

lemma pending_items_Nil [simp]: "pending_items [] = []"
  by (simp add: pending_items_def)

lemma pending_items_Cons [simp]: "pending_items (g # gs) = pg_items g @ pending_items gs"
  by (simp add: pending_items_def)

lemma pending_items_append [simp]: "pending_items (gs @ hs) = pending_items gs @ pending_items hs"
  by (simp add: pending_items_def)

lemma in_pending_items: "it \<in> set (pending_items gs) \<longleftrightarrow> (\<exists>g \<in> set gs. it \<in> set (pg_items g))"
  by (auto simp: pending_items_def)

lemma pending_items_thin: "pending_items (thin P gs) = filter P (pending_items gs)"
  by (induction gs) (auto simp: thin_Cons Let_def)

lemma thin_True: "\<forall>g \<in> set gs. pg_items g \<noteq> [] \<Longrightarrow> thin (\<lambda>_. True) gs = gs"
  by (induction gs) (auto simp: thin_Cons Let_def)

lemma thin_all: "\<forall>g \<in> set gs. pg_items g \<noteq> [] \<Longrightarrow> \<forall>it \<in> set (pending_items gs). P it \<Longrightarrow> thin P gs = gs"
  by (induction gs) (auto simp: thin_Cons Let_def filter_id_conv)

lemma thin_False: "thin (\<lambda>_. False) gs = []"
  by (induction gs) (auto simp: thin_Cons)

lemma semantic_thin: "set (map pg_semantic (thin P gs)) \<subseteq> set (map pg_semantic gs)"
  by (auto simp: in_thin)

lemma distinct_semantic_thin: "distinct (map pg_semantic gs) \<Longrightarrow> distinct (map pg_semantic (thin P gs))"
proof (induction gs)
  case (Cons g gs)
  have "pg_semantic g \<notin> set (map pg_semantic (thin P gs))"
    using Cons.prems semantic_thin [of P gs] by auto
  with Cons show ?case by (simp add: thin_Cons Let_def)
qed simp

lemma pending_item_count_length: "pending_item_count gs = length (pending_items gs)"
proof -
  have "foldl (\<lambda>tot g. tot + length (pg_items g)) n gs = n + length (pending_items gs)" for n
    by (induction gs arbitrary: n) auto
  then show ?thesis by (simp add: pending_item_count_def)
qed

lemma count_thin: "pending_item_count (thin P gs) \<le> pending_item_count gs"
  by (simp add: pending_item_count_length pending_items_thin)

lemma remove_empty_id: "\<forall>g \<in> set gs. pg_items g \<noteq> [] \<Longrightarrow> remove_empty_groups gs = gs"
  by (simp add: remove_empty_groups_def)

section \<open>The length of a rendered group\<close>

definition labels_of :: "pending_item list \<Rightarrow> string set" where
  "labels_of its = (\<lambda>it. sr_label (cb_source (pn_contribution it))) ` set its - {[]}"

definition label_cost :: "string set \<Rightarrow> nat" where
  "label_cost ls = (if ls = {} then 0 else 8 + (\<Sum>l \<in> ls. length l + 2))"

lemma finite_labels [simp]: "finite (labels_of its)"
  by (simp add: labels_of_def)

lemma add_labels:
  "set (foldl add_label ls its) = set ls \<union> labels_of its"
  "distinct ls \<Longrightarrow> distinct (foldl add_label ls its)"
proof -
  show "set (foldl add_label ls its) = set ls \<union> labels_of its"
    by (induction its arbitrary: ls) (auto simp: add_label_def labels_of_def Let_def)
  show "distinct ls \<Longrightarrow> distinct (foldl add_label ls its)"
    by (induction its arbitrary: ls) (auto simp: add_label_def Let_def)
qed

lemma length_join: "xs \<noteq> [] \<Longrightarrow> length (join sep xs) + length sep = (\<Sum>x\<leftarrow>xs. length x + length sep)"
proof (induction xs rule: rev_induct)
  case (snoc x xs)
  then show ?case by (cases "xs = []") (auto simp: join_snoc)
qed simp

lemma length_join_sorted:
  assumes "distinct ls" and "ls \<noteq> []"
  shows "length (join '', '' (sort ls)) + 2 = (\<Sum>l \<in> set ls. length l + 2)"
proof -
  have "sort ls \<noteq> []" using assms(2) by (metis length_0_conv length_sort)
  from length_join [OF this, of "'', ''"]
  have "length (join '', '' (sort ls)) + 2 = (\<Sum>l\<leftarrow>sort ls. length l + 2)" by simp
  also have "\<dots> = (\<Sum>l \<in> set (sort ls). length l + 2)"
    using assms(1) by (intro sum_list_distinct_conv_sum_set) simp
  finally show ?thesis by simp
qed

lemma length_render:
  assumes "pg_items g \<noteq> []"
  shows "length (render_group g) =
    length (cb_body (pn_contribution (hd (pg_items g)))) + label_cost (labels_of (pg_items g))"
proof -
  let ?ls = "foldl add_label [] (pg_items g)"
  have set: "set ?ls = labels_of (pg_items g)" by (simp add: add_labels)
  have d: "distinct ?ls" by (simp add: add_labels)
  from assms obtain it its where g: "pg_items g = it # its" by (cases "pg_items g") auto
  show ?thesis
  proof (cases "?ls = []")
    case True
    then have "labels_of (pg_items g) = {}" using set by simp
    with True show ?thesis by (simp add: render_group_def g label_cost_def Let_def)
  next
    case False
    have "length (render_group g) =
      9 + (length (join '', '' (sort ?ls)) + Suc (length (cb_body (pn_contribution it))))"
      using False by (simp add: render_group_def g Let_def)
    moreover have "length (join '', '' (sort ?ls)) + 2 = (\<Sum>l \<in> labels_of (pg_items g). length l + 2)"
      using length_join_sorted [OF d False] set by simp
    moreover have "labels_of (pg_items g) \<noteq> {}" using False set by (metis set_empty)
    ultimately show ?thesis by (simp add: label_cost_def g)
  qed
qed

lemma label_cost_mono:
  assumes "A \<subseteq> B" and "finite B"
  shows "label_cost A \<le> label_cost B"
  using sum_mono2 [of B A "\<lambda>l. length l + 2"] assms by (auto simp: label_cost_def)

section \<open>Well-formed queues\<close>

text \<open>
  A contribution as \<^verbatim>\<open>normalizeContribution\<close> returns it; a queue whose groups are not empty,
  hold one body each, no body twice and no source slot twice; a queue within its bounds.
\<close>

definition normalized :: "(string \<Rightarrow> string) \<Rightarrow> contribution \<Rightarrow> bool" where
  "normalized sha c \<longleftrightarrow>
     cb_body c \<noteq> [] \<and> cb_content c = content_identity sha (cb_body c) \<and>
     sv_source (cb_revision c) = sr_identity (cb_source c) \<and> valid_withdrawal_identity (item_of c)"

definition group_ok :: "pending_group \<Rightarrow> bool" where
  "group_ok g \<longleftrightarrow> pg_items g \<noteq> [] \<and> (\<forall>it \<in> set (pg_items g). cb_body (pn_contribution it) = pg_semantic g)"

definition queue_ok :: "(string \<Rightarrow> string) \<Rightarrow> pending_group list \<Rightarrow> bool" where
  "queue_ok sha gs \<longleftrightarrow>
     (\<forall>g \<in> set gs. group_ok g) \<and> distinct (map pg_semantic gs) \<and>
     distinct (map pending_slot (pending_items gs)) \<and>
     (\<forall>it \<in> set (pending_items gs). normalized sha (pn_contribution it))"

definition queue_bytes :: "pending_group list \<Rightarrow> nat" where
  "queue_bytes gs = (\<Sum>g\<leftarrow>gs. length (render_group g))"

definition queue_fits :: "engine_limits \<Rightarrow> pending_group list \<Rightarrow> bool" where
  "queue_fits l gs \<longleftrightarrow>
     (\<forall>g \<in> set gs. length (render_group g) \<le> lm_item_bytes l) \<and>
     queue_bytes gs \<le> lm_pending_bytes l \<and> pending_item_count gs \<le> lm_pending_items l"

lemma group_ok_nonempty: "queue_ok sha gs \<Longrightarrow> \<forall>g \<in> set gs. pg_items g \<noteq> []"
  by (simp add: queue_ok_def group_ok_def)

lemma queue_ok_Nil [simp]: "queue_ok sha []"
  by (simp add: queue_ok_def)

lemma queue_fits_Nil [simp]: "queue_fits l []"
  by (simp add: queue_fits_def queue_bytes_def pending_item_count_def)

lemma queue_ok_thin: "queue_ok sha gs \<Longrightarrow> queue_ok sha (thin P gs)"
  by (auto simp: queue_ok_def in_thin group_ok_def pending_items_thin distinct_map_filter
      intro!: distinct_semantic_thin)

lemma render_filter_le:
  assumes "group_ok g" and "filter P (pg_items g) \<noteq> []"
  shows "length (render_group (g\<lparr>pg_items := filter P (pg_items g)\<rparr>)) \<le> length (render_group g)"
proof -
  have "hd (filter P (pg_items g)) \<in> set (pg_items g)"
    using assms(2) hd_in_set by fastforce
  then have "cb_body (pn_contribution (hd (filter P (pg_items g)))) = pg_semantic g"
    using assms(1) by (simp add: group_ok_def)
  moreover have "cb_body (pn_contribution (hd (pg_items g))) = pg_semantic g"
    using assms(1) by (simp add: group_ok_def)
  moreover have "label_cost (labels_of (filter P (pg_items g))) \<le> label_cost (labels_of (pg_items g))"
    by (rule label_cost_mono) (auto simp: labels_of_def)
  ultimately show ?thesis using assms by (simp add: length_render group_ok_def)
qed

lemma queue_bytes_Cons [simp]: "queue_bytes (g # gs) = length (render_group g) + queue_bytes gs"
  by (simp add: queue_bytes_def)

lemma queue_bytes_thin: "\<forall>g \<in> set gs. group_ok g \<Longrightarrow> queue_bytes (thin P gs) \<le> queue_bytes gs"
proof (induction gs)
  case (Cons g gs)
  then have IH: "queue_bytes (thin P gs) \<le> queue_bytes gs" and g: "group_ok g" by auto
  show ?case
    using IH render_filter_le [OF g, of P] by (auto simp: thin_Cons Let_def)
qed (simp add: queue_bytes_def)

lemma queue_fits_thin:
  assumes "queue_ok sha gs" and "queue_fits l gs"
  shows "queue_fits l (thin P gs)"
  unfolding queue_fits_def
proof (intro conjI ballI)
  show "length (render_group g') \<le> lm_item_bytes l" if "g' \<in> set (thin P gs)" for g'
    using that assms by (auto simp: in_thin queue_ok_def queue_fits_def intro: order_trans [OF render_filter_le])
  show "queue_bytes (thin P gs) \<le> lm_pending_bytes l"
    using queue_bytes_thin [of gs P] assms by (auto simp: queue_ok_def queue_fits_def)
  show "pending_item_count (thin P gs) \<le> lm_pending_items l"
    using count_thin [of P gs] assms(2) by (simp add: queue_fits_def)
qed

lemma pending_bytes_from_iff:
  "t \<le> max_u64 \<Longrightarrow> pending_bytes_from t gs m = (b, False) \<longleftrightarrow>
     (\<forall>g \<in> set gs. length (render_group g) \<le> m) \<and> t + queue_bytes gs \<le> max_u64 \<and> b = t + queue_bytes gs"
proof (induction gs arbitrary: t)
  case (Cons g gs)
  show ?case
  proof (cases "length (render_group g) \<le> m \<and> length (render_group g) \<le> max_u64 - t")
    case True
    then have "t + length (render_group g) \<le> max_u64" using Cons.prems by linarith
    with True Cons.IH [of "t + length (render_group g)"] show ?thesis by (auto simp: Let_def)
  next
    case False
    then show ?thesis using Cons.prems by (auto simp: Let_def)
  qed
qed (auto simp: queue_bytes_def)

lemma pending_bytes_iff:
  "pending_bytes gs m = (b, False) \<longleftrightarrow>
     (\<forall>g \<in> set gs. length (render_group g) \<le> m) \<and> queue_bytes gs \<le> max_u64 \<and> b = queue_bytes gs"
  by (simp add: pending_bytes_def pending_bytes_from_iff)

lemma pending_bytes_fits:
  assumes "queue_fits l gs" and "lm_pending_bytes l \<le> max_u64"
  shows "pending_bytes gs (lm_item_bytes l) = (queue_bytes gs, False)"
  using assms by (simp add: pending_bytes_iff queue_fits_def)

lemma retained_thin: "(\<Sum>g\<leftarrow>thin P gs. sum_list (group_amounts g)) \<le> (\<Sum>g\<leftarrow>gs. sum_list (group_amounts g))"
proof (induction gs)
  case (Cons g gs)
  have "(\<Sum>it\<leftarrow>filter P (pg_items g). u64 (contribution_bytes (pn_contribution it) + 32))
      \<le> (\<Sum>it\<leftarrow>pg_items g. u64 (contribution_bytes (pn_contribution it) + 32))"
    by (rule sum_list_filter_le_nat)
  then show ?case using Cons by (auto simp: thin_Cons Let_def group_amounts_def)
qed simp

end
