(* ===== verification/Engine_Invariant.thy ===== *)
theory Engine_Invariant
  imports Engine_Thinning
begin

text \<open>
  What holds of every engine: the queue is well formed and within its bounds, the cached
  byte count is the true one, live offers name this partition and no source slot twice,
  an item that is pending and live is the same item, nothing pending or live was already
  receipted, and the retained bytes are within their budget.

  Every removal (withdrawal, expiry, revocation, a dropped offer, the clearing of the
  queue) is an instance of \<open>shrunk\<close>, which is shown to keep all of it once.
\<close>

section \<open>The invariant\<close>

definition limits_ok :: "engine_limits \<Rightarrow> bool" where
  "limits_ok l \<longleftrightarrow>
     0 < lm_live l \<and> lm_live l < 2 ^ 32 \<and> lm_pending_items l + lm_receipts l < 2 ^ 32 \<and>
     lm_item_bytes l \<le> max_u64 \<and> lm_pending_bytes l \<le> max_u64 \<and> lm_retained l \<le> max_u64"

definition live_ok :: "(string \<Rightarrow> string) \<Rightarrow> engine \<Rightarrow> nat \<Rightarrow> live_offer \<Rightarrow> bool" where
  "live_ok sha e k l \<longleftrightarrow>
     (let o1 = lo_offer l; i = offer_identity o1
      in 1 \<le> k \<and> k \<le> en_next_id e \<and> of_id i = k \<and>
         of_generation i = pt_generation (en_partition e) \<and>
         of_audience i = pt_audience (en_partition e) \<and>
         of_items i = offer_item_identities (offer_items o1) \<and>
         of_body i = content_identity sha (offer_body o1) \<and>
         offer_items o1 \<noteq> [] \<and> list_all valid_withdrawal_identity (of_items i) \<and>
         length (of_items i) \<le> lm_pending_items (en_limits e) \<and>
         lo_config l = pt_config (en_partition e))"

definition live_slots :: "(nat \<times> live_offer) list \<Rightarrow> source_slot list" where
  "live_slots live = concat (map (\<lambda>p. map slot_of_item (live_items (snd p))) live)"

definition live_item_set :: "(nat \<times> live_offer) list \<Rightarrow> item_identity set" where
  "live_item_set live = (\<Union>p \<in> set live. set (live_items (snd p)))"

definition receipted :: "(receipt_key \<times> instant) list \<Rightarrow> item_identity \<Rightarrow> bool" where
  "receipted receipts i \<longleftrightarrow> map_of receipts (receipt_key_of i) \<noteq> None"

definition queue_part :: "(string \<Rightarrow> string) \<Rightarrow> engine \<Rightarrow> bool" where
  "queue_part sha e \<longleftrightarrow>
     queue_ok sha (en_pending e) \<and> queue_fits (en_limits e) (en_pending e) \<and>
     en_pending_bytes e = queue_bytes (en_pending e)"

definition live_part :: "(string \<Rightarrow> string) \<Rightarrow> engine \<Rightarrow> bool" where
  "live_part sha e \<longleftrightarrow>
     map_ok (en_live e) \<and> length (en_live e) \<le> lm_live (en_limits e) \<and>
     (\<forall>(k, l) \<in> set (en_live e). live_ok sha e k l) \<and> distinct (live_slots (en_live e)) \<and>
     (\<forall>i \<in> live_item_set (en_live e). \<forall>it \<in> set (pending_items (en_pending e)).
        slot_of_item i = pending_slot it \<longrightarrow> i = item_identity_of it)"

definition receipt_part :: "engine \<Rightarrow> bool" where
  "receipt_part e \<longleftrightarrow>
     map_ok (en_receipts e) \<and> length (en_receipts e) \<le> lm_receipts (en_limits e) \<and>
     (\<forall>i \<in> live_item_set (en_live e). \<not> receipted (en_receipts e) i) \<and>
     (\<forall>it \<in> set (pending_items (en_pending e)). \<not> receipted (en_receipts e) (item_identity_of it))"

definition completed_part :: "engine \<Rightarrow> bool" where
  "completed_part e \<longleftrightarrow>
     map_ok (en_completed e) \<and> length (en_completed e) \<le> length (en_receipts e) \<and>
     (\<forall>k \<in> fst ` set (en_completed e). k \<le> en_next_id e \<and> k \<notin> fst ` set (en_live e))"

definition engine_ok :: "(string \<Rightarrow> string) \<Rightarrow> engine \<Rightarrow> bool" where
  "engine_ok sha e \<longleftrightarrow>
     limits_ok (en_limits e) \<and> queue_part sha e \<and> live_part sha e \<and> receipt_part e \<and>
     completed_part e \<and> engine_retained e \<le> lm_retained (en_limits e) \<and> en_next_id e \<le> max_u64"

lemma engine_okI:
  assumes "limits_ok (en_limits e)" and "queue_part sha e" and "live_part sha e"
    and "receipt_part e" and "completed_part e"
    and "engine_retained e \<le> lm_retained (en_limits e)" and "en_next_id e \<le> max_u64"
  shows "engine_ok sha e"
  using assms by (simp add: engine_ok_def)

lemma engine_okD:
  assumes "engine_ok sha e"
  shows "limits_ok (en_limits e)" and "queue_part sha e" and "live_part sha e"
    and "receipt_part e" and "completed_part e"
    and "engine_retained e \<le> lm_retained (en_limits e)" and "en_next_id e \<le> max_u64"
  using assms by (simp_all add: engine_ok_def)

lemma engine_ok_new:
  assumes "new_engine p l = Inr e" and "limits_ok l"
  shows "engine_ok sha e"
  using assms
  by (auto simp: new_engine_def engine_ok_def queue_part_def live_part_def receipt_part_def
      completed_part_def live_slots_def live_item_set_def map_ok_def queue_bytes_def
      engine_retained_def retained_bytes_sum retained_sum_def split: if_splits)

section \<open>Keys of items\<close>

lemma item_of_parts:
  "ii_slot (item_of c) = cb_slot c" "ii_source (item_of c) = sr_identity (cb_source c)"
  "ii_revision (item_of c) = cb_revision c" "ii_content (item_of c) = cb_content c"
  "ii_mode (item_of c) = full_body"
  by (simp_all add: item_of_def)

text \<open>On complete identities a receipt key determines the item; the key holds the source slot.\<close>

lemma receipt_key_eq:
  assumes "valid_withdrawal_identity a" and "valid_withdrawal_identity b"
    and "receipt_key_of a = receipt_key_of b"
  shows "a = b"
proof -
  obtain ra sa where ra: "ii_revision a = \<lparr>sv_source = ra, sv_revision = sa\<rparr>" by (cases "ii_revision a")
  obtain rb sb where rb: "ii_revision b = \<lparr>sv_source = rb, sv_revision = sb\<rparr>" by (cases "ii_revision b")
  obtain ca na where ca: "ii_content a = \<lparr>ci_id = ca, ci_bytes = na\<rparr>" by (cases "ii_content a")
  obtain cb nb where cb: "ii_content b = \<lparr>ci_id = cb, ci_bytes = nb\<rparr>" by (cases "ii_content b")
  show ?thesis
    using assms ra rb ca cb
    by (cases a; cases b) (simp add: receipt_key_of_def valid_withdrawal_identity_def)
qed

lemma receipt_key_slot: "receipt_key_of a = receipt_key_of b \<Longrightarrow> slot_of_item a = slot_of_item b"
  by (simp add: receipt_key_of_def slot_of_item_def)

lemma in_live_item_set: "i \<in> live_item_set live \<longleftrightarrow> (\<exists>(k, l) \<in> set live. i \<in> set (live_items l))"
  by (auto simp: live_item_set_def split_beta)

lemma in_live_slots: "s \<in> set (live_slots live) \<longleftrightarrow> (\<exists>i \<in> live_item_set live. s = slot_of_item i)"
  by (auto simp: live_slots_def live_item_set_def)

lemma live_slots_Cons [simp]:
  "live_slots (p # live) = map slot_of_item (live_items (snd p)) @ live_slots live"
  by (simp add: live_slots_def)

lemma live_slots_append: "live_slots (xs @ ys) = live_slots xs @ live_slots ys"
  by (simp add: live_slots_def)

lemma live_slots_filter: "distinct (live_slots live) \<Longrightarrow> distinct (live_slots (filter Q live))"
proof (induction live)
  case (Cons p live)
  have "set (live_slots (filter Q live)) \<subseteq> set (live_slots live)" by (auto simp: live_slots_def)
  with Cons show ?case by auto
qed (simp add: live_slots_def)

lemma live_item_set_filter: "live_item_set (filter Q live) \<subseteq> live_item_set live"
  by (auto simp: live_item_set_def)

section \<open>Shrinking an engine\<close>

definition shrunk :: "engine \<Rightarrow> (pending_item \<Rightarrow> bool) \<Rightarrow> (nat \<times> live_offer \<Rightarrow> bool) \<Rightarrow> engine" where
  "shrunk e P Q = e\<lparr>en_pending := thin P (en_pending e),
     en_pending_bytes := fst (pending_bytes (thin P (en_pending e)) (lm_item_bytes (en_limits e))),
     en_live := filter Q (en_live e)\<rparr>"

lemma shrunk_fields [simp]:
  "en_partition (shrunk e P Q) = en_partition e" "en_limits (shrunk e P Q) = en_limits e"
  "en_pending (shrunk e P Q) = thin P (en_pending e)" "en_live (shrunk e P Q) = filter Q (en_live e)"
  "en_receipts (shrunk e P Q) = en_receipts e" "en_completed (shrunk e P Q) = en_completed e"
  "en_next_id (shrunk e P Q) = en_next_id e"
  by (simp_all add: shrunk_def)

lemma queue_part_shrunk:
  assumes "limits_ok (en_limits e)" and "queue_part sha e"
  shows "queue_part sha (shrunk e P Q)"
proof -
  have fits: "queue_fits (en_limits e) (thin P (en_pending e))"
    using assms queue_fits_thin by (auto simp: queue_part_def)
  then have "pending_bytes (thin P (en_pending e)) (lm_item_bytes (en_limits e)) =
      (queue_bytes (thin P (en_pending e)), False)"
    using assms(1) by (simp add: limits_ok_def pending_bytes_fits)
  then show ?thesis
    using assms fits by (simp add: queue_part_def queue_ok_thin) (simp add: shrunk_def)
qed

lemma live_part_shrunk: "live_part sha e \<Longrightarrow> live_part sha (shrunk e P Q)"
  using live_item_set_filter [of Q "en_live e"]
  by (auto simp: live_part_def map_ok_filter live_slots_filter live_ok_def Let_def pending_items_thin
      intro: le_trans [OF length_filter_le])

lemma receipt_part_shrunk: "receipt_part e \<Longrightarrow> receipt_part (shrunk e P Q)"
  using live_item_set_filter [of Q "en_live e"]
  by (auto simp: receipt_part_def pending_items_thin)

lemma completed_part_shrunk: "completed_part e \<Longrightarrow> completed_part (shrunk e P Q)"
  by (auto simp: completed_part_def)

lemma retained_mono:
  assumes "(\<Sum>g\<leftarrow>gs. sum_list (group_amounts g)) \<le> (\<Sum>g\<leftarrow>hs. sum_list (group_amounts g))"
  shows "retained_bytes gs (filter Q live) receipts completed \<le> retained_bytes hs live receipts completed"
  using assms sum_list_filter_le_nat [of "\<lambda>p. u64 (offer_bytes (lo_offer (snd p)) + 64)" Q live]
  by (simp add: retained_bytes_sum retained_sum_def)

lemma retained_shrunk: "engine_retained (shrunk e P Q) \<le> engine_retained e"
  by (simp add: engine_retained_def retained_mono retained_thin)

lemma engine_ok_shrunk:
  assumes "engine_ok sha e"
  shows "engine_ok sha (shrunk e P Q)"
proof (rule engine_okI)
  note d = engine_okD [OF assms]
  show "limits_ok (en_limits (shrunk e P Q))" using d by simp
  show "queue_part sha (shrunk e P Q)" using d by (simp add: queue_part_shrunk)
  show "live_part sha (shrunk e P Q)" using d by (simp add: live_part_shrunk)
  show "receipt_part (shrunk e P Q)" using d by (simp add: receipt_part_shrunk)
  show "completed_part (shrunk e P Q)" using d by (simp add: completed_part_shrunk)
  show "engine_retained (shrunk e P Q) \<le> lm_retained (en_limits (shrunk e P Q))"
    using retained_shrunk [of e P Q] d by simp
  show "en_next_id (shrunk e P Q) \<le> max_u64" using d by simp
qed

lemma shrunk_queue_id:
  assumes "queue_part sha e" and "limits_ok (en_limits e)" and "\<forall>it \<in> set (pending_items (en_pending e)). P it"
  shows "shrunk e P Q = e\<lparr>en_live := filter Q (en_live e)\<rparr>"
proof -
  have "thin P (en_pending e) = en_pending e"
    using assms by (auto simp: queue_part_def intro!: thin_all dest: group_ok_nonempty)
  moreover have "fst (pending_bytes (en_pending e) (lm_item_bytes (en_limits e))) = en_pending_bytes e"
    using assms by (simp add: queue_part_def limits_ok_def pending_bytes_fits)
  ultimately show ?thesis by (cases e) (simp add: shrunk_def)
qed

section \<open>The operations that only remove\<close>

lemma clear_pending_shrunk: "clear_pending_and_offers e = shrunk e (\<lambda>_. False) (\<lambda>_. False)"
  by (simp add: clear_pending_and_offers_def shrunk_def thin_False pending_bytes_def)

lemma engine_ok_clear:
  assumes "engine_ok sha e"
  shows "engine_ok sha (clear_engine e)"
proof -
  have "engine_ok sha (clear_pending_and_offers e)"
    using assms by (simp add: clear_pending_shrunk engine_ok_shrunk)
  then show ?thesis
    by (auto simp: engine_ok_def clear_engine_def clear_pending_and_offers_def queue_part_def
        live_part_def receipt_part_def completed_part_def live_item_set_def map_ok_def
        engine_retained_def retained_bytes_sum retained_sum_def)
qed

definition withdrawn_engine :: "engine \<Rightarrow> item_identity \<Rightarrow> engine" where
  "withdrawn_engine e i =
     shrunk e (\<lambda>it. item_identity_of it \<noteq> i) (\<lambda>p. i \<notin> set (live_items (snd p)))"

lemma offer_contains_item_iff: "offer_contains_item is i \<longleftrightarrow> i \<in> set is"
  by (auto simp: offer_contains_item_def same_offer_item_eq list_ex_iff)

definition withdrawal_accepted :: "engine \<Rightarrow> withdrawal \<Rightarrow> bool" where
  "withdrawal_accepted e w \<longleftrightarrow>
     wd_generation w = pt_generation (en_partition e) \<and>
     same_scope_root (wd_scope w) (pt_scope (en_partition e)) \<and>
     same_audience (wd_audience w) (pt_audience (en_partition e)) \<and>
     wd_config w = pt_config (en_partition e) \<and>
     sc_config (wd_scope w) = sc_config (pt_scope (en_partition e)) \<and>
     valid_withdrawal_identity (wd_item w)"

lemma snd_if: "snd (if b then x else y) = (if b then snd x else snd y)"
  by simp

lemma withdraw_shrunk:
  "snd (withdraw e w) = (if withdrawal_accepted e w then withdrawn_engine e (wd_item w) else e)"
  unfolding withdraw_def Let_def case_prod_unfold snd_if snd_conv withdrawal_accepted_def
    remove_pending_thin withdrawn_engine_def shrunk_def offer_contains_item_iff
  by (simp only: not_not if_False if_True split: if_split) blast

lemma engine_ok_withdraw: "engine_ok sha e \<Longrightarrow> engine_ok sha (snd (withdraw e w))"
  by (simp add: withdraw_shrunk withdrawn_engine_def engine_ok_shrunk)

definition item_fresh :: "engine \<Rightarrow> instant \<Rightarrow> pending_item \<Rightarrow> bool" where
  "item_fresh e now it \<longleftrightarrow> \<not> age_exceeded (pn_admitted it) now (lm_age_ms (en_limits e))"

definition offer_fresh :: "engine \<Rightarrow> instant \<Rightarrow> nat \<times> live_offer \<Rightarrow> bool" where
  "offer_fresh e now p \<longleftrightarrow> \<not> age_exceeded (lo_offered_at (snd p)) now (lm_offer_age_ms (en_limits e))"

lemma expire_shrunk:
  assumes "engine_ok sha e"
  shows "fst (expire e now) = shrunk e (item_fresh e now) (offer_fresh e now)"
proof (cases "now = 0")
  case True
  then have "\<forall>it \<in> set (pending_items (en_pending e)). item_fresh e now it"
    by (simp add: item_fresh_def age_exceeded_def)
  then show ?thesis
    using True shrunk_queue_id [OF engine_okD(2) [OF assms] engine_okD(1) [OF assms]]
    by (simp add: expire_def expire_pending_def Let_def offer_fresh_def [abs_def])
next
  case False
  let ?gs = "map (\<lambda>g. g\<lparr>pg_items := filter (item_fresh e now) (pg_items g)\<rparr>) (en_pending e)"
  have "remove_empty_groups (filter (\<lambda>g. length (pg_items g) \<noteq> 0) ?gs) = thin (item_fresh e now) (en_pending e)"
    by (simp add: thin_def remove_empty_groups_def)
  then show ?thesis
    using False by (simp add: expire_def expire_pending_def Let_def shrunk_def item_fresh_def [abs_def]
        offer_fresh_def [abs_def])
qed

lemma engine_ok_refresh: "engine_ok sha e \<Longrightarrow> engine_ok sha (fst (plan_refresh e p))"
  using expire_shrunk [of sha e "pi_now p"]
  by (auto simp: plan_refresh_def Let_def clear_pending_shrunk engine_ok_shrunk split: prod.split)

lemma map_del_filter: "map_del k m = filter (\<lambda>p. fst p \<noteq> k) m"
  by (simp add: map_del_def)

lemma engine_ok_drop_offer:
  assumes "engine_ok sha e"
  shows "engine_ok sha (e\<lparr>en_live := map_del k (en_live e)\<rparr>)"
  using engine_ok_shrunk [OF assms, of "\<lambda>_. True" "\<lambda>p. fst p \<noteq> k"]
    shrunk_queue_id [OF engine_okD(2) [OF assms] engine_okD(1) [OF assms], of "\<lambda>_. True"]
  by (simp add: map_del_filter)

end
