(* ===== verification/Engine_Admission.thy ===== *)
theory Engine_Admission
  imports Engine_Invariant
begin

text \<open>
  The admission of contributions and the fitting of the queue keep the engine's invariant:
  what \<^verbatim>\<open>normalizeContribution\<close> returns is complete, the admission loop keeps the queue well
  formed and free of receipted items, and the fitting passes only remove items.
\<close>

section \<open>Normalised contributions\<close>

lemma normalize_Inr:
  assumes "normalize_contribution sha c p m = Inr n"
  shows "normalized sha n" and "length (cb_body n) \<le> m" and "cb_config n = pi_config p"
    and "cb_profile n = pf_revision (pi_profile p)" and "valid_utf8 (cb_body n)"
    and "cb_body n = cb_body c" and "source_slot_of n = source_slot_of c"
proof -
  obtain d k where given: "cb_content c = \<lparr>ci_id = d, ci_bytes = k\<rparr>" by (cases "cb_content c")
  have "cb_body c \<noteq> [] \<and> valid_utf8 (cb_body c) \<and> length (cb_body c) \<le> m \<and>
      sl_provider (cb_slot c) \<noteq> [] \<and> sl_key (cb_slot c) \<noteq> [] \<and>
      si_provider (sr_identity (cb_source c)) \<noteq> [] \<and> si_id (sr_identity (cb_source c)) \<noteq> [] \<and>
      sv_revision (cb_revision c) \<noteq> [] \<and> sv_source (cb_revision c) = sr_identity (cb_source c) \<and>
      cb_config c = pi_config p \<and> cb_profile c = pf_revision (pi_profile p) \<and>
      n = c\<lparr>cb_content := content_identity sha (cb_body c)\<rparr>"
    using assms
    by (auto simp: normalize_contribution_def bad_contribution_def Let_def content_identity_def given
        split: if_splits)
  then show "normalized sha n" and "length (cb_body n) \<le> m" and "cb_config n = pi_config p"
    and "cb_profile n = pf_revision (pi_profile p)" and "valid_utf8 (cb_body n)"
    and "cb_body n = cb_body c" and "source_slot_of n = source_slot_of c"
    by (simp_all add: normalized_def valid_withdrawal_identity_def item_of_parts
        content_identity_def source_slot_of_def)
qed

section \<open>Adding an item\<close>

lemma find_group_None: "find_group gs s = None \<longleftrightarrow> s \<notin> set (map pg_semantic gs)"
  by (induction gs) auto

lemma find_group_Some:
  "find_group gs s = Some i \<Longrightarrow> i < length gs \<and> pg_semantic (gs ! i) = s"
  by (induction gs arbitrary: i) (auto split: if_splits)

lemma mset_pending_update:
  "i < length gs \<Longrightarrow> pg_items g = pg_items (gs ! i) @ [it] \<Longrightarrow>
     mset (pending_items (gs[i := g])) = add_mset it (mset (pending_items gs))"
proof (induction gs arbitrary: i)
  case (Cons h gs)
  then show ?case by (cases i) auto
qed simp

lemma mset_add_pending:
  "mset (pending_items (add_pending gs c at)) =
     add_mset \<lparr>pn_contribution = c, pn_admitted = at\<rparr> (mset (pending_items gs))"
proof (cases "find_group gs (cb_body c)")
  case (Some i)
  then show ?thesis
    using find_group_Some [OF Some] by (simp add: add_pending_def mset_pending_update)
qed (simp add: add_pending_def)

lemma set_add_pending:
  "set (pending_items (add_pending gs c at)) =
     insert \<lparr>pn_contribution = c, pn_admitted = at\<rparr> (set (pending_items gs))"
  using arg_cong [OF mset_add_pending [of gs c at], of set_mset] by simp

lemma count_add_pending: "pending_item_count (add_pending gs c at) = Suc (pending_item_count gs)"
  using arg_cong [OF mset_add_pending [of gs c at], of size] by (simp add: pending_item_count_length)

lemma distinct_map_mset: "mset xs = mset ys \<Longrightarrow> distinct (map f xs) \<longleftrightarrow> distinct (map f ys)"
  by (metis mset_eq_imp_distinct_iff mset_map)

lemma queue_ok_add:
  assumes "queue_ok sha gs" and "normalized sha c"
    and "source_slot_of c \<notin> pending_slot ` set (pending_items gs)"
  shows "queue_ok sha (add_pending gs c at)"
  unfolding queue_ok_def
proof (intro conjI)
  let ?it = "\<lparr>pn_contribution = c, pn_admitted = at\<rparr>"
  show "\<forall>g \<in> set (add_pending gs c at). group_ok g"
  proof (cases "find_group gs (cb_body c)")
    case None
    then show ?thesis using assms by (auto simp: add_pending_def queue_ok_def group_ok_def)
  next
    case (Some i)
    then have i: "i < length gs" "pg_semantic (gs ! i) = cb_body c" using find_group_Some by blast+
    have "group_ok (gs ! i)" using assms(1) i by (simp add: queue_ok_def)
    then show ?thesis
      using Some i assms(1) set_update_subset_insert [of gs i]
      by (fastforce simp: add_pending_def queue_ok_def group_ok_def)
  qed
  show "distinct (map pg_semantic (add_pending gs c at))"
  proof (cases "find_group gs (cb_body c)")
    case None
    then have "cb_body c \<notin> set (map pg_semantic gs)" by (simp add: find_group_None)
    with None show ?thesis using assms by (simp add: add_pending_def queue_ok_def)
  next
    case (Some i)
    then have i: "i < length gs" using find_group_Some by blast
    then have "map pg_semantic (add_pending gs c at) = map pg_semantic gs"
      using Some by (simp add: add_pending_def map_update list_update_same_conv)
    then show ?thesis using assms by (simp add: queue_ok_def)
  qed
  have "distinct (map pending_slot (?it # pending_items gs))"
    using assms by (simp add: queue_ok_def pending_slot_def)
  moreover have "mset (pending_items (add_pending gs c at)) = mset (?it # pending_items gs)"
    by (simp add: mset_add_pending)
  ultimately show "distinct (map pending_slot (pending_items (add_pending gs c at)))"
    using distinct_map_mset by blast
  show "\<forall>it \<in> set (pending_items (add_pending gs c at)). normalized sha (pn_contribution it)"
    using assms by (simp add: set_add_pending queue_ok_def)
qed

section \<open>The admission loop\<close>

definition admitting_ok :: "(string \<Rightarrow> string) \<Rightarrow> engine \<Rightarrow> nat \<Rightarrow> admitting \<Rightarrow> bool" where
  "admitting_ok sha e n a \<longleftrightarrow>
     queue_ok sha (am_working a) \<and>
     (\<forall>it \<in> set (pending_items (am_working a)). \<not> receipted (en_receipts e) (item_identity_of it)) \<and>
     (\<forall>it \<in> set (pending_items (am_working a)).
        it \<in> set (pending_items (en_pending e)) \<or> pending_slot it \<in> set (am_changed a)) \<and>
     pending_item_count (am_working a) \<le> pending_item_count (en_pending e) + n"

lemma set_append_unique [simp]: "set (append_unique_source ks k) = insert k (set ks)"
  by (auto simp: append_unique_source_def)

lemma removed_source_free: "key \<notin> pending_slot ` set (pending_items (remove_source gs key))"
  by (auto simp: remove_source_thin pending_items_thin)

lemma admit_one_ok:
  assumes "admitting_ok sha e n a"
  shows "admitting_ok sha e (Suc n) (admit_one sha e p a c)"
proof (cases "normalize_contribution sha c p (lm_item_bytes (en_limits e))")
  case (Inl why)
  then show ?thesis using assms by (auto simp: admitting_ok_def admit_one_def)
next
  case (Inr d)
  let ?w = "remove_source (am_working a) (source_slot_of d)"
  have ok: "queue_ok sha ?w"
    using assms by (simp add: admitting_ok_def remove_source_thin queue_ok_thin)
  have sub: "set (pending_items ?w) \<subseteq> set (pending_items (am_working a))"
    by (auto simp: remove_source_thin pending_items_thin)
  have count: "pending_item_count ?w \<le> pending_item_count (am_working a)"
    by (simp add: remove_source_thin count_thin)
  consider (receipt) "has_receipt e d" | (queued) "\<not> has_receipt e d" "contains_pending (am_working a) d"
    | (fresh) "\<not> has_receipt e d" "\<not> contains_pending (am_working a) d" by blast
  then show ?thesis
  proof cases
    case receipt
    then show ?thesis
      using Inr assms ok sub count by (auto simp: admit_one_def admitting_ok_def Let_def)
  next
    case queued
    then show ?thesis using Inr assms by (auto simp: admit_one_def admitting_ok_def Let_def)
  next
    case fresh
    have "queue_ok sha (add_pending ?w d (pi_now p))"
      using ok normalize_Inr(1) [OF Inr] removed_source_free by (intro queue_ok_add) auto
    moreover have "\<not> receipted (en_receipts e) (item_of d)"
      using fresh(1) by (simp add: has_receipt_def receipted_def)
    ultimately show ?thesis
      using Inr assms sub count fresh
      by (auto simp: admit_one_def admitting_ok_def Let_def set_add_pending count_add_pending
          item_identity_of_def pending_slot_def)
  qed
qed

lemma foldl_admit_ok:
  "admitting_ok sha e n a \<Longrightarrow> admitting_ok sha e (n + length cs) (foldl (admit_one sha e p) a cs)"
proof (induction cs arbitrary: n a)
  case (Cons c cs)
  then show ?case using Cons.IH [OF admit_one_ok [OF Cons.prems]] by simp
qed simp

lemma admit_all_ok:
  assumes "queue_part sha e" and "receipt_part e"
  shows "admitting_ok sha e (length (pi_contributions p)) (admit_all sha e p)"
proof -
  have "admitting_ok sha e 0 \<lparr>am_working = en_pending e, am_changed = [], am_accepted = [],
      am_suppressed = False, am_reasons = []\<rparr>"
    using assms by (simp add: admitting_ok_def queue_part_def receipt_part_def)
  from foldl_admit_ok [OF this] show ?thesis by (simp add: admit_all_def)
qed

section \<open>The fitting passes\<close>

definition narrowed :: "(string \<Rightarrow> string) \<Rightarrow> pending_group list \<Rightarrow> pending_group list \<Rightarrow> bool" where
  "narrowed sha gs hs \<longleftrightarrow> queue_ok sha gs \<and> set (pending_items gs) \<subseteq> set (pending_items hs) \<and>
     pending_item_count gs \<le> pending_item_count hs"

lemma narrowed_trans: "narrowed sha as bs \<Longrightarrow> narrowed sha bs cs \<Longrightarrow> narrowed sha as cs"
  by (auto simp: narrowed_def)

lemma narrowed_refl: "queue_ok sha gs \<Longrightarrow> narrowed sha gs gs"
  by (simp add: narrowed_def)

lemma narrowed_thin: "queue_ok sha gs \<Longrightarrow> narrowed sha (thin P gs) gs"
  by (auto simp: narrowed_def queue_ok_thin count_thin pending_items_thin)

lemma shrink_group_take:
  "\<exists>n. fst (shrink_group m at g rs) = g\<lparr>pg_items := take n (pg_items g)\<rparr>"
proof (induction m at g rs rule: shrink_group.induct)
  case (1 m at g rs)
  show ?case
  proof (cases "length (pg_items g) > 0 \<and> length (render_group g) > m")
    case True
    with 1 obtain n where n: "fst (shrink_group m at g rs) =
        g\<lparr>pg_items := take n (butlast (pg_items g))\<rparr>"
      by (auto simp: shrink_group.simps [of m at g])
    have "take n (butlast (pg_items g)) = take (min n (length (pg_items g) - 1)) (pg_items g)"
      by (simp add: butlast_conv_take)
    with n show ?thesis by metis
  next
    case False
    then have "fst (shrink_group m at g rs) = g\<lparr>pg_items := take (length (pg_items g)) (pg_items g)\<rparr>"
      by (auto simp: shrink_group.simps [of m at g])
    then show ?thesis by blast
  qed
qed

lemma shrink_group_fits:
  "pg_items (fst (shrink_group m at g rs)) \<noteq> [] \<Longrightarrow>
     length (render_group (fst (shrink_group m at g rs))) \<le> m"
  by (induction m at g rs rule: shrink_group.induct) (subst (asm) (2) shrink_group.simps, subst shrink_group.simps, auto split: if_splits)

lemma isolate_Cons:
  "fst (isolate_oversized_items (g # gs) m at) =
     (let g' = fst (shrink_group m at g [])
      in if pg_items g' = [] then fst (isolate_oversized_items gs m at)
         else g' # fst (isolate_oversized_items gs m at))"
  by (simp add: case_prod_unfold Let_def)

lemma isolate_semantics:
  "set (map pg_semantic (fst (isolate_oversized_items gs m at))) \<subseteq> set (map pg_semantic gs)"
proof (induction gs)
  case (Cons g gs)
  obtain n where "fst (shrink_group m at g []) = g\<lparr>pg_items := take n (pg_items g)\<rparr>"
    using shrink_group_take by blast
  then show ?case using Cons by (auto simp: isolate_Cons Let_def simp del: isolate_oversized_items.simps)
qed simp

lemma isolate_items:
  "set (pending_items (fst (isolate_oversized_items gs m at))) \<subseteq> set (pending_items gs)"
proof (induction gs)
  case (Cons g gs)
  obtain n where "fst (shrink_group m at g []) = g\<lparr>pg_items := take n (pg_items g)\<rparr>"
    using shrink_group_take by blast
  then show ?case
    using Cons by (auto simp: isolate_Cons Let_def simp del: isolate_oversized_items.simps dest: in_set_takeD)
qed simp

lemma queue_ok_Cons:
  "queue_ok sha (g # gs) \<longleftrightarrow>
     group_ok g \<and> pg_semantic g \<notin> pg_semantic ` set gs \<and> queue_ok sha gs \<and>
     distinct (map pending_slot (pg_items g)) \<and>
     pending_slot ` set (pg_items g) \<inter> pending_slot ` set (pending_items gs) = {} \<and>
     (\<forall>it \<in> set (pg_items g). normalized sha (pn_contribution it))"
  by (auto simp: queue_ok_def)

lemma isolate_narrowed:
  "queue_ok sha gs \<Longrightarrow> narrowed sha (fst (isolate_oversized_items gs m at)) gs"
proof (induction gs)
  case (Cons g gs)
  let ?r = "fst (isolate_oversized_items gs m at)"
  obtain n where n: "fst (shrink_group m at g []) = g\<lparr>pg_items := take n (pg_items g)\<rparr>"
    using shrink_group_take by blast
  have q: "queue_ok sha (g # gs)" using Cons.prems .
  then have "narrowed sha ?r gs" using Cons.IH by (simp add: queue_ok_Cons)
  then have r: "queue_ok sha ?r" "pending_item_count ?r \<le> pending_item_count gs"
    by (simp_all add: narrowed_def)
  have "pg_semantic g \<notin> set (map pg_semantic gs)" using q by (simp add: queue_ok_Cons)
  then have sem: "pg_semantic g \<notin> pg_semantic ` set ?r"
    using isolate_semantics [of gs m at] by auto
  have its: "pending_slot ` set (take n (pg_items g)) \<inter> pending_slot ` set (pending_items ?r) = {}"
  proof -
    have "pending_slot ` set (pending_items ?r) \<subseteq> pending_slot ` set (pending_items gs)"
      using isolate_items [of gs m at] by blast
    moreover have "pending_slot ` set (take n (pg_items g)) \<subseteq> pending_slot ` set (pg_items g)"
      by (auto dest: in_set_takeD)
    moreover have "pending_slot ` set (pg_items g) \<inter> pending_slot ` set (pending_items gs) = {}"
      using q by (simp add: queue_ok_Cons)
    ultimately show ?thesis by blast
  qed
  have "queue_ok sha (fst (isolate_oversized_items (g # gs) m at))"
  proof (cases "take n (pg_items g) = []")
    case True
    with r n show ?thesis by (auto simp: isolate_Cons Let_def simp del: isolate_oversized_items.simps)
  next
    case False
    have "group_ok (g\<lparr>pg_items := take n (pg_items g)\<rparr>)"
    proof -
      have "group_ok g" using q by (simp add: queue_ok_Cons)
      then show ?thesis using False by (auto simp: group_ok_def dest: in_set_takeD)
    qed
    moreover have "distinct (map pending_slot (take n (pg_items g)))"
      using q by (simp add: queue_ok_Cons flip: take_map)
    moreover have "\<forall>it \<in> set (take n (pg_items g)). normalized sha (pn_contribution it)"
    proof -
      have "\<forall>it \<in> set (pg_items g). normalized sha (pn_contribution it)" using q by (simp add: queue_ok_Cons)
      then show ?thesis by (auto dest: in_set_takeD)
    qed
    moreover have "fst (isolate_oversized_items (g # gs) m at) = g\<lparr>pg_items := take n (pg_items g)\<rparr> # ?r"
      unfolding isolate_Cons n Let_def using False by simp
    ultimately show ?thesis
      using r(1) sem its by (simp only: queue_ok_Cons pending_group.simps) simp
  qed
  moreover have "pending_item_count (fst (isolate_oversized_items (g # gs) m at)) \<le>
      pending_item_count (g # gs)"
    using r(2) n by (auto simp: isolate_Cons Let_def pending_item_count_length
        simp del: isolate_oversized_items.simps)
  ultimately show ?case using isolate_items [of "g # gs" m at] by (simp add: narrowed_def del: isolate_oversized_items.simps)
qed (simp add: narrowed_def)

lemma victim_narrowed:
  "queue_ok sha gs \<Longrightarrow> narrowed sha (fst (remove_pending_item gs i)) gs"
  by (simp add: remove_pending_thin narrowed_thin)

lemma narrowed_ok: "narrowed sha gs hs \<Longrightarrow> queue_ok sha gs"
  by (simp add: narrowed_def)

lemma trim_items_narrowed:
  "queue_ok sha gs \<Longrightarrow> narrowed sha (fst (trim_new_items gs new_items m at rs)) gs"
proof (induction gs new_items m at rs rule: trim_new_items.induct)
  case (1 gs new_items m at rs)
  note v = victim_narrowed [OF 1(2)]
  show ?case
  proof (cases "u32 (pending_item_count gs) > m \<and> trim_victim gs new_items \<noteq> None")
    case True
    then obtain it where it: "trim_victim gs new_items = Some it" and m: "u32 (pending_item_count gs) > m"
      by auto
    from narrowed_trans [OF 1(1) [OF m it narrowed_ok [OF v]] v] show ?thesis
      by (subst trim_new_items.simps) (simp add: m it)
  next
    case False
    then have "fst (trim_new_items gs new_items m at rs) = gs"
      by (subst trim_new_items.simps) (auto split: option.split)
    then show ?thesis using 1(2) by (simp add: narrowed_refl)
  qed
qed

lemma trim_bytes_narrowed:
  "queue_ok sha gs \<Longrightarrow> narrowed sha (fst (trim_new_items_by_bytes gs new_items m at rs)) gs"
proof (induction gs new_items m at rs rule: trim_new_items_by_bytes.induct)
  case (1 gs new_items m at rs)
  note v = victim_narrowed [OF 1(2)]
  obtain t ov where tv: "pending_bytes gs max_u64 = (t, ov)" by (cases "pending_bytes gs max_u64")
  show ?case
  proof (cases "\<not> (\<not> ov \<and> t \<le> m) \<and> trim_victim gs new_items \<noteq> None")
    case True
    then obtain it where it: "trim_victim gs new_items = Some it" and m: "\<not> (\<not> ov \<and> t \<le> m)" by auto
    from narrowed_trans [OF 1(1) [OF tv [symmetric] refl m it narrowed_ok [OF v]] v] show ?thesis
      by (subst trim_new_items_by_bytes.simps) (simp only: tv Let_def prod.case m it option.case if_False)
  next
    case False
    then have "fst (trim_new_items_by_bytes gs new_items m at rs) = gs"
      by (subst trim_new_items_by_bytes.simps) (auto simp: tv split: option.split)
    then show ?thesis using 1(2) by (simp add: narrowed_refl)
  qed
qed

lemma fit_queue_narrowed:
  assumes "queue_ok sha gs"
  shows "narrowed sha (fst (fit_queue l gs accepted now)) gs"
proof -
  let ?a = "remove_empty_groups gs"
  have a: "?a = gs" using group_ok_nonempty [OF assms] by (rule remove_empty_id)
  let ?b = "fst (isolate_oversized_items gs (lm_item_bytes l) now)"
  have b: "narrowed sha ?b gs" using assms by (rule isolate_narrowed)
  let ?t = "trim_new_items ?b accepted (lm_pending_items l) now []"
  have c: "narrowed sha (fst ?t) ?b"
    using b by (intro trim_items_narrowed) (simp add: narrowed_def)
  have d: "narrowed sha (fst (trim_new_items_by_bytes (fst ?t) (fst (snd ?t)) (lm_pending_bytes l) now [])) (fst ?t)"
    using c by (intro trim_bytes_narrowed) (simp add: narrowed_def)
  have "fst (fit_queue l gs accepted now) =
      fst (trim_new_items_by_bytes (fst ?t) (fst (snd ?t)) (lm_pending_bytes l) now [])"
    by (simp add: fit_queue_def Let_def case_prod_unfold a)
  then show ?thesis using narrowed_trans [OF d narrowed_trans [OF c b]] by simp
qed

end
