(* ===== verification/Engine_Preservation.thy ===== *)
theory Engine_Preservation
  imports Engine_Admission
begin

text \<open>
  \<^verbatim>\<open>Plan\<close>, \<^verbatim>\<open>Confirm\<close> and \<^verbatim>\<open>Withdraw\<close> keep the engine's invariant, stage by stage: the committed
  queue, the new offer, the accepted handoff. The two stages that add something are each
  described first by the engine they return.
\<close>

section \<open>The committed queue\<close>

definition untouched_by :: "source_slot list \<Rightarrow> nat \<times> live_offer \<Rightarrow> bool" where
  "untouched_by keys p \<longleftrightarrow> (\<forall>i \<in> set (live_items (snd p)). slot_of_item i \<notin> set keys)"

lemma revoke_all: "foldl revoke_source_offers live keys = filter (untouched_by keys) live"
proof (induction keys arbitrary: live)
  case (Cons k keys)
  then show ?case
    by (auto simp: revoke_source_offers_def untouched_by_def list_ex_iff intro!: filter_cong)
qed (simp add: untouched_by_def)

lemma plan_queue_Inr:
  assumes "plan_queue sha e p adm rs = Inr (e2, sd, rs2)"
  obtains w where
    "w = fst (fit_queue (en_limits e) (am_working (admit_all sha e p)) (am_accepted (admit_all sha e p)) (pi_now p))"
    and "e2 = e\<lparr>en_pending := w, en_pending_bytes := queue_bytes w,
           en_live := filter (untouched_by (am_changed (admit_all sha e p))) (en_live e)\<rparr>"
    and "pending_bytes w (lm_item_bytes (en_limits e)) = (queue_bytes w, False)"
    and "u32 (pending_item_count w) \<le> lm_pending_items (en_limits e)"
    and "queue_bytes w \<le> lm_pending_bytes (en_limits e)"
    and "engine_retained e2 \<le> lm_retained (en_limits e)"
    and "sd = am_suppressed (admit_all sha e p)"
    and "global_admission_failure w (en_live e2) (en_receipts e) (en_completed e) 0 (pi_now p) adm = None"
proof -
  let ?a = "admit_all sha e p"
  obtain w fr where f: "fit_queue (en_limits e) (am_working ?a) (am_accepted ?a) (pi_now p) = (w, fr)"
    by (cases "fit_queue (en_limits e) (am_working ?a) (am_accepted ?a) (pi_now p)")
  obtain b ov where b: "pending_bytes w (lm_item_bytes (en_limits e)) = (b, ov)"
    by (cases "pending_bytes w (lm_item_bytes (en_limits e))")
  have *: "\<not> ov \<and> u32 (pending_item_count w) \<le> lm_pending_items (en_limits e) \<and>
      b \<le> lm_pending_bytes (en_limits e) \<and> engine_retained e2 \<le> lm_retained (en_limits e) \<and>
      sd = am_suppressed ?a \<and>
      e2 = e\<lparr>en_pending := w, en_pending_bytes := b,
             en_live := filter (untouched_by (am_changed ?a)) (en_live e)\<rparr> \<and>
      global_admission_failure w (en_live e2) (en_receipts e) (en_completed e) 0 (pi_now p) adm = None"
    using assms
    by (auto simp: plan_queue_def Let_def f b revoke_all engine_retained_def not_less
        split: if_splits option.splits)
  then have "pending_bytes w (lm_item_bytes (en_limits e)) = (b, False)" using b by simp
  moreover from this have "b = queue_bytes w" by (simp add: pending_bytes_iff)
  ultimately show ?thesis using * f by (intro that [of w]) (blast | simp)+
qed

lemma engine_ok_queue:
  assumes "engine_ok sha e" and "plan_queue sha e p adm rs = Inr (e2, sd, rs2)"
    and "lm_pending_items (en_limits e) + length (pi_contributions p) < 2 ^ 32"
  shows "engine_ok sha e2"
proof -
  note d = engine_okD [OF assms(1)]
  let ?a = "admit_all sha e p"
  from assms(2) obtain w where
    w: "w = fst (fit_queue (en_limits e) (am_working ?a) (am_accepted ?a) (pi_now p))"
    and e2: "e2 = e\<lparr>en_pending := w, en_pending_bytes := queue_bytes w,
           en_live := filter (untouched_by (am_changed ?a)) (en_live e)\<rparr>"
    and pb: "pending_bytes w (lm_item_bytes (en_limits e)) = (queue_bytes w, False)"
    and cnt: "u32 (pending_item_count w) \<le> lm_pending_items (en_limits e)"
    and qb: "queue_bytes w \<le> lm_pending_bytes (en_limits e)"
    and ret: "engine_retained e2 \<le> lm_retained (en_limits e)"
    by (rule plan_queue_Inr) blast
  have a: "admitting_ok sha e (length (pi_contributions p)) ?a" using d by (simp add: admit_all_ok)
  then have n: "narrowed sha w (am_working ?a)"
    unfolding w by (intro fit_queue_narrowed) (simp add: admitting_ok_def)
  have "pending_item_count w \<le> pending_item_count (en_pending e) + length (pi_contributions p)"
    using n a by (simp add: narrowed_def admitting_ok_def)
  moreover have "pending_item_count (en_pending e) \<le> lm_pending_items (en_limits e)"
    using d(2) by (simp add: queue_part_def queue_fits_def)
  ultimately have "pending_item_count w \<le> lm_pending_items (en_limits e)"
    using cnt assms(3) by (simp add: u32_small)
  then have queue: "queue_part sha e2"
    using n pb qb by (auto simp: queue_part_def queue_fits_def e2 narrowed_def pending_bytes_iff)
  have old: "it \<in> set (pending_items (en_pending e)) \<or> pending_slot it \<in> set (am_changed ?a)"
    "\<not> receipted (en_receipts e) (item_identity_of it)" if "it \<in> set (pending_items w)" for it
    using that n a by (auto simp: narrowed_def admitting_ok_def)
  have l: "live_part sha (shrunk e (\<lambda>_. True) (untouched_by (am_changed ?a)))"
    using d by (simp add: live_part_shrunk)
  have live: "live_part sha e2"
    using l old(1) d(3)
    by (fastforce simp: live_part_def e2 live_ok_def live_item_set_def untouched_by_def Let_def)
  have receipt: "receipt_part e2"
    using d(4) old(2) live_item_set_filter [of "untouched_by (am_changed ?a)" "en_live e"]
    by (auto simp: receipt_part_def e2)
  have "completed_part e2" using d(5) by (auto simp: completed_part_def e2)
  with queue live receipt ret d show ?thesis by (intro engine_okI) (simp_all add: e2)
qed

section \<open>The groups selected for an offer\<close>

lemma mset_pending_items: "mset (pending_items gs) = (\<Sum>g\<in>#mset gs. mset (pg_items g))"
  by (induction gs) auto

lemma select_group_cases:
  "select_group e op (sel, n, b) g = (sel, n, b) \<or>
   \<not> group_already_offered g (en_live e) \<and>
   select_group e op (sel, n, b) g =
     (sel @ [g], u32 (n + u32 (length (pg_items g))),
      u64 (b + u64 ((if length sel > 0 then 2 else 0) + length (render_group g))))"
  by (auto simp: select_group_def Let_def)

lemma foldl_select:
  "mset (fst (foldl (select_group e op) st gs)) \<subseteq># mset (fst st) + mset gs \<and>
   (\<forall>g \<in> set (fst (foldl (select_group e op) st gs)). g \<in> set (fst st) \<or> \<not> group_already_offered g (en_live e))"
proof (induction gs arbitrary: st)
  case (Cons g gs)
  obtain sel n b where st: "st = (sel, n, b)" by (cases st)
  let ?st = "select_group e op st g"
  have IH: "mset (fst (foldl (select_group e op) ?st gs)) \<subseteq># mset (fst ?st) + mset gs"
    "\<forall>g \<in> set (fst (foldl (select_group e op) ?st gs)). g \<in> set (fst ?st) \<or> \<not> group_already_offered g (en_live e)"
    using Cons.IH [of ?st] by blast+
  have sub: "mset (fst ?st) \<subseteq># add_mset g (mset (fst st))"
    and keep: "\<forall>h \<in> set (fst ?st). h \<in> set (fst st) \<or> \<not> group_already_offered h (en_live e)"
    using select_group_cases [of e op sel n b g] by (auto simp: st)
  have "mset (fst ?st) + mset gs \<subseteq># mset (fst st) + mset (g # gs)"
    using sub by (simp add: subset_mset.add_right_mono)
  with IH keep show ?case by (auto intro: subset_mset.order_trans)
qed simp

lemma selected_groups_facts:
  assumes "queue_ok sha (en_pending e)"
  shows "set (pending_items (selected_groups e op)) \<subseteq> set (pending_items (en_pending e))"
    and "distinct (map pending_slot (pending_items (selected_groups e op)))"
    and "length (pending_items (selected_groups e op)) \<le> pending_item_count (en_pending e)"
    and "g \<in> set (selected_groups e op) \<Longrightarrow> g \<in> set (en_pending e) \<and> \<not> group_already_offered g (en_live e)"
proof -
  let ?s = "selected_groups e op"
  have sub: "mset ?s \<subseteq># mset (en_pending e)"
    using foldl_select [of e op "([], 0, 0)" "delivery_order (en_pending e)"]
    by (simp add: selected_groups_def delivery_order_def)
  then obtain rest where rest: "mset (en_pending e) = mset ?s + mset rest"
    by (metis ex_mset mset_subset_eq_exists_conv)
  then have m: "mset (pending_items (en_pending e)) = mset (pending_items ?s @ pending_items rest)"
    by (simp add: mset_pending_items)
  then show "set (pending_items ?s) \<subseteq> set (pending_items (en_pending e))"
    by (metis Un_upper1 set_append set_mset_mset)
  have "distinct (map pending_slot (pending_items ?s @ pending_items rest))"
    using assms distinct_map_mset [OF m, of pending_slot] by (simp add: queue_ok_def)
  then show "distinct (map pending_slot (pending_items ?s))" by simp
  show "length (pending_items ?s) \<le> pending_item_count (en_pending e)"
    using arg_cong [OF m, of size] by (simp add: pending_item_count_length)
  show "g \<in> set ?s \<Longrightarrow> g \<in> set (en_pending e) \<and> \<not> group_already_offered g (en_live e)"
    using foldl_select [of e op "([], 0, 0)" "delivery_order (en_pending e)"] mset_subset_eqD [OF sub, of g]
    by (auto simp: selected_groups_def)
qed

lemma offered_items:
  "map oi_identity (fst (build_offer e op)) = map item_identity_of (pending_items (selected_groups e op))"
  by (simp add: build_offer_def Let_def pending_items_def map_concat offer_item_of_def comp_def)

lemma group_already_offered_iff:
  "group_already_offered g live \<longleftrightarrow> (\<exists>it \<in> set (pg_items g). item_identity_of it \<in> live_item_set live)"
  by (auto simp: group_already_offered_def live_item_set_def list_ex_iff same_offer_item_eq)

section \<open>The new offer\<close>

definition new_live :: "(string \<Rightarrow> string) \<Rightarrow> engine \<Rightarrow> plan_input \<Rightarrow> live_offer" where
  "new_live sha e p =
     \<lparr>lo_offer = make_offer sha e p (build_offer e (pi_opportunity p)),
      lo_profile = pf_revision (pi_profile p), lo_valid_until = pf_valid_until (pi_profile p),
      lo_config = pi_config p, lo_offered_at = pi_now p\<rparr>"

definition offering_engine :: "(string \<Rightarrow> string) \<Rightarrow> engine \<Rightarrow> plan_input \<Rightarrow> engine" where
  "offering_engine sha e p =
     e\<lparr>en_next_id := en_next_id e + 1,
       en_live := map_put (en_next_id e + 1) (new_live sha e p) (en_live e)\<rparr>"

definition offer_possible :: "engine \<Rightarrow> plan_input \<Rightarrow> bool" where
  "offer_possible e p \<longleftrightarrow>
     en_pending e \<noteq> [] \<and> op_available (pi_opportunity p) \<and> op_max_bytes (pi_opportunity p) \<noteq> 0 \<and>
     op_max_items (pi_opportunity p) \<noteq> 0 \<and> u32 (length (en_live e)) < lm_live (en_limits e) \<and>
     fst (build_offer e (pi_opportunity p)) \<noteq> [] \<and> en_next_id e \<noteq> max_u64"

lemma plan_offer_success:
  assumes "offer_possible e p" and "engine_retained (offering_engine sha e p) \<le> lm_retained (en_limits e)"
    and "global_admission_failure (en_pending e) (en_live (offering_engine sha e p)) (en_receipts e)
             (en_completed e) 0 (pi_now p) adm = None"
  shows "plan_offer sha e p adm sd rs = (offered (lo_offer (new_live sha e p)) rs, offering_engine sha e p)"
  using assms
  by (simp add: plan_offer_def offer_possible_def Let_def new_live_def offering_engine_def
      engine_retained_def not_le)

lemma plan_offer_cases:
  obtains (kept) "snd (plan_offer sha e p adm sd rs) = e" and "dc_offer (fst (plan_offer sha e p adm sd rs)) = None"
  | (offers) "snd (plan_offer sha e p adm sd rs) = offering_engine sha e p"
      and "dc_offer (fst (plan_offer sha e p adm sd rs)) = Some (lo_offer (new_live sha e p))"
      and "dc_state (fst (plan_offer sha e p adm sd rs)) = ''offered''"
      and "offer_possible e p"
      and "engine_retained (offering_engine sha e p) \<le> lm_retained (en_limits e)"
      and "global_admission_failure (en_pending e) (en_live (offering_engine sha e p)) (en_receipts e)
             (en_completed e) 0 (pi_now p) adm = None"
proof -
  let ?live = "map_put (en_next_id e + 1) (new_live sha e p) (en_live e)"
  let ?fit = "retained_bytes (en_pending e) ?live (en_receipts e) (en_completed e) \<le> lm_retained (en_limits e) \<and>
    global_admission_failure (en_pending e) ?live (en_receipts e) (en_completed e) 0 (pi_now p) adm = None"
  show ?thesis
  proof (cases "offer_possible e p \<and> ?fit")
    case True
    then have "plan_offer sha e p adm sd rs =
        (offered (lo_offer (new_live sha e p)) rs, offering_engine sha e p)"
      by (intro plan_offer_success) (simp_all add: engine_retained_def offering_engine_def)
    with True show ?thesis
      by (intro offers) (simp_all add: offered_def engine_retained_def offering_engine_def)
  next
    case False
    have none: "snd (plan_offer sha e p adm sd rs) = e \<and> dc_offer (fst (plan_offer sha e p adm sd rs)) = None"
    proof (cases "offer_possible e p")
      case True
      with False have "\<not> ?fit" by blast
      with True show ?thesis
        by (auto simp: plan_offer_def offer_possible_def Let_def new_live_def decided_def not_le
            split: option.split)
    next
      case False
      then consider "en_pending e = []" | "en_pending e \<noteq> []" "\<not> op_available (pi_opportunity p)"
        | "en_pending e \<noteq> []" "op_available (pi_opportunity p)"
          "op_max_bytes (pi_opportunity p) = 0 \<or> op_max_items (pi_opportunity p) = 0"
        | "en_pending e \<noteq> []" "op_available (pi_opportunity p)"
          "\<not> (op_max_bytes (pi_opportunity p) = 0 \<or> op_max_items (pi_opportunity p) = 0)"
          "lm_live (en_limits e) \<le> u32 (length (en_live e))"
        | "en_pending e \<noteq> []" "op_available (pi_opportunity p)"
          "\<not> (op_max_bytes (pi_opportunity p) = 0 \<or> op_max_items (pi_opportunity p) = 0)"
          "\<not> lm_live (en_limits e) \<le> u32 (length (en_live e))"
          "fst (build_offer e (pi_opportunity p)) = [] \<or> en_next_id e = max_u64"
        unfolding offer_possible_def by linarith
      then show ?thesis
        by cases (simp_all add: plan_offer_def decided_def Let_def, metis (no_types, lifting) fst_conv snd_conv decision.select_convs(2))
    qed
    show ?thesis by (rule kept [OF conjunct1 [OF none] conjunct2 [OF none]])
  qed
qed

lemma new_live_items:
  "live_items (new_live sha e p) =
     map item_identity_of (pending_items (selected_groups e (pi_opportunity p)))"
  by (simp add: live_items_def new_live_def make_offer_def offer_item_identities_def offered_items
      split: prod.split flip: offered_items)

lemma map_put_new: "k \<notin> fst ` set m \<Longrightarrow> map_put k v m = m @ [(k, v)]"
  by (force simp: map_put_def filter_id_conv)

lemma offering_live:
  assumes "engine_ok sha e"
  shows "en_live (offering_engine sha e p) = en_live e @ [(en_next_id e + 1, new_live sha e p)]"
proof -
  have "en_next_id e + 1 \<notin> fst ` set (en_live e)"
    using engine_okD(3) [OF assms] by (fastforce simp: live_part_def live_ok_def Let_def)
  then show ?thesis by (simp add: offering_engine_def map_put_new)
qed

lemma live_item_set_append: "live_item_set (xs @ ys) = live_item_set xs \<union> live_item_set ys"
  by (simp add: live_item_set_def)

text \<open>The items of a new offer are pending, in none of the live offers, and each its own slot.\<close>

lemma new_offer_item:
  assumes "engine_ok sha e" and "i \<in> set (live_items (new_live sha e p))"
  obtains it where "it \<in> set (pending_items (en_pending e))" and "i = item_identity_of it"
    and "i \<notin> live_item_set (en_live e)"
proof -
  let ?s = "selected_groups e (pi_opportunity p)"
  have q: "queue_ok sha (en_pending e)" using engine_okD(2) [OF assms(1)] by (simp add: queue_part_def)
  from assms(2) obtain g it where g: "g \<in> set ?s" and it: "it \<in> set (pg_items g)" "i = item_identity_of it"
    by (auto simp: new_live_items in_pending_items)
  from selected_groups_facts(4) [OF q g] it have "i \<notin> live_item_set (en_live e)"
    by (auto simp: group_already_offered_iff)
  moreover have "it \<in> set (pending_items (en_pending e))"
  proof -
    have "it \<in> set (pending_items ?s)" using g it(1) by (auto simp: in_pending_items)
    with selected_groups_facts(1) [OF q] show ?thesis by blast
  qed
  ultimately show ?thesis using it(2) that by blast
qed

lemma slot_disjoint:
  assumes "engine_ok sha e" and "i \<in> set (live_items (new_live sha e p))"
  shows "slot_of_item i \<notin> set (live_slots (en_live e))"
proof
  assume "slot_of_item i \<in> set (live_slots (en_live e))"
  then obtain j where j: "j \<in> live_item_set (en_live e)" "slot_of_item i = slot_of_item j"
    by (auto simp: in_live_slots)
  from new_offer_item [OF assms] obtain it where
    it: "it \<in> set (pending_items (en_pending e))" "i = item_identity_of it" "i \<notin> live_item_set (en_live e)" .
  have "j = item_identity_of it"
    using engine_okD(3) [OF assms(1)] j it by (auto simp: live_part_def)
  with j(1) it show False by simp
qed

lemma pending_slot_inj:
  assumes "queue_ok sha gs" and "it \<in> set (pending_items gs)" and "jt \<in> set (pending_items gs)"
    and "pending_slot it = pending_slot jt"
  shows "it = jt"
  using assms by (auto simp: queue_ok_def distinct_map dest: inj_onD)

lemma live_ok_new:
  assumes "engine_ok sha e" and "offer_possible e p" and "pi_config p = pt_config (en_partition e)"
  shows "live_ok sha (offering_engine sha e p) (en_next_id e + 1) (new_live sha e p)"
proof -
  let ?o = "make_offer sha e p (build_offer e (pi_opportunity p))"
  obtain items body where b: "build_offer e (pi_opportunity p) = (items, body)"
    by (cases "build_offer e (pi_opportunity p)")
  have q: "queue_ok sha (en_pending e)" "pending_item_count (en_pending e) \<le> lm_pending_items (en_limits e)"
    using engine_okD(2) [OF assms(1)] by (simp_all add: queue_part_def queue_fits_def)
  have ids: "of_items (offer_identity ?o) = live_items (new_live sha e p)"
    by (simp add: live_items_def new_live_def)
  have "length (live_items (new_live sha e p)) \<le> lm_pending_items (en_limits e)"
    using selected_groups_facts(3) [OF q(1), of "pi_opportunity p"] q(2) by (simp add: new_live_items)
  moreover have "list_all valid_withdrawal_identity (live_items (new_live sha e p))"
  proof (unfold list_all_iff, intro ballI)
    fix i assume "i \<in> set (live_items (new_live sha e p))"
    from new_offer_item [OF assms(1) this] obtain it where
      "it \<in> set (pending_items (en_pending e))" "i = item_identity_of it" .
    then show "valid_withdrawal_identity i"
      using q(1) by (simp add: queue_ok_def normalized_def item_identity_of_def)
  qed
  moreover have "offer_items ?o \<noteq> []"
    using assms(2) by (simp add: offer_possible_def make_offer_def b)
  ultimately show ?thesis
    using ids assms(3)
    by (simp add: live_ok_def Let_def offering_engine_def)
       (simp add: new_live_def make_offer_def b)
qed

lemma engine_ok_offering:
  assumes ok: "engine_ok sha e" and "offer_possible e p" and "pi_config p = pt_config (en_partition e)"
    and "engine_retained (offering_engine sha e p) \<le> lm_retained (en_limits e)"
  shows "engine_ok sha (offering_engine sha e p)"
proof (rule engine_okI)
  let ?e = "offering_engine sha e p" and ?n = "new_live sha e p"
  note d = engine_okD [OF ok] and live = offering_live [OF ok, of p]
  have q: "queue_ok sha (en_pending e)" using d(2) by (simp add: queue_part_def)
  have same: "en_pending ?e = en_pending e" "en_limits ?e = en_limits e" "en_receipts ?e = en_receipts e"
    "en_completed ?e = en_completed e" "en_partition ?e = en_partition e"
    "en_next_id ?e = en_next_id e + 1" "en_pending_bytes ?e = en_pending_bytes e"
    by (simp_all add: offering_engine_def)
  show "limits_ok (en_limits ?e)" using d same by simp
  show "queue_part sha ?e" using d same by (simp add: queue_part_def)
  show "engine_retained ?e \<le> lm_retained (en_limits ?e)" using assms(4) same by simp
  show "en_next_id ?e \<le> max_u64" using assms(2) d(7) same by (simp add: offer_possible_def)
  have old: "live_ok sha ?e k l" if "(k, l) \<in> set (en_live e)" for k l
    using that d(3) same by (fastforce simp: live_part_def live_ok_def Let_def)
  have "length (en_live e) < lm_live (en_limits e)"
    using assms(2) d(1,3) by (simp add: offer_possible_def live_part_def limits_ok_def u32_small)
  moreover have "en_next_id e + 1 \<notin> fst ` set (en_live e)"
    using d(3) by (fastforce simp: live_part_def live_ok_def Let_def)
  moreover have "distinct (live_slots (en_live ?e))"
  proof -
    have "map slot_of_item (live_items ?n) =
        map pending_slot (pending_items (selected_groups e (pi_opportunity p)))"
      by (simp add: new_live_items)
    then have "distinct (map slot_of_item (live_items ?n))"
      using selected_groups_facts(2) [OF q] by simp
    moreover have "set (live_slots (en_live e)) \<inter> set (map slot_of_item (live_items ?n)) = {}"
      using slot_disjoint [OF ok, of _ p] by auto
    moreover have "live_slots [(en_next_id e + 1, ?n)] = map slot_of_item (live_items ?n)"
      by (simp add: live_slots_def)
    ultimately show ?thesis using d(3) by (simp add: live live_slots_append live_part_def)
  qed
  moreover have "i = item_identity_of it"
    if "i \<in> live_item_set (en_live ?e)" and it: "it \<in> set (pending_items (en_pending e))"
      and slot: "slot_of_item i = pending_slot it" for i it
  proof (cases "i \<in> live_item_set (en_live e)")
    case True
    then show ?thesis using it slot d(3) by (auto simp: live_part_def)
  next
    case False
    then have "i \<in> set (live_items ?n)"
      using that(1) by (simp add: live live_item_set_append) (simp add: live_item_set_def)
    from new_offer_item [OF ok this] obtain jt where
      "jt \<in> set (pending_items (en_pending e))" "i = item_identity_of jt" .
    then show ?thesis using pending_slot_inj [OF q it, of jt] slot by simp
  qed
  ultimately show "live_part sha ?e"
    using d(3) old live_ok_new [OF ok assms(2,3)] same
    by (auto simp: live_part_def live map_ok_def)
  have "\<not> receipted (en_receipts e) i" if "i \<in> live_item_set (en_live ?e)" for i
  proof (cases "i \<in> live_item_set (en_live e)")
    case True
    then show ?thesis using d(4) by (simp add: receipt_part_def)
  next
    case False
    then have "i \<in> set (live_items ?n)"
      using that by (simp add: live live_item_set_append) (simp add: live_item_set_def)
    from new_offer_item [OF ok this] show ?thesis using d(4) by (auto simp: receipt_part_def)
  qed
  then show "receipt_part ?e" using d(4) same by (simp add: receipt_part_def)
  show "completed_part ?e" using d(5) same by (fastforce simp: completed_part_def live)
qed

section \<open>Plan\<close>

lemma plan_guard_None:
  assumes "plan_guard e p = None"
  shows "pi_config p = pt_config (en_partition e)" and "pi_generation p = pt_generation (en_partition e)"
  using assms by (auto simp: plan_guard_def Let_def split: if_splits)

lemma plan_guard_Some:
  "plan_guard e p = Some (d, e') \<Longrightarrow>
     dc_offer d = None \<and>
     (e' = e \<or> e' = clear_engine e \<and> dc_state d = ''withdrawn'' \<or> e' = clear_pending_and_offers e)"
  by (auto simp: plan_guard_def Let_def decided_def split: if_splits)

lemma expire_fields:
  "en_partition (fst (expire e now)) = en_partition e" "en_limits (fst (expire e now)) = en_limits e"
  "en_next_id (fst (expire e now)) = en_next_id e" "en_receipts (fst (expire e now)) = en_receipts e"
  "en_completed (fst (expire e now)) = en_completed e"
proof -
  have "fst (expire e now) = (fst (expire_pending e now))\<lparr>en_live :=
      filter (\<lambda>p. \<not> age_exceeded (lo_offered_at (snd p)) now
                  (lm_offer_age_ms (en_limits (fst (expire_pending e now)))))
        (en_live (fst (expire_pending e now)))\<rparr>"
    by (simp add: expire_def case_prod_unfold Let_def)
  note eq = this
  have pending: "en_partition (fst (expire_pending e now)) = en_partition e \<and>
      en_limits (fst (expire_pending e now)) = en_limits e \<and>
      en_next_id (fst (expire_pending e now)) = en_next_id e \<and>
      en_receipts (fst (expire_pending e now)) = en_receipts e \<and>
      en_completed (fst (expire_pending e now)) = en_completed e"
    by (cases "now = 0") (simp_all add: expire_pending_def Let_def)
  show "en_partition (fst (expire e now)) = en_partition e"
    "en_limits (fst (expire e now)) = en_limits e" "en_next_id (fst (expire e now)) = en_next_id e"
    "en_receipts (fst (expire e now)) = en_receipts e"
    "en_completed (fst (expire e now)) = en_completed e"
    using pending unfolding eq by simp_all
qed

lemma plan_refresh_partition [simp]:
  "en_partition (fst (plan_refresh e p)) = en_partition e" "en_limits (fst (plan_refresh e p)) = en_limits e"
  "en_next_id (fst (plan_refresh e p)) = en_next_id e" "en_receipts (fst (plan_refresh e p)) = en_receipts e"
  "en_completed (fst (plan_refresh e p)) = en_completed e"
  by (simp_all add: plan_refresh_def case_prod_unfold clear_pending_and_offers_def Let_def
      expire_fields)

lemma plan_queue_same:
  assumes "plan_queue sha e p adm rs = Inr (e2, sd, rs2)"
  shows "en_partition e2 = en_partition e" and "en_limits e2 = en_limits e"
    and "en_receipts e2 = en_receipts e" and "en_completed e2 = en_completed e"
    and "en_next_id e2 = en_next_id e"
  by (rule plan_queue_Inr [OF assms], simp)+

text \<open>The ways a call of \<^verbatim>\<open>Plan\<close> can go.\<close>

lemma plan_cases:
  obtains (guarded) d e' where "plan_guard e p = Some (d, e')" and "plan sha e p adm = (d, e')"
  | (repeated) l where "plan_guard e p = None" and "existing_offer sha (fst (plan_refresh e p)) p = Some l"
      and "snd (plan sha e p adm) = fst (plan_refresh e p)"
      and "dc_offer (fst (plan sha e p adm)) = None \<or> dc_offer (fst (plan sha e p adm)) = Some (lo_offer l)"
      and "dc_state (fst (plan sha e p adm)) \<noteq> ''withdrawn''"
  | (refused) d where "plan_guard e p = None"
      and "existing_offer sha (fst (plan_refresh e p)) p = None"
      and "plan_queue sha (fst (plan_refresh e p)) p adm (snd (plan_refresh e p)) = Inl d"
      and "plan sha e p adm = (d, fst (plan_refresh e p))"
  | (queued) e2 sd rs where "plan_guard e p = None"
      and "existing_offer sha (fst (plan_refresh e p)) p = None"
      and "plan_queue sha (fst (plan_refresh e p)) p adm (snd (plan_refresh e p)) = Inr (e2, sd, rs)"
      and "plan sha e p adm = plan_offer sha e2 p adm sd rs"
proof -
  obtain e1 rs1 where r: "plan_refresh e p = (e1, rs1)" by (cases "plan_refresh e p")
  show ?thesis
  proof (cases "plan_guard e p")
    case (Some out)
    then show ?thesis using guarded [of "fst out" "snd out"] by (simp add: plan_def)
  next
    case None
    note g = None
    show ?thesis
    proof (cases "existing_offer sha e1 p")
      case (Some l)
      show ?thesis
        by (rule repeated [of l])
          (use g r Some in \<open>auto simp: plan_def decided_def offered_def split: option.split\<close>)
    next
      case None
      show ?thesis
      proof (cases "plan_queue sha e1 p adm rs1")
        case (Inl d)
        then show ?thesis using refused [of d] g r None by (simp add: plan_def)
      next
        case (Inr x)
        then show ?thesis using queued [of "fst x" "fst (snd x)" "snd (snd x)"] g r None
          by (simp add: plan_def split: prod.split)
      qed
    qed
  qed
qed

definition call_ok :: "engine_limits \<Rightarrow> engine_call \<Rightarrow> bool" where
  "call_ok l c =
     (case c of Plan_call p adm \<Rightarrow> lm_pending_items l + length (pi_contributions p) < 2 ^ 32
      | _ \<Rightarrow> True)"

lemma engine_ok_plan_offer:
  assumes "engine_ok sha e" and "pi_config p = pt_config (en_partition e)"
  shows "engine_ok sha (snd (plan_offer sha e p adm sd rs))"
  by (rule plan_offer_cases [of sha e p adm sd rs]) (simp_all add: assms engine_ok_offering)

lemma engine_ok_plan:
  assumes "engine_ok sha e" and "call_ok (en_limits e) (Plan_call p adm)"
  shows "engine_ok sha (snd (plan sha e p adm))"
proof (rule plan_cases [of e p sha adm])
  note refreshed = engine_ok_refresh [OF assms(1), of p]
  show "engine_ok sha (snd (plan sha e p adm))"
    if "plan_guard e p = Some (d, e')" and "plan sha e p adm = (d, e')" for d e'
    using plan_guard_Some [OF that(1)] that(2) assms(1)
    by (auto simp: engine_ok_clear clear_pending_shrunk engine_ok_shrunk)
  show "engine_ok sha (snd (plan sha e p adm))"
    if "snd (plan sha e p adm) = fst (plan_refresh e p)" using that refreshed by simp
  show "engine_ok sha (snd (plan sha e p adm))"
    if "plan sha e p adm = (d, fst (plan_refresh e p))" for d using that refreshed by simp
  show "engine_ok sha (snd (plan sha e p adm))"
    if g: "plan_guard e p = None"
      and q: "plan_queue sha (fst (plan_refresh e p)) p adm (snd (plan_refresh e p)) = Inr (e2, sd, rs)"
      and out: "plan sha e p adm = plan_offer sha e2 p adm sd rs" for e2 sd rs
  proof -
    have "engine_ok sha e2"
      using engine_ok_queue [OF refreshed q] assms(2) by (simp add: call_ok_def)
    moreover have "pi_config p = pt_config (en_partition e2)"
      using plan_guard_None(1) [OF g] plan_queue_same(1) [OF q] by simp
    ultimately show ?thesis unfolding out by (rule engine_ok_plan_offer)
  qed
qed

end
