(* ===== verification/Engine_Confirmation.thy ===== *)
theory Engine_Confirmation
  imports Engine_Preservation
begin

text \<open>
  \<^verbatim>\<open>Confirm\<close> keeps the engine's invariant: an accepted handoff moves the offer's items from
  the queue to the receipts and the offer from the live to the completed ones. The section
  also shows that the bound on completed offers never cuts one off, so that a confirmed
  offer stays recognised.
\<close>

section \<open>What a live offer is\<close>

lemma live_item_facts:
  assumes "engine_ok sha e" and "map_of (en_live e) k = Some l"
  shows "(k, l) \<in> set (en_live e)" and "live_ok sha e k l"
    and "list_all valid_withdrawal_identity (live_items l)" and "live_items l \<noteq> []"
    and "distinct (map slot_of_item (live_items l))" and "distinct (map receipt_key_of (live_items l))"
    and "set (live_items l) \<subseteq> live_item_set (en_live e)"
    and "length (live_items l) \<le> lm_pending_items (en_limits e)"
proof -
  note d = engine_okD(3) [OF assms(1)]
  show kl: "(k, l) \<in> set (en_live e)" using assms(2) by (rule map_of_SomeD)
  then show ok: "live_ok sha e k l" using d by (auto simp: live_part_def)
  then show "list_all valid_withdrawal_identity (live_items l)"
    "length (live_items l) \<le> lm_pending_items (en_limits e)"
    unfolding live_ok_def Let_def live_items_def by blast+
  show "live_items l \<noteq> []"
    using ok by (simp add: live_ok_def Let_def live_items_def offer_item_identities_def)
  obtain as bs where "en_live e = as @ (k, l) # bs" using kl by (auto simp: in_set_conv_decomp)
  then show slots: "distinct (map slot_of_item (live_items l))"
    using d by (simp add: live_part_def live_slots_append)
  show "distinct (map receipt_key_of (live_items l))"
    using slots by (auto simp: distinct_map inj_on_def dest: receipt_key_slot)
  show "set (live_items l) \<subseteq> live_item_set (en_live e)"
    using kl by (force simp: live_item_set_def)
qed

lemma live_slots_apart:
  assumes "distinct (live_slots live)" and "(k, l) \<in> set live" and "(k', l') \<in> set live" and "k \<noteq> k'"
    and "i \<in> set (live_items l)" and "j \<in> set (live_items l')"
  shows "slot_of_item i \<noteq> slot_of_item j"
  using assms
proof (induction live)
  case (Cons q live)
  have sub: "x \<in> set (live_slots live)" if "(k'', l'') \<in> set live" "x \<in> slot_of_item ` set (live_items l'')"
    for k'' l'' x
    using that by (force simp: live_slots_def)
  have cut: "slot_of_item ` set (live_items (snd q)) \<inter> set (live_slots live) = {}"
    "distinct (live_slots live)"
    using Cons.prems(1) by auto
  consider "q = (k, l)" "(k', l') \<in> set live" | "q = (k', l')" "(k, l) \<in> set live"
    | "(k, l) \<in> set live" "(k', l') \<in> set live"
    using Cons.prems(2-4) by auto
  then show ?case
  proof cases
    case 1
    have "slot_of_item j \<in> set (live_slots live)" using sub [OF 1(2)] Cons.prems(6) by blast
    moreover have "slot_of_item i \<in> slot_of_item ` set (live_items (snd q))"
      using 1 Cons.prems(5) by simp
    ultimately show ?thesis using cut(1) by (metis disjoint_iff)
  next
    case 2
    have "slot_of_item i \<in> set (live_slots live)" using sub [OF 2(2)] Cons.prems(5) by blast
    moreover have "slot_of_item j \<in> slot_of_item ` set (live_items (snd q))"
      using 2 Cons.prems(6) by simp
    ultimately show ?thesis using cut(1) by (metis disjoint_iff)
  next
    case 3
    then show ?thesis using Cons.IH [OF cut(2)] Cons.prems(4-6) by blast
  qed
qed simp

section \<open>Recording the receipts\<close>

lemma foldl_put_new:
  assumes "distinct (map f xs)" and "\<forall>x \<in> set xs. f x \<notin> fst ` set m"
  shows "foldl (\<lambda>m x. map_put (f x) (g x) m) m xs = m @ map (\<lambda>x. (f x, g x)) xs"
  using assms
proof (induction xs arbitrary: m)
  case (Cons x xs)
  have "\<forall>y \<in> set xs. f y \<notin> fst ` set (m @ [(f x, g x)])"
    using Cons.prems by (force simp: image_iff)
  moreover have "map_put (f x) (g x) m = m @ [(f x, g x)]" using Cons.prems by (intro map_put_new) simp
  ultimately show ?case using Cons.IH [of "m @ [(f x, g x)]"] Cons.prems(1) by simp
qed simp

lemma trim_completed_short:
  "length m \<le> n \<Longrightarrow> trim_completed m n = m"
  by (subst trim_completed.simps) (use u32_le [of "length m"] in simp)

lemma receipted_iff: "receipted m i \<longleftrightarrow> receipt_key_of i \<in> fst ` set m"
  by (metis map_of_eq_None_iff receipted_def)

lemma not_receipted_iff: "\<not> receipted m i \<longleftrightarrow> receipt_key_of i \<notin> fst ` set m"
  by (simp add: receipted_def map_of_eq_None_iff)

lemma live_items_fresh:
  assumes "engine_ok sha e" and "map_of (en_live e) k = Some l"
  shows "\<forall>i \<in> set (live_items l). receipt_key_of i \<notin> fst ` set (en_receipts e)"
proof
  fix i assume "i \<in> set (live_items l)"
  then have "i \<in> live_item_set (en_live e)" using live_item_facts(7) [OF assms] by blast
  then have "\<not> receipted (en_receipts e) i" using engine_okD(4) [OF assms(1)] by (simp add: receipt_part_def)
  then show "receipt_key_of i \<notin> fst ` set (en_receipts e)" by (simp add: not_receipted_iff)
qed

lemma new_receipts_all:
  assumes "engine_ok sha e" and "map_of (en_live e) k = Some l"
  shows "new_receipts e c (live_items l) =
    map (\<lambda>i. \<lparr>rp_generation = pt_generation (en_partition e),
                rp_audience = pt_audience (en_partition e), rp_item = i, rp_at = cf_at c\<rparr>) (live_items l)"
    and "receipt_items (live_items l) = live_items l"
proof -
  note f = live_item_facts [OF assms]
  have mode: "ii_mode i = full_body" if "i \<in> set (live_items l)" for i
    using f(3) that by (simp add: list_all_iff valid_withdrawal_identity_def)
  have "map_of (en_receipts e) (receipt_key_of i) = None" if "i \<in> set (live_items l)" for i
    using f(7) that engine_okD(4) [OF assms(1)] by (auto simp: receipt_part_def receipted_def)
  with mode have "filter (\<lambda>i. ii_mode i = full_body \<and> map_of (en_receipts e) (receipt_key_of i) = None)
      (live_items l) = live_items l" by (simp add: filter_id_conv)
  then show "new_receipts e c (live_items l) =
    map (\<lambda>i. \<lparr>rp_generation = pt_generation (en_partition e),
                rp_audience = pt_audience (en_partition e), rp_item = i, rp_at = cf_at c\<rparr>) (live_items l)"
    by (simp add: new_receipts_def)
  show "receipt_items (live_items l) = live_items l"
    using mode by (simp add: receipt_items_def filter_id_conv)
qed

definition confirmed_engine :: "engine \<Rightarrow> confirmation \<Rightarrow> live_offer \<Rightarrow> engine" where
  "confirmed_engine e c l =
     (shrunk e (\<lambda>it. item_identity_of it \<notin> set (live_items l)) (\<lambda>p. fst p \<noteq> of_id (cf_identity c)))
       \<lparr>en_receipts := en_receipts e @ map (\<lambda>i. (receipt_key_of i, cf_at c)) (live_items l),
        en_completed := en_completed e @
          [(of_id (cf_identity c),
            \<lparr>co_identity = offer_identity (lo_offer l), co_profile = lo_profile l,
             co_valid_until = lo_valid_until l, co_receipts = new_receipts e c (live_items l)\<rparr>)]\<rparr>"

lemma receipts_bound:
  assumes "engine_ok sha e" and "map_of (en_live e) k = Some l"
  shows "u32 (length (en_receipts e) + length (live_items l)) = length (en_receipts e) + length (live_items l)"
  using live_item_facts(8) [OF assms] engine_okD(1,4) [OF assms(1)]
  by (intro u32_small) (simp add: limits_ok_def receipt_part_def)

definition handoff_fits :: "engine \<Rightarrow> confirmation \<Rightarrow> admission \<Rightarrow> live_offer \<Rightarrow> bool" where
  "handoff_fits e c adm l \<longleftrightarrow>
     (let e' = confirmed_engine e c l
      in length (en_receipts e) + length (live_items l) \<le> lm_receipts (en_limits e) \<and>
         engine_retained e' \<le> lm_retained (en_limits e) \<and>
         global_admission_failure (en_pending e') (en_live e') (en_receipts e') (en_completed e')
           (u32 (length (live_items l))) (cf_at c) adm = None)"

lemma accept_handoff_outcome:
  assumes "engine_ok sha e" and live: "map_of (en_live e) (of_id (cf_identity c)) = Some l"
  shows "if handoff_fits e c adm l
    then accept_handoff e c adm l =
      (confirmed ''confirmed'' (new_receipts e c (live_items l)) [], confirmed_engine e c l)
    else \<exists>r. accept_handoff e c adm l = (confirmed ''rejected'' [] [r], e)"
proof -
  let ?k = "of_id (cf_identity c)" and ?e = "confirmed_engine e c l"
  note d = engine_okD [OF assms(1)] and f = live_item_facts [OF assms] and nr = new_receipts_all [OF assms]
  have fresh: "length (new_receipts e c (live_items l)) = length (live_items l)" by (simp add: nr)
  have recs: "foldl (\<lambda>m r. map_put (receipt_key_of (rp_item r)) (rp_at r) m) (en_receipts e)
      (new_receipts e c (live_items l)) = en_receipts ?e"
  proof -
    have "foldl (\<lambda>m r. map_put (receipt_key_of (rp_item r)) (rp_at r) m) (en_receipts e)
      (new_receipts e c (live_items l)) =
      foldl (\<lambda>m i. map_put (receipt_key_of i) (cf_at c) m) (en_receipts e) (live_items l)"
      by (simp add: nr foldl_map)
    then show ?thesis
      using f(6) live_items_fresh [OF assms] by (simp add: foldl_put_new confirmed_engine_def)
  qed
  have new: "?k \<notin> fst ` set (en_completed e)" using d(5) f(1) by (force simp: completed_part_def)
  show ?thesis
  proof (cases "length (en_receipts e) + length (live_items l) \<le> lm_receipts (en_limits e)")
    case False
    then show ?thesis
      using receipts_bound [OF assms] fresh by (auto simp: accept_handoff_def handoff_fits_def Let_def)
  next
    case True
    have "length (en_completed e) + 1 \<le> lm_receipts (en_limits e)"
      using True f(4) d(5) by (cases "live_items l") (auto simp: completed_part_def)
    then have comp: "trim_completed (map_put ?k
          \<lparr>co_identity = offer_identity (lo_offer l), co_profile = lo_profile l,
             co_valid_until = lo_valid_until l, co_receipts = new_receipts e c (live_items l)\<rparr> (en_completed e))
        (lm_receipts (en_limits e)) = en_completed ?e"
      by (simp add: map_put_new [OF new] trim_completed_short confirmed_engine_def)
    have pend: "remove_exact_items (en_pending e) (receipt_items (live_items l)) = en_pending ?e"
      by (simp add: remove_exact_thin nr confirmed_engine_def)
    have liv: "map_del ?k (en_live e) = en_live ?e"
      by (simp add: map_del_filter confirmed_engine_def)
    have upd: "e\<lparr>en_receipts := en_receipts ?e, en_pending := en_pending ?e,
        en_pending_bytes := fst (pending_bytes (en_pending ?e) (lm_item_bytes (en_limits e))),
        en_live := en_live ?e, en_completed := en_completed ?e\<rparr> = ?e"
      by (simp add: confirmed_engine_def shrunk_def)
    note eqs = recs comp pend liv upd fresh receipts_bound [OF assms]
    show ?thesis
    proof (cases "engine_retained ?e \<le> lm_retained (en_limits e) \<and>
        global_admission_failure (en_pending ?e) (en_live ?e) (en_receipts ?e) (en_completed ?e)
          (u32 (length (live_items l))) (cf_at c) adm = None")
      case ok: True
      then have "accept_handoff e c adm l =
          (confirmed ''confirmed'' (new_receipts e c (live_items l)) [], ?e)"
        using True unfolding accept_handoff_def Let_def eqs engine_retained_def by simp
      with ok True show ?thesis by (simp add: handoff_fits_def Let_def)
    next
      case False
      then have "\<exists>r. accept_handoff e c adm l = (confirmed ''rejected'' [] [r], e)"
        using True unfolding accept_handoff_def Let_def eqs engine_retained_def
        by (auto split: option.split)
      moreover have "\<not> handoff_fits e c adm l" using False by (simp add: handoff_fits_def Let_def)
      ultimately show ?thesis by simp
    qed
  qed
qed

lemma accept_handoff_cases:
  assumes "engine_ok sha e" and "map_of (en_live e) (of_id (cf_identity c)) = Some l"
  obtains (refused) r where "accept_handoff e c adm l = (confirmed ''rejected'' [] [r], e)"
  | (accepted) "accept_handoff e c adm l =
        (confirmed ''confirmed'' (new_receipts e c (live_items l)) [], confirmed_engine e c l)"
    and "length (en_receipts e) + length (live_items l) \<le> lm_receipts (en_limits e)"
    and "engine_retained (confirmed_engine e c l) \<le> lm_retained (en_limits e)"
    and "global_admission_failure (en_pending (confirmed_engine e c l)) (en_live (confirmed_engine e c l))
      (en_receipts (confirmed_engine e c l)) (en_completed (confirmed_engine e c l))
      (u32 (length (live_items l))) (cf_at c) adm = None"
  using accept_handoff_outcome [OF assms, of adm]
  by (cases "handoff_fits e c adm l") (auto simp: handoff_fits_def Let_def)

lemma engine_ok_confirmed:
  assumes ok: "engine_ok sha e" and live: "map_of (en_live e) (of_id (cf_identity c)) = Some l"
    and room: "length (en_receipts e) + length (live_items l) \<le> lm_receipts (en_limits e)"
    and ret: "engine_retained (confirmed_engine e c l) \<le> lm_retained (en_limits e)"
  shows "engine_ok sha (confirmed_engine e c l)"
proof (rule engine_okI)
  let ?e = "confirmed_engine e c l" and ?k = "of_id (cf_identity c)"
  let ?s = "shrunk e (\<lambda>it. item_identity_of it \<notin> set (live_items l)) (\<lambda>p. fst p \<noteq> ?k)"
  note d = engine_okD [OF ok] and f = live_item_facts [OF ok live]
  note s = engine_okD [OF engine_ok_shrunk [OF ok, of "\<lambda>it. item_identity_of it \<notin> set (live_items l)" "\<lambda>p. fst p \<noteq> ?k"]]
  have same: "en_limits ?e = en_limits e" "en_pending ?e = en_pending ?s" "en_live ?e = en_live ?s"
    "en_partition ?e = en_partition e" "en_next_id ?e = en_next_id e"
    "en_pending_bytes ?e = en_pending_bytes ?s"
    "en_receipts ?e = en_receipts e @ map (\<lambda>i. (receipt_key_of i, cf_at c)) (live_items l)"
    by (simp_all add: confirmed_engine_def)
  show "limits_ok (en_limits ?e)" using d by (simp add: same)
  show "queue_part sha ?e" using s(2) by (simp add: queue_part_def same)
  have "live_ok sha ?e = live_ok sha ?s" by (intro ext) (simp add: live_ok_def same Let_def)
  then show "live_part sha ?e" using s(3) by (simp add: live_part_def same)
  show "engine_retained ?e \<le> lm_retained (en_limits ?e)" using ret by (simp add: same)
  show "en_next_id ?e \<le> max_u64" using d by (simp add: same)
  have keys: "receipted (en_receipts ?e) i \<longleftrightarrow>
      receipted (en_receipts e) i \<or> receipt_key_of i \<in> receipt_key_of ` set (live_items l)" for i
    unfolding same(7) receipted_iff by (simp add: image_Un image_image)
  have "\<not> receipted (en_receipts ?e) i" if i: "i \<in> live_item_set (en_live ?e)" for i
  proof -
    from i obtain k' l' where kl: "(k', l') \<in> set (en_live e)" "k' \<noteq> ?k" "i \<in> set (live_items l')"
      by (auto simp: same live_item_set_def)
    have "slot_of_item j \<noteq> slot_of_item i" if "j \<in> set (live_items l)" for j
      using live_slots_apart [OF _ f(1) kl(1) _ that kl(3)] d(3) kl(2) by (auto simp: live_part_def)
    then have "receipt_key_of i \<notin> receipt_key_of ` set (live_items l)"
      using receipt_key_slot [of i] by fastforce
    moreover have "i \<in> live_item_set (en_live e)" using kl by (force simp: live_item_set_def)
    ultimately show ?thesis using d(4) by (auto simp: keys receipt_part_def)
  qed
  moreover have "\<not> receipted (en_receipts ?e) (item_identity_of it)"
    if it: "it \<in> set (pending_items (en_pending ?e))" for it
  proof -
    from it have p: "it \<in> set (pending_items (en_pending e))" "item_identity_of it \<notin> set (live_items l)"
      by (auto simp: same pending_items_thin)
    have "receipt_key_of (item_identity_of it) \<noteq> receipt_key_of j" if j: "j \<in> set (live_items l)" for j
    proof
      assume "receipt_key_of (item_identity_of it) = receipt_key_of j"
      then have "slot_of_item j = pending_slot it" using receipt_key_slot [of "item_identity_of it" j] by simp
      then have "j = item_identity_of it" using d(3) f(7) j p(1) by (auto simp: live_part_def)
      with j p(2) show False by simp
    qed
    then show ?thesis using d(4) p(1) by (auto simp: keys receipt_part_def)
  qed
  moreover have "map_ok (en_receipts ?e)"
  proof -
    have "map_ok (en_receipts e)" using d(4) by (simp add: receipt_part_def)
    moreover have "receipt_key_of ` set (live_items l) \<inter> fst ` set (en_receipts e) = {}"
      using live_items_fresh [OF ok live] by blast
    ultimately show ?thesis using f(6) by (simp add: map_ok_def same comp_def Int_commute)
  qed
  ultimately show "receipt_part ?e" using room by (simp add: receipt_part_def same)
  have "?k \<notin> fst ` set (en_completed e)" "?k \<le> en_next_id e"
    using d(5) f(1,2) by (force simp: completed_part_def live_ok_def Let_def)+
  then show "completed_part ?e"
    using d(5) f(4) by (cases "live_items l") (auto simp: completed_part_def confirmed_engine_def map_ok_def)
qed

section \<open>Confirm\<close>

lemma confirm_live_cases:
  assumes "engine_ok sha e" and "map_of (en_live e) (of_id (cf_identity c)) = Some l"
  obtains (kept) "snd (confirm_live e c adm l) = e" and "cr_receipts (fst (confirm_live e c adm l)) = []"
      and "cr_state (fst (confirm_live e c adm l)) \<noteq> ''confirmed''"
  | (dropped) "snd (confirm_live e c adm l) = e\<lparr>en_live := map_del (of_id (cf_identity c)) (en_live e)\<rparr>"
      and "cr_receipts (fst (confirm_live e c adm l)) = []"
      and "cr_state (fst (confirm_live e c adm l)) \<noteq> ''confirmed''"
  | (accepted) "confirm_live e c adm l = accept_handoff e c adm l"
      and "accept_handoff e c adm l =
        (confirmed ''confirmed'' (new_receipts e c (live_items l)) [], confirmed_engine e c l)"
      and "same_offer_identity (offer_identity (lo_offer l)) (cf_identity c)"
      and "cf_profile c = lo_profile l" and "cf_valid_until c = lo_valid_until l"
      and "\<not> deadline_passed (lo_valid_until l) (cf_at c)" and "cf_handoff c = ''confirmed''"
      and "same_content (of_body (offer_identity (lo_offer l))) (cf_emitted c)"
      and "length (en_receipts e) + length (live_items l) \<le> lm_receipts (en_limits e)"
      and "engine_retained (confirmed_engine e c l) \<le> lm_retained (en_limits e)"
      and "global_admission_failure (en_pending (confirmed_engine e c l)) (en_live (confirmed_engine e c l))
        (en_receipts (confirmed_engine e c l)) (en_completed (confirmed_engine e c l))
        (u32 (length (live_items l))) (cf_at c) adm = None"
proof -
  note defs = confirm_live_def Let_def confirmed_def
  consider (a) "\<not> same_offer_identity (offer_identity (lo_offer l)) (cf_identity c)"
    | (b) "same_offer_identity (offer_identity (lo_offer l)) (cf_identity c)" "cf_profile c \<noteq> lo_profile l"
    | (c) "same_offer_identity (offer_identity (lo_offer l)) (cf_identity c)" "cf_profile c = lo_profile l"
        "cf_valid_until c \<noteq> lo_valid_until l \<or> deadline_passed (lo_valid_until l) (cf_at c)"
    | (d) "same_offer_identity (offer_identity (lo_offer l)) (cf_identity c)" "cf_profile c = lo_profile l"
        "\<not> (cf_valid_until c \<noteq> lo_valid_until l \<or> deadline_passed (lo_valid_until l) (cf_at c))"
        "offer_expired (lo_offered_at l) (cf_at c) (lm_offer_age_ms (en_limits e))"
    | (e) "same_offer_identity (offer_identity (lo_offer l)) (cf_identity c)" "cf_profile c = lo_profile l"
        "\<not> (cf_valid_until c \<noteq> lo_valid_until l \<or> deadline_passed (lo_valid_until l) (cf_at c))"
        "\<not> offer_expired (lo_offered_at l) (cf_at c) (lm_offer_age_ms (en_limits e))"
        "cf_handoff c = ''failed'' \<or> cf_handoff c = ''unknown''"
    | (f) "same_offer_identity (offer_identity (lo_offer l)) (cf_identity c)" "cf_profile c = lo_profile l"
        "\<not> (cf_valid_until c \<noteq> lo_valid_until l \<or> deadline_passed (lo_valid_until l) (cf_at c))"
        "\<not> offer_expired (lo_offered_at l) (cf_at c) (lm_offer_age_ms (en_limits e))"
        "cf_handoff c \<noteq> ''failed''" "cf_handoff c \<noteq> ''unknown''"
        "cf_handoff c \<noteq> ''confirmed'' \<or> \<not> same_content (of_body (offer_identity (lo_offer l))) (cf_emitted c)"
    | (g) "same_offer_identity (offer_identity (lo_offer l)) (cf_identity c)" "cf_profile c = lo_profile l"
        "\<not> (cf_valid_until c \<noteq> lo_valid_until l \<or> deadline_passed (lo_valid_until l) (cf_at c))"
        "\<not> offer_expired (lo_offered_at l) (cf_at c) (lm_offer_age_ms (en_limits e))"
        "cf_handoff c = ''confirmed''" "same_content (of_body (offer_identity (lo_offer l))) (cf_emitted c)"
    by blast
  then show ?thesis
  proof cases
    case a then show ?thesis by (intro kept) (simp_all add: defs)
  next
    case b then show ?thesis by (intro dropped) (simp_all add: defs)
  next
    case c then show ?thesis by (intro dropped) (simp_all add: defs)
  next
    case d then show ?thesis by (intro dropped) (simp_all add: defs)
  next
    case e then show ?thesis by (intro dropped) (auto simp: defs)
  next
    case f then show ?thesis by (intro kept) (simp_all add: defs)
  next
    case g
    then have run: "confirm_live e c adm l = accept_handoff e c adm l"
      by (simp add: confirm_live_def Let_def)
    show ?thesis
    proof (rule accept_handoff_cases [OF assms, of adm])
      fix r assume "accept_handoff e c adm l = (confirmed ''rejected'' [] [r], e)"
      then show ?thesis by (intro kept) (simp_all add: run confirmed_def)
    next
      assume "accept_handoff e c adm l =
          (confirmed ''confirmed'' (new_receipts e c (live_items l)) [], confirmed_engine e c l)"
        and "length (en_receipts e) + length (live_items l) \<le> lm_receipts (en_limits e)"
        and "engine_retained (confirmed_engine e c l) \<le> lm_retained (en_limits e)"
        and "global_admission_failure (en_pending (confirmed_engine e c l)) (en_live (confirmed_engine e c l))
          (en_receipts (confirmed_engine e c l)) (en_completed (confirmed_engine e c l))
          (u32 (length (live_items l))) (cf_at c) adm = None"
      then show ?thesis using run g by (intro accepted) auto
    qed
  qed
qed

text \<open>Every call of \<^verbatim>\<open>Confirm\<close> leaves the engine, drops the one live offer, or accepts it.\<close>

lemma confirm_cases:
  obtains (kept) "snd (confirm e c adm) = e"
  | (dropped) "snd (confirm e c adm) = e\<lparr>en_live := map_del (of_id (cf_identity c)) (en_live e)\<rparr>"
      and "cr_state (fst (confirm e c adm)) \<noteq> ''confirmed''"
  | (live) l where "map_of (en_live e) (of_id (cf_identity c)) = Some l"
      and "map_of (en_completed e) (of_id (cf_identity c)) = None"
      and "confirm e c adm = confirm_live e c adm l"
proof -
  let ?kept = "snd (confirm e c adm) = e"
  let ?dropped = "snd (confirm e c adm) = e\<lparr>en_live := map_del (of_id (cf_identity c)) (en_live e)\<rparr> \<and>
    cr_state (fst (confirm e c adm)) \<noteq> ''confirmed''"
  let ?early = "of_generation (cf_identity c) \<noteq> pt_generation (en_partition e) \<or> \<not> cf_active c \<or>
    \<not> same_scope_root (cf_scope c) (pt_scope (en_partition e)) \<or>
    \<not> same_audience (cf_audience c) (pt_audience (en_partition e)) \<or>
    \<not> same_audience (of_audience (cf_identity c)) (pt_audience (en_partition e))"
  let ?stale = "cf_config c \<noteq> pt_config (en_partition e) \<or>
    sc_config (cf_scope c) \<noteq> sc_config (pt_scope (en_partition e))"
  consider (early) ?early | (stale) "\<not> ?early" ?stale
    | (replay) d where "\<not> ?early" "\<not> ?stale" "map_of (en_completed e) (of_id (cf_identity c)) = Some d"
    | (gone) "\<not> ?early" "\<not> ?stale" "map_of (en_completed e) (of_id (cf_identity c)) = None"
        "map_of (en_live e) (of_id (cf_identity c)) = None"
    | (alive) l where "\<not> ?early" "\<not> ?stale" "map_of (en_completed e) (of_id (cf_identity c)) = None"
        "map_of (en_live e) (of_id (cf_identity c)) = Some l"
    by (cases "map_of (en_completed e) (of_id (cf_identity c))";
        cases "map_of (en_live e) (of_id (cf_identity c))") blast+
  then show ?thesis
  proof cases
    case early then show ?thesis by (intro kept) (auto simp: confirm_def Let_def)
  next
    case stale
    then have "?kept \<or> ?dropped"
      by (auto simp: confirm_def Let_def confirmed_def split: option.split)
    then show ?thesis using kept dropped by blast
  next
    case replay then show ?thesis by (intro kept) (simp add: confirm_def Let_def split: option.split)
  next
    case gone then show ?thesis by (intro kept) (simp add: confirm_def Let_def)
  next
    case alive then show ?thesis by (intro live) (simp_all add: confirm_def Let_def)
  qed
qed

lemma engine_ok_confirm:
  assumes ok: "engine_ok sha e"
  shows "engine_ok sha (snd (confirm e c adm))"
proof (rule confirm_cases [of e c adm])
  show "engine_ok sha (snd (confirm e c adm))" if "snd (confirm e c adm) = e" using that ok by simp
  show "engine_ok sha (snd (confirm e c adm))"
    if "snd (confirm e c adm) = e\<lparr>en_live := map_del (of_id (cf_identity c)) (en_live e)\<rparr>"
    using that engine_ok_drop_offer [OF ok] by simp
  fix l assume l: "map_of (en_live e) (of_id (cf_identity c)) = Some l"
    and run: "confirm e c adm = confirm_live e c adm l"
  show "engine_ok sha (snd (confirm e c adm))"
    unfolding run
    by (rule confirm_live_cases [OF ok l, of adm])
      (simp_all add: ok engine_ok_drop_offer engine_ok_confirmed l)
qed

end
