(* ===== verification/Engine_Delivery.thy ===== *)
theory Engine_Delivery
  imports Engine_Confirmation
begin

text \<open>
  What a caller of the context engine observes: every reachable engine keeps the invariant,
  an offer is of live, unreceipted items and fits its opportunity, a receipt records an exact
  confirmed handoff and lasts until the partition is withdrawn.
\<close>

section \<open>Every call keeps the invariant\<close>

lemma withdraw_limits: "en_limits (snd (withdraw e w)) = en_limits e"
  by (simp add: withdraw_shrunk withdrawn_engine_def)

lemma confirm_live_limits:
  assumes "engine_ok sha e" and "map_of (en_live e) (of_id (cf_identity c)) = Some l"
  shows "en_limits (snd (confirm_live e c adm l)) = en_limits e"
  by (rule confirm_live_cases [OF assms, of adm]) (simp_all add: confirmed_engine_def)

lemma confirm_limits: "engine_ok sha e \<Longrightarrow> en_limits (snd (confirm e c adm)) = en_limits e"
  by (rule confirm_cases [of e c adm]) (auto simp: confirm_live_limits)

lemma plan_offer_limits: "en_limits (snd (plan_offer sha e p adm sd rs)) = en_limits e"
  by (rule plan_offer_cases [of sha e p adm sd rs]) (simp_all add: offering_engine_def)

lemma plan_limits: "en_limits (snd (plan sha e p adm)) = en_limits e"
proof (rule plan_cases [of e p sha adm])
  show "en_limits (snd (plan sha e p adm)) = en_limits e"
    if "plan_guard e p = Some (d, e')" "plan sha e p adm = (d, e')" for d e'
    using plan_guard_Some [OF that(1)] that(2)
    by (auto simp: clear_engine_def clear_pending_and_offers_def)
  show "en_limits (snd (plan sha e p adm)) = en_limits e"
    if "plan_queue sha (fst (plan_refresh e p)) p adm (snd (plan_refresh e p)) = Inr (e2, sd, rs)"
      and "plan sha e p adm = plan_offer sha e2 p adm sd rs" for e2 sd rs
    using that plan_queue_same(2) [OF that(1)] by (simp add: plan_offer_limits)
qed simp_all

lemma engine_step_ok:
  assumes "engine_ok sha e \<and> en_limits e = l" and "call_ok l c"
  shows "engine_ok sha (engine_step sha e c) \<and> en_limits (engine_step sha e c) = l"
proof (cases c)
  case (Plan_call p adm)
  with assms show ?thesis by (simp add: engine_ok_plan plan_limits)
next
  case (Confirm_call k adm)
  with assms show ?thesis by (auto simp: engine_ok_confirm confirm_limits)
next
  case (Withdraw_call w)
  with assms show ?thesis by (simp add: engine_ok_withdraw withdraw_limits)
qed

interpretation engine_log:
  kept_invariant "engine_step sha" "call_ok l" "\<lambda>e. engine_ok sha e \<and> en_limits e = l" for sha l
  by unfold_locales (rule engine_step_ok)

section \<open>Offers\<close>

lemma first_existing_in:
  "first_existing sha p m live = Some l \<Longrightarrow> l \<in> snd ` set live \<and> offer_applies p l"
  by (induction sha p m live rule: first_existing.induct) (auto split: if_splits option.splits)

lemma existing_offer_in:
  assumes "existing_offer sha e p = Some l"
  shows "\<exists>k. (k, l) \<in> set (en_live e)" and "offer_applies p l"
  using first_existing_in [OF assms [unfolded existing_offer_def]] by auto

text \<open>What an offering call of \<^verbatim>\<open>Plan\<close> returns: an offer live before the call, or a new one.\<close>

lemma plan_offers:
  assumes ok: "engine_ok sha e" and call: "call_ok (en_limits e) (Plan_call p adm)"
    and offer: "dc_offer (fst (plan sha e p adm)) = Some o1"
  obtains (old) k l where "(k, l) \<in> set (en_live e)" and "(k, l) \<in> set (en_live (snd (plan sha e p adm)))"
      and "lo_offer l = o1" and "offer_applies p l"
      and "en_next_id (snd (plan sha e p adm)) = en_next_id e"
      and "en_receipts (snd (plan sha e p adm)) = en_receipts e"
      and "en_completed (snd (plan sha e p adm)) = en_completed e"
      and "en_pending (snd (plan sha e p adm)) = en_pending (fst (plan_refresh e p))"
  | (new) e2 where "engine_ok sha e2" and "offer_possible e2 p" and "lo_offer (new_live sha e2 p) = o1"
      and "snd (plan sha e p adm) = offering_engine sha e2 p" and "en_next_id e2 = en_next_id e"
      and "en_receipts e2 = en_receipts e" and "en_completed e2 = en_completed e"
      and "en_partition e2 = en_partition e" and "en_limits e2 = en_limits e"
      and "engine_ok sha (offering_engine sha e2 p)"
proof (rule plan_cases [of e p sha adm])
  show thesis if "plan_guard e p = Some (d, e')" "plan sha e p adm = (d, e')" for d e'
    using plan_guard_Some [OF that(1)] that(2) offer by simp
next
  fix l assume x: "existing_offer sha (fst (plan_refresh e p)) p = Some l"
    and s: "snd (plan sha e p adm) = fst (plan_refresh e p)"
    and o2: "dc_offer (fst (plan sha e p adm)) = None \<or> dc_offer (fst (plan sha e p adm)) = Some (lo_offer l)"
  from existing_offer_in [OF x] obtain k where k: "(k, l) \<in> set (en_live (fst (plan_refresh e p)))"
    and a: "offer_applies p l" by blast
  have "set (en_live (fst (plan_refresh e p))) \<subseteq> set (en_live e)"
    using expire_shrunk [OF ok, of "pi_now p"]
    by (auto simp: plan_refresh_def case_prod_unfold Let_def clear_pending_and_offers_def split: if_splits)
  with k have "(k, l) \<in> set (en_live e)" by blast
  then show thesis using k a s o2 offer by (intro old [of k l]) simp_all
next
  fix d assume q: "plan_queue sha (fst (plan_refresh e p)) p adm (snd (plan_refresh e p)) = Inl d"
    and s: "plan sha e p adm = (d, fst (plan_refresh e p))"
  have "dc_offer d = None"
    using q by (auto simp: plan_queue_def Let_def decided_def split: prod.splits if_splits option.splits)
  then show thesis using s offer by simp
next
  fix e2 sd rs
  assume g: "plan_guard e p = None"
    and q: "plan_queue sha (fst (plan_refresh e p)) p adm (snd (plan_refresh e p)) = Inr (e2, sd, rs)"
    and s: "plan sha e p adm = plan_offer sha e2 p adm sd rs"
  note same = plan_queue_same [OF q]
  have ok2: "engine_ok sha e2"
    using engine_ok_queue [OF engine_ok_refresh [OF ok] q] call by (simp add: call_ok_def)
  have cfg: "pi_config p = pt_config (en_partition e2)" using plan_guard_None(1) [OF g] same by simp
  show thesis
  proof (rule plan_offer_cases [of sha e2 p adm sd rs])
    assume "dc_offer (fst (plan_offer sha e2 p adm sd rs)) = None"
    then show thesis using offer s by simp
  next
    assume so: "snd (plan_offer sha e2 p adm sd rs) = offering_engine sha e2 p"
      and "dc_offer (fst (plan_offer sha e2 p adm sd rs)) = Some (lo_offer (new_live sha e2 p))"
      and "offer_possible e2 p"
      and r: "engine_retained (offering_engine sha e2 p) \<le> lm_retained (en_limits e2)"
    then show thesis
      using ok2 same s offer engine_ok_offering [OF ok2 _ cfg r] by (intro new [of e2]) simp_all
  qed
qed

text \<open>The offer is live afterwards; so it names this partition, and none of it is receipted.\<close>

lemma offer_is_live:
  assumes "engine_ok sha e" and "call_ok (en_limits e) (Plan_call p adm)"
    and "dc_offer (fst (plan sha e p adm)) = Some o1"
  obtains k l where "(k, l) \<in> set (en_live (snd (plan sha e p adm)))" and "lo_offer l = o1"
    and "en_receipts (snd (plan sha e p adm)) = en_receipts e"
proof (rule plan_offers [OF assms])
  fix k l assume "(k, l) \<in> set (en_live (snd (plan sha e p adm)))" "lo_offer l = o1"
    "en_receipts (snd (plan sha e p adm)) = en_receipts e"
  then show thesis by (rule that)
next
  fix e2 assume ok2: "engine_ok sha e2" and o2: "lo_offer (new_live sha e2 p) = o1"
    and s: "snd (plan sha e p adm) = offering_engine sha e2 p" and r: "en_receipts e2 = en_receipts e"
  have "(en_next_id e2 + 1, new_live sha e2 p) \<in> set (en_live (snd (plan sha e p adm)))"
    by (simp add: s offering_live [OF ok2])
  then show thesis by (rule that [OF _ o2]) (simp add: s offering_engine_def r)
qed

lemma offer_not_receipted:
  assumes "engine_ok sha e" and "call_ok (en_limits e) (Plan_call p adm)"
    and "dc_offer (fst (plan sha e p adm)) = Some o1" and "i \<in> set (of_items (offer_identity o1))"
  shows "\<not> receipted (en_receipts e) i"
proof (rule offer_is_live [OF assms(1-3)])
  fix k l assume k: "(k, l) \<in> set (en_live (snd (plan sha e p adm)))" "lo_offer l = o1"
    and r: "en_receipts (snd (plan sha e p adm)) = en_receipts e"
  have "engine_ok sha (snd (plan sha e p adm))" using engine_ok_plan assms(1,2) by blast
  moreover have "i \<in> live_item_set (en_live (snd (plan sha e p adm)))"
    using k assms(4) by (force simp: live_item_set_def live_items_def)
  ultimately have "\<not> receipted (en_receipts (snd (plan sha e p adm))) i"
    by (simp add: engine_ok_def receipt_part_def)
  then show ?thesis by (simp add: r)
qed

section \<open>An offer fits its opportunity\<close>

definition selection_fits :: "opportunity \<Rightarrow> pending_group list \<times> nat \<times> nat \<Rightarrow> bool" where
  "selection_fits op st \<longleftrightarrow>
     (case st of (sel, n, b) \<Rightarrow>
        n = length (pending_items sel) \<and> n \<le> op_max_items op \<and>
        b = length (join [CHR 0x0A, CHR 0x0A] (map render_group sel)) \<and> b \<le> op_max_bytes op)"

lemma length_join_snoc:
  "length (join sep (xs @ [x])) = length (join sep xs) + (if length xs > 0 then length sep else 0) + length x"
  by (cases "xs = []") (simp_all add: join_snoc)

lemma select_group_fits:
  assumes "selection_fits op st" and "2 * op_max_bytes op + 2 < 2 ^ 64"
    and "length (pending_items (fst st)) + length (pg_items g) < 2 ^ 32"
  shows "selection_fits op (select_group e op st g)"
proof -
  obtain sel n b where st: "st = (sel, n, b)" by (cases st)
  define c :: nat where "c = (if length sel > 0 then 2 else 0)"
  let ?w = "length (render_group g)"
  have eq: "select_group e op (sel, n, b) g =
    (if group_already_offered g (en_live e) then (sel, n, b)
     else if ?w > op_max_bytes op \<or> ?w > lm_item_bytes (en_limits e) then (sel, n, b)
     else if u32 (n + u32 (length (pg_items g))) > op_max_items op then (sel, n, b)
     else if u64 (u64 (b + c) + ?w) > op_max_bytes op then (sel, n, b)
     else (sel @ [g], u32 (n + u32 (length (pg_items g))), u64 (b + u64 (c + ?w))))"
    by (simp only: select_group_def prod.case Let_def c_def)
  have b: "b \<le> op_max_bytes op" "b = length (join [CHR 0x0A, CHR 0x0A] (map render_group sel))"
    and n: "n = length (pending_items sel)" "n \<le> op_max_items op"
    using assms(1) by (auto simp: selection_fits_def st)
  have count: "u32 (n + u32 (length (pg_items g))) = n + length (pg_items g)"
    using assms(3) n by (simp add: st u32_small)
  have len: "length (join [CHR 0x0A, CHR 0x0A] (map render_group (sel @ [g]))) = b + c + ?w"
    using length_join_snoc [of "[CHR 0x0A, CHR 0x0A]" "map render_group sel" "render_group g"] b(2) by (simp add: c_def)
  show ?thesis
  proof (cases "?w \<le> op_max_bytes op")
    case True
    then have small: "b + c + ?w < 2 ^ 64" using b(1) assms(2) by (simp add: c_def)
    then have wrap: "u64 (u64 (b + c) + ?w) = b + c + ?w" "u64 (b + u64 (c + ?w)) = b + c + ?w"
      by (simp_all add: u64_small)
    show ?thesis
      using assms(1) len n(1) unfolding st eq count wrap by (simp add: selection_fits_def)
  next
    case False
    then show ?thesis using assms(1) unfolding st eq by simp
  qed
qed

lemma foldl_select_fits:
  assumes "selection_fits op st" and "2 * op_max_bytes op + 2 < 2 ^ 64"
    and "length (pending_items (fst st)) + length (pending_items gs) < 2 ^ 32"
  shows "selection_fits op (foldl (select_group e op) st gs)"
  using assms
proof (induction gs arbitrary: st)
  case (Cons g gs)
  have "selection_fits op (select_group e op st g)"
    using select_group_fits [OF Cons.prems(1,2)] Cons.prems(3) by simp
  moreover have "length (pending_items (fst (select_group e op st g))) \<le>
      length (pending_items (fst st)) + length (pg_items g)"
  proof -
    obtain sel n b where st: "st = (sel, n, b)" by (cases st)
    show ?thesis using select_group_cases [of e op sel n b g] by (auto simp: st)
  qed
  ultimately show ?case using Cons by simp
qed simp

lemma built_offer_fits:
  assumes "engine_ok sha e" and "2 * op_max_bytes op + 2 < 2 ^ 64" and "build_offer e op = (items, body)"
  shows "length body \<le> op_max_bytes op" and "length items \<le> op_max_items op"
proof -
  have "pending_item_count (en_pending e) < 2 ^ 32"
    using engine_okD(1,2) [OF assms(1)] by (simp add: queue_part_def queue_fits_def limits_ok_def)
  moreover have "length (pending_items (delivery_order (en_pending e))) = pending_item_count (en_pending e)"
  proof -
    have "mset (pending_items (delivery_order (en_pending e))) = mset (pending_items (en_pending e))"
      by (simp add: mset_pending_items delivery_order_def)
    then show ?thesis by (metis pending_item_count_length size_mset)
  qed
  ultimately have "selection_fits op (foldl (select_group e op) ([], 0, 0) (delivery_order (en_pending e)))"
    using assms(2) by (intro foldl_select_fits) (simp_all add: selection_fits_def)
  then have fits: "length (pending_items (selected_groups e op)) \<le> op_max_items op"
    "length (join [CHR 0x0A, CHR 0x0A] (map render_group (selected_groups e op))) \<le> op_max_bytes op"
    by (auto simp: selection_fits_def selected_groups_def split: prod.splits)
  show "length body \<le> op_max_bytes op" using fits(2) assms(3) by (auto simp: build_offer_def Let_def)
  have "length items = length (pending_items (selected_groups e op))"
    using arg_cong [OF offered_items [of e op], of length] assms(3) by simp
  with fits(1) show "length items \<le> op_max_items op" by simp
qed

lemma offer_fits:
  assumes "engine_ok sha e" and "call_ok (en_limits e) (Plan_call p adm)"
    and "dc_offer (fst (plan sha e p adm)) = Some o1"
    and "2 * op_max_bytes (pi_opportunity p) + 2 < 2 ^ 64"
  shows "length (offer_body o1) \<le> op_max_bytes (pi_opportunity p) \<and>
    length (offer_items o1) \<le> op_max_items (pi_opportunity p)"
proof (rule plan_offers [OF assms(1-3)])
  fix k l assume k: "(k, l) \<in> set (en_live e)" "lo_offer l = o1" and a: "offer_applies p l"
  have "live_ok sha e k l" using k engine_okD(3) [OF assms(1)] by (auto simp: live_part_def)
  then have "length (offer_items o1) \<le> lm_pending_items (en_limits e)"
    using k(2) by (auto simp: live_ok_def Let_def offer_item_identities_def)
  then have "u32 (length (offer_items o1)) = length (offer_items o1)"
    using engine_okD(1) [OF assms(1)] by (intro u32_small) (simp add: limits_ok_def)
  with a k(2) show ?thesis by (simp add: offer_applies_def)
next
  fix e2 assume ok: "engine_ok sha e2" and o2: "lo_offer (new_live sha e2 p) = o1"
  obtain items body where b: "build_offer e2 (pi_opportunity p) = (items, body)"
    by (cases "build_offer e2 (pi_opportunity p)")
  have "offer_body o1 = body" "offer_items o1 = items"
    using o2 by (auto simp: new_live_def make_offer_def b)
  with built_offer_fits [OF ok assms(4) b] show ?thesis by simp
qed

section \<open>Receipts\<close>

text \<open>Receipts last until a call of \<^verbatim>\<open>Plan\<close> withdraws the partition.\<close>

fun withdraws :: "(string \<Rightarrow> string) \<Rightarrow> engine \<Rightarrow> engine_call \<Rightarrow> bool" where
  "withdraws sha e (Plan_call p adm) = (dc_state (fst (plan sha e p adm)) = ''withdrawn'')"
| "withdraws sha e _ = False"

fun never_withdrawn :: "(string \<Rightarrow> string) \<Rightarrow> engine \<Rightarrow> engine_call list \<Rightarrow> bool" where
  "never_withdrawn sha e [] = True"
| "never_withdrawn sha e (c # cs) = (\<not> withdraws sha e c \<and> never_withdrawn sha (engine_step sha e c) cs)"

lemma plan_offer_receipts: "en_receipts (snd (plan_offer sha e p adm sd rs)) = en_receipts e"
  by (rule plan_offer_cases [of sha e p adm sd rs]) (simp_all add: offering_engine_def)

lemma plan_receipts:
  assumes "dc_state (fst (plan sha e p adm)) \<noteq> ''withdrawn''"
  shows "en_receipts (snd (plan sha e p adm)) = en_receipts e"
proof (rule plan_cases [of e p sha adm])
  show "en_receipts (snd (plan sha e p adm)) = en_receipts e"
    if "plan_guard e p = Some (d, e')" "plan sha e p adm = (d, e')" for d e'
    using plan_guard_Some [OF that(1)] that(2) assms by (auto simp: clear_pending_and_offers_def)
  show "en_receipts (snd (plan sha e p adm)) = en_receipts e"
    if "plan_queue sha (fst (plan_refresh e p)) p adm (snd (plan_refresh e p)) = Inr (e2, sd, rs)"
      and "plan sha e p adm = plan_offer sha e2 p adm sd rs" for e2 sd rs
    using plan_queue_same(3) [OF that(1)] that(2)
    by (simp add: plan_offer_receipts)
qed simp_all

lemma plan_receipts_cases:
  "en_receipts (snd (plan sha e p adm)) = en_receipts e \<or> en_receipts (snd (plan sha e p adm)) = []"
proof (rule plan_cases [of e p sha adm])
  show ?thesis if "plan_guard e p = Some (d, e')" "plan sha e p adm = (d, e')" for d e'
    using plan_guard_Some [OF that(1)] that(2) by (auto simp: clear_engine_def clear_pending_and_offers_def)
  show ?thesis
    if "plan_queue sha (fst (plan_refresh e p)) p adm (snd (plan_refresh e p)) = Inr (e2, sd, rs)"
      and "plan sha e p adm = plan_offer sha e2 p adm sd rs" for e2 sd rs
    using plan_queue_same(3) [OF that(1)] that(2) by (simp add: plan_offer_receipts)
qed simp_all

lemma withdraw_receipts: "en_receipts (snd (withdraw e w)) = en_receipts e"
  by (simp add: withdraw_shrunk withdrawn_engine_def)

text \<open>Where a receipt comes from: the one accepted branch of \<^verbatim>\<open>Confirm\<close>.\<close>

lemma confirm_receipts:
  assumes "engine_ok sha e"
  obtains (same) "en_receipts (snd (confirm e c adm)) = en_receipts e"
  | (grown) l where "map_of (en_live e) (of_id (cf_identity c)) = Some l"
      and "en_receipts (snd (confirm e c adm)) =
        en_receipts e @ map (\<lambda>i. (receipt_key_of i, cf_at c)) (live_items l)"
      and "same_offer_identity (offer_identity (lo_offer l)) (cf_identity c)"
      and "cf_handoff c = ''confirmed''"
      and "same_content (of_body (offer_identity (lo_offer l))) (cf_emitted c)"
proof (rule confirm_cases [of e c adm])
  show thesis if "snd (confirm e c adm) = e" using that same by simp
  show thesis if "snd (confirm e c adm) = e\<lparr>en_live := map_del (of_id (cf_identity c)) (en_live e)\<rparr>"
    using that same by simp
  fix l assume l: "map_of (en_live e) (of_id (cf_identity c)) = Some l"
    and run: "confirm e c adm = confirm_live e c adm l"
  show thesis
  proof (rule confirm_live_cases [OF assms l, of adm])
    show thesis if "snd (confirm_live e c adm l) = e" using that same run by simp
    show thesis
      if "snd (confirm_live e c adm l) = e\<lparr>en_live := map_del (of_id (cf_identity c)) (en_live e)\<rparr>"
      using that same run by simp
    assume "confirm_live e c adm l = accept_handoff e c adm l"
      and "accept_handoff e c adm l =
        (confirmed ''confirmed'' (new_receipts e c (live_items l)) [], confirmed_engine e c l)"
      and x: "same_offer_identity (offer_identity (lo_offer l)) (cf_identity c)"
        "cf_handoff c = ''confirmed''"
        "same_content (of_body (offer_identity (lo_offer l))) (cf_emitted c)"
    then have recs: "en_receipts (snd (confirm e c adm)) =
        en_receipts e @ map (\<lambda>i. (receipt_key_of i, cf_at c)) (live_items l)"
      by (simp add: run confirmed_engine_def)
    show thesis by (rule grown [OF l recs x])
  qed
qed

lemma receipted_step:
  assumes "engine_ok sha e" and "\<not> withdraws sha e c" and "receipted (en_receipts e) i"
  shows "receipted (en_receipts (engine_step sha e c)) i"
proof (cases c)
  case (Plan_call p adm)
  with assms show ?thesis by (simp add: plan_receipts)
next
  case (Confirm_call k adm)
  show ?thesis
    by (rule confirm_receipts [OF assms(1), of k adm])
      (use assms(3) in \<open>auto simp: Confirm_call receipted_iff\<close>)
next
  case (Withdraw_call w)
  with assms show ?thesis by (simp add: withdraw_receipts)
qed

lemma receipted_run:
  assumes "engine_ok sha e" and "\<forall>c \<in> set cs. call_ok (en_limits e) c"
    and "never_withdrawn sha e cs" and "receipted (en_receipts e) i"
  shows "receipted (en_receipts (foldl (engine_step sha) e cs)) i"
  using assms
proof (induction cs arbitrary: e)
  case (Cons c cs)
  have "engine_ok sha (engine_step sha e c) \<and> en_limits (engine_step sha e c) = en_limits e"
    using engine_step_ok [of sha e "en_limits e" c] Cons.prems by simp
  moreover have "receipted (en_receipts (engine_step sha e c)) i"
    using receipted_step Cons.prems by simp
  ultimately show ?case using Cons by simp
qed simp

section \<open>A repeated confirmation\<close>

lemma confirmed_replay:
  assumes ok: "engine_ok sha e" and done': "cr_state (fst (confirm e c adm)) = ''confirmed''"
  shows "confirm (snd (confirm e c adm)) c adm = (fst (confirm e c adm), snd (confirm e c adm))"
proof (rule confirm_cases [of e c adm])
  show ?thesis if "snd (confirm e c adm) = e" using that by (cases "confirm e c adm") simp
  show ?thesis if "cr_state (fst (confirm e c adm)) \<noteq> ''confirmed''" using that done' by simp
  fix l assume l: "map_of (en_live e) (of_id (cf_identity c)) = Some l"
    and nc: "map_of (en_completed e) (of_id (cf_identity c)) = None"
    and run: "confirm e c adm = confirm_live e c adm l"
  show ?thesis
  proof (rule confirm_live_cases [OF ok l, of adm])
    show ?thesis if "cr_state (fst (confirm_live e c adm l)) \<noteq> ''confirmed''" using that done' run by simp
    show ?thesis if "cr_state (fst (confirm_live e c adm l)) \<noteq> ''confirmed''" using that done' run by simp
    let ?e = "confirmed_engine e c l"
    let ?d = "\<lparr>co_identity = offer_identity (lo_offer l), co_profile = lo_profile l,
      co_valid_until = lo_valid_until l, co_receipts = new_receipts e c (live_items l)\<rparr>"
    assume a: "confirm_live e c adm l = accept_handoff e c adm l"
      "accept_handoff e c adm l = (confirmed ''confirmed'' (new_receipts e c (live_items l)) [], ?e)"
      and x: "same_offer_identity (offer_identity (lo_offer l)) (cf_identity c)"
        "cf_profile c = lo_profile l" "cf_valid_until c = lo_valid_until l"
        "\<not> deadline_passed (lo_valid_until l) (cf_at c)" "cf_handoff c = ''confirmed''"
        "same_content (of_body (offer_identity (lo_offer l))) (cf_emitted c)"
      and g: "global_admission_failure (en_pending ?e) (en_live ?e) (en_receipts ?e) (en_completed ?e)
        (u32 (length (live_items l))) (cf_at c) adm = None"
    have comp: "map_of (en_completed ?e) (of_id (cf_identity c)) = Some ?d"
      using nc by (simp add: confirmed_engine_def map_add_def)
    have adm: "global_admission_failure (en_pending ?e) (en_live ?e) (en_receipts ?e) (en_completed ?e)
        0 (cf_at c) adm = None"
      using g unfolding global_admission_delta .
    have part: "en_partition ?e = en_partition e" by (simp add: confirmed_engine_def)
    have out: "confirm e c adm = (confirmed ''confirmed'' (new_receipts e c (live_items l)) [], ?e)"
      using run a by simp
    have "\<not> (of_generation (cf_identity c) \<noteq> pt_generation (en_partition e)) \<and> cf_active c \<and>
        same_scope_root (cf_scope c) (pt_scope (en_partition e)) \<and>
        same_audience (cf_audience c) (pt_audience (en_partition e)) \<and>
        same_audience (of_audience (cf_identity c)) (pt_audience (en_partition e)) \<and>
        cf_config c = pt_config (en_partition e) \<and>
        sc_config (cf_scope c) = sc_config (pt_scope (en_partition e))"
      using out by (auto simp: confirm_def Let_def confirmed_def l split: if_splits)
    then have "confirm ?e c adm = (confirmed ''confirmed'' (new_receipts e c (live_items l)) [], ?e)"
      using x adm by (simp add: confirm_def Let_def comp part)
    then show ?thesis by (simp add: out)
  qed
qed

end
