(* ===== verification/Engine_Fitting.thy ===== *)
theory Engine_Fitting
  imports Engine_Preservation
begin

text \<open>
  The fitting passes are enough: after them the queue is within its bounds, so the two
  defensive rejections of \<^verbatim>\<open>Plan\<close> ("coalesced complete body exceeds item bound", "pending
  queue bound would be exceeded") are never taken on an engine that keeps its invariant.

  The bytes of a well-formed queue depend on its set of items only, and grow with it; once
  the trimming loops find no item of the call left to drop, what remains was pending before.
\<close>

section \<open>The bytes of a queue as a function of its items\<close>

abbreviation body_of :: "pending_item \<Rightarrow> string" where
  "body_of it \<equiv> cb_body (pn_contribution it)"

definition label_set :: "pending_item set \<Rightarrow> string \<Rightarrow> string set" where
  "label_set S b = (\<lambda>it. sr_label (cb_source (pn_contribution it))) ` {it \<in> S. body_of it = b} - {[]}"

definition items_cost :: "pending_item set \<Rightarrow> nat" where
  "items_cost S = (\<Sum>b \<in> body_of ` S. length b + label_cost (label_set S b))"

lemma items_cost_mono:
  assumes "finite T" and "S \<subseteq> T"
  shows "items_cost S \<le> items_cost T"
proof -
  have "label_cost (label_set S b) \<le> label_cost (label_set T b)" for b
    using assms by (intro label_cost_mono) (auto simp: label_set_def)
  then have "items_cost S \<le> (\<Sum>b \<in> body_of ` S. length b + label_cost (label_set T b))"
    unfolding items_cost_def by (intro sum_mono) simp
  also have "\<dots> \<le> items_cost T"
    unfolding items_cost_def using assms by (intro sum_mono2) auto
  finally show ?thesis .
qed

lemma group_body: "group_ok g \<Longrightarrow> body_of ` set (pg_items g) = {pg_semantic g}"
  by (cases "pg_items g") (auto simp: group_ok_def)

lemma bodies_of_queue:
  "\<forall>g \<in> set gs. group_ok g \<Longrightarrow> body_of ` set (pending_items gs) = pg_semantic ` set gs"
proof (induction gs)
  case (Cons g gs)
  then show ?case using group_body [of g] by (simp add: image_Un)
qed simp

lemma label_set_group:
  assumes "\<forall>g \<in> set gs. group_ok g" and "distinct (map pg_semantic gs)" and "g \<in> set gs"
  shows "label_set (set (pending_items gs)) (pg_semantic g) = labels_of (pg_items g)"
proof -
  have "{it \<in> set (pending_items gs). body_of it = pg_semantic g} = set (pg_items g)"
  proof (rule set_eqI, rule iffI)
    fix it assume "it \<in> {it \<in> set (pending_items gs). body_of it = pg_semantic g}"
    then obtain h where h: "h \<in> set gs" "it \<in> set (pg_items h)" "body_of it = pg_semantic g"
      by (auto simp: in_pending_items)
    then have "pg_semantic h = pg_semantic g" using assms(1) by (simp add: group_ok_def)
    then have "h = g" using assms(2,3) h(1) by (auto simp: distinct_map dest: inj_onD)
    with h show "it \<in> set (pg_items g)" by simp
  next
    fix it assume "it \<in> set (pg_items g)"
    then show "it \<in> {it \<in> set (pending_items gs). body_of it = pg_semantic g}"
      using assms(1,3) by (auto simp: in_pending_items group_ok_def)
  qed
  then show ?thesis by (simp add: label_set_def labels_of_def)
qed

lemma render_cost:
  assumes "group_ok g"
  shows "length (render_group g) = length (pg_semantic g) + label_cost (labels_of (pg_items g))"
  using assms by (simp add: length_render group_ok_def)

lemma queue_bytes_cost:
  assumes "queue_ok sha gs"
  shows "queue_bytes gs = items_cost (set (pending_items gs))"
proof -
  have g: "\<forall>g \<in> set gs. group_ok g" and d: "distinct (map pg_semantic gs)"
    using assms by (simp_all add: queue_ok_def)
  let ?S = "set (pending_items gs)"
  let ?c = "\<lambda>b. length b + label_cost (label_set ?S b)"
  have "queue_bytes gs = (\<Sum>g\<leftarrow>gs. ?c (pg_semantic g))"
    unfolding queue_bytes_def using g label_set_group [OF g d] render_cost
    by (intro arg_cong [of _ _ sum_list] map_cong) auto
  also have "\<dots> = (\<Sum>b\<leftarrow>map pg_semantic gs. ?c b)" by (simp add: comp_def)
  also have "\<dots> = (\<Sum>b \<in> set (map pg_semantic gs). ?c b)" by (rule sum_list_distinct_conv_sum_set [OF d])
  also have "\<dots> = items_cost ?S" by (simp add: items_cost_def bodies_of_queue [OF g])
  finally show ?thesis .
qed

section \<open>Items of the call\<close>

text \<open>\<open>offset old new gs\<close>: each item of \<open>gs\<close> was pending before or is one of the call's.\<close>

definition covered :: "pending_item set \<Rightarrow> item_identity list \<Rightarrow> pending_group list \<Rightarrow> bool" where
  "covered old new_items gs \<longleftrightarrow>
     (\<forall>it \<in> set (pending_items gs). it \<in> old \<or> item_identity_of it \<in> set new_items)"

lemma admit_one_covered:
  assumes "covered old (am_accepted a) (am_working a)"
  shows "covered old (am_accepted (admit_one sha e p a c)) (am_working (admit_one sha e p a c))"
proof (cases "normalize_contribution sha c p (lm_item_bytes (en_limits e))")
  case (Inl why)
  then show ?thesis using assms by (simp add: admit_one_def)
next
  case (Inr d)
  have sub: "set (pending_items (remove_source (am_working a) k)) \<subseteq> set (pending_items (am_working a))" for k
    by (auto simp: remove_source_thin pending_items_thin)
  consider (receipt) "has_receipt e d" | (queued) "\<not> has_receipt e d" "contains_pending (am_working a) d"
    | (fresh) "\<not> has_receipt e d" "\<not> contains_pending (am_working a) d" by blast
  then show ?thesis
  proof cases
    case receipt
    then show ?thesis using assms sub Inr by (auto simp: admit_one_def covered_def Let_def)
  next
    case queued
    then show ?thesis using assms Inr by (simp add: admit_one_def Let_def)
  next
    case fresh
    then show ?thesis
      using assms sub Inr
      by (auto simp: admit_one_def covered_def Let_def set_add_pending item_identity_of_def)
  qed
qed

lemma foldl_admit_covered:
  "covered old (am_accepted a) (am_working a) \<Longrightarrow>
     covered old (am_accepted (foldl (admit_one sha e p) a cs)) (am_working (foldl (admit_one sha e p) a cs))"
  by (induction cs arbitrary: a) (auto intro: admit_one_covered)

lemma admit_all_covered:
  "covered (set (pending_items (en_pending e))) (am_accepted (admit_all sha e p)) (am_working (admit_all sha e p))"
  unfolding admit_all_def by (rule foldl_admit_covered) (simp add: covered_def)

lemma covered_victim:
  assumes "covered old new_items gs"
  shows "covered old (removeAll i new_items) (fst (remove_pending_item gs i))"
  using assms by (auto simp: covered_def remove_pending_thin pending_items_thin)

text \<open>In a well-formed queue every item of the call is found by the trimming search.\<close>

lemma removed_one:
  assumes "it \<in> set its" and "distinct (map pending_slot its)"
  shows "foldl (\<lambda>removed jt. if same_offer_item (item_identity_of jt) (item_identity_of it)
                   then u32 (removed + 1) else removed) 0 its = 1"
proof -
  let ?f = "\<lambda>removed jt. if same_offer_item (item_identity_of jt) (item_identity_of it)
    then u32 (removed + 1) else removed"
  have none: "foldl ?f n js = n" if "it \<notin> set js" "\<forall>jt \<in> set js. pending_slot jt \<noteq> pending_slot it" for n js
    using that
  proof (induction js)
    case (Cons j js)
    have "pending_slot j \<noteq> pending_slot it" using Cons.prems(2) by simp
    then have "item_identity_of j \<noteq> item_identity_of it"
      by (rule contrapos_nn) (simp flip: slot_of_pending)
    moreover have "foldl ?f n js = n" using Cons.IH Cons.prems by simp
    ultimately show ?case by (simp add: same_offer_item_eq)
  qed simp
  obtain as bs where its: "its = as @ it # bs" using assms(1) by (auto simp: in_set_conv_decomp)
  have apart: "pending_slot it \<notin> pending_slot ` set as" "pending_slot it \<notin> pending_slot ` set bs"
    using assms(2) by (simp_all add: its)
  have "foldl ?f 0 as = 0" by (rule none) (metis apart(1) imageI)+
  moreover have "foldl ?f 1 bs = 1" by (rule none) (metis apart(2) imageI)+
  ultimately show ?thesis by (simp add: its same_offer_item_eq u32_def)
qed

lemma no_victim:
  assumes "queue_ok sha gs" and "covered old new_items gs" and "trim_victim gs new_items = None"
  shows "set (pending_items gs) \<subseteq> old"
proof
  fix it assume it: "it \<in> set (pending_items gs)"
  have "snd (remove_pending_item gs (item_identity_of it)) = 1"
    using removed_one [OF it] assms(1) by (simp add: remove_pending_item_def queue_ok_def)
  then have "item_identity_of it \<notin> set new_items"
    using assms(3) it by (auto simp: trim_victim_def find_None_iff)
  with assms(2) it show "it \<in> old" by (auto simp: covered_def)
qed

section \<open>The passes\<close>

definition items_fit :: "nat \<Rightarrow> pending_group list \<Rightarrow> bool" where
  "items_fit m gs \<longleftrightarrow> (\<forall>g \<in> set gs. length (render_group g) \<le> m)"

lemma isolate_fits: "items_fit m (fst (isolate_oversized_items gs m at))"
  unfolding items_fit_def
proof (induction gs)
  case (Cons g gs)
  then show ?case
    using shrink_group_fits [of m at g "[]"]
    by (auto simp: isolate_Cons Let_def simp del: isolate_oversized_items.simps)
qed simp

lemma items_fit_thin: "queue_ok sha gs \<Longrightarrow> items_fit m gs \<Longrightarrow> items_fit m (thin P gs)"
  unfolding items_fit_def
proof
  fix g' assume q: "queue_ok sha gs" "\<forall>g \<in> set gs. length (render_group g) \<le> m" and "g' \<in> set (thin P gs)"
  then obtain g where g: "g \<in> set gs" "g' = g\<lparr>pg_items := filter P (pg_items g)\<rparr>" "filter P (pg_items g) \<noteq> []"
    by (auto simp: in_thin)
  then have "length (render_group g') \<le> length (render_group g)"
    using q(1) by (simp add: render_filter_le queue_ok_def)
  with q(2) g(1) show "length (render_group g') \<le> m" by (meson order_trans)
qed

text \<open>What the two loops share: a predicate that removing a victim keeps holds at their end.\<close>

lemma trim_items_result:
  assumes "queue_ok sha gs" and "covered old new_items gs" and "items_fit b gs"
    and "pending_item_count gs < 2 ^ 32" and "finite old" and "card old \<le> m"
    and "trim_new_items gs new_items m at rs = (gs', new_items', rs')"
  shows "covered old new_items' gs' \<and> items_fit b gs' \<and> pending_item_count gs' \<le> m"
  using assms
proof (induction gs new_items m at rs rule: trim_new_items.induct)
  case (1 gs new_items m at rs)
  show ?case
  proof (cases "u32 (pending_item_count gs) > m")
    case False
    then have "trim_new_items gs new_items m at rs = (gs, new_items, rs)"
      by (subst trim_new_items.simps) simp
    with False 1(3,4,5,8) show ?thesis by (simp add: u32_small)
  next
    case big: True
    show ?thesis
    proof (cases "trim_victim gs new_items")
      case None
      have "set (pending_items gs) \<subseteq> old" using no_victim [OF 1(2,3) None] .
      then have "card (set (pending_items gs)) \<le> card old" using 1(6) by (intro card_mono)
      then have "card (set (pending_items gs)) \<le> m" using 1(7) by simp
      moreover have "distinct (pending_items gs)" using 1(2) by (simp add: queue_ok_def distinct_map)
      ultimately have "pending_item_count gs \<le> m" by (simp add: pending_item_count_length distinct_card)
      with big show ?thesis using 1(5) by (simp add: u32_small)
    next
      case (Some it)
      let ?g = "fst (remove_pending_item gs (item_identity_of it))"
      have "queue_ok sha ?g" "items_fit b ?g"
        using 1(2,4) by (simp_all add: remove_pending_thin queue_ok_thin items_fit_thin)
      moreover have "pending_item_count ?g < 2 ^ 32"
        using 1(5) count_thin [of "\<lambda>jt. item_identity_of jt \<noteq> item_identity_of it" gs]
        by (simp add: remove_pending_thin)
      moreover have "trim_new_items ?g (removeAll (item_identity_of it) new_items) m at
          (rs @ [dropped at ''new contribution exceeded the pending-item bound; contribution was dropped'' it])
          = (gs', new_items', rs')"
        using 1(8) by (subst (asm) trim_new_items.simps) (simp add: big Some)
      ultimately show ?thesis
        using 1(1) [OF big Some] covered_victim [OF 1(3)] 1(6,7) by blast
    qed
  qed
qed

lemma trim_bytes_result:
  assumes "queue_ok sha gs" and "covered old new_items gs" and "items_fit b gs" and "b \<le> max_u64"
    and "m \<le> max_u64" and "finite old" and "items_cost old \<le> m"
    and "trim_new_items_by_bytes gs new_items m at rs = (gs', new_items', rs')"
  shows "items_fit b gs' \<and> queue_bytes gs' \<le> m"
  using assms
proof (induction gs new_items m at rs rule: trim_new_items_by_bytes.induct)
  case (1 gs new_items m at rs)
  obtain t ov where tv: "pending_bytes gs max_u64 = (t, ov)" by (cases "pending_bytes gs max_u64")
  show ?case
  proof (cases "\<not> ov \<and> t \<le> m")
    case True
    then have "trim_new_items_by_bytes gs new_items m at rs = (gs, new_items, rs)"
      by (simp add: trim_new_items_by_bytes.simps tv)
    moreover have "t = queue_bytes gs" using tv True by (auto simp: pending_bytes_iff)
    ultimately show ?thesis using True 1(4,9) by simp
  next
    case big: False
    show ?thesis
    proof (cases "trim_victim gs new_items")
      case None
      have "queue_bytes gs \<le> items_cost old"
        using no_victim [OF 1(2,3) None] items_cost_mono [OF 1(7)] by (simp add: queue_bytes_cost [OF 1(2)])
      then have le: "queue_bytes gs \<le> m" using 1(8) by simp
      then have "pending_bytes gs max_u64 = (queue_bytes gs, False)"
        using 1(4,5,6) by (auto simp: pending_bytes_iff items_fit_def)
      then show ?thesis using big tv le by simp
    next
      case (Some it)
      let ?g = "fst (remove_pending_item gs (item_identity_of it))"
      have "queue_ok sha ?g" "items_fit b ?g"
        using 1(2,4) by (simp_all add: remove_pending_thin queue_ok_thin items_fit_thin)
      moreover have "trim_new_items_by_bytes ?g (removeAll (item_identity_of it) new_items) m at
          (rs @ [dropped at ''new contribution exceeded the pending-byte bound; contribution was dropped'' it])
          = (gs', new_items', rs')"
        using 1(9) big Some by (subst (asm) trim_new_items_by_bytes.simps) (simp only: tv Let_def prod.case if_False option.case)
      ultimately show ?thesis
        using 1(1) [OF tv [symmetric] refl big Some] covered_victim [OF 1(3)] 1(5,6,7,8) by blast
    qed
  qed
qed

lemma fit_queue_fits:
  assumes ok: "queue_ok sha gs" and cov: "covered (set (pending_items old)) accepted gs"
    and old: "queue_ok sha old" "queue_fits l old" and lim: "limits_ok l" and cnt: "pending_item_count gs < 2 ^ 32"
  shows "queue_fits l (fst (fit_queue l gs accepted now))"
proof -
  let ?old = "set (pending_items old)"
  let ?b = "fst (isolate_oversized_items gs (lm_item_bytes l) now)"
  obtain c acc rs where t: "trim_new_items ?b accepted (lm_pending_items l) now [] = (c, acc, rs)"
    by (cases "trim_new_items ?b accepted (lm_pending_items l) now []") auto
  obtain d acc' rs' where u: "trim_new_items_by_bytes c acc (lm_pending_bytes l) now [] = (d, acc', rs')"
    by (cases "trim_new_items_by_bytes c acc (lm_pending_bytes l) now []") auto
  have "remove_empty_groups gs = gs" using group_ok_nonempty [OF ok] by (rule remove_empty_id)
  then have fit: "fst (fit_queue l gs accepted now) = d"
    by (simp add: fit_queue_def Let_def case_prod_unfold t u)
  have nb: "narrowed sha ?b gs" using ok by (rule isolate_narrowed)
  then have b: "queue_ok sha ?b" "covered ?old accepted ?b" "pending_item_count ?b < 2 ^ 32"
    using cov cnt by (auto simp: narrowed_def covered_def)
  have "card ?old \<le> lm_pending_items l"
    using card_length [of "pending_items old"] old(2) by (simp add: queue_fits_def pending_item_count_length)
  from trim_items_result [OF b(1,2) isolate_fits b(3) _ this t]
  have c: "covered ?old acc c" "items_fit (lm_item_bytes l) c" "pending_item_count c \<le> lm_pending_items l" by auto
  have nc: "narrowed sha c ?b" using trim_items_narrowed [OF b(1)] t by (metis fst_conv)
  have "items_cost ?old \<le> lm_pending_bytes l"
    using old by (simp add: queue_fits_def queue_bytes_cost [OF old(1), symmetric])
  from trim_bytes_result [OF narrowed_ok [OF nc] c(1,2) _ _ _ this u] lim
  have d: "items_fit (lm_item_bytes l) d" "queue_bytes d \<le> lm_pending_bytes l" by (auto simp: limits_ok_def)
  have "narrowed sha d c" using trim_bytes_narrowed [OF narrowed_ok [OF nc]] u by (metis fst_conv)
  then have "pending_item_count d \<le> lm_pending_items l" using c(3) by (simp add: narrowed_def)
  with d show ?thesis by (simp add: fit queue_fits_def items_fit_def)
qed

text \<open>So the queue that \<^verbatim>\<open>Plan\<close> would commit always passes its two defensive checks.\<close>

lemma planned_queue_fits:
  assumes "engine_ok sha e" and "lm_pending_items (en_limits e) + length (pi_contributions p) < 2 ^ 32"
  shows "queue_fits (en_limits e)
    (fst (fit_queue (en_limits e) (am_working (admit_all sha e p)) (am_accepted (admit_all sha e p)) (pi_now p)))"
proof -
  note d = engine_okD [OF assms(1)]
  have a: "admitting_ok sha e (length (pi_contributions p)) (admit_all sha e p)"
    using d by (simp add: admit_all_ok)
  have old: "queue_ok sha (en_pending e)" "queue_fits (en_limits e) (en_pending e)"
    using d(2) by (simp_all add: queue_part_def)
  have "pending_item_count (am_working (admit_all sha e p)) < 2 ^ 32"
    using a old(2) assms(2) by (simp add: admitting_ok_def queue_fits_def)
  then show ?thesis
    using a old d(1) admit_all_covered [of e sha p] by (intro fit_queue_fits) (auto simp: admitting_ok_def)
qed

end
