(* ===== verification/Engine_Demo.thy ===== *)
theory Engine_Demo
  imports Engine_Delivery Engine_Fitting "HOL-Library.Code_Target_Nat"
begin

text \<open>
  One small engine, one contribution and the calls that offer and confirm it, evaluated
  stage by stage. They are the concrete inputs the engine's properties are applied to.
\<close>


definition demo_partition :: partition_id where
  "demo_partition = \<lparr>pt_scope = \<lparr>sc_id = ''s'', sc_authority = ''a'', sc_root = ''r'', sc_config = ''c''\<rparr>,
     pt_audience = \<lparr>au_id = ''u'', au_epoch = 1, au_continuity = []\<rparr>, pt_generation = 1, pt_config = ''c''\<rparr>"

definition demo_limits :: engine_limits where
  "demo_limits = \<lparr>lm_item_bytes = 64, lm_pending_bytes = 128, lm_pending_items = 4, lm_age_ms = 1000,
     lm_live = 2, lm_receipts = 8, lm_offer_age_ms = 1000, lm_retained = 5000\<rparr>"

definition demo_engine :: engine where
  "demo_engine = \<lparr>en_partition = demo_partition, en_limits = demo_limits, en_pending = [],
     en_pending_bytes = 0, en_live = [], en_receipts = [], en_completed = [], en_next_id = 0\<rparr>"

definition demo_contribution :: contribution where
  "demo_contribution = \<lparr>cb_slot = \<lparr>sl_provider = ''p'', sl_key = ''k''\<rparr>,
     cb_source = \<lparr>sr_identity = \<lparr>si_provider = ''p'', si_id = ''d''\<rparr>, sr_kind = [], sr_path = [], sr_label = ''l''\<rparr>,
     cb_revision = \<lparr>sv_source = \<lparr>si_provider = ''p'', si_id = ''d''\<rparr>, sv_revision = ''v''\<rparr>,
     cb_content = \<lparr>ci_id = [], ci_bytes = 0\<rparr>, cb_body = ''b'',
     cb_recruitment = \<lparr>rc_kind = [], rc_resource = []\<rparr>, cb_contributor = ''p'', cb_config = ''c'',
     cb_profile = ''f'', cb_priority = 0, cb_reasons = []\<rparr>"

definition demo_input :: plan_input where
  "demo_input = \<lparr>pi_now = 5, pi_active = True, pi_scope = pt_scope demo_partition, pi_config = ''c'',
     pi_audience = pt_audience demo_partition, pi_generation = 1, pi_transition = [],
     pi_profile = \<lparr>pf_revision = ''f'', pf_audience = pt_audience demo_partition,
       pf_facts = [], pf_generated = 5, pf_valid_until = 0\<rparr>,
     pi_contributions = [demo_contribution],
     pi_opportunity = \<lparr>op_id = ''o'', op_surface = ''t'', op_available = True, op_max_bytes = 64, op_max_items = 3\<rparr>\<rparr>"

definition demo_admission :: admission where
  "demo_admission = \<lparr>ad_items = 10, ad_memory = 10000, ad_offers = 10, ad_receipts = 10\<rparr>"


definition demo_sha :: "string \<Rightarrow> string" where
  "demo_sha s = s"

definition demo_queue :: "pending_group list" where
  "demo_queue = [\<lparr>pg_items = [\<lparr>pn_contribution = demo_contribution\<lparr>cb_content := \<lparr>ci_id = ''sha256:b'', ci_bytes = 1\<rparr>\<rparr>,
     pn_admitted = 5\<rparr>], pg_first_seen = 5, pg_semantic = ''b''\<rparr>]"

definition demo_queued :: engine where
  "demo_queued = demo_engine\<lparr>en_pending := demo_queue, en_pending_bytes := 12\<rparr>"


lemma demo_normalize:
  "normalize_contribution demo_sha demo_contribution demo_input 64 =
     Inr (demo_contribution\<lparr>cb_content := \<lparr>ci_id = ''sha256:b'', ci_bytes = 1\<rparr>\<rparr>)"
  by code_simp

lemma demo_admit:
  "admit_all demo_sha demo_engine demo_input =
     \<lparr>am_working = demo_queue, am_changed = [source_slot_of demo_contribution],
      am_accepted = [item_of (demo_contribution\<lparr>cb_content := \<lparr>ci_id = ''sha256:b'', ci_bytes = 1\<rparr>\<rparr>)],
      am_suppressed = False, am_reasons = []\<rparr>"
proof -
  have "en_limits demo_engine = demo_limits" "lm_item_bytes demo_limits = 64" "en_pending demo_engine = []"
    "en_receipts demo_engine = []" "pi_contributions demo_input = [demo_contribution]" "pi_now demo_input = 5"
    "cb_body demo_contribution = ''b''" 
    by (simp_all add: demo_engine_def demo_limits_def demo_input_def demo_contribution_def)
  then show ?thesis
    by (simp add: admit_all_def admit_one_def demo_normalize Let_def has_receipt_def contains_pending_def
        remove_source_def remove_empty_groups_def add_pending_def append_unique_source_def demo_queue_def source_slot_of_def)
qed

lemma demo_guard: "plan_guard demo_engine demo_input = None" by code_simp

lemma demo_refresh: "plan_refresh demo_engine demo_input = (demo_engine, [])" by code_simp

lemma demo_existing: "existing_offer demo_sha demo_engine demo_input = None" by code_simp

lemma demo_fit: "fit_queue demo_limits demo_queue new_items 5 = (demo_queue, [])"
  by code_simp

lemma demo_bytes: "pending_bytes demo_queue 64 = (12, False)" by code_simp

lemma demo_retained: "retained_bytes demo_queue [] [] [] \<le> 5000" by code_simp
lemma demo_global: "global_admission_failure demo_queue [] [] [] 0 5 demo_admission = None" by code_simp
lemma demo_count: "pending_item_count demo_queue = 1" by code_simp

lemma demo_plan_queue:
  "plan_queue demo_sha demo_engine demo_input demo_admission [] = Inr (demo_queued, False, [])"
proof -
  have e: "en_limits demo_engine = demo_limits" "en_live demo_engine = []" "en_receipts demo_engine = []"
    "en_completed demo_engine = []" "pi_now demo_input = 5"
    "lm_item_bytes demo_limits = 64" "lm_pending_bytes demo_limits = 128" "lm_pending_items demo_limits = 4"
    "lm_retained demo_limits = 5000"
    by code_simp+
  show ?thesis
    using demo_retained
    by (simp add: plan_queue_def demo_admit demo_fit e demo_bytes demo_count demo_global
        demo_queued_def revoke_source_offers_def u32_def)
qed

definition demo_block :: string where "demo_block = ''Sources: l'' @ [CHR 0x0A] @ ''b''"

lemma demo_built:
  "build_offer demo_queued (pi_opportunity demo_input) =
     ([offer_item_of demo_block (hd (pg_items (hd demo_queue)))], demo_block)"
  by code_simp

definition demo_offer :: offer where
  "demo_offer = make_offer demo_sha demo_queued demo_input
     ([offer_item_of demo_block (hd (pg_items (hd demo_queue)))], demo_block)"

definition demo_live :: live_offer where
  "demo_live = \<lparr>lo_offer = demo_offer, lo_profile = ''f'', lo_valid_until = 0, lo_config = ''c'', lo_offered_at = 5\<rparr>"

lemma demo_retained2: "retained_bytes demo_queue [(1, demo_live)] [] [] \<le> 5000" by code_simp
lemma demo_global2: "global_admission_failure demo_queue [(1, demo_live)] [] [] 0 5 demo_admission = None" by code_simp

lemma demo_retained_live: "retained_bytes demo_queue [(1, demo_live)] [] [] \<le> 5000" by code_simp

lemma demo_global_live:
  "global_admission_failure demo_queue [(1, demo_live)] [] [] 0 5 demo_admission = None" by code_simp

definition demo_offered :: engine where
  "demo_offered = demo_queued\<lparr>en_next_id := 1, en_live := [(1, demo_live)]\<rparr>"

lemma demo_fields:
  "en_limits demo_queued = demo_limits" "en_live demo_queued = []" "en_receipts demo_queued = []"
  "en_completed demo_queued = []" "en_pending demo_queued = demo_queue" "en_next_id demo_queued = 0"
  "op_available (pi_opportunity demo_input)" "op_max_bytes (pi_opportunity demo_input) = 64"
  "op_max_items (pi_opportunity demo_input) = 3" "lm_live demo_limits = 2" "pi_now demo_input = 5"
  "lm_retained demo_limits = 5000" "pi_config demo_input = ''c''" "lm_receipts demo_limits = 8"
  "pf_revision (pi_profile demo_input) = ''f''" "pf_valid_until (pi_profile demo_input) = 0"
  by (simp_all add: demo_queued_def demo_engine_def demo_limits_def demo_input_def)

lemma demo_new_live: "new_live demo_sha demo_queued demo_input = demo_live"
  by (simp add: new_live_def demo_live_def demo_offer_def demo_built demo_fields)

lemma demo_offering: "offering_engine demo_sha demo_queued demo_input = demo_offered"
  by (simp add: offering_engine_def demo_new_live demo_fields map_put_def demo_offered_def)

lemma demo_offered_fields:
  "en_limits demo_offered = demo_limits" "en_live demo_offered = [(1, demo_live)]"
  "en_receipts demo_offered = []" "en_completed demo_offered = []" "en_pending demo_offered = demo_queue"
  by (simp_all add: demo_offered_def demo_fields)

lemma demo_plan_offer:
  "plan_offer demo_sha demo_queued demo_input demo_admission False [] = (offered demo_offer [], demo_offered)"
proof -
  have "offer_possible demo_queued demo_input"
    by (simp add: offer_possible_def demo_fields demo_built demo_queue_def u32_def max_u64_def)
  then have "plan_offer demo_sha demo_queued demo_input demo_admission False [] =
      (offered (lo_offer (new_live demo_sha demo_queued demo_input)) [],
       offering_engine demo_sha demo_queued demo_input)"
    using demo_retained_live demo_global_live
    by (intro plan_offer_success) (simp_all add: engine_retained_def demo_offering demo_offered_fields demo_fields)
  then show ?thesis by (simp add: demo_new_live demo_offering) (simp add: demo_live_def)
qed

lemma demo_plan:
  "plan demo_sha demo_engine demo_input demo_admission = (offered demo_offer [], demo_offered)"
  by (simp add: plan_def demo_guard demo_refresh demo_existing demo_plan_queue demo_plan_offer)

lemma demo_new: "new_engine demo_partition demo_limits = Inr demo_engine"
  by (simp add: new_engine_def demo_partition_def demo_limits_def demo_engine_def max_duration_ms_def)

lemma demo_limits_ok: "limits_ok demo_limits"
  by (simp add: limits_ok_def demo_limits_def max_u64_def)

lemma demo_engine_ok: "engine_ok demo_sha demo_engine"
  by (rule engine_ok_new [OF demo_new demo_limits_ok])

lemma demo_call_ok: "call_ok (en_limits demo_engine) (Plan_call demo_input demo_admission)"
  by (simp add: call_ok_def demo_engine_def demo_limits_def demo_input_def)

lemma demo_offered_ok: "engine_ok demo_sha demo_offered"
  using engine_ok_plan [OF demo_engine_ok demo_call_ok] by (simp add: demo_plan)

section \<open>The offer is confirmed\<close>

definition demo_confirmation :: confirmation where
  "demo_confirmation = \<lparr>cf_identity = offer_identity demo_offer, cf_handoff = ''confirmed'',
     cf_emitted = of_body (offer_identity demo_offer), cf_at = 6, cf_active = True,
     cf_scope = pt_scope demo_partition, cf_audience = pt_audience demo_partition, cf_config = ''c'',
     cf_profile = ''f'', cf_valid_until = 0\<rparr>"

lemma demo_live_item:
  "live_items demo_live = [item_identity_of (hd (pg_items (hd demo_queue)))]"
  by code_simp

lemma demo_offer_id: "of_id (cf_identity demo_confirmation) = 1"
  by code_simp

definition demo_confirmed :: engine where
  "demo_confirmed = confirmed_engine demo_offered demo_confirmation demo_live"

lemma demo_confirmed_fields:
  "en_pending demo_confirmed = []" "en_live demo_confirmed = []"
  "en_receipts demo_confirmed = [(receipt_key_of (item_identity_of (hd (pg_items (hd demo_queue)))), 6)]"
  by code_simp+

lemma demo_confirmed_retained: "engine_retained demo_confirmed \<le> 5000"
  by code_simp

lemma demo_confirmed_global:
  "global_admission_failure (en_pending demo_confirmed) (en_live demo_confirmed) (en_receipts demo_confirmed)
     (en_completed demo_confirmed) 1 6 demo_admission = None"
  by code_simp

lemma demo_at: "cf_at demo_confirmation = 6"
  by (simp add: demo_confirmation_def)

lemma demo_handoff_fits: "handoff_fits demo_offered demo_confirmation demo_admission demo_live"
  using demo_confirmed_retained demo_confirmed_global
  by (simp add: handoff_fits_def Let_def demo_live_item demo_offered_fields demo_fields u32_def
      demo_at flip: demo_confirmed_def)

lemma demo_confirm_live:
  "confirm demo_offered demo_confirmation demo_admission =
     confirm_live demo_offered demo_confirmation demo_admission demo_live"
proof -
  have "en_partition demo_offered = demo_partition"
    by (simp add: demo_offered_def demo_queued_def demo_engine_def)
  moreover have "of_generation (cf_identity demo_confirmation) = pt_generation demo_partition"
    "same_audience (of_audience (cf_identity demo_confirmation)) (pt_audience demo_partition)"
    by code_simp+
  ultimately show ?thesis
    by (simp add: confirm_def Let_def demo_offer_id demo_offered_fields)
      (simp add: demo_confirmation_def same_scope_root_def same_audience_def demo_partition_def)
qed

lemma demo_confirm:
  "confirm demo_offered demo_confirmation demo_admission =
     (confirmed ''confirmed'' (new_receipts demo_offered demo_confirmation (live_items demo_live)) [],
      demo_confirmed)"
proof -
  have "map_of (en_live demo_offered) (of_id (cf_identity demo_confirmation)) = Some demo_live"
    by (simp add: demo_offer_id demo_offered_fields)
  from accept_handoff_outcome [OF demo_offered_ok this, of demo_admission] demo_handoff_fits
  have "accept_handoff demo_offered demo_confirmation demo_admission demo_live =
     (confirmed ''confirmed'' (new_receipts demo_offered demo_confirmation (live_items demo_live)) [],
      demo_confirmed)" by (simp add: demo_confirmed_def)
  moreover have "confirm_live demo_offered demo_confirmation demo_admission demo_live =
      accept_handoff demo_offered demo_confirmation demo_admission demo_live"
    by (simp add: confirm_live_def Let_def demo_confirmation_def demo_live_def same_offer_identity_def
        same_audience_def same_content_def deadline_passed_def demo_offered_fields demo_limits_def
        offer_expired_def age_exceeded_def time_sub_def i64_def same_offer_item_eq list.rel_refl)
  ultimately show ?thesis by (simp add: demo_confirm_live)
qed

lemma demo_confirmed_ok: "engine_ok demo_sha demo_confirmed"
  using engine_ok_confirm [OF demo_offered_ok, of demo_confirmation demo_admission] by (simp add: demo_confirm)

section \<open>A later plan of the same partition\<close>

text \<open>The delivered contribution comes again, beside a new one: only the new one is offered.\<close>

definition demo_other :: contribution where
  "demo_other = demo_contribution\<lparr>cb_slot := \<lparr>sl_provider = ''p'', sl_key = ''q''\<rparr>, cb_body := ''e'',
     cb_source := (cb_source demo_contribution)\<lparr>sr_label := []\<rparr>\<rparr>"

definition demo_input2 :: plan_input where
  "demo_input2 = demo_input\<lparr>pi_contributions := [demo_contribution, demo_other]\<rparr>"

definition demo_queue2 :: "pending_group list" where
  "demo_queue2 = [\<lparr>pg_items = [\<lparr>pn_contribution = demo_other\<lparr>cb_content := \<lparr>ci_id = ''sha256:e'', ci_bytes = 1\<rparr>\<rparr>,
     pn_admitted = 5\<rparr>], pg_first_seen = 5, pg_semantic = ''e''\<rparr>]"

definition demo_queued2 :: engine where
  "demo_queued2 = demo_confirmed\<lparr>en_pending := demo_queue2, en_pending_bytes := 1\<rparr>"

lemma demo_confirmed_limits: "en_limits demo_confirmed = demo_limits" "en_next_id demo_confirmed = 1"
  by (simp_all add: demo_confirmed_def confirmed_engine_def demo_offered_fields) (simp add: demo_offered_def)

lemma demo_normalize2:
  "normalize_contribution demo_sha demo_contribution demo_input2 64 =
     Inr (demo_contribution\<lparr>cb_content := \<lparr>ci_id = ''sha256:b'', ci_bytes = 1\<rparr>\<rparr>)"
  "normalize_contribution demo_sha demo_other demo_input2 64 =
     Inr (demo_other\<lparr>cb_content := \<lparr>ci_id = ''sha256:e'', ci_bytes = 1\<rparr>\<rparr>)"
  by code_simp+

lemma demo_receipt2:
  "has_receipt demo_confirmed (demo_contribution\<lparr>cb_content := \<lparr>ci_id = ''sha256:b'', ci_bytes = 1\<rparr>\<rparr>)"
  "\<not> has_receipt demo_confirmed (demo_other\<lparr>cb_content := \<lparr>ci_id = ''sha256:e'', ci_bytes = 1\<rparr>\<rparr>)"
  unfolding has_receipt_def demo_confirmed_fields by code_simp+

lemma demo_admit2:
  "am_working (admit_all demo_sha demo_confirmed demo_input2) = demo_queue2"
  "am_changed (admit_all demo_sha demo_confirmed demo_input2) =
     [source_slot_of demo_contribution, source_slot_of demo_other]"
proof -
  have e: "lm_item_bytes demo_limits = 64" "pi_contributions demo_input2 = [demo_contribution, demo_other]"
    "pi_now demo_input2 = 5" "cb_body demo_other = ''e''"
    by (simp_all add: demo_limits_def demo_input_def demo_input2_def demo_other_def)
  have ne: "source_slot_of demo_contribution \<noteq> source_slot_of demo_other" by code_simp
  have s: "source_slot_of (c\<lparr>cb_content := x\<rparr>) = source_slot_of c" for c :: contribution and x
    by (simp add: source_slot_of_def)
  show "am_working (admit_all demo_sha demo_confirmed demo_input2) = demo_queue2"
    "am_changed (admit_all demo_sha demo_confirmed demo_input2) =
     [source_slot_of demo_contribution, source_slot_of demo_other]"
    using ne
    by (simp_all add: admit_all_def admit_one_def demo_normalize2 demo_confirmed_fields demo_confirmed_limits e
        Let_def demo_receipt2 contains_pending_def remove_source_def remove_empty_groups_def add_pending_def
        append_unique_source_def demo_queue2_def s del: One_nat_def)
qed

lemma demo_stages2:
  "plan_guard demo_confirmed demo_input2 = None"
  "fit_queue demo_limits demo_queue2 new_items 5 = (demo_queue2, [])"
  "pending_bytes demo_queue2 64 = (1, False)" "pending_item_count demo_queue2 = 1"
  by code_simp+

lemma demo_refresh2: "fst (plan_refresh demo_confirmed demo_input2) = demo_confirmed"
proof -
  have "profile_changed demo_confirmed (pf_revision (pi_profile demo_input2)) = False"
    by (simp add: profile_changed_def demo_confirmed_fields pending_items_def)
  moreover have "fst (expire demo_confirmed (pi_now demo_input2)) = demo_confirmed"
  proof -
    have "fst (expire demo_confirmed (pi_now demo_input2)) =
        shrunk demo_confirmed (item_fresh demo_confirmed (pi_now demo_input2))
          (offer_fresh demo_confirmed (pi_now demo_input2))"
      by (rule expire_shrunk [OF demo_confirmed_ok])
    also have "\<dots> = demo_confirmed\<lparr>en_live :=
        filter (offer_fresh demo_confirmed (pi_now demo_input2)) (en_live demo_confirmed)\<rparr>"
      by (rule shrunk_queue_id [OF engine_okD(2) [OF demo_confirmed_ok] engine_okD(1) [OF demo_confirmed_ok]])
        (simp add: demo_confirmed_fields)
    finally show ?thesis using demo_confirmed_fields(2) by (cases demo_confirmed) simp
  qed
  ultimately show ?thesis by (simp add: plan_refresh_def case_prod_unfold Let_def)
qed

lemma demo_existing2: "existing_offer demo_sha demo_confirmed demo_input2 = None"
  by (simp add: existing_offer_def demo_confirmed_fields)

lemma demo_bounds2:
  "retained_bytes demo_queue2 [] (en_receipts demo_confirmed) (en_completed demo_confirmed) \<le> 5000"
  "global_admission_failure demo_queue2 [] (en_receipts demo_confirmed) (en_completed demo_confirmed) 0 5
     demo_admission = None"
  by code_simp+

lemma demo_plan_queue2:
  "\<exists>sd rs2. plan_queue demo_sha demo_confirmed demo_input2 demo_admission rs = Inr (demo_queued2, sd, rs2)"
proof -
  have e: "lm_item_bytes demo_limits = 64" "pi_now demo_input2 = 5" "lm_pending_bytes demo_limits = 128"
    "lm_pending_items demo_limits = 4" "lm_retained demo_limits = 5000"
    by (simp_all add: demo_limits_def demo_input_def demo_input2_def)
  show ?thesis
    using demo_bounds2(1)
    by (simp add: plan_queue_def demo_admit2 e demo_stages2 demo_confirmed_limits demo_bounds2(2)
        demo_queued2_def revoke_source_offers_def u32_def demo_confirmed_fields(1,2) Let_def)
qed

lemma demo_queued2_fields:
  "en_limits demo_queued2 = demo_limits" "en_live demo_queued2 = []" "en_pending demo_queued2 = demo_queue2"
  "en_next_id demo_queued2 = 1" "en_receipts demo_queued2 = en_receipts demo_confirmed"
  "en_completed demo_queued2 = en_completed demo_confirmed"
  by (simp_all add: demo_queued2_def demo_confirmed_limits demo_confirmed_fields)

lemma demo_built2:
  "build_offer demo_queued2 (pi_opportunity demo_input2) =
     ([offer_item_of ''e'' (hd (pg_items (hd demo_queue2)))], ''e'')"
  unfolding build_offer_def selected_groups_def demo_queued2_fields select_group_def by code_simp

definition demo_live2 :: live_offer where
  "demo_live2 = new_live demo_sha demo_queued2 demo_input2"

lemma demo_live2_parts:
  "lo_offer demo_live2 = make_offer demo_sha demo_queued2 demo_input2
     ([offer_item_of ''e'' (hd (pg_items (hd demo_queue2)))], ''e'')"
  by (simp add: demo_live2_def new_live_def demo_built2)

lemma demo_offering_live2: "en_live (offering_engine demo_sha demo_queued2 demo_input2) = [(2, demo_live2)]"
  by (simp add: offering_engine_def demo_queued2_fields map_put_def flip: demo_live2_def)

lemma demo_live2_code [code]:
  "demo_live2 = \<lparr>lo_offer = make_offer demo_sha demo_queued2 demo_input2
     ([offer_item_of ''e'' (hd (pg_items (hd demo_queue2)))], ''e''),
     lo_profile = ''f'', lo_valid_until = 0, lo_config = ''c'', lo_offered_at = 5\<rparr>"
proof -
  have "pf_revision (pi_profile demo_input2) = ''f''" "pf_valid_until (pi_profile demo_input2) = 0"
    "pi_config demo_input2 = ''c''" "pi_now demo_input2 = 5"
    by (simp_all add: demo_input2_def demo_input_def)
  then show ?thesis by (simp add: demo_live2_def new_live_def demo_built2)
qed

lemma demo_bounds_live2:
  "retained_bytes demo_queue2 [(2, demo_live2)] (en_receipts demo_confirmed) (en_completed demo_confirmed) \<le> 5000"
  "global_admission_failure demo_queue2 [(2, demo_live2)] (en_receipts demo_confirmed)
     (en_completed demo_confirmed) 0 5 demo_admission = None"
  by code_simp+

lemma demo_plan2:
  "dc_offer (fst (plan demo_sha demo_confirmed demo_input2 demo_admission)) = Some (lo_offer demo_live2)"
proof -
  have e: "op_available (pi_opportunity demo_input2)" "op_max_bytes (pi_opportunity demo_input2) = 64"
    "op_max_items (pi_opportunity demo_input2) = 3" "pi_now demo_input2 = 5"
    by (simp_all add: demo_input2_def demo_input_def)
  have "offer_possible demo_queued2 demo_input2"
    by (simp add: offer_possible_def demo_queued2_fields demo_fields demo_built2 demo_queue2_def u32_def
        max_u64_def e)
  moreover have "engine_retained (offering_engine demo_sha demo_queued2 demo_input2) \<le> lm_retained (en_limits demo_queued2)"
    using demo_bounds_live2(1) by (simp add: engine_retained_def demo_offering_live2 demo_queued2_fields demo_fields)
      (simp add: offering_engine_def demo_queued2_fields)
  moreover have "global_admission_failure (en_pending demo_queued2)
      (en_live (offering_engine demo_sha demo_queued2 demo_input2)) (en_receipts demo_queued2)
      (en_completed demo_queued2) 0 (pi_now demo_input2) demo_admission = None"
    using demo_bounds_live2(2) by (simp add: demo_offering_live2 demo_queued2_fields e)
  ultimately have "dc_offer (fst (plan_offer demo_sha demo_queued2 demo_input2 demo_admission sd rs)) =
      Some (lo_offer demo_live2)" for sd rs
    by (simp add: plan_offer_success offered_def demo_live2_def)
  moreover obtain sd rs2 where "plan_queue demo_sha demo_confirmed demo_input2 demo_admission
      (snd (plan_refresh demo_confirmed demo_input2)) = Inr (demo_queued2, sd, rs2)"
    using demo_plan_queue2 by blast
  ultimately show ?thesis
    by (simp add: plan_def demo_stages2(1) demo_refresh2 demo_existing2 case_prod_unfold Let_def)
qed

end
