(* ===== verification/Engine_Properties.thy ===== *)
theory Engine_Properties
  imports Engine_Demo
begin

text \<open>
  The properties of the context engine, each applied to the small engine of \<open>Engine_Demo\<close>.
\<close>

section \<open>The invariant\<close>

text \<open>
  C10: Every engine that \<^verbatim>\<open>NewEngine\<close> constructs keeps its invariant through any sequence
  of \<^verbatim>\<open>Plan\<close>, \<^verbatim>\<open>Confirm\<close> and \<^verbatim>\<open>Withdraw\<close> calls: the queue is well formed and within its
  item, byte and count bounds with a true cached byte count; live offers name their own
  partition and ids, never the same source slot twice; nothing pending or live is already
  receipted; receipts, completed offers and retained bytes are within their bounds.
\<close>

theorem reachable_engine_ok:
  assumes "new_engine p l = Inr e" and "limits_ok l" and "\<forall>c \<in> set calls. call_ok l c"
  shows "engine_ok sha (foldl (engine_step sha) e calls)"
proof -
  have "en_limits e = l" using assms(1) by (auto simp: new_engine_def split: if_splits)
  then have "engine_ok sha e \<and> en_limits e = l" using engine_ok_new [OF assms(1,2)] by simp
  from engine_log.log_keeps [OF this assms(3)] show ?thesis by simp
qed

lemma reachable_engine_ok_witness:
  "engine_ok demo_sha (foldl (engine_step demo_sha) demo_engine
     [Plan_call demo_input demo_admission, Confirm_call demo_confirmation demo_admission])"
  by (rule reachable_engine_ok [OF demo_new demo_limits_ok])
    (simp add: call_ok_def demo_limits_def demo_input_def)

text \<open>
  C11: The statistics of a reachable engine are exact and within its limits: no 32-bit
  counter of \<^verbatim>\<open>Stats\<close> has wrapped, and none exceeds the bound it reports against.
\<close>

theorem stats_exact_and_bounded:
  assumes "new_engine p l = Inr e" and "limits_ok l" and "\<forall>c \<in> set calls. call_ok l c"
    and "e' = foldl (engine_step sha) e calls"
  shows "st_pending_items (engine_stats_of e') = length (pending_items (en_pending e')) \<and>
    st_pending_bytes (engine_stats_of e') = (\<Sum>g\<leftarrow>en_pending e'. length (render_group g)) \<and>
    st_live (engine_stats_of e') = length (en_live e') \<and>
    st_receipts (engine_stats_of e') = length (en_receipts e') \<and>
    st_pending_items (engine_stats_of e') \<le> lm_pending_items l \<and>
    st_pending_bytes (engine_stats_of e') \<le> lm_pending_bytes l \<and>
    st_live (engine_stats_of e') \<le> lm_live l \<and> st_receipts (engine_stats_of e') \<le> lm_receipts l \<and>
    st_retained (engine_stats_of e') \<le> lm_retained l"
proof -
  have "en_limits e = l" using assms(1) by (auto simp: new_engine_def split: if_splits)
  then have "engine_ok sha e \<and> en_limits e = l" using engine_ok_new [OF assms(1,2)] by simp
  from engine_log.log_keeps [OF this assms(3)] assms(4)
  have ok: "engine_ok sha e'" and l: "en_limits e' = l" by simp_all
  note d = engine_okD [OF ok, unfolded l]
  have "pending_item_count (en_pending e') \<le> lm_pending_items l" "queue_bytes (en_pending e') \<le> lm_pending_bytes l"
    "en_pending_bytes e' = queue_bytes (en_pending e')"
    using d(2) l by (simp_all add: queue_part_def queue_fits_def)
  moreover have "length (en_live e') \<le> lm_live l" "length (en_receipts e') \<le> lm_receipts l"
    using d(3,4) l by (simp_all add: live_part_def receipt_part_def)
  ultimately show ?thesis
    using d(1,6)
    by (simp add: engine_stats_of_def limits_ok_def u32_small pending_item_count_length queue_bytes_def)
qed

lemma stats_exact_and_bounded_witness:
  "st_pending_items (engine_stats_of (foldl (engine_step demo_sha) demo_engine
     [Plan_call demo_input demo_admission])) = 1"
proof -
  have "\<forall>c \<in> set [Plan_call demo_input demo_admission]. call_ok demo_limits c"
    by (simp add: call_ok_def demo_limits_def demo_input_def)
  from stats_exact_and_bounded [OF demo_new demo_limits_ok this refl, of demo_sha]
  have "st_pending_items (engine_stats_of (foldl (engine_step demo_sha) demo_engine
     [Plan_call demo_input demo_admission])) = length (pending_items demo_queue)"
    by (simp add: demo_plan demo_offered_fields)
  then show ?thesis by (simp add: demo_queue_def)
qed

section \<open>Delivery\<close>

text \<open>
  C12: What was delivered is not delivered again. Once an item has a receipt, no later
  \<^verbatim>\<open>Plan\<close> of the partition offers it, whatever calls come between, until a \<^verbatim>\<open>Plan\<close> withdraws
  the partition (a configuration change, an audience transition, an inactive scope).
\<close>

theorem receipted_never_offered:
  assumes "engine_ok sha e" and "\<forall>c \<in> set (calls @ [Plan_call p adm]). call_ok (en_limits e) c"
    and "receipted (en_receipts e) i" and "never_withdrawn sha e calls"
    and "e' = foldl (engine_step sha) e calls" and "dc_offer (fst (plan sha e' p adm)) = Some o1"
  shows "i \<notin> set (of_items (offer_identity o1))"
proof -
  have "engine_ok sha e' \<and> en_limits e' = en_limits e"
    using engine_log.log_keeps [of sha e "en_limits e" calls] assms(1,2,5) by simp
  then have ok: "engine_ok sha e'" "call_ok (en_limits e') (Plan_call p adm)" using assms(2) by simp_all
  have "receipted (en_receipts e') i" using receipted_run assms(1-5) by simp
  then show ?thesis using offer_not_receipted [OF ok assms(6)] by blast
qed

lemma receipted_never_offered_witness:
  "item_identity_of (hd (pg_items (hd demo_queue))) \<notin> set (of_items (offer_identity (lo_offer demo_live2)))"
proof -
  have "\<forall>c \<in> set ([] @ [Plan_call demo_input2 demo_admission]). call_ok (en_limits demo_confirmed) c"
    by (simp add: call_ok_def demo_limits_def demo_input_def demo_input2_def demo_confirmed_limits)
  then show ?thesis
    by (rule receipted_never_offered [OF demo_confirmed_ok _ _ _ _ demo_plan2])
      (simp_all add: demo_confirmed_fields receipted_def)
qed

text \<open>
  C13: An offered decision fits the opportunity it answers: its body has at most the bytes
  and its items at most the number the opportunity allows, for a repeated offer as for a
  new one.
\<close>

theorem offer_fits_opportunity:
  assumes "engine_ok sha e" and "call_ok (en_limits e) (Plan_call p adm)"
    and "dc_offer (fst (plan sha e p adm)) = Some o1"
    and "2 * op_max_bytes (pi_opportunity p) + 2 < 2 ^ 64"
  shows "length (offer_body o1) \<le> op_max_bytes (pi_opportunity p) \<and>
    length (offer_items o1) \<le> op_max_items (pi_opportunity p)"
  by (rule offer_fits [OF assms])

lemma offer_fits_opportunity_witness:
  "length (offer_body demo_offer) \<le> 64 \<and> length (offer_items demo_offer) \<le> 3"
  using offer_fits_opportunity [OF demo_engine_ok demo_call_ok, of demo_offer]
  by (simp add: demo_plan offered_def demo_fields)

text \<open>
  C14: An offer's identity is trustworthy: it names the partition's generation and audience,
  exactly the items it carries and the digest of exactly the body it carries; and it is
  either an offer that was live already or has the next unused id, above every live and
  every completed one.
\<close>

theorem offer_identity_exact:
  assumes "engine_ok sha e" and "call_ok (en_limits e) (Plan_call p adm)"
    and "dc_offer (fst (plan sha e p adm)) = Some o1"
  shows "of_generation (offer_identity o1) = pt_generation (en_partition e) \<and>
    of_audience (offer_identity o1) = pt_audience (en_partition e) \<and>
    of_items (offer_identity o1) = map oi_identity (offer_items o1) \<and>
    of_body (offer_identity o1) = content_identity sha (offer_body o1) \<and>
    ((\<exists>l. (of_id (offer_identity o1), l) \<in> set (en_live e) \<and> lo_offer l = o1) \<or>
     of_id (offer_identity o1) = en_next_id e + 1 \<and>
     en_next_id (snd (plan sha e p adm)) = en_next_id e + 1 \<and>
     (\<forall>k \<in> fst ` set (en_live e) \<union> fst ` set (en_completed e). k \<le> en_next_id e))"
proof (rule plan_offers [OF assms])
  fix k l assume k: "(k, l) \<in> set (en_live e)" "lo_offer l = o1"
  have "live_ok sha e k l" using k engine_okD(3) [OF assms(1)] by (auto simp: live_part_def)
  with k show ?thesis by (auto simp: live_ok_def Let_def offer_item_identities_def)
next
  fix e2
  assume ok: "engine_ok sha (offering_engine sha e2 p)" and ok2: "engine_ok sha e2"
    and o2: "lo_offer (new_live sha e2 p) = o1"
    and s: "snd (plan sha e p adm) = offering_engine sha e2 p"
    and same: "en_next_id e2 = en_next_id e" "en_partition e2 = en_partition e"
  have "(en_next_id e2 + 1, new_live sha e2 p) \<in> set (en_live (offering_engine sha e2 p))"
    by (simp add: offering_live [OF ok2])
  then have l: "live_ok sha (offering_engine sha e2 p) (en_next_id e2 + 1) (new_live sha e2 p)"
    using engine_okD(3) [OF ok] by (auto simp: live_part_def)
  have "k \<le> en_next_id e" if "k \<in> fst ` set (en_live e) \<union> fst ` set (en_completed e)" for k
    using that engine_okD(3,5) [OF assms(1)]
    by (auto simp: live_part_def completed_part_def live_ok_def Let_def)
  then show ?thesis
    using l o2 same s by (simp add: live_ok_def Let_def offering_engine_def offer_item_identities_def)
qed

lemma offer_identity_exact_witness:
  "of_items (offer_identity demo_offer) = map oi_identity (offer_items demo_offer)"
  using offer_identity_exact [OF demo_engine_ok demo_call_ok, of demo_offer]
  by (simp add: demo_plan offered_def)

text \<open>
  C15: A receipt is evidence of delivery. Whatever the call, a receipt the engine did not
  hold before comes from a \<^verbatim>\<open>Confirm\<close> whose handoff is confirmed and whose identity and
  emitted content are those of a live offer that contains the receipted item. A failed or
  unknown handoff records nothing.
\<close>

theorem receipts_need_exact_handoff:
  assumes "engine_ok sha e" and "k \<in> fst ` set (en_receipts (engine_step sha e call))"
    and "k \<notin> fst ` set (en_receipts e)"
  shows "\<exists>c adm l. call = Confirm_call c adm \<and> cf_handoff c = ''confirmed'' \<and>
    map_of (en_live e) (of_id (cf_identity c)) = Some l \<and>
    same_offer_identity (offer_identity (lo_offer l)) (cf_identity c) \<and>
    same_content (content_identity sha (offer_body (lo_offer l))) (cf_emitted c) \<and>
    k \<in> receipt_key_of ` set (of_items (offer_identity (lo_offer l)))"
proof (cases call)
  case (Plan_call p adm)
  have "en_receipts (snd (plan sha e p adm)) = en_receipts e \<or> en_receipts (snd (plan sha e p adm)) = []"
    by (rule plan_receipts_cases)
  then show ?thesis using assms(2,3) by (auto simp: Plan_call)
next
  case (Withdraw_call w)
  then show ?thesis using assms(2,3) by (simp add: withdraw_receipts)
next
  case (Confirm_call c adm)
  show ?thesis
  proof (rule confirm_receipts [OF assms(1), of c adm])
    assume "en_receipts (snd (confirm e c adm)) = en_receipts e"
    then show ?thesis using assms(2,3) by (simp add: Confirm_call)
  next
    fix l assume l: "map_of (en_live e) (of_id (cf_identity c)) = Some l"
      and grown: "en_receipts (snd (confirm e c adm)) =
        en_receipts e @ map (\<lambda>i. (receipt_key_of i, cf_at c)) (live_items l)"
      and x: "same_offer_identity (offer_identity (lo_offer l)) (cf_identity c)"
        "cf_handoff c = ''confirmed''" "same_content (of_body (offer_identity (lo_offer l))) (cf_emitted c)"
    have "k \<in> receipt_key_of ` set (of_items (offer_identity (lo_offer l)))"
      using assms(2,3) grown by (auto simp: Confirm_call live_items_def)
    moreover have "of_body (offer_identity (lo_offer l)) = content_identity sha (offer_body (lo_offer l))"
      using live_item_facts(2) [OF assms(1) l] by (simp add: live_ok_def Let_def)
    ultimately show ?thesis using l x by (auto simp: Confirm_call)
  qed
qed

lemma receipts_need_exact_handoff_witness:
  "\<exists>c adm l. Confirm_call demo_confirmation demo_admission = Confirm_call c adm \<and> cf_handoff c = ''confirmed'' \<and>
    map_of (en_live demo_offered) (of_id (cf_identity c)) = Some l \<and>
    same_offer_identity (offer_identity (lo_offer l)) (cf_identity c) \<and>
    same_content (content_identity demo_sha (offer_body (lo_offer l))) (cf_emitted c) \<and>
    receipt_key_of (item_identity_of (hd (pg_items (hd demo_queue)))) \<in>
      receipt_key_of ` set (of_items (offer_identity (lo_offer l)))"
  by (rule receipts_need_exact_handoff [OF demo_offered_ok])
    (simp_all add: demo_confirm demo_confirmed_fields demo_offered_fields)

text \<open>
  A confirmation can be repeated. Once \<^verbatim>\<open>Confirm\<close> has answered that an offer is
  confirmed, the same confirmation gives the same answer, with the same receipts, and
  changes nothing: the bound on completed offers never discards one that could still be
  asked for.
\<close>

theorem confirm_is_idempotent:
  assumes "engine_ok sha e" and "confirm e c adm = (r, e')" and "cr_state r = ''confirmed''"
  shows "confirm e' c adm = (r, e')"
  using confirmed_replay [OF assms(1), of c adm] assms(2,3) by simp

lemma confirm_is_idempotent_witness:
  "snd (confirm demo_confirmed demo_confirmation demo_admission) = demo_confirmed"
  using confirm_is_idempotent [OF demo_offered_ok demo_confirm] by (simp add: confirmed_def)

text \<open>
  \<^verbatim>\<open>Withdraw\<close> is exact. An accepted withdrawal leaves precisely the pending items other
  than the named one and the live offers that do not contain it, touches no receipt and no
  completed offer; a newer revision of the same source, or a refused withdrawal, leaves the
  engine as it was.
\<close>

theorem withdraw_is_exact:
  assumes "engine_ok sha e"
  shows "if withdrawal_accepted e w
    then pending_items (en_pending (snd (withdraw e w))) =
           filter (\<lambda>it. item_identity_of it \<noteq> wd_item w) (pending_items (en_pending e)) \<and>
         en_live (snd (withdraw e w)) =
           filter (\<lambda>p. wd_item w \<notin> set (of_items (offer_identity (lo_offer (snd p))))) (en_live e) \<and>
         en_receipts (snd (withdraw e w)) = en_receipts e \<and>
         en_completed (snd (withdraw e w)) = en_completed e \<and>
         (wd_item w \<notin> item_identity_of ` set (pending_items (en_pending e)) \<union> live_item_set (en_live e)
            \<longrightarrow> snd (withdraw e w) = e)
    else snd (withdraw e w) = e"
proof -
  have untouched: "withdrawn_engine e (wd_item w) = e"
    if "wd_item w \<notin> item_identity_of ` set (pending_items (en_pending e)) \<union> live_item_set (en_live e)"
  proof -
    have "\<forall>it \<in> set (pending_items (en_pending e)). item_identity_of it \<noteq> wd_item w"
      using that by (metis UnI1 imageI)
    then have "withdrawn_engine e (wd_item w) =
        e\<lparr>en_live := filter (\<lambda>p. wd_item w \<notin> set (live_items (snd p))) (en_live e)\<rparr>"
      unfolding withdrawn_engine_def using engine_okD(1,2) [OF assms] by (intro shrunk_queue_id)
    moreover have "filter (\<lambda>p. wd_item w \<notin> set (live_items (snd p))) (en_live e) = en_live e"
      using that by (auto simp: filter_id_conv live_item_set_def)
    ultimately show ?thesis by simp
  qed
  show ?thesis
    using untouched by (auto simp: withdraw_shrunk) (simp_all add: withdrawn_engine_def pending_items_thin live_items_def)
qed

lemma withdraw_is_exact_witness:
  "pending_items (en_pending (snd (withdraw demo_offered
     \<lparr>wd_now = 6, wd_scope = pt_scope demo_partition, wd_audience = pt_audience demo_partition,
      wd_generation = 1, wd_config = ''c'', wd_item = item_identity_of (hd (pg_items (hd demo_queue)))\<rparr>))) = []"
  (is "pending_items (en_pending (snd (withdraw demo_offered ?w))) = []")
proof -
  have "withdrawal_accepted demo_offered ?w" by code_simp
  then show ?thesis
    using withdraw_is_exact [OF demo_offered_ok, of ?w]
    by (simp add: demo_offered_fields) (simp add: demo_queue_def)
qed

text \<open>
  C16: Planning always makes its queue fit. Whatever contributions arrive, dropping items of
  the call itself is enough to bring the queue within its item, byte and count bounds, so
  the defensive rejections of \<^verbatim>\<open>Plan\<close> behind the trimming loops are never taken.
\<close>

theorem trimming_always_suffices:
  assumes "engine_ok sha e" and "call_ok (en_limits e) (Plan_call p adm)"
    and "fit_queue (en_limits e) (am_working (admit_all sha e p)) (am_accepted (admit_all sha e p)) (pi_now p)
           = (working, reasons)"
  shows "pending_bytes working (lm_item_bytes (en_limits e)) = (queue_bytes working, False) \<and>
    queue_bytes working \<le> lm_pending_bytes (en_limits e) \<and>
    u32 (pending_item_count working) \<le> lm_pending_items (en_limits e)"
proof -
  have "queue_fits (en_limits e) working"
    using planned_queue_fits [OF assms(1), of p] assms(2,3) by (simp add: call_ok_def)
  then show ?thesis
    using engine_okD(1) [OF assms(1)] u32_le [of "pending_item_count working"]
    by (simp add: pending_bytes_fits limits_ok_def) (simp add: queue_fits_def)
qed

lemma trimming_always_suffices_witness:
  "u32 (pending_item_count demo_queue) \<le> 4"
proof -
  have l: "en_limits demo_engine = demo_limits" "pi_now demo_input = 5" "lm_pending_items demo_limits = 4"
    by (simp_all add: demo_engine_def demo_limits_def demo_input_def)
  have "fit_queue (en_limits demo_engine) (am_working (admit_all demo_sha demo_engine demo_input))
      (am_accepted (admit_all demo_sha demo_engine demo_input)) (pi_now demo_input) = (demo_queue, [])"
    by (simp add: demo_admit demo_fit l)
  from trimming_always_suffices [OF demo_engine_ok demo_call_ok this] show ?thesis by (simp add: l)
qed

end
