(* ===== verification/Go_Paths.thy ===== *)
theory Go_Paths
  imports Workbench_Prelude
begin

text \<open>
  The lexical path functions of Go's \<^verbatim>\<open>path/filepath\<close> on a Unix system, as far as the
  source uses them: \<^verbatim>\<open>Clean\<close>, \<^verbatim>\<open>Join\<close>, \<^verbatim>\<open>Dir\<close>, \<^verbatim>\<open>Base\<close>, \<^verbatim>\<open>IsAbs\<close>, \<^verbatim>\<open>IsLocal\<close>. \<^verbatim>\<open>ToSlash\<close> and
  \<^verbatim>\<open>FromSlash\<close> are the identity there. Cleaning works on the segments of a path; a clean
  path is a fixed point of it.
\<close>

definition sep :: char where
  "sep = CHR ''/''"

definition is_abs :: "string \<Rightarrow> bool" where
  "is_abs p \<longleftrightarrow> has_prefix p [sep]"

text \<open>One element of the path on the stack of elements kept so far, most recent first.\<close>

definition clean_segment :: "bool \<Rightarrow> string list \<Rightarrow> string \<Rightarrow> string list" where
  "clean_segment rooted kept s =
     (if s = [] \<or> s = ''.'' then kept
      else if s \<noteq> ''..'' then s # kept
      else (case kept of
              [] \<Rightarrow> if rooted then [] else [''..'']
            | k # ks \<Rightarrow> if k = ''..'' then ''..'' # kept else ks))"

definition clean_segments :: "bool \<Rightarrow> string list \<Rightarrow> string list" where
  "clean_segments rooted ss = rev (foldl (clean_segment rooted) [] ss)"

definition clean_path :: "string \<Rightarrow> string" where
  "clean_path p =
     (let ss = clean_segments (is_abs p) (split_on sep p)
      in if is_abs p then sep # join [sep] ss
         else if ss = [] then ''.'' else join [sep] ss)"

definition join_path :: "string list \<Rightarrow> string" where
  "join_path ps =
     (let qs = dropWhile (\<lambda>p. p = []) ps in if qs = [] then [] else clean_path (join [sep] qs))"

text \<open>The prefix up to and with the last separator, and what follows it.\<close>

definition up_to_sep :: "string \<Rightarrow> string" where
  "up_to_sep p = rev (dropWhile (\<lambda>c. c \<noteq> sep) (rev p))"

definition after_sep :: "string \<Rightarrow> string" where
  "after_sep p = rev (takeWhile (\<lambda>c. c \<noteq> sep) (rev p))"

definition dir_path :: "string \<Rightarrow> string" where
  "dir_path p = clean_path (up_to_sep p)"

definition base_path :: "string \<Rightarrow> string" where
  "base_path p =
     (if p = [] then ''.''
      else (let q = after_sep (trim_right sep p) in if q = [] then [sep] else q))"

definition is_local :: "string \<Rightarrow> bool" where
  "is_local p \<longleftrightarrow>
     \<not> (is_abs p \<or> p = []) \<and>
     \<not> (clean_path p = ''..'' \<or> has_prefix (clean_path p) (''..'' @ [sep]))"

section \<open>Clean paths\<close>

text \<open>The segments a cleaned path has: none empty or a dot, and dot-dots only at the front of a relative one.\<close>

definition segments_ok :: "bool \<Rightarrow> string list \<Rightarrow> bool" where
  "segments_ok rooted ss \<longleftrightarrow>
     (\<forall>s \<in> set ss. s \<noteq> [] \<and> s \<noteq> ''.'' \<and> sep \<notin> set s) \<and>
     (if rooted then ''..'' \<notin> set ss
      else (\<exists>n us. ss = replicate n ''..'' @ us \<and> ''..'' \<notin> set us))"

lemma segments_ok_rooted: "segments_ok True ss \<Longrightarrow> ''..'' \<notin> set ss"
  by (simp add: segments_ok_def)

lemma segments_ok_relative:
  "segments_ok False ss \<Longrightarrow> \<exists>n us. ss = replicate n ''..'' @ us \<and> ''..'' \<notin> set us"
  by (simp add: segments_ok_def)

lemma segments_ok_Nil [simp]: "segments_ok rooted []"
  by (simp add: segments_ok_def)

lemma clean_segment_id:
  "segments_ok rooted (rev kept @ [s]) \<Longrightarrow> clean_segment rooted kept s = s # kept"
proof (cases "s = ''..''")
  case True
  assume ok: "segments_ok rooted (rev kept @ [s])"
  then have "\<not> rooted" using True segments_ok_rooted [of "rev kept @ [s]"] by auto
  then obtain n us where n: "rev kept @ [s] = replicate n ''..'' @ us" "''..'' \<notin> set us"
    using segments_ok_relative ok by (metis (full_types))
  have "us = []" using n True by (cases us rule: rev_cases) auto
  then have "rev (rev kept @ [s]) = replicate n ''..''" using n(1) by simp
  then have "s # kept = replicate n ''..''" by simp
  then have "kept = replicate (n - 1) ''..''" by (cases n) auto
  then show ?thesis using True \<open>\<not> rooted\<close> by (cases "n - 1") (auto simp: clean_segment_def)
next
  case False
  assume "segments_ok rooted (rev kept @ [s])"
  with False show ?thesis by (auto simp: clean_segment_def segments_ok_def)
qed

lemma segments_ok_prefix:
  assumes "segments_ok rooted (ss @ ts)"
  shows "segments_ok rooted ss"
proof (cases rooted)
  case True
  with assms show ?thesis by (simp add: segments_ok_def)
next
  case False
  with assms obtain n us where n: "ss @ ts = replicate n ''..'' @ us" "''..'' \<notin> set us"
    by (auto simp: segments_ok_def)
  have "take (length ss) (ss @ ts) =
      replicate (min n (length ss)) ''..'' @ take (length ss - n) us"
    unfolding n(1) by (simp add: take_replicate min.commute)
  then have "ss = replicate (min n (length ss)) ''..'' @ take (length ss - n) us" by simp
  moreover have "''..'' \<notin> set (take (length ss - n) us)" using n(2) by (auto dest: in_set_takeD)
  ultimately show ?thesis
    using assms False unfolding segments_ok_def by auto
qed

lemma clean_segments_fixed:
  assumes "segments_ok rooted ss"
  shows "clean_segments rooted ss = ss"
  using assms
proof (induction ss rule: rev_induct)
  case (snoc s ss)
  have "segments_ok rooted ss" using snoc.prems by (rule segments_ok_prefix)
  then have "rev (foldl (clean_segment rooted) [] ss) = ss"
    using snoc.IH by (simp add: clean_segments_def)
  then have "foldl (clean_segment rooted) [] ss = rev ss" by (metis rev_rev_ident)
  then show ?case using snoc.prems by (simp add: clean_segments_def clean_segment_id)
qed (simp add: clean_segments_def)

lemma clean_segment_ok:
  assumes "segments_ok rooted (rev kept)" and "sep \<notin> set s"
  shows "segments_ok rooted (rev (clean_segment rooted kept s))"
proof -
  consider (skip) "s = [] \<or> s = ''.''" | (name) "s \<noteq> []" "s \<noteq> ''.''" "s \<noteq> ''..''"
    | (up) "s = ''..''" by blast
  then show ?thesis
  proof cases
    case skip
    then show ?thesis using assms(1) by (auto simp: clean_segment_def)
  next
    case name
    have "\<exists>m vs. rev kept @ [s] = replicate m ''..'' @ vs \<and> ''..'' \<notin> set vs" if "\<not> rooted"
    proof -
      from that assms(1) obtain n us where "rev kept = replicate n ''..'' @ us" "''..'' \<notin> set us"
        using segments_ok_relative by (metis (full_types))
      then show ?thesis using name(3) by (intro exI [of _ n] exI [of _ "us @ [s]"]) auto
    qed
    moreover have "clean_segment rooted kept s = s # kept" using name by (simp add: clean_segment_def)
    ultimately show ?thesis
      using assms name unfolding segments_ok_def by (cases rooted) simp_all
  next
    case up
    show ?thesis
    proof (cases kept)
      case Nil
      then show ?thesis
        using up by (auto simp: clean_segment_def segments_ok_def sep_def intro!: exI [of _ 1])
    next
      case (Cons k ks)
      show ?thesis
      proof (cases "k = ''..''")
        case False
        then show ?thesis
          using up Cons assms(1) segments_ok_prefix [of rooted "rev ks" "[k]"] by (simp add: clean_segment_def)
      next
        case True
        then have "\<not> rooted" using assms(1) Cons segments_ok_rooted [of "rev kept"] by auto
        then obtain n us where n: "rev kept = replicate n ''..'' @ us" "''..'' \<notin> set us"
          using segments_ok_relative assms(1) by (metis (full_types))
        then have "us = []" using True Cons by (cases us rule: rev_cases) auto
        then have "rev (clean_segment rooted kept s) = replicate (Suc n) ''..''"
          using up True Cons n(1) by (simp add: clean_segment_def replicate_append_same)
        moreover have "segments_ok False (replicate m ''..'')" for m
          unfolding segments_ok_def by (auto simp: sep_def intro!: exI [of _ m])
        ultimately show ?thesis using \<open>\<not> rooted\<close> by metis
      qed
    qed
  qed
qed

lemma clean_segments_ok:
  assumes "\<forall>s \<in> set ss. sep \<notin> set s"
  shows "segments_ok rooted (clean_segments rooted ss)"
proof -
  have "segments_ok rooted (rev (foldl (clean_segment rooted) kept ss))" if "segments_ok rooted (rev kept)" for kept
    using assms that
  proof (induction ss arbitrary: kept)
    case (Cons s ss)
    have "segments_ok rooted (rev (clean_segment rooted kept s))"
      using Cons.prems clean_segment_ok by simp
    then show ?case using Cons.IH Cons.prems(1) by simp
  qed simp
  from this [of "[]"] show ?thesis by (simp add: clean_segments_def)
qed

lemma split_on_join:
  "ss \<noteq> [] \<Longrightarrow> \<forall>s \<in> set ss. c \<notin> set s \<Longrightarrow> split_on c (join [c] ss) = ss"
proof (induction ss)
  case (Cons s ss)
  have nosep: "c \<notin> set t \<Longrightarrow> split_on c t = [t]" for t by (induction t) auto
  have app: "c \<notin> set t \<Longrightarrow> split_on c (t @ c # u) = t # split_on c u" for t u by (induction t) auto
  show ?case using Cons nosep app by (cases ss) auto
qed simp

lemma join_first: "ss \<noteq> [] \<Longrightarrow> hd ss \<noteq> [] \<Longrightarrow> join [c] ss \<noteq> [] \<and> hd (join [c] ss) = hd (hd ss)"
  by (cases ss; cases "tl ss") auto

text \<open>\<^verbatim>\<open>Clean\<close> is idempotent.\<close>

lemma clean_path_idem: "clean_path (clean_path p) = clean_path p"
proof -
  let ?ss = "clean_segments (is_abs p) (split_on sep p)"
  have ok: "segments_ok (is_abs p) ?ss" by (rule clean_segments_ok) (auto dest: split_on_no_sep)
  then have nosep: "\<forall>s \<in> set ?ss. sep \<notin> set s" by (simp add: segments_ok_def)
  show ?thesis
  proof (cases "is_abs p")
    case True
    have abs: "is_abs (sep # join [sep] ?ss)" by (simp add: is_abs_def has_prefix_iff)
    have "clean_segments True (split_on sep (sep # join [sep] ?ss)) = ?ss"
    proof (cases "?ss = []")
      case nil: True
      show ?thesis unfolding nil by (simp add: clean_segments_def clean_segment_def)
    next
      case False
      have "split_on sep (sep # join [sep] ?ss) = [] # ?ss" using split_on_join [OF False nosep] by simp
      then have "clean_segments True (split_on sep (sep # join [sep] ?ss)) = clean_segments True ?ss"
        by (simp add: clean_segments_def clean_segment_def)
      then show ?thesis using clean_segments_fixed ok True by metis
    qed
    then show ?thesis using True abs by (simp add: clean_path_def Let_def)
  next
    case rel: False
    show ?thesis
    proof (cases "?ss = []")
      case True
      then have "clean_path p = ''.''" using rel by (simp add: clean_path_def Let_def)
      then show ?thesis by (simp add: clean_path_def is_abs_def sep_def has_prefix_def clean_segments_def clean_segment_def Let_def)
    next
      case False
      have h: "hd ?ss \<noteq> []" "hd (hd ?ss) \<noteq> sep"
      proof -
        have "hd ?ss \<in> set ?ss" using False by simp
        then show "hd ?ss \<noteq> []" using ok by (auto simp: segments_ok_def)
        then show "hd (hd ?ss) \<noteq> sep" using nosep \<open>hd ?ss \<in> set ?ss\<close> hd_in_set by metis
      qed
      have j: "join [sep] ?ss \<noteq> []" "hd (join [sep] ?ss) \<noteq> sep" using join_first [OF False h(1)] h(2) by auto
      then have "\<not> is_abs (join [sep] ?ss)" by (auto simp: is_abs_def has_prefix_iff)
      moreover have "clean_segments False (split_on sep (join [sep] ?ss)) = ?ss"
        using split_on_join [OF False nosep] clean_segments_fixed ok rel by metis
      ultimately show ?thesis using rel False by (simp add: clean_path_def Let_def)
    qed
  qed
qed

end
