(* ===== verification/Profile_Compose.thy ===== *)
theory Profile_Compose
  imports Engine_Types Go_Paths Go_Numbers "HOL-Library.Product_Lexorder"
begin

text \<open>
  The composition of an audience profile (\<^verbatim>\<open>internal/contextengine/profile.go\<close>): configured,
  host and provider facts compete per key by precedence and a canonical order.

  \<open>profile_lib\<close> stands for \<^verbatim>\<open>json.Marshal\<close> on a fact (by reflection) and for the SHA-256
  digest of the marshalled revision input.
\<close>

section \<open>Inputs\<close>

record host_fact =
  hf_key :: string
  hf_value :: fact_value
  hf_origin :: string
  hf_provider :: string
  hf_observed :: instant

record named_value =
  nv_name :: string
  nv_value :: fact_value

record profile_selection =
  ps_role :: string
  ps_guidance :: string
  ps_preferences :: "named_value list"

record compose_input =
  cp_scope :: scope_identity
  cp_directory :: string
  cp_audience :: audience
  cp_task :: task_ref
  cp_explicit :: profile_selection
  cp_host :: "host_fact list"
  cp_provider :: "profile_fact list"
  cp_config :: string
  cp_now :: instant

record profile_candidate =
  pc_key :: string
  pc_value :: fact_value
  pc_precedence :: nat
  pc_origin :: string
  pc_provider :: string
  pc_rule :: string
  pc_validity :: validity
  pc_provenance :: provenance
  pc_scope :: profile_scope
  pc_order :: string

record revision_input =
  ri_scope :: scope_identity
  ri_directory :: string
  ri_audience :: audience
  ri_task :: task_ref
  ri_config :: string
  ri_explicit :: profile_selection
  ri_facts :: "profile_fact list"

record profile_lib =
  lib_fact_json :: "profile_fact \<Rightarrow> string"
  lib_revision :: "revision_input \<Rightarrow> string"

section \<open>Values and their canonical texts\<close>

text \<open>\<^verbatim>\<open>strconv.FormatBool\<close>.\<close>

definition bool_string :: "bool \<Rightarrow> string" where
  "bool_string b = (if b then ''true'' else ''false'')"

definition fact_value_key :: "fact_value \<Rightarrow> string" where
  "fact_value_key v =
     (if fv_kind v = ''text'' then ''text:'' @ fv_text v
      else if fv_kind v = ''number'' then ''number:'' @ int_string (fv_number v)
      else if fv_kind v = ''boolean'' then ''bool:'' @ bool_string (fv_boolean v)
      else ''kind:'' @ fv_kind v)"

definition same_fact_value :: "fact_value \<Rightarrow> fact_value \<Rightarrow> bool" where
  "same_fact_value a b \<longleftrightarrow>
     fv_kind a = fv_kind b \<and> fv_text a = fv_text b \<and> fv_number a = fv_number b \<and>
     fv_boolean a = fv_boolean b"

definition text_value :: "string \<Rightarrow> reason_value" where
  "text_value s = \<lparr>rv_kind = ''text'', rv_text = s, rv_number = 0, rv_boolean = False,
     rv_bytes = 0, rv_duration = 0\<rparr>"

definition fact_reason_value :: "fact_value \<Rightarrow> reason_value" where
  "fact_reason_value v =
     (if fv_kind v = ''text'' then text_value (fv_text v)
      else if fv_kind v = ''number'' then (text_value [])\<lparr>rv_kind := ''number'', rv_number := fv_number v\<rparr>
      else if fv_kind v = ''boolean'' then (text_value [])\<lparr>rv_kind := ''boolean'', rv_boolean := fv_boolean v\<rparr>
      else text_value ''invalid'')"

definition reason_value_key :: "reason_value \<Rightarrow> string" where
  "reason_value_key v = rv_kind v @ ''|'' @ rv_text v @ ''|'' @ int_string (rv_number v) @ ''|'' @
     bool_string (rv_boolean v) @ ''|'' @ int_string (int (rv_bytes v)) @ ''|'' @ int_string (rv_duration v)"

definition canonical_fact_order :: "profile_lib \<Rightarrow> profile_fact \<Rightarrow> string" where
  "canonical_fact_order lib f =
     lib_fact_json lib (f\<lparr>ft_validity := (ft_validity f)\<lparr>vd_inputs :=
       sort_key (\<lambda>(k, v). (k, reason_value_key v)) (vd_inputs (ft_validity f))\<rparr>\<rparr>)"

section \<open>Validity\<close>

datatype validity_state = Validity_current | Validity_expired | Validity_refresh

definition not_before_future :: "validity \<Rightarrow> instant \<Rightarrow> bool" where
  "not_before_future v now \<longleftrightarrow> vd_not_before v \<noteq> 0 \<and> now \<noteq> 0 \<and> now < vd_not_before v"

definition state_deadline :: "validity \<Rightarrow> instant" where
  "state_deadline v =
     (if vd_policy v = ''until'' \<or> vd_policy v = ''activity-ttl'' then vd_expires v
      else if vd_policy v = ''refresh-after''
      then (if vd_refresh v = 0 then vd_expires v else vd_refresh v)
      else vd_expires v)"

definition fact_validity_state :: "validity \<Rightarrow> instant \<Rightarrow> validity_state \<times> instant" where
  "fact_validity_state v now =
     (if now = 0 then (Validity_current, 0)
      else if vd_policy v = ''none'' then (Validity_current, 0)
      else (let deadline = state_deadline v
            in if vd_policy v \<noteq> ''none'' \<and> vd_expires v \<noteq> 0 \<and> \<not> now < vd_expires v
               then (Validity_expired, vd_expires v)
               else if deadline = 0 \<or> now < deadline then (Validity_current, deadline)
               else if vd_policy v = ''refresh-after'' then (Validity_refresh, deadline)
               else (Validity_expired, deadline)))"

definition validity_deadline :: "validity \<Rightarrow> instant" where
  "validity_deadline v =
     (if vd_policy v = ''none'' then 0
      else if vd_policy v = ''refresh-after''
      then (if vd_expires v \<noteq> 0 \<and> (vd_refresh v = 0 \<or> vd_expires v < vd_refresh v)
            then vd_expires v else vd_refresh v)
      else vd_expires v)"

text \<open>\<^verbatim>\<open>time.Time.UnixMilli\<close>: the Unix epoch in nanoseconds after the zero time.\<close>

definition unix_milli :: "instant \<Rightarrow> int" where
  "unix_milli t = (t - 62135596800000000000) div 1000000"

section \<open>Candidates\<close>

definition no_validity :: validity where
  "no_validity = \<lparr>vd_policy = [], vd_not_before = 0, vd_expires = 0, vd_refresh = 0, vd_rule = [],
     vd_inputs = []\<rparr>"

definition plain_provenance :: "string \<Rightarrow> string \<Rightarrow> string \<Rightarrow> provenance" where
  "plain_provenance origin prov rule = \<lparr>pr_origin = origin, pr_provider = prov, pr_rule = rule,
     pr_revision = \<lparr>sv_source = \<lparr>si_provider = [], si_id = []\<rparr>, sv_revision = []\<rparr>\<rparr>"

definition current_profile_scope :: "compose_input \<Rightarrow> profile_scope" where
  "current_profile_scope inp = \<lparr>fs_directory = sc_root (cp_scope inp),
     fs_audience = cp_audience inp, fs_task = cp_task inp\<rparr>"

definition explicit_candidate :: "string \<Rightarrow> string \<Rightarrow> compose_input \<Rightarrow> profile_candidate" where
  "explicit_candidate key val inp =
     \<lparr>pc_key = key,
      pc_value = \<lparr>fv_kind = ''text'', fv_text = val, fv_number = 0, fv_boolean = False\<rparr>,
      pc_precedence = 3, pc_origin = ''configured'', pc_provider = [],
      pc_rule = ''profile.explicit.'' @ key, pc_validity = no_validity,
      pc_provenance = plain_provenance ''configured'' [] (''profile.explicit.'' @ key),
      pc_scope = current_profile_scope inp, pc_order = ''configured|'' @ key @ ''|'' @ val\<rparr>"

definition preference_candidate :: "compose_input \<Rightarrow> named_value \<Rightarrow> profile_candidate" where
  "preference_candidate inp p =
     \<lparr>pc_key = ''preference:'' @ nv_name p, pc_value = nv_value p, pc_precedence = 3,
      pc_origin = ''configured'', pc_provider = [], pc_rule = ''profile.explicit.preference'',
      pc_validity = no_validity,
      pc_provenance = plain_provenance ''configured'' [] ''profile.explicit.preference'',
      pc_scope = current_profile_scope inp,
      pc_order = ''configured|'' @ nv_name p @ ''|'' @ fact_value_key (nv_value p)\<rparr>"

definition host_candidate :: "compose_input \<Rightarrow> host_fact \<Rightarrow> profile_candidate" where
  "host_candidate inp f =
     \<lparr>pc_key = hf_key f, pc_value = hf_value f, pc_precedence = 2, pc_origin = ''host'',
      pc_provider = hf_provider f, pc_rule = ''profile.host.fact'', pc_validity = no_validity,
      pc_provenance = plain_provenance ''host'' (hf_provider f) ''profile.host.fact'',
      pc_scope = current_profile_scope inp,
      pc_order = ''host|'' @ hf_provider f @ ''|'' @ fact_value_key (hf_value f)\<rparr>"

definition provider_candidate :: "profile_lib \<Rightarrow> profile_fact \<Rightarrow> profile_candidate" where
  "provider_candidate lib f =
     \<lparr>pc_key = ft_key f, pc_value = ft_value f, pc_precedence = 1, pc_origin = ''provider'',
      pc_provider = pr_provider (ft_provenance f), pc_rule = pr_rule (ft_provenance f),
      pc_validity = ft_validity f, pc_provenance = ft_provenance f, pc_scope = ft_scope f,
      pc_order = ''provider|'' @ pr_provider (ft_provenance f) @ ''|'' @ canonical_fact_order lib f\<rparr>"

definition explicit_candidates :: "compose_input \<Rightarrow> profile_candidate list" where
  "explicit_candidates inp =
     (let x = cp_explicit inp
      in (if ps_role x \<noteq> [] then [explicit_candidate ''role'' (ps_role x) inp] else []) @
         (if ps_guidance x \<noteq> [] then [explicit_candidate ''guidanceSet'' (ps_guidance x) inp] else []) @
         map (preference_candidate inp) (filter (\<lambda>p. nv_name p \<noteq> []) (ps_preferences x)))"

definition host_candidates :: "compose_input \<Rightarrow> profile_candidate list" where
  "host_candidates inp = map (host_candidate inp) (filter (\<lambda>f. hf_key f \<noteq> []) (cp_host inp))"

definition directory_contains :: "string \<Rightarrow> string \<Rightarrow> bool" where
  "directory_contains scope working \<longleftrightarrow>
     clean_path scope = clean_path working \<or>
     has_prefix (clean_path working) (clean_path scope @ [sep])"

definition profile_scope_applies :: "profile_scope \<Rightarrow> compose_input \<Rightarrow> bool" where
  "profile_scope_applies s inp =
     (let working = (if cp_directory inp = [] then sc_root (cp_scope inp) else cp_directory inp)
      in if fs_directory s \<noteq> [] \<and> \<not> directory_contains (fs_directory s) working then False
         else if au_id (fs_audience s) \<noteq> [] \<and> au_id (fs_audience s) \<noteq> au_id (cp_audience inp) then False
         else if au_epoch (fs_audience s) \<noteq> 0 \<and> au_epoch (fs_audience s) \<noteq> au_epoch (cp_audience inp)
         then False
         else if tk_id (fs_task s) \<noteq> [] \<and> tk_id (fs_task s) \<noteq> tk_id (cp_task inp) then False
         else if tk_kind (fs_task s) \<noteq> [] \<and> tk_kind (fs_task s) \<noteq> tk_kind (cp_task inp) then False
         else True)"

definition expired_reason :: "profile_fact \<Rightarrow> instant \<Rightarrow> validity_state \<Rightarrow> instant \<Rightarrow> reason" where
  "expired_reason f deadline state at =
     (let params = [(''key'', text_value (ft_key f))] @
            (if deadline \<noteq> 0
             then [(''deadlineUnixMs'', (text_value [])\<lparr>rv_kind := ''number'', rv_number := unix_milli deadline\<rparr>)]
             else []) @ vd_inputs (ft_validity f)
      in \<lparr>rs_code = (if state = Validity_refresh then ''profile.refresh-required'' else ''profile.expired''),
          rs_origin = ''provider'', rs_provider = pr_provider (ft_provenance f),
          rs_rule = vd_rule (ft_validity f),
          rs_summary = (if state = Validity_refresh then ''provider profile fact requires refresh''
                        else ''provider profile fact expired''),
          rs_params = params, rs_evidence = [], rs_at = at\<rparr>)"

text \<open>The loop over provider facts: the candidates it adds and the reasons it records.\<close>

fun provider_scan ::
    "profile_lib \<Rightarrow> compose_input \<Rightarrow> profile_fact list \<Rightarrow> profile_candidate list \<times> reason list" where
  "provider_scan lib inp [] = ([], [])"
| "provider_scan lib inp (f # fs) =
     (let (cands, reasons) = provider_scan lib inp fs
      in if ft_key f = [] \<or> \<not> profile_scope_applies (ft_scope f) inp then (cands, reasons)
         else if not_before_future (ft_validity f) (cp_now inp) then (cands, reasons)
         else (let (state, deadline) = fact_validity_state (ft_validity f) (cp_now inp)
               in if state \<noteq> Validity_current
                  then (cands, expired_reason f deadline state (cp_now inp) # reasons)
                  else (provider_candidate lib f # cands, reasons)))"

section \<open>Selection\<close>

definition candidate_rank :: "profile_candidate \<Rightarrow> int \<times> string" where
  "candidate_rank c = (- int (pc_precedence c), pc_order c)"

definition options_for :: "profile_candidate list \<Rightarrow> string \<Rightarrow> profile_candidate list" where
  "options_for cands key = sort_key candidate_rank (filter (\<lambda>c. pc_key c = key) cands)"

definition conflict_reason ::
    "string \<Rightarrow> profile_candidate \<Rightarrow> profile_candidate \<Rightarrow> instant \<Rightarrow> reason" where
  "conflict_reason key winner rejected at =
     \<lparr>rs_code = ''profile.conflict'', rs_origin = ''runtime'', rs_provider = pc_provider winner,
      rs_rule = pc_rule winner, rs_summary = ''same-precedence profile facts disagree'',
      rs_params = [(''key'', text_value key), (''chosen'', fact_reason_value (pc_value winner)),
        (''rejected'', fact_reason_value (pc_value rejected)),
        (''rejectedProvider'', text_value (pc_provider rejected))],
      rs_evidence = [], rs_at = at\<rparr>"

definition selected_fact :: "compose_input \<Rightarrow> profile_candidate \<Rightarrow> profile_fact" where
  "selected_fact inp w =
     (let s = pc_scope w;
          s = (if fs_directory s = [] then s\<lparr>fs_directory := sc_root (cp_scope inp)\<rparr> else s);
          s = (if au_id (fs_audience s) = [] \<and> au_epoch (fs_audience s) = 0
               then s\<lparr>fs_audience := cp_audience inp\<rparr> else s);
          s = (if tk_id (fs_task s) = [] \<and> tk_kind (fs_task s) = []
               then s\<lparr>fs_task := cp_task inp\<rparr> else s)
      in \<lparr>ft_key = pc_key w, ft_value = pc_value w, ft_scope = s, ft_validity = pc_validity w,
          ft_provenance = pc_provenance w\<rparr>)"

definition key_conflicts :: "compose_input \<Rightarrow> string \<Rightarrow> profile_candidate list \<Rightarrow> reason list" where
  "key_conflicts inp key options =
     (case options of
        [] \<Rightarrow> []
      | w # rest \<Rightarrow>
          map (\<lambda>r. conflict_reason key w r (cp_now inp))
            (filter (\<lambda>r. pc_precedence r = pc_precedence w \<and> \<not> same_fact_value (pc_value r) (pc_value w)) rest))"

definition earlier_deadline :: "instant \<Rightarrow> profile_candidate \<Rightarrow> instant" where
  "earlier_deadline until w =
     (let d = validity_deadline (pc_validity w)
      in if d \<noteq> 0 \<and> (until = 0 \<or> d < until) then d else until)"

definition candidate_keys :: "profile_candidate list \<Rightarrow> string list" where
  "candidate_keys cands = sort (unique (map pc_key cands))"

definition winners :: "profile_candidate list \<Rightarrow> profile_candidate list" where
  "winners cands = map (\<lambda>key. hd (options_for cands key)) (candidate_keys cands)"

definition canonical_explicit :: "profile_selection \<Rightarrow> profile_selection" where
  "canonical_explicit x =
     x\<lparr>ps_preferences := sort_key (\<lambda>p. (nv_name p, fact_value_key (nv_value p))) (ps_preferences x)\<rparr>"

definition compose_candidates :: "profile_lib \<Rightarrow> compose_input \<Rightarrow> profile_candidate list" where
  "compose_candidates lib inp =
     explicit_candidates inp @ host_candidates inp @ fst (provider_scan lib inp (cp_provider inp))"

definition compose :: "profile_lib \<Rightarrow> compose_input \<Rightarrow> profile \<times> reason list" where
  "compose lib inp =
     (let cands = compose_candidates lib inp;
          keys = candidate_keys cands;
          ws = winners cands;
          facts = map (selected_fact inp) ws;
          conflicts = concat (map (\<lambda>key. key_conflicts inp key (options_for cands key)) keys)
      in (\<lparr>pf_revision = ''sha256:'' @ lib_revision lib
              \<lparr>ri_scope = cp_scope inp, ri_directory = cp_directory inp, ri_audience = cp_audience inp,
               ri_task = cp_task inp, ri_config = cp_config inp,
               ri_explicit = canonical_explicit (cp_explicit inp), ri_facts = facts\<rparr>,
           pf_audience = cp_audience inp, pf_facts = facts, pf_generated = cp_now inp,
           pf_valid_until = foldl earlier_deadline 0 ws\<rparr>,
          snd (provider_scan lib inp (cp_provider inp)) @ conflicts))"

section \<open>The winner of a key\<close>

lemma options_for_set: "set (options_for cands key) = {c \<in> set cands. pc_key c = key}"
  by (auto simp: options_for_def)

lemma set_candidate_keys: "set (candidate_keys cands) = pc_key ` set cands"
  by (simp add: candidate_keys_def)

lemma options_nonempty: "key \<in> set (candidate_keys cands) \<Longrightarrow> options_for cands key \<noteq> []"
proof
  assume "key \<in> set (candidate_keys cands)" and none: "options_for cands key = []"
  then obtain c where "c \<in> set cands" "pc_key c = key" by (auto simp: set_candidate_keys)
  then have "c \<in> set (options_for cands key)" by (simp add: options_for_set)
  then show False by (simp add: none)
qed

lemma winner_in:
  assumes "w \<in> set (winners cands)"
  shows "w \<in> set cands" and "w = hd (options_for cands (pc_key w))"
proof -
  from assms obtain key where key: "key \<in> set (candidate_keys cands)" "w = hd (options_for cands key)"
    by (auto simp: winners_def)
  then have "w \<in> set (options_for cands key)" using options_nonempty by simp
  then show "w \<in> set cands" "w = hd (options_for cands (pc_key w))"
    using key by (auto simp: options_for_set)
qed

lemma winner_first:
  assumes "w \<in> set (winners cands)" and "c \<in> set cands" and "pc_key c = pc_key w"
  shows "candidate_rank w \<le> candidate_rank c"
proof -
  have "c \<in> set (options_for cands (pc_key w))" using assms(2,3) by (simp add: options_for_set)
  moreover have "sorted (map candidate_rank (options_for cands (pc_key w)))" by (simp add: options_for_def)
  ultimately have "candidate_rank (hd (options_for cands (pc_key w))) \<le> candidate_rank c"
    by (cases "options_for cands (pc_key w)") auto
  then show ?thesis using winner_in(2) [OF assms(1)] by simp
qed

lemma winner_keys: "map pc_key (winners cands) = candidate_keys cands"
proof -
  have "pc_key (hd (options_for cands key)) = key" if "key \<in> set (candidate_keys cands)" for key
    using hd_in_set [OF options_nonempty [OF that]] by (simp add: options_for_set)
  then show ?thesis by (simp add: winners_def map_idI comp_def)
qed

lemma rank_precedence: "candidate_rank w \<le> candidate_rank c \<Longrightarrow> pc_precedence c \<le> pc_precedence w"
  by (auto simp: candidate_rank_def less_eq_prod_def)

section \<open>The deadline of the snapshot\<close>

lemma earlier_deadline_fold:
  "foldl earlier_deadline u ws = 0 \<or> foldl earlier_deadline u ws = u \<or>
   (\<exists>w \<in> set ws. foldl earlier_deadline u ws = validity_deadline (pc_validity w))"
proof (induction ws arbitrary: u)
  case (Cons w ws)
  have "earlier_deadline u w = u \<or> earlier_deadline u w = validity_deadline (pc_validity w)"
    by (simp add: earlier_deadline_def Let_def)
  with Cons.IH [of "earlier_deadline u w"] show ?case by auto
qed simp

lemma earlier_deadline_least:
  "w \<in> set ws \<Longrightarrow> validity_deadline (pc_validity w) \<noteq> 0 \<Longrightarrow>
     foldl earlier_deadline u ws \<noteq> 0 \<and> foldl earlier_deadline u ws \<le> validity_deadline (pc_validity w)"
proof -
  have keep: "u \<noteq> 0 \<Longrightarrow> foldl earlier_deadline u ws \<noteq> 0 \<and> foldl earlier_deadline u ws \<le> u" for u ws
  proof (induction ws arbitrary: u)
    case (Cons w ws)
    have "earlier_deadline u w \<noteq> 0 \<and> earlier_deadline u w \<le> u"
      using Cons.prems by (simp add: earlier_deadline_def Let_def)
    with Cons.IH [of "earlier_deadline u w"] show ?case by auto
  qed simp
  show "w \<in> set ws \<Longrightarrow> validity_deadline (pc_validity w) \<noteq> 0 \<Longrightarrow> ?thesis"
  proof (induction ws arbitrary: u)
    case (Cons v ws)
    show ?case
    proof (cases "w = v")
      case True
      then have "earlier_deadline u v \<noteq> 0 \<and> earlier_deadline u v \<le> validity_deadline (pc_validity w)"
        using Cons.prems(2) by (auto simp: earlier_deadline_def Let_def)
      with keep [of "earlier_deadline u v" ws] show ?thesis by auto
    next
      case False
      then show ?thesis using Cons by simp
    qed
  qed simp
qed

text \<open>A fact found current at an instant has its deadline after that instant.\<close>

lemma current_deadline:
  assumes "fst (fact_validity_state v now) = Validity_current" and "now \<noteq> 0"
  shows "validity_deadline v = 0 \<or> now < validity_deadline v"
  using assms
  by (auto simp: fact_validity_state_def state_deadline_def validity_deadline_def Let_def split: if_splits)

lemma provider_scan_in:
  "c \<in> set (fst (provider_scan lib inp fs)) \<Longrightarrow>
     \<exists>f \<in> set fs. c = provider_candidate lib f \<and> ft_key f \<noteq> [] \<and> profile_scope_applies (ft_scope f) inp \<and>
       \<not> not_before_future (ft_validity f) (cp_now inp) \<and>
       fst (fact_validity_state (ft_validity f) (cp_now inp)) = Validity_current"
  by (induction fs) (auto simp: case_prod_unfold Let_def split: if_splits)

lemma candidate_deadline:
  assumes "c \<in> set (compose_candidates lib inp)" and "cp_now inp \<noteq> 0"
  shows "validity_deadline (pc_validity c) = 0 \<or> cp_now inp < validity_deadline (pc_validity c)"
proof -
  have "pc_validity c = no_validity \<or> c \<in> set (fst (provider_scan lib inp (cp_provider inp)))"
    using assms(1)
    by (auto simp: compose_candidates_def explicit_candidates_def host_candidates_def Let_def
        explicit_candidate_def preference_candidate_def host_candidate_def split: if_splits)
  then show ?thesis
  proof
    assume "pc_validity c = no_validity"
    then show ?thesis by (simp add: validity_deadline_def no_validity_def)
  next
    assume "c \<in> set (fst (provider_scan lib inp (cp_provider inp)))"
    then show ?thesis
      using provider_scan_in current_deadline assms(2) by (fastforce simp: provider_candidate_def)
  qed
qed

lemma composed_until:
  "pf_valid_until (fst (compose lib inp)) = foldl earlier_deadline 0 (winners (compose_candidates lib inp))"
  by (simp add: compose_def Let_def)

lemma composed_not_expired: "\<not> profile_expired (fst (compose lib inp)) (cp_now inp)"
proof (cases "cp_now inp = 0")
  case False
  let ?ws = "winners (compose_candidates lib inp)"
  from earlier_deadline_fold [of 0 ?ws] show ?thesis
  proof (elim disjE)
    assume "\<exists>w \<in> set ?ws. foldl earlier_deadline 0 ?ws = validity_deadline (pc_validity w)"
    then obtain w where "w \<in> set ?ws" "foldl earlier_deadline 0 ?ws = validity_deadline (pc_validity w)" by blast
    then show ?thesis
      using candidate_deadline [OF winner_in(1) False] by (auto simp: profile_expired_def composed_until)
  qed (simp_all add: profile_expired_def composed_until)
qed (simp add: profile_expired_def)

end
