(* ===== verification/Profile_Properties.thy ===== *)
theory Profile_Properties
  imports Profile_Compose Engine_Demo
begin

text \<open>
  The properties of profile composition: who wins a key, that a composed profile is current
  when the engine plans with it, and that the order of host facts does not matter.
\<close>

section \<open>Canonical texts are injective\<close>

lemma int_string_inj: "int_string i = int_string j \<Longrightarrow> i = j"
proof -
  have minus: "CHR ''-'' # s \<noteq> nat_string n" for s n
    using nat_string_unsigned(1) [of n] by (metis list.set_intros(1))
  have inj: "a = b" if "nat_string a = nat_string b" for a b
    using arg_cong [OF that, of "decimal 0"] by (simp add: decimal_nat_string)
  assume eq: "int_string i = int_string j"
  show "i = j"
  proof (cases "i < 0"; cases "j < 0")
    assume "i < 0" "j < 0"
    then show ?thesis using eq inj [of "nat (- i)" "nat (- j)"] by (simp add: int_string_def)
  next
    assume "i < 0" "\<not> j < 0"
    then show ?thesis using eq minus by (simp add: int_string_def)
  next
    assume "\<not> i < 0" "j < 0"
    then show ?thesis using eq minus [of "nat_string (nat (- j))" "nat i"] by (simp add: int_string_def)
  next
    assume "\<not> i < 0" "\<not> j < 0"
    then show ?thesis using eq inj [of "nat i" "nat j"] by (simp add: int_string_def)
  qed
qed

text \<open>A value as the JSON layer delivers it: a known kind, and nothing beside its kind's field.\<close>

definition fact_value_ok :: "fact_value \<Rightarrow> bool" where
  "fact_value_ok v \<longleftrightarrow>
     fv_kind v = ''text'' \<and> fv_number v = 0 \<and> \<not> fv_boolean v \<or>
     fv_kind v = ''number'' \<and> fv_text v = [] \<and> \<not> fv_boolean v \<or>
     fv_kind v = ''boolean'' \<and> fv_text v = [] \<and> fv_number v = 0"

lemma fact_value_key_inj:
  assumes "fact_value_ok a" and "fact_value_ok b" and "fact_value_key a = fact_value_key b"
  shows "a = b"
  using assms
  by (cases a; cases b) (auto simp: fact_value_ok_def fact_value_key_def bool_string_def
      dest!: int_string_inj split: if_splits)

lemma bar_split:
  "CHR ''|'' \<notin> set p \<Longrightarrow> CHR ''|'' \<notin> set q \<Longrightarrow> p @ CHR ''|'' # s = q @ CHR ''|'' # t \<Longrightarrow> p = q \<and> s = t"
proof (induction p arbitrary: q)
  case Nil
  then show ?case by (cases q) auto
next
  case (Cons c p)
  then show ?case by (cases q) auto
qed

definition host_fact_ok :: "host_fact \<Rightarrow> bool" where
  "host_fact_ok f \<longleftrightarrow> fact_value_ok (hf_value f) \<and> CHR ''|'' \<notin> set (hf_provider f)"

lemma host_candidate_inj:
  assumes "host_fact_ok f" and "host_fact_ok g" and "hf_key f = hf_key g"
    and "candidate_rank (host_candidate inp f) = candidate_rank (host_candidate inp g)"
  shows "host_candidate inp f = host_candidate inp g"
proof -
  have "hf_provider f @ CHR ''|'' # fact_value_key (hf_value f) =
      hf_provider g @ CHR ''|'' # fact_value_key (hf_value g)"
    using assms(4) by (simp add: candidate_rank_def host_candidate_def)
  then have "hf_provider f = hf_provider g" "fact_value_key (hf_value f) = fact_value_key (hf_value g)"
    using bar_split assms(1,2) by (auto simp: host_fact_ok_def)
  then show ?thesis
    using assms(1-3) fact_value_key_inj by (simp add: host_candidate_def host_fact_ok_def)
qed

section \<open>The order of host facts\<close>

lemma same_elements_eq:
  assumes "mset xs = mset ys" and "\<forall>x \<in> set xs. \<forall>y \<in> set xs. x = y"
  shows "xs = ys"
proof (cases xs)
  case (Cons x zs)
  have "xs = replicate (length xs) x" using assms(2) Cons by (intro replicate_length_same [symmetric]) auto
  moreover have "ys = replicate (length ys) x"
    using assms Cons mset_eq_setD [OF assms(1)] by (intro replicate_length_same [symmetric]) auto
  ultimately show ?thesis using mset_eq_length [OF assms(1)] by metis
qed (use assms(1) in simp)

lemma sort_key_swap:
  assumes "mset hs = mset hs'" and "\<forall>x \<in> set hs. \<forall>y \<in> set hs. f x = f y \<longrightarrow> x = y"
  shows "sort_key f (as @ hs @ bs) = sort_key f (as @ hs' @ bs)"
proof (rule properties_for_sort_key)
  show "mset (sort_key f (as @ hs' @ bs)) = mset (as @ hs @ bs)" using assms(1) by simp
  show "sorted (map f (sort_key f (as @ hs' @ bs)))" by simp
  fix k
  have "filter (\<lambda>x. f k = f x) hs = filter (\<lambda>x. f k = f x) hs'"
  proof (rule same_elements_eq)
    show "mset (filter (\<lambda>x. f k = f x) hs) = mset (filter (\<lambda>x. f k = f x) hs')" using assms(1) by simp
    show "\<forall>x \<in> set (filter (\<lambda>x. f k = f x) hs). \<forall>y \<in> set (filter (\<lambda>x. f k = f x) hs). x = y"
    proof (intro ballI)
      fix x y assume "x \<in> set (filter (\<lambda>x. f k = f x) hs)" "y \<in> set (filter (\<lambda>x. f k = f x) hs)"
      then have "x \<in> set hs" "y \<in> set hs" "f x = f y" by simp_all
      with assms(2) show "x = y" by blast
    qed
  qed
  moreover have "filter (\<lambda>x. f k = f x) (sort_key f (as @ hs' @ bs)) = filter (\<lambda>x. f k = f x) (as @ hs' @ bs)"
    using sort_key_stable [of f "f k" "as @ hs' @ bs"] by (simp add: eq_commute)
  ultimately show "filter (\<lambda>x. f k = f x) (sort_key f (as @ hs' @ bs)) = filter (\<lambda>x. f k = f x) (as @ hs @ bs)"
    by simp
qed

lemma host_update:
  "explicit_candidates (inp\<lparr>cp_host := hs\<rparr>) = explicit_candidates inp"
  "host_candidate (inp\<lparr>cp_host := hs\<rparr>) = host_candidate inp"
  "provider_scan lib (inp\<lparr>cp_host := hs\<rparr>) = provider_scan lib inp"
  "selected_fact (inp\<lparr>cp_host := hs\<rparr>) = selected_fact inp"
  "key_conflicts (inp\<lparr>cp_host := hs\<rparr>) = key_conflicts inp"
proof -
  have "current_profile_scope (inp\<lparr>cp_host := hs\<rparr>) = current_profile_scope inp"
    by (simp add: current_profile_scope_def)
  then show "explicit_candidates (inp\<lparr>cp_host := hs\<rparr>) = explicit_candidates inp"
    "host_candidate (inp\<lparr>cp_host := hs\<rparr>) = host_candidate inp"
    by (auto simp: explicit_candidates_def explicit_candidate_def preference_candidate_def
        host_candidate_def Let_def fun_eq_iff intro!: map_cong)
  have "profile_scope_applies s (inp\<lparr>cp_host := hs\<rparr>) = profile_scope_applies s inp" for s
    by (simp add: profile_scope_applies_def)
  then have "provider_scan lib (inp\<lparr>cp_host := hs\<rparr>) fs = provider_scan lib inp fs" for fs
    by (induction fs) (simp_all add: case_prod_unfold Let_def)
  then show "provider_scan lib (inp\<lparr>cp_host := hs\<rparr>) = provider_scan lib inp" by (simp add: fun_eq_iff)
  have same: "cp_scope (inp\<lparr>cp_host := hs\<rparr>) = cp_scope inp" "cp_audience (inp\<lparr>cp_host := hs\<rparr>) = cp_audience inp"
    "cp_task (inp\<lparr>cp_host := hs\<rparr>) = cp_task inp" "cp_now (inp\<lparr>cp_host := hs\<rparr>) = cp_now inp" by simp_all
  show "selected_fact (inp\<lparr>cp_host := hs\<rparr>) = selected_fact inp"
    unfolding fun_eq_iff selected_fact_def same by simp
  show "key_conflicts (inp\<lparr>cp_host := hs\<rparr>) = key_conflicts inp"
    unfolding fun_eq_iff key_conflicts_def same by simp
qed

lemma options_swap:
  assumes "mset hs = mset hs'" and "\<forall>f \<in> set hs. host_fact_ok f"
  shows "options_for (compose_candidates lib (inp\<lparr>cp_host := hs\<rparr>)) key =
    options_for (compose_candidates lib (inp\<lparr>cp_host := hs'\<rparr>)) key"
proof -
  let ?h = "\<lambda>hs. filter (\<lambda>c. pc_key c = key) (map (host_candidate inp) (filter (\<lambda>f. hf_key f \<noteq> []) hs))"
  have "mset (?h hs) = mset (?h hs')" using assms(1) by simp
  moreover have "\<forall>x \<in> set (?h hs). \<forall>y \<in> set (?h hs). candidate_rank x = candidate_rank y \<longrightarrow> x = y"
  proof (intro ballI impI)
    fix x y assume x: "x \<in> set (?h hs)" and y: "y \<in> set (?h hs)" and r: "candidate_rank x = candidate_rank y"
    from x obtain f where f: "f \<in> set hs" "x = host_candidate inp f" "hf_key f = key"
      by (auto simp: host_candidate_def)
    from y obtain g where g: "g \<in> set hs" "y = host_candidate inp g" "hf_key g = key"
      by (auto simp: host_candidate_def)
    show "x = y" using host_candidate_inj [of f g inp] assms(2) f g r by simp
  qed
  ultimately have "sort_key candidate_rank (as @ ?h hs @ bs) = sort_key candidate_rank (as @ ?h hs' @ bs)" for as bs
    by (rule sort_key_swap)
  then show ?thesis
    unfolding options_for_def compose_candidates_def host_candidates_def host_update filter_append
    by simp
qed

lemma keys_swap:
  assumes "mset hs = mset hs'"
  shows "candidate_keys (compose_candidates lib (inp\<lparr>cp_host := hs\<rparr>)) =
    candidate_keys (compose_candidates lib (inp\<lparr>cp_host := hs'\<rparr>))"
proof (rule sorted_distinct_set_unique)
  show "set (candidate_keys (compose_candidates lib (inp\<lparr>cp_host := hs\<rparr>))) =
    set (candidate_keys (compose_candidates lib (inp\<lparr>cp_host := hs'\<rparr>)))"
    using mset_eq_setD [OF assms]
    by (simp add: set_candidate_keys compose_candidates_def host_candidates_def host_update)
qed (simp_all add: candidate_keys_def)

section \<open>Properties\<close>

text \<open>
  C17: The composed facts are listed by strictly increasing key, one for every key that has
  an eligible candidate, and each is the best of its key: no other candidate of the key has
  a higher precedence, nor the same precedence and an earlier canonical order. Configured
  facts therefore win over host facts, and those over provider facts.
\<close>

theorem composed_facts_win:
  "sorted_wrt (<) (map ft_key (pf_facts (fst (compose lib inp)))) \<and>
   set (map ft_key (pf_facts (fst (compose lib inp)))) = pc_key ` set (compose_candidates lib inp) \<and>
   (\<forall>f \<in> set (pf_facts (fst (compose lib inp))). \<exists>c \<in> set (compose_candidates lib inp).
      f = selected_fact inp c \<and>
      (\<forall>d \<in> set (compose_candidates lib inp). pc_key d = pc_key c \<longrightarrow>
         pc_precedence d < pc_precedence c \<or>
         pc_precedence d = pc_precedence c \<and> pc_order c \<le> pc_order d))"
proof -
  let ?cs = "compose_candidates lib inp"
  have facts: "pf_facts (fst (compose lib inp)) = map (selected_fact inp) (winners ?cs)"
    by (simp add: compose_def Let_def)
  have keys: "map ft_key (pf_facts (fst (compose lib inp))) = candidate_keys ?cs"
    by (simp add: facts winner_keys [symmetric] selected_fact_def Let_def comp_def)
  have "sorted_wrt (<) (candidate_keys ?cs)"
    by (simp add: candidate_keys_def strict_sorted_iff)
  moreover have "\<exists>c \<in> set ?cs. f = selected_fact inp c \<and>
      (\<forall>d \<in> set ?cs. pc_key d = pc_key c \<longrightarrow> pc_precedence d < pc_precedence c \<or>
         pc_precedence d = pc_precedence c \<and> pc_order c \<le> pc_order d)"
    if "f \<in> set (pf_facts (fst (compose lib inp)))" for f
  proof -
    from that obtain w where w: "w \<in> set (winners ?cs)" "f = selected_fact inp w" by (auto simp: facts)
    have "pc_precedence d < pc_precedence w \<or> pc_precedence d = pc_precedence w \<and> pc_order w \<le> pc_order d"
      if "d \<in> set ?cs" "pc_key d = pc_key w" for d
      using winner_first [OF w(1) that] by (auto simp: candidate_rank_def less_eq_prod_def)
    with w winner_in(1) show ?thesis by blast
  qed
  ultimately show ?thesis using keys by (simp add: set_candidate_keys)
qed

definition demo_profile_lib :: profile_lib where
  "demo_profile_lib = \<lparr>lib_fact_json = (\<lambda>f. ft_key f), lib_revision = (\<lambda>r. concat (map ft_key (ri_facts r)))\<rparr>"

definition demo_host :: "string \<Rightarrow> string \<Rightarrow> host_fact" where
  "demo_host prov v = \<lparr>hf_key = ''role'', hf_value = \<lparr>fv_kind = ''text'', fv_text = v, fv_number = 0,
     fv_boolean = False\<rparr>, hf_origin = ''host'', hf_provider = prov, hf_observed = 0\<rparr>"

definition demo_compose :: compose_input where
  "demo_compose = \<lparr>cp_scope = \<lparr>sc_id = ''s'', sc_authority = ''a'', sc_root = ''/r'', sc_config = ''c''\<rparr>,
     cp_directory = ''/r/d'', cp_audience = \<lparr>au_id = ''u'', au_epoch = 1, au_continuity = []\<rparr>,
     cp_task = \<lparr>tk_id = [], tk_kind = []\<rparr>,
     cp_explicit = \<lparr>ps_role = [], ps_guidance = [], ps_preferences = []\<rparr>,
     cp_host = [demo_host ''p'' ''x'', demo_host ''q'' ''y''], cp_provider = [], cp_config = ''c'', cp_now = 7\<rparr>"

lemma composed_facts_win_witness:
  "set (map ft_key (pf_facts (fst (compose demo_profile_lib demo_compose)))) = {''role''}"
proof -
  have "pc_key ` set (compose_candidates demo_profile_lib demo_compose) = {''role''}"
    by (simp add: compose_candidates_def explicit_candidates_def host_candidates_def demo_compose_def
        demo_host_def host_candidate_def)
  then show ?thesis using composed_facts_win [of demo_profile_lib demo_compose] by simp
qed

text \<open>
  C18: A profile composed at an instant is current at that instant: its deadline has not
  passed and its audience is the composed one. So a \<^verbatim>\<open>Plan\<close> at the instant and for the
  audience of the composition is never turned away or cleared for an expired profile or for
  the profile's audience.
\<close>

theorem composed_profile_is_current:
  assumes "pi_profile p = fst (compose lib inp)" and "pi_now p = cp_now inp"
    and "same_audience (cp_audience inp) (pi_audience p)"
    and "pi_generation p = pt_generation (en_partition e)"
    and "same_scope_root (pi_scope p) (pt_scope (en_partition e))"
    and "same_audience (pi_audience p) (pt_audience (en_partition e))"
    and "pi_config p = pt_config (en_partition e)"
    and "sc_config (pi_scope p) = sc_config (pt_scope (en_partition e))"
    and "pi_transition p = []" and "pi_active p"
  shows "plan_guard e p = None"
proof -
  have "pf_audience (fst (compose lib inp)) = cp_audience inp" by (simp add: compose_def Let_def)
  then have "profile_audience_matches (pi_profile p) (pi_audience p)"
    using assms(1,3) by (simp add: profile_audience_matches_def)
  then show ?thesis
    using assms(1,2,4-10) composed_not_expired [of lib inp] by (simp add: plan_guard_def)
qed

lemma composed_profile_is_current_witness:
  "plan_guard \<lparr>en_partition = \<lparr>pt_scope = cp_scope demo_compose, pt_audience = cp_audience demo_compose,
       pt_generation = 1, pt_config = ''c''\<rparr>,
     en_limits = demo_limits, en_pending = [], en_pending_bytes = 0, en_live = [], en_receipts = [],
     en_completed = [], en_next_id = 0\<rparr>
   \<lparr>pi_now = 7, pi_active = True, pi_scope = cp_scope demo_compose, pi_config = ''c'',
     pi_audience = cp_audience demo_compose, pi_generation = 1, pi_transition = [],
     pi_profile = fst (compose demo_profile_lib demo_compose), pi_contributions = [],
     pi_opportunity = pi_opportunity demo_input\<rparr> = None"
  by (rule composed_profile_is_current [of _ demo_profile_lib demo_compose])
    (simp_all add: demo_compose_def same_audience_def same_scope_root_def)

text \<open>
  Composition does not depend on the order in which the host reports its facts: the
  same facts in any order give the same profile, revision and reasons included.
\<close>

theorem compose_ignores_host_order:
  assumes "mset hs = mset hs'" and "\<forall>f \<in> set hs. host_fact_ok f"
  shows "compose lib (inp\<lparr>cp_host := hs\<rparr>) = compose lib (inp\<lparr>cp_host := hs'\<rparr>)"
proof -
  have "winners (compose_candidates lib (inp\<lparr>cp_host := hs\<rparr>)) =
      winners (compose_candidates lib (inp\<lparr>cp_host := hs'\<rparr>))"
    by (simp add: winners_def keys_swap [OF assms(1)] options_swap [OF assms])
  then show ?thesis
    by (simp add: compose_def Let_def keys_swap [OF assms(1), of lib inp] options_swap [OF assms] host_update)
qed

lemma compose_ignores_host_order_witness:
  "compose demo_profile_lib (demo_compose\<lparr>cp_host := [demo_host ''p'' ''x'', demo_host ''q'' ''y'']\<rparr>) =
   compose demo_profile_lib (demo_compose\<lparr>cp_host := [demo_host ''q'' ''y'', demo_host ''p'' ''x'']\<rparr>)"
  by (rule compose_ignores_host_order)
    (simp_all add: host_fact_ok_def demo_host_def fact_value_ok_def)

end
