(* ===== verification/Cache_Format.thy ===== *)
theory Cache_Format
  imports Go_Numbers
begin

text \<open>
  The pure part of the snapshot pool (\<^verbatim>\<open>internal/contextcache/cache.go\<close>): its options, the
  admission arithmetic, snapshot keys and the names of temporary files, and the integrity
  envelope. SHA-256 is a parameter \<open>sha\<close>; the lemmas that need it assume that a digest has
  32 bytes.
\<close>

section \<open>Options and amounts\<close>

record cache_options =
  op_scan_entries :: int
  op_scan_depth :: int
  op_snapshot_bytes :: int
  op_snapshot_entries :: int
  op_lock_wait :: int
  op_lock_poll :: int

definition snapshot_header_size :: nat where
  "snapshot_header_size = 8 + 8 + 32"

definition cache_defaults :: cache_options where
  "cache_defaults = \<lparr>op_scan_entries = 4096, op_scan_depth = 32, op_snapshot_bytes = 8 * 2 ^ 20,
     op_snapshot_entries = 4096, op_lock_wait = 250 * 1000000, op_lock_poll = 2 * 1000000\<rparr>"

definition with_defaults :: "cache_options \<Rightarrow> cache_options" where
  "with_defaults o1 =
     (let o2 = (if op_scan_entries o1 = 0 then o1\<lparr>op_scan_entries := op_scan_entries cache_defaults\<rparr> else o1);
          o3 = (if op_scan_depth o2 = 0 then o2\<lparr>op_scan_depth := op_scan_depth cache_defaults\<rparr> else o2);
          o4 = (if op_snapshot_bytes o3 = 0 then o3\<lparr>op_snapshot_bytes := op_snapshot_bytes cache_defaults\<rparr> else o3);
          o5 = (if op_snapshot_entries o4 = 0 then o4\<lparr>op_snapshot_entries := op_snapshot_entries cache_defaults\<rparr> else o4);
          o6 = (if op_lock_wait o5 = 0 then o5\<lparr>op_lock_wait := op_lock_wait cache_defaults\<rparr> else o5)
      in if op_lock_poll o6 = 0 then o6\<lparr>op_lock_poll := op_lock_poll cache_defaults\<rparr> else o6)"

text \<open>\<^verbatim>\<open>int64(^uint(0)>>1)\<close> is the largest \<^verbatim>\<open>int64\<close>: the platform has 64 bits.\<close>

definition options_ok :: "cache_options \<Rightarrow> bool" where
  "options_ok opts \<longleftrightarrow>
     \<not> (op_scan_entries opts < 1 \<or> op_scan_depth opts < 1 \<or> op_snapshot_bytes opts < 1 \<or>
        op_snapshot_entries opts < 1 \<or> op_lock_wait opts \<le> 0 \<or> op_lock_poll opts \<le> 0) \<and>
     \<not> op_snapshot_bytes opts > max_i64 - int snapshot_header_size"

record usage =
  us_bytes :: int
  us_entries :: int
  us_files :: int

record cache_admission =
  ad_temp_bytes :: int
  ad_temp_entries :: int
  ad_metadata_bytes :: int
  ad_metadata_entries :: int

record capacity_error =
  ce_cap :: int
  ce_usage_bytes :: int
  ce_usage_entries :: int
  ce_temp_bytes :: int
  ce_temp_entries :: int
  ce_metadata_bytes :: int
  ce_metadata_entries :: int
  ce_max_entries :: int
  ce_detail :: string

text \<open>The admission test, with every subtraction at the width of \<^verbatim>\<open>int64\<close>.\<close>

definition exceeds :: "usage \<Rightarrow> cache_admission \<Rightarrow> int \<Rightarrow> int \<Rightarrow> bool" where
  "exceeds u a cap max_entries =
     (if us_bytes u < 0 \<or> ad_temp_bytes a < 0 \<or> ad_metadata_bytes a < 0 \<or> cap < 0 \<or> us_entries u < 0 \<or>
         ad_temp_entries a < 0 \<or> ad_metadata_entries a < 0 \<or> max_entries < 0 then True
      else if us_bytes u > cap \<or> ad_temp_bytes a > i64 (cap - us_bytes u) then True
      else if ad_metadata_bytes a > i64 (i64 (cap - us_bytes u) - ad_temp_bytes a) then True
      else if ad_temp_entries a > i64 (max_entries - us_entries u) then True
      else ad_metadata_entries a > i64 (i64 (max_entries - us_entries u) - ad_temp_entries a))"

definition amounts_in_range :: "usage \<Rightarrow> cache_admission \<Rightarrow> int \<Rightarrow> int \<Rightarrow> bool" where
  "amounts_in_range u a cap max_entries \<longleftrightarrow>
     in_i64 (us_bytes u) \<and> in_i64 (us_entries u) \<and> in_i64 (ad_temp_bytes a) \<and>
     in_i64 (ad_temp_entries a) \<and> in_i64 (ad_metadata_bytes a) \<and> in_i64 (ad_metadata_entries a) \<and>
     in_i64 cap \<and> in_i64 max_entries"

section \<open>Snapshot keys\<close>

definition new_snapshot_key :: "string \<Rightarrow> string option" where
  "new_snapshot_key digest =
     (if length digest \<noteq> 32 * 2 \<or> digest \<noteq> to_lower digest then None
      else case hex_decode digest of
             None \<Rightarrow> None
           | Some decoded \<Rightarrow> if length decoded \<noteq> 32 then None else Some digest)"

definition valid_key :: "string \<Rightarrow> bool" where
  "valid_key k \<longleftrightarrow> new_snapshot_key k \<noteq> None"

definition lock_name :: string where
  "lock_name = ''.capacity.lock''"

definition snapshot_dir :: string where
  "snapshot_dir = ''snapshots''"

definition temp_prefix :: string where
  "temp_prefix = ''.workbench-contextcache-''"

definition temp_suffix :: string where
  "temp_suffix = ''.tmp''"

definition snapshot_suffix :: string where
  "snapshot_suffix = ''.snap''"

text \<open>\<^verbatim>\<open>strings.LastIndexByte\<close>; \<open>-1\<close> is \<open>None\<close>.\<close>

fun last_index :: "char \<Rightarrow> string \<Rightarrow> nat option" where
  "last_index c [] = None"
| "last_index c (x # xs) =
     (case last_index c xs of Some i \<Rightarrow> Some (Suc i) | None \<Rightarrow> if x = c then Some 0 else None)"

definition owned_snapshot_temp :: "string \<Rightarrow> bool" where
  "owned_snapshot_temp name =
     (if \<not> has_prefix name temp_prefix \<or> \<not> has_suffix name temp_suffix then False
      else let value = trim_suffix (trim_prefix name temp_prefix) temp_suffix
           in case last_index CHR ''-'' value of
                None \<Rightarrow> False
              | Some separator \<Rightarrow>
                  if separator = 0 \<or> separator = length value - 1 then False
                  else if new_snapshot_key (take separator value) = None then False
                  else (case parse_i64 (drop (separator + 1) value) of
                          None \<Rightarrow> False | Some n \<Rightarrow> n \<ge> 0))"

text \<open>The name \<^verbatim>\<open>createTemp\<close> gives the file of one attempt at a time in nanoseconds.\<close>

definition temp_name :: "string \<Rightarrow> int \<Rightarrow> nat \<Rightarrow> string" where
  "temp_name key now attempt =
     temp_prefix @ key @ ''-'' @ int_string (i64 (now + int attempt)) @ temp_suffix"

section \<open>The integrity envelope\<close>

text \<open>\<^verbatim>\<open>copy(dst[at:], src)\<close>.\<close>

definition copy_at :: "nat \<Rightarrow> 'a list \<Rightarrow> 'a list \<Rightarrow> 'a list" where
  "copy_at i src dst =
     take i dst @ take (length dst - i) src @ drop (i + length src) dst"

definition snapshot_magic :: string where
  "snapshot_magic = ''WBCACHE'' @ [char_of (1 :: nat)]"

definition put_le64 :: "nat \<Rightarrow> string" where
  "put_le64 n = map (\<lambda>i. char_of (n div 256 ^ i)) [0..<8]"

fun le_value :: "string \<Rightarrow> nat" where
  "le_value [] = 0"
| "le_value (c # cs) = of_char c + 256 * le_value cs"

definition get_le64 :: "string \<Rightarrow> nat" where
  "get_le64 s = le_value (take 8 s)"

definition snapshot_envelope :: "(string \<Rightarrow> string) \<Rightarrow> string \<Rightarrow> string" where
  "snapshot_envelope sha payload =
     (let result = replicate (snapshot_header_size + length payload) (char_of (0 :: nat));
          result = copy_at 0 snapshot_magic result;
          result = copy_at (length snapshot_magic) (put_le64 (length payload mod 2 ^ 64)) result;
          result = copy_at (length snapshot_magic + 8) (take (snapshot_header_size - (length snapshot_magic + 8)) (sha payload)) result
      in copy_at snapshot_header_size payload result)"

text \<open>\<^verbatim>\<open>data[lo:hi]\<close>.\<close>

definition slice :: "nat \<Rightarrow> nat \<Rightarrow> 'a list \<Rightarrow> 'a list" where
  "slice lo hi xs = drop lo (take hi xs)"

text \<open>\<open>bytesEqual\<close> compares lengths and then byte by byte: equality of the two slices.\<close>

definition bytes_equal :: "string \<Rightarrow> string \<Rightarrow> bool" where
  "bytes_equal l r =
     (if length l \<noteq> length r then False else list_all (\<lambda>i. l ! i = r ! i) [0..<length l])"

definition valid_snapshot_envelope :: "(string \<Rightarrow> string) \<Rightarrow> string \<Rightarrow> int \<Rightarrow> bool" where
  "valid_snapshot_envelope sha data max_payload =
     (if length data < snapshot_header_size \<or>
         \<not> bytes_equal (take (length snapshot_magic) data) snapshot_magic then False
      else let size = get_le64 (slice (length snapshot_magic) (length snapshot_magic + 8) data)
           in if int size > max_payload mod 2 ^ 64 \<or> size > length data - snapshot_header_size then False
              else if i64 (int snapshot_header_size + i64 (int size)) \<noteq> int (length data) then False
              else bytes_equal (slice (length snapshot_magic + 8) snapshot_header_size data)
                     (sha (drop snapshot_header_size data)))"

text \<open>The payload \<^verbatim>\<open>SnapshotRead\<close> slices out of a valid envelope.\<close>

definition envelope_payload :: "string \<Rightarrow> string" where
  "envelope_payload data =
     (let size = get_le64 (slice (length snapshot_magic) snapshot_header_size data)
      in slice snapshot_header_size (snapshot_header_size + size) data)"

section \<open>Lemmas\<close>

lemma exceeds_exact:
  assumes "amounts_in_range u a cap n" and "0 \<le> us_bytes u" "0 \<le> us_entries u"
    and "0 \<le> ad_temp_bytes a" "0 \<le> ad_metadata_bytes a"
    and "0 \<le> ad_temp_entries a" "0 \<le> ad_metadata_entries a" "0 \<le> cap" "0 \<le> n"
  shows "\<not> exceeds u a cap n \<longleftrightarrow>
    us_bytes u + ad_temp_bytes a + ad_metadata_bytes a \<le> cap \<and>
    us_entries u + ad_temp_entries a + ad_metadata_entries a \<le> n"
proof -
  have bytes: "i64 (cap - us_bytes u) = cap - us_bytes u"
    and entries: "i64 (n - us_entries u) = n - us_entries u"
    using assms by (simp_all add: amounts_in_range_def i64_sub)
  have bytes': "i64 (cap - us_bytes u - ad_temp_bytes a) = cap - us_bytes u - ad_temp_bytes a"
    if "us_bytes u \<le> cap" "ad_temp_bytes a \<le> cap - us_bytes u"
    using that assms by (intro i64_id) (auto simp: in_i64_def amounts_in_range_def)
  have entries': "i64 (n - us_entries u - ad_temp_entries a) = n - us_entries u - ad_temp_entries a"
    if "ad_temp_entries a \<le> n - us_entries u"
    using that assms by (intro i64_id) (auto simp: in_i64_def amounts_in_range_def)
  show ?thesis
    using assms(2-) bytes' entries' unfolding exceeds_def bytes entries by auto
qed

lemma valid_key_length: "valid_key k \<Longrightarrow> length k = 64"
  by (auto simp: valid_key_def new_snapshot_key_def split: if_splits)

lemma new_snapshot_key_Some: "new_snapshot_key d = Some k \<longleftrightarrow> valid_key d \<and> k = d"
  by (auto simp: valid_key_def new_snapshot_key_def split: if_splits option.splits)

lemma lower_char_fixed: "lower_char c = c \<longleftrightarrow> \<not> is_upper c"
proof -
  have "char_of (of_char c + 32 :: nat) \<noteq> c" if "is_upper c"
  proof
    assume "char_of (of_char c + 32 :: nat) = c"
    then have "(of_char c + 32 :: nat) mod 256 = of_char c" by (metis of_char_of)
    moreover have "(of_char c :: nat) \<le> 90" using that by (simp add: is_upper_def less_eq_char_def)
    ultimately show False by simp
  qed
  then show ?thesis by (auto simp: lower_char_def)
qed

text \<open>A key is exactly 64 lowercase hexadecimal digits.\<close>

lemma valid_key_iff:
  "valid_key k \<longleftrightarrow> length k = 64 \<and> (\<forall>c \<in> set k. c \<in> set ''0123456789abcdef'')"
proof -
  have hex: "from_hex c \<noteq> None \<and> \<not> is_upper c \<longleftrightarrow> c \<in> set ''0123456789abcdef''" for c
  proof -
    have "c \<in> set ''0123456789abcdef'' \<longleftrightarrow>
        (of_char c :: nat) \<in> of_char ` set ''0123456789abcdef''"
      by (rule inj_image_mem_iff [symmetric]) (simp add: inj_of_char)
    also have "\<dots> \<longleftrightarrow> 48 \<le> (of_char c :: nat) \<and> (of_char c :: nat) \<le> 57 \<or>
        97 \<le> (of_char c :: nat) \<and> (of_char c :: nat) \<le> 102"
      by simp presburger
    finally show ?thesis by (auto simp: from_hex_def is_upper_def less_eq_char_def Let_def)
  qed
  have lower: "k = to_lower k \<longleftrightarrow> (\<forall>c \<in> set k. \<not> is_upper c)"
    using map_idI [of k lower_char] map_eq_conv [of lower_char k "\<lambda>c. c"]
    by (auto simp: to_lower_def lower_char_fixed eq_commute [of k])
  have "valid_key k \<longleftrightarrow> length k = 64 \<and> k = to_lower k \<and> (\<exists>t. hex_decode k = Some t)"
    using hex_decode_length [of k]
    by (auto simp: valid_key_def new_snapshot_key_def split: option.splits)
  also have "\<dots> \<longleftrightarrow> length k = 64 \<and> (\<forall>c \<in> set k. from_hex c \<noteq> None \<and> \<not> is_upper c)"
    unfolding lower hex_decode_total by auto
  finally show ?thesis using hex by simp
qed

lemma last_index_append:
  "c \<notin> set t \<Longrightarrow> last_index c (s @ c # t) = Some (length s)"
proof (induction s)
  case Nil
  then have "last_index c t = None" by (induction t) auto
  then show ?case by simp
qed simp

lemma temp_name_owned:
  assumes "valid_key key" and "0 \<le> i64 (now + int attempt)"
  shows "owned_snapshot_temp (temp_name key now attempt)"
proof -
  define digits where "digits = nat_string (nat (i64 (now + int attempt)))"
  have printed: "int_string (i64 (now + int attempt)) = digits"
    using assms(2) by (simp add: int_string_def digits_def)
  have index: "last_index CHR ''-'' (key @ CHR ''-'' # digits) = Some 64"
    using last_index_append [of "CHR ''-''" digits key] valid_key_length [OF assms(1)]
    by (simp add: digits_def nat_string_unsigned)
  have parsed: "parse_i64 digits = Some (i64 (now + int attempt))"
    using parse_nat_string [of "nat (i64 (now + int attempt))"] assms(2)
      in_i64_i64 [of "now + int attempt"] by (simp add: digits_def in_i64_def)
  have name: "temp_name key now attempt = temp_prefix @ (key @ CHR ''-'' # digits) @ temp_suffix"
    by (simp add: temp_name_def printed)
  have trimmed: "trim_suffix (trim_prefix (temp_name key now attempt) temp_prefix) temp_suffix
      = key @ CHR ''-'' # digits"
    unfolding name trim_prefix_append trim_suffix_append ..
  have ends: "has_prefix (temp_name key now attempt) temp_prefix"
      "has_suffix (temp_name key now attempt) temp_suffix"
    unfolding name using has_suffix_append [of "temp_prefix @ key @ CHR ''-'' # digits" temp_suffix]
    by simp_all
  have "digits \<noteq> []" by (simp add: digits_def)
  then have "length (key @ CHR ''-'' # digits) - 1 \<noteq> 64"
    using valid_key_length [OF assms(1)] by simp
  then show ?thesis
    using assms index parsed valid_key_length [OF assms(1)]
    unfolding owned_snapshot_temp_def trimmed Let_def index
    by (simp add: ends valid_key_def)
qed

lemma snapshot_name_not_temp:
  "\<not> owned_snapshot_temp (key @ snapshot_suffix)"
proof -
  have "\<not> has_suffix (key @ snapshot_suffix) temp_suffix"
    by (auto simp: has_suffix_iff snapshot_suffix_def temp_suffix_def)
  then show ?thesis by (simp add: owned_snapshot_temp_def)
qed


subsection \<open>The envelope\<close>

lemma length_put_le64 [simp]: "length (put_le64 n) = 8"
  by (simp add: put_le64_def)

lemma byte_list_Cons:
  "map (\<lambda>i. char_of ((n :: nat) div 256 ^ i)) [0..<Suc k] =
     char_of n # map (\<lambda>i. char_of (n div 256 div 256 ^ i)) [0..<k]"
  by (simp add: upt_conv_Cons div_mult2_eq flip: map_Suc_upt del: upt_Suc)

lemma le_value_digits: "le_value (map (\<lambda>i. char_of (n div 256 ^ i)) [0..<k]) = n mod 256 ^ k"
proof (induction k arbitrary: n)
  case (Suc k)
  then show ?case unfolding byte_list_Cons by (simp add: mod_mult2_eq)
qed simp

lemma get_put_le64: "n < 2 ^ 64 \<Longrightarrow> get_le64 (put_le64 n @ t) = n"
  using le_value_digits [of n 8] by (simp add: get_le64_def put_le64_def)

lemma char_of_low: "char_of (of_char c + 256 * n :: nat) = c"
  by (metis char_of_mod_256 char_of_char mod_mult_self2)

lemma put_get_le64: "length s = 8 \<Longrightarrow> put_le64 (le_value s) = s"
proof -
  have "map (\<lambda>i. char_of (le_value s div 256 ^ i)) [0..<length s] = s" for s
  proof (induction s)
    case (Cons c s)
    have "(of_char c + 256 * le_value s) div 256 = le_value s" by simp
    then show ?case using Cons unfolding list.size add_0_right add_Suc_right byte_list_Cons
      by (simp add: char_of_low)
  qed simp
  then show "length s = 8 \<Longrightarrow> put_le64 (le_value s) = s" by (metis put_le64_def)
qed

lemma bytes_equal [simp]: "bytes_equal l r \<longleftrightarrow> l = r"
  by (auto simp: bytes_equal_def list_all_iff intro: nth_equalityI)

lemma length_snapshot_magic [simp]: "length snapshot_magic = 8"
  by (simp add: snapshot_magic_def)

lemma copy_at_front:
  "length a = i \<Longrightarrow> length s \<le> length r \<Longrightarrow> copy_at i s (a @ r) = (a @ s) @ drop (length s) r"
  by (simp add: copy_at_def)

lemma envelope_parts:
  assumes "length (sha payload) = 32"
  shows "snapshot_envelope sha payload =
    snapshot_magic @ put_le64 (length payload mod 2 ^ 64) @ sha payload @ payload"
proof -
  let ?z = "char_of (0 :: nat)" and ?n = "put_le64 (length payload mod 2 ^ 64)"
  have "copy_at 0 snapshot_magic (replicate (48 + length payload) ?z) =
      snapshot_magic @ replicate (40 + length payload) ?z"
    using copy_at_front [of "[]" 0 snapshot_magic "replicate (48 + length payload) ?z"] by simp
  moreover have "copy_at 8 ?n (snapshot_magic @ replicate (40 + length payload) ?z) =
      (snapshot_magic @ ?n) @ replicate (32 + length payload) ?z"
    by (subst copy_at_front) simp_all
  moreover have "copy_at 16 (sha payload) ((snapshot_magic @ ?n) @ replicate (32 + length payload) ?z) =
      (snapshot_magic @ ?n @ sha payload) @ replicate (length payload) ?z"
    using assms by (subst copy_at_front) simp_all
  moreover have "copy_at 48 payload ((snapshot_magic @ ?n @ sha payload) @ replicate (length payload) ?z) =
      (snapshot_magic @ ?n @ sha payload) @ payload"
    using assms by (subst copy_at_front) simp_all
  moreover have "take 32 (sha payload) = sha payload" using assms by simp
  ultimately show ?thesis
    by (simp add: snapshot_envelope_def snapshot_header_size_def)
qed

lemma envelope_valid:
  assumes "length (sha payload) = 32" and "int (length payload) \<le> m" and "m \<le> max_i64 - int snapshot_header_size"
  shows "valid_snapshot_envelope sha (snapshot_envelope sha payload) m"
    and "envelope_payload (snapshot_envelope sha payload) = payload"
proof -
  have n: "length payload < 2 ^ 64" "int (length payload) + 48 < 2 ^ 63" and m: "m mod 2 ^ 64 = m"
    using assms(2,3) by (simp_all add: max_i64_def snapshot_header_size_def)
  then have fits: "i64 (int (length payload)) = int (length payload)"
      "i64 (48 + int (length payload)) = 48 + int (length payload)"
    by (simp_all add: i64_id in_i64_def)
  show "valid_snapshot_envelope sha (snapshot_envelope sha payload) m"
    using n m fits assms get_put_le64 [OF n(1)] get_put_le64 [OF n(1), of "[]"]
    by (simp add: valid_snapshot_envelope_def envelope_parts slice_def snapshot_header_size_def Let_def)
  show "envelope_payload (snapshot_envelope sha payload) = payload"
    using n assms get_put_le64 [OF n(1)]
    by (simp add: envelope_payload_def envelope_parts slice_def snapshot_header_size_def Let_def)
qed

lemma valid_is_envelope:
  assumes "valid_snapshot_envelope sha data m" and "\<And>x. length (sha x) = 32"
    and "0 \<le> m" "m \<le> max_i64 - int snapshot_header_size" and "int (length data) \<le> max_i64"
  shows "data = snapshot_envelope sha (envelope_payload data)"
    and "int (length (envelope_payload data)) \<le> m"
proof -
  define size where "size = le_value (take 8 (drop 8 data))"
  have l: "48 \<le> length data" and magic: "take 8 data = snapshot_magic"
    using assms(1) by (simp_all add: valid_snapshot_envelope_def snapshot_header_size_def split: if_splits)
  have size': "get_le64 (slice 8 16 data) = size" "get_le64 (slice 8 48 data) = size"
    by (simp_all add: get_le64_def slice_def size_def drop_take)
  have checks: "int size \<le> m mod 2 ^ 64" "size \<le> length data - 48"
      "i64 (48 + i64 (int size)) = int (length data)" "slice 16 48 data = sha (drop 48 data)"
    using assms(1) size'(1)
    by (simp_all add: valid_snapshot_envelope_def snapshot_header_size_def Let_def split: if_splits)
  have m: "m mod 2 ^ 64 = m" "m + 48 < 2 ^ 63"
    using assms(3,4) by (simp_all add: max_i64_def snapshot_header_size_def)
  have "length data = 48 + size"
    using checks(1,3) m by (simp add: i64_id in_i64_def)
  then have payload: "envelope_payload data = drop 48 data" and len: "length (drop 48 data) = size"
    by (simp_all add: envelope_payload_def size'(2) snapshot_header_size_def slice_def [of 48])
  show "int (length (envelope_payload data)) \<le> m" using payload len checks(1) m by simp
  have "size mod 2 ^ 64 = size" using checks(1) m by simp
  moreover have "put_le64 size = take 8 (drop 8 data)"
    unfolding size_def using l by (intro put_get_le64) simp
  moreover have "data = take 8 data @ take 8 (drop 8 data) @ slice 16 48 data @ drop 48 data"
  proof -
    have "slice 16 48 data @ drop 48 data = drop 16 data"
      using append_take_drop_id [of 32 "drop 16 data"] by (simp add: slice_def drop_take)
    moreover have "take 8 (drop 8 data) @ drop 16 data = drop 8 data"
      using append_take_drop_id [of 8 "drop 8 data"] by simp
    ultimately show ?thesis using append_take_drop_id [of 8 data] by metis
  qed
  ultimately show "data = snapshot_envelope sha (envelope_payload data)"
    using magic checks(4) len assms(2) by (metis envelope_parts payload)
qed

end
