(* ===== verification/Cache_Pool.thy ===== *)
theory Cache_Pool
  imports Cache_Format Go_Effects Go_Maps Go_Paths
begin

text \<open>
  The snapshot pool (\<^verbatim>\<open>internal/contextcache/cache.go\<close>) over a modelled directory tree:
  the capacity lock, recovery of abandoned temporary files, the bounded scan, eviction,
  publication and reading.

  The holder of the lock owns the tree, so nothing else changes it during an operation.
  Everything else the environment may do is a function of the number of calls made so far
  (record \<open>cache_env\<close>): any call may fail, the context may be cancelled at any poll, the
  lock may be held by another process, a write may be short, time may pass, the policy's
  validator may refuse (the policy itself only says whether it has one). Directory
  listings keep the order of the tree. Handles are not modelled; an unlock releases the
  lock even when it reports an error, because the descriptor is closed after it.

  The two loops that wait or evict carry a count of rounds; \<open>OutOfRounds\<close> is no error of
  the code, and no operation returns it.
\<close>

section \<open>Data\<close>

datatype fs_node = RegFile string int | Folder "(string \<times> fs_node) list" | SymLink | Special

datatype cache_error =
    InvalidPolicy string
  | PolicyError string
  | CapacityExceeded capacity_error
  | LockTimeout
  | ScanLimit string
  | SymlinkRefused string
  | BadSnapshotKey
  | ShortWrite
  | UnexpectedEOF
  | OsFailed
  | Cancelled
  | Joined "cache_error list"
  | OutOfRounds

datatype flock_answer = Acquired | Busy | FlockFailed

record cache_env =
  ev_fails :: "nat \<Rightarrow> bool"
  ev_cancelled :: "nat \<Rightarrow> bool"
  ev_flock :: "nat \<Rightarrow> flock_answer"
  ev_delay :: "nat \<Rightarrow> nat"
  ev_moved :: "nat \<Rightarrow> nat"
  ev_validate :: "nat \<Rightarrow> cache_error option"
  ev_sha :: "string \<Rightarrow> string"

record cache_policy =
  pl_cap :: int
  pl_validate :: bool

record lease =
  le_policy :: cache_policy
  le_usage :: usage
  le_done :: bool

record pool_state =
  ps_root :: "fs_node option"
  ps_locked :: bool
  ps_lease :: lease
  ps_tick :: nat
  ps_now :: int
  ps_scan :: usage
  ps_seen :: int

type_synonym 'a pool_comp = "(pool_state, cache_error, 'a) comp"

section \<open>The environment and the tree\<close>

definition pool_tick :: "cache_env \<Rightarrow> pool_state \<Rightarrow> pool_state" where
  "pool_tick E s = s\<lparr>ps_tick := Suc (ps_tick s), ps_now := ps_now s + int (ev_delay E (ps_tick s))\<rparr>"

text \<open>A call of the operating system that may fail, and a poll of the context.\<close>

definition os_call :: "cache_env \<Rightarrow> unit pool_comp" where
  "os_call E = (\<lambda>s. (if ev_fails E (ps_tick s) then Inl OsFailed else Inr (), pool_tick E s))"

definition ctx_poll :: "cache_env \<Rightarrow> unit pool_comp" where
  "ctx_poll E = (\<lambda>s. (if ev_cancelled E (ps_tick s) then Inl Cancelled else Inr (), pool_tick E s))"

fun folder_entries :: "fs_node option \<Rightarrow> (string \<times> fs_node) list" where
  "folder_entries (Some (Folder es)) = es"
| "folder_entries _ = []"

definition root_entries :: "pool_state \<Rightarrow> (string \<times> fs_node) list" where
  "root_entries s = folder_entries (ps_root s)"

definition snap_node :: "pool_state \<Rightarrow> fs_node option" where
  "snap_node s = map_of (root_entries s) snapshot_dir"

definition snap_entries :: "pool_state \<Rightarrow> (string \<times> fs_node) list" where
  "snap_entries s = folder_entries (snap_node s)"

definition put_root :: "string \<Rightarrow> fs_node \<Rightarrow> pool_state \<Rightarrow> pool_state" where
  "put_root name x s = s\<lparr>ps_root := Some (Folder (map_put name x (root_entries s)))\<rparr>"

definition update_snaps ::
    "((string \<times> fs_node) list \<Rightarrow> (string \<times> fs_node) list) \<Rightarrow> pool_state \<Rightarrow> pool_state" where
  "update_snaps f s =
     (case snap_node s of
        Some (Folder es) \<Rightarrow> put_root snapshot_dir (Folder (f es)) s
      | _ \<Rightarrow> s)"

definition put_snap :: "string \<Rightarrow> fs_node \<Rightarrow> pool_state \<Rightarrow> pool_state" where
  "put_snap name x = update_snaps (map_put name x)"

definition del_snap :: "string \<Rightarrow> pool_state \<Rightarrow> pool_state" where
  "del_snap name = update_snaps (map_del name)"

text \<open>\<^verbatim>\<open>errors.Join\<close> of errors that may be nil, as the result of a function.\<close>

definition join_errors :: "cache_error option list \<Rightarrow> unit pool_comp" where
  "join_errors es =
     (let present = concat (map (\<lambda>e. case e of None \<Rightarrow> [] | Some x \<Rightarrow> [x]) es)
      in if present = [] then returnM () else failM (Joined present))"

text \<open>\<^verbatim>\<open>errors.Is(err, ErrCapacity)\<close>.\<close>

fun is_capacity :: "cache_error \<Rightarrow> bool" where
  "is_capacity (CapacityExceeded c) = True"
| "is_capacity (Joined es) = list_ex is_capacity es"
| "is_capacity _ = False"

section \<open>Root and lock\<close>

text \<open>\<^verbatim>\<open>MkdirAll\<close>: nothing happens when the directory exists.\<close>

definition make_root :: "pool_state \<Rightarrow> pool_state" where
  "make_root s = (case ps_root s of None \<Rightarrow> s\<lparr>ps_root := Some (Folder [])\<rparr> | Some x \<Rightarrow> s)"

definition make_snap_dir :: "pool_state \<Rightarrow> pool_state" where
  "make_snap_dir s = (case snap_node s of None \<Rightarrow> put_root snapshot_dir (Folder []) s | Some x \<Rightarrow> s)"

definition ensure_root :: "cache_env \<Rightarrow> unit pool_comp" where
  "ensure_root E =
     bindM (os_call E) (\<lambda>_. bindM (getM ps_root) (\<lambda>info.
       case info of
         Some SymLink \<Rightarrow> failM (SymlinkRefused ''pool root'')
       | Some (Folder es) \<Rightarrow> returnM ()
       | Some _ \<Rightarrow> failM (InvalidPolicy ''pool root is not a directory'')
       | None \<Rightarrow>
           bindM (os_call E) (\<lambda>_. bindM (modifyM make_root) (\<lambda>_.
           os_call E))))"

fun acquire_loop :: "cache_env \<Rightarrow> cache_options \<Rightarrow> int \<Rightarrow> nat \<Rightarrow> unit pool_comp" where
  "acquire_loop E opts deadline 0 = failM OutOfRounds"
| "acquire_loop E opts deadline (Suc rounds) =
     bindM (getM (\<lambda>s. ev_flock E (ps_tick s))) (\<lambda>answer. bindM (modifyM (pool_tick E)) (\<lambda>_.
       case answer of
         Acquired \<Rightarrow> modifyM (\<lambda>s. s\<lparr>ps_locked := True\<rparr>)
       | FlockFailed \<Rightarrow> failM OsFailed
       | Busy \<Rightarrow>
           bindM (mapErrM (\<lambda>e. Joined [LockTimeout, e]) (ctx_poll E)) (\<lambda>_.
           bindM (getM ps_now) (\<lambda>now.
           bindM (guardM (now < deadline) LockTimeout) (\<lambda>_.
           bindM (mapErrM (\<lambda>e. Joined [LockTimeout, e]) (ctx_poll E)) (\<lambda>_.
           bindM (modifyM (\<lambda>s. s\<lparr>ps_now := ps_now s + op_lock_poll opts\<rparr>)) (\<lambda>_.
           acquire_loop E opts deadline rounds)))))))"

text \<open>
  One round more than the polls that fit into the wait, and one for the clock read at the
  deadline.
\<close>

definition acquire_rounds :: "cache_options \<Rightarrow> nat" where
  "acquire_rounds opts = nat (op_lock_wait opts div op_lock_poll opts) + 2"

definition acquire :: "cache_env \<Rightarrow> cache_options \<Rightarrow> unit pool_comp" where
  "acquire E opts =
     bindM (os_call E) (\<lambda>_. bindM (getM (\<lambda>s. map_of (root_entries s) lock_name)) (\<lambda>info.
     bindM (guardM (info \<noteq> Some SymLink) (SymlinkRefused ''capacity lock'')) (\<lambda>_.
     bindM (os_call E) (\<lambda>_.
     bindM (case info of
              Some (Folder es) \<Rightarrow> failM OsFailed
            | None \<Rightarrow> modifyM (\<lambda>s. put_root lock_name (RegFile [] (ps_now s)) s)
            | _ \<Rightarrow> returnM ()) (\<lambda>_.
     bindM (getM ps_now) (\<lambda>now.
     acquire_loop E opts (now + op_lock_wait opts) (acquire_rounds opts)))))))"

definition release :: "unit pool_comp" where
  "release = modifyM (\<lambda>s. s\<lparr>ps_locked := False\<rparr>)"

section \<open>The bounded scan\<close>

definition account :: "fs_node \<Rightarrow> unit pool_comp" where
  "account x =
     bindM (modifyM (\<lambda>s. s\<lparr>ps_scan := (ps_scan s)\<lparr>us_entries := us_entries (ps_scan s) + 1\<rparr>\<rparr>)) (\<lambda>_.
       case x of
         RegFile c t \<Rightarrow>
           bindM (getM (\<lambda>s. us_bytes (ps_scan s))) (\<lambda>b.
           bindM (guardM (\<not> b > max_i64 - int (length c)) (ScanLimit ''byte total overflow'')) (\<lambda>_.
           modifyM (\<lambda>s. s\<lparr>ps_scan := (ps_scan s)\<lparr>us_bytes := b + int (length c),
             us_files := us_files (ps_scan s) + 1\<rparr>\<rparr>)))
       | _ \<Rightarrow> returnM ())"

text \<open>The entry of a directory: polls, the depth bound, and the entry bound on its listing.\<close>

definition enter_dir :: "cache_env \<Rightarrow> cache_options \<Rightarrow> int \<Rightarrow> nat \<Rightarrow> unit pool_comp" where
  "enter_dir E opts depth entries =
     bindM (ctx_poll E) (\<lambda>_.
     bindM (guardM (\<not> depth > op_scan_depth opts) (ScanLimit ''depth bound exceeded'')) (\<lambda>_.
     bindM (os_call E) (\<lambda>_. bindM (ctx_poll E) (\<lambda>_.
     bindM (getM (\<lambda>s. op_scan_entries opts - ps_seen s)) (\<lambda>remaining.
     bindM (os_call E) (\<lambda>_.
     guardM (if remaining \<le> 0 then entries = 0 else \<not> int entries > remaining)
       (ScanLimit ''entry bound exceeded'')))))))"

definition visit_node :: "cache_env \<Rightarrow> fs_node \<Rightarrow> unit pool_comp" where
  "visit_node E x =
     bindM (ctx_poll E) (\<lambda>_. bindM (modifyM (\<lambda>s. s\<lparr>ps_seen := ps_seen s + 1\<rparr>)) (\<lambda>_.
     bindM (os_call E) (\<lambda>_. bindM (guardM (x \<noteq> SymLink) (SymlinkRefused ''scan'')) (\<lambda>_.
     account x))))"

fun walk_entries :: "cache_env \<Rightarrow> cache_options \<Rightarrow> int \<Rightarrow> (string \<times> fs_node) list \<Rightarrow> unit pool_comp" where
  "walk_entries E opts depth [] = bindM (ctx_poll E) (\<lambda>_. os_call E)"
| "walk_entries E opts depth ((name, x) # es) =
     bindM (visit_node E x) (\<lambda>_.
     bindM (case x of
              Folder cs \<Rightarrow>
                bindM (enter_dir E opts (depth + 1) (length cs)) (\<lambda>_. walk_entries E opts (depth + 1) cs)
            | _ \<Rightarrow> returnM ()) (\<lambda>_.
     walk_entries E opts depth es))"

definition scan :: "cache_env \<Rightarrow> cache_options \<Rightarrow> unit pool_comp" where
  "scan E opts =
     bindM (modifyM (\<lambda>s. s\<lparr>ps_scan := \<lparr>us_bytes = 0, us_entries = 0, us_files = 0\<rparr>, ps_seen := 0\<rparr>)) (\<lambda>_.
     bindM (ctx_poll E) (\<lambda>_. bindM (os_call E) (\<lambda>_.
     bindM (getM root_entries) (\<lambda>es.
     bindM (enter_dir E opts 0 (length es)) (\<lambda>_. walk_entries E opts 0 es)))))"

section \<open>Recovery and leases\<close>

definition snap_dir_entries :: "string \<Rightarrow> (string \<times> fs_node) list option pool_comp" where
  "snap_dir_entries what =
     bindM (getM snap_node) (\<lambda>info.
       case info of
         None \<Rightarrow> returnM None
       | Some (Folder es) \<Rightarrow> returnM (Some es)
       | Some SymLink \<Rightarrow> failM (SymlinkRefused what)
       | Some _ \<Rightarrow> failM (InvalidPolicy what))"

definition recover_entry :: "cache_env \<Rightarrow> string \<times> fs_node \<Rightarrow> unit pool_comp" where
  "recover_entry E e =
     bindM (ctx_poll E) (\<lambda>_.
       if \<not> owned_snapshot_temp (fst e) then returnM ()
       else bindM (os_call E) (\<lambda>_.
         case snd e of
           SymLink \<Rightarrow> failM (SymlinkRefused ''abandoned snapshot temp'')
         | RegFile c t \<Rightarrow> bindM (os_call E) (\<lambda>_. modifyM (del_snap (fst e)))
         | _ \<Rightarrow> failM (InvalidPolicy ''abandoned snapshot temp is not regular'')))"

definition recover_temps :: "cache_env \<Rightarrow> cache_options \<Rightarrow> unit pool_comp" where
  "recover_temps E opts =
     bindM (os_call E) (\<lambda>_. bindM (snap_dir_entries ''snapshot directory'') (\<lambda>listing.
       case listing of
         None \<Rightarrow> returnM ()
       | Some es \<Rightarrow>
           bindM (os_call E) (\<lambda>_. bindM (ctx_poll E) (\<lambda>_. bindM (os_call E) (\<lambda>_.
           bindM (guardM (\<not> int (length es) > op_scan_entries opts) (ScanLimit ''recovery entry bound exceeded'')) (\<lambda>_.
           bindM (eachM (recover_entry E) es) (\<lambda>_. bindM (ctx_poll E) (\<lambda>_. os_call E))))))))"

definition policy_shape :: "cache_policy \<Rightarrow> unit pool_comp" where
  "policy_shape pol =
     guardM (\<not> (pl_cap pol < 0 \<or> \<not> pl_validate pol))
       (InvalidPolicy ''nonnegative capacity and nonnil validator are required'')"

definition validate_policy :: "cache_env \<Rightarrow> cache_policy \<Rightarrow> unit pool_comp" where
  "validate_policy E pol = (\<lambda>s.
     (if \<not> pl_validate pol then Inr ()
      else case ev_validate E (ps_tick s) of None \<Rightarrow> Inr () | Some e \<Rightarrow> Inl e, pool_tick E s))"

definition begin_checks :: "cache_env \<Rightarrow> cache_options \<Rightarrow> cache_policy \<Rightarrow> unit pool_comp" where
  "begin_checks E opts pol =
     bindM (os_call E) (\<lambda>_. bindM (validate_policy E pol) (\<lambda>_. bindM (ctx_poll E) (\<lambda>_.
     bindM (recover_temps E opts) (\<lambda>_. bindM (scan E opts) (\<lambda>_.
     modifyM (\<lambda>s. s\<lparr>ps_lease := \<lparr>le_policy = pol, le_usage = ps_scan s, le_done = False\<rparr>\<rparr>))))))"

definition begin_mutation :: "cache_env \<Rightarrow> cache_options \<Rightarrow> cache_policy \<Rightarrow> unit pool_comp" where
  "begin_mutation E opts pol =
     bindM (policy_shape pol) (\<lambda>_. bindM (ctx_poll E) (\<lambda>_. bindM (ensure_root E) (\<lambda>_.
     bindM (acquire E opts) (\<lambda>_. bindM (attempt (begin_checks E opts pol)) (\<lambda>r.
       case r of None \<Rightarrow> returnM () | Some e \<Rightarrow> bindM release (\<lambda>_. failM e))))))"

definition check_open :: "unit pool_comp" where
  "check_open =
     bindM (getM ps_lease) (\<lambda>l. guardM (\<not> le_done l) (InvalidPolicy ''mutation is closed''))"

definition refresh :: "cache_env \<Rightarrow> cache_options \<Rightarrow> usage pool_comp" where
  "refresh E opts =
     bindM check_open (\<lambda>_. bindM (scan E opts) (\<lambda>_.
     bindM (modifyM (\<lambda>s. s\<lparr>ps_lease := (ps_lease s)\<lparr>le_usage := ps_scan s\<rparr>\<rparr>)) (\<lambda>_.
     getM ps_scan)))"

definition ensure_fits :: "cache_env \<Rightarrow> cache_options \<Rightarrow> cache_admission \<Rightarrow> unit pool_comp" where
  "ensure_fits E opts a =
     bindM check_open (\<lambda>_.
     bindM (guardM (\<not> (ad_temp_bytes a < 0 \<or> ad_temp_entries a < 0 \<or> ad_metadata_bytes a < 0 \<or> ad_metadata_entries a < 0))
       (InvalidPolicy ''negative mutation bounds'')) (\<lambda>_.
     bindM (refresh E opts) (\<lambda>u.
     bindM (getM (\<lambda>s. pl_cap (le_policy (ps_lease s)))) (\<lambda>cap.
     guardM (\<not> exceeds u a cap (op_scan_entries opts))
       (CapacityExceeded \<lparr>ce_cap = cap, ce_usage_bytes = us_bytes u, ce_usage_entries = us_entries u,
          ce_temp_bytes = ad_temp_bytes a, ce_temp_entries = ad_temp_entries a,
          ce_metadata_bytes = ad_metadata_bytes a, ce_metadata_entries = ad_metadata_entries a,
          ce_max_entries = op_scan_entries opts, ce_detail = []\<rparr>)))))"

text \<open>The verdict of \<^verbatim>\<open>Finish\<close>: the final scan and the capacity, before the lock is released.\<close>

definition finish_verdict :: "cache_env \<Rightarrow> cache_options \<Rightarrow> unit pool_comp" where
  "finish_verdict E opts =
     bindM (attempt (scan E opts)) (\<lambda>r.
     bindM (modifyM (\<lambda>s. s\<lparr>ps_lease := (ps_lease s)\<lparr>le_usage := ps_scan s, le_done := True\<rparr>\<rparr>)) (\<lambda>_.
     bindM (case r of None \<Rightarrow> returnM () | Some e \<Rightarrow> failM e) (\<lambda>_.
     bindM (getM ps_lease) (\<lambda>l.
     guardM (\<not> us_bytes (le_usage l) > pl_cap (le_policy l))
       (CapacityExceeded \<lparr>ce_cap = pl_cap (le_policy l), ce_usage_bytes = us_bytes (le_usage l),
          ce_usage_entries = us_entries (le_usage l), ce_temp_bytes = 0, ce_temp_entries = 0,
          ce_metadata_bytes = 0, ce_metadata_entries = 0, ce_max_entries = op_scan_entries opts,
          ce_detail = []\<rparr>)))))"

definition finish :: "cache_env \<Rightarrow> cache_options \<Rightarrow> unit pool_comp" where
  "finish E opts =
     bindM check_open (\<lambda>_.
     bindM (attempt (finish_verdict E opts)) (\<lambda>verdict.
     bindM release (\<lambda>_.
     bindM (attempt (os_call E)) (\<lambda>unlock_err.
     bindM (attempt (os_call E)) (\<lambda>close_err.
     bindM (attempt (os_call E)) (\<lambda>root_err.
     join_errors [verdict, unlock_err, close_err, root_err]))))))"

end
