(* ===== verification/Cache_Publish.thy ===== *)
theory Cache_Publish
  imports Cache_Pool
begin

text \<open>
  Publication, eviction and reading of snapshots (\<^verbatim>\<open>internal/contextcache/cache.go\<close>), on the
  pool of \<open>Cache_Pool\<close>. \<open>snapshot_publish\<close> is the whole operation with both of its cleanup
  closures: a failure before the temporary file exists finishes the lease, one after it
  also removes the file.
\<close>

section \<open>Candidates for eviction\<close>

record snapshot_candidate =
  sc_key :: string
  sc_rel :: string
  sc_when :: int

text \<open>The order of \<open>sortSnapshotCandidates\<close>: by time, then by path.\<close>

datatype eviction_rank = Rank (rank_when: int) (rank_rel: string)

instantiation eviction_rank :: linorder
begin

definition less_eviction_rank :: "eviction_rank \<Rightarrow> eviction_rank \<Rightarrow> bool" where
  "less_eviction_rank a b \<longleftrightarrow>
     (if rank_when a = rank_when b then rank_rel a < rank_rel b else rank_when a < rank_when b)"

definition less_eq_eviction_rank :: "eviction_rank \<Rightarrow> eviction_rank \<Rightarrow> bool" where
  "less_eq_eviction_rank a b \<longleftrightarrow> a < b \<or> a = b"

instance
proof
  fix a b c :: eviction_rank
  show "a < b \<longleftrightarrow> a \<le> b \<and> \<not> b \<le> a"
    by (cases a; cases b) (auto simp: less_eviction_rank_def less_eq_eviction_rank_def)
  show "a \<le> a" by (simp add: less_eq_eviction_rank_def)
  show "a \<le> b \<Longrightarrow> b \<le> c \<Longrightarrow> a \<le> c"
    by (cases a; cases b; cases c)
      (auto simp: less_eviction_rank_def less_eq_eviction_rank_def split: if_splits)
  show "a \<le> b \<Longrightarrow> b \<le> a \<Longrightarrow> a = b"
    by (cases a; cases b) (auto simp: less_eviction_rank_def less_eq_eviction_rank_def split: if_splits)
  show "a \<le> b \<or> b \<le> a"
    by (cases a; cases b) (auto simp: less_eviction_rank_def less_eq_eviction_rank_def)
qed

end

definition eviction_rank_of :: "snapshot_candidate \<Rightarrow> eviction_rank" where
  "eviction_rank_of c = Rank (sc_when c) (sc_rel c)"

definition sort_snapshot_candidates :: "snapshot_candidate list \<Rightarrow> snapshot_candidate list" where
  "sort_snapshot_candidates = sort_key eviction_rank_of"

text \<open>The path of a snapshot below the pool root.\<close>

definition snapshot_rel :: "string \<Rightarrow> string" where
  "snapshot_rel key = join_path [snapshot_dir, key @ snapshot_suffix]"

type_synonym candidates_found = "snapshot_candidate list \<times> int \<times> bool"

definition candidate_entry ::
    "cache_env \<Rightarrow> string \<Rightarrow> string \<times> fs_node \<Rightarrow> candidates_found \<Rightarrow> candidates_found pool_comp" where
  "candidate_entry E exclude e found =
     (case found of (result, snapshot_count, has_key) \<Rightarrow>
       bindM (ctx_poll E) (\<lambda>_.
         if \<not> has_suffix (fst e) snapshot_suffix then returnM found
         else case new_snapshot_key (trim_suffix (fst e) snapshot_suffix) of
             None \<Rightarrow> returnM found
           | Some candidate \<Rightarrow>
               if candidate = exclude then returnM (result, snapshot_count + 1, True)
               else bindM (os_call E) (\<lambda>_.
                 case snd e of
                   SymLink \<Rightarrow> failM (SymlinkRefused ''snapshot candidate'')
                 | RegFile c t \<Rightarrow>
                     returnM (result @ [\<lparr>sc_key = candidate, sc_rel = join_path [snapshot_dir, fst e], sc_when = t\<rparr>],
                       snapshot_count + 1, has_key)
                 | _ \<Rightarrow> failM (InvalidPolicy ''snapshot candidate''))))"

fun gather_candidates ::
    "cache_env \<Rightarrow> string \<Rightarrow> (string \<times> fs_node) list \<Rightarrow> candidates_found \<Rightarrow> candidates_found pool_comp" where
  "gather_candidates E exclude [] found = returnM found"
| "gather_candidates E exclude (e # es) found =
     bindM (candidate_entry E exclude e found) (\<lambda>found'. gather_candidates E exclude es found')"

definition snapshot_candidates ::
    "cache_env \<Rightarrow> cache_options \<Rightarrow> string \<Rightarrow> candidates_found pool_comp" where
  "snapshot_candidates E opts exclude =
     bindM (os_call E) (\<lambda>_. bindM (snap_dir_entries ''snapshot directory'') (\<lambda>listing.
       case listing of
         None \<Rightarrow> returnM ([], 0, False)
       | Some es \<Rightarrow>
           bindM (os_call E) (\<lambda>_. bindM (ctx_poll E) (\<lambda>_. bindM (os_call E) (\<lambda>_.
           bindM (guardM (\<not> int (length es) > op_scan_entries opts) (ScanLimit ''snapshot entry bound exceeded'')) (\<lambda>_.
           bindM (gather_candidates E exclude es ([], 0, False)) (\<lambda>found.
           bindM (ctx_poll E) (\<lambda>_. bindM (os_call E) (\<lambda>_.
           returnM (sort_snapshot_candidates (fst found), snd found))))))))))"

definition snapshot_admission :: "cache_env \<Rightarrow> int \<Rightarrow> cache_admission pool_comp" where
  "snapshot_admission E bytes =
     bindM (os_call E) (\<lambda>_. bindM (snap_dir_entries ''snapshot directory'') (\<lambda>listing.
     returnM \<lparr>ad_temp_bytes = bytes, ad_temp_entries = (if listing = None then 2 else 1),
       ad_metadata_bytes = 0, ad_metadata_entries = 0\<rparr>))"

text \<open>
  One round of the eviction loop: \<open>True\<close> when the snapshot fits, \<open>False\<close> after an eviction
  (or when the candidate has gone by itself).
\<close>

definition evict :: "cache_env \<Rightarrow> snapshot_candidate \<Rightarrow> bool pool_comp" where
  "evict E candidate =
     bindM (guardM (sc_rel candidate = snapshot_rel (sc_key candidate)) (InvalidPolicy ''snapshot candidate path'')) (\<lambda>_.
     bindM (os_call E) (\<lambda>_.
     bindM (getM (\<lambda>s. map_of (snap_entries s) (sc_key candidate @ snapshot_suffix))) (\<lambda>info.
       case info of
         None \<Rightarrow> returnM False
       | Some SymLink \<Rightarrow> failM (SymlinkRefused ''snapshot candidate'')
       | Some (RegFile c t) \<Rightarrow>
           bindM (os_call E) (\<lambda>_. bindM (modifyM (del_snap (sc_key candidate @ snapshot_suffix))) (\<lambda>_.
           returnM False))
       | Some _ \<Rightarrow> failM (InvalidPolicy ''snapshot candidate is not regular''))))"

definition room_decision ::
    "cache_env \<Rightarrow> cache_options \<Rightarrow> int \<Rightarrow> cache_admission \<Rightarrow> candidates_found \<Rightarrow> cache_error option \<Rightarrow>
     bool pool_comp" where
  "room_decision E opts needed admission found fits_err =
     (case found of (candidates, snapshot_count, has_key) \<Rightarrow>
       let count_full = (snapshot_count > op_snapshot_entries opts \<or>
             (\<not> has_key \<and> snapshot_count \<ge> op_snapshot_entries opts))
       in if fits_err = None \<and> \<not> count_full then returnM True
          else if fits_err \<noteq> None \<and> \<not> is_capacity (the fits_err) then failM (the fits_err)
          else (case candidates of
              [] \<Rightarrow>
                (case fits_err of
                   Some e \<Rightarrow> failM e
                 | None \<Rightarrow>
                     bindM (getM ps_lease) (\<lambda>l.
                     failM (CapacityExceeded \<lparr>ce_cap = pl_cap (le_policy l),
                       ce_usage_bytes = us_bytes (le_usage l), ce_usage_entries = us_entries (le_usage l),
                       ce_temp_bytes = needed, ce_temp_entries = ad_temp_entries admission,
                       ce_metadata_bytes = 0, ce_metadata_entries = 0,
                       ce_max_entries = op_scan_entries opts, ce_detail = ''snapshot count bound reached''\<rparr>)))
            | candidate # rest \<Rightarrow> evict E candidate))"

definition room_round :: "cache_env \<Rightarrow> cache_options \<Rightarrow> string \<Rightarrow> int \<Rightarrow> bool pool_comp" where
  "room_round E opts key needed =
     bindM (snapshot_admission E needed) (\<lambda>admission.
     bindM (snapshot_candidates E opts key) (\<lambda>found.
     bindM (attempt (ensure_fits E opts admission)) (\<lambda>fits_err.
     room_decision E opts needed admission found fits_err)))"

fun room_loop :: "cache_env \<Rightarrow> cache_options \<Rightarrow> string \<Rightarrow> int \<Rightarrow> nat \<Rightarrow> unit pool_comp" where
  "room_loop E opts key needed 0 = failM OutOfRounds"
| "room_loop E opts key needed (Suc rounds) =
     bindM (room_round E opts key needed) (\<lambda>fits.
       if fits then returnM () else room_loop E opts key needed rounds)"

text \<open>Every round but the last removes an entry of the snapshot directory.\<close>

definition make_snapshot_room :: "cache_env \<Rightarrow> cache_options \<Rightarrow> string \<Rightarrow> int \<Rightarrow> unit pool_comp" where
  "make_snapshot_room E opts key needed =
     bindM (getM (\<lambda>s. Suc (length (snap_entries s)))) (\<lambda>rounds. room_loop E opts key needed rounds)"

section \<open>Publication\<close>

fun create_temp_from :: "cache_env \<Rightarrow> string \<Rightarrow> nat \<Rightarrow> nat \<Rightarrow> string pool_comp" where
  "create_temp_from E key number 0 = failM (InvalidPolicy ''temporary name exhausted'')"
| "create_temp_from E key number (Suc left) =
     bindM (getM (\<lambda>s. temp_name key (ps_now s) number)) (\<lambda>name.
     bindM (os_call E) (\<lambda>_. bindM (getM snap_node) (\<lambda>dir.
       case dir of
         Some (Folder es) \<Rightarrow>
           if map_of es name = None then
             bindM (modifyM (\<lambda>s. put_snap name (RegFile [] (ps_now s)) s)) (\<lambda>_. returnM name)
           else create_temp_from E key (Suc number) left
       | _ \<Rightarrow> failM OsFailed)))"

definition create_temp :: "cache_env \<Rightarrow> string \<Rightarrow> string pool_comp" where
  "create_temp E key = create_temp_from E key 0 16"

text \<open>A write appends to the open temporary file; a failing one may have written a part.\<close>

definition append_temp :: "string \<Rightarrow> string \<Rightarrow> pool_state \<Rightarrow> pool_state" where
  "append_temp name chunk s =
     (case map_of (snap_entries s) name of
        Some (RegFile c t) \<Rightarrow> put_snap name (RegFile (c @ chunk) (ps_now s)) s
      | _ \<Rightarrow> s)"

function write_context :: "cache_env \<Rightarrow> string \<Rightarrow> string \<Rightarrow> unit pool_comp" where
  "write_context E name data =
     (if data = [] then returnM ()
      else bindM (ctx_poll E) (\<lambda>_.
        bindM (getM (\<lambda>s. min (ev_moved E (ps_tick s)) (length (take (32 * 1024) data)))) (\<lambda>n.
        bindM (modifyM (append_temp name (take n data))) (\<lambda>_.
        bindM (os_call E) (\<lambda>_.
        if n = 0 then failM ShortWrite else write_context E name (drop n data))))))"
  by pat_completeness auto
termination by (relation "measure (\<lambda>(E, name, data). length data)") auto

declare write_context.simps [simp del]

definition open_snapshot_dir :: "cache_env \<Rightarrow> unit pool_comp" where
  "open_snapshot_dir E =
     bindM (os_call E) (\<lambda>_. bindM (getM snap_node) (\<lambda>info.
     bindM (case info of
              None \<Rightarrow> modifyM make_snap_dir
            | Some (Folder es) \<Rightarrow> returnM ()
            | Some SymLink \<Rightarrow> returnM ()
            | Some _ \<Rightarrow> failM OsFailed) (\<lambda>_.
     bindM (os_call E) (\<lambda>_. bindM (getM snap_node) (\<lambda>info.
       case info of
         Some (Folder es) \<Rightarrow> returnM ()
       | _ \<Rightarrow> failM (SymlinkRefused ''snapshot directory''))))))"

definition prepare_temp :: "cache_env \<Rightarrow> cache_options \<Rightarrow> string \<Rightarrow> nat \<Rightarrow> string pool_comp" where
  "prepare_temp E opts key wire_len =
     bindM (os_call E) (\<lambda>_.
     bindM (make_snapshot_room E opts key (int wire_len)) (\<lambda>_.
     bindM (open_snapshot_dir E) (\<lambda>_.
     create_temp E key)))"

text \<open>\<^verbatim>\<open>Rename\<close> of the temporary file over the target; a directory is not replaced.\<close>

definition rename_temp :: "cache_env \<Rightarrow> string \<Rightarrow> string \<Rightarrow> unit pool_comp" where
  "rename_temp E temp target =
     bindM (os_call E) (\<lambda>_. bindM (getM (\<lambda>s. (map_of (snap_entries s) temp, map_of (snap_entries s) target))) (\<lambda>(src, dst).
       case (src, dst) of
         (None, _) \<Rightarrow> failM OsFailed
       | (_, Some (Folder es)) \<Rightarrow> failM OsFailed
       | (Some x, _) \<Rightarrow> modifyM (\<lambda>s. put_snap target x (del_snap temp s))))"

definition store_wire :: "cache_env \<Rightarrow> string \<Rightarrow> string \<Rightarrow> string \<Rightarrow> unit pool_comp" where
  "store_wire E key temp wire =
     bindM (write_context E temp wire) (\<lambda>_.
     bindM (os_call E) (\<lambda>_. bindM (os_call E) (\<lambda>_. bindM (os_call E) (\<lambda>_.
     bindM (getM (\<lambda>s. map_of (snap_entries s) (key @ snapshot_suffix))) (\<lambda>info.
     bindM (guardM (info \<noteq> Some SymLink) (SymlinkRefused ''snapshot target'')) (\<lambda>_.
     rename_temp E temp (key @ snapshot_suffix)))))))"

text \<open>The closures \<open>finishLease\<close> and \<open>finishTemp\<close> of the source.\<close>

definition finish_lease :: "cache_env \<Rightarrow> cache_options \<Rightarrow> cache_error option \<Rightarrow> unit pool_comp" where
  "finish_lease E opts operation_err =
     bindM (attempt (finish E opts)) (\<lambda>finish_err. join_errors [operation_err, finish_err])"

definition remove_temp :: "cache_env \<Rightarrow> string \<Rightarrow> unit pool_comp" where
  "remove_temp E temp = bindM (os_call E) (\<lambda>_. modifyM (del_snap temp))"

definition finish_temp ::
    "cache_env \<Rightarrow> cache_options \<Rightarrow> string \<Rightarrow> cache_error option \<Rightarrow> unit pool_comp" where
  "finish_temp E opts temp operation_err =
     bindM (if operation_err \<noteq> None then attempt (remove_temp E temp) else returnM None) (\<lambda>cleanup_err.
     bindM (attempt (finish E opts)) (\<lambda>finish_err.
     join_errors [operation_err, cleanup_err, finish_err]))"

definition publish_under_lease ::
    "cache_env \<Rightarrow> cache_options \<Rightarrow> string \<Rightarrow> string \<Rightarrow> unit pool_comp" where
  "publish_under_lease E opts key wire = (\<lambda>s.
     case prepare_temp E opts key (length wire) s of
       (Inl e, s') \<Rightarrow> finish_lease E opts (Some e) s'
     | (Inr temp, s') \<Rightarrow>
         bindM (attempt (store_wire E key temp wire)) (\<lambda>r. finish_temp E opts temp r) s')"

definition snapshot_publish ::
    "cache_env \<Rightarrow> cache_options \<Rightarrow> cache_policy \<Rightarrow> string \<Rightarrow> string \<Rightarrow> unit pool_comp" where
  "snapshot_publish E opts pol key encoded =
     bindM (policy_shape pol) (\<lambda>_.
     bindM (guardM (valid_key key) BadSnapshotKey) (\<lambda>_.
     bindM (guardM (\<not> int (length encoded) > op_snapshot_bytes opts)
       (CapacityExceeded \<lparr>ce_cap = pl_cap pol, ce_usage_bytes = 0, ce_usage_entries = 0,
          ce_temp_bytes = i64 (int snapshot_header_size + int (length encoded)), ce_temp_entries = 0,
          ce_metadata_bytes = 0, ce_metadata_entries = 0, ce_max_entries = 0,
          ce_detail = ''snapshot exceeds per-snapshot bound''\<rparr>)) (\<lambda>_.
     bindM (begin_mutation E opts pol) (\<lambda>_.
     publish_under_lease E opts key (snapshot_envelope (ev_sha E) encoded)))))"

section \<open>Reading\<close>

function read_context :: "cache_env \<Rightarrow> nat \<Rightarrow> unit pool_comp" where
  "read_context E remaining =
     (if remaining = 0 then returnM ()
      else bindM (ctx_poll E) (\<lambda>_.
        bindM (getM (\<lambda>s. min (ev_moved E (ps_tick s)) remaining)) (\<lambda>n.
        bindM (os_call E) (\<lambda>_.
        if n = 0 then failM UnexpectedEOF else read_context E (remaining - n)))))"
  by pat_completeness auto
termination by (relation "measure (\<lambda>(E, remaining). remaining)") auto

declare read_context.simps [simp del]

definition read_file :: "cache_env \<Rightarrow> cache_options \<Rightarrow> string \<Rightarrow> string option pool_comp" where
  "read_file E opts content =
     (if int (length content) < int snapshot_header_size \<or>
         int (length content) > i64 (int snapshot_header_size + op_snapshot_bytes opts) then returnM None
      else bindM (read_context E (length content)) (\<lambda>_.
        if valid_snapshot_envelope (ev_sha E) content (op_snapshot_bytes opts)
        then returnM (Some (envelope_payload content)) else returnM None))"

definition read_entry :: "cache_env \<Rightarrow> cache_options \<Rightarrow> string \<Rightarrow> string option pool_comp" where
  "read_entry E opts key =
     bindM (os_call E) (\<lambda>_. bindM (getM snap_node) (\<lambda>dir.
       case dir of
         None \<Rightarrow> returnM None
       | Some SymLink \<Rightarrow> failM (SymlinkRefused ''snapshot directory'')
       | Some (Folder es) \<Rightarrow>
           bindM (os_call E) (\<lambda>_.
             case map_of es (key @ snapshot_suffix) of
               None \<Rightarrow> returnM None
             | Some SymLink \<Rightarrow> failM (SymlinkRefused ''snapshot'')
             | Some (RegFile content t) \<Rightarrow>
                 bindM (os_call E) (\<lambda>_. bindM (os_call E) (\<lambda>_. read_file E opts content))
             | Some _ \<Rightarrow> failM (InvalidPolicy ''snapshot is not regular''))
       | Some _ \<Rightarrow> failM (InvalidPolicy ''snapshot directory is not a directory'')))"

definition snapshot_read :: "cache_env \<Rightarrow> cache_options \<Rightarrow> string \<Rightarrow> string option pool_comp" where
  "snapshot_read E opts key =
     bindM (guardM (valid_key key) BadSnapshotKey) (\<lambda>_.
     bindM (ctx_poll E) (\<lambda>_. bindM (os_call E) (\<lambda>_. bindM (getM ps_root) (\<lambda>info.
       case info of
         None \<Rightarrow> returnM None
       | Some SymLink \<Rightarrow> failM (SymlinkRefused ''pool root'')
       | Some (Folder es) \<Rightarrow> bindM (os_call E) (\<lambda>_. read_entry E opts key)
       | Some _ \<Rightarrow> failM OsFailed))))"

end
