(* ===== verification/Cache_Frame.thy ===== *)
theory Cache_Frame
  imports Cache_Publish
begin

text \<open>
  What the operations of the pool leave alone: files that are not the pool's
  (\<open>foreign\<close>), the lease (\<open>lease_view\<close>), everything but clocks and counters (\<open>core\<close>); how
  the lock moves; and that no operation runs out of rounds.
\<close>

section \<open>What the pool may touch\<close>

definition pool_owned :: "string \<Rightarrow> string \<Rightarrow> bool" where
  "pool_owned key name \<longleftrightarrow>
     owned_snapshot_temp name \<or>
     has_suffix name snapshot_suffix \<and> valid_key (trim_suffix name snapshot_suffix) \<or>
     has_prefix name (temp_prefix @ key @ ''-'') \<and> has_suffix name temp_suffix"

text \<open>
  The entries of the root beside the lock and the snapshot directory, the entries of the
  snapshot directory that are not the pool's, and what stands at its place when it is no
  directory.
\<close>

type_synonym foreign_view = "(string \<times> fs_node) list \<times> (string \<times> fs_node) list \<times> fs_node option"

definition foreign :: "string \<Rightarrow> fs_node option \<Rightarrow> foreign_view" where
  "foreign key r =
     (filter (\<lambda>e. fst e \<noteq> snapshot_dir \<and> fst e \<noteq> lock_name) (folder_entries r),
      case map_of (folder_entries r) snapshot_dir of
        None \<Rightarrow> ([], None)
      | Some (Folder es) \<Rightarrow> (filter (\<lambda>e. \<not> pool_owned key (fst e)) es, None)
      | Some x \<Rightarrow> ([], Some x))"

definition foreign_view :: "string \<Rightarrow> pool_state \<Rightarrow> foreign_view" where
  "foreign_view key s = foreign key (ps_root s)"

definition lease_view :: "pool_state \<Rightarrow> bool \<times> cache_policy \<times> bool" where
  "lease_view s = (ps_locked s, le_policy (ps_lease s), le_done (ps_lease s))"

definition core :: "pool_state \<Rightarrow> fs_node option \<times> bool \<times> lease" where
  "core s = (ps_root s, ps_locked s, ps_lease s)"

definition tree_view :: "pool_state \<Rightarrow> fs_node option \<times> bool \<times> cache_policy \<times> bool" where
  "tree_view s = (ps_root s, lease_view s)"

lemma core_parts:
  assumes "keeps core m"
  shows "keeps ps_root m" "keeps (foreign_view key) m" "keeps lease_view m" "keeps snap_node m"
    "keeps snap_entries m" "keeps root_entries m" "keeps ps_lease m" "keeps tree_view m" "keeps ps_locked m"
proof -
  show "keeps ps_root m" using assms by (rule keeps_part [of _ _ _ fst]) (simp add: core_def)
  show "keeps (foreign_view key) m"
    using assms by (rule keeps_part [of _ _ _ "\<lambda>c. foreign key (fst c)"]) (simp add: core_def foreign_view_def)
  show "keeps lease_view m"
    using assms
    by (rule keeps_part [of _ _ _ "\<lambda>c. (fst (snd c), le_policy (snd (snd c)), le_done (snd (snd c)))"])
      (simp add: core_def lease_view_def)
  show "keeps snap_node m"
    using assms by (rule keeps_part [of _ _ _ "\<lambda>c. map_of (folder_entries (fst c)) snapshot_dir"])
      (simp add: core_def snap_node_def root_entries_def)
  show "keeps snap_entries m"
    using assms
    by (rule keeps_part [of _ _ _ "\<lambda>c. folder_entries (map_of (folder_entries (fst c)) snapshot_dir)"])
      (simp add: core_def snap_entries_def snap_node_def root_entries_def)
  show "keeps root_entries m"
    using assms by (rule keeps_part [of _ _ _ "\<lambda>c. folder_entries (fst c)"])
      (simp add: core_def root_entries_def)
  show "keeps ps_lease m" using assms by (rule keeps_part [of _ _ _ "\<lambda>c. snd (snd c)"]) (simp add: core_def)
  show "keeps ps_locked m" using assms by (rule keeps_part [of _ _ _ "\<lambda>c. fst (snd c)"]) (simp add: core_def)
  show "keeps tree_view m"
    using assms
    by (rule keeps_part [of _ _ _ "\<lambda>c. (fst c, fst (snd c), le_policy (snd (snd c)), le_done (snd (snd c)))"])
      (simp add: core_def tree_view_def lease_view_def)
qed

lemma tree_parts:
  assumes "keeps tree_view m"
  shows "keeps ps_root m" "keeps (foreign_view key) m" "keeps lease_view m" "keeps snap_entries m"
proof -
  show "keeps ps_root m" using assms by (rule keeps_part [of _ _ _ fst]) (simp add: tree_view_def)
  show "keeps (foreign_view key) m"
    using assms by (rule keeps_part [of _ _ _ "\<lambda>c. foreign key (fst c)"]) (simp add: tree_view_def foreign_view_def)
  show "keeps lease_view m" using assms by (rule keeps_part [of _ _ _ snd]) (simp add: tree_view_def)
  show "keeps snap_entries m"
    using assms
    by (rule keeps_part [of _ _ _ "\<lambda>c. folder_entries (map_of (folder_entries (fst c)) snapshot_dir)"])
      (simp add: tree_view_def snap_entries_def snap_node_def root_entries_def)
qed

section \<open>Operations that only read\<close>

lemma pool_tick_core [simp]: "core (pool_tick E s) = core s"
  by (simp add: core_def pool_tick_def)

lemma keeps_os_call [keeping]: "keeps core (os_call E)" "keeps core (ctx_poll E)" "keeps core (modifyM (pool_tick E))"
  by (simp_all add: keeps_def os_call_def ctx_poll_def modifyM_def)

lemma keeps_validate [keeping]: "keeps core (validate_policy E pol)"
  by (simp add: keeps_def validate_policy_def)

lemma keeps_join [keeping]: "keeps f (join_errors es)"
  by (auto simp: join_errors_def Let_def intro: keeping)

lemma keeps_account [keeping]: "keeps core (account x)"
  unfolding account_def
  by (cases x) (auto simp: core_def intro!: keeping keeps_modify)

lemma keeps_enter [keeping]: "keeps core (enter_dir E opts d n)"
  unfolding enter_dir_def by (intro keeping)

lemma keeps_visit [keeping]: "keeps core (visit_node E x)"
  unfolding visit_node_def by (intro keeping keeps_modify) (simp add: core_def)

lemma keeps_walk [keeping]: "keeps core (walk_entries E opts d es)"
proof (induction E opts d es rule: walk_entries.induct)
  case (2 E opts d name x es)
  then show ?case by (cases x) (auto intro!: keeping)
qed (auto intro: keeping)

lemma keeps_scan [keeping]: "keeps core (scan E opts)"
  unfolding scan_def by (intro keeping keeps_modify) (simp add: core_def)

lemma keeps_listing [keeping]: "keeps core (snap_dir_entries what)"
  unfolding snap_dir_entries_def
  by (intro keeping) (auto split: option.splits fs_node.splits intro: keeping)

lemma keeps_shape [keeping]: "keeps core (policy_shape pol)"
  unfolding policy_shape_def by (intro keeping)

lemma keeps_check_open [keeping]: "keeps core check_open"
  unfolding check_open_def by (intro keeping)

lemma keeps_candidate [keeping]: "keeps core (candidate_entry E exclude e found)"
  unfolding candidate_entry_def
  by (cases found) (auto intro!: keeping split: option.splits fs_node.splits)

lemma keeps_gather [keeping]: "keeps core (gather_candidates E exclude es found)"
  by (induction es arbitrary: found) (auto intro!: keeping)

lemma keeps_candidates [keeping]: "keeps core (snapshot_candidates E opts exclude)"
  unfolding snapshot_candidates_def
  by (intro keeping) (auto intro!: keeping split: option.splits)

lemma keeps_admission [keeping]: "keeps core (snapshot_admission E n)"
  unfolding snapshot_admission_def by (intro keeping)

lemma keeps_read_context [keeping]: "keeps core (read_context E n)"
  by (induction E n rule: read_context.induct) (subst read_context.simps, auto intro!: keeping)

text \<open>Reading a snapshot changes nothing.\<close>

lemma keeps_snapshot_read: "keeps core (snapshot_read E opts key)"
proof -
  have "keeps core (read_file E opts c)" for c
    unfolding read_file_def by (intro keeping)
  then have "keeps core (read_entry E opts key)"
    unfolding read_entry_def
    by (intro keeping) (auto intro!: keeping split: option.splits fs_node.splits)
  then show ?thesis
    unfolding snapshot_read_def
    by (intro keeping) (auto intro!: keeping split: option.splits fs_node.splits)
qed

text \<open>So they keep every part of the core.\<close>

lemmas reads = keeps_os_call keeps_validate keeps_scan keeps_listing keeps_shape keeps_check_open
  keeps_candidates keeps_admission
lemmas foreign_reads [keeping] = reads [THEN core_parts(2)]
lemmas lease_reads [keeping] = reads [THEN core_parts(3)]
lemmas snap_reads [keeping] = reads [THEN core_parts(5)]
lemmas tree_reads [keeping] = reads [THEN core_parts(8)]

section \<open>The tree under the lease\<close>

lemma keeps_refresh [keeping]: "keeps tree_view (refresh E opts)"
  unfolding refresh_def
  by (intro keeping keeps_modify) (simp add: tree_view_def lease_view_def)

lemma keeps_fits [keeping]: "keeps tree_view (ensure_fits E opts a)"
  unfolding ensure_fits_def by (intro keeping)

lemmas tree_ops = keeps_refresh keeps_fits
lemmas tree_ops_keep [keeping] = tree_ops [THEN tree_parts(2)] tree_ops [THEN tree_parts(3)]
  tree_ops [THEN tree_parts(4)]

lemma put_root_entries [simp]: "root_entries (put_root n x s) = map_put n x (root_entries s)"
  by (simp add: put_root_def root_entries_def)

lemma put_root_lease [simp]: "lease_view (put_root n x s) = lease_view s"
  by (simp add: put_root_def lease_view_def)

lemma snap_node_put [simp]:
  "snap_node (put_root n x s) = (if n = snapshot_dir then Some x else snap_node s)"
  by (simp add: snap_node_def assoc.look_put)

lemma update_snaps_lease [simp]: "lease_view (update_snaps f s) = lease_view s"
  by (simp add: update_snaps_def split: option.splits fs_node.splits)

lemma snap_entries_update:
  "f [] = [] \<or> (\<exists>es. snap_node s = Some (Folder es)) \<Longrightarrow> snap_entries (update_snaps f s) = f (snap_entries s)"
  by (auto simp: update_snaps_def snap_entries_def split: option.splits fs_node.splits)

lemma snap_entries_del [simp]: "snap_entries (del_snap n s) = map_del n (snap_entries s)"
  unfolding del_snap_def by (rule snap_entries_update) (simp add: map_del_def)

lemma snap_entries_put:
  "snap_node s = Some (Folder es) \<Longrightarrow> snap_entries (put_snap n x s) = map_put n x (snap_entries s)"
  unfolding put_snap_def by (rule snap_entries_update) simp

lemma names_differ [simp]: "lock_name \<noteq> snapshot_dir" "snapshot_dir \<noteq> lock_name"
  by (simp_all add: lock_name_def snapshot_dir_def)

lemma folder_entries_put [simp]: "folder_entries (ps_root (put_root n x s)) = map_put n x (root_entries s)"
  by (simp add: put_root_def)

lemma foreign_put_root:
  "n = snapshot_dir \<or> n = lock_name \<Longrightarrow>
     filter (\<lambda>e. fst e \<noteq> snapshot_dir \<and> fst e \<noteq> lock_name) (map_put n x es) =
     filter (\<lambda>e. fst e \<noteq> snapshot_dir \<and> fst e \<noteq> lock_name) es"
  by (auto simp: map_put_def intro!: filter_cong)

lemma foreign_lock [simp]: "foreign_view key (put_root lock_name x s) = foreign_view key s"
  by (simp add: foreign_view_def foreign_def foreign_put_root assoc.look_put root_entries_def)

lemma foreign_mkdir:
  "snap_node s = None \<Longrightarrow> foreign_view key (put_root snapshot_dir (Folder []) s) = foreign_view key s"
  by (simp add: foreign_view_def foreign_def foreign_put_root assoc.look_put snap_node_def root_entries_def)

lemma foreign_update:
  assumes "\<And>es. filter (\<lambda>e. \<not> pool_owned key (fst e)) (f es) = filter (\<lambda>e. \<not> pool_owned key (fst e)) es"
  shows "foreign_view key (update_snaps f s) = foreign_view key s"
  using assms
  by (auto simp: update_snaps_def foreign_view_def foreign_def foreign_put_root assoc.look_put
      snap_node_def root_entries_def split: option.splits fs_node.splits)

lemma foreign_put: "pool_owned key n \<Longrightarrow> foreign_view key (put_snap n x s) = foreign_view key s"
  unfolding put_snap_def by (rule foreign_update) (auto simp: map_put_def intro!: filter_cong)

lemma foreign_del: "pool_owned key n \<Longrightarrow> foreign_view key (del_snap n s) = foreign_view key s"
  unfolding del_snap_def by (rule foreign_update) (auto simp: map_del_def intro!: filter_cong)

lemma del_snap_lease [simp]: "lease_view (del_snap n s) = lease_view s"
  by (simp add: del_snap_def)

lemma put_snap_lease [simp]: "lease_view (put_snap n x s) = lease_view s"
  by (simp add: put_snap_def)


section \<open>The foreign files are kept\<close>

lemma foreign_make_root [simp]: "foreign_view key (make_root s) = foreign_view key s"
  by (simp add: make_root_def foreign_view_def foreign_def split: option.splits)

lemma foreign_make_snap_dir [simp]: "foreign_view key (make_snap_dir s) = foreign_view key s"
  by (simp add: make_snap_dir_def foreign_mkdir split: option.splits)

lemma owned_snapshot_name: "valid_key k \<Longrightarrow> pool_owned key (k @ snapshot_suffix)"
  by (simp add: pool_owned_def)

lemma owned_temp_name: "pool_owned key (temp_name key now n)"
proof -
  have "has_prefix (temp_name key now n) (temp_prefix @ key @ ''-'')"
    unfolding temp_name_def by (auto simp: has_prefix_iff)
  moreover have "has_suffix (temp_name key now n) temp_suffix"
    unfolding temp_name_def by (auto simp: has_suffix_iff)
  ultimately show ?thesis by (simp add: pool_owned_def)
qed

lemma foreign_lease [simp]: "foreign_view key (s\<lparr>ps_lease := l\<rparr>) = foreign_view key s"
  "foreign_view key (s\<lparr>ps_locked := b\<rparr>) = foreign_view key s"
  "foreign_view key (s\<lparr>ps_now := t\<rparr>) = foreign_view key s"
  by (simp_all add: foreign_view_def)

lemma foreign_ensure_root [keeping]: "keeps (foreign_view key) (ensure_root E)"
  unfolding ensure_root_def
  by (intro keeping) (auto intro!: keeping keeps_modify split: option.splits fs_node.splits)

lemma foreign_acquire_loop [keeping]: "keeps (foreign_view key) (acquire_loop E opts deadline n)"
  by (induction n)
    (auto intro!: keeping keeps_modify split: flock_answer.splits)

lemma foreign_acquire [keeping]: "keeps (foreign_view key) (acquire E opts)"
  unfolding acquire_def
  by (intro keeping)
    (auto intro!: keeping keeps_modify split: option.splits fs_node.splits)

lemma foreign_recover [keeping]: "keeps (foreign_view key) (recover_temps E opts)"
proof -
  have "keeps (foreign_view key) (recover_entry E e)" for e
    unfolding recover_entry_def
    by (intro keeping)
      (auto intro!: keeping keeps_modify foreign_del simp: pool_owned_def split: fs_node.splits)
  then show ?thesis
    unfolding recover_temps_def
    by (intro keeping) (auto intro!: keeping split: option.splits)
qed

lemma foreign_release [keeping]: "keeps (foreign_view key) release"
  unfolding release_def by (intro keeps_modify) simp

lemma foreign_begin [keeping]: "keeps (foreign_view key) (begin_mutation E opts pol)"
proof -
  have "keeps (foreign_view key) (begin_checks E opts pol)"
    unfolding begin_checks_def by (intro keeping keeps_modify) simp
  then show ?thesis
    unfolding begin_mutation_def
    by (intro keeping) (auto intro!: keeping split: option.splits)
qed

lemma foreign_finish [keeping]: "keeps (foreign_view key) (finish E opts)"
proof -
  have "keeps (foreign_view key) (finish_verdict E opts)"
    unfolding finish_verdict_def
    by (intro keeping keeps_modify) (auto intro!: keeping split: option.splits)
  then show ?thesis unfolding finish_def by (intro keeping)
qed

subsection \<open>Candidates are entries of the snapshot directory\<close>

definition is_candidate :: "(string \<times> fs_node) list \<Rightarrow> snapshot_candidate \<Rightarrow> bool" where
  "is_candidate es c \<longleftrightarrow> valid_key (sc_key c) \<and> sc_rel c = snapshot_rel (sc_key c) \<and>
     sc_key c @ snapshot_suffix \<in> fst ` set es"

lemma has_suffix_trim: "has_suffix s p \<Longrightarrow> trim_suffix s p @ p = s"
  by (auto simp: has_suffix_iff)

lemma candidate_entry_result:
  assumes "candidate_entry E exclude e (cs, n, h) s = (Inr (cs', n', h'), s')"
  shows "set cs' \<subseteq> set cs \<union> {c. is_candidate [e] c}"
  using assms has_suffix_trim [of "fst e" snapshot_suffix]
  by (auto simp: candidate_entry_def bindM_result is_candidate_def new_snapshot_key_Some snapshot_rel_def
      split: if_splits option.splits fs_node.splits)

lemma gather_candidates_result:
  assumes "gather_candidates E exclude es (cs, n, h) s = (Inr (cs', n', h'), s')"
    and "\<forall>c \<in> set cs. is_candidate all c" and "set es \<subseteq> set all"
  shows "\<forall>c \<in> set cs'. is_candidate all c"
  using assms
proof (induction es arbitrary: cs n h s)
  case (Cons e es)
  from Cons.prems(1) obtain cs1 n1 h1 s1 where
    step: "candidate_entry E exclude e (cs, n, h) s = (Inr (cs1, n1, h1), s1)"
    and rest: "gather_candidates E exclude es (cs1, n1, h1) s1 = (Inr (cs', n', h'), s')"
    by (auto simp: bindM_result)
  have "\<forall>c \<in> set cs1. is_candidate all c"
    using candidate_entry_result [OF step] Cons.prems(2,3) by (auto simp: is_candidate_def)
  then show ?case using Cons.IH [OF rest] Cons.prems(3) by simp
qed simp

lemma snapshot_candidates_result:
  assumes "snapshot_candidates E opts exclude s = (Inr (cs, n, h), s')"
  shows "\<forall>c \<in> set cs. is_candidate (snap_entries s) c"
proof -
  from assms obtain s1 listing s2 where s1: "os_call E s = (Inr (), s1)"
    and s2: "snap_dir_entries ''snapshot directory'' s1 = (Inr listing, s2)"
    and rest: "(case listing of None \<Rightarrow> returnM ([], 0, False)
       | Some es \<Rightarrow>
           bindM (os_call E) (\<lambda>_. bindM (ctx_poll E) (\<lambda>_. bindM (os_call E) (\<lambda>_.
           bindM (guardM (\<not> int (length es) > op_scan_entries opts) (ScanLimit ''snapshot entry bound exceeded'')) (\<lambda>_.
           bindM (gather_candidates E exclude es ([], 0, False)) (\<lambda>found.
           bindM (ctx_poll E) (\<lambda>_. bindM (os_call E) (\<lambda>_.
           returnM (sort_snapshot_candidates (fst found), snd found))))))))) s2 = (Inr (cs, n, h), s')"
    unfolding snapshot_candidates_def bindM_result by auto
  have core: "snap_entries s1 = snap_entries s"
    using keeps_result [OF core_parts(5) [OF keeps_os_call(1)] s1] .
  show ?thesis
  proof (cases listing)
    case None
    with rest show ?thesis by simp
  next
    case (Some es)
    then have "es = snap_entries s1"
      using s2 by (auto simp: snap_dir_entries_def bindM_result snap_entries_def
          split: option.splits fs_node.splits)
    moreover obtain s3 s4 cs0 n0 h0 where "gather_candidates E exclude es ([], 0, False) s3 = (Inr (cs0, n0, h0), s4)"
      and "cs = sort_snapshot_candidates cs0"
      using rest Some by (auto simp: bindM_result)
    ultimately show ?thesis
      using gather_candidates_result [where all = es and es = es and cs = "[]"] core
      by (simp add: sort_snapshot_candidates_def)
  qed
qed

end
