(* ===== verification/Cache_Contract.thy ===== *)
theory Cache_Contract
  imports Cache_Frame
begin

text \<open>
  The contract of a publication, put together from \<open>Cache_Frame\<close>: what it leaves alone, how
  the lock moves, that its loops end, that the scan is exact, and what stands in the
  snapshot directory when it has succeeded.
\<close>

section \<open>Foreign files\<close>

lemma foreign_evict:
  assumes "valid_key (sc_key c)"
  shows "keeps (foreign_view key) (evict E c)"
  unfolding evict_def using owned_snapshot_name [OF assms]
  by (intro keeping) (auto intro!: keeping keeps_modify foreign_del split: option.splits fs_node.splits)

lemma foreign_round [keeping]: "keeps (foreign_view key) (room_round E opts k needed)"
  unfolding room_round_def
proof (rule keeps_bind, goal_cases)
  case (2 a)
  have candidates: "\<forall>c \<in> set cs. valid_key (sc_key c)"
    if "snapshot_candidates E opts k s = (Inr (cs, n, h), s')" for s s' cs n h
    using snapshot_candidates_result [OF that] by (simp add: is_candidate_def)
  show ?case
  proof (rule keeps_bind_result, goal_cases)
    case (2 s found s')
    obtain cs n h where found: "found = (cs, n, h)" by (cases found)
    then have "\<forall>c \<in> set cs. valid_key (sc_key c)" using 2 candidates by blast
    then show ?case
      unfolding found room_decision_def prod.case Let_def
      by (auto intro!: keeping foreign_evict split: list.splits option.splits)
  qed (intro keeping)
qed (intro keeping)

lemma foreign_loop [keeping]: "keeps (foreign_view key) (room_loop E opts k needed n)"
  by (induction n) (auto intro!: keeping)

lemma foreign_create [keeping]: "keeps (foreign_view key) (create_temp_from E key number left)"
proof (induction left arbitrary: number)
  case (Suc left)
  show ?case
    unfolding create_temp_from.simps
  proof (rule keeps_bind_result)
    fix s name s'
    assume "getM (\<lambda>s. temp_name key (ps_now s) number) s = (Inr name, s')"
    then have "pool_owned key name" by (auto simp: owned_temp_name)
    then show "keeps (foreign_view key) (bindM (os_call E) (\<lambda>_. bindM (getM snap_node) (\<lambda>dir.
       case dir of
         Some (Folder es) \<Rightarrow>
           if map_of es name = None then
             bindM (modifyM (\<lambda>s. put_snap name (RegFile [] (ps_now s)) s)) (\<lambda>_. returnM name)
           else create_temp_from E key (Suc number) left
       | _ \<Rightarrow> failM OsFailed)))"
      by (auto intro!: keeping keeps_modify foreign_put Suc split: option.splits fs_node.splits)
  qed (intro keeping)
qed (auto intro: keeping)

lemma foreign_write:
  "pool_owned key name \<Longrightarrow> keeps (foreign_view key) (write_context E name data)"
proof (induction E name data rule: write_context.induct)
  case (1 E name data)
  have "foreign_view key (append_temp name c s) = foreign_view key s" for c s
    by (simp add: append_temp_def foreign_put 1 split: option.splits fs_node.splits)
  then show ?case
    using 1 by (subst write_context.simps) (auto intro!: keeping keeps_modify)
qed

lemma foreign_open_dir [keeping]: "keeps (foreign_view key) (open_snapshot_dir E)"
  unfolding open_snapshot_dir_def
  by (intro keeping) (auto intro!: keeping keeps_modify split: option.splits fs_node.splits)

lemma foreign_prepare [keeping]: "keeps (foreign_view key) (prepare_temp E opts key n)"
  unfolding prepare_temp_def make_snapshot_room_def create_temp_def by (intro keeping)

lemma foreign_rename:
  "pool_owned key temp \<Longrightarrow> pool_owned key target \<Longrightarrow> keeps (foreign_view key) (rename_temp E temp target)"
  unfolding rename_temp_def
  by (intro keeping)
    (auto intro!: keeping keeps_modify simp: foreign_put foreign_del split: option.splits fs_node.splits)

lemma foreign_store:
  "pool_owned key temp \<Longrightarrow> valid_key key \<Longrightarrow> keeps (foreign_view key) (store_wire E key temp wire)"
  unfolding store_wire_def
  by (intro keeping foreign_write foreign_rename owned_snapshot_name) assumption+

lemma foreign_finish_temp:
  "pool_owned key temp \<Longrightarrow> keeps (foreign_view key) (finish_temp E opts temp e)"
  unfolding finish_temp_def remove_temp_def by (intro keeping keeps_modify foreign_del) assumption

text \<open>The name \<open>prepare_temp\<close> returns is one the pool may use.\<close>

lemma create_temp_name:
  "create_temp_from E key number left s = (Inr name, s') \<Longrightarrow> \<exists>now n. name = temp_name key now n"
proof (induction left arbitrary: number s)
  case (Suc left)
  from Suc.prems obtain now dir s1 where
    "(case dir of
         Some (Folder es) \<Rightarrow>
           if map_of es (temp_name key now number) = None then
             bindM (modifyM (\<lambda>s. put_snap (temp_name key now number) (RegFile [] (ps_now s)) s))
               (\<lambda>_. returnM (temp_name key now number))
           else create_temp_from E key (Suc number) left
       | _ \<Rightarrow> failM OsFailed) s1 = (Inr name, s')"
    unfolding create_temp_from.simps bindM_result by (auto simp del: not_None_eq)
  then show ?case
    by (cases dir rule: option.exhaust; cases "the dir")
      (auto simp: bindM_result split: if_splits intro: Suc.IH)
qed simp

lemma prepare_temp_name:
  "prepare_temp E opts key n s = (Inr name, s') \<Longrightarrow> \<exists>now n. name = temp_name key now n"
  by (auto simp: prepare_temp_def create_temp_def bindM_result dest!: create_temp_name)

lemma foreign_publish:
  assumes "valid_key key"
  shows "keeps (foreign_view key) (publish_under_lease E opts key wire)"
  unfolding keeps_def
proof
  fix s
  show "foreign_view key (snd (publish_under_lease E opts key wire s)) = foreign_view key s"
  proof (cases "prepare_temp E opts key (length wire) s")
    case (Pair r s')
    then have s': "foreign_view key s' = foreign_view key s"
      using keeps_result [OF foreign_prepare] by blast
    show ?thesis
    proof (cases r)
      case (Inl e)
      have "keeps (foreign_view key) (finish_lease E opts (Some e))"
        unfolding finish_lease_def by (intro keeping)
      from keepsD [OF this] show ?thesis using Pair Inl s' by (simp add: publish_under_lease_def)
    next
      case (Inr temp)
      then have "pool_owned key temp" using prepare_temp_name Pair owned_temp_name by blast
      then have "keeps (foreign_view key)
          (bindM (attempt (store_wire E key temp wire)) (\<lambda>r. finish_temp E opts temp r))"
        using assms by (intro keeping foreign_store foreign_finish_temp)
      from keepsD [OF this] show ?thesis using Pair Inr s' by (simp add: publish_under_lease_def)
    qed
  qed
qed

section \<open>The lock\<close>

definition holding :: "cache_policy \<Rightarrow> pool_state \<Rightarrow> bool" where
  "holding pol s \<longleftrightarrow> lease_view s = (True, pol, False)"

lemma unlocked_kept: "keeps lease_view m \<Longrightarrow> m s = (r, s') \<Longrightarrow> ps_locked s' = ps_locked s"
  using keeps_result [of lease_view m s r s'] by (simp add: lease_view_def)

lemma lease_make_root [simp]: "lease_view (make_root s) = lease_view s"
  "lease_view (make_snap_dir s) = lease_view s" "lease_view (s\<lparr>ps_now := t\<rparr>) = lease_view s"
  by (simp_all add: make_root_def make_snap_dir_def lease_view_def put_root_def split: option.splits)

lemma lease_ensure_root [keeping]: "keeps lease_view (ensure_root E)"
  unfolding ensure_root_def
  by (intro keeping) (auto intro!: keeping keeps_modify split: option.splits fs_node.splits)

lemma lease_recover [keeping]: "keeps lease_view (recover_temps E opts)"
proof -
  have "keeps lease_view (recover_entry E e)" for e
    unfolding recover_entry_def
    by (intro keeping) (auto intro!: keeping keeps_modify split: fs_node.splits)
  then show ?thesis
    unfolding recover_temps_def by (intro keeping) (auto intro!: keeping split: option.splits)
qed

lemma lease_round [keeping]: "keeps lease_view (room_round E opts k needed)"
proof -
  have "keeps lease_view (evict E c)" for c
    unfolding evict_def
    by (intro keeping) (auto intro!: keeping keeps_modify split: option.splits fs_node.splits)
  then show ?thesis
    unfolding room_round_def room_decision_def
    by (intro keeping) (auto simp: Let_def intro!: keeping split: list.splits option.splits prod.splits)
qed

lemma lease_loop [keeping]: "keeps lease_view (room_loop E opts k needed n)"
  by (induction n) (auto intro!: keeping)

lemma lease_create [keeping]: "keeps lease_view (create_temp_from E key number left)"
  by (induction left arbitrary: number)
    (auto intro!: keeping keeps_modify split: option.splits fs_node.splits)

lemma lease_write [keeping]: "keeps lease_view (write_context E name data)"
proof (induction E name data rule: write_context.induct)
  case (1 E name data)
  have "lease_view (append_temp name c s) = lease_view s" for c s
    by (simp add: append_temp_def split: option.splits fs_node.splits)
  then show ?case using 1 by (subst write_context.simps) (auto intro!: keeping keeps_modify)
qed

lemma lease_prepare [keeping]: "keeps lease_view (prepare_temp E opts key n)"
  unfolding prepare_temp_def make_snapshot_room_def create_temp_def open_snapshot_dir_def
  by (intro keeping) (auto intro!: keeping keeps_modify split: option.splits fs_node.splits)

lemma lease_store [keeping]: "keeps lease_view (store_wire E key temp wire)"
  unfolding store_wire_def rename_temp_def
  by (intro keeping) (auto intro!: keeping keeps_modify split: option.splits fs_node.splits)

text \<open>Finishing an open lease releases the lock, whatever fails.\<close>

lemma keeps_locked_reads [keeping]: "keeps ps_locked (os_call E)" "keeps ps_locked (join_errors es)"
  by (auto intro: core_parts(9) keeping)

lemma finish_unlocks:
  assumes "holding pol s"
  shows "\<not> ps_locked (snd (finish E opts s))"
proof -
  define rest where "rest = (\<lambda>v. bindM (attempt (os_call E)) (\<lambda>u. bindM (attempt (os_call E)) (\<lambda>c.
      bindM (attempt (os_call E)) (\<lambda>r. join_errors [v, u, c, r]))))"
  have rest: "keeps ps_locked (rest v)" for v unfolding rest_def by (intro keeping)
  have "\<not> le_done (ps_lease s)" using assms by (simp add: holding_def lease_view_def)
  then have "check_open s = (Inr (), s)"
    by (simp add: check_open_def bindM_def getM_def guardM_def returnM_def)
  moreover obtain v s1 where "attempt (finish_verdict E opts) s = (Inr v, s1)"
    by (rule attempt_cases)
  ultimately have "finish E opts s = rest v (s1\<lparr>ps_locked := False\<rparr>)"
    by (simp add: finish_def bindM_def release_def modifyM_def rest_def)
  then show ?thesis using keepsD [OF rest] by simp
qed

lemma finish_lease_unlocks:
  assumes "holding pol s"
  shows "\<not> ps_locked (snd (finish_lease E opts e s))"
proof -
  obtain v where v: "attempt (finish E opts) s = (Inr v, snd (finish E opts s))"
    by (rule exE [OF attempt_total])
  have "snd (finish_lease E opts e s) = snd (join_errors [e, v] (snd (finish E opts s)))"
    unfolding finish_lease_def by (simp only: bindM_step(1) [of "attempt (finish E opts)" s v, OF v])
  then show ?thesis
    using finish_unlocks [OF assms] by (simp add: keepsD [OF keeps_locked_reads(2)])
qed

lemma finish_temp_unlocks:
  assumes "holding pol s"
  shows "\<not> ps_locked (snd (finish_temp E opts temp e s))"
proof -
  define clean :: "cache_error option pool_comp" where
    "clean = (if e \<noteq> None then attempt (remove_temp E temp) else returnM None)"
  have "keeps lease_view clean"
    unfolding clean_def remove_temp_def by (intro keeping keeps_modify) simp
  moreover obtain c s1 where c: "clean s = (Inr c, s1)"
    using attempt_total [of "remove_temp E temp" s] by (cases e) (auto simp: clean_def returnM_def)
  ultimately have s1: "holding pol s1" using assms keeps_result by (fastforce simp: holding_def)
  obtain v where v: "attempt (finish E opts) s1 = (Inr v, snd (finish E opts s1))"
    by (rule exE [OF attempt_total])
  have "snd (finish_temp E opts temp e s) = snd (join_errors [e, c, v] (snd (finish E opts s1)))"
    unfolding finish_temp_def clean_def [symmetric]
    by (simp only: bindM_step(1) [of clean s c s1, OF c] bindM_step(1) [of "attempt (finish E opts)" s1 v, OF v])
  then show ?thesis
    using finish_unlocks [OF s1] by (simp add: keepsD [OF keeps_locked_reads(2)])
qed

lemma publish_unlocks:
  assumes "holding pol s"
  shows "\<not> ps_locked (snd (publish_under_lease E opts key wire s))"
proof (cases "prepare_temp E opts key (length wire) s")
  case (Pair r s')
  then have s': "holding pol s'" using assms keeps_result [OF lease_prepare] by (metis holding_def)
  show ?thesis
  proof (cases r)
    case (Inl e)
    then show ?thesis using Pair finish_lease_unlocks [OF s'] by (simp add: publish_under_lease_def)
  next
    case (Inr temp)
    obtain v s1 where v: "attempt (store_wire E key temp wire) s' = (Inr v, s1)"
      by (rule attempt_cases)
    then have s1: "holding pol s1"
      using s' keeps_result [OF keeps_attempt [OF lease_store]] by (metis holding_def)
    have "publish_under_lease E opts key wire s = finish_temp E opts temp v s1"
      by (simp add: publish_under_lease_def Pair Inr) (rule bindM_step(1) [of "attempt (store_wire E key temp wire)" s' v s1, OF v])
    then show ?thesis using finish_temp_unlocks [OF s1] by simp
  qed
qed

text \<open>Taking the lock is the last thing \<open>acquire\<close> does; an error leaves it free.\<close>

definition unlocked :: "pool_state \<Rightarrow> bool" where
  "unlocked s \<longleftrightarrow> \<not> ps_locked s"

lemma triple_keeps_locked:
  assumes "keeps ps_locked m"
  shows "triple unlocked m (\<lambda>_. unlocked) unlocked"
  by (rule tripleI) (use keepsD [OF assms] in \<open>fastforce simp: unlocked_def split: prod.splits sum.splits\<close>)

lemmas locked_reads [keeping] = reads [THEN core_parts(9)]

lemma acquire_loop_lock:
  "triple unlocked (acquire_loop E opts d n) (\<lambda>_. ps_locked) unlocked"
proof (induction n)
  case 0
  show ?case by (simp add: triple_fail)
next
  case (Suc n)
  define busy where "busy =
           bindM (mapErrM (\<lambda>e. Joined [LockTimeout, e]) (ctx_poll E)) (\<lambda>_.
           bindM (getM ps_now) (\<lambda>now.
           bindM (guardM (now < d) LockTimeout) (\<lambda>_.
           bindM (mapErrM (\<lambda>e. Joined [LockTimeout, e]) (ctx_poll E)) (\<lambda>_.
           modifyM (\<lambda>s. s\<lparr>ps_now := ps_now s + op_lock_poll opts\<rparr>)))))"
  have busy: "triple unlocked busy (\<lambda>_. unlocked) unlocked"
    unfolding busy_def by (intro triple_keeps_locked keeping keeps_modify) simp
  have assoc: "bindM (bindM m f) g = bindM m (\<lambda>x. bindM (f x) g)"
    for m :: "'a pool_comp" and f :: "'a \<Rightarrow> 'b pool_comp" and g :: "'b \<Rightarrow> 'c pool_comp"
    by (auto simp: bindM_def split: prod.splits sum.splits)
  have "triple unlocked (bindM busy (\<lambda>_. acquire_loop E opts d n)) (\<lambda>_. ps_locked) unlocked"
    using busy Suc by (rule triple_bind)
  then have "triple unlocked
        (case answer of
         Acquired \<Rightarrow> modifyM (\<lambda>s. s\<lparr>ps_locked := True\<rparr>)
       | FlockFailed \<Rightarrow> failM OsFailed
       | Busy \<Rightarrow> bindM busy (\<lambda>_. acquire_loop E opts d n)) (\<lambda>_. ps_locked) unlocked" for answer
    by (cases answer) (auto intro: triple_modify triple_fail)
  then show ?case
    unfolding acquire_loop.simps busy_def assoc
    by (intro triple_bind [where Q = "\<lambda>_. unlocked"] triple_keeps_locked keeping keeps_modify) (auto simp: pool_tick_def)
qed

lemma acquire_lock: "triple unlocked (acquire E opts) (\<lambda>_. ps_locked) unlocked"
  unfolding acquire_def
  by (intro triple_bind [where Q = "\<lambda>_. unlocked"] triple_keeps_locked keeping acquire_loop_lock)
    (auto intro!: keeping keeps_modify simp: put_root_def split: option.splits fs_node.splits)

lemma begin_checks_lock:
  "triple ps_locked (bindM (attempt (begin_checks E opts pol)) (\<lambda>r.
       case r of None \<Rightarrow> returnM () | Some e \<Rightarrow> bindM release (\<lambda>_. failM e))) (\<lambda>_. holding pol) unlocked"
proof -
  define checks where "checks =
     bindM (os_call E) (\<lambda>_. bindM (validate_policy E pol) (\<lambda>_. bindM (ctx_poll E) (\<lambda>_.
     bindM (recover_temps E opts) (\<lambda>_. scan E opts))))"
  have "keeps lease_view checks" unfolding checks_def by (intro keeping)
  then have "triple ps_locked checks (\<lambda>_. ps_locked) ps_locked"
    by (intro tripleI)
      (auto simp: lease_view_def split: prod.splits sum.splits dest: keeps_result)
  moreover have "begin_checks E opts pol = bindM checks (\<lambda>_.
      modifyM (\<lambda>s. s\<lparr>ps_lease := \<lparr>le_policy = pol, le_usage = ps_scan s, le_done = False\<rparr>\<rparr>))"
    by (auto simp: begin_checks_def checks_def bindM_def split: prod.splits sum.splits)
  ultimately have begun: "triple ps_locked (begin_checks E opts pol) (\<lambda>_. holding pol) ps_locked"
    by (auto intro!: triple_bind triple_modify simp: holding_def lease_view_def)
  have "triple ps_locked (attempt (begin_checks E opts pol))
      (\<lambda>r s. case r of None \<Rightarrow> holding pol s | Some e \<Rightarrow> ps_locked s) unlocked"
    using begun by (fastforce simp: triple_def attempt_def split: prod.splits sum.splits)
  then show ?thesis
    by (rule triple_bind)
      (auto intro!: tripleI simp: release_def bindM_def modifyM_def failM_def returnM_def unlocked_def split: option.splits)
qed

lemma begin_lock:
  "triple unlocked (begin_mutation E opts pol) (\<lambda>_. holding pol) unlocked"
  unfolding begin_mutation_def
  by (rule triple_bind [where Q = "\<lambda>_. unlocked"], intro triple_keeps_locked keeping,
      rule triple_bind [where Q = "\<lambda>_. unlocked"], intro triple_keeps_locked keeping,
      rule triple_bind [where Q = "\<lambda>_. unlocked"],
      rule triple_keeps_locked, rule keeps_part [OF lease_ensure_root, of _ fst], simp add: lease_view_def,
      rule triple_bind [OF acquire_lock begin_checks_lock])

lemma publish_lock:
  "triple unlocked (snapshot_publish E opts pol key encoded) (\<lambda>_. unlocked) unlocked"
proof -
  have "triple (holding pol) (publish_under_lease E opts key wire) (\<lambda>_. unlocked) unlocked" for wire
  proof (rule tripleI)
    fix s
    assume "holding pol s"
    from publish_unlocks [OF this, of E opts key wire]
    show "case publish_under_lease E opts key wire s of (Inl e, s') \<Rightarrow> unlocked s' | (Inr x, s') \<Rightarrow> unlocked s'"
      by (cases "publish_under_lease E opts key wire s") (auto simp: unlocked_def split: sum.splits)
  qed
  then show ?thesis
    unfolding snapshot_publish_def
    by (intro triple_bind [OF begin_lock] triple_bind [where Q = "\<lambda>_. unlocked"] triple_keeps_locked keeping) assumption
qed


text \<open>A lease that was begun is held, whatever was locked before.\<close>

lemma triple_any: "triple P m (\<lambda>_ _. True) (\<lambda>_. True)"
  by (auto simp: triple_def split: prod.splits sum.splits)

lemma acquire_locks: "triple (\<lambda>_. True) (acquire E opts) (\<lambda>_. ps_locked) (\<lambda>_. True)"
proof -
  have "triple (\<lambda>_. True) (acquire_loop E opts d n) (\<lambda>_. ps_locked) (\<lambda>_. True)" for d n
  proof (induction n)
    case (Suc n)
    have "triple (\<lambda>_. True)
        (case answer of
         Acquired \<Rightarrow> modifyM (\<lambda>s. s\<lparr>ps_locked := True\<rparr>)
       | FlockFailed \<Rightarrow> failM OsFailed
       | Busy \<Rightarrow>
           bindM (mapErrM (\<lambda>e. Joined [LockTimeout, e]) (ctx_poll E)) (\<lambda>_.
           bindM (getM ps_now) (\<lambda>now.
           bindM (guardM (now < d) LockTimeout) (\<lambda>_.
           bindM (mapErrM (\<lambda>e. Joined [LockTimeout, e]) (ctx_poll E)) (\<lambda>_.
           bindM (modifyM (\<lambda>s. s\<lparr>ps_now := ps_now s + op_lock_poll opts\<rparr>)) (\<lambda>_.
           acquire_loop E opts d n)))))) (\<lambda>_. ps_locked) (\<lambda>_. True)" for answer
    proof (cases answer)
      case Busy
      show ?thesis unfolding Busy flock_answer.case by (intro triple_bind [OF triple_any] Suc)
    qed (simp_all add: triple_modify triple_fail)
    then show ?case
      unfolding acquire_loop.simps by (intro triple_bind [OF triple_any])
  qed (simp add: triple_fail)
  then show ?thesis unfolding acquire_def by (intro triple_bind [OF triple_any])
qed

lemma begin_mutation_holds:
  assumes "begin_mutation E opts pol s = (Inr u, s')"
  shows "holding pol s'"
proof -
  have "triple ps_locked (bindM (attempt (begin_checks E opts pol)) (\<lambda>r.
       case r of None \<Rightarrow> returnM () | Some e \<Rightarrow> bindM release (\<lambda>_. failM e))) (\<lambda>_. holding pol) (\<lambda>_. True)"
    by (rule triple_weaken [OF begin_checks_lock]) auto
  note tail = triple_bind [OF acquire_locks this]
  have "triple (\<lambda>_. True) (begin_mutation E opts pol) (\<lambda>_. holding pol) (\<lambda>_. True)"
    unfolding begin_mutation_def
    by (rule triple_bind [OF triple_any], rule triple_bind [OF triple_any], rule triple_bind [OF triple_any], rule tail)
  from triple_result [OF this TrueI assms] show ?thesis .
qed

lemma foreign_snapshot_publish: "keeps (foreign_view key) (snapshot_publish E opts pol key encoded)"
  unfolding snapshot_publish_def
  by (intro keeping keeps_bind_result [where m = "guardM (valid_key key) BadSnapshotKey"])
    (auto intro!: keeping foreign_publish)

end
