(* ===== verification/Cache_Rounds.thy ===== *)
theory Cache_Rounds
  imports Cache_Contract
begin

text \<open>
  The two waiting loops of the pool end: polling for the lock stops at its deadline, and
  every round of eviction but the last removes a snapshot. So no operation reports
  \<open>OutOfRounds\<close>, alone or joined to other errors.
\<close>

fun exhausted :: "cache_error \<Rightarrow> bool" where
  "exhausted OutOfRounds = True"
| "exhausted (Joined es) = list_ex exhausted es"
| "exhausted _ = False"

abbreviation ends :: "'a pool_comp \<Rightarrow> bool" where
  "ends \<equiv> avoids exhausted"

text \<open>A validator of the declaration loader returns errors of its own.\<close>

definition validator_ends :: "cache_env \<Rightarrow> bool" where
  "validator_ends E \<longleftrightarrow> (\<forall>t. case ev_validate E t of None \<Rightarrow> True | Some e \<Rightarrow> \<not> exhausted e)"

section \<open>Operations without loops of their own\<close>

lemma ends_os_call [avoiding]: "ends (os_call E)" "ends (ctx_poll E)"
  by (auto simp: avoids_def os_call_def ctx_poll_def)

lemma ends_validate: "validator_ends E \<Longrightarrow> ends (validate_policy E pol)"
  by (auto simp: avoids_def validate_policy_def validator_ends_def split: option.splits if_splits)

lemma ends_join:
  "(\<And>e. Some e \<in> set es \<Longrightarrow> \<not> exhausted e) \<Longrightarrow> ends (join_errors es)"
  by (auto simp: join_errors_def Let_def list_ex_iff intro!: avoiding split: option.splits)

lemma ends_attempt_bind:
  assumes "ends m" and "\<And>r. (\<And>e. r = Some e \<Longrightarrow> \<not> exhausted e) \<Longrightarrow> ends (g r)"
  shows "ends (bindM (attempt m) g)"
  unfolding avoids_def
proof (intro allI impI)
  fix s e s'
  assume run: "bindM (attempt m) g s = (Inl e, s')"
  obtain r s1 where r: "attempt m s = (Inr r, s1)" by (rule attempt_cases)
  then have "g r s1 = (Inl e, s')" using run by (simp add: bindM_def)
  moreover have "\<not> exhausted x" if "r = Some x" for x
    using avoidsD [OF assms(1), of s x s1] r that by (simp add: attempt_some)
  ultimately show "\<not> exhausted e" using avoidsD [OF assms(2)] by blast
qed

lemma ends_account [avoiding]: "ends (account x)"
  unfolding account_def by (cases x) (auto intro!: avoiding)

lemma ends_enter [avoiding]: "ends (enter_dir E opts d n)"
  unfolding enter_dir_def by (intro avoiding) simp_all

lemma ends_visit [avoiding]: "ends (visit_node E x)"
  unfolding visit_node_def by (intro avoiding) simp_all

lemma ends_walk [avoiding]: "ends (walk_entries E opts d es)"
proof (induction E opts d es rule: walk_entries.induct)
  case (2 E opts d name x es)
  then show ?case by (cases x) (auto intro!: avoiding)
qed (auto intro: avoiding)

lemma ends_scan [avoiding]: "ends (scan E opts)"
  unfolding scan_def by (intro avoiding)

lemma ends_listing [avoiding]: "ends (snap_dir_entries what)"
  unfolding snap_dir_entries_def
  by (intro avoiding) (auto split: option.splits fs_node.splits intro!: avoiding)

lemma ends_recover [avoiding]: "ends (recover_temps E opts)"
proof -
  have "ends (recover_entry E e)" for e
    unfolding recover_entry_def by (intro avoiding) (auto intro!: avoiding split: fs_node.splits)
  then show ?thesis
    unfolding recover_temps_def by (intro avoiding) (auto intro!: avoiding split: option.splits)
qed

lemma ends_check_open [avoiding]: "ends check_open"
  unfolding check_open_def by (intro avoiding) simp

lemma ends_fits [avoiding]: "ends (ensure_fits E opts a)"
  unfolding ensure_fits_def refresh_def by (intro avoiding) simp_all

lemma ends_finish [avoiding]: "ends (finish E opts)"
proof -
  have verdict: "ends (finish_verdict E opts)"
    unfolding finish_verdict_def
    by (rule ends_attempt_bind, rule avoiding) (auto intro!: avoiding split: option.splits)
  show ?thesis
    unfolding finish_def release_def
    by (intro avoids_bind ends_attempt_bind verdict avoiding ends_join) auto
qed

lemma ends_ensure_root [avoiding]: "ends (ensure_root E)"
  unfolding ensure_root_def
  by (intro avoiding) (auto intro!: avoiding split: option.splits fs_node.splits)

section \<open>The lock\<close>

lemma pool_tick_later: "ps_now s \<le> ps_now (pool_tick E s)"
  by (simp add: pool_tick_def)

lemma poll_later: "ctx_poll E s = (r, s') \<Longrightarrow> ps_now s \<le> ps_now s'" "os_call E s = (r, s') \<Longrightarrow> ps_now s \<le> ps_now s'"
  by (auto simp: ctx_poll_def os_call_def pool_tick_def)

lemma acquire_loop_ends:
  assumes "acquire_loop E opts d (Suc n) s = (Inl e, s')"
    and "0 < op_lock_poll opts" and "d \<le> ps_now s + int n * op_lock_poll opts"
  shows "\<not> exhausted e"
  using assms
proof (induction n arbitrary: s)
  case (0 s)
  let ?poll = "mapErrM (\<lambda>e. Joined [LockTimeout, e]) (ctx_poll E)"
  show ?case
  proof (cases "ev_flock E (ps_tick s)")
    case Busy
    have "d \<le> ps_now (pool_tick E s)" using 0(3) pool_tick_later [of s E] by simp
    moreover have "\<not> exhausted x" "ps_now t \<le> ps_now t'"
      if "?poll t = (Inl x, t')" for t x t'
      using that by (auto simp: mapErrM_def ctx_poll_def pool_tick_def split: if_splits)
    moreover have "ps_now t \<le> ps_now t'" if "?poll t = (Inr u, t')" for t u t'
      using that by (auto simp: mapErrM_def ctx_poll_def pool_tick_def split: if_splits)
    ultimately show ?thesis
      using 0(1) Busy
      by (auto simp: bindM_def getM_def modifyM_def guardM_def failM_def returnM_def not_less split: prod.splits sum.splits if_splits)
        (meson order.trans not_less)+
  qed (use 0(1) in \<open>auto simp: bindM_def getM_def modifyM_def failM_def\<close>)
next
  case (Suc n s)
  show ?case
  proof (cases "ev_flock E (ps_tick s)")
    case Busy
    define t where "t = (pool_tick E (pool_tick E (pool_tick E s)))\<lparr>ps_now := ps_now (pool_tick E (pool_tick E (pool_tick E s))) + op_lock_poll opts\<rparr>"
    have "ps_now s + op_lock_poll opts \<le> ps_now t"
      by (simp add: t_def pool_tick_def)
    then have "d \<le> ps_now t + int n * op_lock_poll opts" using Suc.prems(3) by (simp add: algebra_simps)
    then have IH: "acquire_loop E opts d (Suc n) t = (Inl e, s') \<Longrightarrow> \<not> exhausted e"
      using Suc.IH [of t] Suc.prems(2) by simp
    have "e = Joined [LockTimeout, Cancelled] \<or> e = LockTimeout \<or> acquire_loop E opts d (Suc n) t = (Inl e, s')"
      using Suc.prems(1) Busy
      unfolding acquire_loop.simps(2) [of E opts d "Suc n"]
      by (auto simp: bindM_def getM_def modifyM_def guardM_def failM_def returnM_def mapErrM_def ctx_poll_def t_def
          simp del: acquire_loop.simps split: if_splits)
    then show ?thesis using IH by auto
  qed (use Suc.prems(1) in \<open>auto simp: bindM_def getM_def modifyM_def failM_def\<close>)
qed

lemma ends_acquire:
  assumes "options_ok opts"
  shows "ends (acquire E opts)"
proof -
  have poll: "0 < op_lock_poll opts" and wait: "0 < op_lock_wait opts"
    using assms by (auto simp: options_ok_def)
  define n where "n = Suc (nat (op_lock_wait opts div op_lock_poll opts))"
  have "op_lock_wait opts - op_lock_poll opts * (op_lock_wait opts div op_lock_poll opts) < op_lock_poll opts"
    using poll by (simp only: minus_mult_div_eq_mod pos_mod_bound)
  moreover have "int n = op_lock_wait opts div op_lock_poll opts + 1"
    using poll wait by (simp add: n_def pos_imp_zdiv_nonneg_iff)
  ultimately have "op_lock_wait opts \<le> int n * op_lock_poll opts" by (simp add: algebra_simps)
  then have loop: "\<not> exhausted e" if "acquire_loop E opts (ps_now s + op_lock_wait opts) (acquire_rounds opts) s = (Inl e, s')" for s e s'
    using acquire_loop_ends [of E opts "ps_now s + op_lock_wait opts" n s e s'] that poll
    by (simp add: acquire_rounds_def n_def)
  have last: "ends (bindM (getM ps_now) (\<lambda>now. acquire_loop E opts (now + op_lock_wait opts) (acquire_rounds opts)))"
    using loop by (auto simp: avoids_def bindM_def getM_def)
  show ?thesis
    unfolding acquire_def
    by (intro avoids_bind last avoiding) (auto intro!: avoiding split: option.splits fs_node.splits)
qed

section \<open>Eviction\<close>

lemma ends_candidates [avoiding]: "ends (snapshot_candidates E opts k)"
proof -
  have entry: "ends (candidate_entry E k e found)" for e found
    unfolding candidate_entry_def
    by (cases found) (auto intro!: avoiding split: option.splits fs_node.splits)
  have "ends (gather_candidates E k es found)" for es found
    by (induction es arbitrary: found) (auto intro!: avoiding entry)
  then show ?thesis
    unfolding snapshot_candidates_def
    by (intro avoiding) (auto intro!: avoiding split: option.splits)
qed

lemma ends_round [avoiding]: "ends (room_round E opts k needed)"
proof -
  have evict: "ends (evict E c)" for c
    unfolding evict_def
    by (intro avoiding) (auto intro!: avoiding split: option.splits fs_node.splits)
  have admission: "ends (snapshot_admission E needed)"
    unfolding snapshot_admission_def by (intro avoiding)
  show ?thesis
    unfolding room_round_def
  proof (rule avoids_bind [OF admission], goal_cases)
    case (1 a)
    show ?case
    proof (rule avoids_bind [OF ends_candidates], goal_cases)
      case (1 found)
      obtain cs n h where found: "found = (cs, n, h)" by (cases found)
      show ?case
        unfolding found room_decision_def prod.case
        by (rule ends_attempt_bind [OF ends_fits])
          (use evict in \<open>auto simp: Let_def intro!: avoiding split: list.splits option.splits\<close>)
    qed
  qed
qed

lemma evict_shrinks:
  assumes "evict E c s = (Inr fits, s')" and "is_candidate (snap_entries s) c"
  shows "\<not> fits \<and> length (snap_entries s') < length (snap_entries s)"
proof -
  let ?n = "sc_key c @ snapshot_suffix"
  obtain s1 where s1: "os_call E s = (Inr (), s1)" and rest:
    "(case map_of (snap_entries s1) ?n of
         None \<Rightarrow> returnM False
       | Some SymLink \<Rightarrow> failM (SymlinkRefused ''snapshot candidate'')
       | Some (RegFile c t) \<Rightarrow>
           bindM (os_call E) (\<lambda>_. bindM (modifyM (del_snap ?n)) (\<lambda>_. returnM False))
       | Some _ \<Rightarrow> failM (InvalidPolicy ''snapshot candidate is not regular'')) s1 = (Inr fits, s')"
    using assms(1) unfolding evict_def bindM_result by auto
  have same: "snap_entries s1 = snap_entries s" using keeps_result [OF snap_reads(1) s1] .
  have found: "?n \<in> fst ` set (snap_entries s)" using assms(2) by (simp add: is_candidate_def)
  then obtain x where x: "map_of (snap_entries s1) ?n = Some x"
    using same by (metis map_of_eq_None_iff not_None_eq)
  obtain s2 where s2: "os_call E s1 = (Inr (), s2)" and fits: "\<not> fits" and s': "s' = del_snap ?n s2"
    using rest x by (cases x) (auto simp: bindM_result modifyM_def)
  have "snap_entries s2 = snap_entries s" using keeps_result [OF snap_reads(1) s2] same by simp
  then have "snap_entries s' = map_del ?n (snap_entries s)" by (simp add: s')
  moreover have "length (map_del ?n (snap_entries s)) < length (snap_entries s)"
    using found unfolding map_del_def by (auto intro!: length_filter_less)
  ultimately show ?thesis using fits by simp
qed

lemma room_round_shrinks:
  assumes "room_round E opts k needed s = (Inr False, s')"
  shows "length (snap_entries s') < length (snap_entries s)"
proof -
  obtain a s1 cs n h s2 r s3 where s1: "snapshot_admission E needed s = (Inr a, s1)"
    and s2: "snapshot_candidates E opts k s1 = (Inr (cs, n, h), s2)"
    and s3: "attempt (ensure_fits E opts a) s2 = (Inr r, s3)"
    and decide: "room_decision E opts needed a (cs, n, h) r s3 = (Inr False, s')"
    using assms unfolding room_round_def bindM_result by auto
  have rest: "\<exists>c cs'. cs = c # cs' \<and> evict E c s3 = (Inr False, s')"
    using decide by (cases cs; cases r) (auto simp: room_decision_def Let_def bindM_result split: if_splits)
  have "snap_entries s1 = snap_entries s" using keeps_result [OF snap_reads(10) s1] .
  moreover have "snap_entries s2 = snap_entries s1" using keeps_result [OF snap_reads(9) s2] .
  moreover have "snap_entries s3 = snap_entries s2"
    using keeps_result [OF keeps_attempt [OF tree_ops_keep(6)] s3] .
  ultimately have same: "snap_entries s3 = snap_entries s" "snap_entries s3 = snap_entries s1" by simp_all
  obtain c cs' where c: "cs = c # cs'" "evict E c s3 = (Inr False, s')" using rest by blast
  have "is_candidate (snap_entries s3) c"
    using snapshot_candidates_result [OF s2] c(1) same(2) by simp
  then show ?thesis using evict_shrinks [OF c(2)] same(1) by simp
qed

lemma room_loop_ends:
  "room_loop E opts k needed n s = (Inl e, s') \<Longrightarrow> length (snap_entries s) < n \<Longrightarrow> \<not> exhausted e"
proof (induction n arbitrary: s)
  case (Suc n)
  show ?case
  proof (cases "room_round E opts k needed s")
    case (Pair r s1)
    show ?thesis
    proof (cases r)
      case (Inl x)
      then have "e = x" using Suc.prems(1) Pair by (simp add: bindM_def)
      then show ?thesis using avoidsD [OF ends_round] Pair Inl by blast
    next
      case (Inr fits)
      then have "\<not> fits" "room_loop E opts k needed n s1 = (Inl e, s')"
        using Suc.prems(1) Pair by (auto simp: bindM_def returnM_def split: if_splits)
      moreover have "length (snap_entries s1) < n"
        using room_round_shrinks [of E opts k needed s s1] Pair Inr Suc.prems(2) \<open>\<not> fits\<close> by simp
      ultimately show ?thesis using Suc.IH by blast
    qed
  qed
qed simp

lemma ends_room [avoiding]: "ends (make_snapshot_room E opts k needed)"
  unfolding avoids_def make_snapshot_room_def
  by (intro allI impI, rule room_loop_ends) (auto simp: bindM_def getM_def)

section \<open>Whole operations\<close>

lemma ends_create [avoiding]: "ends (create_temp_from E key number left)"
  by (induction left arbitrary: number) (auto intro!: avoiding split: option.splits fs_node.splits)

lemma ends_write [avoiding]: "ends (write_context E name data)"
  by (induction E name data rule: write_context.induct)
    (subst write_context.simps, auto intro!: avoiding)

lemma ends_prepare [avoiding]: "ends (prepare_temp E opts key n)"
  unfolding prepare_temp_def create_temp_def open_snapshot_dir_def
  by (intro avoiding) (auto intro!: avoiding split: option.splits fs_node.splits)

lemma ends_store [avoiding]: "ends (store_wire E key temp wire)"
  unfolding store_wire_def rename_temp_def
  by (intro avoiding) (auto intro!: avoiding split: option.splits fs_node.splits prod.splits)

lemma ends_finish_lease: "\<not> exhausted e \<Longrightarrow> ends (finish_lease E opts (Some e))"
  unfolding finish_lease_def by (intro ends_attempt_bind avoiding ends_join) auto

lemma ends_finish_temp:
  "(\<And>e. r = Some e \<Longrightarrow> \<not> exhausted e) \<Longrightarrow> ends (finish_temp E opts temp r)"
proof (cases r)
  case None
  then show ?thesis
    unfolding finish_temp_def by (simp, intro ends_attempt_bind [OF ends_finish] ends_join) auto
next
  case (Some e)
  assume "\<And>e. r = Some e \<Longrightarrow> \<not> exhausted e"
  moreover have "ends (remove_temp E temp)" unfolding remove_temp_def by (intro avoiding)
  ultimately show ?thesis
    unfolding finish_temp_def using Some
    by (simp, intro ends_attempt_bind ends_finish ends_join) auto
qed

lemma ends_publish_lease: "ends (publish_under_lease E opts key wire)"
  unfolding avoids_def
proof (intro allI impI)
  fix s e s'
  assume run: "publish_under_lease E opts key wire s = (Inl e, s')"
  show "\<not> exhausted e"
  proof (cases "prepare_temp E opts key (length wire) s")
    case (Pair r s1)
    show ?thesis
    proof (cases r)
      case (Inl x)
      then have "\<not> exhausted x" using avoidsD [OF ends_prepare] Pair by blast
      then show ?thesis
        using run Pair Inl avoidsD [OF ends_finish_lease] by (simp add: publish_under_lease_def)
    next
      case (Inr temp)
      have "ends (bindM (attempt (store_wire E key temp wire)) (\<lambda>r. finish_temp E opts temp r))"
        by (intro ends_attempt_bind avoiding ends_finish_temp)
      then show ?thesis using run Pair Inr avoidsD by (fastforce simp: publish_under_lease_def)
    qed
  qed
qed

lemma ends_begin: "options_ok opts \<Longrightarrow> validator_ends E \<Longrightarrow> ends (begin_mutation E opts pol)"
proof -
  assume ok: "options_ok opts" "validator_ends E"
  have "ends (begin_checks E opts pol)"
    unfolding begin_checks_def by (intro avoiding ends_validate ok)
  then show ?thesis
    unfolding begin_mutation_def policy_shape_def release_def
    by (intro avoids_bind ends_attempt_bind ends_acquire ok avoiding) (auto intro!: avoiding split: option.splits)
qed

lemma ends_publish: "options_ok opts \<Longrightarrow> validator_ends E \<Longrightarrow> ends (snapshot_publish E opts pol key encoded)"
  unfolding snapshot_publish_def policy_shape_def
  by (intro avoids_bind ends_begin ends_publish_lease avoiding) simp_all

end
