(* ===== verification/Cache_Outcome.thy ===== *)
theory Cache_Outcome
  imports Cache_Rounds
begin

text \<open>
  What the operations of the pool achieve: the scan counts the tree exactly and meets no
  symbolic link, recovery removes exactly the abandoned temporary files, a finished lease
  is within its capacity, and a published snapshot is read back.
\<close>

section \<open>The scan\<close>

definition add_usage :: "usage \<Rightarrow> usage \<Rightarrow> usage" where
  "add_usage u v = \<lparr>us_bytes = us_bytes u + us_bytes v, us_entries = us_entries u + us_entries v,
     us_files = us_files u + us_files v\<rparr>"

definition no_usage :: usage where
  "no_usage = \<lparr>us_bytes = 0, us_entries = 0, us_files = 0\<rparr>"

text \<open>What a listing and everything below it amounts to.\<close>

fun tree_usage :: "(string \<times> fs_node) list \<Rightarrow> usage" where
  "tree_usage [] = no_usage"
| "tree_usage ((name, x) # es) =
     add_usage
       (case x of
          RegFile c t \<Rightarrow> \<lparr>us_bytes = int (length c), us_entries = 1, us_files = 1\<rparr>
        | Folder cs \<Rightarrow> add_usage \<lparr>us_bytes = 0, us_entries = 1, us_files = 0\<rparr> (tree_usage cs)
        | _ \<Rightarrow> \<lparr>us_bytes = 0, us_entries = 1, us_files = 0\<rparr>)
       (tree_usage es)"

fun link_free :: "(string \<times> fs_node) list \<Rightarrow> bool" where
  "link_free [] = True"
| "link_free ((name, x) # es) =
     ((case x of SymLink \<Rightarrow> False | Folder cs \<Rightarrow> link_free cs | _ \<Rightarrow> True) \<and> link_free es)"

lemma add_usage_simps [simp]:
  "add_usage u no_usage = u" "add_usage no_usage u = u" "add_usage (add_usage u v) w = add_usage u (add_usage v w)"
  by (simp_all add: add_usage_def no_usage_def)

lemma scan_kept [keeping]: "keeps ps_scan (os_call E)" "keeps ps_scan (ctx_poll E)"
  by (simp_all add: keeps_def os_call_def ctx_poll_def pool_tick_def)

lemma scan_kept_enter: "keeps ps_scan (enter_dir E opts d n)"
  unfolding enter_dir_def by (intro keeping)

lemma account_result:
  "account x s = (Inr u, s') \<Longrightarrow> ps_scan s' = add_usage (ps_scan s)
     (case x of
        RegFile c t \<Rightarrow> \<lparr>us_bytes = int (length c), us_entries = 1, us_files = 1\<rparr>
      | _ \<Rightarrow> \<lparr>us_bytes = 0, us_entries = 1, us_files = 0\<rparr>)"
  by (cases x) (auto simp: account_def bindM_result modifyM_def add_usage_def)

lemma visit_result:
  assumes "visit_node E x s = (Inr u, s')"
  shows "x \<noteq> SymLink \<and> ps_scan s' = add_usage (ps_scan s)
     (case x of
        RegFile c t \<Rightarrow> \<lparr>us_bytes = int (length c), us_entries = 1, us_files = 1\<rparr>
      | _ \<Rightarrow> \<lparr>us_bytes = 0, us_entries = 1, us_files = 0\<rparr>)"
proof -
  from assms obtain s1 s2 where s1: "ctx_poll E s = (Inr (), s1)"
    and s2: "os_call E (s1\<lparr>ps_seen := ps_seen s1 + 1\<rparr>) = (Inr (), s2)"
    and x: "x \<noteq> SymLink" and rest: "account x s2 = (Inr u, s')"
    by (auto simp: visit_node_def bindM_result modifyM_def)
  have "ps_scan s2 = ps_scan s"
    using keeps_result [OF scan_kept(2) s1] keeps_result [OF scan_kept(1) s2] by simp
  then show ?thesis using account_result [OF rest] x by simp
qed

lemma walk_result:
  "walk_entries E opts d es s = (Inr u, s') \<Longrightarrow>
     ps_scan s' = add_usage (ps_scan s) (tree_usage es) \<and> link_free es"
proof (induction E opts d es arbitrary: s u s' rule: walk_entries.induct)
  case (1 E opts d)
  then show ?case
    by (auto simp: bindM_result dest!: keeps_result [OF scan_kept(1)] keeps_result [OF scan_kept(2)])
next
  case (2 E opts d name x es)
  from 2(3) obtain u1 s1 u2 s2 where v: "visit_node E x s = (Inr u1, s1)"
    and c: "(case x of
              Folder cs \<Rightarrow>
                bindM (enter_dir E opts (d + 1) (length cs)) (\<lambda>_. walk_entries E opts (d + 1) cs)
            | _ \<Rightarrow> returnM ()) s1 = (Inr u2, s2)"
    and w: "walk_entries E opts d es s2 = (Inr u, s')"
    by (auto simp: bindM_result)
  note visited = visit_result [OF v]
  show ?case
  proof (cases x)
    case (Folder cs)
    from c Folder obtain u3 s3 where e: "enter_dir E opts (d + 1) (length cs) s1 = (Inr u3, s3)"
      and i: "walk_entries E opts (d + 1) cs s3 = (Inr u2, s2)"
      by (auto simp: bindM_result)
    have "ps_scan s2 = add_usage (ps_scan s1) (tree_usage cs) \<and> link_free cs"
      using 2(1) [OF Folder i] keeps_result [OF scan_kept_enter e] by simp
    then show ?thesis using 2(2) [OF w] visited Folder by simp
  qed (use 2(2) [OF w] visited c in auto)
qed

lemma scan_result:
  assumes "scan E opts s = (Inr u, s')"
  shows "ps_scan s' = tree_usage (root_entries s) \<and> link_free (root_entries s) \<and> root_entries s' = root_entries s"
proof -
  let ?s = "s\<lparr>ps_scan := \<lparr>us_bytes = 0, us_entries = 0, us_files = 0\<rparr>, ps_seen := 0\<rparr>"
  from assms obtain s1 s2 u3 s3 where s1: "ctx_poll E ?s = (Inr (), s1)" and s2: "os_call E s1 = (Inr (), s2)"
    and s3: "enter_dir E opts 0 (length (root_entries s2)) s2 = (Inr u3, s3)"
    and w: "walk_entries E opts 0 (root_entries s2) s3 = (Inr u, s')"
    by (auto simp: scan_def bindM_result modifyM_def)
  have "root_entries s2 = root_entries s"
    using keeps_result [OF core_parts(6) [OF keeps_os_call(2)] s1]
      keeps_result [OF core_parts(6) [OF keeps_os_call(1)] s2] by (simp add: root_entries_def)
  moreover have "ps_scan s3 = no_usage"
    using keeps_result [OF scan_kept(2) s1] keeps_result [OF scan_kept(1) s2]
      keeps_result [OF scan_kept_enter s3] by (simp add: no_usage_def)
  ultimately show ?thesis
    using walk_result [OF w] keeps_result [OF core_parts(6) [OF keeps_scan] assms] by simp
qed

section \<open>Finishing a lease\<close>

lemmas root_reads [keeping] = reads [THEN core_parts(1)]

lemma join_ok: "join_errors es s = (Inr u, s') \<Longrightarrow> s' = s \<and> (\<forall>e \<in> set es. e = None)"
  by (auto simp: join_errors_def Let_def split: if_splits option.splits)

lemma finish_result:
  assumes "finish E opts s = (Inr u, s')" and "holding pol s"
  shows "ps_root s' = ps_root s \<and> us_bytes (tree_usage (root_entries s)) \<le> pl_cap pol \<and>
    link_free (root_entries s)"
proof -
  from assms(1) obtain s1 v s2 e3 s3 e4 s4 e5 s5 where s1: "check_open s = (Inr (), s1)"
    and s2: "attempt (finish_verdict E opts) s1 = (Inr v, s2)"
    and s3: "attempt (os_call E) (s2\<lparr>ps_locked := False\<rparr>) = (Inr e3, s3)"
    and s4: "attempt (os_call E) s3 = (Inr e4, s4)"
    and s5: "attempt (os_call E) s4 = (Inr e5, s5)"
    and join: "join_errors [v, e3, e4, e5] s5 = (Inr u, s')"
    unfolding finish_def release_def bindM_result by (auto simp: modifyM_def)
  have "v = None" "s' = s5" using join_ok [OF join] by auto
  then obtain w where verdict: "finish_verdict E opts s1 = (Inr w, s2)" using s2 by (auto simp: attempt_none)
  then obtain r t where t: "attempt (scan E opts) s1 = (Inr r, t)" and r: "r = None"
    and cap: "us_bytes (ps_scan t) \<le> pl_cap (le_policy (ps_lease t))"
    and s2': "s2 = t\<lparr>ps_lease := (ps_lease t)\<lparr>le_usage := ps_scan t, le_done := True\<rparr>\<rparr>"
    unfolding finish_verdict_def bindM_result
    by (auto simp: modifyM_def split: option.splits)
  then obtain w' where scan: "scan E opts s1 = (Inr w', t)" by (auto simp: attempt_none)
  have same: "s1 = s" using s1 by (auto simp: check_open_def bindM_result)
  have "le_policy (ps_lease t) = pol"
    using keeps_result [OF core_parts(3) [OF keeps_scan] scan] assms(2) same
    by (simp add: lease_view_def holding_def)
  then have bytes: "us_bytes (tree_usage (root_entries s)) \<le> pl_cap pol \<and> link_free (root_entries s)"
    using scan_result [OF scan] cap same by simp
  have "ps_root t = ps_root s" using keeps_result [OF core_parts(1) [OF keeps_scan] scan] same by simp
  moreover have "ps_root s5 = ps_root s2"
    using keeps_result [OF keeps_attempt [OF root_reads(1)] s3]
      keeps_result [OF keeps_attempt [OF root_reads(1)] s4]
      keeps_result [OF keeps_attempt [OF root_reads(1)] s5] by simp
  ultimately show ?thesis using bytes s2' \<open>s' = s5\<close> by simp
qed

section \<open>Recovery\<close>

lemma recover_entry_result:
  assumes "recover_entry E e s = (Inr u, s')"
  shows "snap_entries s' =
    filter (\<lambda>x. \<not> (owned_snapshot_temp (fst e) \<and> fst x = fst e)) (snap_entries s)"
proof -
  from assms obtain s1 where s1: "ctx_poll E s = (Inr (), s1)"
    and rest: "(if \<not> owned_snapshot_temp (fst e) then returnM ()
       else bindM (os_call E) (\<lambda>_.
         case snd e of
           SymLink \<Rightarrow> failM (SymlinkRefused ''abandoned snapshot temp'')
         | RegFile c t \<Rightarrow> bindM (os_call E) (\<lambda>_. modifyM (del_snap (fst e)))
         | _ \<Rightarrow> failM (InvalidPolicy ''abandoned snapshot temp is not regular''))) s1 = (Inr u, s')"
    unfolding recover_entry_def bindM_result by auto
  have e1: "snap_entries s1 = snap_entries s" using keeps_result [OF snap_reads(2) s1] .
  show ?thesis
  proof (cases "owned_snapshot_temp (fst e)")
    case False
    then show ?thesis using rest e1 by (simp add: filter_id_conv)
  next
    case True
    then obtain s2 s3 where s2: "os_call E s1 = (Inr (), s2)" and s3: "os_call E s2 = (Inr (), s3)"
      and s': "s' = del_snap (fst e) s3"
      using rest by (cases "snd e") (auto simp: bindM_result modifyM_def)
    have "snap_entries s3 = snap_entries s"
      using keeps_result [OF snap_reads(1) s2] keeps_result [OF snap_reads(1) s3] e1 by simp
    then show ?thesis using True s' by (simp add: map_del_def)
  qed
qed

lemma recover_each:
  "eachM (recover_entry E) es s = (Inr u, s') \<Longrightarrow>
     snap_entries s' = filter (\<lambda>x. \<not> (owned_snapshot_temp (fst x) \<and> fst x \<in> fst ` set es)) (snap_entries s)"
proof (induction es arbitrary: s)
  case Nil
  then show ?case by simp
next
  case (Cons e es)
  from Cons.prems obtain u1 s1 where s1: "recover_entry E e s = (Inr u1, s1)"
    and rest: "eachM (recover_entry E) es s1 = (Inr u, s')"
    by (auto simp: bindM_result)
  show ?case
    unfolding Cons.IH [OF rest] recover_entry_result [OF s1] filter_filter
    by (rule filter_cong) auto
qed

lemma recover_temps_result:
  assumes "recover_temps E opts s = (Inr u, s')"
  shows "snap_entries s' = filter (\<lambda>x. \<not> owned_snapshot_temp (fst x)) (snap_entries s)"
proof -
  from assms obtain s1 listing s2 where s1: "os_call E s = (Inr (), s1)"
    and s2: "snap_dir_entries ''snapshot directory'' s1 = (Inr listing, s2)"
    and rest: "(case listing of
         None \<Rightarrow> returnM ()
       | Some es \<Rightarrow>
           bindM (os_call E) (\<lambda>_. bindM (ctx_poll E) (\<lambda>_. bindM (os_call E) (\<lambda>_.
           bindM (guardM (\<not> int (length es) > op_scan_entries opts) (ScanLimit ''recovery entry bound exceeded'')) (\<lambda>_.
           bindM (eachM (recover_entry E) es) (\<lambda>_. bindM (ctx_poll E) (\<lambda>_. os_call E))))))) s2 = (Inr u, s')"
    unfolding recover_temps_def bindM_result by auto
  have e1: "snap_entries s1 = snap_entries s" using keeps_result [OF snap_reads(1) s1] .
  have e2: "snap_entries s2 = snap_entries s1" using keeps_result [OF snap_reads(6) s2] .
  have listing: "snap_entries s1 = (case listing of None \<Rightarrow> [] | Some es \<Rightarrow> es)"
    using s2 by (auto simp: snap_dir_entries_def bindM_result snap_entries_def
        split: option.splits fs_node.splits)
  show ?thesis
  proof (cases listing)
    case None
    then show ?thesis using rest listing e1 e2 by simp
  next
    case (Some es)
    obtain s3 s4 s5 where s3: "os_call E s2 = (Inr (), s3)" and s4: "ctx_poll E s3 = (Inr (), s4)"
      and s5: "os_call E s4 = (Inr (), s5)"
      and tail: "bindM (eachM (recover_entry E) es) (\<lambda>_. bindM (ctx_poll E) (\<lambda>_. os_call E)) s5 = (Inr u, s')"
      using rest Some by (auto simp: bindM_result)
    have e5: "snap_entries s5 = snap_entries s"
      using keeps_result [OF snap_reads(1) s3] keeps_result [OF snap_reads(2) s4]
        keeps_result [OF snap_reads(1) s5] e1 e2 by simp
    obtain u6 s6 s7 where s6: "eachM (recover_entry E) es s5 = (Inr u6, s6)"
      and s7: "ctx_poll E s6 = (Inr (), s7)" "os_call E s7 = (Inr (), s')"
      using tail by (auto simp: bindM_result)
    have "snap_entries s' = snap_entries s6"
      using keeps_result [OF snap_reads(2) s7(1)] keeps_result [OF snap_reads(1) s7(2)] by simp
    also have "\<dots> = filter (\<lambda>x. \<not> owned_snapshot_temp (fst x)) (snap_entries s)"
      unfolding recover_each [OF s6] e5
      using listing e1 Some by (intro filter_cong) auto
    finally show ?thesis .
  qed
qed

lemma begin_recovers:
  assumes "begin_mutation E opts pol s = (Inr u, s')"
  shows "\<forall>e \<in> set (snap_entries s'). \<not> owned_snapshot_temp (fst e)"
proof -
  from assms obtain s1 where "attempt (begin_checks E opts pol) s1 = (Inr None, s')"
    unfolding begin_mutation_def bindM_result
    by (auto simp: release_def modifyM_def bindM_result split: option.splits)
  then obtain w where checks: "begin_checks E opts pol s1 = (Inr w, s')" by (auto simp: attempt_none)
  then obtain s2 u3 s3 u4 s4 where r: "recover_temps E opts s2 = (Inr u3, s3)"
    and c: "scan E opts s3 = (Inr u4, s4)"
    and s': "s' = s4\<lparr>ps_lease := \<lparr>le_policy = pol, le_usage = ps_scan s4, le_done = False\<rparr>\<rparr>"
    unfolding begin_checks_def bindM_result by (auto simp: modifyM_def)
  have "snap_entries s' = snap_entries s4"
    by (simp add: s' snap_entries_def snap_node_def root_entries_def)
  also have "\<dots> = snap_entries s3" using keeps_result [OF snap_reads(5) c] .
  finally show ?thesis using recover_temps_result [OF r] by auto
qed

section \<open>Storing a snapshot\<close>

lemma snap_found: "map_of (snap_entries s) n = Some x \<Longrightarrow> \<exists>es. snap_node s = Some (Folder es)"
  by (cases "snap_node s" rule: option.exhaust; cases "the (snap_node s)") (auto simp: snap_entries_def)

lemma lookup_put:
  "map_of (snap_entries s) m = Some y \<Longrightarrow>
     map_of (snap_entries (put_snap n x s)) k = (if k = n then Some x else map_of (snap_entries s) k)"
  using snap_found snap_entries_put assoc.look_put by metis

lemma write_result:
  "write_context E name data s = (Inr u, s') \<Longrightarrow> map_of (snap_entries s) name = Some (RegFile c t) \<Longrightarrow>
     \<exists>t'. map_of (snap_entries s') name = Some (RegFile (c @ data) t')"
proof (induction E name data arbitrary: s c t rule: write_context.induct)
  case (1 E name data)
  show ?case
  proof (cases "data = []")
    case True
    then show ?thesis using "1.prems" by (simp add: write_context.simps [of E name])
  next
    case False
    from "1.prems"(1) False obtain s1 n s2 where s1: "ctx_poll E s = (Inr (), s1)"
      and n: "n = min (ev_moved E (ps_tick s1)) (length (take (32 * 1024) data))"
      and s2: "os_call E (append_temp name (take n data) s1) = (Inr (), s2)"
      and "n \<noteq> 0" and rest: "write_context E name (drop n data) s2 = (Inr u, s')"
      by (subst (asm) write_context.simps) (auto simp: bindM_result modifyM_def split: if_splits)
    have "snap_entries s1 = snap_entries s" using keeps_result [OF snap_reads(2) s1] .
    then have at: "map_of (snap_entries s1) name = Some (RegFile c t)" using "1.prems"(2) by simp
    have "snap_entries s2 = snap_entries (append_temp name (take n data) s1)"
      using keeps_result [OF snap_reads(1) s2] .
    then have "map_of (snap_entries s2) name = Some (RegFile (c @ take n data) (ps_now s1))"
      using at lookup_put [OF at] by (simp add: append_temp_def)
    then have "\<exists>t'. map_of (snap_entries s') name = Some (RegFile ((c @ take n data) @ drop n data) t')"
      using "1.IH" [OF False \<open>n \<noteq> 0\<close> rest] by blast
    then show ?thesis by simp
  qed
qed

lemma create_result:
  "create_temp_from E key number left s = (Inr name, s') \<Longrightarrow>
     \<exists>t. map_of (snap_entries s') name = Some (RegFile [] t)"
proof (induction left arbitrary: number s)
  case (Suc left)
  define name' where "name' = temp_name key (ps_now s) number"
  from Suc.prems obtain s1 where s1: "os_call E s = (Inr (), s1)" and rest:
    "(case snap_node s1 of
         Some (Folder es) \<Rightarrow>
           if map_of es name' = None then
             bindM (modifyM (\<lambda>s. put_snap name' (RegFile [] (ps_now s)) s)) (\<lambda>_. returnM name')
           else create_temp_from E key (Suc number) left
       | _ \<Rightarrow> failM OsFailed) s1 = (Inr name, s')"
    unfolding create_temp_from.simps bindM_result name'_def by (auto simp del: not_None_eq)
  then obtain es where es: "snap_node s1 = Some (Folder es)"
    by (cases "snap_node s1" rule: option.exhaust; cases "the (snap_node s1)") auto
  show ?case
  proof (cases "map_of es name' = None")
    case True
    then have "name = name'" "s' = put_snap name' (RegFile [] (ps_now s1)) s1"
      using rest es by (auto simp: bindM_result modifyM_def)
    then show ?thesis using snap_entries_put [OF es] assoc.look_put by metis
  next
    case False
    then show ?thesis using rest es Suc.IH by (auto simp del: not_None_eq)
  qed
qed simp

lemma rename_result:
  assumes "rename_temp E temp target s = (Inr u, s')" and "map_of (snap_entries s) temp = Some x"
  shows "map_of (snap_entries s') target = Some x"
proof -
  from assms(1) obtain s1 where s1: "os_call E s = (Inr (), s1)"
    and rest: "(case (map_of (snap_entries s1) temp, map_of (snap_entries s1) target) of
         (None, _) \<Rightarrow> failM OsFailed
       | (_, Some (Folder es)) \<Rightarrow> failM OsFailed
       | (Some x, _) \<Rightarrow> modifyM (\<lambda>s. put_snap target x (del_snap temp s))) s1 = (Inr u, s')"
    unfolding rename_temp_def bindM_result by auto
  have at: "map_of (snap_entries s1) temp = Some x"
    using keeps_result [OF snap_reads(1) s1] assms(2) by simp
  have s': "s' = put_snap target x (del_snap temp s1)"
    using rest at by (auto simp: modifyM_def split: option.splits fs_node.splits)
  obtain es where "snap_node s1 = Some (Folder es)" using snap_found [OF at] by blast
  then have "\<exists>es. snap_node (del_snap temp s1) = Some (Folder es)"
    by (simp add: del_snap_def update_snaps_def)
  then show ?thesis using snap_entries_put s' assoc.look_put by metis
qed

lemma store_result:
  assumes "store_wire E key temp wire s = (Inr u, s')"
    and "map_of (snap_entries s) temp = Some (RegFile [] t)"
  shows "\<exists>t'. map_of (snap_entries s') (key @ snapshot_suffix) = Some (RegFile wire t')"
proof -
  from assms(1) obtain u1 s1 s2 s3 s4 where s1: "write_context E temp wire s = (Inr u1, s1)"
    and s2: "os_call E s1 = (Inr (), s2)" and s3: "os_call E s2 = (Inr (), s3)"
    and s4: "os_call E s3 = (Inr (), s4)"
    and r: "rename_temp E temp (key @ snapshot_suffix) s4 = (Inr u, s')"
    unfolding store_wire_def bindM_result by auto
  obtain t' where "map_of (snap_entries s1) temp = Some (RegFile wire t')"
    using write_result [OF s1 assms(2)] by auto
  moreover have "snap_entries s4 = snap_entries s1"
    using keeps_result [OF snap_reads(1) s2] keeps_result [OF snap_reads(1) s3]
      keeps_result [OF snap_reads(1) s4] by simp
  ultimately show ?thesis using rename_result [OF r] by auto
qed

lemma publish_result:
  assumes "publish_under_lease E opts key wire s = (Inr u, s')" and "holding pol s"
  shows "\<exists>t. map_of (snap_entries s') (key @ snapshot_suffix) = Some (RegFile wire t)"
    and "us_bytes (tree_usage (root_entries s')) \<le> pl_cap pol \<and> link_free (root_entries s')"
proof -
  have no_error: "\<not> (\<exists>u t. finish_lease E opts (Some e) s1 = (Inr u, t))"
    "\<not> (\<exists>u t. finish_temp E opts temp (Some e) s1 = (Inr u, t))" for e temp s1
    by (auto simp: finish_lease_def finish_temp_def bindM_result dest!: join_ok)
  obtain temp s1 where s1: "prepare_temp E opts key (length wire) s = (Inr temp, s1)"
    using assms(1) no_error(1)
    by (cases "prepare_temp E opts key (length wire) s"; cases "fst (prepare_temp E opts key (length wire) s)")
      (auto simp: publish_under_lease_def)
  obtain r s2 where s2: "attempt (store_wire E key temp wire) s1 = (Inr r, s2)" by (rule attempt_cases)
  have run: "finish_temp E opts temp r s2 = (Inr u, s')"
    using assms(1) s1 s2 by (simp add: publish_under_lease_def bindM_def)
  have "r = None" using no_error(2) run by (cases r) auto
  then obtain w where stored: "store_wire E key temp wire s1 = (Inr w, s2)" using s2 by (auto simp: attempt_none)
  obtain v s3 where s3: "attempt (finish E opts) s2 = (Inr v, s3)" by (rule attempt_cases)
  have "join_errors [None, None, v] s3 = (Inr u, s')"
    using run s3 \<open>r = None\<close> by (simp add: finish_temp_def bindM_def returnM_def)
  then have "v = None" "s' = s3" using join_ok by fastforce+
  then obtain w' where finished: "finish E opts s2 = (Inr w', s')" using s3 by (auto simp: attempt_none)
  have "holding pol s2"
    using assms(2) keeps_result [OF lease_prepare s1] keeps_result [OF lease_store stored] by (simp add: holding_def)
  note finished = finish_result [OF finished this]
  show "us_bytes (tree_usage (root_entries s')) \<le> pl_cap pol \<and> link_free (root_entries s')"
    using finished by (simp add: root_entries_def)
  obtain number s0 where "create_temp_from E key number 16 s0 = (Inr temp, s1)"
    using s1 by (auto simp: prepare_temp_def create_temp_def bindM_result)
  then obtain t where "map_of (snap_entries s1) temp = Some (RegFile [] t)" using create_result by blast
  then obtain t' where "map_of (snap_entries s2) (key @ snapshot_suffix) = Some (RegFile wire t')"
    using store_result [OF stored] by blast
  moreover have "snap_entries s' = snap_entries s2"
    using finished by (simp add: snap_entries_def snap_node_def root_entries_def)
  ultimately show "\<exists>t. map_of (snap_entries s') (key @ snapshot_suffix) = Some (RegFile wire t)" by auto
qed

section \<open>Reading it back\<close>

text \<open>An environment that lets a reader through.\<close>

definition calm :: "cache_env \<Rightarrow> bool" where
  "calm E \<longleftrightarrow> (\<forall>t. \<not> ev_fails E t \<and> \<not> ev_cancelled E t \<and> 0 < ev_moved E t)"

lemma calm_call:
  "calm E \<Longrightarrow> os_call E s = (Inr (), pool_tick E s)" "calm E \<Longrightarrow> ctx_poll E s = (Inr (), pool_tick E s)"
  by (simp_all add: calm_def os_call_def ctx_poll_def)

lemma calm_read: "calm E \<Longrightarrow> \<exists>s'. read_context E n s = (Inr (), s')"
proof (induction E n arbitrary: s rule: read_context.induct)
  case (1 E n)
  show ?case
  proof (cases "n = 0")
    case True
    then show ?thesis by (simp add: read_context.simps [of E] returnM_def)
  next
    case False
    define k where "k = min (ev_moved E (ps_tick (pool_tick E s))) n"
    have "k \<noteq> 0" using "1.prems" False by (auto simp: k_def calm_def)
    moreover have "read_context E n s = (if k = 0 then failM UnexpectedEOF else read_context E (n - k)) (pool_tick E (pool_tick E s))"
      by (subst read_context.simps)
        (simp add: False calm_call "1.prems" bindM_def getM_def flip: k_def)
    ultimately show ?thesis using "1.IH" [OF False \<open>k \<noteq> 0\<close> "1.prems"] by simp
  qed
qed

lemma published_is_read:
  assumes "map_of (snap_entries s) (key @ snapshot_suffix) = Some (RegFile (snapshot_envelope (ev_sha E) encoded) t)"
    and "valid_key key" "options_ok opts" "int (length encoded) \<le> op_snapshot_bytes opts" "calm E"
    and "length (ev_sha E encoded) = 32"
  shows "fst (snapshot_read E opts key s) = Inr (Some encoded)"
proof -
  let ?wire = "snapshot_envelope (ev_sha E) encoded"
  have size: "int (length ?wire) = int snapshot_header_size + int (length encoded)"
    using assms(6) by (simp add: envelope_parts snapshot_header_size_def)
  have bound: "op_snapshot_bytes opts \<le> max_i64 - int snapshot_header_size" "1 \<le> op_snapshot_bytes opts"
    using assms(3) by (auto simp: options_ok_def)
  then have max: "i64 (int snapshot_header_size + op_snapshot_bytes opts) = int snapshot_header_size + op_snapshot_bytes opts"
    by (intro i64_id) (simp add: in_i64_def max_i64_def snapshot_header_size_def)
  have content: "fst (read_file E opts ?wire s') = Inr (Some encoded)" for s'
    using calm_read [OF assms(5), of "length ?wire" s'] size max assms(4)
      envelope_valid [where sha = "ev_sha E", OF assms(6) assms(4) bound(1)]
    by (auto simp: read_file_def bindM_def returnM_def)
  obtain es where node: "snap_node s = Some (Folder es)" using snap_found [OF assms(1)] by blast
  then have at: "map_of es (key @ snapshot_suffix) = Some (RegFile ?wire t)"
    using assms(1) by (simp add: snap_entries_def)
  obtain rs where root: "ps_root s = Some (Folder rs)"
    using node by (cases "ps_root s" rule: option.exhaust; cases "the (ps_root s)")
      (auto simp: snap_node_def root_entries_def)
  have same: "ps_root (pool_tick E s) = ps_root s" "snap_node (pool_tick E s) = snap_node s" for s
    by (simp_all add: pool_tick_def snap_node_def root_entries_def)
  have entry: "fst (read_entry E opts key s') = Inr (Some encoded)" if "snap_node s' = Some (Folder es)" for s'
    using that at content by (simp add: read_entry_def bindM_def getM_def calm_call [OF assms(5)] same)
  show ?thesis
    using entry root node assms(2)
    by (simp add: snapshot_read_def bindM_def getM_def guardM_def returnM_def calm_call [OF assms(5)] same)
qed

end
