(* ===== verification/Cache_Demo.thy ===== *)
theory Cache_Demo
  imports Cache_Outcome "HOL-Library.Code_Target_Nat" "HOL-Library.Code_Target_Int"
begin

text \<open>
  A concrete pool: a trace block, two old snapshots, an abandoned temporary file and a
  file that is not the pool's. The capacity holds the trace, the foreign file and two
  snapshots, so a publication recovers the temporary file and evicts the older snapshot.
\<close>

definition demo_key :: "char \<Rightarrow> string" where
  "demo_key c = replicate 64 c"

definition demo_cache_env :: cache_env where
  "demo_cache_env = \<lparr>ev_fails = (\<lambda>_. False), ev_cancelled = (\<lambda>_. False), ev_flock = (\<lambda>_. Acquired),
     ev_delay = (\<lambda>_. 1), ev_moved = (\<lambda>_. 40), ev_validate = (\<lambda>_. None), ev_sha = (\<lambda>_. replicate 32 CHR ''h'')\<rparr>"

definition demo_cache_options :: cache_options where
  "demo_cache_options = \<lparr>op_scan_entries = 20, op_scan_depth = 4, op_snapshot_bytes = 100,
     op_snapshot_entries = 5, op_lock_wait = 9, op_lock_poll = 2\<rparr>"

definition demo_cache_policy :: cache_policy where
  "demo_cache_policy = \<lparr>pl_cap = 150, pl_validate = True\<rparr>"

definition demo_old :: "char \<Rightarrow> string" where
  "demo_old c = snapshot_envelope (ev_sha demo_cache_env) [c, c]"


text \<open>The names in the snapshot directory.\<close>

definition name_a :: string where "name_a = demo_key CHR ''a'' @ snapshot_suffix"
definition name_b :: string where "name_b = demo_key CHR ''b'' @ snapshot_suffix"
definition name_d :: string where "name_d = demo_key CHR ''d'' @ snapshot_suffix"
definition name_note :: string where "name_note = ''notes.txt''"
definition name_left :: string where "name_left = temp_name (demo_key CHR ''c'') 6 0"
definition name_temp :: string where "name_temp = temp_name (demo_key CHR ''d'') 1157 0"

definition demo_wire :: string where
  "demo_wire = snapshot_envelope (ev_sha demo_cache_env) ''fresh''"

definition demo_a :: "string \<times> fs_node" where
  "demo_a = (name_a, RegFile (demo_old CHR ''a'') 5)"

definition demo_b :: "string \<times> fs_node" where
  "demo_b = (name_b, RegFile (demo_old CHR ''b'') 7)"

definition demo_note :: "string \<times> fs_node" where
  "demo_note = (name_note, RegFile ''kept'' 2)"

definition demo_trace :: "string \<times> fs_node" where
  "demo_trace = (''trace'', Folder [(''block'', RegFile (replicate 30 CHR ''t'') 3)])"

text \<open>The pool after \<open>t\<close> calls: one nanosecond passes in each.\<close>

definition demo_pool_at :: "bool \<Rightarrow> bool \<Rightarrow> (string \<times> fs_node) list \<Rightarrow> usage \<Rightarrow> nat \<Rightarrow> pool_state" where
  "demo_pool_at locked finished snaps u t =
     \<lparr>ps_root = Some (Folder [demo_trace, (lock_name, RegFile [] 1014), (snapshot_dir, Folder snaps)]),
      ps_locked = locked,
      ps_lease = \<lparr>le_policy = demo_cache_policy, le_usage = u, le_done = finished\<rparr>,
      ps_tick = t, ps_now = 1000 + int t, ps_scan = u, ps_seen = us_entries u\<rparr>"

definition demo_usage :: "int \<Rightarrow> int \<Rightarrow> int \<Rightarrow> usage" where
  "demo_usage b e f = \<lparr>us_bytes = b, us_entries = e, us_files = f\<rparr>"

definition demo_pool :: pool_state where
  "demo_pool = \<lparr>ps_root = Some (Folder [demo_trace, (snapshot_dir, Folder
       [demo_b, (name_left, RegFile ''partial'' 6), demo_note, demo_a])]),
     ps_locked = False,
     ps_lease = \<lparr>le_policy = demo_cache_policy, le_usage = no_usage, le_done = True\<rparr>,
     ps_tick = 10, ps_now = 1010, ps_scan = no_usage, ps_seen = 0\<rparr>"

section \<open>Facts about the names\<close>

lemma demo_key_valid [simp]: "new_snapshot_key (demo_key CHR ''a'') = Some (demo_key CHR ''a'')"
  "new_snapshot_key (demo_key CHR ''b'') = Some (demo_key CHR ''b'')"
  by code_simp+

lemma demo_owned [simp]: "owned_snapshot_temp name_left" "\<not> owned_snapshot_temp name_a"
  "\<not> owned_snapshot_temp name_b" "\<not> owned_snapshot_temp name_note"
  by (simp add: name_left_def, code_simp) (simp_all add: name_a_def name_b_def snapshot_name_not_temp, code_simp)

lemma demo_distinct [simp]:
  "name_a \<noteq> name_b" "name_b \<noteq> name_a" "name_a \<noteq> name_note" "name_note \<noteq> name_a" "name_b \<noteq> name_note"
  "name_note \<noteq> name_b" "name_d \<noteq> name_note" "name_note \<noteq> name_d" "name_d \<noteq> name_b" "name_b \<noteq> name_d"
  "name_left \<noteq> name_a" "name_a \<noteq> name_left" "name_left \<noteq> name_b" "name_b \<noteq> name_left"
  "name_left \<noteq> name_note" "name_note \<noteq> name_left" "name_temp \<noteq> name_b" "name_b \<noteq> name_temp"
  "name_temp \<noteq> name_note" "name_note \<noteq> name_temp" "name_temp \<noteq> name_d" "name_d \<noteq> name_temp"
  by (simp_all add: name_a_def name_b_def name_d_def name_note_def name_left_def name_temp_def temp_name_def
      temp_prefix_def demo_key_def numeral_eq_Suc)

lemma demo_roots [simp]: "''trace'' \<noteq> snapshot_dir" "snapshot_dir \<noteq> ''trace''" "''trace'' \<noteq> lock_name"
  "lock_name \<noteq> ''trace''"
  by (simp_all add: snapshot_dir_def lock_name_def)

lemma demo_suffix [simp]:
  "has_suffix name_a snapshot_suffix" "has_suffix name_b snapshot_suffix" "\<not> has_suffix name_note snapshot_suffix"
  "trim_suffix name_a snapshot_suffix = demo_key CHR ''a''" "trim_suffix name_b snapshot_suffix = demo_key CHR ''b''"
  by (simp_all add: name_a_def name_b_def) code_simp

lemma demo_keys [simp]: "demo_key c = demo_key d \<longleftrightarrow> c = d"
  by (simp add: demo_key_def)

lemma demo_env_simps [simp]:
  "ev_fails demo_cache_env t = False" "ev_cancelled demo_cache_env t = False"
  "ev_flock demo_cache_env t = Acquired" "ev_delay demo_cache_env t = 1" "ev_moved demo_cache_env t = 40"
  "ev_validate demo_cache_env t = None"
  "op_scan_entries demo_cache_options = 20" "op_scan_depth demo_cache_options = 4"
  "op_snapshot_bytes demo_cache_options = 100" "op_snapshot_entries demo_cache_options = 5"
  "op_lock_wait demo_cache_options = 9" "op_lock_poll demo_cache_options = 2"
  "pl_cap demo_cache_policy = 150" "pl_validate demo_cache_policy"
  by (simp_all add: demo_cache_env_def demo_cache_options_def demo_cache_policy_def)

lemma demo_lengths [simp]: "length (demo_old c) = 50" "length demo_wire = 53"
  by (simp_all add: demo_old_def demo_wire_def envelope_parts demo_cache_env_def)

text \<open>The waiting loops by the number of rounds left.\<close>

lemmas acquire_loop_step = acquire_loop.simps(2) [of _ _ _ "pred_numeral n" for n, folded numeral_eq_Suc]
lemmas create_temp_step = create_temp_from.simps(2) [of _ _ _ "pred_numeral n" for n, folded numeral_eq_Suc]

lemmas pool_ops = running os_call_def ctx_poll_def pool_tick_def begin_mutation_def policy_shape_def ensure_root_def
  acquire_def acquire_loop_step acquire_rounds_def make_root_def release_def begin_checks_def
  validate_policy_def recover_temps_def snap_dir_entries_def recover_entry_def scan_def enter_dir_def
  visit_node_def account_def root_entries_def snap_node_def snap_entries_def put_root_def update_snaps_def
  put_snap_def del_snap_def map_put_def map_del_def no_usage_def max_i64_def
lemmas publish_ops = room_round_def room_decision_def snapshot_admission_def snapshot_candidates_def
  candidate_entry_def ensure_fits_def refresh_def check_open_def evict_def exceeds_def
  sort_snapshot_candidates_def eviction_rank_of_def less_eq_eviction_rank_def less_eviction_rank_def
  create_temp_def create_temp_step open_snapshot_dir_def append_temp_def rename_temp_def store_wire_def
  finish_def finish_verdict_def join_errors_def
lemmas demo_ops = i64_def pool_ops publish_ops demo_trace_def demo_a_def demo_b_def demo_note_def demo_pool_at_def demo_usage_def

lemma demo_begin:
  "begin_mutation demo_cache_env demo_cache_options demo_cache_policy demo_pool =
     (Inr (), demo_pool_at True False [demo_b, demo_note, demo_a] (demo_usage 134 7 5) 64)"
  by (simp add: demo_ops demo_pool_def cong: run_cong)

lemma demo_evicts:
  "room_round demo_cache_env demo_cache_options (demo_key CHR ''d'') 53
       (demo_pool_at True False [demo_b, demo_note, demo_a] (demo_usage 134 7 5) 65) =
     (Inr False, demo_pool_at True False [demo_b, demo_note] (demo_usage 134 7 5) 113)"
proof -
  have rel: "join_path [snapshot_dir, name_a] = snapshot_rel (demo_key CHR ''a'')"
    "demo_key CHR ''a'' @ snapshot_suffix = name_a"
    by (simp_all add: snapshot_rel_def name_a_def)
  show ?thesis by (simp add: demo_ops rel Let_def cong: run_cong)
qed

lemma demo_fits:
  "room_round demo_cache_env demo_cache_options (demo_key CHR ''d'') 53
       (demo_pool_at True False [demo_b, demo_note] (demo_usage 134 7 5) 113) =
     (Inr True, demo_pool_at True False [demo_b, demo_note] (demo_usage 84 6 4) 155)"
  by (simp add: demo_ops Let_def cong: run_cong)

lemma demo_create:
  "open_snapshot_dir demo_cache_env (demo_pool_at True False [demo_b, demo_note] (demo_usage 84 6 4) 155) =
     (Inr (), demo_pool_at True False [demo_b, demo_note] (demo_usage 84 6 4) 157)"
  "create_temp demo_cache_env (demo_key CHR ''d'')
       (demo_pool_at True False [demo_b, demo_note] (demo_usage 84 6 4) 157) =
     (Inr name_temp, demo_pool_at True False [demo_b, demo_note, (name_temp, RegFile [] 1158)] (demo_usage 84 6 4) 158)"
proof -
  have "temp_name (demo_key CHR ''d'') 1157 0 = name_temp" by (simp add: name_temp_def)
  then show "open_snapshot_dir demo_cache_env (demo_pool_at True False [demo_b, demo_note] (demo_usage 84 6 4) 155) =
     (Inr (), demo_pool_at True False [demo_b, demo_note] (demo_usage 84 6 4) 157)"
  "create_temp demo_cache_env (demo_key CHR ''d'')
       (demo_pool_at True False [demo_b, demo_note] (demo_usage 84 6 4) 157) =
     (Inr name_temp, demo_pool_at True False [demo_b, demo_note, (name_temp, RegFile [] 1158)] (demo_usage 84 6 4) 158)"
    by (simp_all add: demo_ops cong: run_cong)
qed

lemma demo_store:
  "store_wire demo_cache_env (demo_key CHR ''d'') name_temp demo_wire
       (demo_pool_at True False [demo_b, demo_note, (name_temp, RegFile [] 1158)] (demo_usage 84 6 4) 158) =
     (Inr (), demo_pool_at True False [demo_b, demo_note, (name_d, RegFile demo_wire 1161)] (demo_usage 84 6 4) 166)"
proof -
  have name: "demo_key CHR ''d'' @ snapshot_suffix = name_d" by (simp add: name_d_def)
  have chunk: "write_context demo_cache_env n data = (if data = [] then returnM ()
      else bindM (ctx_poll demo_cache_env) (\<lambda>_.
        bindM (modifyM (append_temp n (take 40 data))) (\<lambda>_.
        bindM (os_call demo_cache_env) (\<lambda>_. write_context demo_cache_env n (drop 40 data)))))" for n data
  proof -
    define m where "m = min 40 (length (take (32 * 1024) data))"
    have parts: "take m data = take 40 data" "drop m data = drop 40 data" by (simp_all add: m_def min_def)
    have "m = 0 \<longleftrightarrow> data = []" by (cases data) (simp_all add: m_def)
    have const: "bindM (getM (\<lambda>_. m)) f = f m" for f :: "nat \<Rightarrow> unit pool_comp"
      by (simp add: bindM_def getM_def)
    show ?thesis using \<open>m = 0 \<longleftrightarrow> data = []\<close>
      unfolding write_context.simps [of _ n data] demo_env_simps m_def [symmetric] const parts
      by (cases "data = []") simp_all
  qed
  have parts: "demo_wire \<noteq> []" "drop 40 demo_wire \<noteq> []" "drop 40 (drop 40 demo_wire) = []"
      "take 40 (drop 40 demo_wire) = drop 40 demo_wire"
    using demo_lengths(2) by (auto simp del: demo_lengths(2))
  have whole: "take 40 demo_wire @ drop 40 demo_wire = demo_wire" by (rule append_take_drop_id)
  have first: "write_context demo_cache_env name_temp demo_wire = bindM (ctx_poll demo_cache_env) (\<lambda>_.
      bindM (modifyM (append_temp name_temp (take 40 demo_wire))) (\<lambda>_.
      bindM (os_call demo_cache_env) (\<lambda>_. write_context demo_cache_env name_temp (drop 40 demo_wire))))"
    using parts(1) by (subst chunk) simp
  have second: "write_context demo_cache_env name_temp (drop 40 demo_wire) = bindM (ctx_poll demo_cache_env) (\<lambda>_.
      bindM (modifyM (append_temp name_temp (drop 40 demo_wire))) (\<lambda>_.
      bindM (os_call demo_cache_env) (\<lambda>_. returnM ())))"
    using parts(2) unfolding chunk [of _ "drop 40 demo_wire"] chunk [of _ "drop 40 (drop 40 demo_wire)"] parts(3,4)
    by (simp add: write_context.simps [of _ _ "[]"])
  show ?thesis
    by (simp add: demo_ops name first second whole cong: run_cong)
qed

lemma demo_finish:
  "finish demo_cache_env demo_cache_options
       (demo_pool_at True False [demo_b, demo_note, (name_d, RegFile demo_wire 1161)] (demo_usage 84 6 4) 166) =
     (Inr (), demo_pool_at False True [demo_b, demo_note, (name_d, RegFile demo_wire 1161)] (demo_usage 137 7 5) 203)"
  by (simp add: demo_ops cong: run_cong)


definition demo_after :: pool_state where
  "demo_after = demo_pool_at False True [demo_b, demo_note, (name_d, RegFile demo_wire 1161)] (demo_usage 137 7 5) 203"

lemma room_loop_step:
  "room_round E opts k needed s = (Inr False, t) \<Longrightarrow>
     room_loop E opts k needed (Suc n) s = room_loop E opts k needed n t"
  "room_round E opts k needed s = (Inr True, t) \<Longrightarrow> room_loop E opts k needed (Suc n) s = (Inr (), t)"
  by (simp_all add: bindM_def returnM_def)

lemma demo_publish:
  "snapshot_publish demo_cache_env demo_cache_options demo_cache_policy (demo_key CHR ''d'') ''fresh'' demo_pool =
     (Inr (), demo_after)"
proof -
  let ?k = "demo_key CHR ''d''" and ?E = demo_cache_env and ?O = demo_cache_options
  let ?s1 = "demo_pool_at True False [demo_b, demo_note, demo_a] (demo_usage 134 7 5)"
  have call: "os_call ?E (?s1 64) = (Inr (), ?s1 65)"
    by (simp add: os_call_def pool_tick_def demo_pool_at_def)
  have loop: "room_loop ?E ?O ?k 53 (Suc (Suc 2)) (?s1 65) = (Inr (), demo_pool_at True False [demo_b, demo_note] (demo_usage 84 6 4) 155)"
    by (simp only: room_loop_step(1) [OF demo_evicts] room_loop_step(2) [OF demo_fits])
  have "length (snap_entries (?s1 65)) = 3"
    by (simp add: snap_entries_def snap_node_def root_entries_def demo_pool_at_def demo_trace_def)
  then have room: "make_snapshot_room ?E ?O ?k 53 (?s1 65) = (Inr (), demo_pool_at True False [demo_b, demo_note] (demo_usage 84 6 4) 155)"
    using loop by (simp add: make_snapshot_room_def bindM_def getM_def numeral_3_eq_3 numeral_2_eq_2 del: room_loop.simps)
  have prepared: "prepare_temp ?E ?O ?k 53 (?s1 64) =
      (Inr name_temp, demo_pool_at True False [demo_b, demo_note, (name_temp, RegFile [] 1158)] (demo_usage 84 6 4) 158)"
    by (simp add: prepare_temp_def bindM_def call room demo_create)
  have "publish_under_lease ?E ?O ?k demo_wire (?s1 64) = (Inr (), demo_after)"
    by (simp add: publish_under_lease_def prepared bindM_def attempt_def demo_store finish_temp_def returnM_def
        demo_finish join_errors_def demo_after_def)
  moreover have "valid_key ?k" by (simp add: valid_key_iff demo_key_def)
  ultimately show ?thesis
    by (simp add: snapshot_publish_def policy_shape_def bindM_def guardM_def returnM_def demo_begin demo_wire_def)
qed

end
