(* ===== verification/Cache_Properties.thy ===== *)
theory Cache_Properties
  imports Cache_Demo
begin

text \<open>
  The properties of the snapshot pool: a published snapshot is read back, files that are
  not the pool's survive every outcome, the lock is always given back, the pool stays
  within its capacity, abandoned files are recovered, and the waiting loops end. The
  witnesses run the publication of \<open>Cache_Demo\<close>.
\<close>

lemma demo_hypotheses:
  "options_ok demo_cache_options" "calm demo_cache_env" "validator_ends demo_cache_env"
  "length (ev_sha demo_cache_env x) = 32" "valid_key (demo_key CHR ''d'')"
  by (simp_all add: options_ok_def calm_def validator_ends_def demo_cache_env_def max_i64_def
      snapshot_header_size_def valid_key_iff demo_key_def)

lemma begin_of_publish:
  assumes "snapshot_publish E opts pol key encoded s = (Inr u, s')"
  obtains s1 where "valid_key key" "int (length encoded) \<le> op_snapshot_bytes opts" "holding pol s1"
    "publish_under_lease E opts key (snapshot_envelope (ev_sha E) encoded) s1 = (Inr u, s')"
proof -
  from assms obtain u1 s1 where "begin_mutation E opts pol s = (Inr u1, s1)" and key: "valid_key key"
    and size: "int (length encoded) \<le> op_snapshot_bytes opts"
    and run: "publish_under_lease E opts key (snapshot_envelope (ev_sha E) encoded) s1 = (Inr u, s')"
    unfolding snapshot_publish_def policy_shape_def bindM_result by auto
  then show thesis using that [OF key size _ run] begin_mutation_holds by blast
qed

text \<open>
  C19: a snapshot that was published is what the next read of its key returns, byte for
  byte, in any environment that lets the reader through and whatever the publication met
  on its way: short writes, evictions, recovered files.
\<close>

theorem publish_then_read:
  assumes "snapshot_publish E opts pol key encoded s = (Inr u, s')"
    and "options_ok opts" and "\<And>x. length (ev_sha E x) = 32"
    and "calm R" and "ev_sha R = ev_sha E"
  shows "fst (snapshot_read R opts key s') = Inr (Some encoded)"
  using assms published_is_read [of s' key R encoded _ opts]
  by (auto elim!: begin_of_publish dest: publish_result(1))

theorem publish_then_read_witness:
  "fst (snapshot_read demo_cache_env demo_cache_options (demo_key CHR ''d'') demo_after) = Inr (Some ''fresh'')"
  using publish_then_read [OF demo_publish demo_hypotheses(1,4,2)] by simp

text \<open>
  C20: whatever a publication meets (any failing call, cancellation, refusal, eviction) and
  however it ends, every file that is not a snapshot or a temporary file of the pool is
  kept as it was, and a lock that was free is free again.
\<close>

theorem publish_spares_foreign_files:
  assumes "\<not> ps_locked s"
  shows "foreign_view key (snd (snapshot_publish E opts pol key encoded s)) = foreign_view key s \<and>
    \<not> ps_locked (snd (snapshot_publish E opts pol key encoded s))"
proof -
  have "foreign_view key (snd (snapshot_publish E opts pol key encoded s)) = foreign_view key s"
    using keepsD [OF foreign_snapshot_publish] .
  moreover have "unlocked (snd (snapshot_publish E opts pol key encoded s))"
    by (rule triple_final [OF publish_lock]) (use assms in \<open>simp_all add: unlocked_def\<close>)
  ultimately show ?thesis by (simp add: unlocked_def)
qed

theorem publish_spares_foreign_files_witness:
  "foreign_view (demo_key CHR ''d'') demo_after = foreign_view (demo_key CHR ''d'') demo_pool \<and>
   \<not> ps_locked demo_after"
proof -
  have "\<not> ps_locked demo_pool" by (simp add: demo_pool_def)
  from publish_spares_foreign_files [OF this, of "demo_key CHR ''d''" demo_cache_env demo_cache_options
      demo_cache_policy "''fresh''"]
  show ?thesis by (simp add: demo_publish)
qed

text \<open>
  C21: when a publication succeeds, the regular files below the pool root together are
  within the capacity of the policy, and no symbolic link stands anywhere below the root.
\<close>

theorem publish_within_capacity:
  assumes "snapshot_publish E opts pol key encoded s = (Inr u, s')"
  shows "us_bytes (tree_usage (root_entries s')) \<le> pl_cap pol \<and> link_free (root_entries s')"
  using assms by (auto elim!: begin_of_publish dest: publish_result(2))

theorem publish_within_capacity_witness:
  "us_bytes (tree_usage (root_entries demo_after)) \<le> 150 \<and> link_free (root_entries demo_after)"
  using publish_within_capacity [OF demo_publish] by simp

text \<open>
  C22: polling for the lock stops at its deadline and eviction stops when nothing is left
  to evict: for any environment, a publication never runs out of the rounds the model
  gives its loops.
\<close>

theorem publish_loops_end:
  assumes "options_ok opts" and "validator_ends E"
    and "snapshot_publish E opts pol key encoded s = (Inl e, s')"
  shows "\<not> exhausted e"
  using avoidsD [OF ends_publish [OF assms(1,2)] assms(3)] .

theorem publish_loops_end_witness:
  "\<not> exhausted BadSnapshotKey"
proof (rule publish_loops_end [OF demo_hypotheses(1,3)])
  show "snapshot_publish demo_cache_env demo_cache_options demo_cache_policy ''k'' ''x'' demo_pool =
      (Inl BadSnapshotKey, demo_pool)"
    by (simp add: snapshot_publish_def policy_shape_def bindM_def guardM_def returnM_def failM_def valid_key_iff)
qed

text \<open>
  After an operation has begun, no abandoned temporary file is left in the snapshot
  directory, in particular none that an interrupted publication of any key had created,
  and the files that are not the pool's are untouched.
\<close>

theorem begin_recovers_temps:
  assumes "begin_mutation E opts pol s = (Inr u, s')"
    and "valid_key key" and "0 \<le> i64 (now + int number)"
  shows "temp_name key now number \<notin> fst ` set (snap_entries s') \<and>
    (\<forall>e \<in> set (snap_entries s'). \<not> owned_snapshot_temp (fst e)) \<and>
    foreign_view key s' = foreign_view key s"
  using begin_recovers [OF assms(1)] temp_name_owned [OF assms(2,3)]
    keeps_result [OF foreign_begin assms(1)] by fastforce

theorem begin_recovers_temps_witness:
  "name_left \<in> fst ` set (snap_entries demo_pool) \<and>
   name_left \<notin> fst ` set (snap_entries (demo_pool_at True False [demo_b, demo_note, demo_a] (demo_usage 134 7 5) 64))"
proof -
  have "valid_key (demo_key CHR ''c'')" by (simp add: valid_key_iff demo_key_def)
  moreover have "0 \<le> i64 (6 + int 0)" by (simp add: i64_def)
  ultimately show ?thesis
    using begin_recovers_temps [OF demo_begin, of "demo_key CHR ''c''" 6 0]
    by (simp add: name_left_def snap_entries_def snap_node_def root_entries_def demo_pool_def demo_trace_def)
qed

end
