(* ===== verification/Build_Contract.thy ===== *)
theory Build_Contract
  imports Go_Numbers Go_Paths
begin

text \<open>
  Buildables (\<^verbatim>\<open>internal/buildable/buildable.go\<close>): the declaration a repository makes of a
  compiled artifact, its closed configuration invariants (\<^verbatim>\<open>Validate\<close>,
  \<^verbatim>\<open>ValidateForName\<close>), its semantic identity, the manifest of a candidate and its
  validation against the declaration, the choice of a platform, and setup's projection.

  Go maps are association lists in the order of their range. SHA-256 of the encoded
  declaration is a parameter of the functions that need it.
\<close>

datatype build_error = Invalid string "string list"

section \<open>Declarations\<close>

record build_command =
  bc_executable :: string
  bc_arguments :: "string list"

record manifest_contract =
  mc_schema_version :: int
  mc_kind :: string
  mc_contract_id :: string
  mc_expected_source :: "(string \<times> string) list"
  mc_required_fields :: "string list"
  mc_required_capabilities :: "string list"

record build_candidate =
  bd_root :: string
  bd_identity :: string
  bd_strategy :: string
  bd_remedy :: string

record build_output =
  bo_path :: string
  bo_destination :: string
  bo_kind :: string
  bo_executable :: bool

record platform =
  pf_os :: "string list"
  pf_arch :: "string list"
  pf_path :: string
  pf_executable :: bool
  pf_outputs :: "build_output list"

record buildable =
  ba_strategy :: string
  ba_paths :: "string list"
  ba_command :: build_command
  ba_binding :: "string option"
  ba_verification :: "build_command option"
  ba_manifest :: manifest_contract
  ba_candidates :: "build_candidate list"
  ba_platforms :: "(string \<times> platform) list"

text \<open>\<^verbatim>\<open>namePattern\<close>: a lower-case letter or digit, then such characters, dots, underscores and dashes.\<close>

definition lower_or_digit :: "char \<Rightarrow> bool" where
  "lower_or_digit c \<longleftrightarrow> is_lower c \<or> is_digit c"

definition leaf_char :: "char \<Rightarrow> bool" where
  "leaf_char c \<longleftrightarrow> lower_or_digit c \<or> c = CHR ''.'' \<or> c = CHR ''_'' \<or> c = CHR ''-''"

definition is_leaf_name :: "string \<Rightarrow> bool" where
  "is_leaf_name s = (case s of [] \<Rightarrow> False | c # cs \<Rightarrow> lower_or_digit c \<and> list_all leaf_char cs)"

definition validate_name :: "string \<Rightarrow> build_error + unit" where
  "validate_name name = (if is_leaf_name name then Inr () else Inl (Invalid ''buildable name is invalid'' [name]))"

text \<open>An empty value counts as a duplicate.\<close>

fun duplicates_from :: "string list \<Rightarrow> string list \<Rightarrow> bool" where
  "duplicates_from seen [] = False"
| "duplicates_from seen (v # vs) = (if v = [] then True else if v \<in> set seen then True else duplicates_from (v # seen) vs)"

definition duplicates :: "string list \<Rightarrow> bool" where
  "duplicates values = duplicates_from [] values"

definition is_control :: "char \<Rightarrow> bool" where
  "is_control c \<longleftrightarrow> (of_char c :: nat) < 0x20 \<or> (of_char c :: nat) = 0x7F"

definition check_relative_path :: "string \<Rightarrow> build_error + unit" where
  "check_relative_path p =
     (if p = [] \<or> is_abs p then Inl (Invalid ''path must be non-empty and relative'' [])
      else if CHR 0x5C \<in> set p then Inl (Invalid ''path contains a non-portable backslash'' [])
      else if list_ex is_control p then Inl (Invalid ''path contains an ASCII control character'' [])
      else if clean_path p = ''.'' \<or> clean_path p = ''..'' \<or> has_prefix (clean_path p) ''../''
      then Inl (Invalid ''path escapes its root'' [])
      else Inr ())"

definition validate_command :: "string \<Rightarrow> build_command \<Rightarrow> build_error + unit" where
  "validate_command what c =
     (if blank (bc_executable c) then Inl (Invalid (what @ '' executable is empty'') [])
      else if [] \<in> set (bc_arguments c) then Inl (Invalid (what @ '' contains an empty argument'') [])
      else Inr ())"

definition command_string :: "build_command \<Rightarrow> string" where
  "command_string c = join '' '' (bc_executable c # bc_arguments c)"

section \<open>Platforms and their outputs\<close>

definition platform_outputs :: "platform \<Rightarrow> build_error + build_output list" where
  "platform_outputs p =
     (if pf_outputs p = [] then
        (if pf_path p = [] then Inl (Invalid ''output set is empty'' [])
         else Inr [\<lparr>bo_path = pf_path p, bo_destination = [], bo_kind = ''executable'', bo_executable = pf_executable p\<rparr>])
      else if pf_path p \<noteq> [] then Inl (Invalid ''legacy path cannot be combined with an output set'' [])
      else Inr (pf_outputs p))"

definition path_prefix :: "string \<Rightarrow> string \<Rightarrow> bool" where
  "path_prefix parent child = has_prefix (clean_path child) (clean_path parent @ ''/'')"

definition normal_path :: "string \<Rightarrow> string" where
  "normal_path p = to_lower (clean_path p)"

text \<open>
  The loop over the outputs of one platform: the normalized paths seen on every platform so
  far, the destinations seen on this one, and the executables counted.
\<close>

fun outputs_loop ::
    "platform \<Rightarrow> string list \<Rightarrow> string list \<Rightarrow> nat \<Rightarrow> build_output list \<Rightarrow> build_error + (string list \<times> nat)" where
  "outputs_loop p seen dests execs [] = Inr (seen, execs)"
| "outputs_loop p seen dests execs (out # os) =
     result_bind (check_relative_path (bo_path out)) (\<lambda>_.
       if normal_path (bo_path out) \<in> set seen
       then Inl (Invalid ''platforms share normalized output path'' [normal_path (bo_path out)])
       else if bo_kind out = [] then Inl (Invalid ''output kind is empty'' [bo_path out])
       else
         let seen' = normal_path (bo_path out) # seen;
             execs' = (if bo_executable out then Suc execs else execs)
         in if pf_outputs p = [] then outputs_loop p seen' dests execs' os
            else result_bind (check_relative_path (bo_destination out)) (\<lambda>_.
              if normal_path (bo_destination out) \<in> set dests
              then Inl (Invalid ''outputs share normalized destination'' [normal_path (bo_destination out)])
              else outputs_loop p seen' (normal_path (bo_destination out) # dests) execs' os))"

definition collision :: "platform \<Rightarrow> build_output \<Rightarrow> build_output \<Rightarrow> build_error + unit" where
  "collision p l r =
     (if bo_path l \<noteq> bo_path r \<and> path_prefix (bo_path l) (bo_path r)
      then Inl (Invalid ''outputs have colliding paths'' [bo_path l, bo_path r])
      else if pf_outputs p \<noteq> [] \<and> bo_destination l \<noteq> bo_destination r \<and>
              path_prefix (bo_destination l) (bo_destination r)
      then Inl (Invalid ''outputs have colliding destinations'' [bo_destination l, bo_destination r])
      else Inr ())"

definition validate_platform :: "string list \<Rightarrow> string \<Rightarrow> platform \<Rightarrow> build_error + string list" where
  "validate_platform seen name p =
     (if name = [] \<or> pf_os p = [] \<or> pf_arch p = [] then Inl (Invalid ''platform has incomplete host aliases'' [name])
      else if duplicates (pf_os p) \<or> duplicates (pf_arch p)
      then Inl (Invalid ''platform host aliases are empty or duplicated'' [name])
      else result_bind (platform_outputs p) (\<lambda>outputs.
        result_bind (outputs_loop p seen [] 0 outputs) (\<lambda>(seen', execs).
          if execs > 1 then Inl (Invalid ''platform declares several executable outputs'' [name])
          else result_bind (first_error (\<lambda>l. first_error (collision p l) outputs) outputs) (\<lambda>_. Inr seen'))))"

fun platforms_loop :: "string list \<Rightarrow> (string \<times> platform) list \<Rightarrow> build_error + unit" where
  "platforms_loop seen [] = Inr ()"
| "platforms_loop seen (p # ps) =
     result_bind (validate_platform seen (fst p) (snd p)) (\<lambda>seen'. platforms_loop seen' ps)"

section \<open>Candidates\<close>

definition check_build_candidate :: "string list \<Rightarrow> build_candidate \<Rightarrow> build_error + unit" where
  "check_build_candidate seen c =
     result_bind (check_relative_path (bd_root c)) (\<lambda>_.
       if blank (bd_remedy c) then Inl (Invalid ''candidate invalid remedy is empty'' [bd_root c])
       else if bd_identity c \<noteq> [] \<and> \<not> is_leaf_name (bd_identity c)
       then Inl (Invalid ''candidate identity is invalid'' [bd_root c])
       else if bd_strategy c \<noteq> ''gitWorktree'' \<and> bd_strategy c \<noteq> ''gitHeadTree''
       then Inl (Invalid ''candidate has unsupported input strategy'' [bd_root c, bd_strategy c])
       else if bd_root c \<in> set seen then Inl (Invalid ''candidate root is duplicated'' [bd_root c])
       else Inr ())"

fun candidates_loop :: "string list \<Rightarrow> build_candidate list \<Rightarrow> build_error + unit" where
  "candidates_loop seen [] = Inr ()"
| "candidates_loop seen (c # cs) = result_bind (check_build_candidate seen c) (\<lambda>_. candidates_loop (bd_root c # seen) cs)"

definition candidate_identity :: "build_candidate \<Rightarrow> nat \<Rightarrow> string" where
  "candidate_identity c index =
     (if bd_identity c \<noteq> [] then bd_identity c
      else if index = 0 then ''local''
      else if index = 1 then ''committed''
      else ''candidate-'' @ nat_string (index + 1))"

section \<open>Validation of a declaration\<close>

definition validate_contract :: "manifest_contract \<Rightarrow> build_error + unit" where
  "validate_contract c =
     (if mc_schema_version c \<le> 0 \<or> mc_kind c = [] \<or> mc_contract_id c = []
      then Inl (Invalid ''manifest contract identity is incomplete'' [])
      else if list_ex (\<lambda>e. fst e = [] \<or> snd e = []) (mc_expected_source c)
      then Inl (Invalid ''expected manifest source contains an empty field or value'' [])
      else if duplicates (mc_required_fields c)
      then Inl (Invalid ''required manifest source fields contain duplicates'' [])
      else if duplicates (mc_required_capabilities c)
      then Inl (Invalid ''required manifest capabilities contain duplicates'' [])
      else Inr ())"

definition validate_buildable :: "buildable \<Rightarrow> build_error + unit" where
  "validate_buildable b =
     (if ba_binding b \<noteq> None \<and> ba_binding b \<noteq> Some ''observed-v1''
      then Inl (Invalid ''unsupported build input binding'' [the (ba_binding b)])
      else if ba_strategy b \<noteq> ''gitHeadTree''
      then Inl (Invalid ''unsupported input detection strategy'' [ba_strategy b])
      else if ba_paths b = [] then Inl (Invalid ''input detection paths are empty'' [])
      else
        result_bind (first_error check_relative_path (ba_paths b)) (\<lambda>_.
        if duplicates (ba_paths b) then Inl (Invalid ''input detection paths contain duplicates'' [])
        else
          result_bind (validate_command ''build command'' (ba_command b)) (\<lambda>_.
          result_bind (case ba_verification b of None \<Rightarrow> Inr () | Some c \<Rightarrow> validate_command ''verification command'' c) (\<lambda>_.
          result_bind (validate_contract (ba_manifest b)) (\<lambda>_.
          if ba_candidates b = [] then Inl (Invalid ''candidate preference is empty'' [])
          else
            result_bind (candidates_loop [] (ba_candidates b)) (\<lambda>_.
            if ba_platforms b = [] then Inl (Invalid ''platform outputs are empty'' [])
            else platforms_loop [] (ba_platforms b)))))))"

definition wanted_candidate :: "string \<Rightarrow> string \<Rightarrow> build_candidate \<Rightarrow> build_error + unit" where
  "wanted_candidate root strategy c =
     (if clean_path (bd_root c) \<noteq> root then Inl (Invalid ''candidate root is unexpected'' [bd_root c, root])
      else if bd_strategy c \<noteq> strategy then Inl (Invalid ''candidate input strategy is unexpected'' [bd_strategy c, strategy])
      else Inr ())"

definition validate_for_name :: "buildable \<Rightarrow> string \<Rightarrow> build_error + unit" where
  "validate_for_name b name =
     result_bind (validate_name name) (\<lambda>_.
     result_bind (validate_buildable b) (\<lambda>_.
       case ba_candidates b of
         [l, c] \<Rightarrow>
           result_bind (wanted_candidate (''.local-build/'' @ name) ''gitWorktree'' l) (\<lambda>_.
             wanted_candidate (''.ci-build/'' @ name) ''gitHeadTree'' c)
       | _ \<Rightarrow> Inl (Invalid ''candidate preference must be local then CI'' [])))"

section \<open>Identity of a declaration\<close>

definition normal_output_path :: "string \<Rightarrow> string" where
  "normal_output_path p = (if p = [] then [] else clean_path p)"

definition normalize_output :: "build_output \<Rightarrow> build_output" where
  "normalize_output out =
     out\<lparr>bo_path := normal_output_path (bo_path out), bo_destination := normal_output_path (bo_destination out)\<rparr>"

text \<open>\<^verbatim>\<open>sort.Slice\<close> by path, then by destination: a stable sort by each key in turn.\<close>

definition normalize_platform :: "platform \<Rightarrow> platform" where
  "normalize_platform p =
     p\<lparr>pf_os := sort (pf_os p), pf_arch := sort (pf_arch p), pf_path := normal_output_path (pf_path p),
       pf_outputs := sort_key bo_path (sort_key bo_destination (List.map normalize_output (pf_outputs p)))\<rparr>"

text \<open>
  What \<^verbatim>\<open>json.Marshal\<close> is given. It writes the keys of a map in sorted order, so the maps
  are put in that order here.
\<close>

definition normalize_declaration :: "string \<Rightarrow> buildable \<Rightarrow> string \<times> buildable" where
  "normalize_declaration name b =
     (name,
      b\<lparr>ba_paths := sort (List.map normal_output_path (ba_paths b)),
        ba_manifest := (ba_manifest b)\<lparr>
          mc_expected_source := sort_key fst (mc_expected_source (ba_manifest b)),
          mc_required_fields := sort (mc_required_fields (ba_manifest b)),
          mc_required_capabilities := sort (mc_required_capabilities (ba_manifest b))\<rparr>,
        ba_candidates := List.map (\<lambda>c. c\<lparr>bd_root := normal_output_path (bd_root c)\<rparr>) (ba_candidates b),
        ba_platforms := sort_key fst (List.map (\<lambda>(n, p). (n, normalize_platform p)) (ba_platforms b))\<rparr>)"

definition declaration_identity ::
    "(string \<times> buildable \<Rightarrow> string) \<Rightarrow> string \<Rightarrow> buildable \<Rightarrow> build_error + string" where
  "declaration_identity fingerprint name b =
     result_bind (validate_for_name b name) (\<lambda>_. Inr (fingerprint (normalize_declaration name b)))"

section \<open>Manifests\<close>

record artifact_output =
  ao_platform :: string
  ao_path :: string
  ao_destination :: string
  ao_kind :: string
  ao_sha256 :: string
  ao_size :: int
  ao_executable :: bool

record artifact_manifest =
  am_schema_version :: int
  am_kind :: string
  am_contract_id :: string
  am_identity :: string
  am_source :: "string \<rightharpoonup> string"
  am_algorithm :: string
  am_digest :: string
  am_capabilities :: "string list"
  am_outputs :: "artifact_output list"

definition lower_hex :: "char \<Rightarrow> bool" where
  "lower_hex c \<longleftrightarrow> is_digit c \<or> CHR ''a'' \<le> c \<and> c \<le> CHR ''f''"

definition is_sha256 :: "string \<Rightarrow> bool" where
  "is_sha256 s \<longleftrightarrow> length s = 64 \<and> list_all lower_hex s"

definition source_field :: "artifact_manifest \<Rightarrow> string \<Rightarrow> string" where
  "source_field m f = (case am_source m f of None \<Rightarrow> [] | Some v \<Rightarrow> v)"

definition output_key :: "string \<Rightarrow> string \<Rightarrow> string" where
  "output_key name p = name @ CHR 0x00 # clean_path p"

text \<open>The first declared output with the same clean path.\<close>

definition find_declared :: "build_output list \<Rightarrow> string \<Rightarrow> build_output option" where
  "find_declared outputs p = List.find (\<lambda>d. clean_path (bo_path d) = clean_path p) outputs"

definition check_facts :: "platform \<Rightarrow> build_output \<Rightarrow> artifact_output \<Rightarrow> build_error + unit" where
  "check_facts p declared out =
     (let kind = (if pf_outputs p = [] \<and> ao_kind out = [] then bo_kind declared else ao_kind out)
      in if \<not> is_sha256 (ao_sha256 out) \<or> ao_size out \<le> 0 \<or> ao_executable out \<noteq> bo_executable declared \<or>
            kind \<noteq> bo_kind declared
         then Inl (Invalid ''manifest output facts are invalid'' [ao_platform out])
         else if pf_outputs p \<noteq> [] \<and> clean_path (ao_destination out) \<noteq> clean_path (bo_destination declared)
         then Inl (Invalid ''manifest output destination is unexpected'' [ao_platform out, ao_destination out])
         else Inr ())"

fun manifest_outputs ::
    "(string \<times> platform) list \<Rightarrow> string list \<Rightarrow> artifact_output list \<Rightarrow> build_error + string list" where
  "manifest_outputs ps seen [] = Inr seen"
| "manifest_outputs ps seen (out # os) =
     (case map_of ps (ao_platform out) of
        None \<Rightarrow> Inl (Invalid ''manifest has unexpected platform'' [ao_platform out])
      | Some p \<Rightarrow>
          result_bind (platform_outputs p) (\<lambda>outputs.
            if output_key (ao_platform out) (ao_path out) \<in> set seen
            then Inl (Invalid ''manifest repeats output'' [output_key (ao_platform out) (ao_path out)])
            else case find_declared outputs (ao_path out) of
                None \<Rightarrow> Inl (Invalid ''manifest output path is not declared'' [ao_platform out, ao_path out])
              | Some declared \<Rightarrow>
                  result_bind (check_facts p declared out) (\<lambda>_.
                    manifest_outputs ps (output_key (ao_platform out) (ao_path out) # seen) os)))"

definition outputs_or_empty :: "platform \<Rightarrow> build_output list" where
  "outputs_or_empty p = (case platform_outputs p of Inl _ \<Rightarrow> [] | Inr outputs \<Rightarrow> outputs)"

definition check_present :: "string list \<Rightarrow> string \<times> platform \<Rightarrow> build_error + unit" where
  "check_present seen e =
     first_error (\<lambda>d. if output_key (fst e) (bo_path d) \<in> set seen then Inr ()
                      else Inl (Invalid ''manifest omits output'' [output_key (fst e) (bo_path d)]))
       (outputs_or_empty (snd e))"

definition check_manifest_source :: "manifest_contract \<Rightarrow> artifact_manifest \<Rightarrow> build_error + unit" where
  "check_manifest_source c m =
     result_bind
       (first_error (\<lambda>e. if source_field m (fst e) \<noteq> snd e
            then Inl (Invalid ''manifest source field is unexpected'' [fst e, source_field m (fst e), snd e]) else Inr ())
          (mc_expected_source c))
       (\<lambda>_. first_error (\<lambda>f. if source_field m f = [] then Inl (Invalid ''manifest source field is required'' [f]) else Inr ())
          (mc_required_fields c))"

definition check_capabilities :: "manifest_contract \<Rightarrow> artifact_manifest \<Rightarrow> build_error + unit" where
  "check_capabilities c m =
     (if am_algorithm m \<noteq> ''sha256'' \<or> \<not> is_sha256 (am_digest m)
      then Inl (Invalid ''producer input digest is not lowercase SHA-256'' [])
      else if duplicates (am_capabilities m) then Inl (Invalid ''manifest capabilities contain duplicates'' [])
      else first_error (\<lambda>r. if r \<notin> set (am_capabilities m)
             then Inl (Invalid ''manifest lacks required capability'' [r]) else Inr ())
           (mc_required_capabilities c))"

fun wanted_outputs :: "(string \<times> platform) list \<Rightarrow> build_error + nat" where
  "wanted_outputs [] = Inr 0"
| "wanted_outputs (e # es) =
     result_bind (platform_outputs (snd e)) (\<lambda>outputs.
       result_bind (wanted_outputs es) (\<lambda>n. Inr (length outputs + n)))"

definition check_identity ::
    "(string \<times> buildable \<Rightarrow> string) \<Rightarrow> string \<Rightarrow> buildable \<Rightarrow> artifact_manifest \<Rightarrow> build_error + unit" where
  "check_identity fingerprint name b m =
     (if name = [] then Inr ()
      else result_bind (declaration_identity fingerprint name b) (\<lambda>identity.
        if am_identity m \<noteq> [] \<and> am_identity m \<noteq> identity
        then Inl (Invalid ''manifest declaration identity is unexpected'' [am_identity m, identity]) else Inr ()))"

definition validate_manifest ::
    "(string \<times> buildable \<Rightarrow> string) \<Rightarrow> string \<Rightarrow> buildable \<Rightarrow> artifact_manifest \<Rightarrow> build_error + unit" where
  "validate_manifest fingerprint name b m =
     (let c = ba_manifest b
      in if am_schema_version m \<noteq> mc_schema_version c \<or> am_kind m \<noteq> mc_kind c \<or>
            am_contract_id m \<noteq> mc_contract_id c
         then Inl (Invalid ''manifest contract identity is unexpected'' [am_kind m, am_contract_id m])
         else
           result_bind (check_identity fingerprint name b m) (\<lambda>_.
           result_bind (check_manifest_source c m) (\<lambda>_.
           result_bind (check_capabilities c m) (\<lambda>_.
           result_bind (wanted_outputs (ba_platforms b)) (\<lambda>wanted.
           if length (am_outputs m) \<noteq> wanted then Inl (Invalid ''manifest has an unexpected number of outputs'' [])
           else
             result_bind (manifest_outputs (ba_platforms b) [] (am_outputs m)) (\<lambda>seen.
               first_error (check_present seen) (ba_platforms b)))))))"

section \<open>Choosing a platform and projecting declarations\<close>

definition host_platform :: "buildable \<Rightarrow> string \<Rightarrow> string \<Rightarrow> build_error + (string \<times> platform)" where
  "host_platform b os arch =
     (case List.find (\<lambda>n. case map_of (ba_platforms b) n of
                None \<Rightarrow> False
              | Some p \<Rightarrow> os \<in> set (pf_os p) \<and> arch \<in> set (pf_arch p))
             (sort (List.map fst (ba_platforms b))) of
        None \<Rightarrow> Inl (Invalid ''host platform is unsupported'' [os, arch])
      | Some n \<Rightarrow> Inr (n, the (map_of (ba_platforms b) n)))"

definition executable_output :: "platform \<Rightarrow> build_output option" where
  "executable_output p = List.find bo_executable (outputs_or_empty p)"

definition declared_output :: "platform \<Rightarrow> string \<Rightarrow> build_output option" where
  "declared_output p path = find_declared (outputs_or_empty p) path"

record projection_owner =
  po_identity :: string
  po_path :: string
  po_source :: string
  po_buildables :: "(string \<times> buildable) list"

record projected_buildable =
  pb_owner :: string
  pb_path :: string
  pb_source_digest :: string
  pb_identity :: string
  pb_declaration :: buildable

text \<open>The buildables of one owner, added to those projected so far.\<close>

fun project_owner ::
    "(string \<Rightarrow> string) \<Rightarrow> (string \<times> buildable \<Rightarrow> string) \<Rightarrow> projection_owner \<Rightarrow>
     (string \<times> projected_buildable) list \<Rightarrow> (string \<times> buildable) list \<Rightarrow>
     build_error + (string \<times> projected_buildable) list" where
  "project_owner digest fingerprint owner acc [] = Inr acc"
| "project_owner digest fingerprint owner acc ((name, b) # bs) =
     result_bind (validate_name name) (\<lambda>_.
     result_bind (validate_for_name b name) (\<lambda>_.
       if map_of acc name \<noteq> None then Inl (Invalid ''buildable is declared by two owners'' [name, po_identity owner])
       else
         project_owner digest fingerprint owner
           (acc @ [(name, \<lparr>pb_owner = po_identity owner, pb_path = po_path owner,
              pb_source_digest = digest (po_source owner),
              pb_identity = fingerprint (normalize_declaration name b), pb_declaration = b\<rparr>)]) bs))"

fun encode_projection ::
    "(string \<Rightarrow> string) \<Rightarrow> (string \<times> buildable \<Rightarrow> string) \<Rightarrow>
     (string \<times> projected_buildable) list \<Rightarrow> projection_owner list \<Rightarrow>
     build_error + (string \<times> projected_buildable) list" where
  "encode_projection digest fingerprint acc [] = Inr acc"
| "encode_projection digest fingerprint acc (w # ws) =
     (if blank (po_identity w) then Inl (Invalid ''buildable owner identity is empty'' [])
      else
        result_bind (check_relative_path (po_path w)) (\<lambda>_.
          if po_source w = [] then Inl (Invalid ''workbench.pkl source is empty'' [po_identity w])
          else result_bind (project_owner digest fingerprint w acc (po_buildables w))
            (\<lambda>acc'. encode_projection digest fingerprint acc' ws)))"

end
