(* ===== verification/Build_Outputs.thy ===== *)
theory Build_Outputs
  imports Build_Contract
begin

text \<open>
  What validation establishes about outputs: a valid declaration never gives two outputs one
  place, on any platform and whatever the case of the letters, and a valid manifest lists
  exactly the declared outputs. \<open>declared_places\<close> and \<open>manifest_places\<close> name the place of an
  output: its platform and its clean path.
\<close>

definition declared_places :: "(string \<times> platform) list \<Rightarrow> (string \<times> string) list" where
  "declared_places ps =
     concat (List.map (\<lambda>e. List.map (\<lambda>d. (fst e, clean_path (bo_path d))) (outputs_or_empty (snd e))) ps)"

definition manifest_place :: "artifact_output \<Rightarrow> string \<times> string" where
  "manifest_place out = (ao_platform out, clean_path (ao_path out))"

definition normal_paths :: "(string \<times> platform) list \<Rightarrow> string list" where
  "normal_paths ps = concat (List.map (\<lambda>e. List.map (\<lambda>d. normal_path (bo_path d)) (outputs_or_empty (snd e))) ps)"

lemma duplicates_from_iff: "\<not> duplicates_from seen vs \<longleftrightarrow> distinct vs \<and> [] \<notin> set vs \<and> set vs \<inter> set seen = {}"
  by (induction seen vs rule: duplicates_from.induct) auto

lemma duplicates_iff: "\<not> duplicates vs \<longleftrightarrow> distinct vs \<and> [] \<notin> set vs"
  by (simp add: duplicates_def duplicates_from_iff)

section \<open>Declarations\<close>

lemma outputs_loop_Inr:
  "outputs_loop p seen dests execs outs = Inr (seen', execs') \<Longrightarrow>
     set seen' = (\<lambda>d. normal_path (bo_path d)) ` set outs \<union> set seen \<and>
     distinct (List.map (\<lambda>d. normal_path (bo_path d)) outs) \<and> (\<lambda>d. normal_path (bo_path d)) ` set outs \<inter> set seen = {} \<and>
     (\<forall>d \<in> set outs. check_relative_path (bo_path d) = Inr () \<and> bo_kind d \<noteq> []) \<and>
     execs' = execs + length (filter bo_executable outs)"
proof (induction p seen dests execs outs rule: outputs_loop.induct)
  case (2 p seen dests execs out os)
  let ?n = "normal_path (bo_path out)"
  from 2(3) have checked: "check_relative_path (bo_path out) = Inr ()" "?n \<notin> set seen" "bo_kind out \<noteq> []"
    by (auto split: if_splits)
  obtain ds where rest: "outputs_loop p (?n # seen) ds (if bo_executable out then Suc execs else execs) os =
      Inr (seen', execs')"
    and ds: "ds = dests \<and> pf_outputs p = [] \<or>
      ds = normal_path (bo_destination out) # dests \<and> pf_outputs p \<noteq> [] \<and>
      check_relative_path (bo_destination out) = Inr () \<and> normal_path (bo_destination out) \<notin> set dests"
    using 2(3) checked by (auto simp: Let_def split: if_splits)
  have "set seen' = (\<lambda>d. normal_path (bo_path d)) ` set os \<union> set (?n # seen) \<and>
     distinct (List.map (\<lambda>d. normal_path (bo_path d)) os) \<and> (\<lambda>d. normal_path (bo_path d)) ` set os \<inter> set (?n # seen) = {} \<and>
     (\<forall>d \<in> set os. check_relative_path (bo_path d) = Inr () \<and> bo_kind d \<noteq> []) \<and>
     execs' = (if bo_executable out then Suc execs else execs) + length (filter bo_executable os)"
    using ds
  proof (elim disjE conjE)
    assume "ds = dests" "pf_outputs p = []"
    then show ?thesis using 2(1) [OF checked(2,3) refl refl] rest by simp
  next
    assume "ds = normal_path (bo_destination out) # dests" "pf_outputs p \<noteq> []"
      "normal_path (bo_destination out) \<notin> set dests"
    then show ?thesis using 2(2) [OF checked(2,3) refl refl] rest by simp
  qed
  then show ?case using checked by auto
qed simp

lemma validate_platform_Inr:
  assumes "validate_platform seen name p = Inr seen'"
  shows "platform_outputs p = Inr (outputs_or_empty p)"
    and "set seen' = set (normal_paths [(name, p)]) \<union> set seen"
    and "distinct (normal_paths [(name, p)])"
    and "set (normal_paths [(name, p)]) \<inter> set seen = {}"
    and "\<forall>d \<in> set (outputs_or_empty p). check_relative_path (bo_path d) = Inr () \<and> bo_kind d \<noteq> []"
    and "length (filter bo_executable (outputs_or_empty p)) \<le> 1"
    and "\<forall>l \<in> set (outputs_or_empty p). \<forall>r \<in> set (outputs_or_empty p). collision p l r = Inr ()"
proof -
  from assms obtain outputs execs where parts: "platform_outputs p = Inr outputs"
      "outputs_loop p seen [] 0 outputs = Inr (seen', execs)" "\<not> execs > 1"
      "\<forall>l \<in> set outputs. \<forall>r \<in> set outputs. collision p l r = Inr ()"
    unfolding validate_platform_def by (auto split: if_splits prod.splits)
  have outputs: "outputs_or_empty p = outputs" using parts(1) by (simp add: outputs_or_empty_def)
  note loop = outputs_loop_Inr [OF parts(2)]
  show "platform_outputs p = Inr (outputs_or_empty p)" using parts(1) outputs by simp
  show "set seen' = set (normal_paths [(name, p)]) \<union> set seen" using loop outputs by (auto simp: normal_paths_def)
  show "distinct (normal_paths [(name, p)])" using loop outputs by (simp add: normal_paths_def comp_def)
  show "set (normal_paths [(name, p)]) \<inter> set seen = {}" using loop outputs by (auto simp: normal_paths_def)
  show "\<forall>d \<in> set (outputs_or_empty p). check_relative_path (bo_path d) = Inr () \<and> bo_kind d \<noteq> []"
    using loop outputs by simp
  show "length (filter bo_executable (outputs_or_empty p)) \<le> 1" using loop outputs parts(3) by simp
  show "\<forall>l \<in> set (outputs_or_empty p). \<forall>r \<in> set (outputs_or_empty p). collision p l r = Inr ()"
    using parts(4) outputs by simp
qed

definition platform_sound :: "platform \<Rightarrow> bool" where
  "platform_sound p \<longleftrightarrow>
     platform_outputs p = Inr (outputs_or_empty p) \<and>
     (\<forall>d \<in> set (outputs_or_empty p). check_relative_path (bo_path d) = Inr ()) \<and>
     length (filter bo_executable (outputs_or_empty p)) \<le> 1 \<and>
     (\<forall>l \<in> set (outputs_or_empty p). \<forall>r \<in> set (outputs_or_empty p). collision p l r = Inr ())"

lemma platforms_loop_Inr:
  "platforms_loop seen ps = Inr u \<Longrightarrow>
     distinct (normal_paths ps) \<and> set (normal_paths ps) \<inter> set seen = {} \<and> (\<forall>e \<in> set ps. platform_sound (snd e))"
proof (induction seen ps rule: platforms_loop.induct)
  case (2 seen e ps)
  then obtain seen' where v: "validate_platform seen (fst e) (snd e) = Inr seen'" "platforms_loop seen' ps = Inr u"
    by auto
  have split: "normal_paths (e # ps) = normal_paths [e] @ normal_paths ps" by (simp add: normal_paths_def)
  have "platform_sound (snd e)" using validate_platform_Inr [OF v(1)] by (auto simp: platform_sound_def)
  moreover have "distinct (normal_paths ps)" "set (normal_paths ps) \<inter> set seen' = {}"
    "\<forall>e \<in> set ps. platform_sound (snd e)" using 2(1) [OF v(2)] by simp_all
  moreover have "set seen' = set (normal_paths [e]) \<union> set seen" "distinct (normal_paths [e])"
    "set (normal_paths [e]) \<inter> set seen = {}" using validate_platform_Inr(2-4) [OF v(1)] by simp_all
  ultimately show ?case unfolding split by auto
qed (simp add: normal_paths_def)

lemma validate_buildable_platforms:
  assumes "validate_buildable b = Inr u"
  shows "distinct (normal_paths (ba_platforms b))" "\<forall>e \<in> set (ba_platforms b). platform_sound (snd e)"
proof -
  have "platforms_loop [] (ba_platforms b) = Inr u"
    using assms unfolding validate_buildable_def by (auto split: if_splits)
  from platforms_loop_Inr [OF this]
  show "distinct (normal_paths (ba_platforms b))" "\<forall>e \<in> set (ba_platforms b). platform_sound (snd e)" by simp_all
qed

section \<open>Places\<close>

lemma clean_segments_subset: "set (clean_segments rooted ss) \<subseteq> insert ''..'' (set ss)"
proof -
  have "set (foldl (clean_segment rooted) kept ss) \<subseteq> insert ''..'' (set kept \<union> set ss)" for kept
  proof (induction ss arbitrary: kept)
    case (Cons s ss)
    have "set (clean_segment rooted kept s) \<subseteq> insert ''..'' (insert s (set kept))"
      by (auto simp: clean_segment_def split: list.splits if_splits)
    then show ?case using Cons.IH [of "clean_segment rooted kept s"] by auto
  qed auto
  from this [of "[]"] show ?thesis by (simp add: clean_segments_def)
qed

lemma split_on_chars: "l \<in> set (split_on c s) \<Longrightarrow> set l \<subseteq> set s"
proof (induction c s arbitrary: l rule: split_on.induct)
  case (2 c x xs)
  have "set m \<subseteq> set xs" if "m \<in> set (split_on c xs)" for m using 2(1,2) that by (cases "x = c") auto
  then show ?case using 2(3) by (fastforce split: list.splits if_splits)
qed simp

lemma join_chars: "set (join s xs) \<subseteq> set s \<union> \<Union> (set ` set xs)"
  by (induction s xs rule: join.induct) auto

lemma clean_path_chars: "set (clean_path p) \<subseteq> {sep, CHR ''.''} \<union> set p"
proof -
  let ?ss = "clean_segments (is_abs p) (split_on sep p)"
  have "set s \<subseteq> {sep, CHR ''.''} \<union> set p" if "s \<in> set ?ss" for s
    using clean_segments_subset that split_on_chars by fastforce
  then have "set (join [sep] ?ss) \<subseteq> {sep, CHR ''.''} \<union> set p" using join_chars [of "[sep]" ?ss] by fastforce
  then show ?thesis by (auto simp: clean_path_def Let_def)
qed

lemma relative_no_nul:
  assumes "check_relative_path p = Inr ()"
  shows "CHR 0x00 \<notin> set (clean_path p)"
proof -
  have "\<not> list_ex is_control p" using assms by (simp add: check_relative_path_def split: if_splits)
  then have "CHR 0x00 \<notin> set p" by (auto simp: list_ex_iff is_control_def)
  then show ?thesis using clean_path_chars [of p] by (auto simp: sep_def)
qed

lemma output_key_inj:
  assumes "output_key n p = output_key m q" and "CHR 0x00 \<notin> set (clean_path p)" and "CHR 0x00 \<notin> set (clean_path q)"
  shows "n = m \<and> clean_path p = clean_path q"
proof -
  have "cut CHR 0x00 (rev (clean_path p) @ CHR 0x00 # rev n) = cut CHR 0x00 (rev (clean_path q) @ CHR 0x00 # rev m)"
    using arg_cong [OF assms(1), of rev] by (simp add: output_key_def)
  then show ?thesis using assms(2,3) by (simp add: cut_append)
qed

section \<open>Manifests\<close>

definition facts_agree :: "(string \<times> platform) list \<Rightarrow> artifact_output \<Rightarrow> bool" where
  "facts_agree ps out \<longleftrightarrow>
     (\<exists>p outputs d. map_of ps (ao_platform out) = Some p \<and> platform_outputs p = Inr outputs \<and> d \<in> set outputs \<and>
        clean_path (bo_path d) = clean_path (ao_path out) \<and> check_facts p d out = Inr ())"

lemma find_declared_Some:
  "find_declared outputs p = Some d \<Longrightarrow> d \<in> set outputs \<and> clean_path (bo_path d) = clean_path p"
  by (auto simp: find_declared_def find_Some_iff)

lemma manifest_outputs_Inr:
  "manifest_outputs ps seen outs = Inr seen' \<Longrightarrow>
     seen' = rev (List.map (\<lambda>out. output_key (ao_platform out) (ao_path out)) outs) @ seen \<and>
     distinct (List.map (\<lambda>out. output_key (ao_platform out) (ao_path out)) outs) \<and>
     (\<forall>out \<in> set outs. output_key (ao_platform out) (ao_path out) \<notin> set seen \<and> facts_agree ps out)"
proof (induction ps seen outs rule: manifest_outputs.induct)
  case (2 ps seen out os)
  let ?key = "output_key (ao_platform out) (ao_path out)"
  from 2(2) obtain p outputs d where step: "map_of ps (ao_platform out) = Some p" "platform_outputs p = Inr outputs"
      "?key \<notin> set seen" "find_declared outputs (ao_path out) = Some d" "check_facts p d out = Inr ()"
      "manifest_outputs ps (?key # seen) os = Inr seen'"
    by (auto split: option.splits if_splits)
  have "facts_agree ps out"
    unfolding facts_agree_def using step find_declared_Some [OF step(4)] by blast
  moreover have "seen' = rev (List.map (\<lambda>out. output_key (ao_platform out) (ao_path out)) os) @ ?key # seen"
    "distinct (List.map (\<lambda>out. output_key (ao_platform out) (ao_path out)) os)"
    "\<forall>out \<in> set os. output_key (ao_platform out) (ao_path out) \<notin> set (?key # seen) \<and> facts_agree ps out"
    using 2(1) [OF step(1,3,4,6)] by simp_all
  ultimately show ?case using step(3) by auto
qed simp

lemma place_declared:
  assumes "facts_agree ps out"
  shows "manifest_place out \<in> set (declared_places ps)"
proof -
  from assms obtain p outputs d where "(ao_platform out, p) \<in> set ps" "outputs_or_empty p = outputs" "d \<in> set outputs"
      "clean_path (bo_path d) = clean_path (ao_path out)"
    unfolding facts_agree_def outputs_or_empty_def by (auto dest!: map_of_SomeD)
  then show ?thesis unfolding declared_places_def manifest_place_def by (force intro!: bexI [of _ "(ao_platform out, p)"])
qed

lemma declared_places_distinct:
  assumes "distinct (normal_paths ps)"
  shows "distinct (declared_places ps)"
proof -
  have "List.map (\<lambda>e. to_lower (snd e)) (declared_places ps) = normal_paths ps"
    by (simp add: declared_places_def normal_paths_def map_concat comp_def normal_path_def)
  then show ?thesis using assms by (metis distinct_map)
qed

lemma manifest_place_no_nul:
  assumes "facts_agree ps out" and "\<forall>e \<in> set ps. platform_sound (snd e)"
  shows "CHR 0x00 \<notin> set (clean_path (ao_path out))"
proof -
  from assms(1) obtain p d where p: "(ao_platform out, p) \<in> set ps" "d \<in> set (outputs_or_empty p)"
      "clean_path (bo_path d) = clean_path (ao_path out)"
    unfolding facts_agree_def outputs_or_empty_def by (auto dest!: map_of_SomeD)
  then have "check_relative_path (bo_path d) = Inr ()" using assms(2) by (auto simp: platform_sound_def)
  then show ?thesis using relative_no_nul p(3) by metis
qed

lemma manifest_complete:
  assumes sound: "\<forall>e \<in> set ps. platform_sound (snd e)"
    and listed: "\<forall>out \<in> set outs. facts_agree ps out"
    and seen: "set seen = (\<lambda>out. output_key (ao_platform out) (ao_path out)) ` set outs"
    and present: "first_error (check_present seen) ps = Inr ()"
  shows "set (declared_places ps) \<subseteq> manifest_place ` set outs"
proof
  fix x assume "x \<in> set (declared_places ps)"
  then obtain e d where e: "e \<in> set ps" "d \<in> set (outputs_or_empty (snd e))" "x = (fst e, clean_path (bo_path d))"
    by (auto simp: declared_places_def)
  then have "output_key (fst e) (bo_path d) \<in> set seen"
    using present by (fastforce simp: check_present_def split: if_splits)
  then obtain out where out: "out \<in> set outs" "output_key (fst e) (bo_path d) = output_key (ao_platform out) (ao_path out)"
    using seen by auto
  moreover have "CHR 0x00 \<notin> set (clean_path (bo_path d))"
    using sound e relative_no_nul by (auto simp: platform_sound_def)
  moreover have "CHR 0x00 \<notin> set (clean_path (ao_path out))"
    using manifest_place_no_nul listed out(1) sound by blast
  ultimately have "x = manifest_place out"
    using output_key_inj [OF out(2)] e(3) by (simp add: manifest_place_def)
  then show "x \<in> manifest_place ` set outs" using out(1) by blast
qed

lemma validate_manifest_Inr:
  assumes "validate_manifest fingerprint name b m = Inr u"
  shows "check_identity fingerprint name b m = Inr ()"
    and "\<exists>seen. manifest_outputs (ba_platforms b) [] (am_outputs m) = Inr seen \<and>
      first_error (check_present seen) (ba_platforms b) = Inr ()"
  using assms unfolding validate_manifest_def by (auto simp: Let_def simp del: first_error_Inr split: if_splits)

lemma check_identity_valid:
  "check_identity fingerprint name b m = Inr u \<Longrightarrow> name \<noteq> [] \<Longrightarrow> validate_buildable b = Inr ()"
  by (auto simp: check_identity_def declaration_identity_def validate_for_name_def)

lemma manifest_places_exact:
  assumes valid: "validate_manifest fingerprint name b m = Inr u" and name: "name \<noteq> []"
  shows "image_mset manifest_place (mset (am_outputs m)) = mset (declared_places (ba_platforms b))"
    and "\<forall>out \<in> set (am_outputs m). facts_agree (ba_platforms b) out"
proof -
  let ?ps = "ba_platforms b" and ?outs = "am_outputs m"
  have b: "validate_buildable b = Inr ()" using check_identity_valid [OF validate_manifest_Inr(1) [OF valid] name] .
  obtain seen where seen: "manifest_outputs ?ps [] ?outs = Inr seen" "first_error (check_present seen) ?ps = Inr ()"
    using validate_manifest_Inr(2) [OF valid] by blast
  note listed = manifest_outputs_Inr [OF seen(1)]
  show agree: "\<forall>out \<in> set ?outs. facts_agree ?ps out" using listed by blast
  have "List.map (\<lambda>out. output_key (ao_platform out) (ao_path out)) ?outs =
      List.map (\<lambda>x. fst x @ CHR 0x00 # snd x) (List.map manifest_place ?outs)"
    by (simp add: output_key_def manifest_place_def)
  with listed have "distinct (List.map (\<lambda>x. fst x @ CHR 0x00 # snd x) (List.map manifest_place ?outs))" by argo
  then have "distinct (List.map manifest_place ?outs)" unfolding distinct_map [of "\<lambda>x. fst x @ CHR 0x00 # snd x"] ..
  moreover have "distinct (declared_places ?ps)"
    using declared_places_distinct validate_buildable_platforms(1) [OF b] by blast
  moreover have "set (List.map manifest_place ?outs) = set (declared_places ?ps)"
  proof
    show "set (List.map manifest_place ?outs) \<subseteq> set (declared_places ?ps)" using place_declared agree by auto
    have "set seen = (\<lambda>out. output_key (ao_platform out) (ao_path out)) ` set ?outs" using listed by simp
    from manifest_complete [OF validate_buildable_platforms(2) [OF b] agree this seen(2)]
    show "set (declared_places ?ps) \<subseteq> set (List.map manifest_place ?outs)" by simp
  qed
  ultimately show "image_mset manifest_place (mset ?outs) = mset (declared_places ?ps)"
    by (metis mset_map set_eq_iff_mset_eq_distinct)
qed

end
