(* ===== verification/Repo_Contract.thy ===== *)
theory Repo_Contract
  imports Build_Contract
begin

text \<open>
  Identities and placement of repositories (\<^verbatim>\<open>internal/contract/contract.go\<close> and
  \<^verbatim>\<open>v020.go\<close>): the validated parts of Subjects, package-scope repositories, resource
  shapes, agent instructions, commit plans and snapshots. The records are what the strict
  JSON decoder delivers. A Go map is an association list in the order of its range, so the
  first error found is the first in that order.

  An error is \<open>Refused what about\<close>: the message of the source and what it quotes.
\<close>

datatype repo_error =
    Refused string "string list"
  | ConflictError string string string string
  | BuildableRefused string build_error

section \<open>Patterns\<close>

definition is_package_scope :: "string \<Rightarrow> bool" where
  "is_package_scope s = (case s of [] \<Rightarrow> False | c # cs \<Rightarrow> c = CHR ''@'' \<and> is_leaf_name cs)"

definition is_change_id :: "string \<Rightarrow> bool" where
  "is_change_id s = is_leaf_name s"

definition name_char :: "char \<Rightarrow> bool" where
  "name_char c \<longleftrightarrow> is_upper c \<or> is_lower c \<or> is_digit c \<or> c = CHR ''_'' \<or> c = CHR ''.'' \<or> c = CHR ''-''"

definition is_github_name :: "string \<Rightarrow> bool" where
  "is_github_name s =
     (case cut CHR ''/'' s of
        (owner, name, found) \<Rightarrow>
          found \<and> owner \<noteq> [] \<and> name \<noteq> [] \<and> list_all name_char owner \<and> list_all name_char name)"

definition is_commit_id :: "string \<Rightarrow> bool" where
  "is_commit_id s \<longleftrightarrow> (length s = 40 \<or> length s = 64) \<and> list_all lower_hex s"

section \<open>GitHub designations\<close>

text \<open>
  What \<^verbatim>\<open>url.Parse\<close> makes of a designation, as far as \<open>GitHubIdentity\<close> looks at it: the
  escaped path when scheme, host, query and fragment are the wanted ones. A host that is
  not literally \<^verbatim>\<open>github.com\<close> is refused by the parser or by the comparison.
\<close>

fun unescape :: "string \<Rightarrow> string option" where
  "unescape [] = Some []"
| "unescape (c # s) =
     (if c = CHR ''%'' then
        (case s of
           x # y # t \<Rightarrow>
             (case (from_hex x, from_hex y) of
                (Some a, Some b) \<Rightarrow> map_option ((#) (char_of (16 * a + b))) (unescape t)
              | _ \<Rightarrow> None)
         | _ \<Rightarrow> None)
      else map_option ((#) c) (unescape s))"

text \<open>\<^verbatim>\<open>getScheme\<close> on a designation with a scheme: a letter, then letters, digits and \<open>+-.\<close>.\<close>

definition scheme_of :: "string \<Rightarrow> (string \<times> string) option" where
  "scheme_of s =
     (case cut CHR '':'' s of
        (scheme, rest, found) \<Rightarrow>
          if found \<and> scheme \<noteq> [] \<and> (is_upper (hd scheme) \<or> is_lower (hd scheme)) \<and>
             list_all (\<lambda>c. is_upper c \<or> is_lower c \<or> is_digit c \<or> c \<in> set ''+-.'') (tl scheme)
          then Some (to_lower scheme, rest) else None)"

definition userinfo_char :: "char \<Rightarrow> bool" where
  "userinfo_char c \<longleftrightarrow> is_upper c \<or> is_lower c \<or> is_digit c \<or> c \<in> set ''-._:~!$&'' \<or> c = CHR 0x27 \<or>
     c \<in> set ''()*+,;=%@''"

text \<open>The authority is the user information, if any, and the host after the last \<open>@\<close>.\<close>

definition authority_ok :: "string \<Rightarrow> bool" where
  "authority_ok authority \<longleftrightarrow>
     (let host = rev (takeWhile (\<lambda>c. c \<noteq> CHR ''@'') (rev authority));
          prior = take (length authority - length host) authority;
          userinfo = take (length prior - 1) prior
      in host = ''github.com'' \<and>
         (prior = [] \<or>
          list_all userinfo_char userinfo \<and>
          (case cut CHR '':'' userinfo of (name, secret, _) \<Rightarrow> unescape name \<noteq> None \<and> unescape secret \<noteq> None)))"

definition github_path :: "string \<Rightarrow> string option" where
  "github_path designation =
     (case cut CHR ''#'' designation of (u, fragment, _) \<Rightarrow>
        if fragment \<noteq> [] \<or> list_ex is_control u then None
        else case scheme_of u of
            None \<Rightarrow> None
          | Some (scheme, rest) \<Rightarrow>
              (case cut CHR ''?'' rest of (hier, query, _) \<Rightarrow>
                 if scheme \<noteq> ''https'' \<or> query \<noteq> [] \<or> \<not> has_prefix hier ''//'' then None
                 else let authority = takeWhile (\<lambda>c. c \<noteq> CHR ''/'') (drop 2 hier);
                          path = drop (length authority) (drop 2 hier)
                      in if authority_ok authority then unescape path else None))"

text \<open>\<^verbatim>\<open>strings.Trim\<close> with a cutset of one character.\<close>

definition trim_both :: "'a \<Rightarrow> 'a list \<Rightarrow> 'a list" where
  "trim_both c s = trim_right c (dropWhile (\<lambda>x. x = c) s)"

definition github_identity :: "string \<Rightarrow> repo_error + string" where
  "github_identity designation =
     (case github_path designation of
        None \<Rightarrow> Inl (Refused ''expected an HTTPS github.com repository URL'' [designation])
      | Some path \<Rightarrow>
          let identity = trim_both CHR ''/'' (trim_suffix path ''.git'')
          in if \<not> is_github_name identity then Inl (Refused ''invalid GitHub repository path'' [path])
             else Inr (to_lower identity))"

definition normalize_github_repository :: "string \<Rightarrow> repo_error + string" where
  "normalize_github_repository designation =
     (if \<not> is_github_name designation then Inl (Refused ''GitHub repository is invalid'' [designation])
      else case cut CHR ''/'' designation of
          (owner, name, ok) \<Rightarrow>
            if \<not> ok \<or> has_suffix (to_lower name) ''.git''
            then Inl (Refused ''GitHub repository is invalid'' [designation])
            else Inr (to_lower (owner @ ''/'' @ name)))"

section \<open>Subjects and package-scope repositories\<close>

record work_line =
  wl_branch :: string
  wl_base :: string

record subject =
  sj_work_line :: work_line
  sj_entrypoints :: "string list"

record skill_selection =
  sk_all :: bool
  sk_domains :: "string list"
  sk_names :: "string list"

record skill_policy =
  sp_editing :: "skill_selection option"
  sp_workbench :: "skill_selection option"

record repo_include =
  ic_github :: string
  ic_skills :: "skill_policy option"

record package_policy =
  pp_dependencies :: "(string \<times> string) list"
  pp_dev_dependencies :: "(string \<times> string) list"
  pp_required :: "(string \<times> string) list"
  pp_peer_dependencies :: "(string \<times> string) list"
  pp_optional_dependencies :: "(string \<times> string) list"
  pp_imports :: "(string \<times> string) list"
  pp_exports :: "(string \<times> string) list"

record package_repository =
  pr_scope :: string
  pr_includes :: "(string \<times> repo_include) list"
  pr_packages :: "(string \<times> package_policy) list"

definition entrypoint_check :: "string \<Rightarrow> repo_error + unit" where
  "entrypoint_check e = (case github_identity e of Inl err \<Rightarrow> Inl err | Inr _ \<Rightarrow> Inr ())"

definition validate_subject :: "subject \<Rightarrow> repo_error + unit" where
  "validate_subject s =
     (if blank (wl_branch (sj_work_line s)) then Inl (Refused ''Subject workLine.branch is empty'' [])
      else if blank (wl_base (sj_work_line s)) then Inl (Refused ''Subject workLine.baseBranch is empty'' [])
      else if sj_entrypoints s = [] then Inl (Refused ''Subject entrypoints is empty'' [])
      else first_error entrypoint_check (sj_entrypoints s))"

definition include_check :: "string \<times> repo_include \<Rightarrow> repo_error + unit" where
  "include_check e =
     (if \<not> is_package_scope (fst e) then Inl (Refused ''include designation is not a package scope'' [fst e])
      else if \<not> is_github_name (ic_github (snd e))
      then Inl (Refused ''include GitHub repository is invalid'' [fst e, ic_github (snd e)])
      else Inr ())"

definition validate_repository :: "package_repository \<Rightarrow> repo_error + unit" where
  "validate_repository r =
     (if \<not> is_package_scope (pr_scope r) then Inl (Refused ''repository scope is not a package scope'' [pr_scope r])
      else first_error include_check (pr_includes r))"

definition repository_path :: "package_repository \<Rightarrow> string" where
  "repository_path r = ''pkg/'' @ pr_scope r"

definition sorted_unique :: "string list \<Rightarrow> string list" where
  "sorted_unique values = sort (remdups values)"

section \<open>Resource shapes\<close>

record resource_shape =
  rs_kind :: string
  rs_scope :: string

definition validate_shape :: "resource_shape \<Rightarrow> repo_error + unit" where
  "validate_shape s =
     (if rs_kind s = ''packageScope'' then
        (if \<not> is_package_scope (rs_scope s) then Inl (Refused ''scope is not a package scope'' [rs_scope s]) else Inr ())
      else if rs_kind s = ''repository'' then
        (if rs_scope s \<noteq> [] then Inl (Refused ''Repository shape cannot carry package scope'' [rs_scope s]) else Inr ())
      else Inl (Refused ''unknown resource shape'' [rs_kind s]))"

definition shape_identity :: "resource_shape \<Rightarrow> string \<Rightarrow> repo_error + string" where
  "shape_identity s github =
     (case validate_shape s of
        Inl e \<Rightarrow> Inl e
      | Inr _ \<Rightarrow> if rs_kind s = ''packageScope'' then Inr (rs_scope s) else normalize_github_repository github)"

definition shape_path :: "resource_shape \<Rightarrow> string \<Rightarrow> repo_error + string" where
  "shape_path s github =
     (case shape_identity s github of
        Inl e \<Rightarrow> Inl e
      | Inr identity \<Rightarrow>
          if rs_kind s = ''packageScope'' then Inr (''pkg/'' @ identity)
          else (case cut CHR ''/'' identity of (_, name, _) \<Rightarrow> Inr (''repos/'' @ name)))"

definition package_scope_leaf :: "string \<Rightarrow> string \<Rightarrow> repo_error + string" where
  "package_scope_leaf scope name =
     (let leaf = trim_prefix name (scope @ ''/'')
      in if leaf = name \<or> length name > 214 \<or> \<not> is_leaf_name leaf
         then Inl (Refused ''package identity must be exactly scope/leaf'' [name, scope]) else Inr leaf)"

definition package_directory :: "resource_shape \<Rightarrow> string list \<Rightarrow> string \<Rightarrow> repo_error + string" where
  "package_directory s declared name =
     (if rs_kind s \<noteq> ''packageScope'' then Inl (Refused ''Repository shape does not derive package directories'' [])
      else if name \<notin> set declared then Inl (Refused ''package identity is not declared'' [name])
      else package_scope_leaf (rs_scope s) name)"

definition valid_resource_identity :: "string \<Rightarrow> bool" where
  "valid_resource_identity identity =
     (if is_package_scope identity then True
      else normalize_github_repository identity = Inr identity)"

text \<open>
  The declaration of a released contract: shape, includes by GitHub name, packages and
  buildables. The verification members (verifiers, gates, focuses) are not modelled.
\<close>

record repo_declaration =
  dc_shape :: resource_shape
  dc_includes :: "(string \<times> skill_policy option) list"
  dc_packages :: "(string \<times> package_policy) list"
  dc_buildables :: "(string \<times> buildable) list"

definition buildable_check :: "string \<times> buildable \<Rightarrow> repo_error + unit" where
  "buildable_check e =
     (case validate_name (fst e) of
        Inl err \<Rightarrow> Inl (BuildableRefused (fst e) err)
      | Inr _ \<Rightarrow> (case validate_for_name (snd e) (fst e) of
                  Inl err \<Rightarrow> Inl (BuildableRefused (fst e) err) | Inr _ \<Rightarrow> Inr ()))"

definition designation_check :: "string \<Rightarrow> repo_error + unit" where
  "designation_check d = (case normalize_github_repository d of Inl e \<Rightarrow> Inl e | Inr _ \<Rightarrow> Inr ())"

definition validate_declaration :: "repo_declaration \<Rightarrow> repo_error + unit" where
  "validate_declaration d =
     result_bind (validate_shape (dc_shape d)) (\<lambda>_.
     result_bind (first_error designation_check (List.map fst (dc_includes d))) (\<lambda>_.
       first_error buildable_check (dc_buildables d)))"

text \<open>The further check of the 0.3 decoder: every package is a leaf of the scope.\<close>

definition validate_declaration_v030 :: "repo_declaration \<Rightarrow> repo_error + unit" where
  "validate_declaration_v030 d =
     result_bind (validate_declaration d) (\<lambda>_.
       first_error (\<lambda>n. result_bind (package_scope_leaf (rs_scope (dc_shape d)) n) (\<lambda>_. Inr ()))
         (List.map fst (dc_packages d)))"

section \<open>Relative paths and commit plans\<close>

definition split_both :: "string \<Rightarrow> string list" where
  "split_both s = split_on CHR ''/'' (map (\<lambda>c. if c = CHR 0x5C then CHR ''/'' else c) s)"

text \<open>
  A component of \<^verbatim>\<open>FieldsFunc\<close> is a nonempty piece between slashes of either kind; only
  dot-dot pieces matter here.
\<close>

definition validate_relative_path :: "string \<Rightarrow> repo_error + unit" where
  "validate_relative_path v =
     (if v = [] \<or> v = ''.'' \<or> has_prefix v ''/'' \<or> CHR 0x00 \<in> set v
      then Inl (Refused ''must be a non-empty relative path'' [v])
      else if length v \<ge> 3 \<and> (is_upper (v ! 0) \<or> is_lower (v ! 0)) \<and> v ! 1 = CHR '':'' \<and>
              (v ! 2 = CHR ''/'' \<or> v ! 2 = CHR 0x5C)
      then Inl (Refused ''must be a relative path'' [v])
      else if ''..'' \<in> set (filter (\<lambda>c. c \<noteq> []) (split_both v)) then Inl (Refused ''must not contain ..'' [v])
      else if clean_path (map (\<lambda>c. if c = CHR 0x5C then CHR ''/'' else c) v) = ''.''
      then Inl (Refused ''must name a path'' [v])
      else Inr ())"

fun unique_paths_from :: "string list \<Rightarrow> string list \<Rightarrow> repo_error + unit" where
  "unique_paths_from seen [] = Inr ()"
| "unique_paths_from seen (v # vs) =
     (case validate_relative_path v of
        Inl e \<Rightarrow> Inl e
      | Inr _ \<Rightarrow>
          if v \<in> set seen then Inl (Refused ''entry is duplicated'' [v]) else unique_paths_from (v # seen) vs)"

definition validate_unique_paths :: "string list \<Rightarrow> repo_error + unit" where
  "validate_unique_paths values = unique_paths_from [] values"

text \<open>The pattern of hunk ids: 4 to 64 hexadecimal digits, then comma-separated ranges.\<close>

definition is_number :: "string \<Rightarrow> bool" where
  "is_number s \<longleftrightarrow> s \<noteq> [] \<and> list_all is_digit s"

definition is_hunk_range :: "string \<Rightarrow> bool" where
  "is_hunk_range s = (case cut CHR ''-'' s of (a, b, found) \<Rightarrow> is_number a \<and> (found \<longrightarrow> is_number b))"

definition is_hunk_id :: "string \<Rightarrow> bool" where
  "is_hunk_id s =
     (case cut CHR '':'' s of (h, ranges, found) \<Rightarrow>
        4 \<le> length h \<and> length h \<le> 64 \<and> list_all (\<lambda>c. from_hex c \<noteq> None) h \<and>
        (found \<longrightarrow> list_all is_hunk_range (split_on CHR '','' ranges)))"

fun hunk_ids_from :: "string list \<Rightarrow> string list \<Rightarrow> repo_error + unit" where
  "hunk_ids_from seen [] = Inr ()"
| "hunk_ids_from seen (h # hs) =
     (if \<not> is_hunk_id h then Inl (Refused ''hunk id is invalid'' [h])
      else if h \<in> set seen then Inl (Refused ''hunk id is duplicated'' [h])
      else hunk_ids_from (h # seen) hs)"

record commit_selection =
  cs_title :: string
  cs_description :: string
  cs_file_paths :: "string list"
  cs_hunk_ids :: "string list"
  cs_unrelated_deleted :: "string list"

definition validate_selection :: "commit_selection \<Rightarrow> repo_error + unit" where
  "validate_selection s =
     (if blank (cs_title s) \<or> CHR 0x0D \<in> set (cs_title s) \<or> CHR 0x0A \<in> set (cs_title s)
      then Inl (Refused ''title must be one non-empty line'' [])
      else if blank (cs_description s) then Inl (Refused ''description is empty'' [])
      else if cs_file_paths s = [] \<and> cs_hunk_ids s = []
      then Inl (Refused ''exact selection needs at least one file path or hunk id'' [])
      else case validate_unique_paths (cs_file_paths s) of
          Inl e \<Rightarrow> Inl e
        | Inr _ \<Rightarrow>
            (case validate_unique_paths (cs_unrelated_deleted s) of
               Inl e \<Rightarrow> Inl e
             | Inr _ \<Rightarrow>
                 (case hunk_ids_from [] (cs_hunk_ids s) of
                    Inl e \<Rightarrow> Inl e
                  | Inr _ \<Rightarrow>
                      first_error (\<lambda>p. if p \<in> set (cs_file_paths s)
                          then Inl (Refused ''path is both selected and an unrelated deletion'' [p]) else Inr ())
                        (cs_unrelated_deleted s))))"

record commit_plan =
  cp_change_id :: string
  cp_summary :: string
  cp_commits :: "(string \<times> commit_selection) list"

definition validate_commit_plan :: "commit_plan \<Rightarrow> repo_error + unit" where
  "validate_commit_plan p =
     (if \<not> is_change_id (cp_change_id p) then Inl (Refused ''changeId is invalid'' [cp_change_id p])
      else if blank (cp_summary p) then Inl (Refused ''summary is empty'' [])
      else if cp_commits p = [] then Inl (Refused ''commits is empty'' [])
      else first_error (\<lambda>c. if \<not> valid_resource_identity (fst c)
              then Inl (Refused ''commit resource identity is invalid'' [fst c])
              else validate_selection (snd c)) (cp_commits p))"

section \<open>Agent instructions and snapshots\<close>

record agent_resource =
  ar_identity :: string
  ar_github :: string
  ar_shape :: resource_shape
  ar_path :: string
  ar_branch :: string
  ar_health :: string

record agent_instructions =
  ai_prose :: string
  ai_subject :: subject
  ai_resources :: "agent_resource list"
  ai_generated :: "string list"
  ai_hand_owned :: "string list"

definition agent_resource_check :: "string list \<Rightarrow> agent_resource \<Rightarrow> repo_error + string" where
  "agent_resource_check seen r =
     (case shape_identity (ar_shape r) (ar_github r) of
        Inl e \<Rightarrow> Inl e
      | Inr identity \<Rightarrow>
          (case shape_path (ar_shape r) (ar_github r) of
             Inl e \<Rightarrow> Inl e
           | Inr path \<Rightarrow>
               if ar_identity r \<noteq> identity \<or> ar_path r \<noteq> path
               then Inl (Refused ''identity or canonical path disagrees with its shape'' [])
               else if blank (ar_branch r) then Inl (Refused ''branch is empty'' [identity])
               else if ar_health r \<notin> {''healthy'', ''missingCheckout'', ''wrongBranch''}
               then Inl (Refused ''unknown health'' [identity, ar_health r])
               else if identity \<in> set seen then Inl (Refused ''resource identity is duplicated'' [identity])
               else Inr identity))"

fun agent_resources_from :: "string list \<Rightarrow> agent_resource list \<Rightarrow> repo_error + unit" where
  "agent_resources_from seen [] = Inr ()"
| "agent_resources_from seen (r # rs) =
     (case agent_resource_check seen r of Inl e \<Rightarrow> Inl e | Inr identity \<Rightarrow> agent_resources_from (identity # seen) rs)"

definition validate_instructions :: "agent_instructions \<Rightarrow> repo_error + unit" where
  "validate_instructions a =
     (if blank (ai_prose a) then Inl (Refused ''prose is empty'' [])
      else case validate_subject (ai_subject a) of
          Inl e \<Rightarrow> Inl e
        | Inr _ \<Rightarrow>
            (case agent_resources_from [] (ai_resources a) of
               Inl e \<Rightarrow> Inl e
             | Inr _ \<Rightarrow> first_error validate_relative_path (ai_generated a @ ai_hand_owned a)))"

record snapshot_resource =
  sr_shape :: resource_shape
  sr_github :: string
  sr_path :: string
  sr_commit :: string

definition snapshot_resource_check :: "string \<times> snapshot_resource \<Rightarrow> repo_error + unit" where
  "snapshot_resource_check e =
     (case shape_identity (sr_shape (snd e)) (sr_github (snd e)) of
        Inl err \<Rightarrow> Inl err
      | Inr identity \<Rightarrow>
          (case shape_path (sr_shape (snd e)) (sr_github (snd e)) of
             Inl err \<Rightarrow> Inl err
           | Inr path \<Rightarrow>
               if fst e \<noteq> identity then Inl (Refused ''snapshot identity disagrees with shape-derived identity'' [fst e, identity])
               else if sr_path (snd e) \<noteq> path
               then Inl (Refused ''canonical path disagrees'' [fst e, sr_path (snd e), path])
               else if \<not> is_commit_id (sr_commit (snd e))
               then Inl (Refused ''commit is not an exact Git object id'' [fst e, sr_commit (snd e)])
               else Inr ()))"

definition validate_snapshot :: "(string \<times> snapshot_resource) list \<Rightarrow> repo_error + unit" where
  "validate_snapshot resources =
     (if resources = [] then Inl (Refused ''WorkbenchSnapshot resources is empty'' [])
      else first_error snapshot_resource_check resources)"

end
