(* ===== verification/Go_Loops.thy ===== *)
theory Go_Loops
  imports Workbench_Prelude
begin

text \<open>
  \<^verbatim>\<open>for cond { ... }\<close> loops that may return an error and whose end depends on the data. The
  loop is a \<open>partial_function\<close>: a run that does not end is \<open>None\<close>.

  The locale \<open>worklist\<close> is the contract of a search that takes one element of its list of
  work, passes over what it has seen, and otherwise marks the element and adds its
  successors. Its lemmas: the search ends when only finitely many elements can be reached,
  and what it has seen in the end is exactly what can be reached.
\<close>

partial_function (option) loop_while :: "('s \<Rightarrow> bool) \<Rightarrow> ('s \<Rightarrow> 'e + 's) \<Rightarrow> 's \<Rightarrow> ('e + 's) option" where
  "loop_while cond step s =
     (if cond s then (case step s of Inl e \<Rightarrow> Some (Inl e) | Inr s' \<Rightarrow> loop_while cond step s') else Some (Inr s))"

declare loop_while.simps [code]

lemma loop_while_unfold:
  "\<not> cond s \<Longrightarrow> loop_while cond step s = Some (Inr s)"
  "cond s \<Longrightarrow> step s = Inl e \<Longrightarrow> loop_while cond step s = Some (Inl e)"
  "cond s \<Longrightarrow> step s = Inr t \<Longrightarrow> loop_while cond step s = loop_while cond step t"
  by (simp_all add: loop_while.simps)

lemma loop_while_invariant:
  assumes "loop_while cond step s = Some r" and "I s"
    and keeps: "\<And>s t. I s \<Longrightarrow> cond s \<Longrightarrow> step s = Inr t \<Longrightarrow> I t"
  shows "case r of Inl e \<Rightarrow> (\<exists>t. I t \<and> cond t \<and> step t = Inl e) | Inr t \<Rightarrow> I t \<and> \<not> cond t"
  using assms
proof (induction cond step s r rule: loop_while.raw_induct [rotated, consumes 1, case_names round])
  case (round loop cond step s r)
  show ?case
  proof (cases "cond s")
    case True
    show ?thesis
    proof (cases "step s")
      case (Inl e)
      then have "r = Inl e" using round(2) True by simp
      then show ?thesis using round(3) True Inl by auto
    next
      case (Inr t)
      then have "loop cond step t = Some r" "I t" using round(2-4) True by auto
      then show ?thesis using round(1,4) by blast
    qed
  next
    case False
    then show ?thesis using round(2,3) by auto
  qed
qed

lemma loop_while_ends:
  assumes "wf R" and "I s"
    and keeps: "\<And>s t. I s \<Longrightarrow> cond s \<Longrightarrow> step s = Inr t \<Longrightarrow> I t \<and> (t, s) \<in> R"
  shows "\<exists>r. loop_while cond step s = Some r"
  using assms(1,2)
proof (induction s rule: wf_induct_rule)
  case (less s)
  show ?case
  proof (cases "cond s")
    case True
    then show ?thesis
      using less.IH less.prems keeps [of s] by (cases "step s") (auto simp: loop_while_unfold)
  qed (simp add: loop_while_unfold)
qed

section \<open>Worklists\<close>

locale worklist =
  fixes step :: "'s \<Rightarrow> 'e + 's"
    and todo :: "'s \<Rightarrow> 'i list"
    and seen :: "'s \<Rightarrow> 'i set"
    and succ :: "'i \<Rightarrow> 'i set"
  assumes step_cases: "todo s \<noteq> [] \<Longrightarrow> step s = Inr t \<Longrightarrow>
      \<exists>i \<in> set (todo s). seen t = insert i (seen s) \<and>
        (if i \<in> seen s then mset (todo s) = add_mset i (mset (todo t))
         else insert i (set (todo t)) = insert i (set (todo s) \<union> succ i))"
begin

definition reach :: "'i set \<Rightarrow> 'i set" where
  "reach E = {(i, j). j \<in> succ i}\<^sup>* `` E"

definition search_covered :: "'i set \<Rightarrow> 's \<Rightarrow> bool" where
  "search_covered E s \<longleftrightarrow>
     set (todo s) \<union> seen s \<subseteq> reach E \<and> E \<subseteq> set (todo s) \<union> seen s \<and>
     (\<forall>i \<in> seen s. succ i \<subseteq> set (todo s) \<union> seen s)"

lemma reach_succ: "i \<in> reach E \<Longrightarrow> succ i \<subseteq> reach E"
  unfolding reach_def by (auto intro: rtrancl_into_rtrancl)

lemma reach_start: "E \<subseteq> reach E"
  by (auto simp: reach_def)

lemma reach_least:
  assumes "E \<subseteq> S" and "\<And>i. i \<in> S \<Longrightarrow> succ i \<subseteq> S"
  shows "reach E \<subseteq> S"
proof
  fix j assume "j \<in> reach E"
  then obtain i where "i \<in> E" "(i, j) \<in> {(i, j). j \<in> succ i}\<^sup>*" by (auto simp: reach_def)
  from this(2,1) show "j \<in> S" using assms by (induction rule: rtrancl_induct) auto
qed

lemma covered_step:
  assumes "search_covered E s" and "todo s \<noteq> []" and "step s = Inr t"
  shows "search_covered E t"
proof -
  from step_cases [OF assms(2,3)] obtain i where i: "i \<in> set (todo s)" "seen t = insert i (seen s)"
    and cases: "if i \<in> seen s then mset (todo s) = add_mset i (mset (todo t))
        else insert i (set (todo t)) = insert i (set (todo s) \<union> succ i)" by blast
  have ir: "i \<in> reach E" using assms(1) i(1) by (auto simp: search_covered_def)
  show ?thesis
  proof (cases "i \<in> seen s")
    case True
    then have "mset (todo s) = add_mset i (mset (todo t))" using cases by simp
    then have "set (todo s) = insert i (set (todo t))" by (metis set_mset_add_mset_insert set_mset_mset)
    then have "set (todo t) \<union> seen t = set (todo s) \<union> seen s" "seen t = seen s" using i True by auto
    then show ?thesis using assms(1) by (simp add: search_covered_def)
  next
    case False
    then have eq: "insert i (set (todo t)) = insert i (set (todo s) \<union> succ i)" using cases by simp
    have all: "set (todo t) \<union> seen t = set (todo s) \<union> succ i \<union> seen s"
    proof -
      have "set (todo t) \<union> seen t = insert i (set (todo t)) \<union> seen s" using i(2) by auto
      also have "\<dots> = set (todo s) \<union> succ i \<union> seen s" unfolding eq using i(1) by auto
      finally show ?thesis .
    qed
    have "set (todo t) \<union> seen t \<subseteq> reach E"
      unfolding all using assms(1) reach_succ [OF ir] by (simp add: search_covered_def)
    moreover have "E \<subseteq> set (todo t) \<union> seen t" unfolding all using assms(1) by (auto simp: search_covered_def)
    moreover have "succ j \<subseteq> set (todo t) \<union> seen t" if "j \<in> seen t" for j
      unfolding all using assms(1) that i(2) by (auto simp: search_covered_def)
    ultimately show ?thesis by (simp add: search_covered_def)
  qed
qed

lemma measure_step:
  assumes "finite (reach E)" and "search_covered E s" and "todo s \<noteq> []" and "step s = Inr t"
  shows "(t, s) \<in> measures [\<lambda>s. card (reach E - seen s), \<lambda>s. length (todo s)]"
proof -
  from step_cases [OF assms(3,4)] obtain i where i: "i \<in> set (todo s)" "seen t = insert i (seen s)"
    and cases: "if i \<in> seen s then mset (todo s) = add_mset i (mset (todo t))
        else insert i (set (todo t)) = insert i (set (todo s) \<union> succ i)" by blast
  show ?thesis
  proof (cases "i \<in> seen s")
    case True
    then have "length (todo s) = Suc (length (todo t))"
      using cases by (metis size_add_mset size_mset)
    moreover have "seen t = seen s" using i True by auto
    ultimately show ?thesis by simp
  next
    case False
    have "i \<in> reach E" using assms(2) i(1) by (auto simp: search_covered_def)
    then have "reach E - seen t \<subset> reach E - seen s" using False i(2) by blast
    then have "card (reach E - seen t) < card (reach E - seen s)"
      using assms(1) by (simp add: psubset_card_mono)
    then show ?thesis by simp
  qed
qed

lemma start_covered: "seen s = {} \<Longrightarrow> search_covered (set (todo s)) s"
  using reach_start by (auto simp: search_covered_def)

lemma search_ends:
  assumes "finite (reach (set (todo s)))" and "seen s = {}"
  shows "\<exists>r. loop_while (\<lambda>s. todo s \<noteq> []) step s = Some r"
  by (rule loop_while_ends [where I = "search_covered (set (todo s))",
        OF wf_measures start_covered [OF assms(2)]])
    (use covered_step measure_step [OF assms(1)] in blast)

lemma search_result:
  assumes "loop_while (\<lambda>s. todo s \<noteq> []) step s = Some (Inr t)" and "seen s = {}"
  shows "seen t = reach (set (todo s))"
proof -
  have end_state: "search_covered (set (todo s)) t \<and> \<not> todo t \<noteq> []"
    using loop_while_invariant [where I = "search_covered (set (todo s))", OF assms(1) start_covered [OF assms(2)]]
      covered_step by auto
  then have empty: "set (todo t) \<union> seen t = seen t" by simp
  have "seen t \<subseteq> reach (set (todo s))" "set (todo s) \<subseteq> seen t" "\<forall>i \<in> seen t. succ i \<subseteq> seen t"
    using end_state unfolding search_covered_def empty by blast+
  then have "reach (set (todo s)) \<subseteq> seen t" using reach_least by meson
  with \<open>seen t \<subseteq> reach (set (todo s))\<close> show ?thesis by (rule equalityI)
qed

end

end
