(* ===== verification/Repo_Closure.thy ===== *)
theory Repo_Closure
  imports Repo_Contract Go_Loops "HOL-Library.Product_Lexorder"
begin

text \<open>
  Repository closures (\<^verbatim>\<open>internal/repositoryclosure\<close>): the least set of repositories that
  contains the entrypoints of a Subject and is closed under includes, with their
  designations and canonical paths. \<open>discover\<close> models \<^verbatim>\<open>closure.go\<close> and
  \<open>discover_declarations\<close> models \<^verbatim>\<open>declarations.go\<close>.

  A source answers questions about repositories. Discovery asks it at most once about each
  repository and then about the path of that repository, so its answers are functions.
  Copies of declarations are values here, so the \<^verbatim>\<open>clone\<close> functions disappear, except that
  \<^verbatim>\<open>cloneDeclaration\<close> leaves the buildables out.
\<close>

section \<open>Package-scope repositories\<close>

record closure_source =
  cl_load :: "string \<Rightarrow> string + package_repository"
  cl_identity_at :: "string \<Rightarrow> string + string option"

record closure_resource =
  cr_identity :: string
  cr_designation :: string
  cr_path :: string
  cr_declaration :: package_repository

record discovery =
  di_pending :: "(string \<times> string) list"
  di_designation :: "string \<rightharpoonup> string"
  di_identity :: "string \<rightharpoonup> string"
  di_at_path :: "string \<rightharpoonup> string"
  di_loaded :: "(string \<times> closure_resource) list"

definition claim_designation :: "discovery \<Rightarrow> string \<Rightarrow> string \<Rightarrow> repo_error + discovery" where
  "claim_designation st identity designation =
     (if designation = [] then Inr st
      else if di_designation st identity \<noteq> None \<and> di_designation st identity \<noteq> Some designation
      then Inl (ConflictError ''identity'' identity (the (di_designation st identity)) designation)
      else if di_identity st designation \<noteq> None \<and> di_identity st designation \<noteq> Some identity
      then Inl (ConflictError ''designation'' designation (the (di_identity st designation)) identity)
      else Inr (st\<lparr>di_designation := (di_designation st)(identity \<mapsto> designation),
             di_identity := (di_identity st)(designation \<mapsto> identity)\<rparr>))"

definition normalize_github_name :: "string \<Rightarrow> repo_error + string" where
  "normalize_github_name name =
     (case github_identity (''https://github.com/'' @ name) of
        Inl _ \<Rightarrow> Inl (Refused ''invalid GitHub repository'' [name])
      | Inr identity \<Rightarrow> Inr identity)"

definition load_repository :: "closure_source \<Rightarrow> string \<Rightarrow> repo_error + package_repository" where
  "load_repository src identity =
     (case cl_load src identity of
        Inl m \<Rightarrow> Inl (Refused ''load repository'' [identity, m])
      | Inr d \<Rightarrow> (case validate_repository d of Inl e \<Rightarrow> Inl e | Inr _ \<Rightarrow> Inr d))"

text \<open>What claims the canonical path: a repository found before, or one already checked out there.\<close>

definition check_occupant :: "closure_source \<Rightarrow> string \<Rightarrow> string \<Rightarrow> repo_error + unit" where
  "check_occupant src path identity =
     (case cl_identity_at src path of
        Inl m \<Rightarrow> Inl (Refused ''observe canonical path'' [path, m])
      | Inr None \<Rightarrow> Inr ()
      | Inr (Some found) \<Rightarrow>
          (case normalize_github_name found of
             Inl e \<Rightarrow> Inl e
           | Inr observed \<Rightarrow>
               if observed \<noteq> identity then Inl (ConflictError ''path'' path observed identity) else Inr ()))"

definition claim_path :: "closure_source \<Rightarrow> discovery \<Rightarrow> string \<Rightarrow> string \<Rightarrow> repo_error + discovery" where
  "claim_path src st path identity =
     (if di_at_path st path \<noteq> None \<and> di_at_path st path \<noteq> Some identity
      then Inl (ConflictError ''path'' path (the (di_at_path st path)) identity)
      else result_bind (check_occupant src path identity)
          (\<lambda>_. Inr (st\<lparr>di_at_path := (di_at_path st)(path \<mapsto> identity)\<rparr>)))"

fun add_includes :: "(string \<times> repo_include) list \<Rightarrow> discovery \<Rightarrow> string list \<Rightarrow> repo_error + discovery" where
  "add_includes incs st [] = Inr st"
| "add_includes incs st (d # ds) =
     (case map_of incs d of
        None \<Rightarrow> add_includes incs st ds
      | Some inc \<Rightarrow>
          result_bind (normalize_github_name (ic_github inc)) (\<lambda>identity.
          result_bind (claim_designation st identity d) (\<lambda>st'.
            add_includes incs (st'\<lparr>di_pending := di_pending st' @ [(identity, d)]\<rparr>) ds)))"

definition resource_of :: "string \<Rightarrow> package_repository \<Rightarrow> closure_resource" where
  "resource_of identity d =
     \<lparr>cr_identity = identity, cr_designation = pr_scope d, cr_path = repository_path d, cr_declaration = d\<rparr>"

definition reach_repository :: "closure_source \<Rightarrow> discovery \<Rightarrow> string \<times> string \<Rightarrow> repo_error + discovery" where
  "reach_repository src st next =
     result_bind (claim_designation st (fst next) (snd next)) (\<lambda>st1.
       if map_of (di_loaded st1) (fst next) \<noteq> None then Inr st1
       else
         result_bind (load_repository src (fst next)) (\<lambda>d.
         result_bind (claim_designation st1 (fst next) (pr_scope d)) (\<lambda>st2.
         result_bind (claim_path src st2 (repository_path d) (fst next)) (\<lambda>st3.
           add_includes (pr_includes d)
             (st3\<lparr>di_loaded := di_loaded st3 @ [(fst next, resource_of (fst next) d)]\<rparr>)
             (sort (remdups (List.map fst (pr_includes d))))))))"

text \<open>One round of the loop: the least pending claim is taken.\<close>

definition discover_step :: "closure_source \<Rightarrow> discovery \<Rightarrow> repo_error + discovery" where
  "discover_step src st =
     (let pending = sort (di_pending st)
      in reach_repository src (st\<lparr>di_pending := tl pending\<rparr>) (hd pending))"

definition start_discovery :: "string list \<Rightarrow> discovery" where
  "start_discovery identities =
     \<lparr>di_pending = List.map (\<lambda>i. (i, [])) identities, di_designation = Map.empty, di_identity = Map.empty,
      di_at_path = Map.empty, di_loaded = []\<rparr>"

definition pending_identities :: "discovery \<Rightarrow> string list" where
  "pending_identities st = List.map fst (di_pending st)"

definition discover :: "subject \<Rightarrow> closure_source \<Rightarrow> (repo_error + closure_resource list) option" where
  "discover subject src =
     (case validate_subject subject of
        Inl e \<Rightarrow> Some (Inl e)
      | Inr _ \<Rightarrow>
          (case result_list github_identity (sj_entrypoints subject) of
             Inl e \<Rightarrow> Some (Inl e)
           | Inr identities \<Rightarrow>
               map_option (\<lambda>r. result_bind r (\<lambda>st.
                   Inr (sort_key (\<lambda>r. (cr_path r, cr_identity r)) (List.map snd (di_loaded st)))))
                 (loop_while (\<lambda>st. pending_identities st \<noteq> []) (discover_step src) (start_discovery identities))))"

section \<open>Released declarations\<close>

record declared_source =
  dl_load :: "string \<Rightarrow> string + repo_declaration"
  dl_identity_at :: "string \<Rightarrow> string + string option"

record declared_resource =
  dr_identity :: string
  dr_github :: string
  dr_path :: string
  dr_declaration :: repo_declaration

record declared_state =
  de_pending :: "string list"
  de_github :: "string \<rightharpoonup> string"
  de_at_path :: "string \<rightharpoonup> string"
  de_loaded :: "(string \<times> declared_resource) list"

definition load_declaration :: "declared_source \<Rightarrow> string \<Rightarrow> repo_error + repo_declaration" where
  "load_declaration src github =
     (case dl_load src github of
        Inl m \<Rightarrow> Inl (Refused ''load declaration'' [github, m])
      | Inr d \<Rightarrow> (case validate_declaration d of Inl e \<Rightarrow> Inl e | Inr _ \<Rightarrow> Inr d))"

definition claim_declared ::
    "declared_source \<Rightarrow> declared_state \<Rightarrow> string \<Rightarrow> string \<Rightarrow> string \<Rightarrow> repo_error + unit" where
  "claim_declared src st github identity path =
     (if de_github st identity \<noteq> None \<and> de_github st identity \<noteq> Some github
      then Inl (ConflictError ''identity'' identity (the (de_github st identity)) github)
      else if de_at_path st path \<noteq> None \<and> de_at_path st path \<noteq> Some identity
      then Inl (ConflictError ''path'' path (the (de_at_path st path)) identity)
      else case dl_identity_at src path of
          Inl m \<Rightarrow> Inl (Refused ''observe canonical path'' [path, m])
        | Inr None \<Rightarrow> Inr ()
        | Inr (Some observed) \<Rightarrow>
            if observed \<noteq> identity then Inl (ConflictError ''path'' path observed identity) else Inr ())"

definition declared_step :: "declared_source \<Rightarrow> declared_state \<Rightarrow> repo_error + declared_state" where
  "declared_step src st0 =
     (let pending = sort (de_pending st0); github = hd pending; st = st0\<lparr>de_pending := tl pending\<rparr>
      in if map_of (de_loaded st) github \<noteq> None then Inr st
         else
           result_bind (load_declaration src github) (\<lambda>d.
           result_bind (shape_identity (dc_shape d) github) (\<lambda>identity.
           result_bind (shape_path (dc_shape d) github) (\<lambda>path.
           result_bind (claim_declared src st github identity path) (\<lambda>_.
           result_bind (result_list normalize_github_repository (List.map fst (dc_includes d))) (\<lambda>includes.
             Inr (st\<lparr>de_pending := de_pending st @ sort includes,
                de_github := (de_github st)(identity \<mapsto> github),
                de_at_path := (de_at_path st)(path \<mapsto> identity),
                de_loaded := de_loaded st @ [(github, \<lparr>dr_identity = identity, dr_github = github,
                  dr_path = path, dr_declaration = d\<lparr>dc_buildables := []\<rparr>\<rparr>)]\<rparr>)))))))"

definition start_declared :: "string list \<Rightarrow> declared_state" where
  "start_declared githubs =
     \<lparr>de_pending = githubs, de_github = Map.empty, de_at_path = Map.empty, de_loaded = []\<rparr>"

definition discover_declarations :: "subject \<Rightarrow> declared_source \<Rightarrow> (repo_error + declared_resource list) option" where
  "discover_declarations subject src =
     (case validate_subject subject of
        Inl e \<Rightarrow> Some (Inl e)
      | Inr _ \<Rightarrow>
          (case result_list github_identity (sj_entrypoints subject) of
             Inl e \<Rightarrow> Some (Inl e)
           | Inr githubs \<Rightarrow>
               map_option (\<lambda>r. result_bind r (\<lambda>st.
                   Inr (sort_key (\<lambda>r. (dr_path r, dr_identity r)) (List.map snd (de_loaded st)))))
                 (loop_while (\<lambda>st. de_pending st \<noteq> []) (declared_step src) (start_declared githubs))))"

section \<open>Claims\<close>

lemma claim_designation_Inr:
  "claim_designation st i d = Inr st' \<longleftrightarrow>
     (if d = [] then st' = st
      else (di_designation st i = None \<or> di_designation st i = Some d) \<and>
        (di_identity st d = None \<or> di_identity st d = Some i) \<and>
        st' = st\<lparr>di_designation := (di_designation st)(i \<mapsto> d), di_identity := (di_identity st)(d \<mapsto> i)\<rparr>)"
  by (auto simp: claim_designation_def split: option.splits if_splits)

lemma claim_designation_frame:
  "claim_designation st i d = Inr st' \<Longrightarrow>
     di_loaded st' = di_loaded st \<and> di_pending st' = di_pending st \<and> di_at_path st' = di_at_path st"
  by (auto simp: claim_designation_Inr split: if_splits)

lemma claim_path_Inr:
  "claim_path src st p i = Inr st' \<longleftrightarrow>
     (di_at_path st p = None \<or> di_at_path st p = Some i) \<and> check_occupant src p i = Inr () \<and>
     st' = st\<lparr>di_at_path := (di_at_path st)(p \<mapsto> i)\<rparr>"
  by (auto simp: claim_path_def split: option.splits if_splits)

lemma load_repository_Inr:
  "load_repository src i = Inr d \<longleftrightarrow> cl_load src i = Inr d \<and> validate_repository d = Inr ()"
  by (auto simp: load_repository_def split: sum.splits)

text \<open>The repositories that one repository includes.\<close>

definition include_identities :: "closure_source \<Rightarrow> string \<Rightarrow> string set" where
  "include_identities src i =
     {j. \<exists>d n inc. cl_load src i = Inr d \<and> map_of (pr_includes d) n = Some inc \<and>
        normalize_github_name (ic_github inc) = Inr j}"

lemma add_includes_Inr:
  "add_includes incs st ds = Inr st' \<Longrightarrow> set ds \<subseteq> dom (map_of incs) \<Longrightarrow>
     di_loaded st' = di_loaded st \<and> di_at_path st' = di_at_path st \<and>
     (\<exists>js. di_pending st' = di_pending st @ zip js ds \<and> length js = length ds \<and>
        list_all2 (\<lambda>d j. normalize_github_name (ic_github (the (map_of incs d))) = Inr j) ds js)"
proof (induction incs st ds rule: add_includes.induct)
  case (2 incs st d ds)
  then obtain inc where inc: "map_of incs d = Some inc" by auto
  from 2(3) inc obtain j st1 where j: "normalize_github_name (ic_github inc) = Inr j"
      "claim_designation st j d = Inr st1"
      "add_includes incs (st1\<lparr>di_pending := di_pending st1 @ [(j, d)]\<rparr>) ds = Inr st'" by auto
  obtain js where "di_pending st' = di_pending st1 @ [(j, d)] @ zip js ds" "length js = length ds"
      "list_all2 (\<lambda>d j. normalize_github_name (ic_github (the (map_of incs d))) = Inr j) ds js"
      "di_loaded st' = di_loaded st1" "di_at_path st' = di_at_path st1"
    using 2(2) [OF inc j(3)] 2(4) by auto
  then show ?case
    using claim_designation_frame [OF j(2)] inc j(1) by (auto intro!: exI [of _ "j # js"])
qed simp

text \<open>What one repository adds to the work.\<close>

lemma added_identities:
  assumes "cl_load src i = Inr d"
    and "list_all2 (\<lambda>n j. normalize_github_name (ic_github (the (map_of (pr_includes d) n))) = Inr j)
      (sort (remdups (List.map fst (pr_includes d)))) js"
  shows "set js = include_identities src i"
proof
  show "set js \<subseteq> include_identities src i"
  proof
    fix j assume "j \<in> set js"
    then obtain k where k: "k < length js" "js ! k = j" by (auto simp: in_set_conv_nth)
    let ?n = "sort (remdups (List.map fst (pr_includes d))) ! k"
    have len: "k < length (sort (remdups (List.map fst (pr_includes d))))" using assms(2) k list_all2_lengthD by metis
    then have "?n \<in> set (sort (remdups (List.map fst (pr_includes d))))" by (rule nth_mem)
    then have "?n \<in> fst ` set (pr_includes d)" by simp
    then obtain inc where "map_of (pr_includes d) ?n = Some inc" by (metis dom_map_of_conv_image_fst domD)
    then show "j \<in> include_identities src i"
      using list_all2_nthD [OF assms(2) len] k(2) assms(1) by (auto simp: include_identities_def)
  qed
  show "include_identities src i \<subseteq> set js"
  proof
    fix j assume "j \<in> include_identities src i"
    then obtain n inc where n: "map_of (pr_includes d) n = Some inc" "normalize_github_name (ic_github inc) = Inr j"
      using assms(1) by (auto simp: include_identities_def)
    then have "n \<in> set (sort (remdups (List.map fst (pr_includes d))))"
      by (auto dest!: map_of_SomeD intro!: image_eqI [of _ _ "(n, inc)"])
    then obtain k where k: "k < length (sort (remdups (List.map fst (pr_includes d))))"
        "sort (remdups (List.map fst (pr_includes d))) ! k = n" by (metis in_set_conv_nth)
    then have "js ! k = j" using list_all2_nthD [OF assms(2) k(1)] n by simp
    moreover have "k < length js" using k(1) assms(2) list_all2_lengthD by metis
    ultimately show "j \<in> set js" using nth_mem by blast
  qed
qed

section \<open>One round\<close>

text \<open>What a round does to the state, without the claims of designations.\<close>

lemma reach_repository_Inr:
  assumes "reach_repository src st (i, n) = Inr st'"
  shows "(map_of (di_loaded st) i \<noteq> None \<longrightarrow> di_pending st' = di_pending st \<and> di_loaded st' = di_loaded st) \<and>
     (map_of (di_loaded st) i = None \<longrightarrow>
        (\<exists>d js. cl_load src i = Inr d \<and> validate_repository d = Inr () \<and>
           di_loaded st' = di_loaded st @ [(i, resource_of i d)] \<and>
           di_pending st' = di_pending st @ zip js (sort (remdups (List.map fst (pr_includes d)))) \<and>
           length js = length (remdups (List.map fst (pr_includes d))) \<and> set js = include_identities src i))"
proof -
  from assms obtain st1 where st1: "claim_designation st i n = Inr st1"
    and rest: "(if map_of (di_loaded st1) i \<noteq> None then Inr st1
       else
         result_bind (load_repository src i) (\<lambda>d.
         result_bind (claim_designation st1 i (pr_scope d)) (\<lambda>st2.
         result_bind (claim_path src st2 (repository_path d) i) (\<lambda>st3.
           add_includes (pr_includes d)
             (st3\<lparr>di_loaded := di_loaded st3 @ [(i, resource_of i d)]\<rparr>)
             (sort (remdups (List.map fst (pr_includes d)))))))) = Inr st'"
    unfolding reach_repository_def result_bind_Inr fst_conv snd_conv by blast
  note frame1 = claim_designation_frame [OF st1]
  show ?thesis
  proof (cases "map_of (di_loaded st) i = None")
    case False
    then show ?thesis using rest frame1 by auto
  next
    case True
    then obtain d st2 st3 where d: "load_repository src i = Inr d"
        and st2: "claim_designation st1 i (pr_scope d) = Inr st2"
        and st3: "claim_path src st2 (repository_path d) i = Inr st3"
        and incs: "add_includes (pr_includes d) (st3\<lparr>di_loaded := di_loaded st3 @ [(i, resource_of i d)]\<rparr>)
             (sort (remdups (List.map fst (pr_includes d)))) = Inr st'"
      using rest frame1 by auto
    have "set (sort (remdups (List.map fst (pr_includes d)))) \<subseteq> dom (map_of (pr_includes d))"
      by (simp add: dom_map_of_conv_image_fst)
    from add_includes_Inr [OF incs this] obtain js where
        js: "di_pending st' = di_pending st3 @ zip js (sort (remdups (List.map fst (pr_includes d))))"
          "length js = length (sort (remdups (List.map fst (pr_includes d))))"
          "list_all2 (\<lambda>n j. normalize_github_name (ic_github (the (map_of (pr_includes d) n))) = Inr j)
             (sort (remdups (List.map fst (pr_includes d)))) js"
        and loaded: "di_loaded st' = di_loaded st3 @ [(i, resource_of i d)]" by auto
    have "set js = include_identities src i"
      using added_identities js(3) d by (simp add: load_repository_Inr)
    moreover have "di_pending st3 = di_pending st" "di_loaded st3 = di_loaded st"
      using frame1 claim_designation_frame [OF st2] st3 by (auto simp: claim_path_Inr)
    ultimately show ?thesis
      using True d js(1,2) loaded by (auto simp: load_repository_Inr length_sort intro!: exI [of _ js])
  qed
qed

definition loaded_identities :: "discovery \<Rightarrow> string set" where
  "loaded_identities st = dom (map_of (di_loaded st))"

interpretation closure: worklist "discover_step src" pending_identities loaded_identities "include_identities src"
  for src
proof (unfold_locales, goal_cases)
  case (1 st st')
  then have pending: "di_pending st \<noteq> []" by (simp add: pending_identities_def)
  let ?p = "sort (di_pending st)"
  obtain i n where i: "hd ?p = (i, n)" by (cases "hd ?p")
  have ne: "?p \<noteq> []" using pending by (metis length_0_conv length_sort)
  then have "?p = (i, n) # tl ?p" using i by (metis list.collapse)
  then have ms: "mset (di_pending st) = add_mset (i, n) (mset (tl ?p))" by (metis mset.simps(2) mset_sort)
  from 1(2) have step: "reach_repository src (st\<lparr>di_pending := tl ?p\<rparr>) (i, n) = Inr st'"
    using i by (simp add: discover_step_def Let_def)
  note round = reach_repository_Inr [OF this]
  have todo: "mset (pending_identities st) = add_mset i (mset (List.map fst (tl ?p)))"
    using arg_cong [OF ms, of "image_mset fst"] by (simp add: pending_identities_def)
  then have "i \<in> set (pending_identities st)" by (metis set_mset_mset union_single_eq_member)
  moreover have "loaded_identities st' = insert i (loaded_identities st) \<and>
        (if i \<in> loaded_identities st then mset (pending_identities st) = add_mset i (mset (pending_identities st'))
         else insert i (set (pending_identities st')) =
           insert i (set (pending_identities st) \<union> include_identities src i))"
  proof (cases "map_of (di_loaded st) i = None")
    case False
    then have "di_pending st' = tl ?p" "di_loaded st' = di_loaded st" using round by auto
    then show ?thesis using False todo by (auto simp: loaded_identities_def pending_identities_def)
  next
    case True
    then obtain d js where d: "di_loaded st' = di_loaded st @ [(i, resource_of i d)]"
        "di_pending st' = tl ?p @ zip js (sort (remdups (List.map fst (pr_includes d))))"
        "length js = length (remdups (List.map fst (pr_includes d)))" "set js = include_identities src i"
      using round by auto
    have "pending_identities st' = List.map fst (tl ?p) @ js"
      using d(2,3) by (simp add: pending_identities_def length_sort)
    moreover have "set (pending_identities st) = insert i (set (List.map fst (tl ?p)))"
      using arg_cong [OF todo, of set_mset] by simp
    ultimately have "insert i (set (pending_identities st')) =
        insert i (set (pending_identities st) \<union> include_identities src i)" using d(4) by auto
    then show ?thesis using True d(1) by (auto simp: loaded_identities_def map_add_def split: option.splits)
  qed
  ultimately show ?case by blast
qed

end
