(* ===== verification/Closure_Facts.thy ===== *)
theory Closure_Facts
  imports Repo_Closure
begin

text \<open>
  What a successful discovery establishes: the repositories found are exactly those the
  entrypoints reach through includes; their identities, designations and paths are distinct;
  and whoever includes a repository calls it by the scope that repository declares.
\<close>

section \<open>The invariant of package-scope discovery\<close>

definition claims_ok :: "discovery \<Rightarrow> bool" where
  "claims_ok st \<longleftrightarrow> (\<forall>i d. di_designation st i = Some d \<longleftrightarrow> di_identity st d = Some i)"

text \<open>A loaded repository, as the state of the search bears it out.\<close>

definition resource_ok :: "closure_source \<Rightarrow> discovery \<Rightarrow> string \<Rightarrow> closure_resource \<Rightarrow> bool" where
  "resource_ok src st i r \<longleftrightarrow>
     (\<exists>d. cl_load src i = Inr d \<and> validate_repository d = Inr () \<and> r = resource_of i d \<and>
        di_designation st i = Some (pr_scope d) \<and> di_at_path st (repository_path d) = Some i \<and>
        check_occupant src (repository_path d) i = Inr () \<and>
        (\<forall>n inc. map_of (pr_includes d) n = Some inc \<longrightarrow>
           (\<exists>j. normalize_github_name (ic_github inc) = Inr j \<and> di_designation st j = Some n)))"

definition closure_ok :: "closure_source \<Rightarrow> discovery \<Rightarrow> bool" where
  "closure_ok src st \<longleftrightarrow>
     claims_ok st \<and> distinct (List.map fst (di_loaded st)) \<and> (\<forall>e \<in> set (di_loaded st). resource_ok src st (fst e) (snd e))"

definition extends :: "discovery \<Rightarrow> discovery \<Rightarrow> bool" where
  "extends st st' \<longleftrightarrow> di_designation st \<subseteq>\<^sub>m di_designation st' \<and> di_at_path st \<subseteq>\<^sub>m di_at_path st'"

lemma extends_refl [intro]: "extends st st"
  by (simp add: extends_def)

lemma extends_trans: "extends st st' \<Longrightarrow> extends st' st'' \<Longrightarrow> extends st st''"
  by (auto simp: extends_def intro: map_le_trans)

lemma map_le_update: "m k = None \<or> m k = Some v \<Longrightarrow> m \<subseteq>\<^sub>m m(k \<mapsto> v)"
  by (auto simp: map_le_def)

lemma resource_ok_extends: "resource_ok src st i r \<Longrightarrow> extends st st' \<Longrightarrow> resource_ok src st' i r"
  unfolding resource_ok_def extends_def map_le_def by (metis domI)

lemma claim_ok:
  assumes "claim_designation st i d = Inr st'" and "claims_ok st"
  shows "claims_ok st'" and "extends st st'" and "d \<noteq> [] \<Longrightarrow> di_designation st' i = Some d"
  using assms unfolding claim_designation_Inr claims_ok_def extends_def
  by (auto intro: map_le_update split: if_splits) (metis option.distinct(1) option.inject)+

lemma add_includes_claims:
  "add_includes incs st ds = Inr st' \<Longrightarrow> claims_ok st \<Longrightarrow> set ds \<subseteq> dom (map_of incs) \<Longrightarrow> [] \<notin> set ds \<Longrightarrow>
     claims_ok st' \<and> extends st st' \<and>
     (\<forall>n \<in> set ds. \<exists>j. normalize_github_name (ic_github (the (map_of incs n))) = Inr j \<and> di_designation st' j = Some n)"
proof (induction incs st ds rule: add_includes.induct)
  case (2 incs st d ds)
  then obtain inc where inc: "map_of incs d = Some inc" by auto
  from 2(3) inc obtain j st1 where j: "normalize_github_name (ic_github inc) = Inr j"
      "claim_designation st j d = Inr st1"
      "add_includes incs (st1\<lparr>di_pending := di_pending st1 @ [(j, d)]\<rparr>) ds = Inr st'" by auto
  let ?st1 = "st1\<lparr>di_pending := di_pending st1 @ [(j, d)]\<rparr>"
  have st1: "claims_ok ?st1" "extends st ?st1" "di_designation ?st1 j = Some d"
    using claim_ok [OF j(2) 2(4)] 2(6) by (auto simp: claims_ok_def extends_def)
  have rest: "claims_ok st'" "extends ?st1 st'"
    "\<forall>n \<in> set ds. \<exists>j. normalize_github_name (ic_github (the (map_of incs n))) = Inr j \<and> di_designation st' j = Some n"
    using 2(2) [OF inc j(3) st1(1)] 2(5,6) by auto
  have "di_designation st' j = Some d" using st1(3) rest(2) by (auto simp: extends_def map_le_def dom_def)
  then show ?case using rest extends_trans [OF st1(2) rest(2)] inc j(1) by auto
qed auto

lemma include_names: "validate_repository d = Inr () \<Longrightarrow> [] \<notin> fst ` set (pr_includes d)"
  by (auto simp: validate_repository_def include_check_def is_package_scope_def split: if_splits)

lemma scope_nonempty: "validate_repository d = Inr () \<Longrightarrow> pr_scope d \<noteq> []"
  by (auto simp: validate_repository_def is_package_scope_def split: if_splits)

lemma closure_ok_reach:
  assumes ok: "closure_ok src st" and reach: "reach_repository src st (i, n) = Inr st'"
  shows "closure_ok src st'"
proof -
  obtain st1 where st1: "claim_designation st i n = Inr st1"
    using reach by (auto simp: reach_repository_def)
  have ok1: "claims_ok st1" "extends st st1" "di_loaded st1 = di_loaded st"
    using claim_ok [OF st1] ok claim_designation_frame [OF st1] by (auto simp: closure_ok_def)
  show ?thesis
  proof (cases "map_of (di_loaded st) i = None")
    case False
    then have "st' = st1" using reach st1 ok1(3) by (auto simp: reach_repository_def)
    then show ?thesis using ok ok1 resource_ok_extends by (auto simp: closure_ok_def)
  next
    case True
    then obtain d st2 st3 where d: "load_repository src i = Inr d"
        and st2: "claim_designation st1 i (pr_scope d) = Inr st2"
        and st3: "claim_path src st2 (repository_path d) i = Inr st3"
        and incs: "add_includes (pr_includes d) (st3\<lparr>di_loaded := di_loaded st3 @ [(i, resource_of i d)]\<rparr>)
             (sort (remdups (List.map fst (pr_includes d)))) = Inr st'"
      using reach st1 ok1(3) by (auto simp: reach_repository_def)
    have valid: "cl_load src i = Inr d" "validate_repository d = Inr ()" using d by (simp_all add: load_repository_Inr)
    note claim2 = claim_ok [OF st2 ok1(1)]
    let ?st3 = "st3\<lparr>di_loaded := di_loaded st3 @ [(i, resource_of i d)]\<rparr>"
    have ok3: "claims_ok ?st3" "extends st2 ?st3" "di_at_path ?st3 (repository_path d) = Some i"
        "check_occupant src (repository_path d) i = Inr ()" "di_designation ?st3 = di_designation st2"
      using st3 claim2(1) by (auto simp: claim_path_Inr claims_ok_def extends_def intro: map_le_update)
    have "set (sort (remdups (List.map fst (pr_includes d)))) \<subseteq> dom (map_of (pr_includes d))"
      by (simp add: dom_map_of_conv_image_fst)
    moreover have "[] \<notin> set (sort (remdups (List.map fst (pr_includes d))))" using include_names [OF valid(2)] by simp
    ultimately have fin: "claims_ok st'" "extends ?st3 st'"
        "\<forall>n \<in> fst ` set (pr_includes d). \<exists>j. normalize_github_name (ic_github (the (map_of (pr_includes d) n))) = Inr j \<and>
          di_designation st' j = Some n"
      and loaded: "di_loaded st' = di_loaded st3 @ [(i, resource_of i d)]"
      using add_includes_claims [OF incs ok3(1)] add_includes_Inr [OF incs] by auto
    have loaded': "di_loaded st' = di_loaded st @ [(i, resource_of i d)]"
      using loaded st3 claim_designation_frame [OF st2] ok1(3) by (auto simp: claim_path_Inr)
    have ext: "extends st st'"
      using ok1(2) claim2(2) ok3(2) fin(2) extends_trans by blast
    have "di_designation st' i = Some (pr_scope d)" "di_at_path st' (repository_path d) = Some i"
      using claim2(3) [OF scope_nonempty [OF valid(2)]] ok3(3,5) fin(2)
      by (auto simp: extends_def map_le_def dom_def)
    moreover have "\<exists>j. normalize_github_name (ic_github inc) = Inr j \<and> di_designation st' j = Some n"
      if "map_of (pr_includes d) n = Some inc" for n inc
    proof -
      have "n \<in> fst ` set (pr_includes d)" using that by (metis domI dom_map_of_conv_image_fst)
      then show ?thesis using fin(3) that by fastforce
    qed
    ultimately have "resource_ok src st' i (resource_of i d)"
      using valid ok3(4) by (auto simp: resource_ok_def)
    moreover have "i \<notin> fst ` set (di_loaded st)" using True by (simp add: map_of_eq_None_iff)
    ultimately show ?thesis
      using ok loaded' fin(1) ext resource_ok_extends by (auto simp: closure_ok_def)
  qed
qed

lemma closure_ok_pending: "closure_ok src (st\<lparr>di_pending := p\<rparr>) \<longleftrightarrow> closure_ok src st"
  unfolding closure_ok_def claims_ok_def resource_ok_def by simp

lemma closure_ok_step: "closure_ok src st \<Longrightarrow> discover_step src st = Inr st' \<Longrightarrow> closure_ok src st'"
  unfolding discover_step_def Let_def
  by (rule closure_ok_reach [of src _ "fst (hd (sort (di_pending st)))" "snd (hd (sort (di_pending st)))"])
    (simp_all add: closure_ok_pending)

lemma closure_ok_start: "closure_ok src (start_discovery identities)"
  by (simp add: closure_ok_def claims_ok_def start_discovery_def)

text \<open>What can be reached from the entrypoints of a subject.\<close>

definition entry_identities :: "subject \<Rightarrow> string set" where
  "entry_identities s = {i. \<exists>e \<in> set (sj_entrypoints s). github_identity e = Inr i}"

definition reachable_repositories :: "closure_source \<Rightarrow> subject \<Rightarrow> string set" where
  "reachable_repositories src s = {(i, j). j \<in> include_identities src i}\<^sup>* `` entry_identities s"

lemma reachable_is_reach: "reachable_repositories src s = closure.reach src (entry_identities s)"
  by (simp add: reachable_repositories_def closure.reach_def)

lemma result_list_set: "result_list f xs = Inr ys \<Longrightarrow> set ys = {y. \<exists>x \<in> set xs. f x = Inr y}"
proof (induction xs arbitrary: ys)
  case (Cons x xs)
  then show ?case by (cases "f x"; cases "result_list f xs") auto
qed simp

lemma start_todo: "set (pending_identities (start_discovery ids)) = set ids"
  by (simp add: pending_identities_def start_discovery_def comp_def)

lemma start_loaded: "loaded_identities (start_discovery ids) = {}"
  by (simp add: loaded_identities_def start_discovery_def)

definition closure_sound :: "closure_source \<Rightarrow> closure_resource list \<Rightarrow> bool" where
  "closure_sound src rs \<longleftrightarrow>
     distinct (List.map cr_identity rs) \<and> distinct (List.map cr_designation rs) \<and> distinct (List.map cr_path rs) \<and>
     sorted (List.map cr_path rs) \<and>
     (\<forall>r \<in> set rs. \<exists>d. cl_load src (cr_identity r) = Inr d \<and> validate_repository d = Inr () \<and>
        r = resource_of (cr_identity r) d \<and> check_occupant src (cr_path r) (cr_identity r) = Inr () \<and>
        (\<forall>n inc. map_of (pr_includes d) n = Some inc \<longrightarrow>
           (\<exists>q \<in> set rs. normalize_github_name (ic_github inc) = Inr (cr_identity q) \<and> cr_designation q = n)))"

lemma sorted_fst: "sorted (List.map (\<lambda>r. (f r, g r)) rs) \<Longrightarrow> sorted (List.map f rs)"
  for f :: "'r \<Rightarrow> 'a :: linorder" and g :: "'r \<Rightarrow> 'b :: linorder"
  by (induction rs) auto

lemma distinct_map_sort_key: "distinct (List.map f (sort_key k xs)) \<longleftrightarrow> distinct (List.map f xs)"
  by (simp add: distinct_map)

lemma closure_ok_sound:
  assumes ok: "closure_ok src st" and all: "loaded_identities st = closure.reach src E"
  shows "closure_sound src (sort_key (\<lambda>r. (cr_path r, cr_identity r)) (List.map snd (di_loaded st)))"
proof -
  let ?rs = "List.map snd (di_loaded st)" and ?sorted = "sort_key (\<lambda>r. (cr_path r, cr_identity r)) (List.map snd (di_loaded st))"
  have each: "resource_ok src st (fst e) (snd e)" if "e \<in> set (di_loaded st)" for e
    using ok that by (simp add: closure_ok_def)
  have id: "cr_identity (snd e) = fst e" if "e \<in> set (di_loaded st)" for e
    using each [OF that] by (auto simp: resource_ok_def resource_of_def)
  have named: "di_designation st (fst e) = Some (cr_designation (snd e))"
    "di_at_path st (cr_path (snd e)) = Some (fst e)" if "e \<in> set (di_loaded st)" for e
    using each [OF that] by (auto simp: resource_ok_def resource_of_def)
  have dist: "distinct (List.map fst (di_loaded st))" using ok by (simp add: closure_ok_def)
  have inverse: "di_designation st i = Some d \<Longrightarrow> di_identity st d = Some i" for i d
    using ok by (auto simp: closure_ok_def claims_ok_def)
  have "distinct (List.map (\<lambda>e. cr_designation (snd e)) (di_loaded st))"
    using dist named(1) inverse unfolding distinct_map inj_on_def by (metis option.inject)
  moreover have "distinct (List.map (\<lambda>e. cr_path (snd e)) (di_loaded st))"
    using dist named(2) unfolding distinct_map inj_on_def by (metis option.inject)
  moreover have "distinct (List.map (\<lambda>e. cr_identity (snd e)) (di_loaded st))"
    using dist id unfolding distinct_map inj_on_def by metis
  ultimately have distincts: "distinct (List.map cr_identity ?sorted)" "distinct (List.map cr_designation ?sorted)"
      "distinct (List.map cr_path ?sorted)"
    unfolding distinct_map_sort_key by (simp_all add: comp_def)
  have "sorted (List.map cr_path ?sorted)" by (rule sorted_fst [OF sorted_sort_key])
  moreover have "\<exists>d. cl_load src (cr_identity r) = Inr d \<and> validate_repository d = Inr () \<and>
        r = resource_of (cr_identity r) d \<and> check_occupant src (cr_path r) (cr_identity r) = Inr () \<and>
        (\<forall>n inc. map_of (pr_includes d) n = Some inc \<longrightarrow>
           (\<exists>q \<in> set ?sorted. normalize_github_name (ic_github inc) = Inr (cr_identity q) \<and> cr_designation q = n))"
    if r: "r \<in> set ?sorted" for r
  proof -
    obtain e where e: "e \<in> set (di_loaded st)" "r = snd e" using r by auto
    from each [OF e(1)] obtain d where d: "cl_load src (fst e) = Inr d" "validate_repository d = Inr ()"
        "r = resource_of (fst e) d" "check_occupant src (repository_path d) (fst e) = Inr ()"
        "\<forall>n inc. map_of (pr_includes d) n = Some inc \<longrightarrow>
           (\<exists>j. normalize_github_name (ic_github inc) = Inr j \<and> di_designation st j = Some n)"
      using e(2) by (auto simp: resource_ok_def)
    have "\<exists>q \<in> set ?sorted. normalize_github_name (ic_github inc) = Inr (cr_identity q) \<and> cr_designation q = n"
      if inc: "map_of (pr_includes d) n = Some inc" for n inc
    proof -
      obtain j where j: "normalize_github_name (ic_github inc) = Inr j" "di_designation st j = Some n"
        using d(5) inc by blast
      have "fst e \<in> loaded_identities st" using e(1) by (force simp: loaded_identities_def dom_map_of_conv_image_fst)
      then have "j \<in> loaded_identities st"
        using closure.reach_succ [of "fst e" src E] all inc j(1) d(1) by (auto simp: include_identities_def)
      then obtain q where q: "(j, q) \<in> set (di_loaded st)"
        unfolding loaded_identities_def by (auto dest!: map_of_SomeD)
      then have "q \<in> set ?sorted" by force
      then show ?thesis using j id [OF q] named(1) [OF q] by (intro bexI [of _ q]) simp_all
    qed
    moreover have "cr_identity r = fst e" "cr_path r = repository_path d" using d(3) by (simp_all add: resource_of_def)
    ultimately show ?thesis using d by auto
  qed
  ultimately show ?thesis using distincts by (simp add: closure_sound_def)
qed

lemma discover_Inr:
  assumes "discover subject src = Some (Inr rs)"
  shows "set (List.map cr_identity rs) = reachable_repositories src subject" and "closure_sound src rs"
proof -
  from assms obtain ids st where ids: "result_list github_identity (sj_entrypoints subject) = Inr ids"
    and loop: "loop_while (\<lambda>st. pending_identities st \<noteq> []) (discover_step src) (start_discovery ids) = Some (Inr st)"
    and rs: "rs = sort_key (\<lambda>r. (cr_path r, cr_identity r)) (List.map snd (di_loaded st))"
    unfolding discover_def by (auto split: sum.splits)
  have E: "set ids = entry_identities subject" using result_list_set [OF ids] by (simp add: entry_identities_def)
  have ok: "closure_ok src st"
    using loop_while_invariant [where I = "closure_ok src", OF loop closure_ok_start] closure_ok_step by auto
  have seen: "loaded_identities st = closure.reach src (set ids)"
    using closure.search_result [OF loop start_loaded] unfolding start_todo .
  show "closure_sound src rs" unfolding rs by (rule closure_ok_sound [OF ok seen])
  have "cr_identity (snd e) = fst e" if "e \<in> set (di_loaded st)" for e
    using ok that by (auto simp: closure_ok_def resource_ok_def resource_of_def)
  then have "cr_identity ` snd ` set (di_loaded st) = fst ` set (di_loaded st)" by force
  then show "set (List.map cr_identity rs) = reachable_repositories src subject"
    unfolding reachable_is_reach E [symmetric] seen [symmetric] rs
    by (simp add: loaded_identities_def dom_map_of_conv_image_fst)
qed

lemma discover_ends:
  assumes "finite (reachable_repositories src subject)"
  shows "\<exists>r. discover subject src = Some r"
proof (cases "validate_subject subject")
  case (Inr u)
  show ?thesis
  proof (cases "result_list github_identity (sj_entrypoints subject)")
    case ids: (Inr ids)
    have "set ids = entry_identities subject" using result_list_set [OF ids] by (simp add: entry_identities_def)
    then have "\<exists>r. loop_while (\<lambda>st. pending_identities st \<noteq> []) (discover_step src) (start_discovery ids) = Some r"
      using assms by (intro closure.search_ends start_loaded) (simp add: start_todo reachable_is_reach)
    then show ?thesis using Inr ids by (auto simp: discover_def)
  qed (simp add: discover_def Inr)
qed (simp add: discover_def)

end
