(* ===== verification/Closure_Declared.thy ===== *)
theory Closure_Declared
  imports Closure_Facts
begin

text \<open>
  The same for released declarations: the search of \<open>discover_declarations\<close> is a worklist, so
  it ends and finds exactly what is reachable, and no two resources share an identity, a
  GitHub name or a path.
\<close>

definition declared_includes :: "declared_source \<Rightarrow> string \<Rightarrow> string set" where
  "declared_includes src g =
     {j. \<exists>d. dl_load src g = Inr d \<and> (\<exists>n \<in> set (List.map fst (dc_includes d)). normalize_github_repository n = Inr j)}"

definition declared_githubs :: "declared_state \<Rightarrow> string set" where
  "declared_githubs st = dom (map_of (de_loaded st))"

definition declared_entry :: "string \<Rightarrow> string \<Rightarrow> string \<Rightarrow> repo_declaration \<Rightarrow> declared_resource" where
  "declared_entry github identity path d =
     \<lparr>dr_identity = identity, dr_github = github, dr_path = path, dr_declaration = d\<lparr>dc_buildables := []\<rparr>\<rparr>"

lemma load_declaration_Inr:
  "load_declaration src g = Inr d \<longleftrightarrow> dl_load src g = Inr d \<and> validate_declaration d = Inr ()"
  by (auto simp: load_declaration_def split: sum.splits)

lemma declared_step_Inr:
  assumes "declared_step src st = Inr st'"
  shows "let p = sort (de_pending st); g = hd p in
     (map_of (de_loaded st) g \<noteq> None \<and> st' = st\<lparr>de_pending := tl p\<rparr>) \<or>
     (map_of (de_loaded st) g = None \<and>
        (\<exists>d identity path incs. load_declaration src g = Inr d \<and> shape_identity (dc_shape d) g = Inr identity \<and>
           shape_path (dc_shape d) g = Inr path \<and> claim_declared src st g identity path = Inr () \<and>
           result_list normalize_github_repository (List.map fst (dc_includes d)) = Inr incs \<and>
           st' = st\<lparr>de_pending := tl p @ sort incs, de_github := (de_github st)(identity \<mapsto> g),
             de_at_path := (de_at_path st)(path \<mapsto> identity),
             de_loaded := de_loaded st @ [(g, declared_entry g identity path d)]\<rparr>))"
proof -
  have same: "claim_declared src (st\<lparr>de_pending := p\<rparr>) g i q = claim_declared src st g i q" for p g i q
    by (simp add: claim_declared_def)
  show ?thesis
    using assms unfolding declared_step_def Let_def
    by (auto simp: same declared_entry_def split: if_splits)
qed

lemma included_set:
  assumes "load_declaration src g = Inr d"
    and "result_list normalize_github_repository (List.map fst (dc_includes d)) = Inr js"
  shows "set js = declared_includes src g"
  using result_list_set [OF assms(2)] assms(1) by (auto simp: load_declaration_Inr declared_includes_def)

interpretation declared: worklist "declared_step src" de_pending declared_githubs "declared_includes src"
  for src
proof (unfold_locales, goal_cases)
  case (1 st st')
  let ?p = "sort (de_pending st)"
  let ?g = "hd ?p"
  have "?p \<noteq> []" using 1(1) by (metis length_0_conv length_sort)
  then have "?p = ?g # tl ?p" by simp
  then have ms: "mset (de_pending st) = add_mset ?g (mset (tl ?p))" by (metis mset.simps(2) mset_sort)
  have rest: "set (de_pending st) = insert ?g (set (tl ?p))" using arg_cong [OF ms, of set_mset] by simp
  then have g: "?g \<in> set (de_pending st)" by blast
  have "declared_githubs st' = insert ?g (declared_githubs st) \<and>
        (if ?g \<in> declared_githubs st then mset (de_pending st) = add_mset ?g (mset (de_pending st'))
         else insert ?g (set (de_pending st')) = insert ?g (set (de_pending st) \<union> declared_includes src ?g))"
  proof (cases "map_of (de_loaded st) ?g = None")
    case False
    then have "st' = st\<lparr>de_pending := tl ?p\<rparr>" using declared_step_Inr [OF 1(2)] by (auto simp: Let_def)
    then show ?thesis using False ms by (auto simp: declared_githubs_def)
  next
    case True
    then obtain d identity path incs where d: "load_declaration src ?g = Inr d"
        "result_list normalize_github_repository (List.map fst (dc_includes d)) = Inr incs"
        "de_pending st' = tl ?p @ sort incs"
        "de_loaded st' = de_loaded st @ [(?g, declared_entry ?g identity path d)]"
      using declared_step_Inr [OF 1(2)] by (auto simp: Let_def)
    have "set (de_pending st') = set (tl ?p) \<union> declared_includes src ?g"
      using d(3) included_set [OF d(1,2)] by simp
    then have "insert ?g (set (de_pending st')) = insert ?g (set (de_pending st) \<union> declared_includes src ?g)"
      using rest by auto
    then show ?thesis
      using True d(4) by (auto simp: declared_githubs_def map_add_def split: option.splits)
  qed
  then show ?case using g by blast
qed

section \<open>The invariant\<close>

definition entry_ok :: "declared_source \<Rightarrow> declared_state \<Rightarrow> string \<Rightarrow> declared_resource \<Rightarrow> bool" where
  "entry_ok src st g r \<longleftrightarrow>
     (\<exists>d identity path. dl_load src g = Inr d \<and> validate_declaration d = Inr () \<and>
        shape_identity (dc_shape d) g = Inr identity \<and> shape_path (dc_shape d) g = Inr path \<and>
        r = declared_entry g identity path d \<and>
        de_github st identity = Some g \<and> de_at_path st path = Some identity \<and>
        (dl_identity_at src path = Inr None \<or> dl_identity_at src path = Inr (Some identity)))"

definition declared_ok :: "declared_source \<Rightarrow> declared_state \<Rightarrow> bool" where
  "declared_ok src st \<longleftrightarrow>
     distinct (List.map fst (de_loaded st)) \<and> (\<forall>e \<in> set (de_loaded st). entry_ok src st (fst e) (snd e))"

lemma claim_declared_Inr:
  "claim_declared src st g i p = Inr () \<longleftrightarrow>
     (de_github st i = None \<or> de_github st i = Some g) \<and> (de_at_path st p = None \<or> de_at_path st p = Some i) \<and>
     (dl_identity_at src p = Inr None \<or> dl_identity_at src p = Inr (Some i))"
  by (auto simp: claim_declared_def split: sum.splits option.splits)

lemma declared_ok_step:
  assumes ok: "declared_ok src st" and step: "declared_step src st = Inr st'"
  shows "declared_ok src st'"
proof -
  let ?p = "sort (de_pending st)"
  let ?g = "hd ?p"
  show ?thesis
  proof (cases "map_of (de_loaded st) ?g = None")
    case False
    then have "st' = st\<lparr>de_pending := tl ?p\<rparr>" using declared_step_Inr [OF step] by (auto simp: Let_def)
    then show ?thesis using ok by (simp add: declared_ok_def entry_ok_def)
  next
    case True
    then obtain d identity path incs where d: "load_declaration src ?g = Inr d"
        "shape_identity (dc_shape d) ?g = Inr identity" "shape_path (dc_shape d) ?g = Inr path"
        "claim_declared src st ?g identity path = Inr ()"
        and st': "st' = st\<lparr>de_pending := tl ?p @ sort incs, de_github := (de_github st)(identity \<mapsto> ?g),
             de_at_path := (de_at_path st)(path \<mapsto> identity),
             de_loaded := de_loaded st @ [(?g, declared_entry ?g identity path d)]\<rparr>"
      using declared_step_Inr [OF step] by (auto simp: Let_def)
    have le: "de_github st \<subseteq>\<^sub>m de_github st'" "de_at_path st \<subseteq>\<^sub>m de_at_path st'"
      using d(4) st' by (auto simp: claim_declared_Inr intro: map_le_update)
    have "entry_ok src st' (fst e) (snd e)" if "e \<in> set (de_loaded st)" for e
    proof -
      have "entry_ok src st (fst e) (snd e)" using ok that by (simp add: declared_ok_def)
      then show ?thesis using le unfolding entry_ok_def map_le_def by (metis domI)
    qed
    moreover have "entry_ok src st' ?g (declared_entry ?g identity path d)"
      using d st' by (auto simp: entry_ok_def load_declaration_Inr claim_declared_Inr)
    moreover have "distinct (List.map fst (de_loaded st'))"
      using ok True st' by (simp add: declared_ok_def map_of_eq_None_iff)
    ultimately show ?thesis using st' by (auto simp: declared_ok_def)
  qed
qed

lemma declared_ok_start: "declared_ok src (start_declared ids)"
  by (simp add: declared_ok_def start_declared_def)

definition reachable_declarations :: "declared_source \<Rightarrow> subject \<Rightarrow> string set" where
  "reachable_declarations src s = {(i, j). j \<in> declared_includes src i}\<^sup>* `` entry_identities s"

lemma reachable_is_declared_reach: "reachable_declarations src s = declared.reach src (entry_identities s)"
  by (simp add: reachable_declarations_def declared.reach_def)

definition declared_sound :: "declared_source \<Rightarrow> declared_resource list \<Rightarrow> bool" where
  "declared_sound src rs \<longleftrightarrow>
     distinct (List.map dr_github rs) \<and> distinct (List.map dr_identity rs) \<and> distinct (List.map dr_path rs) \<and>
     sorted (List.map dr_path rs) \<and>
     (\<forall>r \<in> set rs. \<exists>d. dl_load src (dr_github r) = Inr d \<and> validate_declaration d = Inr () \<and>
        dr_declaration r = d\<lparr>dc_buildables := []\<rparr> \<and>
        shape_identity (dc_shape d) (dr_github r) = Inr (dr_identity r) \<and>
        shape_path (dc_shape d) (dr_github r) = Inr (dr_path r) \<and>
        (dl_identity_at src (dr_path r) = Inr None \<or> dl_identity_at src (dr_path r) = Inr (Some (dr_identity r))))"

lemma declared_ok_sound:
  assumes ok: "declared_ok src st"
  shows "declared_sound src (sort_key (\<lambda>r. (dr_path r, dr_identity r)) (List.map snd (de_loaded st)))"
proof -
  let ?sorted = "sort_key (\<lambda>r. (dr_path r, dr_identity r)) (List.map snd (de_loaded st))"
  have each: "entry_ok src st (fst e) (snd e)" if "e \<in> set (de_loaded st)" for e
    using ok that by (simp add: declared_ok_def)
  have facts: "dr_github (snd e) = fst e" "de_github st (dr_identity (snd e)) = Some (fst e)"
      "de_at_path st (dr_path (snd e)) = Some (dr_identity (snd e))" if "e \<in> set (de_loaded st)" for e
    using each [OF that] by (auto simp: entry_ok_def declared_entry_def)
  have dist: "distinct (List.map fst (de_loaded st))" using ok by (simp add: declared_ok_def)
  have "distinct (List.map (\<lambda>e. dr_github (snd e)) (de_loaded st))"
    using dist facts(1) unfolding distinct_map inj_on_def by metis
  moreover have "distinct (List.map (\<lambda>e. dr_identity (snd e)) (de_loaded st))"
    using dist facts(2) unfolding distinct_map inj_on_def by (metis option.inject)
  moreover have "distinct (List.map (\<lambda>e. dr_path (snd e)) (de_loaded st))"
    using dist facts(2,3) unfolding distinct_map inj_on_def by (metis option.inject)
  ultimately have distincts: "distinct (List.map dr_github ?sorted)" "distinct (List.map dr_identity ?sorted)"
      "distinct (List.map dr_path ?sorted)"
    unfolding distinct_map_sort_key by (simp_all add: comp_def)
  have "sorted (List.map dr_path ?sorted)" by (rule sorted_fst [OF sorted_sort_key])
  moreover have "\<exists>d. dl_load src (dr_github r) = Inr d \<and> validate_declaration d = Inr () \<and>
        dr_declaration r = d\<lparr>dc_buildables := []\<rparr> \<and>
        shape_identity (dc_shape d) (dr_github r) = Inr (dr_identity r) \<and>
        shape_path (dc_shape d) (dr_github r) = Inr (dr_path r) \<and>
        (dl_identity_at src (dr_path r) = Inr None \<or> dl_identity_at src (dr_path r) = Inr (Some (dr_identity r)))"
    if r: "r \<in> set ?sorted" for r
  proof -
    obtain e where "e \<in> set (de_loaded st)" "r = snd e" using r by auto
    then show ?thesis using each [of e] by (auto simp: entry_ok_def declared_entry_def)
  qed
  ultimately show ?thesis using distincts by (simp add: declared_sound_def)
qed

lemma start_githubs: "declared_githubs (start_declared ids) = {}"
  by (simp add: declared_githubs_def start_declared_def)

lemma discover_declarations_Inr:
  assumes "discover_declarations subject src = Some (Inr rs)"
  shows "set (List.map dr_github rs) = reachable_declarations src subject" and "declared_sound src rs"
proof -
  from assms obtain ids st where ids: "result_list github_identity (sj_entrypoints subject) = Inr ids"
    and loop: "loop_while (\<lambda>st. de_pending st \<noteq> []) (declared_step src) (start_declared ids) = Some (Inr st)"
    and rs: "rs = sort_key (\<lambda>r. (dr_path r, dr_identity r)) (List.map snd (de_loaded st))"
    unfolding discover_declarations_def by (auto split: sum.splits)
  have E: "set (de_pending (start_declared ids)) = entry_identities subject"
    using result_list_set [OF ids] by (simp add: entry_identities_def start_declared_def)
  have ok: "declared_ok src st"
    using loop_while_invariant [where I = "declared_ok src", OF loop declared_ok_start] declared_ok_step by auto
  show "declared_sound src rs" unfolding rs by (rule declared_ok_sound [OF ok])
  have "dr_github (snd e) = fst e" if "e \<in> set (de_loaded st)" for e
    using ok that by (auto simp: declared_ok_def entry_ok_def declared_entry_def)
  then have "dr_github ` snd ` set (de_loaded st) = fst ` set (de_loaded st)" by force
  moreover have "declared_githubs st = declared.reach src (entry_identities subject)"
    using declared.search_result [OF loop start_githubs] unfolding E .
  ultimately show "set (List.map dr_github rs) = reachable_declarations src subject"
    unfolding reachable_is_declared_reach rs
    by (simp add: declared_githubs_def dom_map_of_conv_image_fst)
qed

lemma discover_declarations_ends:
  assumes "finite (reachable_declarations src subject)"
  shows "\<exists>r. discover_declarations subject src = Some r"
proof (cases "validate_subject subject")
  case (Inr u)
  show ?thesis
  proof (cases "result_list github_identity (sj_entrypoints subject)")
    case ids: (Inr ids)
    have E: "set (de_pending (start_declared ids)) = entry_identities subject"
      using result_list_set [OF ids] by (simp add: entry_identities_def start_declared_def)
    have "\<exists>r. loop_while (\<lambda>st. de_pending st \<noteq> []) (declared_step src) (start_declared ids) = Some r"
      using assms by (intro declared.search_ends start_githubs) (simp add: E reachable_is_declared_reach)
    then show ?thesis using Inr ids by (auto simp: discover_declarations_def)
  qed (simp add: discover_declarations_def Inr)
qed (simp add: discover_declarations_def)

end
