(* ===== verification/Go_Services.thy ===== *)
theory Go_Services
  imports Go_Effects Go_Paths
begin

text \<open>
  Functions that act through capabilities they are given: the file system, git, a registry.
  A capability is a parameter that answers from a world of its own, which it may change. The
  state keeps that world and, in order, what was asked and answered.

  \<open>emits m R\<close> says: whatever the world answers, \<open>m\<close> only adds to the log, and its result and
  what it adds are related by \<open>R\<close>. Properties of the order of effects are stated on the log.
\<close>

record ('w, 'v) traced =
  tw_world :: 'w
  tw_log :: "'v list"

definition ask :: "('w \<Rightarrow> 'r \<times> 'w) \<Rightarrow> ('r \<Rightarrow> 'v) \<Rightarrow> (('w, 'v) traced, 'e, 'r) comp" where
  "ask f ev = (\<lambda>s. case f (tw_world s) of (r, w) \<Rightarrow>
      (Inr r, s\<lparr>tw_world := w, tw_log := tw_log s @ [ev r]\<rparr>))"

text \<open>An answer that is an error ends the caller; \<open>wrap\<close> is the error it returns.\<close>

definition demand ::
    "('w \<Rightarrow> (string + 'r) \<times> 'w) \<Rightarrow> (string + 'r \<Rightarrow> 'v) \<Rightarrow> (string \<Rightarrow> 'e) \<Rightarrow> (('w, 'v) traced, 'e, 'r) comp" where
  "demand f ev wrap =
     bindM (ask f ev) (\<lambda>r. case r of Inl m \<Rightarrow> failM (wrap m) | Inr x \<Rightarrow> returnM x)"

definition emits :: "(('w, 'v) traced, 'e, 'a) comp \<Rightarrow> ('e + 'a \<Rightarrow> 'v list \<Rightarrow> bool) \<Rightarrow> bool" where
  "emits m R \<longleftrightarrow> (\<forall>s. \<exists>es. tw_log (snd (m s)) = tw_log s @ es \<and> R (fst (m s)) es)"

lemma emitsI: "(\<And>s. \<exists>es. tw_log (snd (m s)) = tw_log s @ es \<and> R (fst (m s)) es) \<Longrightarrow> emits m R"
  by (simp add: emits_def)

lemma emitsD: "emits m R \<Longrightarrow> m s = (r, s') \<Longrightarrow> \<exists>es. tw_log s' = tw_log s @ es \<and> R r es"
  unfolding emits_def by (metis fst_conv snd_conv)

lemma emitsD_log: "emits m R \<Longrightarrow> m s = (r, s') \<Longrightarrow> tw_log s' = tw_log s @ es \<Longrightarrow> R r es"
  using emitsD by fastforce

lemma emits_weaken: "emits m R \<Longrightarrow> (\<And>r es. R r es \<Longrightarrow> R' r es) \<Longrightarrow> emits m R'"
  unfolding emits_def by blast

lemma emits_return: "R (Inr x) [] \<Longrightarrow> emits (returnM x) R"
  by (simp add: emits_def returnM_def)

lemma emits_fail: "R (Inl e) [] \<Longrightarrow> emits (failM e) R"
  by (simp add: emits_def failM_def)

lemma emits_guard: "(ok \<Longrightarrow> R (Inr ()) []) \<Longrightarrow> (\<not> ok \<Longrightarrow> R (Inl e) []) \<Longrightarrow> emits (guardM ok e) R"
  by (simp add: emits_def guardM_def returnM_def failM_def)

lemma emits_lift: "R x [] \<Longrightarrow> emits (liftM x) R"
  by (simp add: emits_def liftM_def)

lemma emits_ask: "(\<And>r. R (Inr r) [ev r]) \<Longrightarrow> emits (ask f ev) R"
  by (simp add: emits_def ask_def split: prod.splits)

lemma emits_bind:
  assumes "emits m Q"
    and "\<And>e es. Q (Inl e) es \<Longrightarrow> R (Inl e) es"
    and "\<And>x es. Q (Inr x) es \<Longrightarrow> emits (f x) (\<lambda>r es'. R r (es @ es'))"
  shows "emits (bindM m f) R"
proof (rule emitsI)
  fix s
  obtain r t where m: "m s = (r, t)" by (cases "m s")
  obtain es where es: "tw_log t = tw_log s @ es" "Q r es" using emitsD [OF assms(1) m] by blast
  show "\<exists>es. tw_log (snd (bindM m f s)) = tw_log s @ es \<and> R (fst (bindM m f s)) es"
  proof (cases r)
    case (Inl e)
    then show ?thesis using m es assms(2) by (auto simp: bindM_def)
  next
    case (Inr x)
    obtain r' u where f: "f x t = (r', u)" by (cases "f x t")
    have "emits (f x) (\<lambda>r es'. R r (es @ es'))" using assms(3) es(2) Inr by blast
    from emitsD [OF this f] es(1) show ?thesis using m Inr f by (auto simp: bindM_def)
  qed
qed

lemma emits_demand:
  assumes "\<And>m. R (Inl (wrap m)) [ev (Inl m)]" and "\<And>x. R (Inr x) [ev (Inr x)]"
  shows "emits (demand f ev wrap) R"
  unfolding demand_def
  by (rule emits_bind [where Q = "\<lambda>r es. \<exists>x. r = Inr x \<and> es = [ev x]"])
    (auto intro: emits_ask emits_fail emits_return assms split: sum.splits)

text \<open>The same for the first step of a function, with what follows related to the whole.\<close>

lemma emits_guard_bind:
  "(\<not> ok \<Longrightarrow> R (Inl e) []) \<Longrightarrow> (ok \<Longrightarrow> emits (f ()) R) \<Longrightarrow> emits (bindM (guardM ok e) f) R"
  by (cases ok) (simp_all add: guardM_def emits_def bindM_def failM_def returnM_def)

lemma emits_lift_bind:
  "(\<And>e. x = Inl e \<Longrightarrow> R (Inl e) []) \<Longrightarrow> (\<And>v. x = Inr v \<Longrightarrow> emits (f v) R) \<Longrightarrow> emits (bindM (liftM x) f) R"
  by (cases x) (simp_all add: emits_def bindM_def liftM_def)

lemma emits_ask_bind:
  "(\<And>x. emits (f x) (\<lambda>r es. R r (ev x # es))) \<Longrightarrow> emits (bindM (ask g ev) f) R"
  by (rule emits_bind [where Q = "\<lambda>r es. \<exists>x. r = Inr x \<and> es = [ev x]"]) (auto intro: emits_ask)

lemma emits_demand_bind:
  assumes "\<And>m. R (Inl (wrap m)) [ev (Inl m)]" and "\<And>x. emits (f x) (\<lambda>r es. R r (ev (Inr x) # es))"
  shows "emits (bindM (demand g ev wrap) f) R"
proof (rule emits_bind)
  show "emits (demand g ev wrap)
      (\<lambda>r es. (\<exists>m. r = Inl (wrap m) \<and> es = [ev (Inl m)]) \<or> (\<exists>x. r = Inr x \<and> es = [ev (Inr x)]))"
    by (rule emits_demand) auto
qed (auto intro: assms)

lemma emits_mapErr:
  assumes "emits m (\<lambda>r es. R (case r of Inl e \<Rightarrow> Inl (h e) | Inr x \<Rightarrow> Inr x) es)"
  shows "emits (mapErrM h m) R"
proof (rule emitsI)
  fix s
  obtain r t where m: "m s = (r, t)" by (cases "m s")
  from emitsD [OF assms m] m
  show "\<exists>es. tw_log (snd (mapErrM h m s)) = tw_log s @ es \<and> R (fst (mapErrM h m s)) es"
    by (cases r) (auto simp: mapErrM_def)
qed

text \<open>A loop of such functions: \<open>I handled es\<close> relates the elements handled and what was added.\<close>

lemma emits_each:
  assumes "I [] []"
    and "\<And>pre x suf es. xs = pre @ x # suf \<Longrightarrow> I pre es \<Longrightarrow>
      emits (f x) (\<lambda>r es'. (\<forall>e. r = Inl e \<longrightarrow> E e (es @ es')) \<and> (\<forall>v. r = Inr v \<longrightarrow> I (pre @ [x]) (es @ es')))"
  shows "emits (eachM f xs) (\<lambda>r es. (\<forall>e. r = Inl e \<longrightarrow> E e es) \<and> (\<forall>v. r = Inr v \<longrightarrow> I xs es))"
proof -
  have "emits (eachM f ys) (\<lambda>r es'. (\<forall>e. r = Inl e \<longrightarrow> E e (es @ es')) \<and> (\<forall>v. r = Inr v \<longrightarrow> I xs (es @ es')))"
    if "xs = pre @ ys" "I pre es" for pre ys es
    using that
  proof (induction ys arbitrary: pre es)
    case Nil
    then show ?case by (simp add: emits_return)
  next
    case (Cons y ys)
    note step = assms(2) [OF Cons.prems]
    show ?case
      unfolding eachM.simps
    proof (rule emits_bind [OF step], goal_cases)
      case (2 v es')
      then have "I (pre @ [y]) (es @ es')" by simp
      moreover have "xs = (pre @ [y]) @ ys" using Cons.prems(1) by simp
      ultimately show ?case using Cons.IH [of "pre @ [y]" "es @ es'"] by simp
    qed simp
  qed
  from this [of "[]" xs "[]"] show ?thesis using assms(1) by simp
qed

text \<open>Where an event stands in a log of two parts.\<close>

lemma append_middle:
  "xs @ ys = pre @ z # suf \<Longrightarrow> (\<exists>m. xs = pre @ z # m) \<or> (\<exists>m. pre = xs @ m \<and> ys = m @ z # suf)"
proof -
  assume "xs @ ys = pre @ z # suf"
  then obtain us where "xs = pre @ us \<and> us @ ys = z # suf \<or> xs @ us = pre \<and> ys = us @ z # suf"
    unfolding append_eq_append_conv2 by blast
  then show ?thesis by (cases us) auto
qed

section \<open>Absolute and relative paths\<close>

text \<open>\<^verbatim>\<open>filepath.Abs\<close> in a working directory.\<close>

definition abs_path :: "string \<Rightarrow> string \<Rightarrow> string" where
  "abs_path cwd p = (if is_abs p then clean_path p else join_path [cwd, p])"

definition name_segments :: "string \<Rightarrow> string list" where
  "name_segments p = filter (\<lambda>s. s \<noteq> []) (split_on sep (clean_path p))"

fun common_prefix :: "'a list \<Rightarrow> 'a list \<Rightarrow> nat" where
  "common_prefix (x # xs) (y # ys) = (if x = y then Suc (common_prefix xs ys) else 0)"
| "common_prefix _ _ = 0"

text \<open>\<^verbatim>\<open>filepath.Rel\<close>; \<open>None\<close> is its error.\<close>

definition rel_path :: "string \<Rightarrow> string \<Rightarrow> string option" where
  "rel_path base targ =
     (if clean_path base = clean_path targ then Some ''.''
      else if is_abs (clean_path base) \<noteq> is_abs (clean_path targ) then None
      else
        let bs = (if clean_path base = ''.'' then [] else name_segments base);
            ts = name_segments targ;
            n = common_prefix bs ts
        in if drop n bs \<noteq> [] \<and> hd (drop n bs) = ''..'' then None
           else Some (join [sep] (replicate (length bs - n) ''..'' @ drop n ts)))"

text \<open>Strictly beneath a root, lexically.\<close>

definition within_root :: "string \<Rightarrow> string \<Rightarrow> bool" where
  "within_root root path =
     (case rel_path root path of
        None \<Rightarrow> False
      | Some r \<Rightarrow> r \<noteq> ''.'' \<and> r \<noteq> ''..'' \<and> \<not> is_abs r \<and> \<not> has_prefix r (''..'' @ [sep]))"

lemma common_prefix_le: "common_prefix xs ys \<le> length xs" "common_prefix xs ys \<le> length ys"
  by (induction xs ys rule: common_prefix.induct) auto

lemma take_common_prefix: "take (common_prefix xs ys) xs = take (common_prefix xs ys) ys"
  by (induction xs ys rule: common_prefix.induct) auto

lemma within_root_segments:
  assumes "within_root root path" and "clean_path root \<noteq> ''.''"
  shows "\<exists>extra. name_segments path = name_segments root @ extra"
proof -
  let ?n = "common_prefix (name_segments root) (name_segments path)"
  let ?up = "replicate (length (name_segments root) - ?n) ''..''"
  have rel: "rel_path root path = Some (join [sep] (?up @ drop ?n (name_segments path)))"
    using assms by (auto simp: within_root_def rel_path_def Let_def split: if_splits option.splits)
  have "length (name_segments root) = ?n"
  proof (rule ccontr)
    assume "length (name_segments root) \<noteq> ?n"
    then obtain m where m: "length (name_segments root) - ?n = Suc m"
      using common_prefix_le(1) [of "name_segments root" "name_segments path"] by (metis Suc_pred diff_is_0_eq le_antisym zero_less_iff_neq_zero)
    then have "?up @ drop ?n (name_segments path) = ''..'' # (replicate m ''..'' @ drop ?n (name_segments path))" by simp
    then have "join [sep] (?up @ drop ?n (name_segments path)) = ''..'' \<or>
        has_prefix (join [sep] (?up @ drop ?n (name_segments path))) (''..'' @ [sep])"
      by (cases "replicate m ''..'' @ drop ?n (name_segments path)") (auto simp: has_prefix_iff)
    then show False using assms(1) rel by (auto simp: within_root_def)
  qed
  then have "name_segments root = take ?n (name_segments path)"
    using take_common_prefix [of "name_segments root" "name_segments path"] by simp
  then have "name_segments path = name_segments root @ drop ?n (name_segments path)" by (metis append_take_drop_id)
  then show ?thesis by blast
qed

end
