(* ===== verification/Repo_Orphan.thy ===== *)
theory Repo_Orphan
  imports Repo_Contract Go_Services
begin

text \<open>
  Removal of checkouts outside the repository closure (\<^verbatim>\<open>internal/orphan/orphan.go\<close>): the
  report, the preflight that authorizes a plan, and its application. Resolving links, looking
  at a directory, observing a checkout and removing one are capabilities; the log records
  each of them with its answer.
\<close>

section \<open>The report\<close>

record orphan_resource =
  or_identity :: string
  or_github :: string
  or_shape :: resource_shape
  or_canonical :: string

record orphan_candidate = orphan_resource +
  oc_path :: string

definition validate_resource :: "'a orphan_resource_scheme \<Rightarrow> repo_error + unit" where
  "validate_resource r =
     result_bind (shape_identity (or_shape r) (or_github r)) (\<lambda>identity.
     result_bind (shape_path (or_shape r) (or_github r)) (\<lambda>path.
       if or_identity r \<noteq> identity then Inl (Refused ''identity disagrees with shape-derived identity'' [or_identity r, identity])
       else if or_canonical r \<noteq> path
       then Inl (Refused ''canonical path disagrees with shape-derived path'' [or_canonical r, path])
       else if normalize_github_repository (or_github r) \<noteq> Inr (or_github r)
       then Inl (Refused ''GitHub designation is not canonical'' [or_github r])
       else Inr ()))"

definition validate_orphan :: "orphan_candidate \<Rightarrow> repo_error + unit" where
  "validate_orphan c =
     result_bind (validate_resource c) (\<lambda>_.
       if oc_path c = [] then Inl (Refused ''checkout path is empty'' []) else Inr ())"

fun check_members :: "string list \<Rightarrow> string list \<Rightarrow> orphan_resource list \<Rightarrow> repo_error + unit" where
  "check_members ids paths [] = Inr ()"
| "check_members ids paths (r # rs) =
     result_bind (validate_resource r) (\<lambda>_.
       if or_identity r \<in> set ids then Inl (Refused ''repository closure identity is ambiguous'' [or_identity r])
       else if or_canonical r \<in> set paths
       then Inl (Refused ''repository closure canonical path is claimed twice'' [or_canonical r])
       else check_members (or_identity r # ids) (or_canonical r # paths) rs)"

fun check_checkouts :: "string list \<Rightarrow> string list \<Rightarrow> orphan_candidate list \<Rightarrow> repo_error + unit" where
  "check_checkouts ids paths [] = Inr ()"
| "check_checkouts ids paths (c # cs) =
     result_bind (validate_orphan c) (\<lambda>_.
       if or_identity c \<in> set ids then Inl (Refused ''present checkout identity is ambiguous'' [or_identity c])
       else if oc_path c \<in> set paths then Inl (Refused ''present checkout path is ambiguous'' [oc_path c])
       else check_checkouts (or_identity c # ids) (oc_path c # paths) cs)"

definition orphan_report ::
    "orphan_resource list \<Rightarrow> orphan_candidate list \<Rightarrow> repo_error + orphan_candidate list" where
  "orphan_report members present =
     result_bind (check_members [] [] members) (\<lambda>_.
     result_bind (check_checkouts [] [] present) (\<lambda>_.
       Inr (sort_key or_identity (filter (\<lambda>c. or_identity c \<notin> or_identity ` set members) present))))"

section \<open>Recoverability\<close>

record checkout_observation =
  ob_exists :: bool
  ob_origin_count :: int
  ob_origin_github :: string
  ob_branch :: string
  ob_head :: string
  ob_upstream_branch :: string
  ob_upstream_head :: string
  ob_remote_head :: string
  ob_status :: string
  ob_nested :: bool
  ob_disposable :: bool

definition validate_recoverable :: "orphan_candidate \<Rightarrow> checkout_observation \<Rightarrow> repo_error + unit" where
  "validate_recoverable c v =
     (if \<not> ob_exists v then Inl (Refused ''checkout does not exist'' [])
      else if ob_status v \<noteq> [] then Inl (Refused ''checkout is dirty'' [])
      else if ob_origin_count v \<noteq> 1 then Inl (Refused ''origin is ambiguous'' [])
      else if ob_origin_github v \<noteq> or_github c
      then Inl (Refused ''origin does not match'' [ob_origin_github v, or_github c])
      else if ob_branch v = [] then Inl (Refused ''branch is detached or ambiguous'' [])
      else if ob_upstream_branch v \<noteq> ''origin/'' @ ob_branch v
      then Inl (Refused ''upstream branch does not exactly track origin'' [ob_upstream_branch v, ob_branch v])
      else if \<not> is_commit_id (ob_head v) \<or> \<not> is_commit_id (ob_upstream_head v) \<or> \<not> is_commit_id (ob_remote_head v)
      then Inl (Refused ''HEAD, upstream ref, or live remote ref is not an exact Git object id'' [])
      else if ob_head v \<noteq> ob_upstream_head v \<or> ob_head v \<noteq> ob_remote_head v
      then Inl (Refused ''checkout HEAD is not exactly present upstream'' [])
      else if ob_nested v then Inl (Refused ''checkout contains a nested checkout'' [])
      else if \<not> ob_disposable v then Inl (Refused ''checkout was not designated disposable'' [])
      else Inr ())"

section \<open>Capabilities\<close>

datatype orphan_event =
    Evaluated string "string + string"
  | Stated string "string + bool"
  | ObservedCheckout orphan_candidate "string + checkout_observation"
  | RemovedPath string "string + unit"

text \<open>
  \<^verbatim>\<open>filepath.EvalSymlinks\<close>, \<^verbatim>\<open>os.Stat\<close> (whether it is a directory), and the two functions that the
  caller passes. The working directory makes a relative answer absolute.
\<close>

record 'w orphan_services =
  os_eval :: "string \<Rightarrow> 'w \<Rightarrow> (string + string) \<times> 'w"
  os_stat :: "string \<Rightarrow> 'w \<Rightarrow> (string + bool) \<times> 'w"
  os_observe :: "orphan_candidate \<Rightarrow> 'w \<Rightarrow> (string + checkout_observation) \<times> 'w"
  os_remove :: "string \<Rightarrow> 'w \<Rightarrow> (string + unit) \<times> 'w"
  os_working :: string

type_synonym ('w, 'e, 'a) orphan_comp = "(('w, orphan_event) traced, 'e, 'a) comp"

definition canonical_directory :: "'w orphan_services \<Rightarrow> string \<Rightarrow> ('w, repo_error, string) orphan_comp" where
  "canonical_directory S path =
     bindM (demand (os_eval S path) (Evaluated path) (\<lambda>m. Refused ''resolve'' [path, m])) (\<lambda>resolved.
       let absolute = clean_path (abs_path (os_working S) resolved)
       in bindM (demand (os_stat S absolute) (Stated absolute) (\<lambda>m. Refused ''inspect'' [absolute, m])) (\<lambda>dir.
          bindM (guardM dir (Refused ''is not a directory'' [absolute])) (\<lambda>_. returnM absolute)))"

definition observe_checkout :: "'w orphan_services \<Rightarrow> orphan_candidate \<Rightarrow> ('w, repo_error, checkout_observation) orphan_comp" where
  "observe_checkout S c =
     demand (os_observe S c) (ObservedCheckout c) (\<lambda>m. Refused ''observe prune candidate'' [or_identity c, m])"

section \<open>Preflight\<close>

record prune_request =
  rq_root :: string
  rq_closure :: "orphan_resource list"
  rq_candidates :: "orphan_candidate list"

record approved_candidate =
  ap_candidate :: orphan_candidate
  ap_observation :: checkout_observation
  ap_root :: string
  ap_path :: string

definition approve :: "'w orphan_services \<Rightarrow> string \<Rightarrow> string \<Rightarrow> orphan_candidate \<Rightarrow> ('w, repo_error, approved_candidate) orphan_comp" where
  "approve S root resolved_root c =
     (let expected = join_path [root, or_canonical c]
      in bindM (guardM (\<not> (clean_path (oc_path c) \<noteq> expected \<or> oc_path c = root))
            (Refused ''candidate path is not its canonical path beneath prune root'' [oc_path c, expected])) (\<lambda>_.
         bindM (canonical_directory S (oc_path c)) (\<lambda>resolved.
         bindM (guardM (resolved = oc_path c)
            (Refused ''candidate path resolves through a symlink'' [oc_path c, resolved])) (\<lambda>_.
         bindM (guardM (within_root resolved_root resolved)
            (Refused ''candidate path escapes prune root'' [resolved, resolved_root])) (\<lambda>_.
         bindM (observe_checkout S c) (\<lambda>observation.
         bindM (liftM (validate_recoverable c observation)) (\<lambda>_.
           returnM \<lparr>ap_candidate = c, ap_observation = observation, ap_root = resolved_root, ap_path = resolved\<rparr>)))))))"

fun approve_all ::
    "'w orphan_services \<Rightarrow> string \<Rightarrow> string \<Rightarrow> approved_candidate list \<Rightarrow> orphan_candidate list \<Rightarrow>
     ('w, repo_error, approved_candidate list) orphan_comp" where
  "approve_all S root resolved_root acc [] = returnM acc"
| "approve_all S root resolved_root acc (c # cs) =
     bindM (approve S root resolved_root c) (\<lambda>a. approve_all S root resolved_root (acc @ [a]) cs)"

definition preflight :: "'w orphan_services \<Rightarrow> prune_request \<Rightarrow> ('w, repo_error, approved_candidate list) orphan_comp" where
  "preflight S q =
     bindM (guardM (is_abs (rq_root q) \<and> clean_path (rq_root q) = rq_root q)
        (Refused ''prune root is not an absolute clean path'' [rq_root q])) (\<lambda>_.
     bindM (canonical_directory S (rq_root q)) (\<lambda>resolved_root.
     bindM (guardM (resolved_root = rq_root q)
        (Refused ''prune root resolves through a symlink'' [rq_root q, resolved_root])) (\<lambda>_.
     bindM (guardM (rq_candidates q \<noteq> []) (Refused ''prune request has no candidates'' [])) (\<lambda>_.
     bindM (liftM (orphan_report (rq_closure q) (rq_candidates q))) (\<lambda>orphans.
     bindM (guardM (length orphans = length (rq_candidates q))
        (Refused ''prune request contains a participating repository'' [])) (\<lambda>_.
       approve_all S (rq_root q) resolved_root [] (rq_candidates q)))))))"

section \<open>Application\<close>

definition recheck_path :: "'w orphan_services \<Rightarrow> approved_candidate \<Rightarrow> ('w, repo_error, unit) orphan_comp" where
  "recheck_path S a =
     bindM (canonical_directory S (ap_root a)) (\<lambda>root.
     bindM (guardM (root = ap_root a) (Refused ''prune root changed after preflight'' [])) (\<lambda>_.
     bindM (canonical_directory S (oc_path (ap_candidate a))) (\<lambda>path.
       guardM (\<not> (path \<noteq> ap_path a \<or> \<not> within_root root path))
         (Refused ''prune candidate path changed after preflight'' [or_identity (ap_candidate a)]))))"

text \<open>The fence: every candidate is observed again before anything is removed.\<close>

definition fence :: "'w orphan_services \<Rightarrow> approved_candidate \<Rightarrow> ('w, repo_error, unit) orphan_comp" where
  "fence S a =
     bindM (recheck_path S a) (\<lambda>_.
     bindM (observe_checkout S (ap_candidate a)) (\<lambda>current.
     bindM (guardM (current = ap_observation a)
        (Refused ''prune candidate changed after preflight'' [or_identity (ap_candidate a)])) (\<lambda>_.
       liftM (validate_recoverable (ap_candidate a) current))))"

definition remove_candidate :: "'w orphan_services \<Rightarrow> approved_candidate \<Rightarrow> ('w, repo_error, unit) orphan_comp" where
  "remove_candidate S a =
     (let c = ap_candidate a
      in bindM (recheck_path S a) (\<lambda>_.
         bindM (observe_checkout S c) (\<lambda>current.
         bindM (guardM (current = ap_observation a)
            (Refused ''prune candidate changed before removal'' [or_identity c])) (\<lambda>_.
         bindM (recheck_path S a) (\<lambda>_.
         bindM (demand (os_remove S (oc_path c)) (RemovedPath (oc_path c))
            (\<lambda>m. Refused ''remove prune candidate'' [or_identity c, m])) (\<lambda>_.
         bindM (observe_checkout S c) (\<lambda>after.
           guardM (\<not> ob_exists after) (Refused ''prune candidate still exists after removal'' [or_identity c]))))))))"

text \<open>A failure comes with the receipt of what had been removed.\<close>

fun remove_all ::
    "'w orphan_services \<Rightarrow> string list \<Rightarrow> approved_candidate list \<Rightarrow>
     ('w, string list \<times> repo_error, string list) orphan_comp" where
  "remove_all S receipt [] = returnM receipt"
| "remove_all S receipt (a # as) =
     bindM (mapErrM (Pair receipt) (remove_candidate S a))
       (\<lambda>_. remove_all S (receipt @ [oc_path (ap_candidate a)]) as)"

definition apply_prune ::
    "'w orphan_services \<Rightarrow> approved_candidate list \<Rightarrow> ('w, string list \<times> repo_error, string list) orphan_comp" where
  "apply_prune S plan =
     (if plan = [] then failM ([], Refused ''prune plan is empty or was not authorized'' [])
      else bindM (mapErrM (Pair []) (eachM (fence S) plan)) (\<lambda>_. remove_all S [] plan))"

end
