(* ===== verification/Orphan_Facts.thy ===== *)
theory Orphan_Facts
  imports Repo_Orphan
begin

text \<open>
  Why a removal is safe. \<open>guarded plan es\<close> is the discipline of the log: each removal names a
  candidate of the plan, comes directly after an observation equal to the approved one and a
  fresh resolution of its root and path, and after every candidate has been observed again.
\<close>

definition removes_nothing :: "orphan_event list \<Rightarrow> bool" where
  "removes_nothing es \<longleftrightarrow> (\<forall>p r. RemovedPath p r \<notin> set es)"

lemma removes_nothing_simps [simp]:
  "removes_nothing []"
  "removes_nothing (e # es) \<longleftrightarrow> (\<forall>p r. e \<noteq> RemovedPath p r) \<and> removes_nothing es"
  "removes_nothing (es @ es') \<longleftrightarrow> removes_nothing es \<and> removes_nothing es'"
  by (auto simp: removes_nothing_def)

text \<open>The events of a successful recheck of root and path.\<close>

definition rechecked :: "approved_candidate \<Rightarrow> orphan_event list \<Rightarrow> bool" where
  "rechecked a es \<longleftrightarrow>
     (\<exists>p q. es = [Evaluated (ap_root a) (Inr p), Stated (ap_root a) (Inr True),
        Evaluated (oc_path (ap_candidate a)) (Inr q), Stated (ap_path a) (Inr True)]) \<and>
     within_root (ap_root a) (ap_path a)"

definition reobserved :: "approved_candidate \<Rightarrow> orphan_event" where
  "reobserved a = ObservedCheckout (ap_candidate a) (Inr (ap_observation a))"

lemma reobserved_quiet [simp]: "reobserved a \<noteq> RemovedPath p r"
  by (simp add: reobserved_def)

definition licensed :: "approved_candidate list \<Rightarrow> string \<Rightarrow> orphan_event list \<Rightarrow> bool" where
  "licensed plan p pre \<longleftrightarrow>
     (\<exists>a \<in> set plan. p = oc_path (ap_candidate a) \<and>
        (\<exists>earlier recheck. pre = earlier @ reobserved a # recheck \<and> rechecked a recheck)) \<and>
     (\<forall>b \<in> set plan. reobserved b \<in> set pre \<and> validate_recoverable (ap_candidate b) (ap_observation b) = Inr ())"

definition guarded :: "approved_candidate list \<Rightarrow> orphan_event list \<Rightarrow> bool" where
  "guarded plan es \<longleftrightarrow> (\<forall>pre p r suf. es = pre @ RemovedPath p r # suf \<longrightarrow> licensed plan p pre)"

lemma guarded_quiet: "removes_nothing es \<Longrightarrow> guarded plan es"
  by (auto simp: guarded_def)

lemma guarded_append:
  assumes "guarded plan es" and "removes_nothing es'"
  shows "guarded plan (es @ es')"
  unfolding guarded_def
proof (intro allI impI)
  fix pre p r suf assume "es @ es' = pre @ RemovedPath p r # suf"
  from append_middle [OF this]
  consider m where "es = pre @ RemovedPath p r # m" | m where "es' = m @ RemovedPath p r # suf" by blast
  then show "licensed plan p pre"
    using assms by cases (auto simp: guarded_def)
qed

lemma guarded_removal:
  assumes "guarded plan es" and "licensed plan p es"
  shows "guarded plan (es @ [RemovedPath p r])"
  unfolding guarded_def
proof (intro allI impI)
  fix pre q r' suf assume "es @ [RemovedPath p r] = pre @ RemovedPath q r' # suf"
  from append_middle [OF this]
  consider m where "es = pre @ RemovedPath q r' # m" | "pre = es" "q = p" by (auto simp: Cons_eq_append_conv)
  then show "licensed plan q pre"
    using assms by cases (auto simp: guarded_def)
qed

section \<open>What the parts add to the log\<close>

lemma emits_canonical:
  "emits (canonical_directory S path) (\<lambda>r es. removes_nothing es \<and>
     (\<forall>q. r = Inr q \<longrightarrow> (\<exists>p. es = [Evaluated path (Inr p), Stated q (Inr True)])))"
  unfolding canonical_directory_def Let_def
  by (intro emits_demand_bind emits_guard_bind emits_return) simp_all

lemma emits_observe:
  "emits (observe_checkout S c) (\<lambda>r es. \<exists>x. es = [ObservedCheckout c x] \<and> (\<forall>v. r = Inr v \<longrightarrow> x = Inr v))"
  unfolding observe_checkout_def by (rule emits_demand) simp_all

lemma emits_recheck:
  "emits (recheck_path S a) (\<lambda>r es. removes_nothing es \<and> (\<forall>u. r = Inr u \<longrightarrow> rechecked a es))"
  unfolding recheck_path_def
  by (intro emits_bind [OF emits_canonical] emits_guard_bind emits_guard) (auto simp: rechecked_def)

lemma emits_fence:
  "emits (fence S a) (\<lambda>r es. removes_nothing es \<and>
     (\<forall>u. r = Inr u \<longrightarrow> reobserved a \<in> set es \<and> validate_recoverable (ap_candidate a) (ap_observation a) = Inr ()))"
  unfolding fence_def
  by (intro emits_bind [OF emits_recheck] emits_bind [OF emits_observe] emits_guard_bind emits_lift)
    (auto simp: reobserved_def)

section \<open>Preflight\<close>

definition approved_soundly :: "prune_request \<Rightarrow> orphan_candidate \<Rightarrow> approved_candidate \<Rightarrow> bool" where
  "approved_soundly q c a \<longleftrightarrow>
     ap_candidate a = c \<and> ap_path a = oc_path c \<and> ap_root a = rq_root q \<and>
     oc_path c = join_path [rq_root q, or_canonical c] \<and> within_root (rq_root q) (oc_path c) \<and>
     validate_recoverable c (ap_observation a) = Inr ()"

lemma clean_absolute: "clean_path (abs_path cwd p) = clean_path p \<or> \<not> is_abs p"
  by (simp add: abs_path_def clean_path_idem)

lemma emits_canonical_clean:
  "emits (canonical_directory S path) (\<lambda>r es. removes_nothing es \<and> (\<forall>q. r = Inr q \<longrightarrow> clean_path q = q))"
  unfolding canonical_directory_def Let_def
  by (intro emits_demand_bind emits_guard_bind emits_return) (simp_all add: clean_path_idem)

lemma emits_approve:
  assumes "root = rq_root q"
  shows "emits (approve S root root c) (\<lambda>r es. removes_nothing es \<and> (\<forall>a. r = Inr a \<longrightarrow> approved_soundly q c a))"
  unfolding approve_def Let_def
  by (intro emits_guard_bind emits_bind [OF emits_canonical_clean] emits_bind [OF emits_observe] emits_lift_bind emits_return)
    (auto simp: approved_soundly_def assms)

lemma emits_approve_all:
  assumes "root = rq_root q"
  shows "emits (approve_all S root root acc cs) (\<lambda>r es. removes_nothing es \<and>
     (\<forall>plan. r = Inr plan \<longrightarrow> (\<exists>as. plan = acc @ as \<and> list_all2 (approved_soundly q) cs as)))"
proof (induction cs arbitrary: acc)
  case Nil
  then show ?case by (simp add: emits_return)
next
  case (Cons c cs)
  show ?case
    unfolding approve_all.simps
  proof (rule emits_bind [OF emits_approve [OF assms]], goal_cases)
    case (2 a es)
    then show ?case by (intro emits_weaken [OF Cons.IH [of "acc @ [a]"]]) auto
  qed simp
qed

lemma report_all_orphans:
  assumes "orphan_report members cs = Inr orphans" and "length orphans = length cs"
  shows "\<forall>c \<in> set cs. or_identity c \<notin> or_identity ` set members"
proof -
  let ?P = "\<lambda>c. or_identity c \<notin> or_identity ` set members"
  have "length (filter ?P cs) = length cs" using assms by (auto simp: orphan_report_def)
  then show ?thesis by (metis filter_id_conv length_filter_less less_irrefl filter_True)
qed

definition sound_plan :: "prune_request \<Rightarrow> approved_candidate list \<Rightarrow> bool" where
  "sound_plan q plan \<longleftrightarrow>
     list_all2 (approved_soundly q) (rq_candidates q) plan \<and>
     (\<forall>c \<in> set (rq_candidates q). or_identity c \<notin> or_identity ` set (rq_closure q))"

lemma emits_preflight:
  "emits (preflight S q) (\<lambda>r es. removes_nothing es \<and> (\<forall>plan. r = Inr plan \<longrightarrow> sound_plan q plan))"
proof -
  have last: "emits (approve_all S (rq_root q) (rq_root q) [] (rq_candidates q))
      (\<lambda>r es. removes_nothing (pre @ es) \<and> (\<forall>plan. r = Inr plan \<longrightarrow> sound_plan q plan))"
    if "removes_nothing pre" "orphan_report (rq_closure q) (rq_candidates q) = Inr orphans"
      "length orphans = length (rq_candidates q)" for pre orphans
    by (rule emits_weaken [OF emits_approve_all [OF refl]])
      (use that report_all_orphans [OF that(2,3)] in \<open>auto simp: sound_plan_def\<close>)
  show ?thesis
    unfolding preflight_def
    by (intro emits_guard_bind emits_bind [OF emits_canonical_clean] emits_lift_bind)
      (auto intro!: last simp del: removes_nothing_simps(3))
qed

section \<open>Application\<close>

lemma rechecked_quiet: "rechecked a es \<Longrightarrow> removes_nothing es"
  by (auto simp: rechecked_def)

definition fenced :: "approved_candidate list \<Rightarrow> orphan_event list \<Rightarrow> bool" where
  "fenced plan es \<longleftrightarrow>
     guarded plan es \<and>
     (\<forall>b \<in> set plan. reobserved b \<in> set es \<and> validate_recoverable (ap_candidate b) (ap_observation b) = Inr ())"

lemma fenced_quiet: "fenced plan es \<Longrightarrow> removes_nothing es' \<Longrightarrow> fenced plan (es @ es')"
  by (auto simp: fenced_def intro: guarded_append)

lemma fenced_removal:
  assumes "fenced plan es" and "a \<in> set plan" and "removes_nothing es1" and "rechecked a es2"
  shows "fenced plan (es @ es1 @ reobserved a # es2 @ [RemovedPath (oc_path (ap_candidate a)) r])"
proof -
  let ?pre = "es @ es1 @ reobserved a # es2"
  have "removes_nothing (es1 @ reobserved a # es2)"
    using assms(3) rechecked_quiet [OF assms(4)] by (simp add: reobserved_def)
  then have pre: "fenced plan ?pre" using fenced_quiet [OF assms(1)] by blast
  have "licensed plan (oc_path (ap_candidate a)) ?pre"
    unfolding licensed_def
  proof (intro conjI bexI [of _ a])
    show "\<exists>earlier recheck. ?pre = earlier @ reobserved a # recheck \<and> rechecked a recheck"
      using assms(4) by (intro exI [of _ "es @ es1"] exI [of _ es2]) simp
  qed (use assms(2) pre in \<open>auto simp: fenced_def\<close>)
  then have "guarded plan (?pre @ [RemovedPath (oc_path (ap_candidate a)) r])"
    using pre by (intro guarded_removal) (simp_all add: fenced_def)
  then show ?thesis using pre by (auto simp: fenced_def)
qed

text \<open>What a receipt says has happened: the path was removed and seen to be gone.\<close>

definition removed_for_good :: "approved_candidate \<Rightarrow> orphan_event list \<Rightarrow> bool" where
  "removed_for_good a es \<longleftrightarrow>
     RemovedPath (oc_path (ap_candidate a)) (Inr ()) \<in> set es \<and>
     (\<exists>after. \<not> ob_exists after \<and> ObservedCheckout (ap_candidate a) (Inr after) \<in> set es)"

lemma emits_remove:
  assumes "fenced plan es0" and "a \<in> set plan"
  shows "emits (remove_candidate S a) (\<lambda>r es. fenced plan (es0 @ es) \<and> (\<forall>u. r = Inr u \<longrightarrow> removed_for_good a es))"
proof -
  have removal: "fenced plan (es0 @ es1 @ reobserved a # es2 @ RemovedPath (oc_path (ap_candidate a)) x # es3)"
    if "removes_nothing es1" "rechecked a es2" "removes_nothing es3" for es1 es2 es3 x
    using fenced_quiet [OF fenced_removal [OF assms that(1,2)] that(3), of x] by simp
  have quiet: "fenced plan (es0 @ es)" if "removes_nothing es" for es
    using fenced_quiet assms(1) that by blast
  show ?thesis
    unfolding remove_candidate_def Let_def
    by (intro emits_bind [OF emits_recheck] emits_bind [OF emits_observe] emits_guard_bind emits_demand_bind emits_guard)
      (auto simp: removed_for_good_def reobserved_def [symmetric] rechecked_quiet intro!: removal intro: quiet)
qed

text \<open>An honest receipt: the paths of a prefix of the plan, each removed for good.\<close>

definition honest :: "approved_candidate list \<Rightarrow> string list \<Rightarrow> orphan_event list \<Rightarrow> bool" where
  "honest gone receipt es \<longleftrightarrow>
     receipt = List.map (\<lambda>a. oc_path (ap_candidate a)) gone \<and> (\<forall>a \<in> set gone. removed_for_good a es)"

lemma honest_append: "honest gone receipt es \<Longrightarrow> honest gone receipt (es @ es')"
  by (auto simp: honest_def removed_for_good_def)

lemma honest_snoc:
  "honest gone receipt es \<Longrightarrow> removed_for_good a es' \<Longrightarrow>
     honest (gone @ [a]) (receipt @ [oc_path (ap_candidate a)]) (es @ es')"
  by (auto simp: honest_def removed_for_good_def)

lemma emits_remove_all:
  assumes "fenced plan es0" and "set as \<subseteq> set plan" and "honest gone receipt es0"
  shows "emits (remove_all S receipt as) (\<lambda>r es. fenced plan (es0 @ es) \<and>
     (\<forall>d. r = Inr d \<longrightarrow> honest (gone @ as) d (es0 @ es)) \<and>
     (\<forall>d e. r = Inl (d, e) \<longrightarrow> (\<exists>k. honest (gone @ take k as) d (es0 @ es))))"
  using assms
proof (induction as arbitrary: receipt gone es0)
  case Nil
  then show ?case by (simp add: emits_return)
next
  case (Cons a as)
  have a: "a \<in> set plan" using Cons.prems(2) by simp
  have one: "emits (mapErrM (Pair receipt) (remove_candidate S a)) (\<lambda>r es. fenced plan (es0 @ es) \<and>
      (\<forall>u. r = Inr u \<longrightarrow> removed_for_good a es) \<and> (\<forall>x. r = Inl x \<longrightarrow> fst x = receipt))"
    by (rule emits_mapErr, rule emits_weaken [OF emits_remove [OF Cons.prems(1) a]]) (auto split: sum.splits)
  show ?case
    unfolding remove_all.simps
  proof (rule emits_bind [OF one], goal_cases)
    case (1 e es)
    then show ?case
      using honest_append [OF Cons.prems(3), of es] by (auto intro!: exI [of _ 0])
  next
    case (2 u es)
    have fenced: "fenced plan (es0 @ es)" and gone: "honest (gone @ [a]) (receipt @ [oc_path (ap_candidate a)]) (es0 @ es)"
      using 2 honest_snoc [OF Cons.prems(3)] by auto
    have "set as \<subseteq> set plan" using Cons.prems(2) by simp
    from Cons.IH [OF fenced this gone] show ?case
    proof (rule emits_weaken, goal_cases)
      case (1 r es')
      have "\<exists>k. honest (gone @ take k (a # as)) d (es0 @ es @ es')" if r: "r = Inl (d, e)" for d e
      proof -
        obtain k where "honest ((gone @ [a]) @ take k as) d ((es0 @ es) @ es')" using 1 r by auto
        then show ?thesis by (intro exI [of _ "Suc k"]) simp
      qed
      then show ?case using 1 by simp
    qed
  qed
qed

lemma emits_fences:
  "emits (eachM (fence S) plan) (\<lambda>r es. removes_nothing es \<and> (\<forall>u. r = Inr u \<longrightarrow> fenced plan es))"
proof -
  define I where "I = (\<lambda>pre es. removes_nothing es \<and>
     (\<forall>b \<in> set pre. reobserved b \<in> set es \<and> validate_recoverable (ap_candidate b) (ap_observation b) = Inr ()))"
  have "emits (eachM (fence S) plan) (\<lambda>r es. (\<forall>e. r = Inl e \<longrightarrow> removes_nothing es) \<and> (\<forall>v. r = Inr v \<longrightarrow> I plan es))"
  proof (rule emits_each)
    fix pre x suf es assume "I pre es"
    then show "emits (fence S x) (\<lambda>r es'. (\<forall>e. r = Inl e \<longrightarrow> removes_nothing (es @ es')) \<and>
        (\<forall>v. r = Inr v \<longrightarrow> I (pre @ [x]) (es @ es')))"
      by (intro emits_weaken [OF emits_fence]) (auto simp: I_def)
  qed (simp add: I_def)
  then show ?thesis
  proof (rule emits_weaken, goal_cases)
    case (1 r es)
    then show ?case by (cases r) (simp_all add: I_def fenced_def guarded_quiet)
  qed
qed

lemma emits_apply:
  "emits (apply_prune S plan) (\<lambda>r es. guarded plan es \<and>
     (\<forall>d. r = Inr d \<longrightarrow> honest plan d es) \<and>
     (\<forall>d e. r = Inl (d, e) \<longrightarrow> (\<exists>k. honest (take k plan) d es)))"
proof (cases "plan = []")
  case True
  then show ?thesis by (simp add: apply_prune_def emits_fail guarded_quiet honest_def)
next
  case False
  have fences: "emits (mapErrM (Pair ([]::string list)) (eachM (fence S) plan)) (\<lambda>r es. removes_nothing es \<and>
      (\<forall>u. r = Inr u \<longrightarrow> fenced plan es) \<and> (\<forall>x. r = Inl x \<longrightarrow> fst x = []))"
    by (rule emits_mapErr, rule emits_weaken [OF emits_fences]) (auto split: sum.splits)
  have "emits (bindM (mapErrM (Pair []) (eachM (fence S) plan)) (\<lambda>_. remove_all S [] plan)) (\<lambda>r es. guarded plan es \<and>
     (\<forall>d. r = Inr d \<longrightarrow> honest plan d es) \<and>
     (\<forall>d e. r = Inl (d, e) \<longrightarrow> (\<exists>k. honest (take k plan) d es)))"
  proof (rule emits_bind [OF fences], goal_cases)
    case (1 e es)
    then show ?case by (auto simp: guarded_quiet honest_def intro!: exI [of _ 0])
  next
    case (2 u es)
    have "honest [] [] es" by (simp add: honest_def)
    with 2 show ?case
      by (intro emits_weaken [OF emits_remove_all [OF _ subset_refl \<open>honest [] [] es\<close>]]) (auto simp: fenced_def)
  qed
  then show ?thesis using False by (simp add: apply_prune_def)
qed

end
