(* ===== verification/Repo_Snapshot.thy ===== *)
theory Repo_Snapshot
  imports Repo_Contract Go_Services
begin

text \<open>
  Recording and reproducing an assembled workbench (\<^verbatim>\<open>internal/snapshot/snapshot.go\<close>). Planning
  observes every destination; applying observes them all again before it acquires anything,
  acquires only what is absent, and observes everything once more at the end. The observer and
  the acquirer are capabilities.
\<close>

section \<open>Recording\<close>

record snapshot_input =
  si_identity :: string
  si_shape :: resource_shape
  si_github :: string
  si_path :: string
  si_commit :: string

definition snapshot_of :: "snapshot_input \<Rightarrow> snapshot_resource" where
  "snapshot_of r = \<lparr>sr_shape = si_shape r, sr_github = si_github r, sr_path = si_path r, sr_commit = si_commit r\<rparr>"

fun record_resources ::
    "(string \<times> snapshot_resource) list \<Rightarrow> snapshot_input list \<Rightarrow> repo_error + (string \<times> snapshot_resource) list" where
  "record_resources acc [] = Inr acc"
| "record_resources acc (r # rs) =
     (if map_of acc (si_identity r) \<noteq> None then Inl (Refused ''resource identity is duplicated'' [si_identity r])
      else record_resources (acc @ [(si_identity r, snapshot_of r)]) rs)"

definition record_snapshot :: "snapshot_input list \<Rightarrow> repo_error + (string \<times> snapshot_resource) list" where
  "record_snapshot rs =
     result_bind (record_resources [] rs) (\<lambda>snapshot.
       result_bind (validate_snapshot snapshot) (\<lambda>_. Inr snapshot))"

section \<open>Capabilities\<close>

record checkout_state =
  ck_exists :: bool
  ck_github :: string
  ck_identity :: string
  ck_commit :: string
  ck_clean :: bool

record acquisition =
  aq_identity :: string
  aq_shape :: resource_shape
  aq_github :: string
  aq_path :: string
  aq_commit :: string

datatype snapshot_event =
    SeenCheckout string "string + checkout_state"
  | CreatedCheckout acquisition "string + unit"

record 'w snapshot_services =
  ss_observe :: "string \<Rightarrow> 'w \<Rightarrow> (string + checkout_state) \<times> 'w"
  ss_create :: "acquisition \<Rightarrow> 'w \<Rightarrow> (string + unit) \<times> 'w"

type_synonym ('w, 'a) snapshot_comp = "(('w, snapshot_event) traced, repo_error, 'a) comp"

definition see_checkout :: "'w snapshot_services \<Rightarrow> string \<Rightarrow> ('w, checkout_state) snapshot_comp" where
  "see_checkout S path =
     demand (ss_observe S path) (SeenCheckout path) (\<lambda>m. Refused ''observe snapshot checkout'' [path, m])"

definition checkout_conflict :: "acquisition \<Rightarrow> string \<Rightarrow> repo_error" where
  "checkout_conflict a reason = ConflictError ''checkout'' (aq_path a) reason []"

definition validate_exact :: "acquisition \<Rightarrow> checkout_state \<Rightarrow> repo_error + unit" where
  "validate_exact a c =
     (if \<not> ck_exists c then Inl (checkout_conflict a ''required checkout is absent'')
      else case normalize_github_repository (ck_github c) of
          Inl _ \<Rightarrow> Inl (checkout_conflict a ''origin is not an exact GitHub repository'')
        | Inr github \<Rightarrow>
            if github \<noteq> aq_github a then Inl (checkout_conflict a ''origin differs'')
            else (case shape_identity (aq_shape a) github of
                Inl _ \<Rightarrow> Inl (checkout_conflict a ''cannot derive identity from origin and snapshot shape'')
              | Inr identity \<Rightarrow>
                  if identity \<noteq> aq_identity a \<or> ck_identity c \<noteq> identity
                  then Inl (checkout_conflict a ''identity differs'')
                  else if ck_commit c \<noteq> aq_commit a
                  then Inl (checkout_conflict a ''commit differs; existing checkout will not be reset'')
                  else if \<not> ck_clean c then Inl (checkout_conflict a ''checkout has Git-owned changes'')
                  else Inr ()))"

section \<open>Planning\<close>

record destination =
  de_acquisition :: acquisition
  de_existed :: bool

definition plan_one :: "'w snapshot_services \<Rightarrow> string \<Rightarrow> snapshot_resource \<Rightarrow> ('w, destination) snapshot_comp" where
  "plan_one S identity r =
     bindM (liftM (normalize_github_repository (sr_github r))) (\<lambda>github.
     let action = \<lparr>aq_identity = identity, aq_shape = sr_shape r, aq_github = github,
           aq_path = sr_path r, aq_commit = sr_commit r\<rparr>
     in bindM (see_checkout S (sr_path r)) (\<lambda>checkout.
        if \<not> ck_exists checkout then returnM \<lparr>de_acquisition = action, de_existed = False\<rparr>
        else bindM (liftM (validate_exact action checkout))
               (\<lambda>_. returnM \<lparr>de_acquisition = action, de_existed = True\<rparr>)))"

fun plan_from ::
    "'w snapshot_services \<Rightarrow> (string \<times> snapshot_resource) list \<Rightarrow> destination list \<Rightarrow> string list \<Rightarrow>
     ('w, destination list) snapshot_comp" where
  "plan_from S resources acc [] = returnM acc"
| "plan_from S resources acc (i # ids) =
     (case map_of resources i of
        None \<Rightarrow> plan_from S resources acc ids
      | Some r \<Rightarrow> bindM (plan_one S i r) (\<lambda>d. plan_from S resources (acc @ [d]) ids))"

definition plan_snapshot ::
    "'w snapshot_services \<Rightarrow> (string \<times> snapshot_resource) list \<Rightarrow> ('w, destination list) snapshot_comp" where
  "plan_snapshot S resources =
     bindM (liftM (validate_snapshot resources)) (\<lambda>_.
       plan_from S resources [] (sort (remdups (List.map fst resources))))"

text \<open>The destinations that planning proved absent and exact.\<close>

definition reproduction_counts :: "destination list \<Rightarrow> nat \<times> nat" where
  "reproduction_counts ds = (length (filter (\<lambda>d. \<not> de_existed d) ds), length (filter de_existed ds))"

section \<open>Applying\<close>

definition snapshot_fence :: "'w snapshot_services \<Rightarrow> destination \<Rightarrow> ('w, unit) snapshot_comp" where
  "snapshot_fence S d =
     (let a = de_acquisition d
      in bindM (see_checkout S (aq_path a)) (\<lambda>checkout.
         if \<not> de_existed d then
           guardM (\<not> ck_exists checkout)
             (checkout_conflict a ''checkout appeared after planning; no acquisition was attempted'')
         else liftM (validate_exact a checkout)))"

definition acquire_one :: "'w snapshot_services \<Rightarrow> destination \<Rightarrow> ('w, unit) snapshot_comp" where
  "acquire_one S d =
     (let a = de_acquisition d
      in if de_existed d then returnM ()
         else bindM (demand (ss_create S a) (CreatedCheckout a)
                (\<lambda>m. Refused ''acquire snapshot resource'' [aq_identity a, aq_path a, m])) (\<lambda>_.
              bindM (see_checkout S (aq_path a)) (\<lambda>checkout. liftM (validate_exact a checkout))))"

definition verify_one :: "'w snapshot_services \<Rightarrow> destination \<Rightarrow> ('w, unit) snapshot_comp" where
  "verify_one S d =
     bindM (see_checkout S (aq_path (de_acquisition d)))
       (\<lambda>checkout. liftM (validate_exact (de_acquisition d) checkout))"

definition apply_snapshot :: "'w snapshot_services \<Rightarrow> destination list \<Rightarrow> ('w, unit) snapshot_comp" where
  "apply_snapshot S ds =
     bindM (eachM (snapshot_fence S) ds) (\<lambda>_.
     bindM (eachM (acquire_one S) ds) (\<lambda>_.
       eachM (verify_one S) ds))"

section \<open>Lemmas\<close>

text \<open>A checkout that is exactly what a resource of the snapshot asks for.\<close>

lemma validate_exact_Inr:
  "validate_exact a c = Inr () \<longleftrightarrow>
     ck_exists c \<and> normalize_github_repository (ck_github c) = Inr (aq_github a) \<and>
     shape_identity (aq_shape a) (aq_github a) = Inr (aq_identity a) \<and> ck_identity c = aq_identity a \<and>
     ck_commit c = aq_commit a \<and> ck_clean c"
  by (auto simp: validate_exact_def split: sum.splits)

definition creates_nothing :: "snapshot_event list \<Rightarrow> bool" where
  "creates_nothing es \<longleftrightarrow> (\<forall>a r. CreatedCheckout a r \<notin> set es)"

lemma creates_nothing_simps [simp]:
  "creates_nothing []"
  "creates_nothing (e # es) \<longleftrightarrow> (\<forall>a r. e \<noteq> CreatedCheckout a r) \<and> creates_nothing es"
  "creates_nothing (es @ es') \<longleftrightarrow> creates_nothing es \<and> creates_nothing es'"
  by (auto simp: creates_nothing_def)

lemma emits_see:
  "emits (see_checkout S p) (\<lambda>r es. \<exists>x. es = [SeenCheckout p x] \<and> (\<forall>c. r = Inr c \<longrightarrow> x = Inr c))"
  unfolding see_checkout_def by (rule emits_demand) simp_all

text \<open>The fence saw the destination as it was planned.\<close>

definition as_planned :: "destination \<Rightarrow> snapshot_event list \<Rightarrow> bool" where
  "as_planned d es \<longleftrightarrow>
     (\<exists>c. SeenCheckout (aq_path (de_acquisition d)) (Inr c) \<in> set es \<and>
        (if de_existed d then validate_exact (de_acquisition d) c = Inr () else \<not> ck_exists c))"

lemma as_planned_append: "as_planned d es \<Longrightarrow> as_planned d (es @ es')" "as_planned d es' \<Longrightarrow> as_planned d (es @ es')"
  by (auto simp: as_planned_def)

lemma emits_snapshot_fence:
  "emits (snapshot_fence S d) (\<lambda>r es. creates_nothing es \<and> (\<forall>u. r = Inr u \<longrightarrow> as_planned d es))"
  unfolding snapshot_fence_def Let_def
  by (intro emits_bind [OF emits_see]) (auto simp: as_planned_def intro!: emits_guard emits_lift split: if_splits)

lemma emits_snapshot_fences:
  "emits (eachM (snapshot_fence S) ds) (\<lambda>r es. creates_nothing es \<and> (\<forall>u. r = Inr u \<longrightarrow> (\<forall>d \<in> set ds. as_planned d es)))"
proof -
  have "emits (eachM (snapshot_fence S) ds) (\<lambda>r es. (\<forall>e. r = Inl e \<longrightarrow> creates_nothing es) \<and>
      (\<forall>v. r = Inr v \<longrightarrow> creates_nothing es \<and> (\<forall>d \<in> set ds. as_planned d es)))"
  proof (rule emits_each [where I = "\<lambda>pre es. creates_nothing es \<and> (\<forall>d \<in> set pre. as_planned d es)"])
    fix pre x suf es assume "creates_nothing es \<and> (\<forall>d \<in> set pre. as_planned d es)"
    then show "emits (snapshot_fence S x) (\<lambda>r es'. (\<forall>e. r = Inl e \<longrightarrow> creates_nothing (es @ es')) \<and>
        (\<forall>v. r = Inr v \<longrightarrow> creates_nothing (es @ es') \<and> (\<forall>d \<in> set (pre @ [x]). as_planned d (es @ es'))))"
      by (intro emits_weaken [OF emits_snapshot_fence]) (auto intro: as_planned_append)
  qed simp
  then show ?thesis
  proof (rule emits_weaken, goal_cases)
    case (1 r es)
    then show ?case by (cases r) simp_all
  qed
qed

text \<open>Every acquisition is of a planned absent destination and comes after the whole fence.\<close>

definition creates_lawfully :: "destination list \<Rightarrow> snapshot_event list \<Rightarrow> bool" where
  "creates_lawfully ds es \<longleftrightarrow>
     (\<forall>pre a r suf. es = pre @ CreatedCheckout a r # suf \<longrightarrow>
        (\<exists>d \<in> set ds. de_acquisition d = a \<and> \<not> de_existed d) \<and> (\<forall>d \<in> set ds. as_planned d pre))"

lemma lawful_append:
  assumes "creates_lawfully ds es" and "\<forall>d \<in> set ds. as_planned d es"
    and "\<And>a r. CreatedCheckout a r \<in> set es' \<Longrightarrow> \<exists>d \<in> set ds. de_acquisition d = a \<and> \<not> de_existed d"
  shows "creates_lawfully ds (es @ es')"
  unfolding creates_lawfully_def
proof (intro allI impI)
  fix pre a r suf assume split: "es @ es' = pre @ CreatedCheckout a r # suf"
  from append_middle [OF this]
  consider m where "es = pre @ CreatedCheckout a r # m"
    | us where "pre = es @ us" "es' = us @ CreatedCheckout a r # suf" by blast
  then show "(\<exists>d \<in> set ds. de_acquisition d = a \<and> \<not> de_existed d) \<and> (\<forall>d \<in> set ds. as_planned d pre)"
  proof cases
    case 1
    then show ?thesis using assms(1) unfolding creates_lawfully_def by blast
  next
    case 2
    then show ?thesis using assms(2,3) as_planned_append(1) by auto
  qed
qed

lemma emits_acquire:
  "emits (acquire_one S d) (\<lambda>r es. \<forall>a x. CreatedCheckout a x \<in> set es \<longrightarrow> de_acquisition d = a \<and> \<not> de_existed d)"
  unfolding acquire_one_def Let_def
  by (cases "de_existed d") (auto intro!: emits_return emits_demand_bind emits_bind [OF emits_see] emits_lift)

lemma emits_acquisitions:
  "emits (eachM (acquire_one S) ds)
     (\<lambda>r es. \<forall>a x. CreatedCheckout a x \<in> set es \<longrightarrow> (\<exists>d \<in> set ds. de_acquisition d = a \<and> \<not> de_existed d))"
proof -
  define Q where "Q = (\<lambda>es. \<forall>a x. CreatedCheckout a x \<in> set es \<longrightarrow> (\<exists>d \<in> set ds. de_acquisition d = a \<and> \<not> de_existed d))"
  have "emits (eachM (acquire_one S) ds) (\<lambda>r es. (\<forall>e. r = Inl e \<longrightarrow> Q es) \<and> (\<forall>v. r = Inr v \<longrightarrow> Q es))"
  proof (rule emits_each [where I = "\<lambda>pre es. Q es"])
    fix pre x suf es assume "ds = pre @ x # suf" and "Q es"
    then show "emits (acquire_one S x) (\<lambda>r es'. (\<forall>e. r = Inl e \<longrightarrow> Q (es @ es')) \<and> (\<forall>v. r = Inr v \<longrightarrow> Q (es @ es')))"
      by (intro emits_weaken [OF emits_acquire]) (fastforce simp: Q_def)
  qed (simp add: Q_def)
  then show ?thesis
  proof (rule emits_weaken, goal_cases)
    case (1 r es)
    then show ?case by (cases r) (simp_all add: Q_def)
  qed
qed

text \<open>The last look at every destination.\<close>

definition last_look :: "destination list \<Rightarrow> snapshot_event list \<Rightarrow> bool" where
  "last_look ds es \<longleftrightarrow>
     (\<exists>cs. list_all2 (\<lambda>d c. validate_exact (de_acquisition d) c = Inr ()) ds cs \<and>
        es = map2 (\<lambda>d c. SeenCheckout (aq_path (de_acquisition d)) (Inr c)) ds cs)"

lemma emits_verify:
  "emits (verify_one S d) (\<lambda>r es. creates_nothing es \<and> (\<forall>u. r = Inr u \<longrightarrow>
     (\<exists>c. es = [SeenCheckout (aq_path (de_acquisition d)) (Inr c)] \<and> validate_exact (de_acquisition d) c = Inr ())))"
  unfolding verify_one_def by (intro emits_bind [OF emits_see]) (auto intro!: emits_lift)

lemma last_look_snoc:
  assumes "last_look ds es" and "validate_exact (de_acquisition d) c = Inr ()"
  shows "last_look (ds @ [d]) (es @ [SeenCheckout (aq_path (de_acquisition d)) (Inr c)])"
proof -
  obtain cs where cs: "list_all2 (\<lambda>d c. validate_exact (de_acquisition d) c = Inr ()) ds cs"
      "es = map2 (\<lambda>d c. SeenCheckout (aq_path (de_acquisition d)) (Inr c)) ds cs"
    using assms(1) by (auto simp: last_look_def)
  have "length ds = length cs" using cs(1) by (rule list_all2_lengthD)
  then show ?thesis
    using cs assms(2) unfolding last_look_def by (intro exI [of _ "cs @ [c]"]) (simp add: list_all2_append)
qed

lemma emits_verifications:
  "emits (eachM (verify_one S) ds) (\<lambda>r es. creates_nothing es \<and> (\<forall>u. r = Inr u \<longrightarrow> last_look ds es))"
proof -
  have "emits (eachM (verify_one S) ds) (\<lambda>r es. (\<forall>e. r = Inl e \<longrightarrow> creates_nothing es) \<and>
      (\<forall>v. r = Inr v \<longrightarrow> creates_nothing es \<and> last_look ds es))"
  proof (rule emits_each [where I = "\<lambda>pre es. creates_nothing es \<and> last_look pre es"])
    fix pre x suf es assume "creates_nothing es \<and> last_look pre es"
    then show "emits (verify_one S x) (\<lambda>r es'. (\<forall>e. r = Inl e \<longrightarrow> creates_nothing (es @ es')) \<and>
        (\<forall>v. r = Inr v \<longrightarrow> creates_nothing (es @ es') \<and> last_look (pre @ [x]) (es @ es')))"
      by (intro emits_weaken [OF emits_verify]) (auto intro: last_look_snoc)
  qed (simp add: last_look_def)
  then show ?thesis
  proof (rule emits_weaken, goal_cases)
    case (1 r es)
    then show ?case by (cases r) simp_all
  qed
qed

lemma quiet_lawful: "creates_nothing es \<Longrightarrow> creates_lawfully ds es"
  by (auto simp: creates_lawfully_def)

lemma emits_apply_snapshot:
  "emits (apply_snapshot S ds) (\<lambda>r es. creates_lawfully ds es \<and>
     (\<forall>u. r = Inr u \<longrightarrow> (\<exists>pre look. es = pre @ look \<and> last_look ds look)))"
  unfolding apply_snapshot_def
proof (rule emits_bind [OF emits_snapshot_fences], goal_cases)
  case (1 e es)
  then show ?case by (simp add: quiet_lawful)
next
  case (2 u es)
  then have seen: "\<forall>d \<in> set ds. as_planned d es" and quiet: "creates_lawfully ds es" by (simp_all add: quiet_lawful)
  show ?case
  proof (rule emits_bind [OF emits_acquisitions], goal_cases)
    case (1 e es')
    then show ?case by (auto intro!: lawful_append [OF quiet seen])
  next
    case (2 v es')
    show ?case
    proof (rule emits_weaken [OF emits_verifications], goal_cases)
      case (1 r look)
      have "creates_lawfully ds (es @ es' @ look)"
        using 1 2 by (intro lawful_append [OF quiet seen]) (auto simp: creates_nothing_def)
      moreover have "\<exists>pre look'. es @ es' @ look = pre @ look' \<and> last_look ds look'" if "r = Inr u" for u
        using 1 that by (intro exI [of _ "es @ es'"] exI [of _ look]) simp
      ultimately show ?case by blast
    qed
  qed
qed

section \<open>The plan covers the snapshot\<close>

definition planned_for :: "(string \<times> snapshot_resource) list \<Rightarrow> string \<Rightarrow> destination \<Rightarrow> bool" where
  "planned_for resources i d \<longleftrightarrow>
     (\<exists>r. map_of resources i = Some r \<and> aq_identity (de_acquisition d) = i \<and>
        normalize_github_repository (sr_github r) = Inr (aq_github (de_acquisition d)) \<and>
        aq_shape (de_acquisition d) = sr_shape r \<and> aq_path (de_acquisition d) = sr_path r \<and>
        aq_commit (de_acquisition d) = sr_commit r)"

lemma emits_plan_one:
  "map_of resources i = Some r \<Longrightarrow>
     emits (plan_one S i r) (\<lambda>v es. creates_nothing es \<and> (\<forall>d. v = Inr d \<longrightarrow> planned_for resources i d))"
  unfolding plan_one_def Let_def
  by (intro emits_lift_bind emits_bind [OF emits_see])
    (auto simp: planned_for_def intro!: emits_return emits_lift_bind)

lemma emits_plan_from:
  "set ids \<subseteq> dom (map_of resources) \<Longrightarrow>
     emits (plan_from S resources acc ids) (\<lambda>r es. creates_nothing es \<and>
       (\<forall>ds. r = Inr ds \<longrightarrow> (\<exists>new. ds = acc @ new \<and> list_all2 (planned_for resources) ids new)))"
proof (induction ids arbitrary: acc)
  case Nil
  then show ?case by (simp add: emits_return)
next
  case (Cons i ids)
  then obtain r where r: "map_of resources i = Some r" by auto
  have "emits (bindM (plan_one S i r) (\<lambda>d. plan_from S resources (acc @ [d]) ids)) (\<lambda>r es. creates_nothing es \<and>
       (\<forall>ds. r = Inr ds \<longrightarrow> (\<exists>new. ds = acc @ new \<and> list_all2 (planned_for resources) (i # ids) new)))"
  proof (rule emits_bind [OF emits_plan_one [OF r]], goal_cases)
    case (2 d es)
    then show ?case using Cons.prems by (intro emits_weaken [OF Cons.IH [of "acc @ [d]"]]) auto
  qed simp
  then show ?case using r by simp
qed

lemma emits_plan_snapshot:
  "emits (plan_snapshot S resources) (\<lambda>r es. creates_nothing es \<and>
     (\<forall>ds. r = Inr ds \<longrightarrow> list_all2 (planned_for resources) (sort (remdups (List.map fst resources))) ds))"
  unfolding plan_snapshot_def
  by (intro emits_lift_bind emits_weaken [OF emits_plan_from [where acc = "[]"]])
    (auto simp: dom_map_of_conv_image_fst)

end
