(* ===== verification/Repo_Reconcile.thy ===== *)
theory Repo_Reconcile
  imports Repo_Contract Go_Services
begin

text \<open>
  Bringing checkouts onto their Subject branches (\<^verbatim>\<open>internal/gitreconcile/gitreconcile.go\<close>):
  observing every checkout and its remote, planning the Git effects, observing again, and
  applying the plan. Git, \<^verbatim>\<open>os.Stat\<close> and \<^verbatim>\<open>os.MkdirAll\<close> are capabilities; the log records every
  git command with its directory, arguments and answer.
\<close>

section \<open>Checkouts, observations, operations\<close>

record git_checkout =
  gc_path :: string
  gc_remote :: string
  gc_branch :: string
  gc_base :: string
  gc_expected :: string

record author_config =
  au_name :: string
  au_email :: string

record git_observation =
  go_checkout :: git_checkout
  go_exists :: bool
  go_current_branch :: string
  go_current_commit :: string
  go_current_status :: string
  go_dirty :: bool
  go_local_branch :: bool
  go_local_commit :: string
  go_remote_branch :: bool
  go_remote_commit :: string
  go_remote_base :: bool
  go_base_commit :: string
  go_commit :: string
  go_author :: author_config

datatype operation_kind =
    OpClone | OpFetchBranch | OpFetchBase | OpCheckoutLocal | OpCheckoutRemote | OpCreateFromBase

record git_operation =
  gp_kind :: operation_kind
  gp_checkout :: git_checkout
  gp_from_remote :: bool
  gp_commit :: string
  gp_author :: author_config

record change_set =
  ch_observations :: "git_observation list"
  ch_operations :: "git_operation list"

definition prepared :: "change_set \<Rightarrow> (git_checkout \<times> string) list" where
  "prepared cs = List.map (\<lambda>v. (go_checkout v, go_commit v)) (ch_observations cs)"

section \<open>Capabilities\<close>

datatype git_failure = GitExit int string | GitStart string

datatype stat_answer = Missing | StatFailed string | IsDirectory | NotDirectory

datatype git_event =
    RanGit string "string list" "git_failure + string"
  | LookedAt string stat_answer
  | MadeDirectory string "string + unit"

datatype reconcile_error =
    GitFailed string git_failure
  | ReconcileRefused string "string list"

record 'w git_services =
  gs_git :: "string \<Rightarrow> string list \<Rightarrow> 'w \<Rightarrow> (git_failure + string) \<times> 'w"
  gs_stat :: "string \<Rightarrow> 'w \<Rightarrow> stat_answer \<times> 'w"
  gs_mkdir :: "string \<Rightarrow> 'w \<Rightarrow> (string + unit) \<times> 'w"
  gs_working :: string

type_synonym ('w, 'a) git_comp = "(('w, git_event) traced, reconcile_error, 'a) comp"

definition run_git :: "'w git_services \<Rightarrow> string \<Rightarrow> string list \<Rightarrow> ('w, git_failure + string) git_comp" where
  "run_git S dir args = ask (gs_git S dir args) (RanGit dir args)"

definition git_output :: "'w git_services \<Rightarrow> string \<Rightarrow> string \<Rightarrow> string list \<Rightarrow> ('w, string) git_comp" where
  "git_output S what dir args =
     bindM (run_git S dir args) (\<lambda>r. case r of Inl f \<Rightarrow> failM (GitFailed what f) | Inr out \<Rightarrow> returnM out)"

section \<open>The desired checkouts\<close>

definition is_full_object_id :: "string \<Rightarrow> bool" where
  "is_full_object_id s \<longleftrightarrow> (length s = 40 \<or> length s = 64) \<and> list_all lower_hex s"

definition check_branch_name :: "'w git_services \<Rightarrow> string \<Rightarrow> ('w, unit) git_comp" where
  "check_branch_name S branch =
     (if blank branch then failM (ReconcileRefused ''branch is empty'' [])
      else bindM (git_output S ''check-ref-format'' [] [''check-ref-format'', ''--branch'', branch]) (\<lambda>_. returnM ()))"

fun validate_desired ::
    "'w git_services \<Rightarrow> string list \<Rightarrow> git_checkout list \<Rightarrow> git_checkout list \<Rightarrow> ('w, git_checkout list) git_comp" where
  "validate_desired S paths acc [] = returnM acc"
| "validate_desired S paths acc (c # cs) =
     bindM (guardM (\<not> blank (gc_path c)) (ReconcileRefused ''path is empty'' [])) (\<lambda>_.
     bindM (guardM (\<not> blank (gc_remote c)) (ReconcileRefused ''remote URL is empty'' [gc_path c])) (\<lambda>_.
     let c' = c\<lparr>gc_path := clean_path (abs_path (gs_working S) (gc_path c))\<rparr>
     in bindM (guardM (gc_path c' \<notin> set paths) (ReconcileRefused ''duplicate canonical path'' [gc_path c'])) (\<lambda>_.
        bindM (check_branch_name S (gc_branch c)) (\<lambda>_.
        bindM (check_branch_name S (gc_base c)) (\<lambda>_.
        bindM (guardM (\<not> (gc_expected c \<noteq> [] \<and> \<not> is_full_object_id (gc_expected c)))
           (ReconcileRefused ''expected commit is not a full object ID'' [gc_path c', gc_expected c])) (\<lambda>_.
          validate_desired S (gc_path c' # paths) (acc @ [c']) cs))))))"

section \<open>Observing\<close>

definition ref_line :: "git_checkout \<Rightarrow> string \<times> string \<Rightarrow> string \<Rightarrow> string \<times> string" where
  "ref_line c found line =
     (case words_of line of
        [commit, ref] \<Rightarrow>
          if ref = ''refs/heads/'' @ gc_branch c then (commit, snd found)
          else if ref = ''refs/heads/'' @ gc_base c then (fst found, commit)
          else found
      | _ \<Rightarrow> found)"

definition remote_refs :: "git_checkout \<Rightarrow> string \<Rightarrow> string \<times> string" where
  "remote_refs c output = foldl (ref_line c) ([], []) (split_on CHR 0x0A (trim_space output))"

definition observe_remote :: "'w git_services \<Rightarrow> git_checkout \<Rightarrow> ('w, string \<times> string) git_comp" where
  "observe_remote S c =
     bindM (git_output S ''inspect remote'' []
        [''ls-remote'', ''--heads'', gc_remote c, ''refs/heads/'' @ gc_branch c, ''refs/heads/'' @ gc_base c])
       (\<lambda>output. returnM (remote_refs c output))"

text \<open>
  The nearest existing directory. A clean absolute path has fewer proper ancestors than
  bytes, so the bound is never reached (\<open>nearest_directory_total\<close> below).
\<close>

fun nearest_directory :: "'w git_services \<Rightarrow> nat \<Rightarrow> string \<Rightarrow> ('w, string) git_comp" where
  "nearest_directory S 0 path = failM (ReconcileRefused ''unreachable'' [])"
| "nearest_directory S (Suc n) path =
     bindM (ask (gs_stat S path) (LookedAt path)) (\<lambda>a.
       case a of
         IsDirectory \<Rightarrow> returnM path
       | NotDirectory \<Rightarrow> failM (ReconcileRefused ''enclosing path is not a directory'' [path])
       | StatFailed m \<Rightarrow> failM (ReconcileRefused ''inspect enclosing path'' [path, m])
       | Missing \<Rightarrow>
           if dir_path path = path then failM (ReconcileRefused ''no existing directory encloses checkout path'' [])
           else nearest_directory S n (dir_path path))"

definition local_config :: "'w git_services \<Rightarrow> string \<Rightarrow> string \<Rightarrow> ('w, string) git_comp" where
  "local_config S dir key =
     bindM (run_git S dir [''config'', ''--local'', ''--get'', key]) (\<lambda>r.
       case r of
         Inr value \<Rightarrow> returnM (trim_space value)
       | Inl (GitExit code output) \<Rightarrow> if code = 1 then returnM [] else failM (GitFailed key (GitExit code output))
       | Inl f \<Rightarrow> failM (GitFailed key f))"

definition no_author :: author_config where
  "no_author = \<lparr>au_name = [], au_email = []\<rparr>"

definition observe_author :: "'w git_services \<Rightarrow> string \<Rightarrow> ('w, author_config) git_comp" where
  "observe_author S path =
     bindM (nearest_directory S (Suc (length (dir_path path))) (dir_path path)) (\<lambda>dir.
     bindM (run_git S dir [''rev-parse'', ''--git-dir'']) (\<lambda>r.
       let read = bindM (local_config S dir ''user.name'') (\<lambda>name.
                  bindM (local_config S dir ''user.email'') (\<lambda>email.
                    returnM \<lparr>au_name = name, au_email = email\<rparr>))
       in case r of
            Inr _ \<Rightarrow> read
          | Inl (GitExit code output) \<Rightarrow>
              if code = 128 then returnM no_author else failM (GitFailed ''rev-parse'' (GitExit code output))
          | Inl f \<Rightarrow> failM (GitFailed ''rev-parse'' f)))"

definition local_commit :: "'w git_services \<Rightarrow> string \<Rightarrow> string \<Rightarrow> ('w, string) git_comp" where
  "local_commit S dir branch =
     bindM (git_output S ''inspect local Subject branch'' dir
        [''for-each-ref'', ''--format=%(objectname)'', ''refs/heads/'' @ branch]) (\<lambda>output.
       let commit = trim_space output
       in if commit = [] then returnM []
          else bindM (guardM (CHR 0x0A \<notin> set commit)
                  (ReconcileRefused ''local branch resolved more than once'' [branch])) (\<lambda>_. returnM commit))"

definition check_expected :: "git_observation \<Rightarrow> ('w, git_observation) git_comp" where
  "check_expected v =
     bindM (guardM (\<not> (gc_expected (go_checkout v) \<noteq> [] \<and> go_commit v \<noteq> gc_expected (go_checkout v)))
        (ReconcileRefused ''selected commit is not the previously validated commit''
           [go_commit v, gc_expected (go_checkout v)])) (\<lambda>_. returnM v)"

definition selected_commit :: "git_observation \<Rightarrow> string" where
  "selected_commit v =
     (if \<not> go_exists v then (if go_remote_branch v then go_remote_commit v else go_base_commit v)
      else if go_current_branch v = gc_branch (go_checkout v) then go_current_commit v
      else if go_local_branch v then go_local_commit v
      else if go_remote_branch v then go_remote_commit v
      else go_base_commit v)"

definition blank_observation :: "git_checkout \<Rightarrow> string \<Rightarrow> string \<Rightarrow> git_observation" where
  "blank_observation c remote base =
     \<lparr>go_checkout = c, go_exists = False, go_current_branch = [], go_current_commit = [], go_current_status = [],
      go_dirty = False, go_local_branch = False, go_local_commit = [],
      go_remote_branch = (remote \<noteq> []), go_remote_commit = remote, go_remote_base = (base \<noteq> []),
      go_base_commit = base, go_commit = [], go_author = no_author\<rparr>"

definition observe_missing :: "'w git_services \<Rightarrow> git_observation \<Rightarrow> ('w, git_observation) git_comp" where
  "observe_missing S v =
     bindM (observe_author S (gc_path (go_checkout v))) (\<lambda>author.
       let v' = v\<lparr>go_author := author\<rparr> in check_expected (v'\<lparr>go_commit := selected_commit v'\<rparr>))"

definition observe_worktree :: "'w git_services \<Rightarrow> git_observation \<Rightarrow> ('w, git_observation) git_comp" where
  "observe_worktree S v =
     (let c = go_checkout v; dir = gc_path c
      in bindM (git_output S ''identify Git worktree'' dir [''rev-parse'', ''--show-toplevel'']) (\<lambda>top.
         let root = clean_path (abs_path (gs_working S) (trim_space top))
         in bindM (guardM (root = dir)
               (ReconcileRefused ''target is inside Git worktree rather than its canonical root'' [root])) (\<lambda>_.
         bindM (git_output S ''read origin remote'' dir [''config'', ''--get'', ''remote.origin.url'']) (\<lambda>origin.
         bindM (guardM (trim_space origin = gc_remote c)
               (ReconcileRefused ''origin remote is not the canonical remote'' [trim_space origin, gc_remote c])) (\<lambda>_.
         bindM (git_output S ''read current branch'' dir [''symbolic-ref'', ''--quiet'', ''--short'', ''HEAD'']) (\<lambda>branch.
         bindM (git_output S ''read current commit'' dir [''rev-parse'', ''HEAD'']) (\<lambda>head.
         bindM (git_output S ''read worktree status'' dir
               [''status'', ''--porcelain=v1'', ''--untracked-files=all'', ''-z'']) (\<lambda>status.
         bindM (local_commit S dir (gc_branch c)) (\<lambda>local.
           let v' = v\<lparr>go_exists := True, go_current_branch := trim_space branch, go_current_commit := trim_space head,
                 go_current_status := status, go_dirty := (status \<noteq> []), go_local_commit := local,
                 go_local_branch := (local \<noteq> [])\<rparr>
           in check_expected (v'\<lparr>go_commit := selected_commit v'\<rparr>))))))))))"

definition observe_git :: "'w git_services \<Rightarrow> git_checkout \<Rightarrow> ('w, git_observation) git_comp" where
  "observe_git S c =
     bindM (observe_remote S c) (\<lambda>(remote, base).
     bindM (ask (gs_stat S (gc_path c)) (LookedAt (gc_path c))) (\<lambda>a.
       case a of
         Missing \<Rightarrow> observe_missing S (blank_observation c remote base)
       | StatFailed m \<Rightarrow> failM (ReconcileRefused ''stat target'' [gc_path c, m])
       | NotDirectory \<Rightarrow> failM (ReconcileRefused ''target exists and is not a directory'' [gc_path c])
       | IsDirectory \<Rightarrow> observe_worktree S (blank_observation c remote base)))"

fun observe_each :: "'w git_services \<Rightarrow> git_observation list \<Rightarrow> git_checkout list \<Rightarrow> ('w, git_observation list) git_comp" where
  "observe_each S acc [] = returnM acc"
| "observe_each S acc (c # cs) = bindM (observe_git S c) (\<lambda>v. observe_each S (acc @ [v]) cs)"

definition observe_all :: "'w git_services \<Rightarrow> git_checkout list \<Rightarrow> ('w, git_observation list) git_comp" where
  "observe_all S desired =
     bindM (validate_desired S [] [] desired) (\<lambda>checkouts. observe_each S [] checkouts)"

section \<open>Planning\<close>

definition operation_for :: "operation_kind \<Rightarrow> git_checkout \<Rightarrow> string \<Rightarrow> git_operation" where
  "operation_for k c commit =
     \<lparr>gp_kind = k, gp_checkout = c, gp_from_remote = False, gp_commit = commit, gp_author = no_author\<rparr>"

definition no_branch :: "git_checkout \<Rightarrow> reconcile_error" where
  "no_branch c = ReconcileRefused ''neither subject branch nor base branch exists''
     [gc_path c, gc_branch c, gc_base c, gc_remote c]"

definition plan_observation :: "git_observation \<Rightarrow> reconcile_error + git_operation list" where
  "plan_observation v =
     (let c = go_checkout v
      in if \<not> go_exists v then
           (if \<not> go_remote_branch v \<and> \<not> go_remote_base v then Inl (no_branch c)
            else Inr [(operation_for OpClone c (go_commit v))
                  \<lparr>gp_from_remote := go_remote_branch v, gp_author := go_author v\<rparr>])
         else if go_dirty v \<and> go_current_branch v \<noteq> gc_branch c
         then Inl (ReconcileRefused ''dirty checkout is not on its Subject branch'' [gc_path c, go_current_branch v, gc_branch c])
         else
           let fetch = (if go_remote_branch v then [operation_for OpFetchBranch c (go_remote_commit v)] else [])
           in if go_current_branch v = gc_branch c then Inr fetch
              else if go_local_branch v then Inr (fetch @ [operation_for OpCheckoutLocal c []])
              else if go_remote_branch v then Inr (fetch @ [operation_for OpCheckoutRemote c (go_commit v)])
              else if go_remote_base v
              then Inr [operation_for OpFetchBase c (go_base_commit v), operation_for OpCreateFromBase c (go_commit v)]
              else Inl (no_branch c))"

definition plan_changes :: "git_observation list \<Rightarrow> reconcile_error + change_set" where
  "plan_changes vs =
     result_bind (result_list plan_observation vs) (\<lambda>ops. Inr \<lparr>ch_observations = vs, ch_operations = concat ops\<rparr>)"

section \<open>Applying\<close>

definition clone_arguments :: "git_checkout \<Rightarrow> author_config \<Rightarrow> string list" where
  "clone_arguments c a =
     [''clone'', ''--no-checkout'', ''--origin'', ''origin''] @
     (if au_name a \<noteq> [] then [''--config'', ''user.name='' @ au_name a] else []) @
     (if au_email a \<noteq> [] then [''--config'', ''user.email='' @ au_email a] else []) @
     [''--'', gc_remote c, gc_path c]"

definition fetch_arguments :: "string \<Rightarrow> string \<Rightarrow> string list" where
  "fetch_arguments commit branch =
     [''fetch'', ''--no-tags'', ''origin'', ''+'' @ commit @ '':refs/remotes/origin/'' @ branch]"

definition track_arguments :: "git_checkout \<Rightarrow> string list" where
  "track_arguments c = [''checkout'', ''-b'', gc_branch c, ''--track'', ''origin/'' @ gc_branch c]"

definition create_arguments :: "git_checkout \<Rightarrow> string list" where
  "create_arguments c = [''checkout'', ''-b'', gc_branch c, ''origin/'' @ gc_base c]"

definition clone_checkout_arguments :: "git_checkout \<Rightarrow> bool \<Rightarrow> string list" where
  "clone_checkout_arguments c from_remote = (if from_remote then track_arguments c else create_arguments c)"

definition apply_clone :: "'w git_services \<Rightarrow> git_operation \<Rightarrow> ('w, unit) git_comp" where
  "apply_clone S p =
     (let c = gp_checkout p; dir = gc_path c
      in bindM (demand (gs_mkdir S (dir_path dir)) (MadeDirectory (dir_path dir))
            (\<lambda>m. ReconcileRefused ''create checkout parent'' [dir, m])) (\<lambda>_.
         bindM (git_output S ''clone'' [] (clone_arguments c (gp_author p))) (\<lambda>_.
         bindM (git_output S ''record canonical origin'' dir [''config'', ''remote.origin.url'', gc_remote c]) (\<lambda>_.
         bindM (git_output S ''fetch prepared commit'' dir
            (fetch_arguments (gp_commit p) (if gp_from_remote p then gc_branch c else gc_base c))) (\<lambda>_.
         bindM (git_output S ''place cloned checkout'' dir (clone_checkout_arguments c (gp_from_remote p)))
            (\<lambda>_. returnM ()))))))"

text \<open>The single command of an operation that is not a clone.\<close>

definition operation_arguments :: "git_operation \<Rightarrow> string list" where
  "operation_arguments p =
     (let c = gp_checkout p
      in case gp_kind p of
           OpFetchBranch \<Rightarrow> fetch_arguments (gp_commit p) (gc_branch c)
         | OpFetchBase \<Rightarrow> fetch_arguments (gp_commit p) (gc_base c)
         | OpCheckoutLocal \<Rightarrow> [''checkout'', gc_branch c]
         | OpCheckoutRemote \<Rightarrow> track_arguments c
         | OpCreateFromBase \<Rightarrow> create_arguments c
         | OpClone \<Rightarrow> clone_arguments c (gp_author p))"

definition apply_operation :: "'w git_services \<Rightarrow> git_operation \<Rightarrow> ('w, unit) git_comp" where
  "apply_operation S p =
     (if gp_kind p = OpClone then apply_clone S p
      else bindM (git_output S ''reconcile checkout'' (gc_path (gp_checkout p)) (operation_arguments p)) (\<lambda>_. returnM ()))"

definition reobserve :: "'w git_services \<Rightarrow> git_observation \<Rightarrow> ('w, unit) git_comp" where
  "reobserve S expected =
     bindM (observe_git S (go_checkout expected)) (\<lambda>actual.
       guardM (actual = expected)
         (ReconcileRefused ''checkout or its remote changed after reconciliation was prepared''
            [gc_path (go_checkout expected)]))"

definition apply_changes :: "'w git_services \<Rightarrow> change_set \<Rightarrow> ('w, unit) git_comp" where
  "apply_changes S cs =
     bindM (guardM (\<not> (ch_observations cs = [] \<and> ch_operations cs \<noteq> []))
        (ReconcileRefused ''apply unprepared Git changes'' [])) (\<lambda>_.
     bindM (eachM (reobserve S) (ch_observations cs)) (\<lambda>_.
       eachM (apply_operation S) (ch_operations cs)))"

definition prepare_changes :: "'w git_services \<Rightarrow> git_checkout list \<Rightarrow> ('w, change_set) git_comp" where
  "prepare_changes S desired =
     bindM (observe_all S desired) (\<lambda>vs. liftM (plan_changes vs))"

definition reconcile :: "'w git_services \<Rightarrow> git_checkout list \<Rightarrow> ('w, unit) git_comp" where
  "reconcile S desired =
     bindM (prepare_changes S desired) (\<lambda>cs. apply_changes S cs)"

end
