(* ===== verification/Reconcile_Facts.thy ===== *)
theory Reconcile_Facts
  imports Repo_Reconcile
begin

text \<open>
  Reconciliation is safe: it looks before it acts, and it acts only through a closed set of
  git commands. \<open>looks_only\<close> says of a log that it holds questions only, \<open>lawful\<close> that a
  command is one of those a planned operation may run.
\<close>

section \<open>Commands\<close>

definition asks_only :: "string list \<Rightarrow> bool" where
  "asks_only args \<longleftrightarrow>
     (case args of
        [] \<Rightarrow> False
      | cmd # rest \<Rightarrow>
          cmd \<in> {''check-ref-format'', ''ls-remote'', ''rev-parse'', ''symbolic-ref'', ''status'', ''for-each-ref''} \<or>
          cmd = ''config'' \<and> take 1 rest = [''--get''] \<or> cmd = ''config'' \<and> take 2 rest = [''--local'', ''--get''])"

definition looks_only :: "git_event list \<Rightarrow> bool" where
  "looks_only es \<longleftrightarrow> (\<forall>e \<in> set es. case e of RanGit _ args _ \<Rightarrow> asks_only args | LookedAt _ _ \<Rightarrow> True | MadeDirectory _ _ \<Rightarrow> False)"

lemma looks_only_simps [simp]:
  "looks_only []"
  "looks_only (RanGit d args x # es) \<longleftrightarrow> asks_only args \<and> looks_only es"
  "looks_only (LookedAt p a # es) \<longleftrightarrow> looks_only es"
  "looks_only (MadeDirectory p y # es) \<longleftrightarrow> False"
  "looks_only (es @ es') \<longleftrightarrow> looks_only es \<and> looks_only es'"
  by (auto simp: looks_only_def)

text \<open>What an operation on a checkout may run: no merge, rebase, reset, push or deletion.\<close>

definition lawful :: "git_checkout \<Rightarrow> string list \<Rightarrow> bool" where
  "lawful c args \<longleftrightarrow>
     (\<exists>a. args = clone_arguments c a) \<or> args = [''config'', ''remote.origin.url'', gc_remote c] \<or>
     (\<exists>commit. args = fetch_arguments commit (gc_branch c) \<or> args = fetch_arguments commit (gc_base c)) \<or>
     args = [''checkout'', gc_branch c] \<or> args = track_arguments c \<or> args = create_arguments c"

lemma lawful_command: "lawful c args \<Longrightarrow> hd args \<in> {''clone'', ''config'', ''fetch'', ''checkout''}"
  by (auto simp: lawful_def clone_arguments_def fetch_arguments_def track_arguments_def create_arguments_def)

section \<open>Observing only looks\<close>

lemma emits_git_output:
  "emits (git_output S what dir args) (\<lambda>r es. \<exists>x. es = [RanGit dir args x] \<and> (\<forall>out. r = Inr out \<longrightarrow> x = Inr out))"
  unfolding git_output_def run_git_def
  by (rule emits_ask_bind) (auto intro: emits_fail emits_return split: sum.splits)

lemma emits_git_question: "asks_only args \<Longrightarrow> emits (git_output S what dir args) (\<lambda>r. looks_only)"
  by (rule emits_weaken [OF emits_git_output]) auto

lemma looks_bind:
  "emits m (\<lambda>r. looks_only) \<Longrightarrow> (\<And>x. emits (f x) (\<lambda>r. looks_only)) \<Longrightarrow> emits (bindM m f) (\<lambda>r. looks_only)"
  by (rule emits_bind [where Q = "\<lambda>r. looks_only"]) (auto intro: emits_weaken)

lemma looks_ask: "(\<And>x. looks_only [ev x]) \<Longrightarrow> emits (ask g ev) (\<lambda>r. looks_only)"
  by (rule emits_ask)

lemma looks_basic:
  "emits (returnM x) (\<lambda>r. looks_only)" "emits (failM e) (\<lambda>r. looks_only)"
  "emits (guardM ok e) (\<lambda>r. looks_only)" "emits (liftM v) (\<lambda>r. looks_only)"
  by (auto intro: emits_return emits_fail emits_guard emits_lift)

lemma looks_if:
  "(b \<Longrightarrow> emits m (\<lambda>r. looks_only)) \<Longrightarrow> (\<not> b \<Longrightarrow> emits n (\<lambda>r. looks_only)) \<Longrightarrow>
     emits (if b then m else n) (\<lambda>r. looks_only)"
  by simp

lemmas looking = looks_bind looks_ask looks_basic looks_if emits_git_question

lemma looks_check_branch: "emits (check_branch_name S b) (\<lambda>r. looks_only)"
  unfolding check_branch_name_def by (intro looking) (simp add: asks_only_def)

lemma looks_validate: "emits (validate_desired S paths acc cs) (\<lambda>r. looks_only)"
proof (induction S paths acc cs rule: validate_desired.induct)
  case (2 S paths acc c cs)
  show ?case
    unfolding validate_desired.simps Let_def by (intro looking looks_check_branch 2 refl)
qed (simp add: looks_basic)

lemma looks_nearest: "emits (nearest_directory S n p) (\<lambda>r. looks_only)"
  by (induction n arbitrary: p) (auto intro!: looking split: stat_answer.splits)

lemma looks_local_config: "emits (local_config S dir key) (\<lambda>r. looks_only)"
  unfolding local_config_def run_git_def
  by (intro looking) (auto intro!: looking simp: asks_only_def split: sum.splits git_failure.splits)

lemma looks_author: "emits (observe_author S path) (\<lambda>r. looks_only)"
  unfolding observe_author_def run_git_def Let_def
  by (intro looks_bind looks_nearest)
    (auto intro!: looking looks_local_config simp: asks_only_def split: sum.splits git_failure.splits)

lemma looks_local_commit: "emits (local_commit S dir b) (\<lambda>r. looks_only)"
  unfolding local_commit_def Let_def by (intro looking) (simp_all add: asks_only_def)

lemma looks_check_expected: "emits (check_expected v) (\<lambda>r. looks_only)"
  unfolding check_expected_def by (intro looking)

lemma looks_worktree: "emits (observe_worktree S v) (\<lambda>r. looks_only)"
  unfolding observe_worktree_def Let_def
  by (intro looking looks_local_commit looks_check_expected) (simp_all add: asks_only_def)

lemma looks_observe: "emits (observe_git S c) (\<lambda>r. looks_only)"
proof -
  have "emits (observe_remote S c) (\<lambda>r. looks_only)"
    unfolding observe_remote_def by (intro looking) (simp add: asks_only_def)
  then show ?thesis
    unfolding observe_git_def
    by (intro looks_bind) (auto intro!: looking looks_author looks_check_expected looks_worktree
        simp: observe_missing_def Let_def split: stat_answer.splits prod.splits)
qed

lemma looks_observe_each: "emits (observe_each S acc cs) (\<lambda>r. looks_only)"
  by (induction S acc cs rule: observe_each.induct) (auto intro!: looking looks_observe)

lemma looks_prepare: "emits (prepare_changes S desired) (\<lambda>r. looks_only)"
  unfolding prepare_changes_def observe_all_def by (intro looking looks_validate looks_observe_each)

lemma looks_reobserve: "emits (reobserve S v) (\<lambda>r. looks_only)"
  unfolding reobserve_def by (intro looking looks_observe)

lemma looks_each: "(\<And>x. emits (f x) (\<lambda>r. looks_only)) \<Longrightarrow> emits (eachM f xs) (\<lambda>r. looks_only)"
  by (induction xs) (auto intro!: looking)

section \<open>Operations run lawful commands\<close>

definition acts_for :: "git_operation list \<Rightarrow> git_event list \<Rightarrow> bool" where
  "acts_for ops es \<longleftrightarrow> (\<forall>dir args x. RanGit dir args x \<in> set es \<longrightarrow> (\<exists>p \<in> set ops. lawful (gp_checkout p) args))"

lemma acts_for_simps [simp]:
  "acts_for ops []"
  "acts_for ops (RanGit dir args x # es) \<longleftrightarrow> (\<exists>p \<in> set ops. lawful (gp_checkout p) args) \<and> acts_for ops es"
  "acts_for ops (MadeDirectory d y # es) \<longleftrightarrow> acts_for ops es"
  "acts_for ops (es @ es') \<longleftrightarrow> acts_for ops es \<and> acts_for ops es'"
  unfolding acts_for_def by (auto, blast+)

lemma lawful_operation: "lawful (gp_checkout p) (operation_arguments p)"
  by (cases "gp_kind p") (auto simp: operation_arguments_def lawful_def Let_def)

lemma emits_operation: "p \<in> set ops \<Longrightarrow> emits (apply_operation S p) (\<lambda>r. acts_for ops)"
proof -
  assume p: "p \<in> set ops"
  have laws: "lawful (gp_checkout p) (clone_arguments (gp_checkout p) a)"
    "lawful (gp_checkout p) [''config'', ''remote.origin.url'', gc_remote (gp_checkout p)]"
    "lawful (gp_checkout p) (fetch_arguments commit (gc_branch (gp_checkout p)))"
    "lawful (gp_checkout p) (fetch_arguments commit (gc_base (gp_checkout p)))"
    "lawful (gp_checkout p) (clone_checkout_arguments (gp_checkout p) b)" for a commit b
    by (auto simp: lawful_def clone_checkout_arguments_def)
  show ?thesis
  proof (cases "gp_kind p = OpClone")
    case True
    then show ?thesis
      unfolding apply_operation_def apply_clone_def Let_def
      by (auto intro!: emits_demand_bind emits_bind [OF emits_git_output] emits_return bexI [OF _ p] laws)
  next
    case False
    then show ?thesis
      unfolding apply_operation_def
      by (auto intro!: emits_bind [OF emits_git_output] emits_return bexI [OF _ p] lawful_operation)
  qed
qed

lemma emits_operations: "set ps \<subseteq> set ops \<Longrightarrow> emits (eachM (apply_operation S) ps) (\<lambda>r. acts_for ops)"
proof (induction ps)
  case (Cons p ps)
  then show ?case
    unfolding eachM.simps
    by (intro emits_bind [OF emits_operation]) (auto intro: emits_weaken)
qed (simp add: emits_return)

section \<open>The plan\<close>

definition moves_worktree :: "git_operation \<Rightarrow> bool" where
  "moves_worktree p \<longleftrightarrow> gp_kind p \<in> {OpCheckoutLocal, OpCheckoutRemote, OpCreateFromBase}"

definition planned_safely :: "git_observation \<Rightarrow> git_operation \<Rightarrow> bool" where
  "planned_safely v p \<longleftrightarrow>
     gp_checkout p = go_checkout v \<and>
     (gp_kind p = OpClone \<longrightarrow> \<not> go_exists v \<and> gp_commit p = go_commit v) \<and>
     (gp_kind p \<noteq> OpClone \<longrightarrow> go_exists v) \<and>
     (moves_worktree p \<longrightarrow> \<not> go_dirty v \<and> go_current_branch v \<noteq> gc_branch (go_checkout v)) \<and>
     (gp_kind p \<in> {OpCheckoutRemote, OpCreateFromBase} \<longrightarrow> \<not> go_local_branch v \<and> gp_commit p = go_commit v) \<and>
     (gp_kind p = OpFetchBranch \<longrightarrow> gp_commit p = go_remote_commit v) \<and>
     (gp_kind p = OpFetchBase \<longrightarrow> gp_commit p = go_base_commit v)"

lemma plan_observation_safe: "plan_observation v = Inr ps \<Longrightarrow> p \<in> set ps \<Longrightarrow> planned_safely v p"
  by (auto simp: plan_observation_def planned_safely_def operation_for_def moves_worktree_def Let_def split: if_splits)

lemma plan_observation_safe_start:
  "plan_observation v = Inr ps \<Longrightarrow> go_exists v \<Longrightarrow> go_dirty v \<Longrightarrow> go_current_branch v = gc_branch (go_checkout v)"
  by (auto simp: plan_observation_def Let_def split: if_splits)

lemma plan_changes_Inr:
  "plan_changes vs = Inr cs \<longleftrightarrow>
     (\<exists>ops. result_list plan_observation vs = Inr ops \<and> cs = \<lparr>ch_observations = vs, ch_operations = concat ops\<rparr>)"
  by (auto simp: plan_changes_def)

lemma list_all2_in:
  "list_all2 P xs ys \<Longrightarrow> y \<in> set ys \<Longrightarrow> \<exists>x \<in> set xs. P x y"
  "list_all2 P xs ys \<Longrightarrow> x \<in> set xs \<Longrightarrow> \<exists>y \<in> set ys. P x y"
  by (induction rule: list_all2_induct) auto

lemma plan_changes_safe:
  assumes "plan_changes vs = Inr cs"
  shows "ch_observations cs = vs"
    and "\<And>p. p \<in> set (ch_operations cs) \<Longrightarrow> \<exists>v \<in> set vs. planned_safely v p"
    and "\<And>v. v \<in> set vs \<Longrightarrow> go_exists v \<Longrightarrow> go_dirty v \<Longrightarrow> go_current_branch v = gc_branch (go_checkout v)"
proof -
  obtain ops where ops: "result_list plan_observation vs = Inr ops" "cs = \<lparr>ch_observations = vs, ch_operations = concat ops\<rparr>"
    using assms by (auto simp: plan_changes_Inr)
  show "ch_observations cs = vs" using ops(2) by simp
  have each: "list_all2 (\<lambda>v ps. plan_observation v = Inr ps) vs ops" using ops(1) by (simp add: result_list_Inr)
  show "\<exists>v \<in> set vs. planned_safely v p" if "p \<in> set (ch_operations cs)" for p
  proof -
    obtain ps where "ps \<in> set ops" "p \<in> set ps" using \<open>p \<in> set (ch_operations cs)\<close> ops(2) by auto
    then obtain v where "v \<in> set vs" "plan_observation v = Inr ps"
      using list_all2_in(1) [OF each] by blast
    then show ?thesis using plan_observation_safe \<open>p \<in> set ps\<close> by blast
  qed
  show "go_current_branch v = gc_branch (go_checkout v)" if "v \<in> set vs" "go_exists v" "go_dirty v" for v
    using list_all2_in(2) [OF each that(1)] plan_observation_safe_start that(2,3) by blast
qed

section \<open>Applying looks first\<close>

lemma apply_changes_phases:
  assumes "apply_changes S cs s = (r, s')"
  shows "(\<exists>es. tw_log s' = tw_log s @ es \<and> looks_only es) \<or>
     (\<exists>s1 es1 es2. eachM (reobserve S) (ch_observations cs) s = (Inr (), s1) \<and>
        tw_log s1 = tw_log s @ es1 \<and> looks_only es1 \<and> tw_log s' = tw_log s1 @ es2 \<and> acts_for (ch_operations cs) es2)"
proof -
  obtain r1 s1 where fence: "eachM (reobserve S) (ch_observations cs) s = (r1, s1)"
    by (cases "eachM (reobserve S) (ch_observations cs) s")
  obtain es1 where es1: "tw_log s1 = tw_log s @ es1" "looks_only es1"
    using emitsD [OF looks_each [OF looks_reobserve] fence] by blast
  show ?thesis
  proof (cases "ch_observations cs = [] \<and> ch_operations cs \<noteq> []")
    case True
    then have "s' = s" using assms by (simp add: apply_changes_def guardM_def bindM_def failM_def)
    then show ?thesis by (intro disjI1 exI [of _ "[]"]) simp
  next
    case False
    then have run: "bindM (eachM (reobserve S) (ch_observations cs)) (\<lambda>_. eachM (apply_operation S) (ch_operations cs)) s = (r, s')"
      using assms by (simp add: apply_changes_def guardM_def)
    show ?thesis
    proof (cases r1)
      case (Inl e)
      then show ?thesis using run fence es1 by (auto simp: bindM_def)
    next
      case (Inr u)
      then have "eachM (apply_operation S) (ch_operations cs) s1 = (r, s')" using run fence by (simp add: bindM_def)
      from emitsD [OF emits_operations [OF subset_refl] this] show ?thesis using fence Inr es1 by auto
    qed
  qed
qed

text \<open>A fence that passed observed every checkout again just as it was planned for.\<close>

lemma fence_reobserved:
  "eachM (reobserve S) vs s = (Inr (), s') \<Longrightarrow> v \<in> set vs \<Longrightarrow>
     \<exists>t t'. observe_git S (go_checkout v) t = (Inr v, t')"
  by (induction vs arbitrary: s) (auto simp: bindM_result reobserve_def)

definition returns :: "('a \<Rightarrow> bool) \<Rightarrow> ('s, 'e, 'a) comp \<Rightarrow> bool" where
  "returns P m \<longleftrightarrow> (\<forall>s x s'. m s = (Inr x, s') \<longrightarrow> P x)"

lemma returns_rules:
  "(\<And>x. returns P (f x)) \<Longrightarrow> returns P (bindM k f)"
  "returns P (failM e)"
  "(b \<Longrightarrow> returns P m) \<Longrightarrow> (\<not> b \<Longrightarrow> returns P n) \<Longrightarrow> returns P (if b then m else n)"
  by (auto simp: returns_def bindM_result)

definition settled :: "git_checkout \<Rightarrow> git_observation \<Rightarrow> bool" where
  "settled c v \<longleftrightarrow>
     go_checkout v = c \<and> (gc_expected c \<noteq> [] \<longrightarrow> go_commit v = gc_expected c) \<and> go_commit v = selected_commit v"

lemma returns_settled:
  "go_checkout w = c \<Longrightarrow> returns (settled c) (check_expected (w\<lparr>go_commit := selected_commit w\<rparr>))"
  by (auto simp: returns_def check_expected_def bindM_result settled_def selected_commit_def)

lemma returns_observe: "returns (settled c) (observe_git S c)"
proof -
  have "returns (settled c) (observe_missing S w)" if "go_checkout w = c" for w
    unfolding observe_missing_def Let_def by (intro returns_rules(1) returns_settled) (simp add: that)
  moreover have "returns (settled c) (observe_worktree S w)" if "go_checkout w = c" for w
    unfolding observe_worktree_def Let_def by (intro returns_rules(1) returns_settled) (simp add: that)
  ultimately show ?thesis
    unfolding observe_git_def
    by (intro returns_rules(1)) (auto intro!: returns_rules simp: blank_observation_def split: prod.splits stat_answer.splits)
qed

lemma observed_expected: "observe_git S c s = (Inr v, s') \<Longrightarrow> settled c v"
  using returns_observe unfolding returns_def by blast

section \<open>The search for an enclosing directory\<close>

definition rooted_path :: "string list \<Rightarrow> string" where
  "rooted_path ss = sep # join [sep] ss"

lemma clean_segments_trailing: "clean_segments True ([] # us @ [[]]) = clean_segments True us"
  by (simp add: clean_segments_def clean_segment_def)

lemma clean_trailing:
  assumes "segments_ok True us" and "us \<noteq> []"
  shows "clean_path (rooted_path us @ [sep]) = rooted_path us"
proof -
  have nosep: "\<forall>s \<in> set (us @ [[]]). sep \<notin> set s" using assms(1) by (auto simp: segments_ok_def)
  have "rooted_path us @ [sep] = sep # join [sep] (us @ [[]])" using assms(2) by (simp add: rooted_path_def join_snoc)
  moreover have "split_on sep (sep # join [sep] (us @ [[]])) = [] # us @ [[]]"
    using split_on_join [OF _ nosep] by simp
  ultimately show ?thesis
    using clean_segments_fixed [OF assms(1)]
    by (simp add: clean_path_def is_abs_def has_prefix_iff clean_segments_trailing rooted_path_def)
qed

lemma up_to_sep_snoc: "sep \<notin> set s \<Longrightarrow> up_to_sep (p @ sep # s) = p @ [sep]"
proof -
  assume "sep \<notin> set s"
  then have "dropWhile (\<lambda>c. c \<noteq> sep) (rev s @ sep # rev p) = sep # rev p" by (subst dropWhile_append2) auto
  then show ?thesis by (simp add: up_to_sep_def)
qed

lemma dir_of_rooted:
  assumes "segments_ok True ss"
  shows "dir_path (rooted_path ss) = rooted_path (butlast ss)"
proof (cases ss rule: rev_cases)
  case Nil
  have "dir_path [sep] = [sep]" by code_simp
  then show ?thesis using Nil by (simp add: rooted_path_def)
next
  case (snoc us s)
  have s: "sep \<notin> set s" using assms snoc by (simp add: segments_ok_def)
  have us: "segments_ok True us" using segments_ok_prefix assms snoc by blast
  show ?thesis
  proof (cases "us = []")
    case True
    have "up_to_sep (rooted_path ss) = [sep]" using up_to_sep_snoc [OF s, of "[]"] snoc True by (simp add: rooted_path_def)
    moreover have "clean_path [sep] = [sep]" by code_simp
    ultimately show ?thesis using snoc True by (simp add: dir_path_def rooted_path_def)
  next
    case False
    have "rooted_path ss = rooted_path us @ sep # s" using snoc False by (simp add: rooted_path_def join_snoc)
    then show ?thesis using up_to_sep_snoc [OF s] clean_trailing [OF us False] snoc by (simp add: dir_path_def)
  qed
qed

lemma nearest_rooted:
  "segments_ok True ss \<Longrightarrow> length ss < n \<Longrightarrow>
     avoids (\<lambda>e. e = ReconcileRefused ''unreachable'' []) (nearest_directory S n (rooted_path ss))"
proof (induction n arbitrary: ss)
  case (Suc n)
  have ask: "avoids P (ask g ev)" for P :: "reconcile_error \<Rightarrow> bool" and g :: "'a \<Rightarrow> stat_answer \<times> 'a" and ev :: "stat_answer \<Rightarrow> git_event"
    by (auto simp: avoids_def ask_def split: prod.splits)
  show ?case
  proof (cases "ss = []")
    case True
    then have "dir_path (rooted_path ss) = rooted_path ss" using dir_of_rooted [OF Suc.prems(1)] by simp
    then show ?thesis by (auto intro!: avoiding ask split: stat_answer.splits)
  next
    case False
    have short: "length (butlast ss) < n" using Suc.prems(2) False by (cases ss) simp_all
    have "segments_ok True (butlast ss)"
      using Suc.prems(1) False segments_ok_prefix [of True "butlast ss" "[last ss]"] by simp
    then have "avoids (\<lambda>e. e = ReconcileRefused ''unreachable'' []) (nearest_directory S n (rooted_path (butlast ss)))"
      using short by (rule Suc.IH)
    then show ?thesis
      using dir_of_rooted [OF Suc.prems(1)] by (auto intro!: avoiding ask split: stat_answer.splits)
  qed
qed simp

lemma clean_rooted: "is_abs p \<Longrightarrow> \<exists>ss. segments_ok True ss \<and> clean_path p = rooted_path ss"
  using clean_segments_ok [of "split_on sep p" True] split_on_no_sep [of _ sep p]
  by (auto simp: clean_path_def rooted_path_def Let_def)

lemma length_rooted: "segments_ok True ss \<Longrightarrow> length ss \<le> length (rooted_path ss)"
proof -
  assume "segments_ok True ss"
  then have "\<forall>s \<in> set ss. s \<noteq> []" by (simp add: segments_ok_def)
  then have "length ss \<le> length (join [sep] ss)"
  proof (induction ss)
    case (Cons s ss)
    then show ?case by (cases ss) (auto simp: Suc_le_eq)
  qed simp
  then show ?thesis by (simp add: rooted_path_def)
qed

text \<open>The bound on the search is never reached for the absolute paths that validation yields.\<close>

lemma nearest_directory_total:
  assumes "is_abs p"
  shows "avoids (\<lambda>e. e = ReconcileRefused ''unreachable'' [])
    (nearest_directory S (Suc (length (dir_path p))) (dir_path p))"
proof -
  obtain q where p: "p = sep # q" using assms by (auto simp: is_abs_def has_prefix_iff)
  have "is_abs (up_to_sep p)"
  proof (cases "sep \<in> set q")
    case False
    then show ?thesis using up_to_sep_snoc [of q "[]"] p by (simp add: is_abs_def has_prefix_iff)
  next
    case True
    then obtain u v where q: "q = u @ sep # v" "sep \<notin> set v" by (metis split_list_last)
    then show ?thesis using up_to_sep_snoc [of v "sep # u"] p by (simp add: is_abs_def has_prefix_iff)
  qed
  then obtain ss where "segments_ok True ss" "dir_path p = rooted_path ss"
    using clean_rooted unfolding dir_path_def by blast
  then show ?thesis using nearest_rooted [OF _ le_imp_less_Suc [OF length_rooted]] by metis
qed

end
