(* ===== verification/Repo_Demo.thy ===== *)
theory Repo_Demo
  imports Orphan_Facts Repo_Snapshot Reconcile_Facts
begin

text \<open>
  Small worlds on which removal, snapshots and reconciliation are run: one orphan beneath
  \<^verbatim>\<open>/r\<close>, a snapshot of one repository that is absent at first, and a clean checkout that has to
  move to a branch of its remote. The lemmas evaluate the operations on them.
\<close>

definition demo_commit_id :: string where
  "demo_commit_id = replicate 40 CHR ''c''"

definition repository_shape :: resource_shape where
  "repository_shape = \<lparr>rs_kind = ''repository'', rs_scope = []\<rparr>"

definition fresh :: "'w \<Rightarrow> ('w, 'v) traced" where
  "fresh w = \<lparr>tw_world = w, tw_log = []\<rparr>"

section \<open>An orphan\<close>

definition demo_orphan :: orphan_candidate where
  "demo_orphan = \<lparr>or_identity = ''o/a'', or_github = ''o/a'', or_shape = repository_shape,
     or_canonical = ''repos/a'', oc_path = ''/r/repos/a''\<rparr>"

definition demo_prune_request :: prune_request where
  "demo_prune_request = \<lparr>rq_root = ''/r'', rq_closure = [], rq_candidates = [demo_orphan]\<rparr>"

definition demo_recoverable :: checkout_observation where
  "demo_recoverable = \<lparr>ob_exists = True, ob_origin_count = 1, ob_origin_github = ''o/a'', ob_branch = ''t'',
     ob_head = demo_commit_id, ob_upstream_branch = ''origin/t'', ob_upstream_head = demo_commit_id,
     ob_remote_head = demo_commit_id, ob_status = [], ob_nested = False, ob_disposable = True\<rparr>"

text \<open>The world is the list of paths removed so far.\<close>

definition demo_files :: "string list orphan_services" where
  "demo_files = \<lparr>os_eval = (\<lambda>p w. (Inr p, w)), os_stat = (\<lambda>p w. (Inr True, w)),
     os_observe = (\<lambda>c w. (Inr (demo_recoverable\<lparr>ob_exists := oc_path c \<notin> set w\<rparr>), w)),
     os_remove = (\<lambda>p w. (Inr (), p # w)), os_working = ''/''\<rparr>"

definition demo_approved :: approved_candidate where
  "demo_approved = \<lparr>ap_candidate = demo_orphan, ap_observation = demo_recoverable, ap_root = ''/r'', ap_path = ''/r/repos/a''\<rparr>"

lemma demo_preflight: "fst (preflight demo_files demo_prune_request (fresh [])) = Inr [demo_approved]"
  by code_simp

lemma demo_prune:
  "fst (apply_prune demo_files [demo_approved] (fresh [])) = Inr [''/r/repos/a'']"
  "drop 14 (tw_log (snd (apply_prune demo_files [demo_approved] (fresh [])))) =
     [RemovedPath ''/r/repos/a'' (Inr ()),
      ObservedCheckout demo_orphan (Inr (demo_recoverable\<lparr>ob_exists := False\<rparr>))]"
  by code_simp+

section \<open>A snapshot\<close>

definition demo_resource :: snapshot_resource where
  "demo_resource = \<lparr>sr_shape = repository_shape, sr_github = ''o/a'', sr_path = ''repos/a'', sr_commit = demo_commit_id\<rparr>"

definition demo_acquisition :: acquisition where
  "demo_acquisition = \<lparr>aq_identity = ''o/a'', aq_shape = repository_shape, aq_github = ''o/a'', aq_path = ''repos/a'',
     aq_commit = demo_commit_id\<rparr>"

definition demo_destination :: destination where
  "demo_destination = \<lparr>de_acquisition = demo_acquisition, de_existed = False\<rparr>"

text \<open>The world is the list of paths acquired so far.\<close>

definition demo_hosting :: "string list snapshot_services" where
  "demo_hosting = \<lparr>
     ss_observe = (\<lambda>p w. (Inr \<lparr>ck_exists = p \<in> set w, ck_github = ''O/a'', ck_identity = ''o/a'',
        ck_commit = demo_commit_id, ck_clean = True\<rparr>, w)),
     ss_create = (\<lambda>a w. (Inr (), aq_path a # w))\<rparr>"

lemma demo_plan_snapshot: "fst (plan_snapshot demo_hosting [(''o/a'', demo_resource)] (fresh [])) = Inr [demo_destination]"
  by code_simp

lemma demo_apply_snapshot: "fst (apply_snapshot demo_hosting [demo_destination] (fresh [])) = Inr ()"
  by code_simp

section \<open>A checkout to reconcile\<close>

definition demo_checkout :: git_checkout where
  "demo_checkout = \<lparr>gc_path = ''/w/a'', gc_remote = ''R'', gc_branch = ''topic'', gc_base = ''main'', gc_expected = []\<rparr>"

definition demo_answer :: "string list \<Rightarrow> string" where
  "demo_answer args =
     (if take 1 args = [''ls-remote''] then demo_commit_id @ '' refs/heads/topic''
      else if args = [''rev-parse'', ''--show-toplevel''] then ''/w/a''
      else if take 2 args = [''config'', ''--get''] then ''R''
      else if take 1 args = [''symbolic-ref''] then ''main''
      else if args = [''rev-parse'', ''HEAD''] then demo_commit_id
      else [])"

definition demo_remote :: "unit git_services" where
  "demo_remote = \<lparr>gs_git = (\<lambda>dir args w. (Inr (demo_answer args), w)), gs_stat = (\<lambda>p w. (IsDirectory, w)),
     gs_mkdir = (\<lambda>p w. (Inr (), w)), gs_working = ''/w''\<rparr>"

definition demo_observation :: git_observation where
  "demo_observation = (blank_observation demo_checkout demo_commit_id [])\<lparr>go_exists := True,
     go_current_branch := ''main'', go_current_commit := demo_commit_id, go_commit := demo_commit_id\<rparr>"

definition demo_operations :: "git_operation list" where
  "demo_operations = [operation_for OpFetchBranch demo_checkout demo_commit_id,
     operation_for OpCheckoutRemote demo_checkout demo_commit_id]"

lemma demo_plan_changes:
  "plan_changes [demo_observation] = Inr \<lparr>ch_observations = [demo_observation], ch_operations = demo_operations\<rparr>"
  by code_simp

text \<open>One observation in any log, then the parts of a reconciliation.\<close>

definition demo_asked :: "git_event list" where
  "demo_asked =
     [RanGit [] [''ls-remote'', ''--heads'', ''R'', ''refs/heads/topic'', ''refs/heads/main''] (Inr (demo_commit_id @ '' refs/heads/topic'')),
      LookedAt ''/w/a'' IsDirectory,
      RanGit ''/w/a'' [''rev-parse'', ''--show-toplevel''] (Inr ''/w/a''),
      RanGit ''/w/a'' [''config'', ''--get'', ''remote.origin.url''] (Inr ''R''),
      RanGit ''/w/a'' [''symbolic-ref'', ''--quiet'', ''--short'', ''HEAD''] (Inr ''main''),
      RanGit ''/w/a'' [''rev-parse'', ''HEAD''] (Inr demo_commit_id),
      RanGit ''/w/a'' [''status'', ''--porcelain=v1'', ''--untracked-files=all'', ''-z''] (Inr []),
      RanGit ''/w/a'' [''for-each-ref'', ''--format=%(objectname)'', ''refs/heads/topic''] (Inr [])]"

lemma demo_texts:
  "trim_space ''/w/a'' = ''/w/a''" "trim_space ''R'' = ''R''" "trim_space ''main'' = ''main''"
  "trim_space [] = []" "trim_space demo_commit_id = demo_commit_id"
  "clean_path (abs_path ''/w'' ''/w/a'') = ''/w/a''"
  "remote_refs demo_checkout (demo_commit_id @ '' refs/heads/topic'') = (demo_commit_id, [])"
  "blank ''/w/a'' = False" "blank ''R'' = False" "blank ''topic'' = False" "blank ''main'' = False"
  "demo_commit_id \<noteq> []"
  by code_simp+

lemmas git_ops = running ask_def demand_def run_git_def git_output_def

lemma demo_checkout_parts:
  "gc_path demo_checkout = ''/w/a''" "gc_remote demo_checkout = ''R''" "gc_branch demo_checkout = ''topic''"
  "gc_base demo_checkout = ''main''" "gc_expected demo_checkout = []"
  "demo_checkout\<lparr>gc_path := ''/w/a''\<rparr> = demo_checkout"
  by (simp_all add: demo_checkout_def)

lemmas demo_remote_ops = git_ops demo_remote_def demo_answer_def demo_texts demo_checkout_parts Let_def

lemma demo_observe:
  "observe_git demo_remote demo_checkout s = (Inr demo_observation, s\<lparr>tw_log := tw_log s @ demo_asked\<rparr>)"
  by (simp add: demo_remote_ops observe_git_def observe_remote_def observe_worktree_def local_commit_def check_expected_def
      demo_asked_def blank_observation_def selected_commit_def demo_observation_def cong: run_cong)

lemma demo_desired:
  "\<exists>es. length es = 2 \<and>
     observe_all demo_remote [demo_checkout] s = (Inr [demo_observation], s\<lparr>tw_log := tw_log s @ es @ demo_asked\<rparr>)"
  by (intro exI [of _ "[RanGit [] [''check-ref-format'', ''--branch'', ''topic''] (Inr []),
        RanGit [] [''check-ref-format'', ''--branch'', ''main''] (Inr [])]"])
    (simp add: git_ops demo_texts demo_checkout_parts Let_def observe_all_def check_branch_name_def demo_observe
       demo_remote_def [THEN arg_cong, of gs_git] demo_remote_def [THEN arg_cong, of gs_working] demo_answer_def cong: run_cong)

lemma demo_reconcile:
  "\<exists>pre suf. length pre = 18 \<and> reconcile demo_remote [demo_checkout] (fresh ()) =
     (Inr (), \<lparr>tw_world = (), tw_log = pre @ RanGit ''/w/a'' (fetch_arguments demo_commit_id ''topic'') (Inr []) # suf\<rparr>)"
proof -
  obtain es where es: "length es = 2" "observe_all demo_remote [demo_checkout] (fresh ()) =
      (Inr [demo_observation], (fresh ())\<lparr>tw_log := tw_log (fresh ()) @ es @ demo_asked\<rparr>)"
    using demo_desired by blast
  have same: "go_checkout demo_observation = demo_checkout"
    by (simp add: demo_observation_def blank_observation_def)
  show ?thesis
    by (intro exI [of _ "es @ demo_asked @ demo_asked"]
          exI [of _ "[RanGit ''/w/a'' (track_arguments demo_checkout) (Inr [])]"] conjI)
      (simp_all add: es(1) es(2) [unfolded fresh_def] reconcile_def prepare_changes_def apply_changes_def reobserve_def apply_operation_def git_ops
         demo_observe same demo_plan_changes demo_operations_def operation_for_def operation_arguments_def
         demo_checkout_parts liftM_def fresh_def demo_asked_def
         demo_remote_def [THEN arg_cong, of gs_git] demo_answer_def fetch_arguments_def track_arguments_def cong: run_cong)
qed

section \<open>A snapshot that names one place twice\<close>

text \<open>
  Two repositories of the same name by different owners are two resources, and validation
  accepts both at the one place their shape gives them.
\<close>

lemma snapshot_places_shared:
  "validate_snapshot
     [(''o/a'', \<lparr>sr_shape = repository_shape, sr_github = ''o/a'', sr_path = ''repos/a'', sr_commit = demo_commit_id\<rparr>),
      (''p/a'', \<lparr>sr_shape = repository_shape, sr_github = ''p/a'', sr_path = ''repos/a'', sr_commit = demo_commit_id\<rparr>)] = Inr ()"
  by code_simp

end
