(* ===== verification/Repo_Properties.thy ===== *)
theory Repo_Properties
  imports Build_Outputs Closure_Declared Repo_Demo
begin

text \<open>
  The properties of the repositories a workbench is assembled from: buildable manifests,
  closures, removal of orphans, snapshots and reconciliation.
\<close>

section \<open>Buildables\<close>









section \<open>Closures\<close>

text \<open>
  C24: a successful discovery finds exactly the repositories that the entrypoints reach through
  includes. The result is sorted by path; identities, designations and paths are distinct; and
  every include names a repository of the result by the scope that repository declares.
\<close>

theorem closure_is_least:
  assumes "discover subject src = Some (Inr rs)"
  shows "set (List.map cr_identity rs) = reachable_repositories src subject \<and> closure_sound src rs"
  using discover_Inr [OF assms] by blast

text \<open>
  Discovery ends whenever only finitely many repositories can be reached, both for
  package-scope repositories and for released declarations.
\<close>

theorem closure_search_ends:
  assumes "finite (reachable_repositories src subject)" and "finite (reachable_declarations released subject)"
  shows "(\<exists>r. discover subject src = Some r) \<and> (\<exists>r. discover_declarations subject released = Some r)"
  using discover_ends [OF assms(1)] discover_declarations_ends [OF assms(2)] by blast

text \<open>
  The same for released declarations: the GitHub names found are those reachable, no two
  resources share an identity, a name or a canonical path, and each is where its shape puts it.
\<close>

theorem declared_closure_is_least:
  assumes "discover_declarations subject src = Some (Inr rs)"
  shows "set (List.map dr_github rs) = reachable_declarations src subject \<and> declared_sound src rs"
  using discover_declarations_Inr [OF assms] by blast

definition demo_subject :: subject where
  "demo_subject = \<lparr>sj_work_line = \<lparr>wl_branch = ''topic'', wl_base = ''main''\<rparr>,
     sj_entrypoints = [''https://github.com/o/a'']\<rparr>"

definition demo_repository :: "string \<Rightarrow> (string \<times> string) list \<Rightarrow> package_repository" where
  "demo_repository scope incs = \<lparr>pr_scope = scope,
     pr_includes = List.map (\<lambda>(n, g). (n, \<lparr>ic_github = g, ic_skills = None\<rparr>)) incs, pr_packages = []\<rparr>"

definition demo_source :: closure_source where
  "demo_source = \<lparr>cl_load = (\<lambda>i.
       if i = ''o/a'' then Inr (demo_repository ''@a'' [(''@b'', ''O/B'')])
       else if i = ''o/b'' then Inr (demo_repository ''@b'' [(''@a'', ''o/a'')])
       else Inl ''unknown''),
     cl_identity_at = (\<lambda>_. Inr None)\<rparr>"

definition demo_declaration :: "string list \<Rightarrow> repo_declaration" where
  "demo_declaration incs = \<lparr>dc_shape = \<lparr>rs_kind = ''repository'', rs_scope = []\<rparr>,
     dc_includes = List.map (\<lambda>g. (g, None)) incs, dc_packages = [], dc_buildables = []\<rparr>"

definition demo_released :: declared_source where
  "demo_released = \<lparr>dl_load = (\<lambda>g.
       if g = ''o/a'' then Inr (demo_declaration [''O/B''])
       else if g = ''o/b'' then Inr (demo_declaration [''o/a''])
       else Inl ''unknown''),
     dl_identity_at = (\<lambda>_. Inr None)\<rparr>"

definition demo_found :: "closure_resource list" where
  "demo_found = [resource_of ''o/a'' (demo_repository ''@a'' [(''@b'', ''O/B'')]),
     resource_of ''o/b'' (demo_repository ''@b'' [(''@a'', ''o/a'')])]"

definition demo_declared :: "declared_resource list" where
  "demo_declared = [declared_entry ''o/a'' ''o/a'' ''repos/a'' (demo_declaration [''O/B'']),
     declared_entry ''o/b'' ''o/b'' ''repos/b'' (demo_declaration [''o/a''])]"

lemma demo_discover: "discover demo_subject demo_source = Some (Inr demo_found)"
  by code_simp

lemma demo_discover_released: "discover_declarations demo_subject demo_released = Some (Inr demo_declared)"
  by code_simp

theorem closure_is_least_witness:
  "reachable_repositories demo_source demo_subject = {''o/a'', ''o/b''} \<and> closure_sound demo_source demo_found"
  using closure_is_least [OF demo_discover] by (auto simp: demo_found_def resource_of_def)

theorem declared_closure_is_least_witness:
  "reachable_declarations demo_released demo_subject = {''o/a'', ''o/b''} \<and> declared_sound demo_released demo_declared"
  using declared_closure_is_least [OF demo_discover_released] by (auto simp: demo_declared_def declared_entry_def)

theorem closure_search_ends_witness:
  "(\<exists>r. discover demo_subject demo_source = Some r) \<and> (\<exists>r. discover_declarations demo_subject demo_released = Some r)"
proof (rule closure_search_ends)
  show "finite (reachable_repositories demo_source demo_subject)"
    using discover_Inr(1) [OF demo_discover] by (metis finite_set)
  show "finite (reachable_declarations demo_released demo_subject)"
    using discover_declarations_Inr(1) [OF demo_discover_released] by (metis finite_set)
qed

section \<open>Orphans\<close>

text \<open>
  C25: whatever is removed is a candidate of the request: an orphan at its canonical path
  beneath the root, clean, pushed and disposable when it was approved. Directly before the
  removal it was observed exactly as approved and its root and path resolved to themselves
  again; and before the first removal every candidate of the plan had been observed again.
\<close>

theorem prune_removals_are_guarded:
  assumes "preflight S q s = (Inr plan, s1)" and "apply_prune S plan s2 = (r, s3)"
    and "tw_log s3 = tw_log s2 @ pre @ RemovedPath p x # suf"
  shows "\<exists>a \<in> set plan. \<exists>c \<in> set (rq_candidates q).
    ap_candidate a = c \<and> p = oc_path c \<and> p = join_path [rq_root q, or_canonical c] \<and> within_root (rq_root q) p \<and>
    or_identity c \<notin> or_identity ` set (rq_closure q) \<and> validate_recoverable c (ap_observation a) = Inr () \<and>
    (\<exists>earlier recheck. pre = earlier @ reobserved a # recheck \<and> rechecked a recheck) \<and>
    (\<forall>b \<in> set plan. reobserved b \<in> set pre)"
proof -
  have sound: "sound_plan q plan" using emitsD [OF emits_preflight assms(1)] by blast
  have "guarded plan (pre @ RemovedPath p x # suf)" using emitsD_log [OF emits_apply assms(2,3)] by blast
  then have licensed: "licensed plan p pre" by (auto simp: guarded_def)
  then obtain a where a: "a \<in> set plan" "p = oc_path (ap_candidate a)"
      "\<exists>earlier recheck. pre = earlier @ reobserved a # recheck \<and> rechecked a recheck"
    unfolding licensed_def by blast
  from sound a(1) obtain c where c: "c \<in> set (rq_candidates q)" "approved_soundly q c a"
    using list_all2_in(1) [of "approved_soundly q" "rq_candidates q" plan a] by (auto simp: sound_plan_def)
  have facts: "ap_candidate a = c" "p = oc_path c" "p = join_path [rq_root q, or_canonical c]"
      "within_root (rq_root q) p" "validate_recoverable c (ap_observation a) = Inr ()"
    using c(2) a(2) by (auto simp: approved_soundly_def)
  have orphan: "or_identity c \<notin> or_identity ` set (rq_closure q)" using sound c(1) by (simp add: sound_plan_def)
  have seen: "\<forall>b \<in> set plan. reobserved b \<in> set pre" using licensed by (simp add: licensed_def)
  show ?thesis
    by (rule bexI [OF bexI [OF _ c(1)] a(1)]) (intro conjI facts orphan seen a(3))
qed

theorem prune_removals_are_guarded_witness:
  "\<exists>earlier recheck. take 14 (tw_log (snd (apply_prune demo_files [demo_approved] (fresh [])))) =
     earlier @ reobserved demo_approved # recheck \<and> rechecked demo_approved recheck"
proof -
  let ?run = "apply_prune demo_files [demo_approved] (fresh [])"
  obtain s1 where pre: "preflight demo_files demo_prune_request (fresh []) = (Inr [demo_approved], s1)"
    using demo_preflight by (metis prod.collapse)
  have run: "?run = (fst ?run, snd ?run)" by simp
  have "tw_log (snd ?run) = tw_log (fresh ([]::string list)) @ take 14 (tw_log (snd ?run)) @ RemovedPath ''/r/repos/a'' (Inr ()) #
      [ObservedCheckout demo_orphan (Inr (demo_recoverable\<lparr>ob_exists := False\<rparr>))]"
    using demo_prune(2) by (metis append_Nil append_take_drop_id fresh_def traced.select_convs(2))
  from prune_removals_are_guarded [OF pre run this] show ?thesis by auto
qed


section \<open>Snapshots\<close>

text \<open>
  C27: reproducing a snapshot acquires only destinations that planning found absent, and only
  after every destination was seen again as it was planned. When it succeeds, its last look at
  each resource of the snapshot found a clean checkout of exactly that identity and commit.
\<close>

theorem snapshot_reproduces_exactly:
  assumes "plan_snapshot S resources s = (Inr ds, s1)" and "apply_snapshot S ds s2 = (r, s3)"
  shows "\<exists>es. tw_log s3 = tw_log s2 @ es \<and> creates_lawfully ds es \<and>
    (r = Inr () \<longrightarrow> (\<exists>pre look. es = pre @ look \<and>
       (\<forall>i r. map_of resources i = Some r \<longrightarrow> (\<exists>c. SeenCheckout (sr_path r) (Inr c) \<in> set look \<and>
          ck_exists c \<and> ck_clean c \<and> ck_commit c = sr_commit r \<and> ck_identity c = i))))"
proof -
  have planned: "list_all2 (planned_for resources) (sort (remdups (List.map fst resources))) ds"
    using emitsD [OF emits_plan_snapshot assms(1)] by blast
  from emitsD [OF emits_apply_snapshot assms(2)] obtain es where es: "tw_log s3 = tw_log s2 @ es" "creates_lawfully ds es"
      "\<forall>u. r = Inr u \<longrightarrow> (\<exists>pre look. es = pre @ look \<and> last_look ds look)" by blast
  have exact: "\<exists>c. SeenCheckout (sr_path v) (Inr c) \<in> set look \<and> ck_exists c \<and> ck_clean c \<and>
      ck_commit c = sr_commit v \<and> ck_identity c = i"
    if look: "last_look ds look" and v: "map_of resources i = Some v" for look i v
  proof -
    have "i \<in> fst ` set resources" using v by (metis map_of_SomeD fst_conv image_eqI)
    then have "i \<in> set (sort (remdups (List.map fst resources)))" by simp
    from list_all2_in(2) [OF planned this] obtain d where d: "d \<in> set ds" "planned_for resources i d" by blast
    obtain cs where cs: "list_all2 (\<lambda>d c. validate_exact (de_acquisition d) c = Inr ()) ds cs"
        "look = map2 (\<lambda>d c. SeenCheckout (aq_path (de_acquisition d)) (Inr c)) ds cs"
      using look by (auto simp: last_look_def)
    from d(1) cs(1) obtain k where k: "k < length ds" "ds ! k = d" "k < length cs"
      by (metis in_set_conv_nth list_all2_lengthD)
    have "validate_exact (de_acquisition d) (cs ! k) = Inr ()" using list_all2_nthD [OF cs(1) k(1)] k(2) by simp
    moreover have "look ! k = SeenCheckout (aq_path (de_acquisition d)) (Inr (cs ! k))" "k < length look"
      using cs(2) k by auto
    then have "SeenCheckout (aq_path (de_acquisition d)) (Inr (cs ! k)) \<in> set look" by (metis nth_mem)
    ultimately show ?thesis
      using d(2) v unfolding validate_exact_Inr planned_for_def by (intro exI [of _ "cs ! k"]) simp
  qed
  show ?thesis
  proof (rule exI [of _ es], intro conjI impI es(1,2))
    assume "r = Inr ()"
    then obtain pre look where look: "es = pre @ look" "last_look ds look" using es(3) by blast
    show "\<exists>pre look. es = pre @ look \<and> (\<forall>i r. map_of resources i = Some r \<longrightarrow>
        (\<exists>c. SeenCheckout (sr_path r) (Inr c) \<in> set look \<and> ck_exists c \<and> ck_clean c \<and>
           ck_commit c = sr_commit r \<and> ck_identity c = i))"
      by (intro exI [of _ pre] exI [of _ look] conjI allI impI look(1) exact [OF look(2)])
  qed
qed

theorem snapshot_reproduces_exactly_witness:
  "\<exists>s pre look. apply_snapshot demo_hosting [demo_destination] (fresh []) = (Inr (), s) \<and> tw_log s = pre @ look \<and>
     (\<exists>c. SeenCheckout ''repos/a'' (Inr c) \<in> set look \<and> ck_exists c \<and> ck_clean c \<and> ck_commit c = demo_commit_id)"
proof -
  obtain s1 where plan: "plan_snapshot demo_hosting [(''o/a'', demo_resource)] (fresh []) = (Inr [demo_destination], s1)"
    using demo_plan_snapshot by (metis prod.collapse)
  obtain s where run: "apply_snapshot demo_hosting [demo_destination] (fresh []) = (Inr (), s)"
    using demo_apply_snapshot by (metis prod.collapse)
  from snapshot_reproduces_exactly [OF plan run] obtain es pre look where
      log: "tw_log s = tw_log (fresh ([]::string list)) @ es" "es = pre @ look"
      and seen: "\<forall>i r. map_of [(''o/a'', demo_resource)] i = Some r \<longrightarrow> (\<exists>c. SeenCheckout (sr_path r) (Inr c) \<in> set look \<and>
          ck_exists c \<and> ck_clean c \<and> ck_commit c = sr_commit r \<and> ck_identity c = i)" by blast
  have "\<exists>c. SeenCheckout (sr_path demo_resource) (Inr c) \<in> set look \<and>
      ck_exists c \<and> ck_clean c \<and> ck_commit c = sr_commit demo_resource \<and> ck_identity c = ''o/a''"
    using seen by simp
  then show ?thesis
    using run log by (intro exI [of _ s] exI [of _ pre] exI [of _ look]) (auto simp: demo_resource_def fresh_def)
qed

section \<open>Reconciliation\<close>

text \<open>
  C28: when reconciliation runs any git command that is not a question, preparation had
  finished, and every checkout had been observed a second time with exactly the answers it was
  planned for, including the commit the caller asked for; until then only questions had been
  asked. The command itself is one that a planned operation may run: a clone without checkout,
  recording the origin, a fetch into a remote-tracking ref, or a plain checkout.
\<close>

theorem reconcile_looks_before_acting:
  assumes "reconcile S desired s = (r, s')" and "tw_log s' = tw_log s @ pre @ RanGit dir args x # suf"
    and "\<not> asks_only args"
  shows "\<exists>cs s1 s2 pre1 pre2. prepare_changes S desired s = (Inr cs, s1) \<and>
    eachM (reobserve S) (ch_observations cs) s1 = (Inr (), s2) \<and>
    (\<forall>v \<in> set (ch_observations cs). settled (go_checkout v) v \<and> (\<exists>t t'. observe_git S (go_checkout v) t = (Inr v, t'))) \<and>
    tw_log s2 = tw_log s @ pre1 \<and> pre = pre1 @ pre2 \<and> looks_only pre1 \<and>
    (\<exists>p \<in> set (ch_operations cs). lawful (gp_checkout p) args)"
proof -
  obtain r1 s1 where prepare: "prepare_changes S desired s = (r1, s1)" by (cases "prepare_changes S desired s")
  obtain esP where esP: "tw_log s1 = tw_log s @ esP" "looks_only esP" using emitsD [OF looks_prepare prepare] by blast
  have act: "\<not> looks_only (pre @ RanGit dir args x # suf)" using assms(3) by simp
  show ?thesis
  proof (cases r1)
    case (Inl e)
    then have "s' = s1" using assms(1) prepare by (simp add: reconcile_def bindM_def)
    then show ?thesis using esP assms(2) act by simp
  next
    case (Inr cs)
    then have "apply_changes S cs s1 = (r, s')" using assms(1) prepare by (simp add: reconcile_def bindM_def)
    from apply_changes_phases [OF this] show ?thesis
    proof (elim disjE exE conjE)
      fix es assume "tw_log s' = tw_log s1 @ es" "looks_only es"
      then have "pre @ RanGit dir args x # suf = esP @ es" using assms(2) esP(1) by simp
      then show ?thesis using act \<open>looks_only es\<close> esP(2) by simp
    next
      fix s2 es1 es2
      assume fence: "eachM (reobserve S) (ch_observations cs) s1 = (Inr (), s2)"
        and es: "tw_log s2 = tw_log s1 @ es1" "looks_only es1" "tw_log s' = tw_log s2 @ es2" "acts_for (ch_operations cs) es2"
      have "(esP @ es1) @ es2 = pre @ RanGit dir args x # suf" using assms(2) es(1,3) esP(1) by simp
      from append_middle [OF this] show ?thesis
      proof (elim disjE exE conjE)
        fix m assume "esP @ es1 = pre @ RanGit dir args x # m"
        then have "looks_only (pre @ RanGit dir args x # m)" using esP(2) es(2) by (metis looks_only_simps(5))
        then show ?thesis using assms(3) by simp
      next
        fix m assume m: "pre = (esP @ es1) @ m" "es2 = m @ RanGit dir args x # suf"
        then have "\<exists>p \<in> set (ch_operations cs). lawful (gp_checkout p) args" using es(4) by simp
        moreover have "\<forall>v \<in> set (ch_observations cs). settled (go_checkout v) v \<and>
            (\<exists>t t'. observe_git S (go_checkout v) t = (Inr v, t'))"
          using fence_reobserved [OF fence] observed_expected by blast
        ultimately show ?thesis
          using prepare Inr fence esP es(1,2) m(1)
          by (intro exI [of _ cs] exI [of _ s1] exI [of _ s2] exI [of _ "esP @ es1"] exI [of _ m]) simp
      qed
    qed
  qed
qed

theorem reconcile_looks_before_acting_witness:
  "\<exists>cs s1. prepare_changes demo_remote [demo_checkout] (fresh ()) = (Inr cs, s1) \<and>
     list_all (\<lambda>v. settled (go_checkout v) v) (ch_observations cs) \<and>
     (\<exists>p \<in> set (ch_operations cs). lawful (gp_checkout p) (fetch_arguments demo_commit_id ''topic''))"
proof -
  obtain pre suf s' where run: "reconcile demo_remote [demo_checkout] (fresh ()) = (Inr (), s')"
      and log: "tw_log s' = tw_log (fresh ()) @ pre @ RanGit ''/w/a'' (fetch_arguments demo_commit_id ''topic'') (Inr []) # suf"
    using demo_reconcile by (auto simp: fresh_def)
  have "\<not> asks_only (fetch_arguments demo_commit_id ''topic'')" by (simp add: asks_only_def fetch_arguments_def)
  from reconcile_looks_before_acting [OF run log this] show ?thesis unfolding list_all_iff by blast
qed



end
