(* ===== verification/Verify_Order.thy ===== *)
theory Verify_Order
  imports Workbench_Prelude
begin

text \<open>
  The order in which declared verifiers run (\<^verbatim>\<open>Register\<close> and \<^verbatim>\<open>Order\<close> of
  \<^verbatim>\<open>internal/verify/declaration/declaration.go\<close>). Decoding a manifest (\<open>rg_decode\<close>), its canonical
  bytes (\<open>rg_canonical\<close>, \<^verbatim>\<open>stringify.go\<close>) and SHA-256 (\<open>rg_digest\<close>) are parameters. The nested
  calls of \<^verbatim>\<open>visit\<close> take fuel; one more than there are verifiers is always enough.
\<close>

section \<open>Data\<close>

record unit_selector =
  us_kind :: string
  us_patterns :: "string list"

text \<open>A manifest, without its outputs, members, toolchain, network, timeout and distribution.\<close>

record verifier_manifest =
  ve_id :: string
  ve_image :: string
  ve_program :: "string list"
  ve_command :: "string list"
  ve_selector :: unit_selector
  ve_noun :: string
  ve_produces :: string
  ve_requires :: "(string \<times> string) list"
  ve_deterministic :: bool

record registered_verifier =
  rg_manifest :: verifier_manifest
  rg_image_digest :: string
  rg_manifest_digest :: string
  rg_version :: string

record register_tools =
  rt_decode :: "string \<Rightarrow> string + verifier_manifest"
  rt_canonical :: "string \<Rightarrow> string + string"
  rt_digest :: "string \<Rightarrow> string"

record declared_verifiers =
  dv_verifiers :: "(string \<times> verifier_manifest) list"
  dv_manifests :: "string \<Rightarrow> string"

text \<open>What follows the last at sign; the whole string without one.\<close>

definition image_digest :: "string \<Rightarrow> string" where
  "image_digest ref = rev (takeWhile (\<lambda>c. c \<noteq> CHR ''@'') (rev ref))"

definition register_verifier :: "register_tools \<Rightarrow> string \<Rightarrow> string + registered_verifier" where
  "register_verifier T data =
     result_bind (rt_decode T data) (\<lambda>m.
     result_bind (rt_canonical T data) (\<lambda>canonical.
       let img = image_digest (ve_image m); digest = rt_digest T canonical
       in Inr \<lparr>rg_manifest = m, rg_image_digest = img, rg_manifest_digest = digest,
            rg_version = rt_digest T (img @ CHR 0x00 # digest)\<rparr>))"

section \<open>The search\<close>

datatype visit_mark = Visiting | Visited

datatype order_error =
    RequiresCycle "string list"
  | RequiresUnregistered string
  | RegisterFailed string string
  | OrderFuel

record visit_state =
  or_mark :: "string \<Rightarrow> visit_mark option"
  or_ordered :: "registered_verifier list"

definition upstream_ids :: "verifier_manifest \<Rightarrow> string list" where
  "upstream_ids m = sort (List.map snd (ve_requires m))"

fun visit_verifier ::
    "register_tools \<Rightarrow> declared_verifiers \<Rightarrow> nat \<Rightarrow> string list \<Rightarrow> string \<Rightarrow> visit_state \<Rightarrow> order_error + visit_state"
  and visit_upstreams ::
    "register_tools \<Rightarrow> declared_verifiers \<Rightarrow> nat \<Rightarrow> string list \<Rightarrow> string list \<Rightarrow> visit_state \<Rightarrow> order_error + visit_state" where
  "visit_verifier T D 0 trail i st = Inl OrderFuel"
| "visit_verifier T D (Suc n) trail i st =
     (if or_mark st i = Some Visited then Inr st
      else if or_mark st i = Some Visiting then Inl (RequiresCycle (trail @ [i]))
      else case map_of (dv_verifiers D) i of
          None \<Rightarrow> Inl (RequiresUnregistered i)
        | Some m \<Rightarrow>
            result_bind (visit_upstreams T D n (trail @ [i]) (upstream_ids m) (st\<lparr>or_mark := (or_mark st)(i \<mapsto> Visiting)\<rparr>)) (\<lambda>st'.
              case register_verifier T (dv_manifests D i) of
                Inl e \<Rightarrow> Inl (RegisterFailed i e)
              | Inr r \<Rightarrow> Inr (st'\<lparr>or_mark := (or_mark st')(i \<mapsto> Visited), or_ordered := or_ordered st' @ [r]\<rparr>)))"
| "visit_upstreams T D n trail [] st = Inr st"
| "visit_upstreams T D n trail (i # rest) st =
     result_bind (visit_verifier T D n trail i st) (\<lambda>st'. visit_upstreams T D n trail rest st')"

definition order_start :: visit_state where
  "order_start = \<lparr>or_mark = (\<lambda>i. None), or_ordered = []\<rparr>"

definition order_verifiers :: "register_tools \<Rightarrow> declared_verifiers \<Rightarrow> order_error + registered_verifier list" where
  "order_verifiers T D =
     result_bind (visit_upstreams T D (Suc (length (dv_verifiers D))) [] (sort (List.map fst (dv_verifiers D))) order_start)
       (\<lambda>st. Inr (or_ordered st))"

section \<open>What the search keeps\<close>

definition upstream_of :: "declared_verifiers \<Rightarrow> string \<Rightarrow> string set" where
  "upstream_of D i = (case map_of (dv_verifiers D) i of None \<Rightarrow> {} | Some m \<Rightarrow> snd ` set (ve_requires m))"

lemma upstream_ids_set: "map_of (dv_verifiers D) i = Some m \<Longrightarrow> set (upstream_ids m) = upstream_of D i"
  by (simp add: upstream_ids_def upstream_of_def)

text \<open>Each element requires the next.\<close>

fun requires_chain :: "declared_verifiers \<Rightarrow> string list \<Rightarrow> bool" where
  "requires_chain D (i # j # rest) = (j \<in> upstream_of D i \<and> requires_chain D (j # rest))"
| "requires_chain D _ = True"

lemma requires_chain_snoc:
  "requires_chain D (trail @ [i]) \<longleftrightarrow> requires_chain D trail \<and> (trail \<noteq> [] \<longrightarrow> i \<in> upstream_of D (last trail))"
  by (induction D trail rule: requires_chain.induct) auto

text \<open>Every element's upstreams come before it.\<close>

definition upstreams_first :: "declared_verifiers \<Rightarrow> string list \<Rightarrow> bool" where
  "upstreams_first D ids \<longleftrightarrow> (\<forall>pre i suf. ids = pre @ i # suf \<longrightarrow> upstream_of D i \<subseteq> set pre)"

lemma upstreams_first_snoc:
  assumes "upstreams_first D ids" and "upstream_of D i \<subseteq> set ids"
  shows "upstreams_first D (ids @ [i])"
  unfolding upstreams_first_def
proof (intro allI impI)
  fix pre j suf assume eq: "ids @ [i] = pre @ j # suf"
  show "upstream_of D j \<subseteq> set pre"
  proof (cases suf rule: rev_cases)
    case Nil
    then show ?thesis using eq assms(2) by simp
  next
    case (snoc ys y)
    then have "ids = pre @ j # ys" using eq by simp
    then show ?thesis using assms(1) by (auto simp: upstreams_first_def)
  qed
qed

abbreviation declared_ids :: "declared_verifiers \<Rightarrow> string set" where
  "declared_ids D \<equiv> fst ` set (dv_verifiers D)"

definition order_inv ::
    "register_tools \<Rightarrow> declared_verifiers \<Rightarrow> string list \<Rightarrow> string list \<Rightarrow> visit_state \<Rightarrow> bool" where
  "order_inv T D trail ids st \<longleftrightarrow>
     (\<forall>i. or_mark st i = Some Visiting \<longleftrightarrow> i \<in> set trail) \<and> (\<forall>i. or_mark st i = Some Visited \<longleftrightarrow> i \<in> set ids) \<and>
     distinct trail \<and> requires_chain D trail \<and> set trail \<subseteq> declared_ids D \<and>
     distinct ids \<and> set ids \<subseteq> declared_ids D \<and> upstreams_first D ids \<and>
     list_all2 (\<lambda>i r. register_verifier T (dv_manifests D i) = Inr r) ids (or_ordered st)"

text \<open>A refusal names what is wrong: a chain of requirements that comes back, or a missing verifier.\<close>

definition order_refused :: "register_tools \<Rightarrow> declared_verifiers \<Rightarrow> order_error \<Rightarrow> bool" where
  "order_refused T D e \<longleftrightarrow>
     (case e of
        RequiresCycle c \<Rightarrow> requires_chain D c \<and> c \<noteq> [] \<and> last c \<in> set (butlast c) \<and> set c \<subseteq> declared_ids D
      | RequiresUnregistered i \<Rightarrow> i \<notin> declared_ids D \<and> (\<exists>j \<in> declared_ids D. i \<in> upstream_of D j)
      | RegisterFailed i m \<Rightarrow> i \<in> declared_ids D \<and> register_verifier T (dv_manifests D i) = Inl m
      | OrderFuel \<Rightarrow> False)"

definition searched ::
    "register_tools \<Rightarrow> declared_verifiers \<Rightarrow> string list \<Rightarrow> string list \<Rightarrow> string set \<Rightarrow> order_error + visit_state \<Rightarrow> bool" where
  "searched T D trail ids want r \<longleftrightarrow>
     (case r of
        Inl e \<Rightarrow> order_refused T D e
      | Inr st \<Rightarrow> \<exists>more. order_inv T D trail (ids @ more) st \<and> want \<subseteq> set (ids @ more))"

lemma declared_some: "map_of (dv_verifiers D) i = None \<longleftrightarrow> i \<notin> declared_ids D"
  by (simp add: map_of_eq_None_iff)

lemma enter_inv:
  assumes "order_inv T D trail ids st" and "or_mark st i = None" and "i \<in> declared_ids D"
    and "trail \<noteq> [] \<longrightarrow> i \<in> upstream_of D (last trail)"
  shows "order_inv T D (trail @ [i]) ids (st\<lparr>or_mark := (or_mark st)(i \<mapsto> Visiting)\<rparr>)"
proof -
  have "i \<notin> set trail" "i \<notin> set ids" using assms(1,2) by (force simp: order_inv_def)+
  then show ?thesis using assms by (auto simp: order_inv_def requires_chain_snoc)
qed

lemma leave_inv:
  assumes "order_inv T D (trail @ [i]) ids st" and "upstream_of D i \<subseteq> set ids"
    and "register_verifier T (dv_manifests D i) = Inr r"
  shows "order_inv T D trail (ids @ [i]) (st\<lparr>or_mark := (or_mark st)(i \<mapsto> Visited), or_ordered := or_ordered st @ [r]\<rparr>)"
proof -
  have marks: "or_mark st j = Some Visiting \<longleftrightarrow> j \<in> set (trail @ [i])" "or_mark st j = Some Visited \<longleftrightarrow> j \<in> set ids" for j
    using assms(1) unfolding order_inv_def by blast+
  have trail: "distinct (trail @ [i])" "requires_chain D (trail @ [i])" "set (trail @ [i]) \<subseteq> declared_ids D"
    and ids: "distinct ids" "set ids \<subseteq> declared_ids D" "upstreams_first D ids"
    and registered: "list_all2 (\<lambda>i r. register_verifier T (dv_manifests D i) = Inr r) ids (or_ordered st)"
    using assms(1) unfolding order_inv_def by blast+
  have "or_mark st i = Some Visiting" using marks(1) by simp
  then have fresh: "i \<notin> set ids" using marks(2) by force
  have "list_all2 (\<lambda>i r. register_verifier T (dv_manifests D i) = Inr r) (ids @ [i]) (or_ordered st @ [r])"
    using registered assms(3) by (simp add: list_all2_appendI)
  then show ?thesis
    unfolding order_inv_def
    using marks trail ids fresh upstreams_first_snoc [OF ids(3) assms(2)]
    by (simp add: requires_chain_snoc)
qed

lemma visit_searched:
  "order_inv T D trail ids st \<Longrightarrow> length trail + n = Suc (length (dv_verifiers D)) \<Longrightarrow>
     (if trail = [] then i \<in> declared_ids D else i \<in> upstream_of D (last trail)) \<Longrightarrow>
     searched T D trail ids {i} (visit_verifier T D n trail i st)"
  "order_inv T D trail ids st \<Longrightarrow> length trail + n = Suc (length (dv_verifiers D)) \<Longrightarrow>
     (if trail = [] then set is' \<subseteq> declared_ids D else set is' \<subseteq> upstream_of D (last trail)) \<Longrightarrow>
     searched T D trail ids (set is') (visit_upstreams T D n trail is' st)"
proof (induction T D n trail i st and T D n trail is' st arbitrary: ids and ids rule: visit_verifier_visit_upstreams.induct)
  case (1 T D trail i st)
  have "card (set trail) \<le> card (declared_ids D)" using 1(1) by (intro card_mono) (auto simp: order_inv_def)
  also have "\<dots> \<le> length (dv_verifiers D)" by (metis card_length length_map list.set_map)
  finally have False using 1(1,2) by (simp add: order_inv_def distinct_card)
  then show ?case ..
next
  case (2 T D n trail i st)
  note IH = "2.IH" and inv = "2.prems"(1) and fuel = "2.prems"(2) and want = "2.prems"(3)
  have chained: "trail \<noteq> [] \<longrightarrow> i \<in> upstream_of D (last trail)" using want by (auto split: if_splits)
  consider (visited) "or_mark st i = Some Visited" | (cycle) "or_mark st i = Some Visiting" | (fresh) "or_mark st i = None"
    by (metis option.exhaust visit_mark.exhaust)
  then show ?case
  proof cases
    case visited
    then have "i \<in> set ids" using inv by (simp add: order_inv_def)
    then show ?thesis using visited inv by (auto simp: searched_def intro!: exI [of _ "[]"])
  next
    case cycle
    have result: "visit_verifier T D (Suc n) trail i st = Inl (RequiresCycle (trail @ [i]))" using cycle by simp
    have "i \<in> set trail" "requires_chain D trail" "set trail \<subseteq> declared_ids D"
      using cycle inv unfolding order_inv_def by blast+
    moreover from this(1) have "trail \<noteq> []" by auto
    ultimately show ?thesis
      unfolding searched_def result using chained by (auto simp: order_refused_def requires_chain_snoc)
  next
    case fresh
    show ?thesis
    proof (cases "map_of (dv_verifiers D) i")
      case None
      then have "i \<notin> declared_ids D" by (simp add: declared_some)
      moreover from this have trail: "trail \<noteq> []" "i \<in> upstream_of D (last trail)" using want by (auto split: if_splits)
      moreover have "last trail \<in> declared_ids D" using inv last_in_set [OF trail(1)] unfolding order_inv_def by blast
      ultimately have "order_refused T D (RequiresUnregistered i)" unfolding order_refused_def order_error.case by blast
      then show ?thesis using None fresh by (simp add: searched_def)
    next
      case (Some m)
      let ?st = "st\<lparr>or_mark := (or_mark st)(i \<mapsto> Visiting)\<rparr>"
      have declared: "i \<in> declared_ids D" using Some by (metis declared_some option.distinct(1))
      have inner: "searched T D (trail @ [i]) ids (upstream_of D i) (visit_upstreams T D n (trail @ [i]) (upstream_ids m) ?st)"
        using IH [OF _ _ Some enter_inv [OF inv fresh declared chained]] fresh fuel
        by (simp add: upstream_ids_set [OF Some])
      show ?thesis
      proof (cases "visit_upstreams T D n (trail @ [i]) (upstream_ids m) ?st")
        case (Inl e)
        then show ?thesis using inner fresh Some by (simp add: searched_def)
      next
        case (Inr st')
        then obtain extra where extra: "order_inv T D (trail @ [i]) (ids @ extra) st'" "upstream_of D i \<subseteq> set (ids @ extra)"
          using inner by (auto simp: searched_def)
        show ?thesis
        proof (cases "register_verifier T (dv_manifests D i)")
          case (Inl e)
          then show ?thesis using fresh Some Inr declared by (simp add: searched_def order_refused_def)
        next
          case registered: (Inr r)
          from leave_inv [OF extra registered] show ?thesis
            using fresh Some Inr registered by (auto simp: searched_def intro!: exI [of _ "extra @ [i]"])
        qed
      qed
    qed
  qed
next
  case (3 T D n trail st)
  then show ?case by (auto simp: searched_def intro!: exI [of _ "[]"])
next
  case (4 T D n trail i rest st)
  note IH = "4.IH" and prems = "4.prems"
  have first: "searched T D trail ids {i} (visit_verifier T D n trail i st)"
    by (rule IH(1) [OF prems(1,2)]) (use prems(3) in \<open>auto split: if_splits\<close>)
  show ?case
  proof (cases "visit_verifier T D n trail i st")
    case (Inl e)
    then show ?thesis using first by (simp add: searched_def)
  next
    case (Inr st')
    then obtain extra where extra: "order_inv T D trail (ids @ extra) st'" "i \<in> set (ids @ extra)"
      using first by (auto simp: searched_def)
    have "searched T D trail (ids @ extra) (set rest) (visit_upstreams T D n trail rest st')"
      by (rule IH(2) [OF extra(1) prems(2)]) (use prems(3) in \<open>auto split: if_splits\<close>)
    then show ?thesis
    proof (cases "visit_upstreams T D n trail rest st'")
      case (Inl e)
      then show ?thesis using \<open>searched T D trail (ids @ extra) (set rest) (visit_upstreams T D n trail rest st')\<close>
        by (simp add: searched_def \<open>visit_verifier T D n trail i st = Inr st'\<close>)
    next
      case last: (Inr t)
      then obtain more where more: "order_inv T D trail ((ids @ extra) @ more) t" "set rest \<subseteq> set ((ids @ extra) @ more)"
        using \<open>searched T D trail (ids @ extra) (set rest) (visit_upstreams T D n trail rest st')\<close> by (auto simp: searched_def)
      then have "order_inv T D trail (ids @ extra @ more) t \<and> set (i # rest) \<subseteq> set (ids @ extra @ more)"
        using extra(2) by auto
      then have "\<exists>w. order_inv T D trail (ids @ w) t \<and> set (i # rest) \<subseteq> set (ids @ w)"
        by (rule exI [of _ "extra @ more"])
      then show ?thesis by (simp only: searched_def visit_upstreams.simps \<open>visit_verifier T D n trail i st = Inr st'\<close> result_bind.simps last sum.case)
    qed
  qed
qed

text \<open>The whole order.\<close>

lemma order_searched:
  "case order_verifiers T D of
     Inl e \<Rightarrow> order_refused T D e
   | Inr rs \<Rightarrow> \<exists>ids. distinct ids \<and> set ids = declared_ids D \<and> upstreams_first D ids \<and>
       list_all2 (\<lambda>i r. register_verifier T (dv_manifests D i) = Inr r) ids rs"
proof -
  have start: "order_inv T D [] [] order_start" by (simp add: order_inv_def order_start_def upstreams_first_def)
  have "searched T D [] [] (declared_ids D)
      (visit_upstreams T D (Suc (length (dv_verifiers D))) [] (sort (List.map fst (dv_verifiers D))) order_start)"
    using visit_searched(2) [OF start, of "Suc (length (dv_verifiers D))" "sort (List.map fst (dv_verifiers D))"] by simp
  then show ?thesis
    unfolding order_verifiers_def searched_def
    by (cases "visit_upstreams T D (Suc (length (dv_verifiers D))) [] (sort (List.map fst (dv_verifiers D))) order_start")
      (auto simp: order_inv_def)
qed

end
