(* ===== verification/Verify_Report.thy ===== *)
theory Verify_Report
  imports Complex_Main Go_Json Go_Numbers
begin

text \<open>
  Diagnostic reports (\<^verbatim>\<open>internal/verify/report/report.go\<close>): what is accepted of a verifier's
  JSON, and the identities of its occurrences. A JSON number is the rational that the decoded
  \<^verbatim>\<open>float64\<close> stands for; an object is an association list in the order of its range, where a
  key occurs once. SHA-256 in hexadecimal is the parameter \<open>digest\<close>. The canonical bytes kept
  of a report (\<^verbatim>\<open>canonical.go\<close>) are not modelled.
\<close>

section \<open>Data\<close>

datatype json_value =
    JNull
  | JBool bool
  | JNumber rat
  | JString string
  | JArray "json_value list"
  | JObject "(string \<times> json_value) list"

record text_position =
  tp_line :: int
  tp_column :: int

record text_range =
  tr_start :: text_position
  tr_end :: "text_position option"

record report_diagnostic =
  di_error_key :: string
  di_code :: "string option"
  di_severity :: string
  di_message :: string
  di_file :: "string option"
  di_range :: "text_range option"

record report_member =
  rp_name :: string
  rp_status :: string

record diagnostic_report =
  rp_unit :: string
  rp_diagnostics :: "report_diagnostic list"
  rp_members :: "report_member list"
  rp_advice :: "(string \<times> json_value) list"

record report_visibility =
  rv_unit :: string
  rv_tree :: string
  rv_files :: "string list"

section \<open>Strings that may not leave the sandbox\<close>

fun contains_text :: "string \<Rightarrow> string \<Rightarrow> bool" where
  "contains_text [] sub = (sub = [])"
| "contains_text (c # s) sub = (has_prefix (c # s) sub \<or> contains_text s sub)"

definition sandbox_prefixes :: "string list" where
  "sandbox_prefixes = [''/work/'', ''/upstream/'', ''/scratch/'', ''/out/'', ''/tmp/'']"

text \<open>The refusal of one string; empty when there is none.\<close>

definition check_text :: "report_visibility \<Rightarrow> string \<Rightarrow> string" where
  "check_text vis x =
     (if contains_text x (rv_tree vis) then ''report string contains the Tree''
      else case List.find (contains_text x) sandbox_prefixes of
          None \<Rightarrow> []
        | Some p \<Rightarrow> ''report string contains the sandbox path '' @ p)"

text \<open>The stack of pending values, its top first: what is appended last is looked at next.\<close>

function check_strings :: "report_visibility \<Rightarrow> json_value list \<Rightarrow> string" where
  "check_strings vis [] = []"
| "check_strings vis (JString x # rest) =
     (if check_text vis x \<noteq> [] then check_text vis x else check_strings vis rest)"
| "check_strings vis (JArray xs # rest) = check_strings vis (rev xs @ rest)"
| "check_strings vis (JObject m # rest) =
     check_strings vis (rev (concat (List.map (\<lambda>kv. [JString (fst kv), snd kv]) m)) @ rest)"
| "check_strings vis (JNull # rest) = check_strings vis rest"
| "check_strings vis (JBool b # rest) = check_strings vis rest"
| "check_strings vis (JNumber n # rest) = check_strings vis rest"
  by pat_completeness auto

fun json_weight :: "json_value \<Rightarrow> nat" where
  "json_weight (JArray xs) = Suc (sum_list (List.map json_weight xs))"
| "json_weight (JObject m) = Suc (sum_list (List.map (\<lambda>kv. Suc (json_weight (snd kv))) m))"
| "json_weight v = 1"

lemma json_weight_entries:
  "sum_list (List.map json_weight (concat (List.map (\<lambda>kv. [JString (fst kv), snd kv]) m))) =
     sum_list (List.map (\<lambda>kv. Suc (json_weight (snd kv))) m)"
  by (induction m) auto

lemma json_weight_rev: "sum_list (List.map json_weight (rev vs)) = sum_list (List.map json_weight vs)"
  by (simp add: rev_map [symmetric] sum_list_rev)

termination check_strings
  by (relation "measure (\<lambda>(vis, pending). sum_list (List.map json_weight pending))")
    (simp_all add: json_weight_rev json_weight_entries del: map_concat)

section \<open>Decoding\<close>

definition json_text :: "json_value option \<Rightarrow> string option" where
  "json_text v = (case v of Some (JString s) \<Rightarrow> Some s | _ \<Rightarrow> None)"

definition decode_coordinate :: "(string \<times> json_value) list \<Rightarrow> string \<Rightarrow> string + int" where
  "decode_coordinate m field =
     (case map_of m field of
        Some (JNumber n) \<Rightarrow>
          if n < 1 \<or> n > 9007199254740991 \<or> of_int \<lfloor>n\<rfloor> \<noteq> n then Inl (field @ '' is not a positive integer'') else Inr \<lfloor>n\<rfloor>
      | _ \<Rightarrow> Inl (field @ '' is not a positive integer''))"

definition decode_position :: "json_value option \<Rightarrow> string + text_position" where
  "decode_position v =
     (case v of
        Some (JObject m) \<Rightarrow>
          result_bind (decode_coordinate m ''line'') (\<lambda>l.
          result_bind (decode_coordinate m ''column'') (\<lambda>c. Inr \<lparr>tp_line = l, tp_column = c\<rparr>))
      | _ \<Rightarrow> Inl ''is not an object'')"

definition prefixed :: "string \<Rightarrow> string + 'a \<Rightarrow> string + 'a" where
  "prefixed p r = (case r of Inl m \<Rightarrow> Inl (p @ m) | Inr x \<Rightarrow> Inr x)"

definition decode_code :: "(string \<times> json_value) list \<Rightarrow> string + string option" where
  "decode_code m =
     (case map_of m ''code'' of
        None \<Rightarrow> Inr None
      | Some (JString s) \<Rightarrow> Inr (Some s)
      | Some _ \<Rightarrow> Inl ''code is not a string'')"

definition decode_file :: "report_visibility \<Rightarrow> (string \<times> json_value) list \<Rightarrow> string + string option" where
  "decode_file vis m =
     (case map_of m ''file'' of
        None \<Rightarrow> Inr None
      | Some (JString s) \<Rightarrow>
          if s \<notin> set (rv_files vis) then Inl ''file is not a tracked repository path in the Unit's inputs'' else Inr (Some s)
      | Some _ \<Rightarrow> Inl ''file is not a string'')"

definition decode_range :: "(string \<times> json_value) list \<Rightarrow> string + text_range option" where
  "decode_range m =
     (case map_of m ''range'' of
        None \<Rightarrow> Inr None
      | Some (JObject r) \<Rightarrow>
          result_bind (prefixed ''range.start.'' (decode_position (map_of r ''start''))) (\<lambda>start.
            case map_of r ''end'' of
              None \<Rightarrow> Inr (Some \<lparr>tr_start = start, tr_end = None\<rparr>)
            | Some v \<Rightarrow>
                result_bind (prefixed ''range.end.'' (decode_position (Some v)))
                  (\<lambda>e. Inr (Some \<lparr>tr_start = start, tr_end = Some e\<rparr>)))
      | Some _ \<Rightarrow> Inl ''range is not an object'')"

definition severities :: "string list" where
  "severities = [''error'', ''warning'', ''suggestion'', ''message'']"

definition decode_diagnostic :: "report_visibility \<Rightarrow> json_value \<Rightarrow> string + report_diagnostic" where
  "decode_diagnostic vis v =
     (case v of
        JObject m \<Rightarrow>
          (case json_text (map_of m ''errorKey'') of
             None \<Rightarrow> Inl ''errorKey is not a string''
           | Some key \<Rightarrow>
               (case json_text (map_of m ''message'') of
                  None \<Rightarrow> Inl ''message is not a string''
                | Some message \<Rightarrow>
                    (case json_text (map_of m ''severity'') of
                       None \<Rightarrow> Inl ''severity is not one of error, warning, suggestion, message''
                     | Some severity \<Rightarrow>
                         if severity \<notin> set severities
                         then Inl ''severity is not one of error, warning, suggestion, message''
                         else
                           result_bind (decode_code m) (\<lambda>code.
                           result_bind (decode_file vis m) (\<lambda>f.
                           result_bind (decode_range m) (\<lambda>r.
                             Inr \<lparr>di_error_key = key, di_code = code, di_severity = severity, di_message = message,
                               di_file = f, di_range = r\<rparr>))))))
      | _ \<Rightarrow> Inl ''is not an object'')"

definition decode_member :: "json_value \<Rightarrow> string + report_member" where
  "decode_member v =
     (case v of
        JObject m \<Rightarrow>
          (case json_text (map_of m ''name'') of
             None \<Rightarrow> Inl ''.name is not a string''
           | Some name \<Rightarrow>
               (case json_text (map_of m ''status'') of
                  None \<Rightarrow> Inl ''.status is not one of pass, fail, skip''
                | Some status \<Rightarrow>
                    if status \<notin> {''pass'', ''fail'', ''skip''} then Inl ''.status is not one of pass, fail, skip''
                    else Inr \<lparr>rp_name = name, rp_status = status\<rparr>))
      | _ \<Rightarrow> Inl '' is not an object'')"

text \<open>The elements of an array with their indices in the refusals.\<close>

fun decode_elements :: "string \<Rightarrow> (json_value \<Rightarrow> string + 'a) \<Rightarrow> nat \<Rightarrow> json_value list \<Rightarrow> string + 'a list" where
  "decode_elements what f i [] = Inr []"
| "decode_elements what f i (v # vs) =
     result_bind (prefixed (what @ ''['' @ nat_string i @ '']'') (f v)) (\<lambda>x.
     result_bind (decode_elements what f (Suc i) vs) (\<lambda>xs. Inr (x # xs)))"

definition decode_members :: "(string \<times> json_value) list \<Rightarrow> string + report_member list" where
  "decode_members m =
     (case map_of m ''members'' of
        None \<Rightarrow> Inr []
      | Some (JArray vs) \<Rightarrow> decode_elements ''members'' decode_member 0 vs
      | Some _ \<Rightarrow> Inl ''members is not an array'')"

definition decode_advice :: "(string \<times> json_value) list \<Rightarrow> string + (string \<times> json_value) list" where
  "decode_advice m =
     (case map_of m ''adviceById'' of
        None \<Rightarrow> Inr []
      | Some (JObject a) \<Rightarrow> Inr a
      | Some _ \<Rightarrow> Inl ''adviceById is not an object'')"

definition decode_report :: "report_visibility \<Rightarrow> json_value \<Rightarrow> string + diagnostic_report" where
  "decode_report vis v =
     (case v of
        JObject m \<Rightarrow>
          (if json_text (map_of m ''unitId'') \<noteq> Some (rv_unit vis) then Inl ''unitId is not this Unit''
           else case map_of m ''diagnostics'' of
               Some (JArray vs) \<Rightarrow>
                 result_bind (decode_elements ''diagnostics'' (\<lambda>v. prefixed ''.'' (decode_diagnostic vis v)) 0 vs) (\<lambda>ds.
                 result_bind (decode_members m) (\<lambda>ms.
                 result_bind (decode_advice m) (\<lambda>a.
                   Inr \<lparr>rp_unit = rv_unit vis, rp_diagnostics = ds, rp_members = ms, rp_advice = a\<rparr>)))
             | _ \<Rightarrow> Inl ''diagnostics is not an array'')
      | _ \<Rightarrow> Inl ''report is not an object'')"

text \<open>\<^verbatim>\<open>Decode\<close> once the bytes are JSON, without the canonical bytes.\<close>

definition accept_report :: "report_visibility \<Rightarrow> json_value \<Rightarrow> string + diagnostic_report" where
  "accept_report vis v =
     (if check_strings vis [v] \<noteq> [] then Inl (check_strings vis [v]) else decode_report vis v)"

section \<open>Lines and keys\<close>

text \<open>The bytes after the first \<open>n\<close> line feeds, if there are so many.\<close>

fun skip_lines :: "nat \<Rightarrow> string \<Rightarrow> string option" where
  "skip_lines 0 s = Some s"
| "skip_lines (Suc n) s = (case cut CHR 0x0A s of (_, rest, found) \<Rightarrow> if found then skip_lines n rest else None)"

definition line_digest :: "(string \<Rightarrow> string) \<Rightarrow> string \<Rightarrow> int \<Rightarrow> string" where
  "line_digest digest text line =
     (if line < 1 then digest []
      else case skip_lines (nat (line - 1)) text of
          None \<Rightarrow> digest []
        | Some rest \<Rightarrow> digest (fst (cut CHR 0x0A rest)))"

text \<open>\<^verbatim>\<open>jsonString\<close>: what the encoder wrote, with the two line separators put back.\<close>

function restore_lines :: "string \<Rightarrow> string" where
  "restore_lines [] = []"
| "restore_lines (c # s) =
     (if c = CHR 0x5C \<and> s \<noteq> [] then
        (if take 5 s = ''u2028'' then CHR 0xE2 # CHR 0x80 # CHR 0xA8 # restore_lines (drop 5 s)
         else if take 5 s = ''u2029'' then CHR 0xE2 # CHR 0x80 # CHR 0xA9 # restore_lines (drop 5 s)
         else c # hd s # restore_lines (tl s))
      else c # restore_lines s)"
  by pat_completeness auto
termination by (relation "measure length") auto

definition json_element :: "string option \<Rightarrow> string" where
  "json_element v = (case v of None \<Rightarrow> ''null'' | Some s \<Rightarrow> json_string s)"

definition json_array_text :: "string option list \<Rightarrow> string" where
  "json_array_text vs = restore_lines (''['' @ join '','' (List.map json_element vs) @ '']'')"

section \<open>Occurrences\<close>

record report_unit =
  ru_verifier :: string
  ru_unit :: string
  ru_report :: diagnostic_report

record report_occurrence =
  oc_key :: string
  oc_verifier :: string
  oc_unit :: string
  oc_diagnostic :: report_diagnostic
  oc_anchor :: string

record member_status =
  mm_verifier :: string
  mm_unit :: string
  mm_member :: report_member

text \<open>\<^verbatim>\<open>jsLess\<close> compares UTF-16 units; the strings are well-formed UTF-8.\<close>

definition low_bits :: "char \<Rightarrow> nat" where
  "low_bits c = of_char c mod 64"

function utf16_units :: "string \<Rightarrow> nat list" where
  "utf16_units [] = []"
| "utf16_units (c # s) =
     (if (of_char c :: nat) < 0x80 \<or> length s < 1 then of_char c # utf16_units s
      else if (of_char c :: nat) < 0xE0 \<or> length s < 2 then ((of_char c mod 32) * 64 + low_bits (s ! 0)) # utf16_units (drop 1 s)
      else if (of_char c :: nat) < 0xF0 \<or> length s < 3
      then ((of_char c mod 16) * 4096 + low_bits (s ! 0) * 64 + low_bits (s ! 1)) # utf16_units (drop 2 s)
      else let p = (of_char c mod 8) * 262144 + low_bits (s ! 0) * 4096 + low_bits (s ! 1) * 64 + low_bits (s ! 2) - 0x10000
           in (0xD800 + p div 1024) # (0xDC00 + p mod 1024) # utf16_units (drop 3 s))"
  by pat_completeness auto
termination by (relation "measure length") auto

definition ordered_units :: "report_unit list \<Rightarrow> report_unit list" where
  "ordered_units units = sort_key (\<lambda>u. utf16_units (ru_verifier u @ CHR 0x00 # ru_unit u)) units"

definition slot_of :: "string \<Rightarrow> string \<Rightarrow> string \<Rightarrow> string \<Rightarrow> string" where
  "slot_of verifier f key hash = json_array_text [Some verifier, Some f, Some key, Some hash]"

definition ordinal_of :: "(string \<times> nat) list \<Rightarrow> string \<Rightarrow> nat" where
  "ordinal_of ordinals slot = (case map_of ordinals slot of None \<Rightarrow> 0 | Some n \<Rightarrow> n)"

definition start_line :: "report_diagnostic \<Rightarrow> int" where
  "start_line d = (case di_range d of None \<Rightarrow> 0 | Some r \<Rightarrow> tp_line (tr_start r))"

definition occurrence_key :: "(string \<Rightarrow> string) \<Rightarrow> string \<Rightarrow> report_diagnostic \<Rightarrow> string \<Rightarrow> string" where
  "occurrence_key digest verifier d anchor =
     digest (json_array_text [Some verifier, Some (di_error_key d), di_file d, Some anchor])"

definition occurrence_step ::
    "(string \<Rightarrow> string) \<Rightarrow> (string \<Rightarrow> string) \<Rightarrow> report_unit \<Rightarrow>
     (string \<times> nat) list \<times> report_occurrence list \<Rightarrow> report_diagnostic \<Rightarrow> (string \<times> nat) list \<times> report_occurrence list" where
  "occurrence_step digest files u st d =
     (let (anchor, ordinals) =
        (case di_file d of
           None \<Rightarrow> (ru_unit u, fst st)
         | Some f \<Rightarrow>
             let hash = line_digest digest (files f) (start_line d);
                 slot = slot_of (ru_verifier u) f (di_error_key d) hash
             in (hash @ '':'' @ nat_string (ordinal_of (fst st) slot),
                 (slot, Suc (ordinal_of (fst st) slot)) # fst st))
      in (ordinals,
          snd st @ [\<lparr>oc_key = occurrence_key digest (ru_verifier u) d anchor, oc_verifier = ru_verifier u,
             oc_unit = ru_unit u, oc_diagnostic = d, oc_anchor = anchor\<rparr>]))"

definition occurrences_of :: "(string \<Rightarrow> string) \<Rightarrow> (string \<Rightarrow> string) \<Rightarrow> report_unit list \<Rightarrow> report_occurrence list" where
  "occurrences_of digest files units =
     snd (foldl (\<lambda>st u. foldl (occurrence_step digest files u) st (rp_diagnostics (ru_report u))) ([], [])
       (ordered_units units))"

definition members_of :: "report_unit list \<Rightarrow> member_status list" where
  "members_of units =
     concat (List.map (\<lambda>u. List.map (\<lambda>m. \<lparr>mm_verifier = ru_verifier u, mm_unit = ru_unit u, mm_member = m\<rparr>)
       (rp_members (ru_report u))) units)"

text \<open>A byte is its two hexadecimal digits.\<close>

lemma byte_eq:
  "a div 16 mod 16 = b div 16 mod 16 \<Longrightarrow> a mod 16 = b mod 16 \<Longrightarrow> a < 256 \<Longrightarrow> b < 256 \<Longrightarrow> a = (b :: nat)"
proof -
  assume eqs: "a div 16 mod 16 = b div 16 mod 16" "a mod 16 = b mod 16" and small: "a < 256" "b < 256"
  have "a div 16 < 16" "b div 16 < 16" using small by (simp_all add: less_mult_imp_div_less)
  then have "a div 16 = b div 16" using eqs(1) by simp
  then show "a = b" using eqs(2) by (metis div_mult_mod_eq)
qed

end
