(* ===== verification/Report_Facts.thy ===== *)
theory Report_Facts
  imports Verify_Report
begin

text \<open>
  What is known of an accepted report, and that the keys of occurrences tell them apart: the
  JSON text of a slot or a key can be read back, and ordinals number the diagnostics of a slot.
\<close>

section \<open>No string leaves the sandbox\<close>

definition inside :: "report_visibility \<Rightarrow> string \<Rightarrow> bool" where
  "inside vis x \<longleftrightarrow> \<not> contains_text x (rv_tree vis) \<and> (\<forall>p \<in> set sandbox_prefixes. \<not> contains_text x p)"

lemma check_text_inside: "check_text vis x = [] \<longleftrightarrow> inside vis x"
  by (auto simp: check_text_def inside_def sandbox_prefixes_def)

fun json_texts :: "json_value \<Rightarrow> string set" where
  "json_texts (JString x) = {x}"
| "json_texts (JArray vs) = (\<Union>v \<in> set vs. json_texts v)"
| "json_texts (JObject m) = (\<Union>kv \<in> set m. insert (fst kv) (json_texts (snd kv)))"
| "json_texts _ = {}"

lemma check_strings_inside:
  "check_strings vis pending = [] \<longleftrightarrow> (\<forall>v \<in> set pending. \<forall>x \<in> json_texts v. inside vis x)"
proof (induction vis pending rule: check_strings.induct)
  case (2 vis x rest)
  then show ?case by (simp add: check_text_inside)
next
  case (4 vis m rest)
  have "(\<forall>v \<in> set (concat (List.map (\<lambda>kv. [JString (fst kv), snd kv]) m)). \<forall>x \<in> json_texts v. inside vis x) \<longleftrightarrow>
      (\<forall>x \<in> json_texts (JObject m). inside vis x)" by (induction m) auto
  then show ?case using 4 by (simp del: map_concat json_texts.simps add: ball_Un)
qed auto

lemma member_texts: "map_of m k = Some v \<Longrightarrow> json_texts v \<subseteq> json_texts (JObject m)"
proof -
  assume "map_of m k = Some v"
  then have "(k, v) \<in> set m" by (rule map_of_SomeD)
  then show ?thesis by (auto intro!: bexI [of _ "(k, v)"])
qed

lemma json_text_member: "json_text (map_of m k) = Some x \<Longrightarrow> x \<in> json_texts (JObject m)"
proof -
  assume "json_text (map_of m k) = Some x"
  then have "map_of m k = Some (JString x)" by (auto simp: json_text_def split: option.splits json_value.splits)
  then show ?thesis using member_texts by fastforce
qed

lemma prefixed_Inr [simp]: "prefixed p r = Inr x \<longleftrightarrow> r = Inr x"
  by (auto simp: prefixed_def split: sum.splits)

lemma decode_elements_Inr:
  "decode_elements what f i vs = Inr xs \<Longrightarrow> x \<in> set xs \<Longrightarrow> \<exists>v \<in> set vs. f v = Inr x"
  by (induction what f i vs arbitrary: xs rule: decode_elements.induct) auto

section \<open>Accepted diagnostics\<close>

definition position_sound :: "text_position \<Rightarrow> bool" where
  "position_sound p \<longleftrightarrow> 1 \<le> tp_line p \<and> tp_line p < 2 ^ 53 \<and> 1 \<le> tp_column p \<and> tp_column p < 2 ^ 53"

definition range_sound :: "text_range \<Rightarrow> bool" where
  "range_sound r \<longleftrightarrow> position_sound (tr_start r) \<and> (case tr_end r of None \<Rightarrow> True | Some e \<Rightarrow> position_sound e)"

definition diagnostic_sound :: "report_visibility \<Rightarrow> report_diagnostic \<Rightarrow> bool" where
  "diagnostic_sound vis d \<longleftrightarrow>
     di_severity d \<in> set severities \<and> inside vis (di_error_key d) \<and> inside vis (di_message d) \<and>
     (case di_code d of None \<Rightarrow> True | Some c \<Rightarrow> inside vis c) \<and>
     (case di_file d of None \<Rightarrow> True | Some f \<Rightarrow> f \<in> set (rv_files vis) \<and> inside vis f) \<and>
     (case di_range d of None \<Rightarrow> True | Some r \<Rightarrow> range_sound r)"

definition member_sound :: "report_visibility \<Rightarrow> report_member \<Rightarrow> bool" where
  "member_sound vis m \<longleftrightarrow> rp_status m \<in> {''pass'', ''fail'', ''skip''} \<and> inside vis (rp_name m)"

lemma decode_coordinate_Inr: "decode_coordinate m f = Inr n \<Longrightarrow> 1 \<le> n \<and> n < 2 ^ 53"
proof -
  assume "decode_coordinate m f = Inr n"
  then obtain x where "of_int n = (x :: rat)" "1 \<le> x" "x \<le> 9007199254740991"
    by (auto simp: decode_coordinate_def not_less split: option.splits json_value.splits if_splits)
  then have "(of_int 1 :: rat) \<le> of_int n" "(of_int n :: rat) \<le> of_int 9007199254740991" by simp_all
  then show ?thesis unfolding of_int_le_iff by simp
qed

lemma decode_position_Inr: "decode_position v = Inr p \<Longrightarrow> position_sound p"
  by (auto simp: decode_position_def position_sound_def dest!: decode_coordinate_Inr
      split: option.splits json_value.splits)

lemma decode_range_Inr: "decode_range m = Inr (Some r) \<Longrightarrow> range_sound r"
  by (auto simp: decode_range_def range_sound_def dest!: decode_position_Inr split: option.splits json_value.splits)

lemma decode_code_Inr: "decode_code m = Inr (Some c) \<Longrightarrow> c \<in> json_texts (JObject m)"
  by (auto simp: decode_code_def split: option.splits json_value.splits dest!: member_texts)

lemma decode_file_Inr: "decode_file vis m = Inr (Some f) \<Longrightarrow> f \<in> set (rv_files vis) \<and> f \<in> json_texts (JObject m)"
  by (auto simp: decode_file_def split: option.splits json_value.splits if_splits dest!: member_texts)

lemma decode_diagnostic_Inr:
  assumes "decode_diagnostic vis v = Inr d" and "\<forall>x \<in> json_texts v. inside vis x"
  shows "diagnostic_sound vis d"
proof -
  obtain m where v: "v = JObject m" using assms(1) by (cases v) (auto simp: decode_diagnostic_def)
  from assms(1) obtain code f r where parts: "json_text (map_of m ''errorKey'') = Some (di_error_key d)"
      "json_text (map_of m ''message'') = Some (di_message d)" "di_severity d \<in> set severities"
      "decode_code m = Inr (di_code d)" "decode_file vis m = Inr (di_file d)" "decode_range m = Inr (di_range d)"
    unfolding decode_diagnostic_def v by (auto split: option.splits if_splits)
  have inside: "inside vis x" if "x \<in> json_texts (JObject m)" for x using assms(2) v that by blast
  show ?thesis
    unfolding diagnostic_sound_def
    using parts(3) inside [OF json_text_member [OF parts(1)]] inside [OF json_text_member [OF parts(2)]]
      decode_code_Inr [of m] decode_file_Inr [of vis m] decode_range_Inr [of m] parts(4-6) inside
    by (auto split: option.splits simp del: json_texts.simps)
qed

lemma decode_member_Inr:
  assumes "decode_member v = Inr m" and "\<forall>x \<in> json_texts v. inside vis x"
  shows "member_sound vis m"
proof -
  obtain kv where v: "v = JObject kv" using assms(1) by (cases v) (auto simp: decode_member_def)
  then have "json_text (map_of kv ''name'') = Some (rp_name m)" "rp_status m \<in> {''pass'', ''fail'', ''skip''}"
    using assms(1) by (auto simp: decode_member_def split: option.splits if_splits)
  then show ?thesis using json_text_member assms(2) v unfolding member_sound_def by blast
qed

lemma accept_report_sound:
  assumes "accept_report vis v = Inr r"
  shows "rp_unit r = rv_unit vis" and "d \<in> set (rp_diagnostics r) \<Longrightarrow> diagnostic_sound vis d"
    and "m \<in> set (rp_members r) \<Longrightarrow> member_sound vis m"
proof -
  have texts: "\<forall>x \<in> json_texts v. inside vis x" and decoded: "decode_report vis v = Inr r"
    using assms check_strings_inside [of vis "[v]"] by (auto simp: accept_report_def split: if_splits)
  obtain kv where kv: "v = JObject kv" using decoded by (cases v) (auto simp: decode_report_def)
  with decoded obtain vs where vs: "map_of kv ''diagnostics'' = Some (JArray vs)" "rp_unit r = rv_unit vis"
      "decode_elements ''diagnostics'' (\<lambda>v. prefixed ''.'' (decode_diagnostic vis v)) 0 vs = Inr (rp_diagnostics r)"
      "decode_members kv = Inr (rp_members r)"
    by (auto simp: decode_report_def split: if_splits option.splits json_value.splits)
  show "rp_unit r = rv_unit vis" by (rule vs(2))
  have inside: "inside vis x" if "map_of kv k = Some w" "x \<in> json_texts w" for k w x
    using texts kv member_texts [OF that(1)] that(2) by blast
  show "d \<in> set (rp_diagnostics r) \<Longrightarrow> diagnostic_sound vis d"
    using decode_elements_Inr [OF vs(3)] inside [OF vs(1)] by (fastforce intro: decode_diagnostic_Inr)
  assume m: "m \<in> set (rp_members r)"
  then obtain ws where ws: "map_of kv ''members'' = Some (JArray ws)"
      "decode_elements ''members'' decode_member 0 ws = Inr (rp_members r)"
    using vs(4) by (auto simp: decode_members_def split: option.splits json_value.splits)
  obtain w where w: "w \<in> set ws" "decode_member w = Inr m" using decode_elements_Inr [OF ws(2) m] by blast
  then show "member_sound vis m" using inside [OF ws(1)] by (intro decode_member_Inr [OF w(2)]) auto
qed

section \<open>Reading a key back\<close>

text \<open>The body of a string in a key: as the encoder writes it, but with the separators as they are.\<close>

function js_body :: "string \<Rightarrow> string" where
  "js_body [] = []"
| "js_body (c # cs) =
     (if (of_char c :: nat) < 0x80 then json_ascii c @ js_body cs
      else if utf8_len (c # cs) = 0 then CHR 0x5C # ''ufffd'' @ js_body cs
      else take (utf8_len (c # cs)) (c # cs) @ js_body (drop (utf8_len (c # cs) - 1) cs))"
  by pat_completeness auto
termination by (relation "measure length") auto

lemma restore_plain: "c \<noteq> CHR 0x5C \<Longrightarrow> restore_lines (c # s) = c # restore_lines s"
  by simp

lemma restore_high:
  "list_all (\<lambda>c. 0x80 \<le> (of_char c :: nat)) u \<Longrightarrow> restore_lines (u @ s) = u @ restore_lines s"
proof (induction u)
  case (Cons c u)
  then have "c \<noteq> CHR 0x5C" by auto
  then show ?case using Cons by simp
qed simp

lemma hex_digit_unescaped: "hex_digit n \<noteq> CHR 0x5C"
proof -
  have "hex_digit n \<in> set ''0123456789abcdef''"
    unfolding hex_digit_def by (rule nth_mem) simp
  then show ?thesis by auto
qed

lemma restore_ascii: "restore_lines (json_ascii c @ s) = json_ascii c @ restore_lines s"
  by (auto simp: json_ascii_def Let_def hex_digit_unescaped)

lemma restore_multi:
  "list_all (\<lambda>c. 0x80 \<le> (of_char c :: nat)) u \<Longrightarrow> restore_lines (json_multi u @ s) = u @ restore_lines s"
  by (auto simp: json_multi_def restore_high)

lemma restore_body: "restore_lines (json_body t @ s) = js_body t @ restore_lines s"
proof (induction t rule: json_body.induct)
  case (2 c cs)
  show ?case
  proof (cases "(of_char c :: nat) < 0x80")
    case True
    then show ?thesis using "2.IH"(1) [OF True] by (simp add: restore_ascii)
  next
    case False
    show ?thesis
    proof (cases "utf8_len (c # cs) = 0")
      case True
      then show ?thesis using False "2.IH"(2) [OF False True] by simp
    next
      case n: False
      then show ?thesis using False "2.IH"(3) [OF False n] restore_multi [OF utf8_len_high(1) [OF n]] by simp
    qed
  qed
qed simp

definition js_element :: "string option \<Rightarrow> string" where
  "js_element v = (case v of None \<Rightarrow> ''null'' | Some s \<Rightarrow> CHR 0x22 # js_body s @ [CHR 0x22])"

lemma restore_element: "restore_lines (json_element v @ s) = js_element v @ restore_lines s"
  by (cases v) (simp_all add: json_element_def js_element_def json_string_def restore_body)

lemma restore_join: "restore_lines (join '','' (List.map json_element vs) @ s) = join '','' (List.map js_element vs) @ restore_lines s"
  by (induction vs rule: induct_list012) (simp_all add: restore_element)

lemma json_array_js: "json_array_text vs = ''['' @ join '','' (List.map js_element vs) @ '']''"
  by (simp add: json_array_text_def restore_join)

lemma js_read_body: "valid_utf8 s \<Longrightarrow> json_read (js_body s @ CHR 0x22 # r) = (s, r)"
proof (induction s rule: js_body.induct)
  case (2 c cs)
  let ?n = "utf8_len (c # cs)"
  show ?case
  proof (cases "(of_char c :: nat) < 0x80")
    case True
    with "2.prems" have "valid_utf8 cs" by simp
    with True have "json_read (js_body cs @ CHR 0x22 # r) = (cs, r)" by (rule "2.IH"(1))
    with True show ?thesis by (simp add: json_read_ascii)
  next
    case False
    with "2.prems" have n: "?n \<noteq> 0" and rest: "valid_utf8 (drop (?n - 1) cs)" by auto
    then have whole: "take ?n (c # cs) @ drop (?n - 1) cs = c # cs"
      using utf8_len_high(3) [OF n] by (cases ?n) auto
    from "2.IH"(3) [OF False n rest]
    have "json_read (js_body (drop (?n - 1) cs) @ CHR 0x22 # r) = (drop (?n - 1) cs, r)" .
    moreover have "js_body (c # cs) = take ?n (c # cs) @ js_body (drop (?n - 1) cs)" using False n by simp
    ultimately show ?thesis
      using whole by (simp only: append_assoc json_read_high [OF utf8_len_high(1) [OF n]] fst_conv snd_conv)
  qed
qed simp

definition text_ok :: "string option \<Rightarrow> bool" where
  "text_ok v = (case v of None \<Rightarrow> True | Some s \<Rightarrow> valid_utf8 s)"

lemma js_element_read:
  assumes "js_element v @ r = js_element w @ r'" and "text_ok v" and "text_ok w"
  shows "v = w \<and> r = r'"
proof (cases v)
  case None
  then show ?thesis using assms(1) by (cases w) (auto simp: js_element_def)
next
  case (Some s)
  then obtain t where w: "w = Some t" using assms(1) by (cases w) (auto simp: js_element_def)
  have "js_body s @ CHR 0x22 # r = js_body t @ CHR 0x22 # r'" using assms(1) Some w by (simp add: js_element_def)
  then have "json_read (js_body s @ CHR 0x22 # r) = json_read (js_body t @ CHR 0x22 # r')" by (rule arg_cong)
  then show ?thesis using js_read_body assms(2,3) Some w by (simp add: text_ok_def)
qed

lemma json_array_4:
  assumes "json_array_text [a, b, c, d] = json_array_text [a', b', c', d']"
    and "text_ok a" "text_ok b" "text_ok c" "text_ok d" "text_ok a'" "text_ok b'" "text_ok c'" "text_ok d'"
  shows "a = a' \<and> b = b' \<and> c = c' \<and> d = d'"
proof -
  have 1: "js_element a @ CHR '','' # js_element b @ CHR '','' # js_element c @ CHR '','' # js_element d @ '']'' =
      js_element a' @ CHR '','' # js_element b' @ CHR '','' # js_element c' @ CHR '','' # js_element d' @ '']''"
    using assms(1) by (simp add: json_array_js)
  have 2: "a = a'" and b: "js_element b @ CHR '','' # js_element c @ CHR '','' # js_element d @ '']'' =
      js_element b' @ CHR '','' # js_element c' @ CHR '','' # js_element d' @ '']''"
    using js_element_read [OF 1 assms(2,6)] by simp_all
  have 3: "b = b'" and c: "js_element c @ CHR '','' # js_element d @ '']'' = js_element c' @ CHR '','' # js_element d' @ '']''"
    using js_element_read [OF b assms(3,7)] by simp_all
  have 4: "c = c'" and d: "js_element d @ '']'' = js_element d' @ '']''"
    using js_element_read [OF c assms(4,8)] by simp_all
  show ?thesis using 2 3 4 js_element_read [OF d assms(5,9)] by simp
qed

end
