(* ===== verification/Report_Keys.thy ===== *)
theory Report_Keys
  imports Report_Facts "HOL-Library.Multiset"
begin

text \<open>
  The keys of occurrences. The digest is taken to be injective with hexadecimal values; under
  that hypothesis two occurrences have the same key only if both have no file and agree in
  verifier, error key and unit.
\<close>

definition hex_text :: "string \<Rightarrow> bool" where
  "hex_text s \<longleftrightarrow> list_all (\<lambda>c. is_digit c \<or> c \<in> set ''abcdef'') s"

definition digest_ok :: "(string \<Rightarrow> string) \<Rightarrow> bool" where
  "digest_ok digest \<longleftrightarrow> inj digest \<and> (\<forall>x. hex_text (digest x))"

definition diagnostic_texts_ok :: "report_diagnostic \<Rightarrow> bool" where
  "diagnostic_texts_ok d \<longleftrightarrow> valid_utf8 (di_error_key d) \<and> text_ok (di_file d)"

definition unit_texts_ok :: "report_unit \<Rightarrow> bool" where
  "unit_texts_ok u \<longleftrightarrow> valid_utf8 (ru_verifier u) \<and> valid_utf8 (ru_unit u) \<and>
     list_all diagnostic_texts_ok (rp_diagnostics (ru_report u))"

lemma valid_ascii: "list_all (\<lambda>c. (of_char c :: nat) < 0x80) s \<Longrightarrow> valid_utf8 s"
  by (induction s) auto

lemma hex_ascii: "hex_text s \<Longrightarrow> list_all (\<lambda>c. (of_char c :: nat) < 0x80) s"
  by (auto simp: hex_text_def list_all_iff is_digit_iff)

lemma nat_string_ascii: "list_all (\<lambda>c. (of_char c :: nat) < 0x80) (nat_string n)"
proof (induction n rule: nat_string.induct)
  case (1 n)
  then show ?case by (subst nat_string.simps) auto
qed

definition line_anchor :: "string \<Rightarrow> nat \<Rightarrow> string" where
  "line_anchor hash n = hash @ '':'' @ nat_string n"

lemma line_anchor_valid: "hex_text hash \<Longrightarrow> valid_utf8 (line_anchor hash n)"
  unfolding line_anchor_def by (intro valid_ascii) (simp add: hex_ascii nat_string_ascii)

lemma nat_string_inj: "nat_string m = nat_string n \<Longrightarrow> m = n"
  by (metis decimal_nat_string option.inject)

lemma line_anchor_inj:
  assumes "line_anchor h m = line_anchor h' n" and "hex_text h" and "hex_text h'"
  shows "h = h' \<and> m = n"
proof -
  have "CHR '':'' \<notin> set h" "CHR '':'' \<notin> set h'" using assms(2,3) by (auto simp: hex_text_def list_all_iff is_digit_def)
  then have "(h, nat_string m, True) = (h', nat_string n, True)"
    using assms(1) cut_append unfolding line_anchor_def by (metis append_Cons append_Nil)
  then show ?thesis using nat_string_inj by blast
qed

text \<open>The line hash of a diagnostic with a file.\<close>

definition line_hash :: "(string \<Rightarrow> string) \<Rightarrow> (string \<Rightarrow> string) \<Rightarrow> report_diagnostic \<Rightarrow> string \<Rightarrow> string" where
  "line_hash digest files d f = line_digest digest (files f) (start_line d)"

lemma line_hash_hex: "digest_ok digest \<Longrightarrow> hex_text (line_hash digest files d f)"
  by (auto simp: line_hash_def line_digest_def digest_ok_def split: option.split)

text \<open>One occurrence, given the ordinals so far.\<close>

definition occurrence_ok :: "(string \<Rightarrow> string) \<Rightarrow> (string \<Rightarrow> nat) \<Rightarrow> report_occurrence \<Rightarrow> bool" where
  "occurrence_ok digest ord r \<longleftrightarrow>
     oc_key r = occurrence_key digest (oc_verifier r) (oc_diagnostic r) (oc_anchor r) \<and>
     valid_utf8 (oc_verifier r) \<and> valid_utf8 (oc_anchor r) \<and> diagnostic_texts_ok (oc_diagnostic r) \<and>
     (case di_file (oc_diagnostic r) of
        None \<Rightarrow> oc_anchor r = oc_unit r
      | Some f \<Rightarrow> \<exists>hash n. hex_text hash \<and> oc_anchor r = line_anchor hash n \<and>
          n < ord (slot_of (oc_verifier r) f (di_error_key (oc_diagnostic r)) hash))"

lemma occurrence_ok_mono: "occurrence_ok digest ord r \<Longrightarrow> (\<And>s. ord s \<le> ord' s) \<Longrightarrow> occurrence_ok digest ord' r"
  unfolding occurrence_ok_def by (fastforce split: option.splits intro: less_le_trans)

definition same_fileless :: "report_occurrence \<Rightarrow> report_occurrence \<Rightarrow> bool" where
  "same_fileless r r' \<longleftrightarrow>
     di_file (oc_diagnostic r) = None \<and> di_file (oc_diagnostic r') = None \<and> oc_verifier r = oc_verifier r' \<and>
     di_error_key (oc_diagnostic r) = di_error_key (oc_diagnostic r') \<and> oc_unit r = oc_unit r'"

lemma same_key_parts:
  assumes "digest_ok digest" and "occurrence_ok digest ord r" and "occurrence_ok digest ord' r'" and "oc_key r = oc_key r'"
  shows "oc_verifier r = oc_verifier r' \<and> di_error_key (oc_diagnostic r) = di_error_key (oc_diagnostic r') \<and>
    di_file (oc_diagnostic r) = di_file (oc_diagnostic r') \<and> oc_anchor r = oc_anchor r'"
proof -
  have "json_array_text [Some (oc_verifier r), Some (di_error_key (oc_diagnostic r)), di_file (oc_diagnostic r), Some (oc_anchor r)] =
      json_array_text [Some (oc_verifier r'), Some (di_error_key (oc_diagnostic r')), di_file (oc_diagnostic r'), Some (oc_anchor r')]"
    using assms unfolding occurrence_ok_def occurrence_key_def digest_ok_def inj_def by metis
  from json_array_4 [OF this] show ?thesis
    using assms(2,3) by (simp add: occurrence_ok_def diagnostic_texts_ok_def text_ok_def)
qed

text \<open>The state of the loop over diagnostics.\<close>

definition keys_ok :: "(string \<Rightarrow> string) \<Rightarrow> (string \<times> nat) list \<times> report_occurrence list \<Rightarrow> bool" where
  "keys_ok digest st \<longleftrightarrow>
     (\<forall>r \<in> set (snd st). occurrence_ok digest (ordinal_of (fst st)) r) \<and>
     sorted_wrt (\<lambda>r r'. oc_key r = oc_key r' \<longrightarrow> same_fileless r r') (snd st)"

lemma ordinal_of_simps [simp]:
  "ordinal_of ((s, n) # m) t = (if s = t then n else ordinal_of m t)"
  by (simp add: ordinal_of_def)

lemma occurrence_step_ok:
  assumes "keys_ok digest st" and "digest_ok digest" and "valid_utf8 (ru_verifier u)" "valid_utf8 (ru_unit u)"
    and "diagnostic_texts_ok d"
  shows "keys_ok digest (occurrence_step digest files u st d)"
proof -
  obtain ord rs where st: "st = (ord, rs)" by (cases st)
  have old: "occurrence_ok digest (ordinal_of ord) r" if "r \<in> set rs" for r using assms(1) that by (simp add: keys_ok_def st)
  show ?thesis
    unfolding st
  proof (cases "di_file d")
    case None
    define r where "r = \<lparr>oc_key = occurrence_key digest (ru_verifier u) d (ru_unit u), oc_verifier = ru_verifier u,
        oc_unit = ru_unit u, oc_diagnostic = d, oc_anchor = ru_unit u\<rparr>"
    have step: "occurrence_step digest files u (ord, rs) d = (ord, rs @ [r])"
      using None by (simp add: occurrence_step_def st r_def)
    have r: "occurrence_ok digest (ordinal_of ord) r" using assms(3-5) None by (simp add: occurrence_ok_def r_def)
    have "same_fileless q r" if "q \<in> set rs" "oc_key q = oc_key r" for q
    proof -
      note parts = same_key_parts [OF assms(2) old [OF that(1)] r that(2)]
      then have "oc_anchor q = oc_unit q" using old [OF that(1)] None by (simp add: occurrence_ok_def r_def)
      then show ?thesis using parts None by (simp add: same_fileless_def r_def)
    qed
    then show "keys_ok digest (occurrence_step digest files u (ord, rs) d)"
      using assms(1) r by (auto simp: keys_ok_def step st sorted_wrt_append)
  next
    case (Some f)
    let ?hash = "line_hash digest files d f"
    let ?slot = "slot_of (ru_verifier u) f (di_error_key d) ?hash"
    define ord' where "ord' = (?slot, Suc (ordinal_of ord ?slot)) # ord"
    define anchor where "anchor = line_anchor ?hash (ordinal_of ord ?slot)"
    define r where "r = \<lparr>oc_key = occurrence_key digest (ru_verifier u) d anchor, oc_verifier = ru_verifier u,
        oc_unit = ru_unit u, oc_diagnostic = d, oc_anchor = anchor\<rparr>"
    have step: "occurrence_step digest files u (ord, rs) d = (ord', rs @ [r])"
      using Some by (simp add: occurrence_step_def st r_def ord'_def anchor_def line_anchor_def line_hash_def Let_def)
    have grows: "ordinal_of ord s \<le> ordinal_of ord' s" for s by (simp add: ord'_def)
    have r: "occurrence_ok digest (ordinal_of ord') r"
      using assms(3-5) Some line_hash_hex [OF assms(2)] line_anchor_valid
      by (auto simp: occurrence_ok_def r_def anchor_def ord'_def)
    have "oc_key q \<noteq> oc_key r" if q: "q \<in> set rs" for q
    proof
      assume "oc_key q = oc_key r"
      note parts = same_key_parts [OF assms(2) old [OF q] r this]
      then obtain hash n where n: "hex_text hash" "oc_anchor q = line_anchor hash n"
          "n < ordinal_of ord (slot_of (oc_verifier q) f (di_error_key (oc_diagnostic q)) hash)"
        using old [OF q] Some by (auto simp: occurrence_ok_def r_def)
      then have "line_anchor hash n = anchor" using parts by (simp add: r_def)
      then have "hash = ?hash" "n = ordinal_of ord ?slot"
        using line_anchor_inj n(1) line_hash_hex [OF assms(2)] unfolding anchor_def by blast+
      then show False using n(3) parts by (simp add: r_def)
    qed
    then show "keys_ok digest (occurrence_step digest files u (ord, rs) d)"
      using assms(1) r old grows by (auto simp: keys_ok_def step st sorted_wrt_append intro: occurrence_ok_mono)
  qed
qed

lemma occurrences_ok:
  assumes "digest_ok digest" and "\<forall>u \<in> set units. unit_texts_ok u" and "keys_ok digest st"
  shows "keys_ok digest (foldl (\<lambda>st u. foldl (occurrence_step digest files u) st (rp_diagnostics (ru_report u))) st units)"
  using assms(2,3)
proof (induction units arbitrary: st)
  case (Cons u units)
  have u: "valid_utf8 (ru_verifier u)" "valid_utf8 (ru_unit u)" "list_all diagnostic_texts_ok (rp_diagnostics (ru_report u))"
    using Cons.prems(1) by (simp_all add: unit_texts_ok_def)
  have inner: "keys_ok digest (foldl (occurrence_step digest files u) st ds)"
    if "keys_ok digest st" "list_all diagnostic_texts_ok ds" for ds st
    using that
  proof (induction ds arbitrary: st)
    case (Cons d ds)
    from occurrence_step_ok [OF Cons.prems(1) assms(1) u(1,2)] Cons.prems(2)
    have "keys_ok digest (occurrence_step digest files u st d)" by simp
    from Cons.IH [OF this] Cons.prems(2) show ?case by simp
  qed simp
  show ?case using Cons.IH [OF _ inner [OF Cons.prems(2) u(3)]] Cons.prems(1) by simp
qed simp

lemma occurrences_keys:
  assumes "digest_ok digest" and "\<forall>u \<in> set units. unit_texts_ok u"
  shows "sorted_wrt (\<lambda>r r'. oc_key r = oc_key r' \<longrightarrow> same_fileless r r') (occurrences_of digest files units)"
proof -
  have "keys_ok digest ([], [])" by (simp add: keys_ok_def)
  from occurrences_ok [OF assms(1) _ this, of "ordered_units units"] assms(2) show ?thesis
    by (simp add: ordered_units_def occurrences_of_def keys_ok_def)
qed

lemma filed_keys_distinct:
  "sorted_wrt (\<lambda>c c'. oc_key c = oc_key c' \<longrightarrow> same_fileless c c') cs \<Longrightarrow>
     list_all (\<lambda>c. di_file (oc_diagnostic c) \<noteq> None) cs \<Longrightarrow> distinct (List.map oc_key cs)"
  by (induction cs) (auto simp: same_fileless_def)

text \<open>Every diagnostic of every unit becomes one occurrence.\<close>

lemma occurrence_step_told:
  "List.map (\<lambda>r. (oc_verifier r, oc_unit r, oc_diagnostic r)) (snd (occurrence_step digest files u st d)) =
     List.map (\<lambda>r. (oc_verifier r, oc_unit r, oc_diagnostic r)) (snd st) @ [(ru_verifier u, ru_unit u, d)]"
  by (simp add: occurrence_step_def Let_def split: option.split)

definition unit_facts :: "report_unit \<Rightarrow> (string \<times> string \<times> report_diagnostic) list" where
  "unit_facts u = List.map (\<lambda>d. (ru_verifier u, ru_unit u, d)) (rp_diagnostics (ru_report u))"

lemma occurrences_told:
  "List.map (\<lambda>r. (oc_verifier r, oc_unit r, oc_diagnostic r)) (occurrences_of digest files units) =
     concat (List.map unit_facts (ordered_units units))"
proof -
  have inner: "List.map (\<lambda>r. (oc_verifier r, oc_unit r, oc_diagnostic r)) (snd (foldl (occurrence_step digest files u) st ds)) =
      List.map (\<lambda>r. (oc_verifier r, oc_unit r, oc_diagnostic r)) (snd st) @ List.map (\<lambda>d. (ru_verifier u, ru_unit u, d)) ds"
    for u st ds by (induction ds arbitrary: st) (simp_all add: occurrence_step_told)
  have "List.map (\<lambda>r. (oc_verifier r, oc_unit r, oc_diagnostic r))
      (snd (foldl (\<lambda>st u. foldl (occurrence_step digest files u) st (rp_diagnostics (ru_report u))) st us)) =
      List.map (\<lambda>r. (oc_verifier r, oc_unit r, oc_diagnostic r)) (snd st) @ concat (List.map unit_facts us)" for us st
    by (induction us arbitrary: st) (simp_all add: inner unit_facts_def)
  from this [of "([], [])" "ordered_units units"] show ?thesis by (simp add: occurrences_of_def)
qed

section \<open>A digest that can be used\<close>

text \<open>The hexadecimal text of the bytes themselves has the two properties asked of the digest.\<close>

definition plain_hex :: "string \<Rightarrow> string" where
  "plain_hex s = concat (List.map (\<lambda>c. [hex_digit (of_char c div 16), hex_digit (of_char c)]) s)"

lemma hex_digit_inj: "hex_digit m = hex_digit n \<Longrightarrow> m mod 16 = n mod 16"
proof -
  have "distinct ''0123456789abcdef''" by simp
  then show "hex_digit m = hex_digit n \<Longrightarrow> m mod 16 = n mod 16"
    unfolding hex_digit_def by (subst (asm) nth_eq_iff_index_eq) auto
qed

lemma plain_hex_inj: "plain_hex s = plain_hex t \<Longrightarrow> s = t"
proof (induction s arbitrary: t)
  case Nil
  then show ?case by (cases t) (simp_all add: plain_hex_def)
next
  case (Cons c s)
  then obtain d u where t: "t = d # u" by (cases t) (auto simp: plain_hex_def)
  have parts: "hex_digit (of_char c div 16) = hex_digit (of_char d div 16)" "hex_digit (of_char c) = hex_digit (of_char d)"
      "plain_hex s = plain_hex u" using Cons.prems by (simp_all add: plain_hex_def t)
  have small: "(of_char c :: nat) < 256" "(of_char d :: nat) < 256" by simp_all
  have "of_char c div 16 mod 16 = (of_char d div 16 mod 16 :: nat)" "of_char c mod 16 = (of_char d mod 16 :: nat)"
    using hex_digit_inj [OF parts(1)] hex_digit_inj [OF parts(2)] by simp_all
  then have "(of_char c :: nat) = of_char d" using small by (rule byte_eq)
  then show ?case using t Cons.IH [OF parts(3)] by simp
qed

lemma hex_digit_hex: "is_digit (hex_digit n) \<or> hex_digit n \<in> set ''abcdef''"
proof -
  have "hex_digit n \<in> set ''0123456789abcdef''" unfolding hex_digit_def by (rule nth_mem) simp
  then show ?thesis by (auto simp: is_digit_def)
qed

lemma plain_hex_ok: "digest_ok plain_hex"
proof -
  have "hex_text (plain_hex x)" for x
    by (induction x) (use hex_digit_hex in \<open>auto simp: hex_text_def plain_hex_def\<close>)
  then show ?thesis using plain_hex_inj by (auto simp: digest_ok_def inj_def)
qed

end
