(* ===== verification/Verify_Observe.thy ===== *)
theory Verify_Observe
  imports Workbench_Prelude
begin

text \<open>
  Folding selections and outcomes into an observation
  (\<^verbatim>\<open>internal/verify/observe/observe.go\<close>). Go maps that are only looked up are functions to
  options; the outputs of an attestation are an association list, read with the empty string
  for an absent key.
\<close>

section \<open>Data\<close>

record requirement =
  rm_name :: string
  rm_verifier :: string

record verifier_meta =
  vm_id :: string
  vm_version :: string
  vm_noun :: string
  vm_produces :: string
  vm_requires :: "requirement list"

record selected_unit =
  su_id :: string
  su_inputs :: "string list"

record unit_selection =
  sl_units :: "selected_unit list"
  sl_unknown :: string

record unit_attestation =
  ua_key :: string
  ua_verifier :: string
  ua_version :: string
  ua_unit :: string
  ua_exit :: int
  ua_outputs :: "(string \<times> string) list"

record unit_provenance =
  pv_recomputed :: bool
  pv_carried :: string

record unit_outcome =
  uo_kind :: string
  uo_attestation :: "unit_attestation option"
  uo_provenance :: unit_provenance
  uo_reason :: string
  uo_scratch :: string
  uo_audit :: string

record unit_result =
  ur_verifier :: string
  ur_unit :: string
  ur_display :: string
  ur_key :: string
  ur_attestation :: unit_attestation
  ur_provenance :: unit_provenance
  ur_scratch :: string
  ur_audit :: string

record unknown_unit =
  uk_verifier :: string
  uk_unit :: string
  uk_display :: string
  uk_reason :: string

record tree_observation =
  to_tree :: string
  to_verifiers :: "verifier_meta list"
  to_results :: "unit_result list"
  to_unknown :: "unknown_unit list"
  to_complete :: bool

definition all_units :: string where
  "all_units = ''*''"

definition lookup_text :: "(string \<times> string) list \<Rightarrow> string \<Rightarrow> string" where
  "lookup_text m k = (case map_of m k of None \<Rightarrow> [] | Some v \<Rightarrow> v)"

section \<open>Outcomes\<close>

definition outcome_reason :: "verifier_meta \<Rightarrow> selected_unit \<Rightarrow> unit_outcome \<Rightarrow> string" where
  "outcome_reason v u oc =
     (if uo_kind oc \<in> {''refused'', ''tool-failure'', ''unknown''} then
        (if uo_reason oc \<noteq> [] then uo_reason oc else uo_kind oc)
      else if uo_kind oc = ''attested'' then
        (case uo_attestation oc of
           None \<Rightarrow> ''invalid attestation''
         | Some a \<Rightarrow>
             if ua_key a = [] \<or> ua_verifier a \<noteq> vm_id v \<or> ua_version a \<noteq> vm_version v \<or>
                ua_unit a \<noteq> su_id u \<or> ua_exit a \<noteq> 0
             then ''invalid attestation''
             else if pv_recomputed (uo_provenance oc) = (pv_carried (uo_provenance oc) \<noteq> [])
             then ''invalid provenance''
             else if vm_produces v = ''artifact'' \<and> lookup_text (ua_outputs a) ''artifact'' = []
             then ''attestation has no artifact''
             else if vm_produces v = ''report'' \<and> lookup_text (ua_outputs a) ''report.json'' = []
             then ''attestation has no report.json''
             else [])
      else ''invalid outcome kind'')"

section \<open>The fold\<close>

record fold_state =
  fo_results :: "unit_result list"
  fo_unknown :: "unknown_unit list"
  fo_complete :: bool
  fo_artifacts :: "(string \<times> string) list"

definition unit_result_of :: "verifier_meta \<Rightarrow> selected_unit \<Rightarrow> unit_outcome \<Rightarrow> unit_attestation \<Rightarrow> unit_result" where
  "unit_result_of v u oc a =
     \<lparr>ur_verifier = vm_id v, ur_unit = su_id u, ur_display = su_id u, ur_key = ua_key a, ur_attestation = a,
      ur_provenance = uo_provenance oc, ur_scratch = uo_scratch oc, ur_audit = uo_audit oc\<rparr>"

definition unknown_for :: "verifier_meta \<Rightarrow> string \<Rightarrow> selected_unit \<Rightarrow> unknown_unit" where
  "unknown_for v reason u = \<lparr>uk_verifier = vm_id v, uk_unit = su_id u, uk_display = su_id u, uk_reason = reason\<rparr>"

definition fold_unit ::
    "(string \<times> string \<Rightarrow> unit_outcome option) \<Rightarrow> verifier_meta \<Rightarrow> fold_state \<Rightarrow> selected_unit \<Rightarrow> fold_state" where
  "fold_unit outcomes v st u =
     (case outcomes (vm_id v, su_id u) of
        None \<Rightarrow> st\<lparr>fo_complete := False\<rparr>
      | Some oc \<Rightarrow>
          if outcome_reason v u oc \<noteq> []
          then st\<lparr>fo_unknown := fo_unknown st @ [unknown_for v (outcome_reason v u oc) u]\<rparr>
          else case uo_attestation oc of
              None \<Rightarrow> st
            | Some a \<Rightarrow> st\<lparr>fo_results := fo_results st @ [unit_result_of v u oc a]\<rparr>)"

text \<open>Why a verifier could not run: its upstreams without an artifact, else its failed selection.\<close>

definition blocked_by :: "fold_state \<Rightarrow> verifier_meta \<Rightarrow> string list" where
  "blocked_by st v =
     List.map (\<lambda>q. ''upstream '' @ rm_verifier q @ '' unknown'')
       (filter (\<lambda>q. lookup_text (fo_artifacts st) (rm_verifier q) = []) (vm_requires v))"

definition selection_of :: "(string \<Rightarrow> unit_selection option) \<Rightarrow> verifier_meta \<Rightarrow> unit_selection" where
  "selection_of selections v =
     (case selections (vm_id v) of None \<Rightarrow> \<lparr>sl_units = [], sl_unknown = []\<rparr> | Some s \<Rightarrow> s)"

definition fold_reason :: "(string \<Rightarrow> unit_selection option) \<Rightarrow> fold_state \<Rightarrow> verifier_meta \<Rightarrow> string" where
  "fold_reason selections st v =
     (if join ''; '' (blocked_by st v) = [] then sl_unknown (selection_of selections v)
      else join ''; '' (blocked_by st v))"

definition fold_unknowns :: "unit_selection \<Rightarrow> verifier_meta \<Rightarrow> string \<Rightarrow> unknown_unit list" where
  "fold_unknowns s v reason =
     (if sl_units s = []
      then [\<lparr>uk_verifier = vm_id v, uk_unit = all_units, uk_display = ''every '' @ vm_noun v, uk_reason = reason\<rparr>]
      else List.map (unknown_for v reason) (sl_units s))"

definition note_artifact :: "unit_selection \<Rightarrow> verifier_meta \<Rightarrow> nat \<Rightarrow> fold_state \<Rightarrow> fold_state" where
  "note_artifact s v start st =
     (if vm_produces v = ''artifact'' \<and> length (sl_units s) = 1 \<and> length (fo_results st) - start = 1
      then st\<lparr>fo_artifacts :=
        (vm_id v, lookup_text (ua_outputs (ur_attestation (fo_results st ! start))) ''artifact'') # fo_artifacts st\<rparr>
      else st)"

definition fold_verifier ::
    "(string \<Rightarrow> unit_selection option) \<Rightarrow> (string \<times> string \<Rightarrow> unit_outcome option) \<Rightarrow>
     fold_state \<Rightarrow> verifier_meta \<Rightarrow> fold_state" where
  "fold_verifier selections outcomes st v =
     (let s = selection_of selections v; reason = fold_reason selections st v
      in if reason \<noteq> [] then st\<lparr>fo_unknown := fo_unknown st @ fold_unknowns s v reason\<rparr>
         else if selections (vm_id v) = None then st\<lparr>fo_complete := False\<rparr>
         else note_artifact s v (length (fo_results st)) (foldl (fold_unit outcomes v) st (sl_units s)))"

definition fold_start :: fold_state where
  "fold_start = \<lparr>fo_results = [], fo_unknown = [], fo_complete = True, fo_artifacts = []\<rparr>"

definition fold_observation ::
    "string \<Rightarrow> verifier_meta list \<Rightarrow> (string \<Rightarrow> unit_selection option) \<Rightarrow>
     (string \<times> string \<Rightarrow> unit_outcome option) \<Rightarrow> tree_observation" where
  "fold_observation tree ordered selections outcomes =
     (let st = foldl (fold_verifier selections outcomes) fold_start ordered
      in \<lparr>to_tree = tree, to_verifiers = List.map (\<lambda>v. v\<lparr>vm_requires := []\<rparr>) ordered,
          to_results = fo_results st, to_unknown = fo_unknown st, to_complete = fo_complete st\<rparr>)"

section \<open>What one verifier contributes\<close>

text \<open>An outcome that may become a result.\<close>

definition attests :: "verifier_meta \<Rightarrow> selected_unit \<Rightarrow> unit_outcome \<Rightarrow> unit_attestation \<Rightarrow> bool" where
  "attests v u oc a \<longleftrightarrow>
     uo_kind oc = ''attested'' \<and> uo_attestation oc = Some a \<and> ua_key a \<noteq> [] \<and> ua_verifier a = vm_id v \<and>
     ua_version a = vm_version v \<and> ua_unit a = su_id u \<and> ua_exit a = 0 \<and>
     (pv_recomputed (uo_provenance oc) \<longleftrightarrow> pv_carried (uo_provenance oc) = []) \<and>
     (vm_produces v = ''artifact'' \<longrightarrow> lookup_text (ua_outputs a) ''artifact'' \<noteq> []) \<and>
     (vm_produces v = ''report'' \<longrightarrow> lookup_text (ua_outputs a) ''report.json'' \<noteq> [])"

lemma outcome_reason_none: "outcome_reason v u oc = [] \<longleftrightarrow> (\<exists>a. attests v u oc a)"
  by (auto simp: outcome_reason_def attests_def split: option.splits if_splits)

lemma attests_attestation: "attests v u oc a \<Longrightarrow> uo_attestation oc = Some a"
  by (simp add: attests_def)

definition unit_results :: "(string \<times> string \<Rightarrow> unit_outcome option) \<Rightarrow> verifier_meta \<Rightarrow> selected_unit \<Rightarrow> unit_result list" where
  "unit_results outcomes v u =
     (case outcomes (vm_id v, su_id u) of
        None \<Rightarrow> []
      | Some oc \<Rightarrow> if outcome_reason v u oc = [] then [unit_result_of v u oc (the (uo_attestation oc))] else [])"

definition unit_unknowns :: "(string \<times> string \<Rightarrow> unit_outcome option) \<Rightarrow> verifier_meta \<Rightarrow> selected_unit \<Rightarrow> unknown_unit list" where
  "unit_unknowns outcomes v u =
     (case outcomes (vm_id v, su_id u) of
        None \<Rightarrow> []
      | Some oc \<Rightarrow> if outcome_reason v u oc = [] then [] else [unknown_for v (outcome_reason v u oc) u])"

lemma fold_unit_adds:
  "fold_unit outcomes v st u =
     st\<lparr>fo_results := fo_results st @ unit_results outcomes v u, fo_unknown := fo_unknown st @ unit_unknowns outcomes v u,
        fo_complete := (fo_complete st \<and> outcomes (vm_id v, su_id u) \<noteq> None)\<rparr>"
  by (auto simp: fold_unit_def unit_results_def unit_unknowns_def outcome_reason_none dest: attests_attestation
      split: option.split)

lemma fold_units_add:
  "foldl (fold_unit outcomes v) st us =
     st\<lparr>fo_results := fo_results st @ concat (List.map (unit_results outcomes v) us),
        fo_unknown := fo_unknown st @ concat (List.map (unit_unknowns outcomes v) us),
        fo_complete := (fo_complete st \<and> (\<forall>u \<in> set us. outcomes (vm_id v, su_id u) \<noteq> None))\<rparr>"
  by (induction us arbitrary: st) (auto simp: fold_unit_adds)

lemma unit_results_length: "length (unit_results outcomes v u) \<le> 1"
  by (simp add: unit_results_def split: option.split)

definition result_id :: "unit_result \<Rightarrow> string \<times> string" where
  "result_id r = (ur_verifier r, ur_unit r)"

definition unknown_id :: "unknown_unit \<Rightarrow> string \<times> string" where
  "unknown_id u = (uk_verifier u, uk_unit u)"

text \<open>The identities an observation accounts for.\<close>

definition accounted :: "unit_result list \<Rightarrow> unknown_unit list \<Rightarrow> (string \<times> string) multiset" where
  "accounted rs us = image_mset result_id (mset rs) + image_mset unknown_id (mset us)"

lemma accounted_unit:
  "accounted (unit_results outcomes v u) (unit_unknowns outcomes v u) =
     (if outcomes (vm_id v, su_id u) = None then {#} else {#(vm_id v, su_id u)#})"
  by (auto simp: accounted_def unit_results_def unit_unknowns_def unit_result_of_def unknown_for_def result_id_def
      unknown_id_def split: option.split)

lemma accounted_append: "accounted (rs @ rs') (us @ us') = accounted rs us + accounted rs' us'"
  by (simp add: accounted_def)

lemma accounted_units:
  "accounted (concat (List.map (unit_results outcomes v) us)) (concat (List.map (unit_unknowns outcomes v) us)) =
     mset (List.map (\<lambda>u. (vm_id v, su_id u)) (filter (\<lambda>u. outcomes (vm_id v, su_id u) \<noteq> None) us))"
proof (induction us)
  case (Cons u us)
  then show ?case by (simp add: accounted_append accounted_unit)
qed (simp add: accounted_def)

text \<open>What \<open>v\<close> accounts for after the state \<open>st\<close>.\<close>

definition verifier_accounts ::
    "(string \<Rightarrow> unit_selection option) \<Rightarrow> (string \<times> string \<Rightarrow> unit_outcome option) \<Rightarrow>
     fold_state \<Rightarrow> verifier_meta \<Rightarrow> (string \<times> string) list" where
  "verifier_accounts selections outcomes st v =
     (let us = sl_units (selection_of selections v)
      in if fold_reason selections st v \<noteq> []
         then (if us = [] then [(vm_id v, all_units)] else List.map (\<lambda>u. (vm_id v, su_id u)) us)
         else List.map (\<lambda>u. (vm_id v, su_id u)) (filter (\<lambda>u. outcomes (vm_id v, su_id u) \<noteq> None) us))"

lemma note_artifact_parts [simp]:
  "fo_results (note_artifact s v n st) = fo_results st" "fo_unknown (note_artifact s v n st) = fo_unknown st"
  "fo_complete (note_artifact s v n st) = fo_complete st"
  by (simp_all add: note_artifact_def)

lemma fold_verifier_accounts:
  "accounted (fo_results (fold_verifier selections outcomes st v)) (fo_unknown (fold_verifier selections outcomes st v)) =
     accounted (fo_results st) (fo_unknown st) + mset (verifier_accounts selections outcomes st v)"
proof -
  have blocked: "image_mset unknown_id (mset (fold_unknowns s v reason)) =
      mset (if sl_units s = [] then [(vm_id v, all_units)] else List.map (\<lambda>u. (vm_id v, su_id u)) (sl_units s))" for s reason
    by (auto simp: fold_unknowns_def unknown_id_def unknown_for_def multiset.map_comp comp_def)
  show ?thesis
    by (auto simp: fold_verifier_def verifier_accounts_def Let_def blocked fold_units_add accounted_append
        accounted_units selection_of_def accounted_def [of "fo_results st" "fo_unknown st @ us" for us]
        accounted_def [of "fo_results st" "fo_unknown st"] simp del: mset_map)
qed

end
