(* ===== verification/Go_Buckets.thy ===== *)
theory Go_Buckets
  imports Workbench_Prelude "HOL-Library.Multiset"
begin

text \<open>
  Grouping in the order of first appearance: a Go slice of groups with a map from a key to
  the index of its group. The pair is a list of keys with values; \<open>upsert_with\<close> updates the
  value at a key in place or appends it.
\<close>

fun upsert_with :: "'k \<Rightarrow> ('v option \<Rightarrow> 'v) \<Rightarrow> ('k \<times> 'v) list \<Rightarrow> ('k \<times> 'v) list" where
  "upsert_with k f [] = [(k, f None)]"
| "upsert_with k f (b # bs) = (if fst b = k then (k, f (Some (snd b))) # bs else b # upsert_with k f bs)"

definition opt_list :: "'a list option \<Rightarrow> 'a list" where
  "opt_list o' = (case o' of None \<Rightarrow> [] | Some xs \<Rightarrow> xs)"

definition add_bucket :: "'k \<Rightarrow> 'a \<Rightarrow> ('k \<times> 'a list) list \<Rightarrow> ('k \<times> 'a list) list" where
  "add_bucket k x bs = upsert_with k (\<lambda>o'. opt_list o' @ [x]) bs"

definition buckets :: "('a \<Rightarrow> 'k) \<Rightarrow> 'a list \<Rightarrow> ('k \<times> 'a list) list" where
  "buckets key xs = foldl (\<lambda>bs x. add_bucket (key x) x bs) [] xs"

lemma opt_list_simps [simp]: "opt_list None = []" "opt_list (Some xs) = xs"
  by (simp_all add: opt_list_def)

lemma upsert_with_keys: "List.map fst (upsert_with k f bs) = keep_new (List.map fst bs) k"
  by (induction bs) (auto simp: keep_new_def)

lemma map_of_upsert_with:
  "map_of (upsert_with k f bs) = (map_of bs)(k \<mapsto> f (map_of bs k))"
  by (induction bs) auto

text \<open>What is in the values, when an update adds to it.\<close>

lemma upsert_with_content:
  assumes "\<And>o'. content (f o') = (case o' of None \<Rightarrow> {#} | Some v \<Rightarrow> content v) + extra"
  shows "(\<Sum>b \<leftarrow> upsert_with k f bs. content (snd b)) = (\<Sum>b \<leftarrow> bs. content (snd b)) + (extra :: 'x multiset)"
  by (induction bs) (auto simp: assms ac_simps)

lemma upsert_with_cases:
  "b \<in> set (upsert_with k f bs) \<Longrightarrow>
     b \<in> set bs \<or> b = (k, f None) \<or> (\<exists>v. (k, v) \<in> set bs \<and> b = (k, f (Some v)))"
  by (induction bs) (auto split: if_splits)

lemma mset_concat_sum: "mset (concat (List.map g xs)) = (\<Sum>x \<leftarrow> xs. mset (g x))"
  by (induction xs) auto

lemma mset_add_bucket: "mset (concat (List.map snd (add_bucket k x bs))) = add_mset x (mset (concat (List.map snd bs)))"
  unfolding add_bucket_def mset_concat_sum
  by (subst upsert_with_content [where extra = "{#x#}" and content = mset]) (auto split: option.splits)

lemma mset_foldl_buckets:
  "mset (concat (List.map snd (foldl (\<lambda>bs x. add_bucket (key x) x bs) bs xs))) = mset (concat (List.map snd bs)) + mset xs"
  by (induction xs arbitrary: bs) (simp_all add: mset_add_bucket)

lemma mset_buckets: "mset (concat (List.map snd (buckets key xs))) = mset xs"
  by (simp add: buckets_def mset_foldl_buckets)

text \<open>Every bucket holds elements of its key, and none is empty.\<close>

definition sorted_out :: "('a \<Rightarrow> 'k) \<Rightarrow> ('k \<times> 'a list) list \<Rightarrow> bool" where
  "sorted_out key bs \<longleftrightarrow> distinct (List.map fst bs) \<and> (\<forall>b \<in> set bs. snd b \<noteq> [] \<and> (\<forall>x \<in> set (snd b). key x = fst b))"

lemma sorted_out_add: "sorted_out key bs \<Longrightarrow> sorted_out key (add_bucket (key x) x bs)"
  unfolding sorted_out_def
proof (intro conjI ballI)
  assume bs: "distinct (List.map fst bs) \<and> (\<forall>b \<in> set bs. snd b \<noteq> [] \<and> (\<forall>x \<in> set (snd b). key x = fst b))"
  then show "distinct (List.map fst (add_bucket (key x) x bs))" by (simp add: add_bucket_def upsert_with_keys)
  fix b assume "b \<in> set (add_bucket (key x) x bs)"
  then consider "b \<in> set bs" | "b = (key x, [x])" | v where "(key x, v) \<in> set bs" "b = (key x, v @ [x])"
    unfolding add_bucket_def by (auto dest!: upsert_with_cases)
  then have b: "snd b \<noteq> [] \<and> (\<forall>y \<in> set (snd b). key y = fst b)"
    by cases (use bs in fastforce)+
  then show "snd b \<noteq> []" by simp
  fix y assume "y \<in> set (snd b)"
  then show "key y = fst b" using b by blast
qed

lemma sorted_out_foldl:
  "sorted_out key bs \<Longrightarrow> sorted_out key (foldl (\<lambda>bs x. add_bucket (key x) x bs) bs xs)"
proof (induction xs arbitrary: bs)
  case (Cons x xs)
  then show ?case by (simp only: foldl.simps sorted_out_add)
qed simp

lemma sorted_out_buckets: "sorted_out key (buckets key xs)"
  unfolding buckets_def by (rule sorted_out_foldl) (simp add: sorted_out_def)

lemma bucket_key: "b \<in> set (buckets key xs) \<Longrightarrow> x \<in> set (snd b) \<Longrightarrow> key x = fst b"
  using sorted_out_buckets [of key xs] by (auto simp: sorted_out_def)

lemma bucket_nonempty: "b \<in> set (buckets key xs) \<Longrightarrow> snd b \<noteq> []"
  using sorted_out_buckets [of key xs] by (auto simp: sorted_out_def)

lemma bucket_member: "b \<in> set (buckets key xs) \<Longrightarrow> x \<in> set (snd b) \<Longrightarrow> x \<in> set xs"
proof -
  assume "b \<in> set (buckets key xs)" "x \<in> set (snd b)"
  then have "x \<in> set (concat (List.map snd (buckets key xs)))" by auto
  then show "x \<in> set xs" by (metis mset_buckets set_mset_mset)
qed

end
