(* ===== verification/Verify_Simplify.thy ===== *)
theory Verify_Simplify
  imports Go_Buckets Go_Numbers
begin

text \<open>
  Simplifying diagnostics (\<^verbatim>\<open>internal/verify/simplify/simplify.go\<close>): messages that differ only
  in their quoted parts become one template with placeholders. Messages are UTF-8, as the JSON
  decoder delivers them; the quotes and the escape are ASCII, so the loop over runes is a loop
  over bytes. Literals are a key through their JSON encoding, which tells lists of such
  strings apart, so the list itself is the key here.
\<close>

section \<open>Data\<close>

record root_folder =
  rf_path :: string
  rf_label :: "string option"

record 'a diag_entry =
  dg_diagnostic :: 'a
  dg_message :: string
  dg_key :: "string option"
  dg_code :: "string option"
  dg_verifier :: string
  dg_file :: "string option"
  dg_annotations :: "string list"
  dg_position :: "string option"

record 'a simple_occurrence =
  so_diagnostic :: 'a
  so_message :: string
  so_placeholders :: "string list"
  so_annotations :: "string list"
  so_position :: "string option"

record 'a simple_file =
  sf_path :: string
  sf_occurrences :: "'a simple_occurrence list"

record 'a simple_root =
  sr_folder :: "string option"
  sr_files :: "'a simple_file list"

record 'a simple_group =
  sg_key :: string
  sg_code :: "string option"
  sg_text :: string
  sg_parameterized :: bool
  sg_roots :: "'a simple_root list"

section \<open>Quoted parts of a message\<close>

record parsed_message =
  pm_literals :: "string list"
  pm_values :: "(char \<times> string) list"

definition is_quote :: "char \<Rightarrow> bool" where
  "is_quote c \<longleftrightarrow> c = CHR 0x22 \<or> c = CHR 0x27 \<or> c = CHR 0x60"

fun parse_loop ::
    "char option \<Rightarrow> bool \<Rightarrow> string \<Rightarrow> string list \<Rightarrow> (char \<times> string) list \<Rightarrow> string \<Rightarrow> parsed_message option" where
  "parse_loop d esc cur lits vals [] =
     (if d \<noteq> None \<or> vals = [] then None else Some \<lparr>pm_literals = lits @ [cur], pm_values = vals\<rparr>)"
| "parse_loop d esc cur lits vals (c # s) =
     (case d of
        Some q \<Rightarrow>
          if esc then parse_loop d False (cur @ [c]) lits vals s
          else if c = CHR 0x5C then parse_loop d True (cur @ [c]) lits vals s
          else if c = q then parse_loop None False [] lits (vals @ [(q, cur)]) s
          else parse_loop d False (cur @ [c]) lits vals s
      | None \<Rightarrow>
          if is_quote c then parse_loop (Some c) False [] (lits @ [cur]) vals s
          else parse_loop None False (cur @ [c]) lits vals s)"

definition parse_message :: "string \<Rightarrow> parsed_message option" where
  "parse_message m = parse_loop None False [] [] [] m"

section \<open>Templates\<close>

text \<open>\<^verbatim>\<open>len(utf16.Encode([]rune(s)))\<close>: a unit for each rune, one more beyond the basic plane.\<close>

definition utf16_length :: "string \<Rightarrow> nat" where
  "utf16_length s =
     length (filter (\<lambda>c. \<not> (0x80 \<le> (of_char c :: nat) \<and> (of_char c :: nat) < 0xC0)) s) +
     length (filter (\<lambda>c. 0xF0 \<le> (of_char c :: nat)) s)"

text \<open>A position with \<open>None\<close> is variable and gets the next placeholder.\<close>

fun template_tail :: "nat \<Rightarrow> (char \<times> string option) list \<Rightarrow> string list \<Rightarrow> string" where
  "template_tail arg ((d, v) # qs) (l # ls) =
     (case v of
        None \<Rightarrow> d # ''<arg'' @ nat_string arg @ ''>'' @ d # l @ template_tail (Suc arg) qs ls
      | Some t \<Rightarrow> d # t @ d # l @ template_tail arg qs ls)"
| "template_tail arg _ _ = []"

definition template_text :: "string list \<Rightarrow> (char \<times> string option) list \<Rightarrow> string" where
  "template_text lits qs = hd lits @ template_tail 1 qs (tl lits)"

type_synonym 'a scaffold = "('a diag_entry \<times> parsed_message) list"

definition variable_at :: "'a scaffold \<Rightarrow> nat \<Rightarrow> bool" where
  "variable_at scaffold i =
     list_ex (\<lambda>(e, p). snd (pm_values p ! i) \<noteq> snd (pm_values (snd (hd scaffold)) ! i)) scaffold"

definition template_quotes :: "'a scaffold \<Rightarrow> (char \<times> string option) list" where
  "template_quotes scaffold =
     (let vs = pm_values (snd (hd scaffold))
      in List.map (\<lambda>i. (fst (vs ! i), if variable_at scaffold i then None else Some (snd (vs ! i)))) [0..<length vs])"

definition placeholders :: "(char \<times> string option) list \<Rightarrow> parsed_message \<Rightarrow> string list" where
  "placeholders qs p = List.map (\<lambda>(q, v). snd v) (filter (\<lambda>(q, v). snd q = None) (zip qs (pm_values p)))"

section \<open>Grouping messages\<close>

record 'a message_group =
  mg_message :: string
  mg_parameterized :: bool
  mg_items :: "('a diag_entry \<times> string list) list"

definition exact_groups :: "'a diag_entry list \<Rightarrow> 'a message_group list" where
  "exact_groups es =
     List.map (\<lambda>(m, xs). \<lparr>mg_message = m, mg_parameterized = False, mg_items = List.map (\<lambda>e. (e, [])) xs\<rparr>)
       (buckets dg_message es)"

definition group_scaffold :: "'a scaffold \<Rightarrow> 'a message_group list" where
  "group_scaffold scaffold =
     (let fallback = exact_groups (List.map fst scaffold);
          qs = template_quotes scaffold;
          message = template_text (pm_literals (snd (hd scaffold))) qs;
          cost = sum_list (List.map (\<lambda>g. utf16_length (mg_message g)) fallback)
      in if length fallback \<le> 1 then fallback
         else if (\<forall>q \<in> set qs. snd q \<noteq> None) \<or> utf16_length message \<ge> cost then fallback
         else [\<lparr>mg_message = message, mg_parameterized = True,
                mg_items = List.map (\<lambda>(e, p). (e, placeholders qs p)) scaffold\<rparr>])"

fun split_quoted :: "'a diag_entry list \<Rightarrow> 'a scaffold \<times> 'a diag_entry list" where
  "split_quoted [] = ([], [])"
| "split_quoted (e # es) =
     (case split_quoted es of (qs, us) \<Rightarrow>
        (case parse_message (dg_message e) of None \<Rightarrow> (qs, e # us) | Some p \<Rightarrow> ((e, p) # qs, us)))"

definition group_messages :: "'a diag_entry list \<Rightarrow> 'a message_group list" where
  "group_messages es =
     (case split_quoted es of (qs, us) \<Rightarrow>
        concat (List.map (\<lambda>b. group_scaffold (snd b)) (buckets (\<lambda>x. pm_literals (snd x)) qs)) @ exact_groups us)"

section \<open>Files and root folders\<close>

definition slashes :: "string \<Rightarrow> string" where
  "slashes p = List.map (\<lambda>c. if c = CHR 0x5C then CHR ''/'' else c) p"

definition normalize_file :: "string \<Rightarrow> string" where
  "normalize_file p =
     (let n = join ''/'' (filter (\<lambda>s. s \<noteq> []) (split_on CHR ''/'' (slashes p)))
      in if has_prefix (slashes p) ''/'' \<and> n \<noteq> [] then ''/'' @ n else n)"

text \<open>The first root folder that holds the path, and the path beneath it.\<close>

fun locate_file :: "root_folder list \<Rightarrow> string \<Rightarrow> string \<times> string" where
  "locate_file [] path = ([], path)"
| "locate_file (r # rs) path =
     (if rf_path r = [] \<or> path = rf_path r \<or> has_prefix path (rf_path r @ ''/'')
      then (case rf_label r of None \<Rightarrow> rf_path r | Some l \<Rightarrow> l,
            if rf_path r \<noteq> [] then trim_prefix (trim_prefix path (rf_path r)) ''/'' else path)
      else locate_file rs path)"

definition entry_path :: "'a diag_entry \<Rightarrow> string" where
  "entry_path e = (case dg_file e of None \<Rightarrow> [] | Some f \<Rightarrow> normalize_file f)"

definition occurrence_of :: "'a diag_entry \<times> string list \<Rightarrow> 'a simple_occurrence" where
  "occurrence_of it = \<lparr>so_diagnostic = dg_diagnostic (fst it), so_message = dg_message (fst it),
     so_placeholders = snd it, so_annotations = dg_annotations (fst it), so_position = dg_position (fst it)\<rparr>"

type_synonym 'a file_buckets = "(string \<times> (string \<times> 'a simple_occurrence list) list) list"

definition place_item :: "root_folder list \<Rightarrow> 'a file_buckets \<Rightarrow> 'a diag_entry \<times> string list \<Rightarrow> 'a file_buckets" where
  "place_item roots out it =
     (case locate_file roots (entry_path (fst it)) of (label, path) \<Rightarrow>
        upsert_with label (\<lambda>files. add_bucket path (occurrence_of it) (opt_list files)) out)"

definition group_files :: "('a diag_entry \<times> string list) list \<Rightarrow> root_folder list \<Rightarrow> 'a simple_root list" where
  "group_files items roots =
     List.map (\<lambda>(label, files). \<lparr>sr_folder = (if label = [] then None else Some label),
         sr_files = List.map (\<lambda>(path, os). \<lparr>sf_path = path, sf_occurrences = os\<rparr>) files\<rparr>)
       (foldl (place_item roots) [] items)"

section \<open>Families\<close>

definition family_key :: "'a diag_entry \<Rightarrow> string" where
  "family_key e =
     (case dg_key e of
        Some k \<Rightarrow> k
      | None \<Rightarrow> (case dg_code e of Some c \<Rightarrow> c | None \<Rightarrow> dg_message e))"

definition family_identity :: "'a diag_entry \<Rightarrow> string \<times> string option \<times> string" where
  "family_identity e = (dg_verifier e, dg_code e, family_key e)"

definition prepare_roots :: "root_folder list \<Rightarrow> root_folder list" where
  "prepare_roots roots =
     sort_key (\<lambda>r. - int (utf16_length (rf_path r)))
       (List.map (\<lambda>r. r\<lparr>rf_path := normalize_file (rf_path r)\<rparr>) roots)"

definition simplify_family ::
    "root_folder list \<Rightarrow> (string \<times> string option \<times> string) \<times> 'a diag_entry list \<Rightarrow> 'a simple_group list" where
  "simplify_family roots b =
     List.map (\<lambda>g. \<lparr>sg_key = snd (snd (fst b)), sg_code = dg_code (hd (snd b)), sg_text = mg_message g,
         sg_parameterized = mg_parameterized g, sg_roots = group_files (mg_items g) roots\<rparr>)
       (group_messages (snd b))"

definition simplify :: "root_folder list \<Rightarrow> 'a diag_entry list \<Rightarrow> 'a simple_group list" where
  "simplify folders es =
     concat (List.map (simplify_family (prepare_roots folders)) (buckets family_identity es))"

end
