(* ===== verification/Verify_Delta.thy ===== *)
theory Verify_Delta
  imports Verify_Observe Verify_Report Verify_Simplify
begin

text \<open>
  What changed since a session last looked (\<^verbatim>\<open>internal/verify/client/delta.go\<close>,
  \<^verbatim>\<open>focus.go\<close>, \<^verbatim>\<open>group.go\<close>). Last Seen is its list of entries, in insertion
  order; the map from keys to indices is \<open>upsert_with\<close>. The glob matcher of
  \<^verbatim>\<open>doublestar\<close> is the parameter \<open>glob\<close> (a malformed pattern does not match). Counters are
  natural numbers: each counts elements of a list.
\<close>

section \<open>Focus\<close>

record verify_focus =
  fc_files :: "string list"
  fc_codes :: "string list"
  fc_verifiers :: "string list"
  fc_units :: "string list"
  fc_members :: "string list"
  fc_severities :: "string list"

record seen_entry =
  se_verifier :: string
  se_unit :: string
  se_error_key :: string
  se_code :: "string option"
  se_severity :: string
  se_file :: "string option"
  se_range :: "text_range option"
  se_anchor :: string
  se_message :: "string option"

definition empty_focus :: verify_focus where
  "empty_focus = \<lparr>fc_files = [], fc_codes = [], fc_verifiers = [], fc_units = [], fc_members = [], fc_severities = []\<rparr>"

definition unrestricted :: "verify_focus \<Rightarrow> bool" where
  "unrestricted f \<longleftrightarrow>
     length (fc_files f) + length (fc_codes f) + length (fc_verifiers f) + length (fc_units f) + length (fc_members f) +
     length (fc_severities f) = 0"

definition focus_union :: "string list \<Rightarrow> string list \<Rightarrow> string list" where
  "focus_union a b = foldl keep_new (foldl keep_new [] a) b"

definition merge_focus :: "verify_focus \<Rightarrow> verify_focus \<Rightarrow> verify_focus" where
  "merge_focus a b =
     \<lparr>fc_files = focus_union (fc_files a) (fc_files b), fc_codes = focus_union (fc_codes a) (fc_codes b),
      fc_verifiers = focus_union (fc_verifiers a) (fc_verifiers b), fc_units = focus_union (fc_units a) (fc_units b),
      fc_members = focus_union (fc_members a) (fc_members b),
      fc_severities = focus_union (fc_severities a) (fc_severities b)\<rparr>"

definition admits :: "string list \<Rightarrow> string \<Rightarrow> bool" where
  "admits list s \<longleftrightarrow> list = [] \<or> s \<in> set list"

text \<open>The loop over leading exclamation marks: whether the pattern is negated, and the rest.\<close>

fun strip_negations :: "string \<Rightarrow> bool \<times> string" where
  "strip_negations [] = (False, [])"
| "strip_negations (c # s) =
     (if c = CHR 0x21 then (case strip_negations s of (negated, p) \<Rightarrow> (\<not> negated, p)) else (False, c # s))"

definition pattern_matches :: "(string \<Rightarrow> string \<Rightarrow> bool) \<Rightarrow> string \<Rightarrow> string \<Rightarrow> bool" where
  "pattern_matches glob pattern path =
     (case strip_negations pattern of (negated, p) \<Rightarrow> if negated then \<not> glob p path else glob p path)"

definition focused :: "(string \<Rightarrow> string \<Rightarrow> bool) \<Rightarrow> verify_focus \<Rightarrow> seen_entry \<Rightarrow> bool" where
  "focused glob f s \<longleftrightarrow>
     (fc_files f \<noteq> [] \<longrightarrow>
        (case se_file s of None \<Rightarrow> False | Some path \<Rightarrow> list_ex (\<lambda>p. pattern_matches glob p path) (fc_files f))) \<and>
     (admits (fc_codes f) (se_error_key s) \<or> (case se_code s of None \<Rightarrow> False | Some c \<Rightarrow> admits (fc_codes f) c)) \<and>
     admits (fc_verifiers f) (se_verifier s) \<and> admits (fc_units f) (se_unit s) \<and>
     admits (fc_members f) (se_error_key s) \<and> admits (fc_severities f) (se_severity s)"

section \<open>Gates\<close>

record verify_gate =
  vg_requires :: "string list"
  vg_blocking :: "string list"

record gate_status =
  gs_name :: string
  gs_satisfied :: bool
  gs_blocking :: nat
  gs_missing :: "string list"

definition gate_misses :: "tree_observation \<Rightarrow> string \<Rightarrow> bool" where
  "gate_misses ob i \<longleftrightarrow>
     list_ex (\<lambda>u. uk_verifier u = i) (to_unknown ob) \<or> \<not> list_ex (\<lambda>v. vm_id v = i) (to_verifiers ob)"

definition evaluate_gate :: "string \<Rightarrow> verify_gate \<Rightarrow> tree_observation \<Rightarrow> report_occurrence list \<Rightarrow> gate_status" where
  "evaluate_gate name g ob ocs =
     (let missing = filter (gate_misses ob) (vg_requires g);
          blocking = length (filter (\<lambda>c. di_severity (oc_diagnostic c) \<in> set (vg_blocking g)) ocs)
      in \<lparr>gs_name = name, gs_satisfied = (missing = [] \<and> blocking = 0), gs_blocking = blocking, gs_missing = missing\<rparr>)"

definition seen_of :: "report_occurrence \<Rightarrow> seen_entry" where
  "seen_of c =
     \<lparr>se_verifier = oc_verifier c, se_unit = oc_unit c, se_error_key = di_error_key (oc_diagnostic c),
      se_code = di_code (oc_diagnostic c), se_severity = di_severity (oc_diagnostic c), se_file = di_file (oc_diagnostic c),
      se_range = di_range (oc_diagnostic c), se_anchor = oc_anchor c, se_message = Some (di_message (oc_diagnostic c))\<rparr>"

definition exit_code ::
    "(string \<Rightarrow> string \<Rightarrow> bool) \<Rightarrow> tree_observation \<Rightarrow> report_occurrence list \<Rightarrow> verify_focus \<Rightarrow> gate_status option \<Rightarrow>
     string list \<Rightarrow> nat" where
  "exit_code glob ob ocs f gate blocking =
     (if (case gate of None \<Rightarrow> False | Some s \<Rightarrow> \<not> gs_satisfied s) then 1
      else if list_ex (\<lambda>c. focused glob f (seen_of c) \<and> di_severity (oc_diagnostic c) \<in> set blocking) ocs then 1
      else if list_ex (\<lambda>u. admits (fc_verifiers f) (uk_verifier u) \<and>
                (uk_unit u = all_units \<or> admits (fc_units f) (uk_unit u))) (to_unknown ob) then 3
      else 0)"

section \<open>Grouping occurrences\<close>

datatype delta_status = StatusNew | StatusResolved | StatusUnchanged

type_synonym tagged_occurrence = "report_occurrence \<times> delta_status"

record delta_counts =
  dc_new :: nat
  dc_resolved :: nat
  dc_unchanged :: nat

record shown_occurrence =
  sw_line :: "int option"
  sw_column :: "int option"
  sw_args :: "string list"
  sw_status :: delta_status

record shown_file =
  sh_path :: string
  sh_occurrences :: "shown_occurrence list"

record delta_group =
  gp_code :: string
  gp_error_key :: string
  gp_verifier :: string
  gp_severity :: string
  gp_message :: string
  gp_parameterized :: bool
  gp_files :: "shown_file list"
  gp_counts :: delta_counts

definition tagged_entry :: "tagged_occurrence \<Rightarrow> tagged_occurrence diag_entry" where
  "tagged_entry x =
     (let c = fst x in
      \<lparr>dg_diagnostic = x, dg_message = di_message (oc_diagnostic c), dg_key = Some (di_error_key (oc_diagnostic c)),
       dg_code = di_code (oc_diagnostic c), dg_verifier = oc_verifier c,
       dg_file = Some (case di_file (oc_diagnostic c) of None \<Rightarrow> ''('' @ oc_unit c @ '')'' | Some f \<Rightarrow> f),
       dg_annotations = [], dg_position = None\<rparr>)"

definition no_counts :: delta_counts where
  "no_counts = \<lparr>dc_new = 0, dc_resolved = 0, dc_unchanged = 0\<rparr>"

definition count_status :: "delta_counts \<Rightarrow> delta_status \<Rightarrow> delta_counts" where
  "count_status n s =
     (case s of
        StatusNew \<Rightarrow> n\<lparr>dc_new := Suc (dc_new n)\<rparr>
      | StatusResolved \<Rightarrow> n\<lparr>dc_resolved := Suc (dc_resolved n)\<rparr>
      | StatusUnchanged \<Rightarrow> n\<lparr>dc_unchanged := Suc (dc_unchanged n)\<rparr>)"

definition tagged_focused :: "(string \<Rightarrow> string \<Rightarrow> bool) \<Rightarrow> verify_focus \<Rightarrow> tagged_occurrence \<Rightarrow> bool" where
  "tagged_focused glob f x = focused glob f (seen_of (fst x))"

definition shown_of :: "tagged_occurrence simple_occurrence \<Rightarrow> shown_occurrence" where
  "shown_of item =
     (let start = (case di_range (oc_diagnostic (fst (so_diagnostic item))) of None \<Rightarrow> None | Some r \<Rightarrow> Some (tr_start r))
      in \<lparr>sw_line = map_option tp_line start, sw_column = map_option tp_column start, sw_args = so_placeholders item,
          sw_status = snd (so_diagnostic item)\<rparr>)"

text \<open>One file: its occurrences in focus, counted; a file with none is not listed.\<close>

definition show_file ::
    "(string \<Rightarrow> string \<Rightarrow> bool) \<Rightarrow> verify_focus \<Rightarrow> shown_file list \<times> delta_counts \<Rightarrow> tagged_occurrence simple_file \<Rightarrow>
     shown_file list \<times> delta_counts" where
  "show_file glob f st sf =
     (let items = filter (\<lambda>item. tagged_focused glob f (so_diagnostic item)) (sf_occurrences sf);
          counts = foldl (\<lambda>n item. count_status n (snd (so_diagnostic item))) (snd st) items
      in (if items = [] then fst st else fst st @ [\<lparr>sh_path = sf_path sf, sh_occurrences = List.map shown_of items\<rparr>], counts))"

definition first_of_group :: "'a simple_group \<Rightarrow> 'a simple_occurrence" where
  "first_of_group g = hd (sf_occurrences (hd (sr_files (hd (sg_roots g)))))"

definition show_group ::
    "(string \<Rightarrow> string \<Rightarrow> bool) \<Rightarrow> verify_focus \<Rightarrow> tagged_occurrence simple_group \<Rightarrow> delta_group" where
  "show_group glob f g =
     (let first = fst (so_diagnostic (first_of_group g));
          (files, counts) = foldl (\<lambda>st r. foldl (show_file glob f) st (sr_files r)) ([], no_counts) (sg_roots g)
      in \<lparr>gp_code = (case sg_code g of None \<Rightarrow> sg_key g | Some c \<Rightarrow> c), gp_error_key = sg_key g,
          gp_verifier = oc_verifier first, gp_severity = di_severity (oc_diagnostic first), gp_message = sg_text g,
          gp_parameterized = sg_parameterized g, gp_files = files, gp_counts = counts\<rparr>)"

definition delta_groups ::
    "(string \<Rightarrow> string \<Rightarrow> bool) \<Rightarrow> tagged_occurrence list \<Rightarrow> verify_focus \<Rightarrow> delta_group list" where
  "delta_groups glob entries f =
     filter (\<lambda>g. gp_files g \<noteq> []) (List.map (show_group glob f) (simplify [] (List.map tagged_entry entries)))"

section \<open>The reading common to text and JSON\<close>

record group_unknown =
  gu_verifier :: string
  gu_units :: "nat option"
  gu_scope :: string
  gu_unit_ids :: "string list"
  gu_reason :: string

record grouped_output =
  go_tree :: string
  go_total :: nat
  go_ran :: "string list"
  go_unknown_verifiers :: "string list"
  go_groups :: "delta_group list"
  go_unknown :: "group_unknown list"
  go_gate :: "gate_status option"
  go_elsewhere :: "delta_counts option"

definition shown_reason :: "string \<Rightarrow> string" where
  "shown_reason r =
     (if has_prefix r ''select exit '' then ''select exited '' @ trim_prefix r ''select exit '' else r)"

text \<open>One unknown Unit, added to the entry of its verifier and reason.\<close>

definition unknown_entry :: "unknown_unit \<Rightarrow> group_unknown option \<Rightarrow> group_unknown" where
  "unknown_entry u old =
     (let e = (case old of
          None \<Rightarrow> \<lparr>gu_verifier = uk_verifier u, gu_units = None, gu_scope = [], gu_unit_ids = [],
            gu_reason = shown_reason (uk_reason u)\<rparr>
        | Some e \<Rightarrow> e)
      in if uk_unit u = all_units then e\<lparr>gu_units := None, gu_scope := ''all'', gu_unit_ids := []\<rparr>
         else if gu_scope e \<noteq> ''all''
         then e\<lparr>gu_units := Some (case gu_units e of None \<Rightarrow> 1 | Some n \<Rightarrow> Suc n), gu_unit_ids := gu_unit_ids e @ [uk_unit u]\<rparr>
         else e)"

definition group_unknowns :: "unknown_unit list \<Rightarrow> group_unknown list" where
  "group_unknowns us =
     List.map snd (foldl (\<lambda>acc u. upsert_with (uk_verifier u, shown_reason (uk_reason u)) (unknown_entry u) acc) [] us)"

definition delta_output ::
    "tree_observation \<Rightarrow> gate_status option \<Rightarrow> delta_counts option \<Rightarrow> delta_group list \<Rightarrow> grouped_output" where
  "delta_output ob gate elsewhere groups =
     \<lparr>go_tree = take 8 (to_tree ob),
      go_total = length (to_results ob) + length (filter (\<lambda>u. uk_unit u \<noteq> all_units) (to_unknown ob)),
      go_ran = sort (List.map (\<lambda>r. ur_verifier r @ '':'' @ ur_unit r)
        (filter (\<lambda>r. pv_recomputed (ur_provenance r)) (to_results ob))),
      go_unknown_verifiers = unique (List.map uk_verifier (filter (\<lambda>u. uk_unit u = all_units) (to_unknown ob))),
      go_groups = groups, go_unknown = group_unknowns (to_unknown ob), go_gate = gate, go_elsewhere = elsewhere\<rparr>"

section \<open>The fold\<close>

type_synonym last_entries = "(string \<times> seen_entry) list"

record last_seen =
  ls_tree :: "string option"
  ls_occurrences :: last_entries

record resolved_entry =
  rz_key :: string
  rz_verifier :: string
  rz_error_key :: string
  rz_file :: "string option"
  rz_last :: "text_range option \<times> string"

record focus_delta =
  fd_occurrences :: "(report_occurrence \<times> bool) list"
  fd_members :: "member_status list"
  fd_elsewhere :: delta_counts

record verify_delta =
  dl_tree :: string
  dl_verifiers :: "verifier_meta list"
  dl_new :: "report_occurrence list"
  dl_resolved :: "resolved_entry list"
  dl_unchanged :: nat
  dl_unknown :: "unknown_unit list"
  dl_focus :: "focus_delta option"
  dl_gate :: "gate_status option"
  dl_output :: grouped_output

record fold_input =
  fi_observation :: tree_observation
  fi_occurrences :: "report_occurrence list"
  fi_members :: "member_status list"
  fi_last :: last_seen
  fi_focus :: verify_focus
  fi_gate :: "gate_status option"

text \<open>What the two loops write.\<close>

record delta_state =
  ds_next :: last_entries
  ds_entries :: "tagged_occurrence list"
  ds_resolved_entries :: "tagged_occurrence list"
  ds_new :: "report_occurrence list"
  ds_resolved :: "resolved_entry list"
  ds_unchanged :: nat
  ds_shown :: "(report_occurrence \<times> bool) list"
  ds_elsewhere :: delta_counts

definition keep_entry :: "string \<Rightarrow> seen_entry \<Rightarrow> last_entries \<Rightarrow> last_entries" where
  "keep_entry k e entries = upsert_with k (\<lambda>old. e) entries"

definition unobserved :: "tree_observation \<Rightarrow> seen_entry \<Rightarrow> bool" where
  "unobserved ob s \<longleftrightarrow>
     list_ex (\<lambda>u. uk_verifier u = se_verifier s \<and> (uk_unit u = se_unit s \<or> uk_unit u = all_units)) (to_unknown ob)"

definition resolved_occurrence :: "string \<Rightarrow> seen_entry \<Rightarrow> report_occurrence" where
  "resolved_occurrence k s =
     \<lparr>oc_key = k, oc_verifier = se_verifier s, oc_unit = se_unit s,
      oc_diagnostic = \<lparr>di_error_key = se_error_key s, di_code = se_code s,
        di_severity = (if se_severity s = [] then ''error'' else se_severity s),
        di_message = (case se_message s of None \<Rightarrow> se_error_key s | Some m \<Rightarrow> m),
        di_file = se_file s, di_range = se_range s\<rparr>,
      oc_anchor = se_anchor s\<rparr>"

definition resolved_of :: "string \<Rightarrow> seen_entry \<Rightarrow> resolved_entry" where
  "resolved_of k s =
     \<lparr>rz_key = k, rz_verifier = se_verifier s, rz_error_key = se_error_key s, rz_file = se_file s,
      rz_last = (se_range s, se_anchor s)\<rparr>"

definition fold_seen ::
    "(string \<Rightarrow> string \<Rightarrow> bool) \<Rightarrow> fold_input \<Rightarrow> delta_state \<Rightarrow> string \<times> seen_entry \<Rightarrow> delta_state" where
  "fold_seen glob i st e =
     (if list_ex (\<lambda>c. oc_key c = fst e) (fi_occurrences i) then st
      else if unobserved (fi_observation i) (snd e) then st\<lparr>ds_next := keep_entry (fst e) (snd e) (ds_next st)\<rparr>
      else
        let st' = st\<lparr>ds_resolved_entries := ds_resolved_entries st @ [(resolved_occurrence (fst e) (snd e), StatusResolved)]\<rparr>
        in if \<not> focused glob (fi_focus i) (snd e)
           then st'\<lparr>ds_elsewhere := count_status (ds_elsewhere st') StatusResolved\<rparr>
           else st'\<lparr>ds_resolved := ds_resolved st' @ [resolved_of (fst e) (snd e)]\<rparr>)"

definition was_seen :: "fold_input \<Rightarrow> report_occurrence \<Rightarrow> bool" where
  "was_seen i c = list_ex (\<lambda>e. fst e = oc_key c) (ls_occurrences (fi_last i))"

definition seen_status :: "fold_input \<Rightarrow> report_occurrence \<Rightarrow> delta_status" where
  "seen_status i c = (if was_seen i c then StatusUnchanged else StatusNew)"

definition count_present ::
    "(string \<Rightarrow> string \<Rightarrow> bool) \<Rightarrow> fold_input \<Rightarrow> delta_state \<Rightarrow> report_occurrence \<Rightarrow> delta_state" where
  "count_present glob i st c =
     (if focused glob (fi_focus i) (seen_of c)
      then (if was_seen i c then st\<lparr>ds_unchanged := Suc (ds_unchanged st)\<rparr> else st\<lparr>ds_new := ds_new st @ [c]\<rparr>)
        \<lparr>ds_shown := ds_shown st @ [(c, was_seen i c)]\<rparr>
      else st\<lparr>ds_elsewhere := count_status (ds_elsewhere st) (seen_status i c)\<rparr>)"

definition fold_present ::
    "(string \<Rightarrow> string \<Rightarrow> bool) \<Rightarrow> fold_input \<Rightarrow> delta_state \<Rightarrow> report_occurrence \<Rightarrow> delta_state" where
  "fold_present glob i st c =
     (let st' = count_present glob i (st\<lparr>ds_entries := ds_entries st @ [(c, seen_status i c)]\<rparr>) c
      in if was_seen i c \<or> focused glob (fi_focus i) (seen_of c)
         then st'\<lparr>ds_next := keep_entry (oc_key c) (seen_of c) (ds_next st')\<rparr>
         else st')"

definition delta_start :: delta_state where
  "delta_start =
     \<lparr>ds_next = [], ds_entries = [], ds_resolved_entries = [], ds_new = [], ds_resolved = [], ds_unchanged = 0,
      ds_shown = [], ds_elsewhere = no_counts\<rparr>"

definition delta_loops :: "(string \<Rightarrow> string \<Rightarrow> bool) \<Rightarrow> fold_input \<Rightarrow> delta_state" where
  "delta_loops glob i =
     foldl (fold_present glob i) (foldl (fold_seen glob i) delta_start (ls_occurrences (fi_last i))) (fi_occurrences i)"

definition member_focused :: "verify_focus \<Rightarrow> member_status \<Rightarrow> bool" where
  "member_focused f m \<longleftrightarrow>
     rp_name (mm_member m) \<in> set (fc_members f) \<and> admits (fc_verifiers f) (mm_verifier m) \<and>
     admits (fc_units f) (mm_unit m)"

text \<open>
  A focus that restricts nothing leaves the counts of elsewhere out. The occurrences shown
  under a focus are collected in either case here.
\<close>

definition delta_fold :: "(string \<Rightarrow> string \<Rightarrow> bool) \<Rightarrow> fold_input \<Rightarrow> verify_delta \<times> last_seen" where
  "delta_fold glob i =
     (let st = delta_loops glob i;
          f = fi_focus i;
          focus = (if unrestricted f then None
            else Some \<lparr>fd_occurrences = ds_shown st, fd_members = filter (member_focused f) (fi_members i),
              fd_elsewhere = ds_elsewhere st\<rparr>)
      in (\<lparr>dl_tree = to_tree (fi_observation i), dl_verifiers = to_verifiers (fi_observation i), dl_new = ds_new st,
           dl_resolved = ds_resolved st, dl_unchanged = ds_unchanged st, dl_unknown = to_unknown (fi_observation i),
           dl_focus = focus, dl_gate = fi_gate i,
           dl_output = delta_output (fi_observation i) (fi_gate i) (map_option fd_elsewhere focus)
             (delta_groups glob (ds_entries st @ ds_resolved_entries st) f)\<rparr>,
          \<lparr>ls_tree = Some (to_tree (fi_observation i)), ls_occurrences = ds_next st\<rparr>))"

end
