(* ===== verification/Observe_Facts.thy ===== *)
theory Observe_Facts
  imports Verify_Observe
begin

text \<open>
  What an observation accounts for: no selected unit twice, every one of them when it is
  complete, and a result only for an attestation whose upstreams have artifacts.
\<close>

definition artifact_of :: "unit_result \<Rightarrow> string" where
  "artifact_of r = lookup_text (ua_outputs (ur_attestation r)) ''artifact''"

text \<open>A result that stands on an attested outcome and on artifacts of all its upstreams.\<close>

definition backed ::
    "verifier_meta list \<Rightarrow> (string \<Rightarrow> unit_selection option) \<Rightarrow> (string \<times> string \<Rightarrow> unit_outcome option) \<Rightarrow>
     unit_result list \<Rightarrow> unit_result \<Rightarrow> bool" where
  "backed vs selections outcomes rs r \<longleftrightarrow>
     (\<exists>v \<in> set vs. \<exists>u \<in> set (sl_units (selection_of selections v)). \<exists>oc a.
        outcomes (vm_id v, su_id u) = Some oc \<and> attests v u oc a \<and> r = unit_result_of v u oc a \<and>
        (\<forall>q \<in> set (vm_requires v). \<exists>r' \<in> set rs. ur_verifier r' = rm_verifier q \<and> artifact_of r' \<noteq> []))"

lemma backed_mono: "backed vs sel out rs r \<Longrightarrow> set vs \<subseteq> set vs' \<Longrightarrow> set rs \<subseteq> set rs' \<Longrightarrow> backed vs' sel out rs' r"
  unfolding backed_def by (meson subsetD)

section \<open>Artifacts come from results\<close>

definition artifacts_backed :: "fold_state \<Rightarrow> bool" where
  "artifacts_backed st \<longleftrightarrow>
     (\<forall>i. lookup_text (fo_artifacts st) i \<noteq> [] \<longrightarrow> (\<exists>r \<in> set (fo_results st). ur_verifier r = i \<and> artifact_of r \<noteq> []))"

lemma artifacts_backed_add:
  "artifacts_backed st \<Longrightarrow> fo_artifacts st' = fo_artifacts st \<Longrightarrow> set (fo_results st) \<subseteq> set (fo_results st') \<Longrightarrow>
     artifacts_backed st'"
  unfolding artifacts_backed_def by (metis subsetD)

lemma unit_results_source:
  "r \<in> set (unit_results outcomes v u) \<Longrightarrow>
     \<exists>oc a. outcomes (vm_id v, su_id u) = Some oc \<and> attests v u oc a \<and> r = unit_result_of v u oc a"
proof -
  assume r: "r \<in> set (unit_results outcomes v u)"
  then obtain oc where oc: "outcomes (vm_id v, su_id u) = Some oc" "outcome_reason v u oc = []"
      "r = unit_result_of v u oc (the (uo_attestation oc))"
    by (cases "outcomes (vm_id v, su_id u)") (auto simp: unit_results_def split: if_splits)
  then obtain a where "attests v u oc a" by (auto simp: outcome_reason_none)
  then show ?thesis using oc by (auto simp: attests_attestation)
qed

lemma artifacts_backed_note:
  assumes "artifacts_backed st" and "fo_results st = old @ new" and "length old = start"
    and "\<forall>r \<in> set new. ur_verifier r = vm_id v"
  shows "artifacts_backed (note_artifact s v start st)"
proof (cases "length new = 1")
  case True
  then obtain r where r: "new = [r]" by (auto simp: length_Suc_conv)
  then have "ur_verifier r = vm_id v" "fo_results st ! start = r" using assms(2-4) by auto
  then show ?thesis
    using assms(1,2) r by (auto simp: artifacts_backed_def note_artifact_def lookup_text_def artifact_of_def)
next
  case False
  then have "note_artifact s v start st = st" using assms(2,3) by (simp add: note_artifact_def)
  then show ?thesis using assms(1) by simp
qed

lemma unblocked_upstreams:
  assumes "fold_reason selections st v = []" and "artifacts_backed st" and "q \<in> set (vm_requires v)"
  shows "\<exists>r \<in> set (fo_results st). ur_verifier r = rm_verifier q \<and> artifact_of r \<noteq> []"
proof -
  have "join ''; '' (blocked_by st v) = []"
    using assms(1) by (metis fold_reason_def)
  moreover have "\<forall>t \<in> set (blocked_by st v). t \<noteq> []" by (auto simp: blocked_by_def)
  ultimately have "blocked_by st v = []" by (cases "blocked_by st v" rule: remdups_adj.cases) auto
  then have "lookup_text (fo_artifacts st) (rm_verifier q) \<noteq> []"
    using assms(3) by (auto simp: blocked_by_def filter_empty_conv)
  then show ?thesis using assms(2) by (auto simp: artifacts_backed_def)
qed

section \<open>One verifier\<close>

lemma fold_verifier_results:
  "\<exists>new. fo_results (fold_verifier selections outcomes st v) = fo_results st @ new \<and>
     (new \<noteq> [] \<longrightarrow> fold_reason selections st v = []) \<and>
     (\<forall>r \<in> set new. \<exists>u \<in> set (sl_units (selection_of selections v)). r \<in> set (unit_results outcomes v u))"
  by (auto simp: fold_verifier_def Let_def fold_units_add)

lemma fold_verifier_artifacts:
  assumes "artifacts_backed st"
  shows "artifacts_backed (fold_verifier selections outcomes st v)"
proof (cases "fold_reason selections st v = [] \<and> selections (vm_id v) \<noteq> None")
  case True
  let ?s = "selection_of selections v"
  let ?new = "concat (List.map (unit_results outcomes v) (sl_units ?s))"
  have "\<forall>r \<in> set ?new. ur_verifier r = vm_id v"
    by (auto dest!: unit_results_source simp: unit_result_of_def)
  moreover have "artifacts_backed (foldl (fold_unit outcomes v) st (sl_units ?s))"
    by (rule artifacts_backed_add [OF assms]) (auto simp: fold_units_add)
  ultimately have "artifacts_backed (note_artifact ?s v (length (fo_results st)) (foldl (fold_unit outcomes v) st (sl_units ?s)))"
    by (intro artifacts_backed_note [where old = "fo_results st" and new = ?new]) (simp_all add: fold_units_add)
  then show ?thesis using True by (auto simp: fold_verifier_def Let_def)
next
  case False
  then show ?thesis
    by (intro artifacts_backed_add [OF assms]) (auto simp: fold_verifier_def Let_def)
qed

lemma fold_verifier_backed:
  assumes "artifacts_backed st" and "\<forall>r \<in> set (fo_results st). backed vs selections outcomes (fo_results st) r"
  shows "\<forall>r \<in> set (fo_results (fold_verifier selections outcomes st v)).
      backed (vs @ [v]) selections outcomes (fo_results (fold_verifier selections outcomes st v)) r"
proof -
  let ?st = "fold_verifier selections outcomes st v"
  obtain new where new: "fo_results ?st = fo_results st @ new" "new \<noteq> [] \<longrightarrow> fold_reason selections st v = []"
      "\<forall>r \<in> set new. \<exists>u \<in> set (sl_units (selection_of selections v)). r \<in> set (unit_results outcomes v u)"
    using fold_verifier_results [of selections outcomes st v] by (elim exE conjE) (rule that)
  have "backed (vs @ [v]) selections outcomes (fo_results ?st) r" if r: "r \<in> set new" for r
  proof -
    obtain u where mem: "u \<in> set (sl_units (selection_of selections v))" "r \<in> set (unit_results outcomes v u)"
      using new(3) r by blast
    from unit_results_source [OF mem(2)] obtain oc a where u: "outcomes (vm_id v, su_id u) = Some oc"
        "attests v u oc a" "r = unit_result_of v u oc a" by blast
    have "fold_reason selections st v = []" using new(2) r by (cases new) auto
    then have "\<exists>r' \<in> set (fo_results ?st). ur_verifier r' = rm_verifier q \<and> artifact_of r' \<noteq> []"
      if "q \<in> set (vm_requires v)" for q
      using unblocked_upstreams [OF _ assms(1) that] new(1) by auto
    then show ?thesis
      unfolding backed_def using u mem(1) by (intro bexI [of _ v] bexI [of _ u] exI [of _ oc] exI [of _ a]) simp_all
  qed
  moreover have "backed (vs @ [v]) selections outcomes (fo_results ?st) r" if "r \<in> set (fo_results st)" for r
    using assms(2) that new(1) by (auto intro: backed_mono)
  ultimately show ?thesis using new(1) by auto
qed

section \<open>All verifiers\<close>

definition accounts_of :: "fold_state \<Rightarrow> (string \<times> string) multiset" where
  "accounts_of st = accounted (fo_results st) (fo_unknown st)"

text \<open>Each account once, each of a verifier that was handled; all of them if nothing is missing.\<close>

definition accounts_ok ::
    "(string \<Rightarrow> unit_selection option) \<Rightarrow> verifier_meta list \<Rightarrow> fold_state \<Rightarrow> bool" where
  "accounts_ok selections vs st \<longleftrightarrow>
     (\<forall>x. count (accounts_of st) x \<le> 1) \<and> (\<forall>x. x \<in># accounts_of st \<longrightarrow> fst x \<in> vm_id ` set vs) \<and>
     (fo_complete st \<longrightarrow>
        (\<forall>v \<in> set vs. \<forall>u \<in> set (sl_units (selection_of selections v)). (vm_id v, su_id u) \<in># accounts_of st))"

lemma verifier_accounts_own:
  "x \<in> set (verifier_accounts selections outcomes st v) \<Longrightarrow> fst x = vm_id v"
  by (auto simp: verifier_accounts_def Let_def split: if_splits)

lemma verifier_accounts_distinct:
  assumes "distinct (List.map su_id (sl_units (selection_of selections v)))"
  shows "distinct (verifier_accounts selections outcomes st v)"
  using assms by (auto simp: verifier_accounts_def Let_def distinct_map inj_on_def)

lemma fold_verifier_complete:
  "fo_complete (fold_verifier selections outcomes st v) \<Longrightarrow>
     fo_complete st \<and> (\<forall>u \<in> set (sl_units (selection_of selections v)).
       (vm_id v, su_id u) \<in> set (verifier_accounts selections outcomes st v))"
  by (auto simp: fold_verifier_def verifier_accounts_def Let_def fold_units_add split: if_splits)

lemma fold_verifier_accounts_ok:
  assumes "accounts_ok selections vs st" and "vm_id v \<notin> vm_id ` set vs"
    and "distinct (List.map su_id (sl_units (selection_of selections v)))"
  shows "accounts_ok selections (vs @ [v]) (fold_verifier selections outcomes st v)"
proof -
  let ?own = "mset (verifier_accounts selections outcomes st v)"
  have all: "accounts_of (fold_verifier selections outcomes st v) = accounts_of st + ?own"
    by (simp add: accounts_of_def fold_verifier_accounts)
  have once: "count (accounts_of st) x + count ?own x \<le> 1" for x
  proof (cases "x \<in># ?own")
    case True
    then have "fst x = vm_id v" using verifier_accounts_own by simp
    then have fresh_id: "x \<notin># accounts_of st" using assms(1,2) unfolding accounts_ok_def by metis
    have "count ?own x \<le> 1"
      using verifier_accounts_distinct [OF assms(3)] by (metis distinct_count_atmost_1 le_refl zero_le_one)
    moreover have "count (accounts_of st) x = 0" using fresh_id by (metis not_in_iff)
    ultimately show ?thesis by simp
  next
    case False
    then have "count ?own x = 0" by (metis not_in_iff)
    then show ?thesis using assms(1) by (simp only: accounts_ok_def add_0_right)
  qed
  show ?thesis
    unfolding accounts_ok_def all
  proof (intro conjI allI impI ballI)
    fix x assume "x \<in># accounts_of st + ?own"
    then consider "x \<in># accounts_of st" | "x \<in> set (verifier_accounts selections outcomes st v)" by auto
    then show "fst x \<in> vm_id ` set (vs @ [v])"
    proof cases
      case 1
      then have "fst x \<in> vm_id ` set vs" using assms(1) unfolding accounts_ok_def by blast
      then show ?thesis by simp
    next
      case 2
      then show ?thesis using verifier_accounts_own by simp
    qed
  next
    fix w u assume "fo_complete (fold_verifier selections outcomes st v)" "w \<in> set (vs @ [v])"
        "u \<in> set (sl_units (selection_of selections w))"
    then show "(vm_id w, su_id u) \<in># accounts_of st + ?own"
      using fold_verifier_complete [of selections outcomes st v] assms(1) by (auto simp: accounts_ok_def)
  qed (use once in simp)
qed

lemma fold_verifiers:
  assumes "distinct (List.map vm_id (vs @ ws))" and "\<forall>v \<in> set ws. distinct (List.map su_id (sl_units (selection_of selections v)))"
    and "accounts_ok selections vs st" and "artifacts_backed st"
    and "\<forall>r \<in> set (fo_results st). backed vs selections outcomes (fo_results st) r"
  shows "accounts_ok selections (vs @ ws) (foldl (fold_verifier selections outcomes) st ws) \<and>
    (\<forall>r \<in> set (fo_results (foldl (fold_verifier selections outcomes) st ws)).
       backed (vs @ ws) selections outcomes (fo_results (foldl (fold_verifier selections outcomes) st ws)) r)"
  using assms
proof (induction ws arbitrary: vs st)
  case (Cons w ws)
  let ?st = "fold_verifier selections outcomes st w"
  have "accounts_ok selections ((vs @ [w]) @ ws) (foldl (fold_verifier selections outcomes) ?st ws) \<and>
    (\<forall>r \<in> set (fo_results (foldl (fold_verifier selections outcomes) ?st ws)).
       backed ((vs @ [w]) @ ws) selections outcomes (fo_results (foldl (fold_verifier selections outcomes) ?st ws)) r)"
  proof (rule Cons.IH)
    show "accounts_ok selections (vs @ [w]) ?st"
      using Cons.prems by (intro fold_verifier_accounts_ok) auto
    show "\<forall>r \<in> set (fo_results ?st). backed (vs @ [w]) selections outcomes (fo_results ?st) r"
      by (rule fold_verifier_backed [OF Cons.prems(4,5)])
    show "artifacts_backed ?st" by (rule fold_verifier_artifacts [OF Cons.prems(4)])
  qed (use Cons.prems(1,2) in simp_all)
  then show ?case by simp
qed simp

lemma fold_start_ok: "accounts_ok selections [] fold_start" "artifacts_backed fold_start"
  by (simp_all add: fold_start_def accounts_ok_def accounts_of_def accounted_def artifacts_backed_def lookup_text_def)

text \<open>The whole observation.\<close>

lemma fold_observation_sound:
  assumes "distinct (List.map vm_id ordered)"
    and "\<forall>v \<in> set ordered. distinct (List.map su_id (sl_units (selection_of selections v)))"
    and "ob = fold_observation tree ordered selections outcomes"
  shows "distinct (List.map result_id (to_results ob) @ List.map unknown_id (to_unknown ob))"
    and "to_complete ob \<Longrightarrow> v \<in> set ordered \<Longrightarrow> u \<in> set (sl_units (selection_of selections v)) \<Longrightarrow>
      (vm_id v, su_id u) \<in> result_id ` set (to_results ob) \<union> unknown_id ` set (to_unknown ob)"
    and "r \<in> set (to_results ob) \<Longrightarrow> backed ordered selections outcomes (to_results ob) r"
proof -
  let ?st = "foldl (fold_verifier selections outcomes) fold_start ordered"
  have st: "to_results ob = fo_results ?st" "to_unknown ob = fo_unknown ?st" "to_complete ob = fo_complete ?st"
    using assms(3) by (simp_all add: fold_observation_def Let_def)
  have "accounts_ok selections ([] @ ordered) ?st \<and>
      (\<forall>r \<in> set (fo_results ?st). backed ([] @ ordered) selections outcomes (fo_results ?st) r)"
    by (rule fold_verifiers) (use assms(1,2) fold_start_ok in \<open>simp_all add: fold_start_def\<close>)
  then have ok: "accounts_ok selections ordered ?st"
      and stand: "\<forall>r \<in> set (fo_results ?st). backed ordered selections outcomes (fo_results ?st) r" by simp_all
  have acc: "accounts_of ?st = mset (List.map result_id (to_results ob) @ List.map unknown_id (to_unknown ob))"
    by (simp add: accounts_of_def accounted_def st)
  show "distinct (List.map result_id (to_results ob) @ List.map unknown_id (to_unknown ob))"
    using ok acc unfolding accounts_ok_def distinct_count_atmost_1
    by (metis count_greater_zero_iff count_eq_zero_iff le_antisym less_one not_le set_mset_mset)
  show "to_complete ob \<Longrightarrow> v \<in> set ordered \<Longrightarrow> u \<in> set (sl_units (selection_of selections v)) \<Longrightarrow>
      (vm_id v, su_id u) \<in> result_id ` set (to_results ob) \<union> unknown_id ` set (to_unknown ob)"
    using ok acc st(3) by (auto simp: accounts_ok_def)
  show "r \<in> set (to_results ob) \<Longrightarrow> backed ordered selections outcomes (to_results ob) r"
    using stand st(1) by simp
qed

end
