(* ===== verification/Simplify_Facts.thy ===== *)
theory Simplify_Facts
  imports Verify_Simplify
begin

text \<open>
  Why simplification loses nothing: parsing inverts putting a message together, the groups
  hold the entries they were made of, and a template with the placeholders of an occurrence
  gives back the quoted parts of its message.
\<close>

section \<open>Parsing\<close>

fun weave :: "string list \<Rightarrow> (char \<times> string) list \<Rightarrow> string" where
  "weave (l # ls) ((d, v) # vs) = l @ d # v @ d # weave ls vs"
| "weave (l # ls) [] = l"
| "weave [] _ = []"

definition woven :: "string list \<Rightarrow> (char \<times> string) list \<Rightarrow> string" where
  "woven lits vals = concat (map2 (\<lambda>l v. l @ fst v # snd v @ [fst v]) lits vals)"

lemma weave_snoc: "length lits = length vals \<Longrightarrow> weave (lits @ [l]) vals = woven lits vals @ l"
  by (induction lits vals rule: list_induct2) (auto simp: woven_def)

lemma woven_snoc: "length lits = length vals \<Longrightarrow> woven (lits @ [l]) (vals @ [(d, v)]) = woven lits vals @ l @ d # v @ [d]"
  by (simp add: woven_def)

lemma parse_loop_weaves:
  "parse_loop d esc cur lits vals s = Some p \<Longrightarrow>
     (case d of None \<Rightarrow> length lits = length vals | Some q \<Rightarrow> \<exists>pre l. lits = pre @ [l] \<and> length pre = length vals) \<Longrightarrow>
     length (pm_literals p) = Suc (length (pm_values p)) \<and>
     weave (pm_literals p) (pm_values p) =
       (case d of None \<Rightarrow> woven lits vals @ cur @ s
        | Some q \<Rightarrow> woven (butlast lits) vals @ last lits @ q # cur @ s)"
proof (induction d esc cur lits vals s rule: parse_loop.induct)
  case (1 d esc cur lits vals)
  then show ?case by (auto simp: weave_snoc split: if_splits)
next
  case (2 d esc cur lits vals c s)
  note IH = "2.IH" and prems = "2.prems"
  show ?case
  proof (cases d)
    case None
    then show ?thesis using IH prems by (auto split: if_splits)
  next
    case (Some q)
    then obtain pre l where lits: "lits = pre @ [l]" "length pre = length vals" using prems(2) by auto
    consider "esc" | "\<not> esc" "c = CHR 0x5C" | "\<not> esc" "c \<noteq> CHR 0x5C" "c = q" | "\<not> esc" "c \<noteq> CHR 0x5C" "c \<noteq> q" by blast
    then show ?thesis
    proof cases
      case 1
      then show ?thesis using IH(3) [OF Some 1] prems(1) Some lits by auto
    next
      case 2
      then show ?thesis using IH(4) [OF Some] prems(1) Some lits by simp
    next
      case 3
      then show ?thesis using IH(5) [OF Some] prems(1) Some lits by (simp add: woven_snoc)
    next
      case 4
      then show ?thesis using IH(6) [OF Some] prems(1) Some lits by simp
    qed
  qed
qed

lemma parse_message_weaves:
  assumes "parse_message m = Some p"
  shows "length (pm_literals p) = Suc (length (pm_values p)) \<and> weave (pm_literals p) (pm_values p) = m"
  using parse_loop_weaves [of None False "[]" "[]" "[]" m p] assms by (simp add: parse_message_def woven_def)

section \<open>Templates\<close>

fun fill :: "string option list \<Rightarrow> string list \<Rightarrow> string list" where
  "fill [] args = []"
| "fill (Some v # qs) args = v # fill qs args"
| "fill (None # qs) args = hd args # fill qs (tl args)"

text \<open>The template and the placeholders give back the quoted parts of a message.\<close>

definition explains :: "string list \<Rightarrow> (char \<times> string option) list \<Rightarrow> string list \<Rightarrow> string \<Rightarrow> bool" where
  "explains lits qs args m \<longleftrightarrow>
     (\<exists>vs. parse_message m = Some \<lparr>pm_literals = lits, pm_values = vs\<rparr> \<and> List.map snd vs = fill (List.map snd qs) args \<and>
        length args = length (filter (\<lambda>q. snd q = None) qs))"

lemma fill_placeholders:
  assumes "list_all2 (\<lambda>q v. snd q = None \<or> snd q = Some (snd v)) qs (pm_values p)"
  shows "fill (List.map snd qs) (placeholders qs p) = List.map snd (pm_values p) \<and>
     length (placeholders qs p) = length (filter (\<lambda>q. snd q = None) qs)"
proof -
  have "fill (List.map snd qs) (List.map (\<lambda>(q, v). snd v) (filter (\<lambda>(q, v). snd q = None) (zip qs vs))) = List.map snd vs \<and>
      length (filter (\<lambda>(q, v). snd q = None) (zip qs vs)) = length (filter (\<lambda>q. snd q = None) qs)"
    if "list_all2 (\<lambda>q v. snd q = None \<or> snd q = Some (snd v)) qs vs" for vs :: "(char \<times> string) list"
    using that by (induction rule: list_all2_induct) auto
  from this [OF assms] show ?thesis by (simp add: placeholders_def)
qed

definition uniform :: "string list \<Rightarrow> 'a scaffold \<Rightarrow> bool" where
  "uniform lits scaffold \<longleftrightarrow>
     scaffold \<noteq> [] \<and> (\<forall>x \<in> set scaffold. parse_message (dg_message (fst x)) = Some (snd x) \<and> pm_literals (snd x) = lits)"

lemma uniform_length:
  "uniform lits scaffold \<Longrightarrow> x \<in> set scaffold \<Longrightarrow> length lits = Suc (length (pm_values (snd x)))"
  unfolding uniform_def using parse_message_weaves by metis

lemma template_matches:
  assumes "uniform lits scaffold" and "x \<in> set scaffold"
  shows "list_all2 (\<lambda>q v. snd q = None \<or> snd q = Some (snd v)) (template_quotes scaffold) (pm_values (snd x))"
proof -
  let ?vs = "pm_values (snd (hd scaffold))"
  have hd: "hd scaffold \<in> set scaffold" using assms(1) by (simp add: uniform_def)
  have len: "length (pm_values (snd x)) = length ?vs"
    using uniform_length [OF assms] uniform_length [OF assms(1) hd] by simp
  show ?thesis
    unfolding list_all2_conv_all_nth
  proof (intro conjI allI impI)
    fix i assume "i < length (template_quotes scaffold)"
    then have i: "i < length ?vs" by (simp add: template_quotes_def Let_def)
    show "snd (template_quotes scaffold ! i) = None \<or> snd (template_quotes scaffold ! i) = Some (snd (pm_values (snd x) ! i))"
      using i assms(2) by (auto simp: template_quotes_def Let_def variable_at_def list_ex_iff)
  qed (simp add: template_quotes_def Let_def len)
qed

lemma template_explains:
  assumes "uniform lits scaffold" and "x \<in> set scaffold"
  shows "explains lits (template_quotes scaffold) (placeholders (template_quotes scaffold) (snd x)) (dg_message (fst x))"
proof -
  have "parse_message (dg_message (fst x)) = Some \<lparr>pm_literals = lits, pm_values = pm_values (snd x)\<rparr>"
    using assms unfolding uniform_def by (metis parsed_message.surjective old.unit.exhaust)
  then show ?thesis using fill_placeholders [OF template_matches [OF assms]] by (auto simp: explains_def)
qed

section \<open>Groups of messages\<close>

definition group_messages_of :: "'a message_group \<Rightarrow> string set" where
  "group_messages_of g = (\<lambda>x. dg_message (fst x)) ` set (mg_items g)"

text \<open>What a group says of its items is true, and a template is worth its characters.\<close>

definition truthful :: "'a message_group \<Rightarrow> bool" where
  "truthful g \<longleftrightarrow> mg_items g \<noteq> [] \<and>
     (if mg_parameterized g
      then (\<exists>lits qs. mg_message g = template_text lits qs \<and>
              (\<forall>x \<in> set (mg_items g). explains lits qs (snd x) (dg_message (fst x)))) \<and>
           utf16_length (mg_message g) < (\<Sum>m \<in> group_messages_of g. utf16_length m)
      else (\<forall>x \<in> set (mg_items g). dg_message (fst x) = mg_message g \<and> snd x = []))"

definition items_of :: "'a message_group list \<Rightarrow> 'a diag_entry multiset" where
  "items_of gs = (\<Sum>g \<leftarrow> gs. mset (List.map fst (mg_items g)))"

lemma items_of_append: "items_of (gs @ hs) = items_of gs + items_of hs"
  by (simp add: items_of_def)

lemma exact_truthful: "g \<in> set (exact_groups es) \<Longrightarrow> truthful g"
  by (auto simp: exact_groups_def truthful_def dest: bucket_key bucket_nonempty)

lemma items_exact: "items_of (exact_groups es) = mset es"
proof -
  have "items_of (exact_groups es) = mset (concat (List.map snd (buckets dg_message es)))"
    by (simp add: items_of_def exact_groups_def mset_concat_sum multiset.map_comp comp_def case_prod_unfold)
  then show ?thesis by (simp add: mset_buckets)
qed

lemma exact_cost:
  "sum_list (List.map (\<lambda>g. f (mg_message g)) (exact_groups es)) = (\<Sum>m \<in> dg_message ` set es. f m)"
proof -
  have "sum_list (List.map (\<lambda>g. f (mg_message g)) (exact_groups es)) = sum_list (List.map f (List.map fst (buckets dg_message es)))"
    by (simp add: exact_groups_def comp_def case_prod_unfold)
  moreover have "distinct (List.map fst (buckets dg_message es))"
    using sorted_out_buckets [of dg_message es] by (simp add: sorted_out_def)
  moreover have "set (List.map fst (buckets dg_message es)) = dg_message ` set es"
  proof (intro set_eqI iffI)
    fix m assume "m \<in> set (List.map fst (buckets dg_message es))"
    then obtain b where b: "b \<in> set (buckets dg_message es)" "m = fst b" by auto
    then obtain e where "e \<in> set (snd b)" using bucket_nonempty [OF b(1)] by (cases "snd b") auto
    then show "m \<in> dg_message ` set es" using b bucket_key [OF b(1)] bucket_member [OF b(1)] by force
  next
    fix m assume "m \<in> dg_message ` set es"
    then obtain e where e: "e \<in> set es" "m = dg_message e" by blast
    then have "e \<in> set (concat (List.map snd (buckets dg_message es)))"
      by (metis mset_buckets set_mset_mset)
    then obtain b where b: "b \<in> set (buckets dg_message es)" "e \<in> set (snd b)" by auto
    then show "m \<in> set (List.map fst (buckets dg_message es))" using bucket_key [OF b] e(2) by force
  qed
  ultimately show ?thesis by (metis sum.distinct_set_conv_list)
qed

lemma group_scaffold_items: "items_of (group_scaffold scaffold) = mset (List.map fst scaffold)"
  by (auto simp: group_scaffold_def Let_def items_exact)
    (simp_all add: items_of_def multiset.map_comp comp_def case_prod_unfold)

lemma group_scaffold_truthful:
  assumes "uniform lits scaffold" and "g \<in> set (group_scaffold scaffold)"
  shows "truthful g"
proof (cases "g \<in> set (exact_groups (List.map fst scaffold))")
  case True
  then show ?thesis by (rule exact_truthful)
next
  case False
  let ?qs = "template_quotes scaffold"
  let ?text = "template_text (pm_literals (snd (hd scaffold))) ?qs"
  have g: "g = \<lparr>mg_message = ?text, mg_parameterized = True,
        mg_items = List.map (\<lambda>(e, p). (e, placeholders ?qs p)) scaffold\<rparr>"
    and short: "utf16_length ?text < sum_list (List.map (\<lambda>g. utf16_length (mg_message g)) (exact_groups (List.map fst scaffold)))"
    using assms(2) False by (auto simp: group_scaffold_def Let_def not_le split: if_splits)
  have lits: "pm_literals (snd (hd scaffold)) = lits" and ne: "scaffold \<noteq> []" using assms(1) by (auto simp: uniform_def)
  have messages: "group_messages_of g = dg_message ` set (List.map fst scaffold)"
    by (force simp: group_messages_of_def g)
  have "\<forall>x \<in> set (mg_items g). explains lits ?qs (snd x) (dg_message (fst x))"
    using template_explains [OF assms(1)] by (auto simp: g)
  then show ?thesis
    using short ne unfolding truthful_def messages exact_cost
    by (auto simp: g lits simp del: set_map intro!: exI [of _ lits] exI [of _ ?qs])
qed

section \<open>A family\<close>

lemma split_quoted_parts:
  "split_quoted es = (qs, us) \<Longrightarrow>
     mset (List.map fst qs) + mset us = mset es \<and> (\<forall>x \<in> set qs. parse_message (dg_message (fst x)) = Some (snd x))"
proof (induction es arbitrary: qs us)
  case (Cons e es)
  obtain qs' us' where split: "split_quoted es = (qs', us')" by (cases "split_quoted es")
  show ?case using Cons.IH [OF split] Cons.prems split by (auto split: option.splits)
qed simp

lemma uniform_bucket:
  assumes "\<forall>x \<in> set qs. parse_message (dg_message (fst x)) = Some (snd x)"
    and "b \<in> set (buckets (\<lambda>x. pm_literals (snd x)) qs)"
  shows "uniform (fst b) (snd b)"
  using assms bucket_member [OF assms(2)] bucket_key [OF assms(2)] bucket_nonempty [OF assms(2)]
  by (auto simp: uniform_def)

lemma group_messages_truthful: "g \<in> set (group_messages es) \<Longrightarrow> truthful g"
proof -
  assume g: "g \<in> set (group_messages es)"
  obtain qs us where split: "split_quoted es = (qs, us)" by (cases "split_quoted es")
  note parts = split_quoted_parts [OF split]
  from g consider b where "b \<in> set (buckets (\<lambda>x. pm_literals (snd x)) qs)" "g \<in> set (group_scaffold (snd b))"
    | "g \<in> set (exact_groups us)" by (auto simp: group_messages_def split)
  then show "truthful g"
  proof cases
    case 1
    then show ?thesis using group_scaffold_truthful uniform_bucket parts by blast
  next
    case 2
    then show ?thesis by (rule exact_truthful)
  qed
qed

lemma items_of_concat: "items_of (concat (List.map f xs)) = (\<Sum>x \<leftarrow> xs. items_of (f x))"
  by (induction xs) (auto simp: items_of_append items_of_def)

lemma group_messages_items: "items_of (group_messages es) = mset es"
proof -
  obtain qs us where split: "split_quoted es = (qs, us)" by (cases "split_quoted es")
  let ?bs = "buckets (\<lambda>x. pm_literals (snd x)) qs"
  have "(\<Sum>b \<leftarrow> bs. items_of (group_scaffold (snd b))) = image_mset fst (mset (concat (List.map snd bs)))"
    for bs :: "(string list \<times> 'a scaffold) list"
    by (induction bs) (simp_all add: group_scaffold_items)
  from this [of ?bs] have "(\<Sum>b \<leftarrow> ?bs. items_of (group_scaffold (snd b))) = image_mset fst (mset (concat (List.map snd ?bs)))" .
  also have "\<dots> = mset (List.map fst qs)" by (simp only: mset_buckets mset_map)
  finally show ?thesis
    using split_quoted_parts [OF split] by (simp add: group_messages_def split items_of_append items_of_concat items_exact)
qed

section \<open>Files\<close>

definition root_occurrences :: "'a simple_root list \<Rightarrow> 'a simple_occurrence list" where
  "root_occurrences roots = concat (List.map (\<lambda>r. concat (List.map sf_occurrences (sr_files r))) roots)"

definition bucket_content :: "(string \<times> 'a simple_occurrence list) list \<Rightarrow> 'a simple_occurrence multiset" where
  "bucket_content files = mset (concat (List.map snd files))"

lemma place_item_content:
  "(\<Sum>b \<leftarrow> place_item roots out it. bucket_content (snd b)) =
     add_mset (occurrence_of it) (\<Sum>b \<leftarrow> out. bucket_content (snd b))"
proof -
  obtain label path where loc: "locate_file roots (entry_path (fst it)) = (label, path)" by fastforce
  have "bucket_content (add_bucket path (occurrence_of it) (opt_list o')) =
      (case o' of None \<Rightarrow> {#} | Some v \<Rightarrow> bucket_content v) + {#occurrence_of it#}" for o'
    by (cases o') (simp_all add: bucket_content_def mset_add_bucket)
  from upsert_with_content [where content = bucket_content, OF this] show ?thesis
    by (simp add: place_item_def loc)
qed

lemma root_occurrences_mset: "mset (root_occurrences (group_files items roots)) = image_mset occurrence_of (mset items)"
proof -
  have "(\<Sum>b \<leftarrow> foldl (place_item roots) out items. bucket_content (snd b)) =
      (\<Sum>b \<leftarrow> out. bucket_content (snd b)) + image_mset occurrence_of (mset items)" for out
    by (induction items arbitrary: out) (simp_all add: place_item_content)
  from this [of "[]"] show ?thesis
    by (simp add: root_occurrences_def group_files_def mset_concat_sum comp_def case_prod_unfold bucket_content_def)
qed

lemma root_occurrences_set: "set (root_occurrences (group_files items roots)) = occurrence_of ` set items"
  using arg_cong [OF root_occurrences_mset, of set_mset items roots] by simp

section \<open>All diagnostics\<close>

definition group_occurrences :: "'a simple_group \<Rightarrow> 'a simple_occurrence list" where
  "group_occurrences g = root_occurrences (sg_roots g)"

definition group_true :: "'a simple_group \<Rightarrow> bool" where
  "group_true g \<longleftrightarrow> group_occurrences g \<noteq> [] \<and>
     (if sg_parameterized g
      then (\<exists>lits qs. sg_text g = template_text lits qs \<and>
              (\<forall>o' \<in> set (group_occurrences g). explains lits qs (so_placeholders o') (so_message o'))) \<and>
           utf16_length (sg_text g) < (\<Sum>m \<in> so_message ` set (group_occurrences g). utf16_length m)
      else (\<forall>o' \<in> set (group_occurrences g). so_message o' = sg_text g \<and> so_placeholders o' = []))"

lemma occurrence_parts [simp]:
  "so_message (occurrence_of x) = dg_message (fst x)" "so_placeholders (occurrence_of x) = snd x"
  "so_diagnostic (occurrence_of x) = dg_diagnostic (fst x)"
  by (simp_all add: occurrence_of_def)

lemma truthful_group:
  assumes "truthful m" and "sg_text g = mg_message m" and "sg_parameterized g = mg_parameterized m"
    and "sg_roots g = group_files (mg_items m) roots"
  shows "group_true g"
proof -
  have set: "set (group_occurrences g) = occurrence_of ` set (mg_items m)"
    by (simp add: group_occurrences_def assms(4) root_occurrences_set)
  then have ne: "group_occurrences g \<noteq> []" using assms(1) by (auto simp: truthful_def)
  have messages: "so_message ` set (group_occurrences g) = group_messages_of m"
    by (force simp: set group_messages_of_def)
  show ?thesis
  proof (cases "mg_parameterized m")
    case True
    then obtain lits qs where "mg_message m = template_text lits qs"
        "\<forall>x \<in> set (mg_items m). explains lits qs (snd x) (dg_message (fst x))"
        "utf16_length (mg_message m) < (\<Sum>m \<in> group_messages_of m. utf16_length m)"
      using assms(1) unfolding truthful_def by (auto split: if_splits)
    then show ?thesis
      unfolding group_true_def messages assms(2,3) using True ne
      by (auto simp: set intro!: exI [of _ lits] exI [of _ qs])
  next
    case False
    then show ?thesis using assms(1-3) ne by (auto simp: truthful_def group_true_def set)
  qed
qed

lemma simplify_family_true: "g \<in> set (simplify_family roots b) \<Longrightarrow> group_true g"
  unfolding simplify_family_def by (auto intro!: truthful_group group_messages_truthful)

definition told :: "'a simple_occurrence \<Rightarrow> 'a \<times> string" where
  "told o' = (so_diagnostic o', so_message o')"

lemma simplify_family_told:
  "(\<Sum>g \<leftarrow> simplify_family roots b. image_mset told (mset (group_occurrences g))) =
     image_mset (\<lambda>e. (dg_diagnostic e, dg_message e)) (mset (snd b))"
proof -
  have told: "image_mset told (mset (root_occurrences (group_files items roots))) =
      image_mset (\<lambda>e. (dg_diagnostic e, dg_message e)) (mset (List.map fst items))" for items
    by (simp add: root_occurrences_mset told_def multiset.map_comp comp_def)
  have all: "(\<Sum>g \<leftarrow> gs. image_mset told (mset (root_occurrences (group_files (mg_items g) roots)))) =
      image_mset (\<lambda>e. (dg_diagnostic e, dg_message e)) (items_of gs)" for gs
    by (induction gs) (simp_all add: told items_of_def)
  show ?thesis
    using all [of "group_messages (snd b)"] by (simp add: simplify_family_def comp_def group_occurrences_def group_messages_items)
qed

lemma simplify_sound:
  "(\<Sum>g \<leftarrow> simplify folders es. image_mset told (mset (group_occurrences g))) =
     image_mset (\<lambda>e. (dg_diagnostic e, dg_message e)) (mset es)"
  "g \<in> set (simplify folders es) \<Longrightarrow> group_true g"
proof -
  let ?bs = "buckets family_identity es"
  have "(\<Sum>g \<leftarrow> concat (List.map (simplify_family roots) bs). image_mset told (mset (group_occurrences g))) =
      image_mset (\<lambda>e. (dg_diagnostic e, dg_message e)) (mset (concat (List.map snd bs)))"
    for roots and bs :: "((string \<times> string option \<times> string) \<times> 'a diag_entry list) list"
    by (induction bs) (simp_all add: simplify_family_told)
  from this [of "prepare_roots folders" ?bs]
  show "(\<Sum>g \<leftarrow> simplify folders es. image_mset told (mset (group_occurrences g))) =
     image_mset (\<lambda>e. (dg_diagnostic e, dg_message e)) (mset es)"
    by (simp only: simplify_def mset_buckets)
  show "g \<in> set (simplify folders es) \<Longrightarrow> group_true g"
    by (auto simp: simplify_def intro: simplify_family_true)
qed

section \<open>Two kinds of quotes\<close>

text \<open>
  Messages whose literals agree share a template although they quote with different characters;
  the template has the quotes of the first.
\<close>

definition quoted_entry :: "char \<Rightarrow> string \<Rightarrow> unit diag_entry" where
  "quoted_entry q name = \<lparr>dg_diagnostic = (), dg_message = ''cannot find module '' @ q # name @ [q], dg_key = Some ''k'',
     dg_code = None, dg_verifier = ''v'', dg_file = None, dg_annotations = [], dg_position = None\<rparr>"

lemma mixed_quotes_share_template:
  "List.map sg_text (simplify [] [quoted_entry CHR 0x22 ''first-name'', quoted_entry CHR 0x60 ''second-name'']) =
     [''cannot find module '' @ CHR 0x22 # ''<arg1>'' @ [CHR 0x22]]"
  by code_simp

end
