(* ===== verification/Delta_Facts.thy ===== *)
theory Delta_Facts
  imports Verify_Delta Observe_Facts Simplify_Facts
begin

text \<open>
  The fold over a session's attention: what its two loops compute, which keys the next Last
  Seen has, and that the groups shown count what the delta counts.
\<close>

section \<open>The loops\<close>

definition present_key :: "fold_input \<Rightarrow> string \<Rightarrow> bool" where
  "present_key i k \<longleftrightarrow> k \<in> oc_key ` set (fi_occurrences i)"

definition carried :: "fold_input \<Rightarrow> string \<times> seen_entry \<Rightarrow> bool" where
  "carried i e \<longleftrightarrow> \<not> present_key i (fst e) \<and> unobserved (fi_observation i) (snd e)"

definition departed :: "fold_input \<Rightarrow> string \<times> seen_entry \<Rightarrow> bool" where
  "departed i e \<longleftrightarrow> \<not> present_key i (fst e) \<and> \<not> unobserved (fi_observation i) (snd e)"

definition keep_entries :: "last_entries \<Rightarrow> last_entries \<Rightarrow> last_entries" where
  "keep_entries acc es = foldl (\<lambda>acc e. keep_entry (fst e) (snd e) acc) acc es"

abbreviation in_focus :: "(string \<Rightarrow> string \<Rightarrow> bool) \<Rightarrow> fold_input \<Rightarrow> report_occurrence \<Rightarrow> bool" where
  "in_focus glob i c \<equiv> focused glob (fi_focus i) (seen_of c)"

abbreviation entry_focused :: "(string \<Rightarrow> string \<Rightarrow> bool) \<Rightarrow> fold_input \<Rightarrow> string \<times> seen_entry \<Rightarrow> bool" where
  "entry_focused glob i e \<equiv> focused glob (fi_focus i) (snd e)"

definition remembered :: "(string \<Rightarrow> string \<Rightarrow> bool) \<Rightarrow> fold_input \<Rightarrow> report_occurrence \<Rightarrow> bool" where
  "remembered glob i c \<longleftrightarrow> was_seen i c \<or> in_focus glob i c"

lemma keep_entries_simps [simp]:
  "keep_entries acc [] = acc" "keep_entries acc (e # es) = keep_entries (keep_entry (fst e) (snd e) acc) es"
  "keep_entries acc (es @ fs) = keep_entries (keep_entries acc es) fs"
  by (simp_all add: keep_entries_def)

lemma present_key_found: "list_ex (\<lambda>c. oc_key c = k) (fi_occurrences i) = present_key i k"
  unfolding list_ex_iff present_key_def by (metis imageE image_eqI)

lemma fold_seen_one:
  "fold_seen glob i st e =
     st\<lparr>ds_next := keep_entries (ds_next st) (if carried i e then [e] else []),
        ds_resolved_entries := ds_resolved_entries st @
          (if departed i e then [(resolved_occurrence (fst e) (snd e), StatusResolved)] else []),
        ds_resolved := ds_resolved st @
          (if departed i e \<and> entry_focused glob i e then [resolved_of (fst e) (snd e)] else []),
        ds_elsewhere := (ds_elsewhere st)\<lparr>dc_resolved := dc_resolved (ds_elsewhere st) +
          (if departed i e \<and> \<not> entry_focused glob i e then 1 else 0)\<rparr>\<rparr>"
  by (simp add: fold_seen_def present_key_found carried_def departed_def count_status_def)

lemma fold_seen_all:
  "foldl (fold_seen glob i) st es =
     st\<lparr>ds_next := keep_entries (ds_next st) (filter (carried i) es),
        ds_resolved_entries := ds_resolved_entries st @
          List.map (\<lambda>e. (resolved_occurrence (fst e) (snd e), StatusResolved)) (filter (departed i) es),
        ds_resolved := ds_resolved st @
          List.map (\<lambda>e. resolved_of (fst e) (snd e)) (filter (\<lambda>e. departed i e \<and> entry_focused glob i e) es),
        ds_elsewhere := (ds_elsewhere st)\<lparr>dc_resolved := dc_resolved (ds_elsewhere st) +
          length (filter (\<lambda>e. departed i e \<and> \<not> entry_focused glob i e) es)\<rparr>\<rparr>"
proof (induction es arbitrary: st)
  case (Cons e es)
  show ?case by (simp only: foldl.simps Cons.IH) (simp add: fold_seen_one)
qed simp

definition present_entry :: "report_occurrence \<Rightarrow> string \<times> seen_entry" where
  "present_entry c = (oc_key c, seen_of c)"

lemma fold_present_one:
  "fold_present glob i st c =
     st\<lparr>ds_next := keep_entries (ds_next st) (if remembered glob i c then [present_entry c] else []),
        ds_entries := ds_entries st @ [(c, seen_status i c)],
        ds_new := ds_new st @ (if in_focus glob i c \<and> \<not> was_seen i c then [c] else []),
        ds_unchanged := ds_unchanged st + (if in_focus glob i c \<and> was_seen i c then 1 else 0),
        ds_shown := ds_shown st @ (if in_focus glob i c then [(c, was_seen i c)] else []),
        ds_elsewhere := (ds_elsewhere st)\<lparr>
          dc_new := dc_new (ds_elsewhere st) + (if \<not> in_focus glob i c \<and> \<not> was_seen i c then 1 else 0),
          dc_unchanged := dc_unchanged (ds_elsewhere st) + (if \<not> in_focus glob i c \<and> was_seen i c then 1 else 0)\<rparr>\<rparr>"
  by (cases "was_seen i c"; cases "in_focus glob i c")
    (simp_all add: fold_present_def count_present_def remembered_def seen_status_def present_entry_def count_status_def)

lemma fold_present_all:
  "foldl (fold_present glob i) st cs =
     st\<lparr>ds_next := keep_entries (ds_next st) (List.map present_entry (filter (remembered glob i) cs)),
        ds_entries := ds_entries st @ List.map (\<lambda>c. (c, seen_status i c)) cs,
        ds_new := ds_new st @ filter (\<lambda>c. in_focus glob i c \<and> \<not> was_seen i c) cs,
        ds_unchanged := ds_unchanged st + length (filter (\<lambda>c. in_focus glob i c \<and> was_seen i c) cs),
        ds_shown := ds_shown st @ List.map (\<lambda>c. (c, was_seen i c)) (filter (in_focus glob i) cs),
        ds_elsewhere := (ds_elsewhere st)\<lparr>
          dc_new := dc_new (ds_elsewhere st) + length (filter (\<lambda>c. \<not> in_focus glob i c \<and> \<not> was_seen i c) cs),
          dc_unchanged := dc_unchanged (ds_elsewhere st) + length (filter (\<lambda>c. \<not> in_focus glob i c \<and> was_seen i c) cs)\<rparr>\<rparr>"
proof (induction cs arbitrary: st)
  case (Cons c cs)
  show ?case by (simp only: foldl.simps Cons.IH) (simp add: fold_present_one)
qed simp

lemmas delta_loops_all = delta_loops_def fold_seen_all fold_present_all

section \<open>The next Last Seen\<close>

lemma keep_entries_keys: "List.map fst (keep_entries acc es) = foldl keep_new (List.map fst acc) (List.map fst es)"
  by (induction es arbitrary: acc) (simp_all add: keep_entry_def upsert_with_keys)

lemma keep_entries_map: "map_of (keep_entries acc es) = map_of acc ++ map_of (rev es)"
  by (induction es arbitrary: acc) (simp_all add: keep_entry_def map_of_upsert_with)

definition next_seen :: "(string \<Rightarrow> string \<Rightarrow> bool) \<Rightarrow> fold_input \<Rightarrow> last_entries" where
  "next_seen glob i = ls_occurrences (snd (delta_fold glob i))"

lemma next_seen_entries:
  "next_seen glob i =
     keep_entries [] (filter (carried i) (ls_occurrences (fi_last i)) @
       List.map present_entry (filter (remembered glob i) (fi_occurrences i)))"
  by (simp add: next_seen_def delta_fold_def Let_def delta_loops_all delta_start_def)

lemma next_seen_keys:
  "fst ` set (next_seen glob i) =
     fst ` set (filter (carried i) (ls_occurrences (fi_last i))) \<union>
     oc_key ` set (filter (remembered glob i) (fi_occurrences i))"
proof -
  have "fst ` set (next_seen glob i) = set (List.map fst (next_seen glob i))" by simp
  also have "\<dots> = fst ` set (filter (carried i) (ls_occurrences (fi_last i)) @
       List.map present_entry (filter (remembered glob i) (fi_occurrences i)))"
    unfolding next_seen_entries keep_entries_keys by (simp only: set_foldl_keep_new list.map(1) list.set(1) Un_empty_left set_map)
  finally show ?thesis by (simp only: set_append set_map image_Un image_image present_entry_def fst_conv)
qed

lemma next_seen_distinct: "distinct (List.map fst (next_seen glob i))"
  unfolding next_seen_entries keep_entries_keys by (simp only: distinct_foldl_keep_new) simp

lemma keep_entries_member: "e \<in> set (keep_entries acc es) \<Longrightarrow> e \<in> set acc \<or> e \<in> set es"
proof (induction es arbitrary: acc)
  case (Cons x es)
  from Cons.IH [of "keep_entry (fst x) (snd x) acc"] Cons.prems
  consider "e \<in> set (keep_entry (fst x) (snd x) acc)" | "e \<in> set es" by auto
  then show ?case
  proof cases
    case 1
    then show ?thesis unfolding keep_entry_def by (cases x) (auto dest!: upsert_with_cases)
  qed simp
qed simp

text \<open>Every entry is one kept of the last, or one of an occurrence that is there.\<close>

lemma next_seen_source:
  "e \<in> set (next_seen glob i) \<Longrightarrow>
     (e \<in> set (ls_occurrences (fi_last i)) \<and> carried i e) \<or>
     (\<exists>c \<in> set (fi_occurrences i). remembered glob i c \<and> e = present_entry c)"
  unfolding next_seen_entries using keep_entries_member by fastforce

lemma next_seen_absent:
  assumes "e \<in> set (next_seen glob i)" and "\<not> present_key i (fst e)"
  shows "e \<in> set (ls_occurrences (fi_last i)) \<and> carried i e"
proof -
  have "e \<noteq> present_entry c" if "c \<in> set (fi_occurrences i)" for c
    using assms(2) that by (auto simp: present_key_def present_entry_def)
  then show ?thesis using next_seen_source [OF assms(1)] by blast
qed

section \<open>Looking again\<close>

definition look_again :: "(string \<Rightarrow> string \<Rightarrow> bool) \<Rightarrow> fold_input \<Rightarrow> fold_input" where
  "look_again glob i = i\<lparr>fi_last := snd (delta_fold glob i)\<rparr>"

lemma look_again_parts [simp]:
  "fi_observation (look_again glob i) = fi_observation i" "fi_occurrences (look_again glob i) = fi_occurrences i"
  "fi_focus (look_again glob i) = fi_focus i" "ls_occurrences (fi_last (look_again glob i)) = next_seen glob i"
  by (simp_all add: look_again_def next_seen_def)

lemma was_seen_iff: "was_seen i c \<longleftrightarrow> oc_key c \<in> fst ` set (ls_occurrences (fi_last i))"
  unfolding was_seen_def list_ex_iff by (metis imageE image_eqI)

lemma seen_again:
  assumes "c \<in> set (fi_occurrences i)"
  shows "was_seen (look_again glob i) c \<longleftrightarrow> (\<exists>c' \<in> set (fi_occurrences i). oc_key c' = oc_key c \<and> remembered glob i c')"
proof -
  have "present_key i (oc_key c)" using assms by (simp add: present_key_def)
  then have "oc_key c \<notin> fst ` set (filter (carried i) (ls_occurrences (fi_last i)))" by (auto simp: carried_def)
  then have "was_seen (look_again glob i) c \<longleftrightarrow> oc_key c \<in> oc_key ` set (filter (remembered glob i) (fi_occurrences i))"
    by (simp only: was_seen_iff look_again_parts next_seen_keys Un_iff simp_thms)
  then show ?thesis by (simp add: image_iff) metis
qed

lemma departed_never_again: "e \<in> set (next_seen glob i) \<Longrightarrow> \<not> departed (look_again glob i) e"
  by (auto dest!: next_seen_source simp: departed_def carried_def present_key_def present_entry_def)

lemma look_again_quiet:
  assumes "d = fst (delta_fold glob (look_again glob i))"
  shows "dl_new d = []" and "dl_resolved d = []"
    and "dl_unchanged d = length (filter (in_focus glob i) (fi_occurrences i))"
proof -
  have seen: "was_seen (look_again glob i) c" if "c \<in> set (fi_occurrences i)" "in_focus glob i c" for c
    using that by (auto simp: seen_again remembered_def)
  then have "filter (\<lambda>c. in_focus glob i c \<and> \<not> was_seen (look_again glob i) c) (fi_occurrences i) = []"
    by (auto simp: filter_empty_conv)
  then show "dl_new d = []" by (simp add: assms delta_fold_def Let_def delta_loops_all delta_start_def)
  have "filter (\<lambda>e. departed (look_again glob i) e \<and> entry_focused glob i e) (next_seen glob i) = []"
    by (auto simp: filter_empty_conv dest: departed_never_again)
  then show "dl_resolved d = []" by (simp add: assms delta_fold_def Let_def delta_loops_all delta_start_def)
  have "filter (\<lambda>c. in_focus glob i c \<and> was_seen (look_again glob i) c) (fi_occurrences i) =
      filter (in_focus glob i) (fi_occurrences i)"
    by (rule filter_cong) (auto simp: seen)
  then show "dl_unchanged d = length (filter (in_focus glob i) (fi_occurrences i))"
    by (simp add: assms delta_fold_def Let_def delta_loops_all delta_start_def)
qed

lemma carried_again: "carried (look_again glob i) e \<longleftrightarrow> carried i e"
  by (simp add: carried_def present_key_def)

lemma look_again_keys: "fst ` set (next_seen glob (look_again glob i)) = fst ` set (next_seen glob i)"
proof -
  let ?i = "look_again glob i"
  have "k \<in> fst ` set (filter (carried i) (next_seen glob i))"
    if "k \<in> fst ` set (filter (carried i) (ls_occurrences (fi_last i)))" for k
  proof -
    from that obtain e where e: "carried i e" "k = fst e" by auto
    from that have "k \<in> fst ` set (next_seen glob i)" by (simp only: next_seen_keys Un_iff simp_thms)
    then obtain e' where e': "e' \<in> set (next_seen glob i)" "fst e' = k" by auto
    then have "carried i e'"
      using next_seen_absent [OF e'(1)] e by (simp add: carried_def)
    then show ?thesis using e' by (auto intro: rev_image_eqI)
  qed
  moreover have "k \<in> fst ` set (filter (carried i) (ls_occurrences (fi_last i)))"
    if "k \<in> fst ` set (filter (carried i) (next_seen glob i))" for k
  proof -
    from that obtain e where e: "e \<in> set (next_seen glob i)" "carried i e" "k = fst e" by auto
    then have "e \<in> set (ls_occurrences (fi_last i))"
      using next_seen_absent [OF e(1)] by (simp add: carried_def)
    then show ?thesis using e by (auto intro: rev_image_eqI)
  qed
  ultimately have kept: "fst ` set (filter (carried i) (next_seen glob i)) = fst ` set (filter (carried i) (ls_occurrences (fi_last i)))"
    by (intro equalityI subsetI)
  have same: "filter (carried ?i) es = filter (carried i) es" for es
    by (rule filter_cong) (simp_all only: carried_again)
  have "oc_key ` set (filter (remembered glob ?i) (fi_occurrences ?i)) = oc_key ` set (filter (remembered glob i) (fi_occurrences i))"
  proof -
    have again: "remembered glob ?i c \<longleftrightarrow> (\<exists>c' \<in> set (fi_occurrences i). oc_key c' = oc_key c \<and> remembered glob i c')"
      if "c \<in> set (fi_occurrences i)" for c
      unfolding remembered_def [of glob ?i] seen_again [OF that] using that by (auto simp: remembered_def [of glob i])
    show ?thesis
    proof (intro equalityI subsetI; elim imageE)
      fix k c assume c: "k = oc_key c" "c \<in> set (filter (remembered glob ?i) (fi_occurrences ?i))"
      then have "c \<in> set (fi_occurrences i)" "remembered glob ?i c" by simp_all
      then obtain c' where "c' \<in> set (fi_occurrences i)" "oc_key c' = oc_key c" "remembered glob i c'"
        using again by blast
      then show "k \<in> oc_key ` set (filter (remembered glob i) (fi_occurrences i))"
        using c(1) by (intro image_eqI [where x = c']) simp_all
    next
      fix k c assume c: "k = oc_key c" "c \<in> set (filter (remembered glob i) (fi_occurrences i))"
      then have "remembered glob ?i c" using again [of c] by auto
      then show "k \<in> oc_key ` set (filter (remembered glob ?i) (fi_occurrences ?i))"
        using c by (intro image_eqI [where x = c]) simp_all
    qed
  qed
  then show ?thesis
    by (simp only: next_seen_keys [of glob ?i] next_seen_keys [of glob i] look_again_parts same kept)
qed

section \<open>What the groups count\<close>

definition counted :: "delta_status \<Rightarrow> delta_counts \<Rightarrow> nat" where
  "counted s n = (case s of StatusNew \<Rightarrow> dc_new n | StatusResolved \<Rightarrow> dc_resolved n | StatusUnchanged \<Rightarrow> dc_unchanged n)"

lemma counted_simps [simp]:
  "counted s no_counts = 0" "counted s (count_status n t) = counted s n + (if s = t then 1 else 0)"
  by (cases s; simp add: counted_def no_counts_def)
    (cases s; cases t; simp add: counted_def count_status_def)

definition shown_with :: "(string \<Rightarrow> string \<Rightarrow> bool) \<Rightarrow> verify_focus \<Rightarrow> delta_status \<Rightarrow> tagged_occurrence \<Rightarrow> bool" where
  "shown_with glob f s x \<longleftrightarrow> tagged_focused glob f x \<and> snd x = s"

lemma counted_items:
  "counted s (foldl (\<lambda>n item. count_status n (snd (so_diagnostic item))) n items) =
     counted s n + length (filter (\<lambda>item. snd (so_diagnostic item) = s) items)"
  by (induction items arbitrary: n) auto

lemma show_file_counts:
  "counted s (snd (show_file glob f st sf)) =
     counted s (snd st) + length (filter (\<lambda>item. shown_with glob f s (so_diagnostic item)) (sf_occurrences sf))"
  by (simp add: show_file_def Let_def counted_items shown_with_def conj_commute)

lemma show_files_counts:
  "counted s (snd (foldl (show_file glob f) st sfs)) =
     counted s (snd st) +
     length (filter (\<lambda>item. shown_with glob f s (so_diagnostic item)) (concat (List.map sf_occurrences sfs)))"
  by (induction sfs arbitrary: st) (simp_all add: show_file_counts)

lemma show_roots_counts:
  "counted s (snd (foldl (\<lambda>st r. foldl (show_file glob f) st (sr_files r)) st roots)) =
     counted s (snd st) + length (filter (\<lambda>item. shown_with glob f s (so_diagnostic item)) (root_occurrences roots))"
  by (induction roots arbitrary: st) (simp_all add: show_files_counts root_occurrences_def)

lemma show_file_listed:
  "fst (show_file glob f st sf) = [] \<longleftrightarrow>
     fst st = [] \<and> (\<forall>item \<in> set (sf_occurrences sf). \<not> tagged_focused glob f (so_diagnostic item))"
  by (auto simp: show_file_def Let_def filter_empty_conv)

lemma show_files_listed:
  "fst (foldl (show_file glob f) st sfs) = [] \<longleftrightarrow>
     fst st = [] \<and> (\<forall>sf \<in> set sfs. \<forall>item \<in> set (sf_occurrences sf). \<not> tagged_focused glob f (so_diagnostic item))"
  by (induction sfs arbitrary: st) (auto simp: show_file_listed)

lemma show_roots_listed:
  "fst (foldl (\<lambda>st r. foldl (show_file glob f) st (sr_files r)) st roots) = [] \<longleftrightarrow>
     fst st = [] \<and> (\<forall>item \<in> set (root_occurrences roots). \<not> tagged_focused glob f (so_diagnostic item))"
  by (induction roots arbitrary: st) (auto simp: show_files_listed root_occurrences_def)

lemma show_group_parts:
  "counted s (gp_counts (show_group glob f g)) =
     length (filter (\<lambda>item. shown_with glob f s (so_diagnostic item)) (group_occurrences g))"
  "gp_files (show_group glob f g) = [] \<longleftrightarrow> (\<forall>item \<in> set (group_occurrences g). \<not> tagged_focused glob f (so_diagnostic item))"
  using show_roots_counts [of s glob f "([], no_counts)" "sg_roots g"] show_roots_listed [of glob f "([], no_counts)" "sg_roots g"]
  by (simp_all add: show_group_def Let_def group_occurrences_def case_prod_unfold)

lemma hidden_group_counts: "gp_files (show_group glob f g) = [] \<Longrightarrow> counted s (gp_counts (show_group glob f g)) = 0"
  by (simp add: show_group_parts shown_with_def filter_empty_conv)

lemma sum_list_filter_zero: "(\<And>x. x \<in> set xs \<Longrightarrow> \<not> P x \<Longrightarrow> h x = (0 :: nat)) \<Longrightarrow> (\<Sum>x \<leftarrow> filter P xs. h x) = (\<Sum>x \<leftarrow> xs. h x)"
  by (induction xs) auto

lemma told_filter:
  "size (filter_mset (\<lambda>y. P (fst y)) (image_mset told (mset xs))) = length (filter (\<lambda>item. P (so_diagnostic item)) xs)"
  by (induction xs) (simp_all add: told_def)

lemma tagged_filter:
  "size (filter_mset (\<lambda>y. P (fst y)) (image_mset (\<lambda>e. (dg_diagnostic e, dg_message e)) (mset (List.map tagged_entry xs)))) =
     length (filter P xs)"
  by (induction xs) (simp_all add: tagged_entry_def Let_def)

lemma delta_groups_count:
  "(\<Sum>g \<leftarrow> delta_groups glob entries f. counted s (gp_counts g)) = length (filter (shown_with glob f s) entries)"
proof -
  let ?gs = "simplify [] (List.map tagged_entry entries)"
  have size: "size (filter_mset (\<lambda>y. shown_with glob f s (fst y)) (\<Sum>g \<leftarrow> gs. image_mset told (mset (group_occurrences g)))) =
      (\<Sum>g \<leftarrow> gs. length (filter (\<lambda>item. shown_with glob f s (so_diagnostic item)) (group_occurrences g)))" for gs
    by (induction gs) (simp_all add: told_filter)
  have "(\<Sum>g \<leftarrow> delta_groups glob entries f. counted s (gp_counts g)) =
      (\<Sum>g \<leftarrow> List.map (show_group glob f) ?gs. counted s (gp_counts g))"
    unfolding delta_groups_def by (rule sum_list_filter_zero) (auto simp: hidden_group_counts)
  also have "\<dots> = (\<Sum>g \<leftarrow> ?gs. length (filter (\<lambda>item. shown_with glob f s (so_diagnostic item)) (group_occurrences g)))"
    by (simp add: comp_def show_group_parts)
  also have "\<dots> = size (filter_mset (\<lambda>y. shown_with glob f s (fst y))
      (image_mset (\<lambda>e. (dg_diagnostic e, dg_message e)) (mset (List.map tagged_entry entries))))"
    unfolding size [symmetric] simplify_sound(1) ..
  also have "\<dots> = length (filter (shown_with glob f s) entries)"
    by (rule tagged_filter)
  finally show ?thesis .
qed

section \<open>Totals\<close>

definition severities_known :: "last_entries \<Rightarrow> bool" where
  "severities_known es \<longleftrightarrow> list_all (\<lambda>e. se_severity (snd e) \<noteq> []) es"

lemma resolved_seen:
  "se_severity s \<noteq> [] \<Longrightarrow> focused glob f (seen_of (resolved_occurrence k s)) = focused glob f s"
  by (simp add: focused_def seen_of_def resolved_occurrence_def)

lemma entries_with:
  "length (filter (shown_with glob f t) (List.map (\<lambda>c. (c, seen_status i c)) cs)) =
     length (filter (\<lambda>c. focused glob f (seen_of c) \<and> seen_status i c = t) cs)"
  by (induction cs) (simp_all add: shown_with_def tagged_focused_def)

lemma resolved_with:
  assumes "severities_known es"
  shows "length (filter (shown_with glob f t) (List.map (\<lambda>e. (resolved_occurrence (fst e) (snd e), StatusResolved)) (filter (departed i) es))) =
     (if t = StatusResolved then length (filter (\<lambda>e. departed i e \<and> focused glob f (snd e)) es) else 0)"
  using assms by (induction es) (auto simp: shown_with_def tagged_focused_def severities_known_def resolved_seen)

lemma seen_status_iff:
  "seen_status i c = StatusNew \<longleftrightarrow> \<not> was_seen i c" "seen_status i c = StatusUnchanged \<longleftrightarrow> was_seen i c"
  "seen_status i c \<noteq> StatusResolved"
  by (simp_all add: seen_status_def)

lemma delta_totals:
  assumes "severities_known (ls_occurrences (fi_last i))" and "d = fst (delta_fold glob i)"
  shows "(\<Sum>g \<leftarrow> go_groups (dl_output d). counted t (gp_counts g)) =
     (case t of StatusNew \<Rightarrow> length (dl_new d) | StatusResolved \<Rightarrow> length (dl_resolved d) | StatusUnchanged \<Rightarrow> dl_unchanged d)"
proof -
  have "go_groups (dl_output d) =
      delta_groups glob (List.map (\<lambda>c. (c, seen_status i c)) (fi_occurrences i) @
        List.map (\<lambda>e. (resolved_occurrence (fst e) (snd e), StatusResolved)) (filter (departed i) (ls_occurrences (fi_last i)))) (fi_focus i)"
    by (simp add: assms(2) delta_fold_def Let_def delta_loops_all delta_start_def delta_output_def)
  then have "(\<Sum>g \<leftarrow> go_groups (dl_output d). counted t (gp_counts g)) =
      length (filter (\<lambda>c. in_focus glob i c \<and> seen_status i c = t) (fi_occurrences i)) +
      (if t = StatusResolved then length (filter (\<lambda>e. departed i e \<and> entry_focused glob i e) (ls_occurrences (fi_last i))) else 0)"
    by (simp only: delta_groups_count filter_append length_append entries_with resolved_with [OF assms(1)])
  moreover have "dl_new d = filter (\<lambda>c. in_focus glob i c \<and> \<not> was_seen i c) (fi_occurrences i)"
    "dl_unchanged d = length (filter (\<lambda>c. in_focus glob i c \<and> was_seen i c) (fi_occurrences i))"
    "dl_resolved d = List.map (\<lambda>e. resolved_of (fst e) (snd e))
       (filter (\<lambda>e. departed i e \<and> entry_focused glob i e) (ls_occurrences (fi_last i)))"
    by (simp_all add: assms(2) delta_fold_def Let_def delta_loops_all delta_start_def)
  ultimately show ?thesis by (cases t) (simp_all add: seen_status_iff)
qed

text \<open>Nothing is left out: what is not shown is counted as elsewhere.\<close>

lemma elsewhere_rest:
  assumes "dl_focus (fst (delta_fold glob i)) = Some fd" and "d = fst (delta_fold glob i)"
  shows "length (fi_occurrences i) =
     length (dl_new d) + dl_unchanged d + dc_new (fd_elsewhere fd) + dc_unchanged (fd_elsewhere fd)"
proof -
  have split: "length cs = length (filter (\<lambda>c. P c \<and> \<not> Q c) cs) + length (filter (\<lambda>c. P c \<and> Q c) cs) +
      length (filter (\<lambda>c. \<not> P c \<and> \<not> Q c) cs) + length (filter (\<lambda>c. \<not> P c \<and> Q c) cs)" for P Q and cs :: "report_occurrence list"
    by (induction cs) auto
  from assms(1) have fd: "fd_elsewhere fd = ds_elsewhere (delta_loops glob i)"
    by (auto simp: delta_fold_def Let_def split: if_splits)
  show ?thesis
    using split [of "fi_occurrences i" "in_focus glob i" "was_seen i"]
    by (simp add: assms(2) fd delta_fold_def Let_def delta_loops_all delta_start_def no_counts_def)
qed

section \<open>Gates and exit codes over an observation\<close>

lemma unmissed_results:
  assumes "distinct (List.map vm_id ordered)"
    and "\<forall>v \<in> set ordered. distinct (List.map su_id (sl_units (selection_of selections v)))"
    and "ob = fold_observation tree ordered selections outcomes" and "to_complete ob"
    and "v \<in> set ordered" and "\<forall>u \<in> set (to_unknown ob). uk_verifier u \<noteq> vm_id v"
    and "u \<in> set (sl_units (selection_of selections v))"
  shows "\<exists>r \<in> set (to_results ob). result_id r = (vm_id v, su_id u) \<and> backed ordered selections outcomes (to_results ob) r"
proof -
  have "(vm_id v, su_id u) \<notin> unknown_id ` set (to_unknown ob)" using assms(6) by (auto simp: unknown_id_def)
  then have "(vm_id v, su_id u) \<in> result_id ` set (to_results ob)"
    using fold_observation_sound(2) [OF assms(1-3,4,5,7)] by blast
  then obtain r where "r \<in> set (to_results ob)" "result_id r = (vm_id v, su_id u)" by auto
  then show ?thesis using fold_observation_sound(3) [OF assms(1-3)] by blast
qed

lemma gate_satisfied:
  "gs_satisfied (evaluate_gate name g ob ocs) \<longleftrightarrow>
     (\<forall>i \<in> set (vg_requires g). (\<forall>u \<in> set (to_unknown ob). uk_verifier u \<noteq> i) \<and> i \<in> vm_id ` set (to_verifiers ob)) \<and>
     (\<forall>c \<in> set ocs. di_severity (oc_diagnostic c) \<notin> set (vg_blocking g))"
  by (auto simp: evaluate_gate_def Let_def filter_empty_conv gate_misses_def list_ex_iff image_iff Ball_def)

lemma exit_zero:
  "exit_code glob ob ocs f gate blocking = 0 \<longleftrightarrow>
     (\<forall>s. gate = Some s \<longrightarrow> gs_satisfied s) \<and>
     (\<forall>c \<in> set ocs. focused glob f (seen_of c) \<longrightarrow> di_severity (oc_diagnostic c) \<notin> set blocking) \<and>
     (\<forall>u \<in> set (to_unknown ob). \<not> (admits (fc_verifiers f) (uk_verifier u) \<and>
        (uk_unit u = all_units \<or> admits (fc_units f) (uk_unit u))))"
  by (auto simp: exit_code_def list_ex_iff split: option.split)

lemma unrestricted_focuses: "unrestricted f \<Longrightarrow> focused glob f s"
  by (simp add: unrestricted_def focused_def admits_def)

lemma unrestricted_admits: "unrestricted f \<Longrightarrow> admits (fc_verifiers f) v \<and> admits (fc_units f) u"
  by (simp add: unrestricted_def admits_def)

section \<open>An entry without a severity\<close>

text \<open>
  An entry of Last Seen that has no severity is resolved out of focus, when the focus names
  errors, and yet counted as an error in focus by the groups.
\<close>

definition bare_entry :: seen_entry where
  "bare_entry = \<lparr>se_verifier = ''lint'', se_unit = ''a'', se_error_key = ''k'', se_code = None, se_severity = [],
     se_file = None, se_range = None, se_anchor = ''a'', se_message = None\<rparr>"

definition bare_fold :: fold_input where
  "bare_fold = \<lparr>fi_observation = \<lparr>to_tree = [], to_verifiers = [], to_results = [], to_unknown = [], to_complete = True\<rparr>,
     fi_occurrences = [], fi_members = [], fi_last = \<lparr>ls_tree = None, ls_occurrences = [(''1'', bare_entry)]\<rparr>,
     fi_focus = empty_focus\<lparr>fc_severities := [''error'']\<rparr>, fi_gate = None\<rparr>"

lemma bare_entry_counts_differ:
  "dl_resolved (fst (delta_fold (\<lambda>p f. False) bare_fold)) = [] \<and>
   List.map (\<lambda>g. dc_resolved (gp_counts g)) (go_groups (dl_output (fst (delta_fold (\<lambda>p f. False) bare_fold)))) = [1]"
  by code_simp

end
