(* ===== verification/Verify_Session.thy ===== *)
theory Verify_Session
  imports Verify_Delta Go_Services
begin

text \<open>
  A session's command line, its file and how a delta is presented
  (\<^verbatim>\<open>internal/verify/client/options.go\<close>, \<^verbatim>\<open>session.go\<close>, \<^verbatim>\<open>render.go\<close>). The
  operating system answers through capabilities. The JSON text of a structure
  (\<^verbatim>\<open>encoding/json\<close> over the struct tags) and the reader of the file are parameters. Integers
  in the text are those of the model of the delta.
\<close>

section \<open>Options\<close>

record verify_options =
  vo_focus :: verify_focus
  vo_focus_names :: "string list"
  vo_gate :: "string option"
  vo_all :: bool
  vo_reset :: bool
  vo_json :: bool
  vo_observation_json :: bool
  vo_home :: string
  vo_session :: string
  vo_help :: bool

definition quote_text :: "string \<Rightarrow> string" where
  "quote_text s = restore_lines (json_string s)"

definition nonempty_parts :: "string \<Rightarrow> string list" where
  "nonempty_parts s = filter (\<lambda>v. v \<noteq> []) (split_on CHR '','' s)"

text \<open>The value of an option that takes one.\<close>

definition set_option :: "verify_options \<Rightarrow> string \<Rightarrow> string \<Rightarrow> verify_options" where
  "set_option opts arg v =
     (if arg = ''--gate'' then opts\<lparr>vo_gate := Some v\<rparr>
      else if arg = ''--home'' then opts\<lparr>vo_home := v\<rparr>
      else opts\<lparr>vo_session := v\<rparr>)"

text \<open>The loop over the severities named; the options so far are of no use after an error.\<close>

fun add_severities :: "verify_focus \<Rightarrow> string list \<Rightarrow> string + verify_focus" where
  "add_severities f [] = Inr f"
| "add_severities f (v # vs) =
     (if v \<notin> set severities then Inl (''unknown severity '' @ quote_text v)
      else add_severities (f\<lparr>fc_severities := fc_severities f @ [v]\<rparr>) vs)"

definition add_selector :: "verify_options \<Rightarrow> string \<Rightarrow> string + verify_options" where
  "add_selector opts arg =
     (case cut CHR '':'' arg of (kind, rest, ok) \<Rightarrow>
        let f = vo_focus opts in
        if \<not> ok \<or> rest = [] then Inl (''unrecognized argument '' @ quote_text arg)
        else if kind = ''file'' then Inr (opts\<lparr>vo_focus := f\<lparr>fc_files := fc_files f @ [rest]\<rparr>\<rparr>)
        else if kind = ''code'' then Inr (opts\<lparr>vo_focus := f\<lparr>fc_codes := fc_codes f @ nonempty_parts rest\<rparr>\<rparr>)
        else if kind = ''verifier'' then Inr (opts\<lparr>vo_focus := f\<lparr>fc_verifiers := fc_verifiers f @ nonempty_parts rest\<rparr>\<rparr>)
        else if kind = ''unit'' then Inr (opts\<lparr>vo_focus := f\<lparr>fc_units := fc_units f @ [rest]\<rparr>\<rparr>)
        else if kind = ''member'' then Inr (opts\<lparr>vo_focus := f\<lparr>fc_members := fc_members f @ [rest]\<rparr>\<rparr>)
        else if kind = ''focus'' then Inr (opts\<lparr>vo_focus_names := vo_focus_names opts @ [rest]\<rparr>)
        else if kind = ''severity'' then
          result_bind (add_severities f (split_on CHR '','' rest)) (\<lambda>f'. Inr (opts\<lparr>vo_focus := f'\<rparr>))
        else Inl (''unrecognized argument '' @ quote_text arg))"

fun parse_args :: "verify_options \<Rightarrow> string list \<Rightarrow> string + verify_options" where
  "parse_args opts [] = Inr opts"
| "parse_args opts (arg # rest) =
     (if arg = ''--all'' then parse_args (opts\<lparr>vo_all := True\<rparr>) rest
      else if arg = ''--reset'' then parse_args (opts\<lparr>vo_reset := True\<rparr>) rest
      else if arg = ''--json'' then parse_args (opts\<lparr>vo_json := True, vo_observation_json := False\<rparr>) rest
      else if arg = ''--json=observation'' then parse_args (opts\<lparr>vo_json := True, vo_observation_json := True\<rparr>) rest
      else if arg \<in> {''--help'', ''-h''} then Inr (opts\<lparr>vo_help := True\<rparr>)
      else if arg \<in> {''--gate'', ''--home'', ''--session''} then
        (case rest of
           [] \<Rightarrow> Inl (arg @ '' needs a value'')
         | v # rest' \<Rightarrow> parse_args (set_option opts arg v) rest')
      else (case add_selector opts arg of Inl m \<Rightarrow> Inl m | Inr opts' \<Rightarrow> parse_args opts' rest))"

definition env_text :: "(string \<Rightarrow> string option) \<Rightarrow> string \<Rightarrow> string" where
  "env_text env k = (case env k of None \<Rightarrow> [] | Some v \<Rightarrow> v)"

definition first_options :: "(string \<Rightarrow> string option) \<Rightarrow> verify_options" where
  "first_options env =
     \<lparr>vo_focus = empty_focus, vo_focus_names = [], vo_gate = None, vo_all = False, vo_reset = False, vo_json = False,
      vo_observation_json = False, vo_home = env_text env ''VERIFY_HOME'',
      vo_session = (if env_text env ''PHOSPHOR_VERIFY_SESSION'' \<noteq> [] then env_text env ''PHOSPHOR_VERIFY_SESSION''
        else if env_text env ''BB_THREAD_ID'' \<noteq> [] then env_text env ''BB_THREAD_ID'' else ''default''),
      vo_help = False\<rparr>"

text \<open>
  \<^verbatim>\<open>Parse\<close>; \<open>user_home\<close> is what \<^verbatim>\<open>os.UserHomeDir\<close> answers and \<open>cwd\<close> the
  working directory. Help is returned before the home directory is settled.
\<close>

definition parse_options ::
    "string + string \<Rightarrow> string \<Rightarrow> (string \<Rightarrow> string option) \<Rightarrow> string list \<Rightarrow> string + verify_options" where
  "parse_options user_home cwd env argv =
     result_bind (parse_args (first_options env) argv) (\<lambda>opts.
       if vo_help opts then Inr opts
       else
         let home = (if vo_home opts \<noteq> [] then Inr (vo_home opts)
                else result_bind (case env ''HOME'' of Some h \<Rightarrow> Inr h | None \<Rightarrow> user_home)
                  (\<lambda>h. Inr (join_path [h, ''.verify''])))
         in result_bind home (\<lambda>h. Inr (opts\<lparr>vo_home := abs_path cwd h\<rparr>)))"

definition resolve_focus :: "(string \<Rightarrow> verify_focus option) \<Rightarrow> verify_options \<Rightarrow> string + verify_focus" where
  "resolve_focus declared opts =
     foldl (\<lambda>r name. result_bind r (\<lambda>f.
         case declared name of
           None \<Rightarrow> Inl (''no focus '' @ quote_text name @ '' in workbench.pkl'')
         | Some named \<Rightarrow> Inr (merge_focus f named)))
       (Inr (vo_focus opts)) (vo_focus_names opts)"

section \<open>The file of a session\<close>

definition session_char :: "char \<Rightarrow> bool" where
  "session_char c \<longleftrightarrow> is_lower c \<or> is_upper c \<or> is_digit c \<or> c \<in> set ''-_.!~*()'' \<or> c = CHR 0x27"

definition upper_hex :: "nat \<Rightarrow> char" where
  "upper_hex n = ''0123456789ABCDEF'' ! (n mod 16)"

definition session_byte :: "char \<Rightarrow> string" where
  "session_byte c = (if session_char c then [c] else [CHR ''%'', upper_hex (of_char c div 16), upper_hex (of_char c)])"

definition session_name :: "string \<Rightarrow> string" where
  "session_name s = concat (List.map session_byte s)"

definition last_seen_file :: "verify_options \<Rightarrow> string" where
  "last_seen_file opts = join_path [vo_home opts, ''sessions'', session_name (vo_session opts), ''last-seen.json'']"

section \<open>Text\<close>

definition plural :: "nat \<Rightarrow> string \<Rightarrow> string" where
  "plural n noun = nat_string n @ '' '' @ noun @ (if n = 1 then [] else ''s'')"

definition middle_dot :: string where
  "middle_dot = [CHR '' '', CHR 0xC2, CHR 0xB7, CHR '' '']"

definition summary_text :: "delta_counts \<Rightarrow> gate_status option \<Rightarrow> bool \<Rightarrow> string" where
  "summary_text n gate unknown =
     (let counts = (if dc_new n > 0 then [nat_string (dc_new n) @ '' new''] else []) @
            (if dc_resolved n > 0 then [nat_string (dc_resolved n) @ '' resolved''] else []) @
            (if dc_unchanged n > 0 then [nat_string (dc_unchanged n) @ '' unchanged''] else []);
          parts = (if counts = [] \<and> \<not> unknown then [''clean''] else counts);
          all = parts @ (case gate of None \<Rightarrow> [] | Some g \<Rightarrow> [gs_name g @ '' '' @ (if gs_satisfied g then ''satisfied'' else ''blocked'')])
      in join middle_dot all)"

definition unknown_line :: "verifier_meta list \<Rightarrow> group_unknown \<Rightarrow> string" where
  "unknown_line vs u =
     (let noun = (case List.find (\<lambda>v. vm_id v = gu_verifier u) vs of None \<Rightarrow> ''unit'' | Some v \<Rightarrow> vm_noun v);
          scope = (case gu_units u of None \<Rightarrow> ''every '' @ noun | Some n \<Rightarrow> plural n noun)
      in ''Unknown: '' @ scope @ '' of '' @ gu_verifier u @ '' ('' @ gu_reason u @ '')'')"

definition status_text :: "delta_status \<Rightarrow> string" where
  "status_text s = (case s of StatusNew \<Rightarrow> ''new'' | StatusResolved \<Rightarrow> ''resolved'' | StatusUnchanged \<Rightarrow> ''unchanged'')"

definition occurrence_line :: "shown_occurrence \<Rightarrow> string" where
  "occurrence_line sw =
     (let pos = (case (sw_line sw, sw_column sw) of
            (Some l, Some c) \<Rightarrow> int_string l @ '':'' @ int_string c
          | _ \<Rightarrow> ''(file)'')
      in ''    '' @ status_text (sw_status sw) @ '' '' @ pos @
         (if sw_args sw \<noteq> [] then ''  '' @ join '', '' (sw_args sw) else []))"

definition file_lines :: "bool \<Rightarrow> shown_file \<Rightarrow> string list" where
  "file_lines forced sh =
     (let positions = List.map occurrence_line (filter (\<lambda>sw. forced \<or> sw_status sw \<noteq> StatusUnchanged) (sh_occurrences sh))
      in if positions = [] then [] else (''  '' @ sh_path sh) # positions)"

definition group_lines :: "bool \<Rightarrow> delta_group \<Rightarrow> string list" where
  "group_lines forced g =
     (if \<not> forced \<and> dc_new (gp_counts g) + dc_resolved (gp_counts g) = 0 then []
      else [gp_severity g @ '' '' @ gp_code g @ '' ['' @ gp_verifier g @ ''] '' @ gp_error_key g] @
        (if gp_message g \<noteq> gp_error_key g
         then List.map (\<lambda>l. ''  '' @ l) (split_on CHR 0x0A (gp_message g)) else []) @
        concat (List.map (file_lines forced) (gp_files g)))"

definition add_counts :: "delta_counts \<Rightarrow> delta_counts \<Rightarrow> delta_counts" where
  "add_counts m n =
     \<lparr>dc_new = dc_new m + dc_new n, dc_resolved = dc_resolved m + dc_resolved n,
      dc_unchanged = dc_unchanged m + dc_unchanged n\<rparr>"

definition focus_lines :: "focus_delta \<Rightarrow> string list" where
  "focus_lines fd =
     (let e = fd_elsewhere fd in
      List.map (\<lambda>m. ''  '' @ rp_status (mm_member m) @ '' '' @ quote_text (rp_name (mm_member m)) @ '' ['' @ mm_verifier m @
        ''] '' @ mm_unit m) (fd_members fd) @
      (if dc_new e + dc_resolved e + dc_unchanged e > 0
       then [''Elsewhere: '' @ nat_string (dc_new e) @ '' new'' @ middle_dot @ nat_string (dc_resolved e) @ '' resolved'' @
         middle_dot @ nat_string (dc_unchanged e) @ '' unchanged''] else []))"

definition trim_right_space :: "string \<Rightarrow> string" where
  "trim_right_space s = rev (strip_lead (List.map rev space_encodings) (rev s))"

definition render_lines :: "bool \<Rightarrow> verify_delta \<Rightarrow> string list" where
  "render_lines all d =
     (let out = dl_output d;
          summary = summary_text (foldl (\<lambda>n g. add_counts n (gp_counts g)) no_counts (go_groups out)) (go_gate out)
            (go_unknown out \<noteq> [])
      in List.map (unknown_line (dl_verifiers d)) (go_unknown out) @
         (if summary \<noteq> [] then [summary] else []) @
         (if go_unknown out \<noteq> [] then [''Rerun workbench verify to retry unknown Units.''] else []) @
         concat (List.map (group_lines (all \<or> dl_focus d \<noteq> None)) (go_groups out)) @
         (case dl_focus d of None \<Rightarrow> [] | Some fd \<Rightarrow> focus_lines fd) @
         (case go_gate out of
            None \<Rightarrow> []
          | Some g \<Rightarrow> if gs_missing g \<noteq> [] then [''Not attested: '' @ join '', '' (gs_missing g)] else []))"

definition render_delta :: "bool \<Rightarrow> verify_delta \<Rightarrow> string" where
  "render_delta all d =
     join [CHR 0x0A] (List.map trim_right_space (split_on CHR 0x0A (join [CHR 0x0A] (render_lines all d)))) @ [CHR 0x0A]"

end
