(* ===== verification/Verify_Present.thy ===== *)
theory Verify_Present
  imports Verify_Session
begin

text \<open>
  Presenting a delta (\<^verbatim>\<open>Present\<close>, \<^verbatim>\<open>ReadLastSeen\<close> and \<^verbatim>\<open>WriteLastSeen\<close> of
  \<^verbatim>\<open>internal/verify/client/session.go\<close>) as a computation over the file system and the output,
  and the order of its effects.
\<close>

datatype file_answer = FileAbsent | FileFailed string | FileBytes string

datatype remove_answer = FileRemoved | NothingThere | RemoveFailed string

datatype session_event =
    SeenRemoved string remove_answer
  | SeenRead string file_answer
  | OutputWritten string nat "string option"
  | DirectoryMade string "string + unit"
  | TempMade string "string + string"
  | TempWritten string string "string + unit"
  | TempSynced string "string + unit"
  | TempClosed string "string + unit"
  | TempRenamed string string "string + unit"
  | TempRemoved string

record 'w session_services =
  px_remove :: "string \<Rightarrow> 'w \<Rightarrow> remove_answer \<times> 'w"
  px_read :: "string \<Rightarrow> 'w \<Rightarrow> file_answer \<times> 'w"
  px_output :: "string \<Rightarrow> 'w \<Rightarrow> (nat \<times> string option) \<times> 'w"
  px_mkdir :: "string \<Rightarrow> 'w \<Rightarrow> (string + unit) \<times> 'w"
  px_create :: "string \<Rightarrow> 'w \<Rightarrow> (string + string) \<times> 'w"
  px_write :: "string \<Rightarrow> string \<Rightarrow> 'w \<Rightarrow> (string + unit) \<times> 'w"
  px_sync :: "string \<Rightarrow> 'w \<Rightarrow> (string + unit) \<times> 'w"
  px_close :: "string \<Rightarrow> 'w \<Rightarrow> (string + unit) \<times> 'w"
  px_rename :: "string \<Rightarrow> string \<Rightarrow> 'w \<Rightarrow> (string + unit) \<times> 'w"
  px_discard :: "string \<Rightarrow> 'w \<Rightarrow> unit \<times> 'w"

record presentation =
  pn_options :: verify_options
  pn_observation :: tree_observation
  pn_occurrences :: "report_occurrence list"
  pn_members :: "member_status list"
  pn_focus :: verify_focus
  pn_gate :: "gate_status option"
  pn_blocking :: "string list option"

text \<open>The JSON library: the file's reader, and the texts of a Last Seen, an output and an observation.\<close>

record session_codec =
  cx_read :: "string \<Rightarrow> string + last_seen"
  cx_seen :: "last_seen \<Rightarrow> string + string"
  cx_output :: "grouped_output \<Rightarrow> string + string"
  cx_observation :: "presentation \<Rightarrow> verify_delta \<Rightarrow> string + string"

type_synonym ('w, 'a) session_comp = "(('w, session_event) traced, string, 'a) comp"

definition read_last_seen :: "'w session_services \<Rightarrow> session_codec \<Rightarrow> string \<Rightarrow> ('w, last_seen) session_comp" where
  "read_last_seen S J path =
     bindM (ask (px_read S path) (SeenRead path)) (\<lambda>a.
       case a of
         FileAbsent \<Rightarrow> returnM \<lparr>ls_tree = None, ls_occurrences = []\<rparr>
       | FileFailed m \<Rightarrow> failM m
       | FileBytes b \<Rightarrow> liftM (cx_read J b))"

text \<open>\<^verbatim>\<open>defer\<close>: the second computation runs whatever the first returned, which stays the result.\<close>

definition finallyM :: "('s, 'e, 'a) comp \<Rightarrow> ('s, 'e, unit) comp \<Rightarrow> ('s, 'e, 'a) comp" where
  "finallyM m d = (\<lambda>s. case m s of (r, s') \<Rightarrow> (r, snd (d s')))"

text \<open>Write, then sync if that went well, then close in any case; rename only if all went well.\<close>

definition fill_temp :: "'w session_services \<Rightarrow> string \<Rightarrow> string \<Rightarrow> string \<Rightarrow> ('w, unit) session_comp" where
  "fill_temp S path data tmp =
     bindM (ask (px_write S tmp data) (TempWritten tmp data)) (\<lambda>w.
     bindM (case w of Inl m \<Rightarrow> returnM (Inl m) | Inr _ \<Rightarrow> ask (px_sync S tmp) (TempSynced tmp)) (\<lambda>err.
     bindM (ask (px_close S tmp) (TempClosed tmp)) (\<lambda>closed.
     bindM (liftM err) (\<lambda>_.
     bindM (liftM closed) (\<lambda>_.
       demand (px_rename S tmp path) (TempRenamed tmp path) (\<lambda>m. m))))))"

definition write_last_seen :: "'w session_services \<Rightarrow> session_codec \<Rightarrow> string \<Rightarrow> last_seen \<Rightarrow> ('w, unit) session_comp" where
  "write_last_seen S J path next =
     bindM (liftM (cx_seen J next)) (\<lambda>data.
     bindM (demand (px_mkdir S (dir_path path)) (DirectoryMade (dir_path path)) (\<lambda>m. m)) (\<lambda>_.
     bindM (demand (px_create S (dir_path path)) (TempMade (dir_path path)) (\<lambda>m. m)) (\<lambda>tmp.
       finallyM (fill_temp S path data tmp) (ask (px_discard S tmp) (\<lambda>_. TempRemoved tmp)))))"

definition presented_input :: "presentation \<Rightarrow> last_seen \<Rightarrow> fold_input" where
  "presented_input p seen =
     \<lparr>fi_observation = pn_observation p, fi_occurrences = pn_occurrences p, fi_members = pn_members p, fi_last = seen,
      fi_focus = pn_focus p, fi_gate = pn_gate p\<rparr>"

definition presented_exit :: "(string \<Rightarrow> string \<Rightarrow> bool) \<Rightarrow> presentation \<Rightarrow> nat" where
  "presented_exit glob p =
     exit_code glob (pn_observation p) (pn_occurrences p) (pn_focus p) (pn_gate p)
       (case pn_blocking p of None \<Rightarrow> [''error''] | Some b \<Rightarrow> b)"

definition presented_text :: "session_codec \<Rightarrow> presentation \<Rightarrow> verify_delta \<Rightarrow> string + string" where
  "presented_text J p d =
     (if vo_json (pn_options p)
      then result_bind (if vo_observation_json (pn_options p) then cx_observation J p d else cx_output J (dl_output d))
        (\<lambda>t. Inr (t @ [CHR 0x0A]))
      else Inr (render_delta (vo_all (pn_options p)) d))"

text \<open>\<^verbatim>\<open>Present\<close>: an error comes with exit code 2, else the exit code is the result.\<close>

definition present ::
    "(string \<Rightarrow> string \<Rightarrow> bool) \<Rightarrow> 'w session_services \<Rightarrow> session_codec \<Rightarrow> presentation \<Rightarrow> ('w, nat) session_comp" where
  "present glob S J p =
     (let opts = pn_options p; path = last_seen_file opts in
      bindM (if vo_reset opts
             then bindM (ask (px_remove S path) (SeenRemoved path)) (\<lambda>a. case a of RemoveFailed m \<Rightarrow> failM m | _ \<Rightarrow> returnM ())
             else returnM ()) (\<lambda>_.
      bindM (read_last_seen S J path) (\<lambda>seen.
        let (d, next) = delta_fold glob (presented_input p seen) in
        bindM (liftM (presented_text J p d)) (\<lambda>t.
        bindM (ask (px_output S t) (\<lambda>(n, e). OutputWritten t n e)) (\<lambda>(n, e).
        bindM (case e of Some m \<Rightarrow> failM m | None \<Rightarrow> guardM (n = length t) ''short write'') (\<lambda>_.
        bindM (if vo_all opts then returnM () else write_last_seen S J path next) (\<lambda>_.
          returnM (presented_exit glob p))))))))"

section \<open>The order of effects\<close>

text \<open>A rename comes after the whole data was written to the file, synced and closed.\<close>

definition rename_safe :: "string \<Rightarrow> string \<Rightarrow> session_event list \<Rightarrow> bool" where
  "rename_safe path data es \<longleftrightarrow>
     (\<forall>pre tmp q a suf. es = pre @ TempRenamed tmp q a # suf \<longrightarrow>
        q = path \<and> TempWritten tmp data (Inr ()) \<in> set pre \<and> TempSynced tmp (Inr ()) \<in> set pre \<and>
        TempClosed tmp (Inr ()) \<in> set pre)"

definition replaces :: "session_event \<Rightarrow> bool" where
  "replaces ev \<longleftrightarrow> (case ev of TempRenamed tmp q a \<Rightarrow> True | _ \<Rightarrow> False)"

lemma replaces_simps [simp]:
  "replaces (TempRenamed tmp q a)" "\<not> replaces (SeenRemoved p ra)" "\<not> replaces (SeenRead p fa)"
  "\<not> replaces (OutputWritten t n e)" "\<not> replaces (DirectoryMade p u)" "\<not> replaces (TempMade p c)"
  "\<not> replaces (TempWritten t b w)" "\<not> replaces (TempSynced t w)" "\<not> replaces (TempClosed t w)" "\<not> replaces (TempRemoved t)"
  by (simp_all add: replaces_def)

lemma emits_finally:
  assumes "emits m Q" and "emits d D" and "\<And>r es r' es'. Q r es \<Longrightarrow> D r' es' \<Longrightarrow> R r (es @ es')"
  shows "emits (finallyM m d) R"
proof (rule emitsI)
  fix s
  obtain r t where m: "m s = (r, t)" by (cases "m s")
  obtain es where es: "tw_log t = tw_log s @ es" "Q r es" using emitsD [OF assms(1) m] by blast
  obtain r' u where d: "d t = (r', u)" by (cases "d t")
  obtain es' where es': "tw_log u = tw_log t @ es'" "D r' es'" using emitsD [OF assms(2) d] by blast
  show "\<exists>es. tw_log (snd (finallyM m d s)) = tw_log s @ es \<and> R (fst (finallyM m d s)) es"
    using m d es es' assms(3) by (auto simp: finallyM_def)
qed

text \<open>What one call of \<^verbatim>\<open>WriteLastSeen\<close> adds to the log.\<close>

definition fill_log :: "string \<Rightarrow> string \<Rightarrow> string \<Rightarrow> string + unit \<Rightarrow> session_event list \<Rightarrow> bool" where
  "fill_log path data tmp r es \<longleftrightarrow>
     (list_all (\<lambda>ev. \<not> replaces ev) es \<and> (\<exists>m. r = Inl m)) \<or>
     (\<exists>a. es = [TempWritten tmp data (Inr ()), TempSynced tmp (Inr ()), TempClosed tmp (Inr ()), TempRenamed tmp path a] \<and> r = a)"

lemma emits_fill: "emits (fill_temp S path data tmp) (fill_log path data tmp)"
  unfolding fill_temp_def
proof (rule emits_ask_bind)
  fix w
  show "emits (bindM (case w of Inl m \<Rightarrow> returnM (Inl m) | Inr _ \<Rightarrow> ask (px_sync S tmp) (TempSynced tmp)) (\<lambda>err.
      bindM (ask (px_close S tmp) (TempClosed tmp)) (\<lambda>closed. bindM (liftM err) (\<lambda>_. bindM (liftM closed) (\<lambda>_.
        demand (px_rename S tmp path) (TempRenamed tmp path) (\<lambda>m. m)))))) (\<lambda>r es. fill_log path data tmp r (TempWritten tmp data w # es))"
  proof (rule emits_bind [where Q = "\<lambda>r es. \<exists>err. r = Inr err \<and>
        ((\<exists>m. w = Inl m \<and> err = Inl m \<and> es = []) \<or> (w = Inr () \<and> es = [TempSynced tmp err]))"], goal_cases)
    case 1
    show ?case by (cases w) (auto intro: emits_return emits_ask)
  next
    case (3 err es)
    then show ?case
      by (intro emits_ask_bind emits_lift_bind emits_demand) (auto simp: fill_log_def)
  qed simp
qed

lemma emits_write:
  "emits (write_last_seen S J path next) (\<lambda>r es.
     (\<exists>data. cx_seen J next = Inr data \<and> rename_safe path data es \<and>
        (r = Inr () \<longrightarrow> (\<exists>tmp pre. es = pre @ [TempRenamed tmp path (Inr ()), TempRemoved tmp]))) \<or>
     (list_all (\<lambda>ev. \<not> replaces ev) es \<and> (\<exists>m. r = Inl m)))"
proof -
  have quiet: "rename_safe path data es" if "list_all (\<lambda>ev. \<not> replaces ev) es" for data es
    using that by (auto simp: rename_safe_def)
  show ?thesis
    unfolding write_last_seen_def
  proof (intro emits_lift_bind emits_demand_bind, goal_cases)
    case (4 data x tmp)
    show ?case
    proof (rule emits_finally [OF emits_fill, where D = "\<lambda>r es. es = [TempRemoved tmp]"], goal_cases)
      case 1
      show ?case by (rule emits_ask) simp
    next
      case (2 r es r' es')
      then consider "list_all (\<lambda>ev. \<not> replaces ev) es" "\<exists>m. r = Inl m" |
          a where "es = [TempWritten tmp data (Inr ()), TempSynced tmp (Inr ()), TempClosed tmp (Inr ()), TempRenamed tmp path a]" "r = a"
        by (auto simp: fill_log_def)
      then show ?case
      proof cases
        case 1
        then show ?thesis using 2(2) by simp
      next
        case (2 a)
        then show ?thesis using \<open>es' = [TempRemoved tmp]\<close> 4 by (auto simp: rename_safe_def Cons_eq_append_conv)
      qed
    qed
  qed (auto)
qed

text \<open>
  A rename: what is committed is the Last Seen of the delta whose text the output took whole
  before, and the file was complete.
\<close>

definition commit_after :: "(string \<Rightarrow> string \<Rightarrow> bool) \<Rightarrow> session_codec \<Rightarrow> presentation \<Rightarrow> session_event list \<Rightarrow> string \<Rightarrow> string \<Rightarrow> bool" where
  "commit_after glob J p pre tmp q \<longleftrightarrow>
     \<not> vo_all (pn_options p) \<and> q = last_seen_file (pn_options p) \<and>
     (\<exists>seen t data.
        presented_text J p (fst (delta_fold glob (presented_input p seen))) = Inr t \<and>
        cx_seen J (snd (delta_fold glob (presented_input p seen))) = Inr data \<and>
        OutputWritten t (length t) None \<in> set pre \<and> TempWritten tmp data (Inr ()) \<in> set pre \<and>
        TempSynced tmp (Inr ()) \<in> set pre \<and> TempClosed tmp (Inr ()) \<in> set pre)"

definition present_log ::
    "(string \<Rightarrow> string \<Rightarrow> bool) \<Rightarrow> session_codec \<Rightarrow> presentation \<Rightarrow> string + nat \<Rightarrow> session_event list \<Rightarrow> bool" where
  "present_log glob J p r es \<longleftrightarrow>
     (\<forall>pre tmp q a suf. es = pre @ TempRenamed tmp q a # suf \<longrightarrow> commit_after glob J p pre tmp q) \<and>
     (\<forall>code. r = Inr code \<longrightarrow>
        code = presented_exit glob p \<and> (\<exists>t. OutputWritten t (length t) None \<in> set es) \<and>
        (vo_all (pn_options p) \<or> (\<exists>tmp. TempRenamed tmp (last_seen_file (pn_options p)) (Inr ()) \<in> set es)))"

lemma present_log_quiet: "list_all (\<lambda>ev. \<not> replaces ev) es \<Longrightarrow> present_log glob J p (Inl m) es"
  by (auto simp: present_log_def)

lemma emits_reset:
  "emits (if b then bindM (ask (px_remove S path) (SeenRemoved path)) (\<lambda>a. case a of RemoveFailed m \<Rightarrow> failM m | _ \<Rightarrow> returnM ())
          else returnM ()) (\<lambda>r es. list_all (\<lambda>ev. \<not> replaces ev) es)"
proof (cases b)
  case True
  have "emits (bindM (ask (px_remove S path) (SeenRemoved path)) (\<lambda>a. case a of RemoveFailed m \<Rightarrow> failM m | _ \<Rightarrow> returnM ()))
      (\<lambda>r es. list_all (\<lambda>ev. \<not> replaces ev) es)"
    by (rule emits_ask_bind) (auto intro: emits_return emits_fail split: remove_answer.split)
  then show ?thesis using True by simp
qed (simp add: emits_return)

lemma emits_read: "emits (read_last_seen S J path) (\<lambda>r es. list_all (\<lambda>ev. \<not> replaces ev) es)"
  unfolding read_last_seen_def
  by (rule emits_ask_bind) (auto intro: emits_return emits_fail emits_lift split: file_answer.split)

lemma quiet_prefix:
  assumes "list_all (\<lambda>ev. \<not> replaces ev) quiet" and "quiet @ es = pre @ TempRenamed tmp q a # suf"
  shows "\<exists>m. pre = quiet @ m \<and> es = m @ TempRenamed tmp q a # suf"
  using append_middle [OF assms(2)] assms(1) by auto

lemma present_log_after:
  assumes "list_all (\<lambda>ev. \<not> replaces ev) quiet" and "present_log glob J p r es"
  shows "present_log glob J p r (quiet @ es)"
proof -
  have more: "commit_after glob J p (quiet @ m) tmp q" if "commit_after glob J p m tmp q" for m tmp q
    using that unfolding commit_after_def by auto
  show ?thesis
    unfolding present_log_def
  proof (rule conjI; intro allI impI)
    fix pre tmp q a suf assume "quiet @ es = pre @ TempRenamed tmp q a # suf"
    from quiet_prefix [OF assms(1) this] obtain m where "pre = quiet @ m" "es = m @ TempRenamed tmp q a # suf" by blast
    then show "commit_after glob J p pre tmp q" using assms(2) more by (simp add: present_log_def)
  next
    fix code assume "r = Inr code"
    then have "code = presented_exit glob p \<and> (\<exists>t. OutputWritten t (length t) None \<in> set es) \<and>
        (vo_all (pn_options p) \<or> (\<exists>tmp. TempRenamed tmp (last_seen_file (pn_options p)) (Inr ()) \<in> set es))"
      using assms(2) by (simp add: present_log_def)
    then show "code = presented_exit glob p \<and> (\<exists>t. OutputWritten t (length t) None \<in> set (quiet @ es)) \<and>
        (vo_all (pn_options p) \<or> (\<exists>tmp. TempRenamed tmp (last_seen_file (pn_options p)) (Inr ()) \<in> set (quiet @ es)))"
      by auto
  qed
qed

text \<open>After the output took the whole text, a safe commit is what the log asks for.\<close>

lemma commit_log:
  assumes "presented_text J p (fst (delta_fold glob (presented_input p seen))) = Inr t"
    and "cx_seen J (snd (delta_fold glob (presented_input p seen))) = Inr data" and "\<not> vo_all (pn_options p)"
    and "rename_safe (last_seen_file (pn_options p)) data es"
    and "\<And>code. r = Inr code \<Longrightarrow> code = presented_exit glob p \<and>
      (\<exists>tmp. TempRenamed tmp (last_seen_file (pn_options p)) (Inr ()) \<in> set es)"
  shows "present_log glob J p r (OutputWritten t (length t) None # es)"
  unfolding present_log_def
proof (rule conjI; intro allI impI)
  fix pre tmp q a suf assume "OutputWritten t (length t) None # es = pre @ TempRenamed tmp q a # suf"
  then obtain m where m: "pre = OutputWritten t (length t) None # m" "es = m @ TempRenamed tmp q a # suf"
    by (auto simp: Cons_eq_append_conv)
  then have "q = last_seen_file (pn_options p)" "TempWritten tmp data (Inr ()) \<in> set m" "TempSynced tmp (Inr ()) \<in> set m"
      "TempClosed tmp (Inr ()) \<in> set m" using assms(4) unfolding rename_safe_def by blast+
  then show "commit_after glob J p pre tmp q"
    unfolding commit_after_def m(1) using assms(1-3) by (metis list.set_intros(1) list.set_intros(2))
qed (use assms(5) in force)

lemma all_log:
  "vo_all (pn_options p) \<Longrightarrow> present_log glob J p (Inr (presented_exit glob p)) [OutputWritten t (length t) None]"
  by (auto simp: present_log_def Cons_eq_append_conv)

lemma emits_present: "emits (present glob S J p) (present_log glob J p)"
proof -
  let ?opts = "pn_options p"
  have shown: "emits (bindM (ask (px_output S t) (\<lambda>(n, e). OutputWritten t n e)) (\<lambda>(n, e).
      bindM (case e of Some m \<Rightarrow> failM m | None \<Rightarrow> guardM (n = length t) ''short write'') (\<lambda>_.
      bindM (if vo_all ?opts then returnM () else write_last_seen S J (last_seen_file ?opts) next) (\<lambda>_.
        returnM (presented_exit glob p))))) (present_log glob J p)"
    if t: "presented_text J p (fst (delta_fold glob (presented_input p seen))) = Inr t"
      and next': "next = snd (delta_fold glob (presented_input p seen))" for seen t "next"
  proof (rule emits_ask_bind)
    fix x :: "nat \<times> string option"
    obtain n e where x: "x = (n, e)" by (cases x)
    have "emits (bindM (case e of Some m \<Rightarrow> failM m | None \<Rightarrow> guardM (n = length t) ''short write'') (\<lambda>_.
        bindM (if vo_all ?opts then returnM () else write_last_seen S J (last_seen_file ?opts) next) (\<lambda>_.
          returnM (presented_exit glob p)))) (\<lambda>r es. present_log glob J p r (OutputWritten t n e # es))"
    proof (cases "e = None \<and> n = length t")
      case False
      then show ?thesis
        by (cases e) (simp_all add: emits_def bindM_def failM_def guardM_def present_log_quiet)
    next
      case True
      have "emits (bindM (if vo_all ?opts then returnM () else write_last_seen S J (last_seen_file ?opts) next) (\<lambda>_.
          returnM (presented_exit glob p))) (\<lambda>r es. present_log glob J p r (OutputWritten t (length t) None # es))"
      proof (cases "vo_all ?opts")
        case True
        then show ?thesis by (simp add: emits_def bindM_def returnM_def all_log)
      next
        case False
        show ?thesis
          unfolding if_not_P [OF False]
        proof (rule emits_bind [OF emits_write], goal_cases)
          case (1 m es)
          then show ?case
          proof (elim disjE exE conjE)
            fix data assume "cx_seen J next = Inr data" "rename_safe (last_seen_file ?opts) data es"
            then show ?thesis using t False by (intro commit_log) (simp_all add: next')
          qed (simp add: present_log_quiet)
        next
          case (2 x es)
          then obtain data tmp pre where "cx_seen J next = Inr data" "rename_safe (last_seen_file ?opts) data es"
              "es = pre @ [TempRenamed tmp (last_seen_file ?opts) (Inr ()), TempRemoved tmp]" by auto
          then show ?case using t False by (intro emits_return) (auto simp: next' intro!: commit_log)
        qed
      qed
      then show ?thesis using True by (simp add: guardM_def bindM_def returnM_def)
    qed
    then show "emits (case x of (n, e) \<Rightarrow>
        bindM (case e of Some m \<Rightarrow> failM m | None \<Rightarrow> guardM (n = length t) ''short write'') (\<lambda>_.
        bindM (if vo_all ?opts then returnM () else write_last_seen S J (last_seen_file ?opts) next) (\<lambda>_.
          returnM (presented_exit glob p)))) (\<lambda>r es. present_log glob J p r ((case x of (n, e) \<Rightarrow> OutputWritten t n e) # es))"
      by (simp add: x)
  qed
  show ?thesis
    unfolding present_def Let_def
  proof (rule emits_bind [OF emits_reset])
    fix x es assume q1: "list_all (\<lambda>ev. \<not> replaces ev) es"
    show "emits (bindM (read_last_seen S J (last_seen_file ?opts)) (\<lambda>seen.
        case delta_fold glob (presented_input p seen) of (d, next) \<Rightarrow>
          bindM (liftM (presented_text J p d)) (\<lambda>t.
          bindM (ask (px_output S t) (\<lambda>(n, e). OutputWritten t n e)) (\<lambda>(n, e).
          bindM (case e of Some m \<Rightarrow> failM m | None \<Rightarrow> guardM (n = length t) ''short write'') (\<lambda>_.
          bindM (if vo_all ?opts then returnM () else write_last_seen S J (last_seen_file ?opts) next) (\<lambda>_.
            returnM (presented_exit glob p))))))) (\<lambda>r es'. present_log glob J p r (es @ es'))"
    proof (rule emits_bind [OF emits_read], goal_cases)
      case (1 e es')
      then show ?case using q1 by (intro present_log_quiet) simp
    next
      case (2 seen es')
      have quiet: "list_all (\<lambda>ev. \<not> replaces ev) (es @ es')" using 2 q1 by simp
      show ?case
        unfolding case_prod_unfold
      proof (rule emits_lift_bind)
        fix t assume "presented_text J p (fst (delta_fold glob (presented_input p seen))) = Inr t"
        from shown [OF this refl] show "emits (bindM (ask (px_output S t) (\<lambda>x. OutputWritten t (fst x) (snd x))) (\<lambda>x.
          bindM (case snd x of Some m \<Rightarrow> failM m | None \<Rightarrow> guardM (fst x = length t) ''short write'') (\<lambda>_.
          bindM (if vo_all ?opts then returnM () else write_last_seen S J (last_seen_file ?opts) (snd (delta_fold glob (presented_input p seen)))) (\<lambda>_.
            returnM (presented_exit glob p))))) (\<lambda>r es''. present_log glob J p r (es @ es' @ es''))"
          unfolding case_prod_unfold
          by (rule emits_weaken) (use present_log_after [OF quiet] in simp)
      qed (use present_log_quiet [OF quiet] in simp)
    qed
  qed (rule present_log_quiet)
qed

end
