(* ===== verification/Session_Facts.thy ===== *)
theory Session_Facts
  imports Verify_Session Reconcile_Facts
begin

text \<open>
  The files of sessions: the escaped name can be read back, so two sessions whose names are no
  relative directories never share a file.
\<close>

lemma percent_not_kept: "\<not> session_char CHR ''%''"
  by (simp add: session_char_def is_lower_def is_upper_def is_digit_def)

lemma upper_hex_inj: "upper_hex m = upper_hex n \<Longrightarrow> m mod 16 = n mod 16"
proof -
  have "distinct ''0123456789ABCDEF''" by simp
  then show "upper_hex m = upper_hex n \<Longrightarrow> m mod 16 = n mod 16"
    unfolding upper_hex_def by (subst (asm) nth_eq_iff_index_eq) auto
qed

lemma session_byte_inj:
  assumes "session_byte c @ s = session_byte d @ t"
  shows "c = d \<and> s = t"
proof (cases "session_char c"; cases "session_char d")
  assume "\<not> session_char c" "\<not> session_char d"
  then have parts: "upper_hex (of_char c div 16) = upper_hex (of_char d div 16)" "upper_hex (of_char c) = upper_hex (of_char d)" "s = t"
    using assms by (simp_all add: session_byte_def)
  have eqs: "of_char c div 16 mod 16 = (of_char d div 16 mod 16 :: nat)" "of_char c mod 16 = (of_char d mod 16 :: nat)"
    using upper_hex_inj [OF parts(1)] upper_hex_inj [OF parts(2)] by simp_all
  have "(of_char c :: nat) = of_char d" by (rule byte_eq [OF eqs]) simp_all
  then show ?thesis using parts(3) by simp
qed (use assms percent_not_kept in \<open>auto simp: session_byte_def\<close>)

lemma session_name_inj: "session_name s = session_name t \<Longrightarrow> s = t"
proof (induction s arbitrary: t)
  case Nil
  then show ?case by (cases t) (auto simp: session_name_def session_byte_def split: if_splits)
next
  case (Cons c s)
  then obtain d u where t: "t = d # u" by (cases t) (auto simp: session_name_def session_byte_def split: if_splits)
  have "session_byte c @ session_name s = session_byte d @ session_name u" using Cons.prems by (simp add: session_name_def t)
  from session_byte_inj [OF this] show ?case using Cons.IH t by blast
qed

lemma session_name_chars: "sep \<notin> set (session_name s)"
proof -
  have "upper_hex n \<in> set ''0123456789ABCDEF''" for n unfolding upper_hex_def by (rule nth_mem) simp
  moreover have "sep \<notin> set ''0123456789ABCDEF''" by (simp add: sep_def)
  ultimately have hex: "sep \<noteq> upper_hex n" for n by metis
  have "\<not> session_char sep" "sep \<noteq> CHR ''%''" by (simp_all add: session_char_def sep_def is_lower_def is_upper_def is_digit_def)
  then have "sep \<notin> set (session_byte c)" for c by (auto simp: session_byte_def hex)
  then show ?thesis by (auto simp: session_name_def)
qed

text \<open>A name that is its own directory; the other three are escaped to themselves.\<close>

definition proper_session :: "string \<Rightarrow> bool" where
  "proper_session s \<longleftrightarrow> s \<noteq> [] \<and> s \<noteq> ''.'' \<and> s \<noteq> ''..''"

lemma session_name_dots: "session_name [] = []" "session_name ''.'' = ''.''" "session_name ''..'' = ''..''"
  by code_simp+

lemma proper_name: "proper_session s \<Longrightarrow> session_name s \<noteq> [] \<and> session_name s \<noteq> ''.'' \<and> session_name s \<noteq> ''..''"
  unfolding proper_session_def using session_name_inj session_name_dots by metis

lemma segments_ok_rooted_iff:
  "segments_ok True ss \<longleftrightarrow> (\<forall>s \<in> set ss. s \<noteq> [] \<and> s \<noteq> ''.'' \<and> s \<noteq> ''..'' \<and> sep \<notin> set s)"
  by (auto simp: segments_ok_def)

lemma split_rooted: "segments_ok True ss \<Longrightarrow> split_on sep (rooted_path ss) = [] # (if ss = [] then [[]] else ss)"
proof -
  assume ok: "segments_ok True ss"
  then have "split_on sep (join [sep] ss) = ss" if "ss \<noteq> []" using that by (intro split_on_join) (auto simp: segments_ok_def)
  then show ?thesis by (simp add: rooted_path_def)
qed

lemma rooted_inj: "segments_ok True ss \<Longrightarrow> segments_ok True ts \<Longrightarrow> rooted_path ss = rooted_path ts \<Longrightarrow> ss = ts"
proof -
  assume ok: "segments_ok True ss" "segments_ok True ts" "rooted_path ss = rooted_path ts"
  from split_rooted [OF ok(1)] split_rooted [OF ok(2)] have "(if ss = [] then [[]] else ss) = (if ts = [] then [[]] else ts)"
    using ok(3) by simp
  then show "ss = ts" using ok(1,2) by (auto simp: segments_ok_def split: if_splits)
qed

text \<open>Names beneath a clean absolute directory.\<close>

lemma join_two: "ss \<noteq> [] \<Longrightarrow> ts \<noteq> [] \<Longrightarrow> join [c] (ss @ ts) = join [c] ss @ c # join [c] ts"
proof (induction ss)
  case (Cons s ss)
  then show ?case by (cases ss; cases ts) auto
qed simp

lemma clean_joined:
  assumes "us \<noteq> []" and "\<forall>s \<in> set us. sep \<notin> set s"
  shows "clean_path (sep # join [sep] us) = rooted_path (clean_segments True us)"
proof -
  have "split_on sep (sep # join [sep] us) = [] # us" using split_on_join [OF assms] by simp
  moreover have "clean_segments True ([] # us) = clean_segments True us"
    by (simp add: clean_segments_def clean_segment_def)
  ultimately show ?thesis by (simp add: clean_path_def is_abs_def has_prefix_iff rooted_path_def)
qed

lemma join_beneath:
  assumes "segments_ok True ss" and "segments_ok True ts" and "ts \<noteq> []"
  shows "join_path (rooted_path ss # ts) = rooted_path (ss @ ts)"
proof -
  let ?us = "(if ss = [] then [[]] else ss) @ ts"
  have ok: "segments_ok True (ss @ ts)" using assms(1,2) by (auto simp: segments_ok_rooted_iff)
  have nosep: "\<forall>s \<in> set ?us. sep \<notin> set s" using ok by (auto simp: segments_ok_def)
  have "join [sep] (rooted_path ss # ts) = sep # join [sep] ?us"
  proof (cases "ss = []")
    case True
    then show ?thesis using assms(3) by (cases ts) (simp_all add: rooted_path_def)
  next
    case False
    then show ?thesis using join_two [OF False assms(3), of sep] assms(3) by (cases ts) (simp_all add: rooted_path_def)
  qed
  then have "join_path (rooted_path ss # ts) = rooted_path (clean_segments True ?us)"
    using clean_joined [OF _ nosep] by (simp add: join_path_def rooted_path_def)
  also have "clean_segments True ?us = clean_segments True (ss @ ts)"
    by (simp add: clean_segments_def clean_segment_def)
  also have "\<dots> = ss @ ts" by (rule clean_segments_fixed [OF ok])
  finally show ?thesis .
qed

lemma last_seen_file_rooted:
  assumes "segments_ok True home" and "vo_home opts = rooted_path home" and "proper_session (vo_session opts)"
  shows "last_seen_file opts = rooted_path (home @ [''sessions'', session_name (vo_session opts), ''last-seen.json''])"
proof -
  have "segments_ok True [''sessions'', session_name (vo_session opts), ''last-seen.json'']"
    using proper_name [OF assms(3)] session_name_chars by (auto simp: segments_ok_rooted_iff sep_def)
  from join_beneath [OF assms(1) this] show ?thesis by (simp add: last_seen_file_def assms(2))
qed

text \<open>The home directory that \<^verbatim>\<open>Parse\<close> leaves is clean and absolute.\<close>

lemma abs_path_rooted: "is_abs cwd \<Longrightarrow> \<exists>ss. segments_ok True ss \<and> abs_path cwd p = rooted_path ss"
proof -
  assume cwd: "is_abs cwd"
  have "\<exists>q. is_abs q \<and> abs_path cwd p = clean_path q"
  proof (cases "is_abs p")
    case False
    have "cwd \<noteq> []" using cwd by (auto simp: is_abs_def has_prefix_def)
    then have "abs_path cwd p = clean_path (join [sep] [cwd, p])" using False by (simp add: abs_path_def join_path_def)
    moreover have "is_abs (join [sep] [cwd, p])" using cwd by (cases cwd) (simp_all add: is_abs_def has_prefix_def)
    ultimately show ?thesis by blast
  qed (auto simp: abs_path_def)
  then show ?thesis using clean_rooted by metis
qed

lemma parsed_home:
  assumes "parse_options user_home cwd env argv = Inr opts" and "is_abs cwd" and "\<not> vo_help opts"
  shows "\<exists>ss. segments_ok True ss \<and> vo_home opts = rooted_path ss"
proof -
  from assms(1) obtain o' where o': "parse_args (first_options env) argv = Inr o'" by (auto simp: parse_options_def)
  with assms have "\<exists>h. vo_home opts = abs_path cwd h"
    by (auto simp: parse_options_def Let_def split: if_splits)
  then show ?thesis using abs_path_rooted [OF assms(2)] by metis
qed

lemma session_files:
  assumes "segments_ok True home" and "vo_home a = rooted_path home" and "vo_home b = rooted_path home"
    and "proper_session (vo_session a)" and "proper_session (vo_session b)"
  shows "last_seen_file a = last_seen_file b \<longleftrightarrow> vo_session a = vo_session b"
    and "dir_path (dir_path (last_seen_file a)) = join_path [rooted_path home, ''sessions'']"
proof -
  let ?ss = "\<lambda>opts. home @ [''sessions'', session_name (vo_session opts), ''last-seen.json'']"
  have ok: "segments_ok True (?ss opts)" if "proper_session (vo_session opts)" for opts
    using assms(1) proper_name [OF that] session_name_chars by (auto simp: segments_ok_rooted_iff sep_def)
  note files = last_seen_file_rooted [OF assms(1,2,4)] last_seen_file_rooted [OF assms(1,3,5)]
  show "last_seen_file a = last_seen_file b \<longleftrightarrow> vo_session a = vo_session b"
  proof
    assume "last_seen_file a = last_seen_file b"
    then have "?ss a = ?ss b" using rooted_inj ok assms(4,5) unfolding files by blast
    then show "vo_session a = vo_session b" using session_name_inj by simp
  qed (use files in simp)
  have "segments_ok True (home @ [''sessions'', session_name (vo_session a)])" "segments_ok True (home @ [''sessions''])"
    using ok [OF assms(4)] by (auto simp: segments_ok_rooted_iff)
  then have "dir_path (dir_path (last_seen_file a)) = rooted_path (home @ [''sessions''])"
    unfolding files using dir_of_rooted [OF ok [OF assms(4)]] dir_of_rooted [of "home @ [''sessions'', session_name (vo_session a)]"]
    by (simp add: butlast_append)
  also have "\<dots> = join_path [rooted_path home, ''sessions'']"
    using join_beneath [OF assms(1), of "[''sessions'']"] by (simp add: segments_ok_rooted_iff sep_def)
  finally show "dir_path (dir_path (last_seen_file a)) = join_path [rooted_path home, ''sessions'']" .
qed

text \<open>The two names that are relative directories leave the directory of sessions.\<close>

lemma dotted_sessions:
  "last_seen_file ((first_options (\<lambda>k. None))\<lparr>vo_home := ''/home'', vo_session := ''..''\<rparr>) = ''/home/last-seen.json''"
  "last_seen_file ((first_options (\<lambda>k. None))\<lparr>vo_home := ''/home'', vo_session := ''.''\<rparr>) =
     last_seen_file ((first_options (\<lambda>k. None))\<lparr>vo_home := ''/home'', vo_session := []\<rparr>)"
  by code_simp+

end
