(* ===== verification/Verify_Properties.thy ===== *)
theory Verify_Properties
  imports Verify_Order Report_Keys Delta_Facts Verify_Present Session_Facts
begin

text \<open>
  The properties of verification: the order of verifiers, the observation of a tree, accepted reports and the keys of
  occurrences, simplified diagnostics, and what a session is shown of them.
\<close>

section \<open>The order of verifiers\<close>

text \<open>
  C30: ordering the declared verifiers always ends. It either registers each of them exactly
  once, every one after all the verifiers it requires, or it refuses for a reason that is real: a
  chain of requirements whose last member occurs in it before, a required verifier that is not
  declared, or a declared one that cannot be registered. The bound on the depth of the search is
  never the reason.
\<close>

theorem verifiers_follow_their_upstreams:
  "case order_verifiers T D of
     Inl e \<Rightarrow> order_refused T D e
   | Inr rs \<Rightarrow> \<exists>ids. distinct ids \<and> set ids = declared_ids D \<and> upstreams_first D ids \<and>
       list_all2 (\<lambda>i r. register_verifier T (dv_manifests D i) = Inr r) ids rs"
  by (rule order_searched)

section \<open>Observations\<close>

text \<open>
  C31: of the verifiers and selections folded into an observation, no unit is accounted for
  twice; if the observation is complete every selected unit has a result or is unknown; and every
  result stands on an attested outcome of a selected unit, for a verifier all of whose upstreams
  have a result with an artifact.
\<close>

theorem observation_accounts_once:
  assumes "distinct (List.map vm_id ordered)"
    and "\<forall>v \<in> set ordered. distinct (List.map su_id (sl_units (selection_of selections v)))"
    and "ob = fold_observation tree ordered selections outcomes"
  shows "distinct (List.map result_id (to_results ob) @ List.map unknown_id (to_unknown ob)) \<and>
    (to_complete ob \<longrightarrow>
       (\<forall>v \<in> set ordered. \<forall>u \<in> set (sl_units (selection_of selections v)).
          (vm_id v, su_id u) \<in> result_id ` set (to_results ob) \<union> unknown_id ` set (to_unknown ob))) \<and>
    (\<forall>r \<in> set (to_results ob). backed ordered selections outcomes (to_results ob) r)"
  using fold_observation_sound [OF assms] by blast

definition demo_build :: verifier_meta where
  "demo_build = \<lparr>vm_id = ''build'', vm_version = ''1'', vm_noun = ''target'', vm_produces = ''artifact'', vm_requires = []\<rparr>"

definition demo_lint :: verifier_meta where
  "demo_lint = \<lparr>vm_id = ''lint'', vm_version = ''2'', vm_noun = ''package'', vm_produces = ''report'',
     vm_requires = [\<lparr>rm_name = ''tool'', rm_verifier = ''build''\<rparr>]\<rparr>"

definition demo_units :: "string \<Rightarrow> unit_selection option" where
  "demo_units = map_of
     [(''build'', \<lparr>sl_units = [\<lparr>su_id = ''app'', su_inputs = []\<rparr>], sl_unknown = []\<rparr>),
      (''lint'', \<lparr>sl_units = [\<lparr>su_id = ''a'', su_inputs = [''a.go'']\<rparr>, \<lparr>su_id = ''b'', su_inputs = [''b.go'']\<rparr>],
         sl_unknown = []\<rparr>)]"

definition demo_attested :: "verifier_meta \<Rightarrow> string \<Rightarrow> (string \<times> string) list \<Rightarrow> unit_outcome" where
  "demo_attested v u outputs =
     \<lparr>uo_kind = ''attested'',
      uo_attestation = Some \<lparr>ua_key = ''k'', ua_verifier = vm_id v, ua_version = vm_version v, ua_unit = u, ua_exit = 0,
        ua_outputs = outputs\<rparr>,
      uo_provenance = \<lparr>pv_recomputed = True, pv_carried = []\<rparr>, uo_reason = [], uo_scratch = [], uo_audit = []\<rparr>"

definition demo_outcomes :: "string \<times> string \<Rightarrow> unit_outcome option" where
  "demo_outcomes = map_of
     [((''build'', ''app''), demo_attested demo_build ''app'' [(''artifact'', ''d1'')]),
      ((''lint'', ''a''), demo_attested demo_lint ''a'' [(''report.json'', ''d2'')]),
      ((''lint'', ''b''), demo_attested demo_lint ''b'' [(''report.json'', ''d3'')])]"

definition demo_observed :: tree_observation where
  "demo_observed = fold_observation ''tree'' [demo_build, demo_lint] demo_units demo_outcomes"

lemma demo_ids_distinct:
  "distinct (List.map vm_id [demo_build, demo_lint])"
  "\<forall>v \<in> set [demo_build, demo_lint]. distinct (List.map su_id (sl_units (selection_of demo_units v)))"
  by code_simp+

theorem observation_accounts_once_witness:
  "to_complete demo_observed \<and> length (to_results demo_observed) = 3 \<and>
   distinct (List.map result_id (to_results demo_observed) @ List.map unknown_id (to_unknown demo_observed))"
proof (intro conjI)
  show "to_complete demo_observed" "length (to_results demo_observed) = 3" by code_simp+
  show "distinct (List.map result_id (to_results demo_observed) @ List.map unknown_id (to_unknown demo_observed))"
    using observation_accounts_once [OF demo_ids_distinct demo_observed_def] by blast
qed

text \<open>
  C32: a satisfied gate over a complete observation means that every verifier it requires is one
  of the observation, that each unit selected for it has a result on an attested outcome, and that
  no occurrence has a blocking severity. Exit code 0 without a focus means the same of every
  verifier, for the severities that block, and that the gate was satisfied.
\<close>

theorem clean_exit_is_attested:
  assumes "distinct (List.map vm_id ordered)"
    and "\<forall>v \<in> set ordered. distinct (List.map su_id (sl_units (selection_of selections v)))"
    and "ob = fold_observation tree ordered selections outcomes" and "to_complete ob"
  shows "(gs_satisfied (evaluate_gate name g ob ocs) \<longrightarrow>
       set (vg_requires g) \<subseteq> vm_id ` set ordered \<and>
       (\<forall>v \<in> set ordered. vm_id v \<in> set (vg_requires g) \<longrightarrow>
          (\<forall>u \<in> set (sl_units (selection_of selections v)). \<exists>r \<in> set (to_results ob).
             result_id r = (vm_id v, su_id u) \<and> backed ordered selections outcomes (to_results ob) r)) \<and>
       (\<forall>c \<in> set ocs. di_severity (oc_diagnostic c) \<notin> set (vg_blocking g))) \<and>
    (exit_code glob ob ocs f gate blocking = 0 \<and> unrestricted f \<longrightarrow>
       (\<forall>s. gate = Some s \<longrightarrow> gs_satisfied s) \<and>
       (\<forall>v \<in> set ordered. \<forall>u \<in> set (sl_units (selection_of selections v)). \<exists>r \<in> set (to_results ob).
          result_id r = (vm_id v, su_id u) \<and> backed ordered selections outcomes (to_results ob) r) \<and>
       (\<forall>c \<in> set ocs. di_severity (oc_diagnostic c) \<notin> set blocking))"
proof (intro conjI impI; (elim conjE)?)
  assume ok: "gs_satisfied (evaluate_gate name g ob ocs)"
  have known: "vm_id ` set (to_verifiers ob) = vm_id ` set ordered"
    by (auto simp: assms(3) fold_observation_def Let_def image_image)
  then show "set (vg_requires g) \<subseteq> vm_id ` set ordered" using ok by (auto simp: gate_satisfied)
  show "\<forall>c \<in> set ocs. di_severity (oc_diagnostic c) \<notin> set (vg_blocking g)" using ok by (simp add: gate_satisfied)
  show "\<forall>v \<in> set ordered. vm_id v \<in> set (vg_requires g) \<longrightarrow>
      (\<forall>u \<in> set (sl_units (selection_of selections v)). \<exists>r \<in> set (to_results ob).
         result_id r = (vm_id v, su_id u) \<and> backed ordered selections outcomes (to_results ob) r)"
    using ok unmissed_results [OF assms] by (simp add: gate_satisfied)
next
  assume ok: "exit_code glob ob ocs f gate blocking = 0" "unrestricted f"
  have "\<forall>u \<in> set (to_unknown ob). False" using ok unrestricted_admits [OF ok(2)] by (simp add: exit_zero)
  then show "\<forall>v \<in> set ordered. \<forall>u \<in> set (sl_units (selection_of selections v)). \<exists>r \<in> set (to_results ob).
      result_id r = (vm_id v, su_id u) \<and> backed ordered selections outcomes (to_results ob) r"
    using unmissed_results [OF assms] by blast
  show "\<forall>s. gate = Some s \<longrightarrow> gs_satisfied s" using ok by (simp add: exit_zero)
  show "\<forall>c \<in> set ocs. di_severity (oc_diagnostic c) \<notin> set blocking"
    using ok by (simp add: exit_zero unrestricted_focuses)
qed

definition demo_gate :: verify_gate where
  "demo_gate = \<lparr>vg_requires = [''lint''], vg_blocking = [''error'']\<rparr>"

lemma demo_complete: "to_complete demo_observed" by code_simp

theorem clean_exit_is_attested_witness:
  "gs_satisfied (evaluate_gate ''merge'' demo_gate demo_observed []) \<and>
   set (vg_requires demo_gate) \<subseteq> vm_id ` set [demo_build, demo_lint] \<and>
   exit_code (\<lambda>p f. False) demo_observed [] empty_focus None [''error''] = 0"
proof (intro conjI)
  show ok: "gs_satisfied (evaluate_gate ''merge'' demo_gate demo_observed [])" by code_simp
  show "exit_code (\<lambda>p f. False) demo_observed [] empty_focus None [''error''] = 0" by code_simp
  show "set (vg_requires demo_gate) \<subseteq> vm_id ` set [demo_build, demo_lint]"
    using clean_exit_is_attested [OF demo_ids_distinct demo_observed_def demo_complete] ok by blast
qed

section \<open>Reports\<close>




definition demo_diagnostic :: report_diagnostic where
  "demo_diagnostic = \<lparr>di_error_key = ''unused'', di_code = None, di_severity = ''error'', di_message = ''unused x'',
     di_file = Some ''a.go'',
     di_range = Some \<lparr>tr_start = \<lparr>tp_line = 1, tp_column = 2\<rparr>, tr_end = None\<rparr>\<rparr>"

definition demo_report :: diagnostic_report where
  "demo_report = \<lparr>rp_unit = ''a'', rp_diagnostics = [demo_diagnostic],
     rp_members = [\<lparr>rp_name = ''TestA'', rp_status = ''pass''\<rparr>], rp_advice = []\<rparr>"



text \<open>
  C34: every diagnostic of every unit becomes exactly one occurrence, in the order of the
  sorted units, and, for a digest without collisions, two occurrences of one set have the same
  key only if both have no file and agree in verifier, error key and unit.
\<close>

theorem occurrence_keys_identify:
  assumes "digest_ok digest" and "\<forall>u \<in> set units. unit_texts_ok u"
  shows "List.map (\<lambda>c. (oc_verifier c, oc_unit c, oc_diagnostic c)) (occurrences_of digest files units) =
      concat (List.map unit_facts (ordered_units units)) \<and>
    sorted_wrt (\<lambda>c c'. oc_key c = oc_key c' \<longrightarrow> same_fileless c c') (occurrences_of digest files units)"
  using occurrences_told occurrences_keys [OF assms] by blast

definition demo_unit :: report_unit where
  "demo_unit = \<lparr>ru_verifier = ''lint'', ru_unit = ''a'',
     ru_report = demo_report\<lparr>rp_diagnostics := [demo_diagnostic, demo_diagnostic]\<rparr>\<rparr>"

lemma demo_unit_texts: "\<forall>u \<in> set [demo_unit]. unit_texts_ok u"
  by (simp add: demo_unit_def demo_report_def demo_diagnostic_def unit_texts_ok_def diagnostic_texts_ok_def text_ok_def)

theorem occurrence_keys_identify_witness:
  "distinct (List.map oc_key (occurrences_of plain_hex (\<lambda>f. ''package a'') [demo_unit]))"
proof -
  have "list_all (\<lambda>c. di_file (oc_diagnostic c) \<noteq> None) (occurrences_of plain_hex (\<lambda>f. ''package a'') [demo_unit])"
    by code_simp
  then show ?thesis
    using occurrence_keys_identify [OF plain_hex_ok demo_unit_texts, of "\<lambda>f. ''package a''"] filed_keys_distinct by blast
qed

section \<open>Simplified diagnostics\<close>


section \<open>What a session is shown\<close>

text \<open>
  C36: the next Last Seen has each key once: the keys that were there, are gone and belong to a
  unit that is unknown now, and the keys of present occurrences that were there or are in focus.
\<close>

theorem next_last_seen_keys:
  "distinct (List.map fst (next_seen glob i)) \<and>
   fst ` set (next_seen glob i) =
     fst ` set (filter (carried i) (ls_occurrences (fi_last i))) \<union>
     oc_key ` set (filter (remembered glob i) (fi_occurrences i))"
  using next_seen_distinct next_seen_keys by blast

text \<open>
  C37: looking again at the same observation with the Last Seen just written shows nothing new
  and nothing resolved, counts every occurrence in focus as unchanged, and leaves a Last Seen with
  the same keys.
\<close>

theorem looking_again_is_quiet:
  "dl_new (fst (delta_fold glob (look_again glob i))) = [] \<and>
   dl_resolved (fst (delta_fold glob (look_again glob i))) = [] \<and>
   dl_unchanged (fst (delta_fold glob (look_again glob i))) = length (filter (in_focus glob i) (fi_occurrences i)) \<and>
   fst ` set (next_seen glob (look_again glob i)) = fst ` set (next_seen glob i)"
  using look_again_quiet [OF refl] look_again_keys by blast

text \<open>
  C38: the groups that are printed count exactly the new, the resolved and the unchanged
  occurrences of the delta, although they are formed from all occurrences by simplifying.
\<close>

theorem groups_count_the_delta:
  assumes "severities_known (ls_occurrences (fi_last i))" and "d = fst (delta_fold glob i)"
  shows "(\<Sum>g \<leftarrow> go_groups (dl_output d). dc_new (gp_counts g)) = length (dl_new d) \<and>
    (\<Sum>g \<leftarrow> go_groups (dl_output d). dc_resolved (gp_counts g)) = length (dl_resolved d) \<and>
    (\<Sum>g \<leftarrow> go_groups (dl_output d). dc_unchanged (gp_counts g)) = dl_unchanged d"
  using delta_totals [OF assms, of StatusNew] delta_totals [OF assms, of StatusResolved]
    delta_totals [OF assms, of StatusUnchanged]
  by (simp add: counted_def)

definition demo_occurrence :: "string \<Rightarrow> report_occurrence" where
  "demo_occurrence k = \<lparr>oc_key = k, oc_verifier = ''lint'', oc_unit = ''a'', oc_diagnostic = demo_diagnostic, oc_anchor = k\<rparr>"

definition demo_fold :: fold_input where
  "demo_fold = \<lparr>fi_observation = demo_observed, fi_occurrences = [demo_occurrence ''1'', demo_occurrence ''2''],
     fi_members = [], fi_last = \<lparr>ls_tree = Some ''old'',
       ls_occurrences = [(''2'', seen_of (demo_occurrence ''2'')), (''3'', seen_of (demo_occurrence ''3''))]\<rparr>,
     fi_focus = empty_focus, fi_gate = None\<rparr>"

lemma demo_severities: "severities_known (ls_occurrences (fi_last demo_fold))"
  by code_simp

theorem groups_count_the_delta_witness:
  "(\<Sum>g \<leftarrow> go_groups (dl_output (fst (delta_fold (\<lambda>p f. False) demo_fold))). dc_resolved (gp_counts g)) = 1"
proof -
  have "length (dl_resolved (fst (delta_fold (\<lambda>p f. False) demo_fold))) = 1" by code_simp
  then show ?thesis using groups_count_the_delta [OF demo_severities refl] by simp
qed

text \<open>
  C39: two command lines read in an absolute working directory with the same home directory use
  the same file of Last Seen only if they name the same session, and that file lies in a
  directory of its own beneath the sessions; the names that are empty or dots are excepted.
\<close>

theorem session_files_apart:
  assumes "is_abs cwd" and "parse_options user_home cwd env argv = Inr a" and "parse_options user_home cwd env argv' = Inr b"
    and "\<not> vo_help a" and "\<not> vo_help b" and "vo_home a = vo_home b"
    and "proper_session (vo_session a)" and "proper_session (vo_session b)"
  shows "(last_seen_file a = last_seen_file b \<longleftrightarrow> vo_session a = vo_session b) \<and>
    dir_path (dir_path (last_seen_file a)) = join_path [vo_home a, ''sessions'']"
proof -
  obtain ss where ss: "segments_ok True ss" "vo_home a = rooted_path ss" using parsed_home [OF assms(2,1,4)] by blast
  then have "vo_home b = rooted_path ss" using assms(6) by simp
  from session_files [OF ss this assms(7,8)] show ?thesis by (simp add: ss(2))
qed

definition demo_options :: "string \<Rightarrow> verify_options" where
  "demo_options s = (first_options (\<lambda>k. None))\<lparr>vo_home := ''/home/me/.verify'', vo_session := s\<rparr>"

lemma demo_parsed:
  "parse_options (Inr ''/home/me'') ''/work'' (\<lambda>k. None) [''--session'', ''a/b''] = Inr (demo_options ''a/b'')"
  "parse_options (Inr ''/home/me'') ''/work'' (\<lambda>k. None) [''--session'', ''a%b''] = Inr (demo_options ''a%b'')"
  by code_simp+

theorem session_files_apart_witness:
  "last_seen_file (demo_options ''a/b'') \<noteq> last_seen_file (demo_options ''a%b'')"
proof -
  have "is_abs ''/work''" "\<not> vo_help (demo_options ''a/b'')" "\<not> vo_help (demo_options ''a%b'')"
      "vo_home (demo_options ''a/b'') = vo_home (demo_options ''a%b'')" "proper_session (vo_session (demo_options ''a/b''))"
      "proper_session (vo_session (demo_options ''a%b''))"
    by code_simp+
  note facts = this
  have "vo_session (demo_options ''a/b'') \<noteq> vo_session (demo_options ''a%b'')" by code_simp
  then show ?thesis
    using session_files_apart [OF facts(1) demo_parsed facts(2-6)] by blast
qed

text \<open>
  C40: presenting a delta, whatever the file system and the output answer: Last Seen is
  replaced only without the option to show all, only by the complete, synced file of the Last Seen
  that goes with the delta shown, and only after the output took the delta's whole text; an exit
  code is returned only after that, and is the one of the observation.
\<close>

theorem commit_follows_output:
  "present_log glob J p (fst (present glob S J p s)) (drop (length (tw_log s)) (tw_log (snd (present glob S J p s))))"
proof -
  obtain r t where m: "present glob S J p s = (r, t)" by (cases "present glob S J p s")
  from emitsD [OF emits_present m] obtain es where "tw_log t = tw_log s @ es" "present_log glob J p r es" by blast
  then show ?thesis by (simp add: m)
qed

end
