(* ===== verification/Spec2Isabelle.thy ===== *)
theory Spec2Isabelle
  imports Plan_Properties Change_Properties Engine_Properties Profile_Properties Cache_Properties
    Repo_Properties Verify_Properties
begin

text \<open>
  \<^bold>\<open>Workbench\<close> is a Go program (\<^verbatim>\<open>src/cmd/workbench\<close> over the packages of \<^verbatim>\<open>src/internal\<close>) that
  assembles a working tree out of several repositories, keeps task plans beside it, tells agents
  what they need to know, and verifies the tree. This library models the parts that decide:
  each is a group of executable definitions translated from the source, with lemmas about them and
  the properties that make the part correct. What talks to the operating system, to Git, to a
  container or to a JSON decoder is modelled as a caller of capabilities that may answer anything.

  \<^bold>\<open>The parts and how they meet.\<close> A repository declares what it includes, builds and verifies. The
  repository packages find the closure of its includes, reproduce it, bring it onto branches and
  remove what is left over; the change saga publishes a change of several repositories step by
  step; the task plan says what may be worked on next; the context engine chooses and delivers
  what an agent is told, under the profile that composition computes, with its snapshots in the
  cache; verification runs each declared verifier, folds what they report into an observation of the
  tree and shows a session what changed since it last looked.

  \<^bold>\<open>Shared theories.\<close> \<open>Workbench_Prelude\<close>: results as sums (\<open>Inl\<close> is the error), strings
  as bytes, slices; the locales \<open>kept_invariant\<close> and \<open>checked_log\<close> of event-sourced components.
  \<open>Go_Effects\<close>: state passing with errors that keep earlier effects, and Hoare triples for it.
  \<open>Go_Services\<close>: functions that call capabilities, with a log of questions and answers; \<open>emits\<close>
  relates a result to what was added to the log, whatever was answered. \<open>Go_Maps\<close>: maps as
  association lists behind the locale \<open>keyed_store\<close>. \<open>Go_Loops\<close>: loops that may not end
  (\<open>None\<close> is not ending) and the locale \<open>worklist\<close> of searches that do. \<open>Go_Numbers\<close>,
  \<open>Go_Json\<close>, \<open>Go_Paths\<close>, \<open>Go_Buckets\<close>: decimal and hexadecimal texts, \<^verbatim>\<open>encoding/json\<close> strings and
  UTF-8, \<^verbatim>\<open>path/filepath\<close>, grouping in order of first appearance.

  \<^bold>\<open>Task plans\<close> (\<^verbatim>\<open>internal/plan\<close>). \<open>Plan_Actors\<close> is \<^verbatim>\<open>actors.go\<close>: identities, aliases and their
  resolution. \<open>Plan_Definition\<close> is \<^verbatim>\<open>definition.go\<close>: the authored graph, its validation, needs and the
  fingerprint. \<open>Plan_Ledger\<close> is \<^verbatim>\<open>ledger.go\<close>, \<^verbatim>\<open>work.go\<close>: events, their validation, the fold into
  reported work. \<open>Plan_Graph\<close> and \<open>Plan_Check\<close> are \<^verbatim>\<open>check.go\<close>: \<^verbatim>\<open>reaches\<close>, \<^verbatim>\<open>order\<close>,
  \<^verbatim>\<open>CriticalPath\<close>, \<^verbatim>\<open>components\<close> and \<^verbatim>\<open>Check\<close>. \<open>Plan_Report\<close> is \<^verbatim>\<open>report.go\<close>. \<open>Plan_Properties\<close>:
  \<^verbatim>\<open>Check\<close> is silent exactly on sound plans, orders and longest chains are right, folded work is
  consistent, a sound plan always has something to do.

  \<^bold>\<open>The change saga\<close> (\<^verbatim>\<open>internal/change\<close>). \<open>Change_Saga\<close> is \<^verbatim>\<open>saga.go\<close> and \<^verbatim>\<open>candidate.go\<close> over a
  store, a journal and Git as capabilities; \<open>Change_Recovery\<close> and \<open>Change_Properties\<close> tie memory to
  journal: recovery resumes exactly, accepts only ordered journals, and every effect on a repository
  is announced in the journal before.

  \<^bold>\<open>The context engine\<close> (\<^verbatim>\<open>internal/contextengine/engine.go\<close>, \<^verbatim>\<open>internal/contextapi\<close>).
  \<open>Engine_Types\<close>, \<open>Engine_Queue\<close>, \<open>Engine_Budget\<close>, \<open>Engine_Core\<close>, \<open>Engine_Plan\<close>: values, pending queue,
  retained bytes, admission and delivery, \<^verbatim>\<open>Plan\<close> and \<^verbatim>\<open>Confirm\<close>. \<open>Engine_Invariant\<close>,
  \<open>Engine_Thinning\<close>, \<open>Engine_Fitting\<close>, \<open>Engine_Admission\<close>, \<open>Engine_Confirmation\<close>,
  \<open>Engine_Preservation\<close>: every operation keeps the invariant, and the fitting passes suffice.
  \<open>Engine_Delivery\<close>, \<open>Engine_Properties\<close>: what a caller sees of a reachable engine; \<open>Engine_Demo\<close> is the
  concrete run of the witnesses. \<open>Profile_Compose\<close>, \<open>Profile_Properties\<close> are \<^verbatim>\<open>profile.go\<close>.

  \<^bold>\<open>The snapshot pool\<close> (\<^verbatim>\<open>internal/contextcache/cache.go\<close>). \<open>Cache_Format\<close>: options, keys, envelope.
  \<open>Cache_Pool\<close>: lock, recovery, bounded scan and leases over a modelled directory tree.
  \<open>Cache_Publish\<close>: publication, eviction, reading. \<open>Cache_Frame\<close>, \<open>Cache_Rounds\<close>, \<open>Cache_Outcome\<close>,
  \<open>Cache_Contract\<close>, \<open>Cache_Properties\<close>: what stays untouched, that the loops end, what is achieved.

  \<^bold>\<open>Repositories.\<close> \<open>Build_Contract\<close> is \<^verbatim>\<open>internal/buildable/buildable.go\<close> as far as it validates and
  projects; \<open>Repo_Contract\<close> is \<^verbatim>\<open>internal/contract\<close>; \<open>Repo_Closure\<close> is
  \<^verbatim>\<open>internal/repositoryclosure\<close>; \<open>Repo_Orphan\<close>, \<open>Repo_Snapshot\<close> and \<open>Repo_Reconcile\<close> are
  \<^verbatim>\<open>internal/orphan\<close>, \<^verbatim>\<open>internal/snapshot\<close> and \<^verbatim>\<open>internal/gitreconcile\<close>. \<open>Build_Outputs\<close>,
  \<open>Closure_Facts\<close>, \<open>Closure_Declared\<close>, \<open>Orphan_Facts\<close>, \<open>Reconcile_Facts\<close>, \<open>Repo_Properties\<close>: exact manifests, least
  closures, removals and Git commands only after a fresh look; \<open>Repo_Demo\<close> holds concrete runs.

  \<^bold>\<open>Verification\<close> (\<^verbatim>\<open>internal/verify\<close>). \<open>Verify_Order\<close> is \<^verbatim>\<open>Register\<close> and \<^verbatim>\<open>Order\<close> of
  \<^verbatim>\<open>declaration/declaration.go\<close>, \<open>Verify_Observe\<close> is \<^verbatim>\<open>observe/observe.go\<close>, \<open>Verify_Report\<close> is
  \<^verbatim>\<open>report/report.go\<close>, \<open>Verify_Simplify\<close> is \<^verbatim>\<open>simplify/simplify.go\<close>; \<open>Verify_Delta\<close> is \<^verbatim>\<open>delta.go\<close>,
  \<^verbatim>\<open>focus.go\<close> and \<^verbatim>\<open>group.go\<close> of \<^verbatim>\<open>client\<close>, \<open>Verify_Session\<close> its \<^verbatim>\<open>options.go\<close>, \<^verbatim>\<open>render.go\<close> and
  the file of a session, \<open>Verify_Present\<close> its \<^verbatim>\<open>session.go\<close>. \<open>Observe_Facts\<close>, \<open>Report_Facts\<close>,
  \<open>Report_Keys\<close>, \<open>Simplify_Facts\<close>, \<open>Delta_Facts\<close>, \<open>Session_Facts\<close> hold the lemmas, \<open>Verify_Properties\<close> the
  properties: verifiers run after what they require, units are accounted for once and results are attested, reports stay inside their unit,
  occurrences are identified, simplifying and grouping lose nothing, looking twice is quiet, and Last
  Seen is committed only after the output.

  \<^bold>\<open>State.\<close> A struct is a record with a field prefix of its own; an interface or a service is a record
  of functions from a world; a map that is only looked up is a function to options; a tagged string is
  a datatype where the code enumerates it. Errors that callers tell apart are datatypes, others are
  the text the code builds or a part of it. Integers are \<open>nat\<close> or \<open>int\<close> where the code cannot
  overflow, and reduced modulo a power of two where it can (\<open>u32\<close>, \<open>u64\<close>, \<open>i64\<close>).

  \<^bold>\<open>Bounds, fuel and hypotheses.\<close> \<open>limits_ok\<close> and \<open>call_ok\<close> state the engine's configured limits and a
  call within them. The lock wait of the pool takes \<open>acquire_rounds\<close> polls and eviction as many rounds
  as there are snapshots: \<open>Cache_Rounds\<close> shows that neither runs out. The search for an enclosing
  directory takes as many steps as the path has segments. Closure searches are loops that end when
  finitely many repositories are reachable. The search of \<open>order_verifiers\<close> has fuel for one more
  nested call than there are verifiers, which is never used up. SHA-256 is a parameter; where a property needs it, the
  hypothesis is that it has no collisions among hexadecimal texts (\<open>digest_ok\<close>), which the plain
  hexadecimal text satisfies.

  \<^bold>\<open>Not modelled.\<close> JSON decoding and Pkl evaluation (libraries); canonical report bytes; the
  engine, selectors, container sandbox, content store and Git trees of verification (file and process
  I/O); candidate
  resolution and freshness of buildables (Git I/O); the context daemon, providers, hooks and traces
  (processes, transport, storage); setup, skills, workspace and TypeScript projection (file generation);
  distribution and the command line (downloads, flags, printing). The manifest lists every package.
\<close>

end
